(* ===== verification/Prelude.thy ===== *)
theory Prelude
  imports Main
begin

text \<open>
  The part of JavaScript that the Wordflow frontend sources under \<open>src/frontend/src\<close> rely on:
  strings and their methods, thrown errors, array methods whose callback may throw, property
  lookup in plain objects, and the decimal spelling of numbers. The generic lemmas on them are
  declared as simp or introduction rules, or collected in the named theorem lists below, so that
  the component theories rewrite with them.

  A string is modelled by the list of its UTF-8 bytes (type \<^typ>\<open>string\<close>). Concatenation,
  equality, replacing an ASCII character, splitting at ASCII characters and ASCII case folding
  commute with the encoding; \<open>trim\<close> below works on the encodings of the JavaScript white space.
\<close>

named_theorems js_simps \<open>unfolding rules for the JavaScript helpers\<close>
named_theorems closed_intros \<open>rules for texts that leave the SQL scanner where it was\<close>

subsection \<open>Thrown errors\<close>

datatype js_error = Error (message: string)

type_synonym 'a result = "js_error + 'a"

definition throw :: "string \<Rightarrow> 'a result" where
  "throw m = Inl (Error m)"

fun rbind :: "'a result \<Rightarrow> ('a \<Rightarrow> 'b result) \<Rightarrow> 'b result" where
  "rbind (Inl e) f = Inl e"
| "rbind (Inr x) f = f x"

text \<open>\<open>xs.map(f)\<close> with a callback that may throw: the first error in list order escapes.\<close>

fun rmap :: "('a \<Rightarrow> 'b result) \<Rightarrow> 'a list \<Rightarrow> 'b list result" where
  "rmap f [] = Inr []"
| "rmap f (x # xs) = rbind (f x) (\<lambda>y. rbind (rmap f xs) (\<lambda>ys. Inr (y # ys)))"

text \<open>A loop that carries a state and may throw, \<open>xs.forEach\<close> or \<open>for ... of\<close>.\<close>

fun rfold :: "('a \<Rightarrow> 's \<Rightarrow> 's result) \<Rightarrow> 'a list \<Rightarrow> 's \<Rightarrow> 's result" where
  "rfold f [] s = Inr s"
| "rfold f (x # xs) s = rbind (f x s) (rfold f xs)"

subsection \<open>Properties of plain objects\<close>

text \<open>
  Reading \<open>object[key]\<close> finds an own property or one inherited from \<open>Object.prototype\<close>.
\<close>

definition object_prototype_names :: "string list" where
  "object_prototype_names =
     [''constructor'', ''__defineGetter__'', ''__defineSetter__'', ''hasOwnProperty'',
      ''__lookupGetter__'', ''__lookupSetter__'', ''isPrototypeOf'', ''propertyIsEnumerable'',
      ''toString'', ''valueOf'', ''__proto__'', ''toLocaleString'']"

datatype 'v property = Own 'v | Inherited | Absent

definition get_property :: "(string \<rightharpoonup> 'v) \<Rightarrow> string \<Rightarrow> 'v property" where
  "get_property m k =
     (case m k of Some v \<Rightarrow> Own v
      | None \<Rightarrow> if k \<in> set object_prototype_names then Inherited else Absent)"

subsection \<open>Sets of values\<close>

text \<open>\<open>[...new Set(xs)]\<close>: the first occurrence of every element, in order.\<close>

definition unique :: "'a list \<Rightarrow> 'a list" where
  "unique xs = rev (remdups (rev xs))"

subsection \<open>String methods\<close>

fun join :: "string \<Rightarrow> string list \<Rightarrow> string" where
  "join sep [] = []"
| "join sep [x] = x"
| "join sep (x # y # zs) = x @ sep @ join sep (y # zs)"

definition replaceAll_char :: "char \<Rightarrow> string \<Rightarrow> string \<Rightarrow> string" where
  "replaceAll_char c r s = concat (map (\<lambda>x. if x = c then r else [x]) s)"

text \<open>ASCII case mapping: \<open>value.replace(/[A-Z]/g, (c) => c.toLowerCase())\<close>.\<close>

definition fold_char :: "char \<Rightarrow> char" where
  "fold_char c =
     (if 65 \<le> (of_char c :: nat) \<and> (of_char c :: nat) \<le> 90
      then char_of ((of_char c :: nat) + 32) else c)"

definition fold_case :: "string \<Rightarrow> string" where
  "fold_case s = map fold_char s"

definition upper_char :: "char \<Rightarrow> char" where
  "upper_char c =
     (if 97 \<le> (of_char c :: nat) \<and> (of_char c :: nat) \<le> 122
      then char_of ((of_char c :: nat) - 32) else c)"

text \<open>\<open>toUpperCase\<close> on the ASCII words the sources apply it to.\<close>

definition ascii_upper :: "string \<Rightarrow> string" where
  "ascii_upper s = map upper_char s"

text \<open>The UTF-8 encodings of the code points that \<open>String.prototype.trim\<close> strips.\<close>

definition white_space :: "string list" where
  "white_space =
     map (\<lambda>n::nat. [char_of n]) [9, 10, 11, 12, 13, 32] @
     [[CHR 0xC2, CHR 0xA0], [CHR 0xE1, CHR 0x9A, CHR 0x80]] @
     map (\<lambda>n::nat. [CHR 0xE2, CHR 0x80, char_of n])
       [0x80, 0x81, 0x82, 0x83, 0x84, 0x85, 0x86, 0x87, 0x88, 0x89, 0x8A, 0xA8, 0xA9, 0xAF] @
     [[CHR 0xE2, CHR 0x81, CHR 0x9F], [CHR 0xE3, CHR 0x80, CHR 0x80],
      [CHR 0xEF, CHR 0xBB, CHR 0xBF]]"

definition has_prefix :: "string \<Rightarrow> string \<Rightarrow> bool" where
  "has_prefix p s \<longleftrightarrow> take (length p) s = p"

function strip_prefixes :: "string list \<Rightarrow> string \<Rightarrow> string" where
  "strip_prefixes ws s =
     (case find (\<lambda>w. w \<noteq> [] \<and> has_prefix w s) ws of
        None \<Rightarrow> s
      | Some w \<Rightarrow> strip_prefixes ws (drop (length w) s))"
  by pat_completeness auto
termination
proof (relation "measure (\<lambda>(ws, s). length s)", goal_cases)
  case (2 ws s w)
  then have "w \<noteq> []" and "has_prefix w s"
    by (auto simp: find_Some_iff)
  then show ?case
    by (cases s) (auto simp: has_prefix_def)
qed simp

definition trim :: "string \<Rightarrow> string" where
  "trim s =
     rev (strip_prefixes (map rev white_space) (rev (strip_prefixes white_space s)))"

subsection \<open>Decimal numbers\<close>

definition digit_char :: "nat \<Rightarrow> char" where
  "digit_char d = char_of (48 + d)"

definition is_digit :: "char \<Rightarrow> bool" where
  "is_digit c \<longleftrightarrow> 48 \<le> (of_char c :: nat) \<and> (of_char c :: nat) \<le> 57"

text \<open>\<open>String(n)\<close> for a non-negative safe integer.\<close>

fun show_nat :: "nat \<Rightarrow> string" where
  "show_nat n = (if n < 10 then [digit_char n] else show_nat (n div 10) @ [digit_char (n mod 10)])"

declare show_nat.simps [simp del]

definition show_int :: "int \<Rightarrow> string" where
  "show_int z = (if z < 0 then CHR ''-'' # show_nat (nat (- z)) else show_nat (nat z))"

definition drop_sign :: "string \<Rightarrow> string" where
  "drop_sign s = (case s of c # r \<Rightarrow> if c = CHR ''+'' \<or> c = CHR ''-'' then r else s | [] \<Rightarrow> [])"

text \<open>The regular expression \<open>^[+-]?\d+$\<close>.\<close>

definition integer_text :: "string \<Rightarrow> bool" where
  "integer_text s \<longleftrightarrow> drop_sign s \<noteq> [] \<and> list_all is_digit (drop_sign s)"

definition exponent_text :: "string \<Rightarrow> bool" where
  "exponent_text s =
     (case s of [] \<Rightarrow> True
      | c # r \<Rightarrow> (c = CHR ''e'' \<or> c = CHR ''E'') \<and> integer_text r)"

text \<open>The regular expression \<open>^[+-]?(?:\d+(?:\.\d*)?|\.\d+)(?:e[+-]?\d+)?$\<close> with flag \<open>i\<close>.\<close>

definition numeric_text :: "string \<Rightarrow> bool" where
  "numeric_text s =
     (let u = drop_sign s; ds = takeWhile is_digit u; r = dropWhile is_digit u
      in case r of
           [] \<Rightarrow> ds \<noteq> []
         | c # r' \<Rightarrow>
             if c = CHR ''.'' then
               (ds \<noteq> [] \<or> takeWhile is_digit r' \<noteq> []) \<and> exponent_text (dropWhile is_digit r')
             else ds \<noteq> [] \<and> exponent_text r)"

subsection \<open>Lemmas on results\<close>

lemma throw_neq_Inr [simp]: "throw m \<noteq> Inr x" "Inr x \<noteq> throw m"
  by (simp_all add: throw_def)

lemma throw_eq_Inl [simp]: "throw m = Inl e \<longleftrightarrow> e = Error m"
  by (auto simp: throw_def)

lemma rbind_throw [simp]: "rbind (throw m) f = throw m"
  by (simp add: throw_def)

lemma rbind_Inr_iff [simp]: "rbind r f = Inr y \<longleftrightarrow> (\<exists>x. r = Inr x \<and> f x = Inr y)"
  by (cases r) auto

lemma rbind_cong [fundef_cong]:
  "r = r' \<Longrightarrow> (\<And>x. r' = Inr x \<Longrightarrow> f x = g x) \<Longrightarrow> rbind r f = rbind r' g"
  by (cases r') auto

lemma rmap_cong [fundef_cong]:
  "xs = ys \<Longrightarrow> (\<And>x. x \<in> set ys \<Longrightarrow> f x = g x) \<Longrightarrow> rmap f xs = rmap g ys"
proof (induction xs arbitrary: ys)
  case Nil
  then show ?case by simp
next
  case (Cons x xs)
  then have "f x = g x" and "rmap f xs = rmap g xs"
    by auto
  with Cons.prems(1) show ?case by auto
qed

lemma rmap_Inr_iff: "rmap f xs = Inr ys \<longleftrightarrow> list_all2 (\<lambda>x y. f x = Inr y) xs ys"
  by (induction xs arbitrary: ys) (auto simp: list_all2_Cons1)

lemma rmap_Inr_member:
  "rmap f xs = Inr ys \<Longrightarrow> y \<in> set ys \<Longrightarrow> \<exists>x \<in> set xs. f x = Inr y"
  by (induction xs arbitrary: ys) auto

lemma rmap_Inr_member_of:
  "rmap f xs = Inr ys \<Longrightarrow> x \<in> set xs \<Longrightarrow> \<exists>y \<in> set ys. f x = Inr y"
  by (induction xs arbitrary: ys) auto

lemma rmap_Inr_length: "rmap f xs = Inr ys \<Longrightarrow> length ys = length xs"
  by (auto simp: rmap_Inr_iff dest: list_all2_lengthD)

lemma rmap_Inr_all:
  assumes "rmap f xs = Inr ys" and "\<And>x y. x \<in> set xs \<Longrightarrow> f x = Inr y \<Longrightarrow> P y"
  shows "list_all P ys"
proof -
  from assms(1) have "list_all2 (\<lambda>x y. f x = Inr y) xs ys"
    by (simp add: rmap_Inr_iff)
  then show ?thesis
    using assms(2) by (induction rule: list_all2_induct) auto
qed

lemma set_unique [simp]: "set (unique xs) = set xs"
  by (simp add: unique_def)

lemma distinct_unique [simp]: "distinct (unique xs)"
  by (simp add: unique_def)

lemma replaceAll_char_Nil [simp]: "replaceAll_char c r [] = []"
  by (simp add: replaceAll_char_def)

lemma replaceAll_char_Cons [simp]:
  "replaceAll_char c r (x # xs) = (if x = c then r else [x]) @ replaceAll_char c r xs"
  by (simp add: replaceAll_char_def)

lemma fold_case_append [simp]: "fold_case (s @ t) = fold_case s @ fold_case t"
  by (simp add: fold_case_def)

lemma fold_char_digit: "is_digit c \<Longrightarrow> fold_char c = c"
  by (simp add: is_digit_def fold_char_def)

lemma fold_char_idem [simp]: "fold_char (fold_char c) = fold_char c"
  by (simp add: fold_char_def)

lemma fold_case_idem [simp]: "fold_case (fold_case s) = fold_case s"
  by (simp add: fold_case_def)

lemma is_digit_digit_char [simp]: "d < 10 \<Longrightarrow> is_digit (digit_char d)"
  by (simp add: is_digit_def digit_char_def)

lemma digit_char_inj: "d < 10 \<Longrightarrow> e < 10 \<Longrightarrow> digit_char d = digit_char e \<Longrightarrow> d = e"
proof -
  assume "d < 10" "e < 10" "digit_char d = digit_char e"
  then have "(of_char (digit_char d) :: nat) = of_char (digit_char e)" by simp
  with \<open>d < 10\<close> \<open>e < 10\<close> show "d = e" by (simp add: digit_char_def)
qed

lemma show_nat_digits: "list_all is_digit (show_nat n)"
proof (induction n rule: show_nat.induct)
  case (1 n)
  then show ?case by (subst show_nat.simps) simp
qed

lemma show_nat_nonempty [simp]: "show_nat n \<noteq> []" "[] \<noteq> show_nat n"
  by (subst show_nat.simps, simp)+

lemma show_nat_inj: "show_nat m = show_nat n \<Longrightarrow> m = n"
proof (induction m arbitrary: n rule: show_nat.induct)
  case (1 m)
  have *: "show_nat k = (if k < 10 then [digit_char k]
      else show_nat (k div 10) @ [digit_char (k mod 10)])" for k
    by (rule show_nat.simps)
  show ?case
  proof (cases "m < 10"; cases "n < 10")
    assume "m < 10" "n < 10"
    with "1.prems" show ?thesis by (simp add: * digit_char_inj)
  next
    assume "m < 10" "\<not> n < 10"
    with "1.prems" show ?thesis by (simp add: *[of m] *[of n])
  next
    assume "\<not> m < 10" "n < 10"
    with "1.prems" show ?thesis by (simp add: *[of m] *[of n])
  next
    assume a: "\<not> m < 10" "\<not> n < 10"
    with "1.prems" have "show_nat (m div 10) = show_nat (n div 10)"
      and "digit_char (m mod 10) = digit_char (n mod 10)"
      by (simp_all add: *[of m] *[of n])
    with a "1.IH" have "m div 10 = n div 10" by simp
    moreover have "m mod 10 = n mod 10"
      using digit_char_inj [of "m mod 10" "n mod 10"]
        \<open>digit_char (m mod 10) = digit_char (n mod 10)\<close> by simp
    ultimately show ?thesis by (metis div_mult_mod_eq)
  qed
qed

lemma inj_show_nat: "inj show_nat"
  by (auto intro: injI show_nat_inj)

lemma fold_case_show_nat [simp]: "fold_case (show_nat n) = show_nat n"
  using show_nat_digits[of n]
  by (auto simp: fold_case_def list_all_iff fold_char_digit intro: map_idI)

text \<open>Trimming only removes bytes at the two ends.\<close>

declare strip_prefixes.simps [simp del]

lemma strip_prefixes_suffix: "\<exists>p. s = p @ strip_prefixes ws s"
proof (induction ws s rule: strip_prefixes.induct)
  case (1 ws s)
  show ?case
  proof (cases "find (\<lambda>w. w \<noteq> [] \<and> has_prefix w s) ws")
    case None
    then have "strip_prefixes ws s = s" by (simp add: strip_prefixes.simps [of ws s])
    then show ?thesis by simp
  next
    case (Some w)
    with "1.IH" obtain p where p: "drop (length w) s = p @ strip_prefixes ws (drop (length w) s)"
      by blast
    have "s = take (length w) s @ p @ strip_prefixes ws (drop (length w) s)"
      using p by (metis append_take_drop_id)
    moreover from Some have "strip_prefixes ws s = strip_prefixes ws (drop (length w) s)"
      by (simp add: strip_prefixes.simps [of ws s])
    ultimately have "s = (take (length w) s @ p) @ strip_prefixes ws s" by simp
    then show ?thesis by blast
  qed
qed

lemma trim_infix: "\<exists>p q. s = p @ trim s @ q"
proof -
  obtain p where "s = p @ strip_prefixes white_space s"
    using strip_prefixes_suffix by blast
  moreover obtain q where
    "rev (strip_prefixes white_space s) = q @ strip_prefixes (map rev white_space) (rev (strip_prefixes white_space s))"
    using strip_prefixes_suffix by blast
  ultimately have "s = p @ rev (q @ strip_prefixes (map rev white_space) (rev (strip_prefixes white_space s)))"
    by (metis rev_rev_ident)
  then have "s = p @ trim s @ rev q" by (simp add: trim_def)
  then show ?thesis by blast
qed

lemma set_trim: "set (trim s) \<subseteq> set s"
proof -
  obtain p q where "s = p @ trim s @ q" using trim_infix by blast
  then have "set s = set p \<union> set (trim s) \<union> set q" by (metis set_append sup_assoc)
  then show ?thesis by blast
qed

text \<open>A printable ASCII character is no part of a white space encoding, so it ends the trimming.\<close>

lemma strip_prefixes_idle: "\<forall>w \<in> set ws. w \<noteq> [] \<longrightarrow> \<not> has_prefix w s \<Longrightarrow> strip_prefixes ws s = s"
proof -
  assume "\<forall>w \<in> set ws. w \<noteq> [] \<longrightarrow> \<not> has_prefix w s"
  then have "find (\<lambda>w. w \<noteq> [] \<and> has_prefix w s) ws = None" by (auto simp: find_None_iff)
  then show ?thesis by (simp add: strip_prefixes.simps [of ws s])
qed

definition graphic_char :: "char \<Rightarrow> bool" where
  "graphic_char c \<longleftrightarrow> 33 \<le> (of_char c :: nat) \<and> (of_char c :: nat) \<le> 126"

lemma trim_graphic:
  assumes "s \<noteq> []" and "graphic_char (hd s)" and "graphic_char (last s)"
  shows "trim s = s"
proof -
  have "strip_prefixes white_space s = s"
    using assms by (intro strip_prefixes_idle)
      (cases s; auto simp: has_prefix_def white_space_def graphic_char_def)
  moreover have "strip_prefixes (map rev white_space) (rev s) = rev s"
    using assms by (intro strip_prefixes_idle)
      (cases s rule: rev_cases; auto simp: has_prefix_def white_space_def graphic_char_def)
  ultimately show ?thesis by (simp add: trim_def)
qed

lemma trim_Nil [simp]: "trim [] = []"
proof -
  have "strip_prefixes ws [] = []" for ws by (rule strip_prefixes_idle) (auto simp: has_prefix_def)
  then show ?thesis by (simp add: trim_def)
qed

lemma white_space_not_graphic: "w \<in> set white_space \<Longrightarrow> c \<in> set w \<Longrightarrow> \<not> graphic_char c"
proof -
  have "list_all (\<lambda>w. list_all (\<lambda>c. \<not> graphic_char c) w) white_space"
    by (simp add: white_space_def graphic_char_def)
  then show "w \<in> set white_space \<Longrightarrow> c \<in> set w \<Longrightarrow> \<not> graphic_char c" by (auto simp: list_all_iff)
qed

lemma strip_prefixes_keeps:
  assumes "\<And>w. w \<in> set ws \<Longrightarrow> c \<notin> set w" and "c \<in> set s"
  shows "c \<in> set (strip_prefixes ws s)"
  using assms
proof (induction ws s rule: strip_prefixes.induct)
  case (1 ws s)
  show ?case
  proof (cases "find (\<lambda>w. w \<noteq> [] \<and> has_prefix w s) ws")
    case None
    then show ?thesis using 1(3) by (simp add: strip_prefixes.simps [of ws s])
  next
    case (Some w)
    then have w: "w \<in> set ws" "has_prefix w s" by (auto simp: find_Some_iff in_set_conv_nth)
    then have "s = w @ drop (length w) s" by (metis append_take_drop_id has_prefix_def)
    then have "c \<in> set (drop (length w) s)" using 1(2) [OF w(1)] 1(3) by (metis Un_iff set_append)
    then have "c \<in> set (strip_prefixes ws (drop (length w) s))" using 1(1) [OF Some 1(2)] by blast
    then show ?thesis using Some by (simp add: strip_prefixes.simps [of ws s])
  qed
qed

lemma trim_graphic_member:
  assumes "graphic_char c" and "c \<in> set s"
  shows "c \<in> set (trim s)"
proof -
  have "c \<in> set (rev (strip_prefixes white_space s))"
    using assms white_space_not_graphic by (auto intro: strip_prefixes_keeps)
  then have "c \<in> set (strip_prefixes (map rev white_space) (rev (strip_prefixes white_space s)))"
    using assms(1) white_space_not_graphic by (intro strip_prefixes_keeps) auto
  then show ?thesis by (simp add: trim_def)
qed

lemma set_drop_sign: "set s \<subseteq> set (drop_sign s) \<union> {CHR ''+'', CHR ''-''}"
  by (cases s) (auto simp: drop_sign_def)

lemma integer_text_chars:
  "integer_text s \<Longrightarrow> c \<in> set s \<Longrightarrow> is_digit c \<or> c = CHR ''+'' \<or> c = CHR ''-''"
  using set_drop_sign[of s] by (auto simp: integer_text_def list_all_iff)

definition numeric_char :: "char \<Rightarrow> bool" where
  "numeric_char c \<longleftrightarrow> is_digit c \<or> c \<in> set ''+-.eE''"

lemma exponent_text_chars: "exponent_text s \<Longrightarrow> c \<in> set s \<Longrightarrow> numeric_char c"
  by (auto simp: exponent_text_def numeric_char_def split: list.splits dest: integer_text_chars)

lemma numeric_text_chars:
  assumes "numeric_text s" and "c \<in> set s"
  shows "numeric_char c"
proof -
  define u where "u = drop_sign s"
  define r where "r = dropWhile is_digit u"
  have u: "u = takeWhile is_digit u @ r" by (simp add: r_def)
  have r: "\<forall>d \<in> set r. numeric_char d"
  proof (cases r)
    case (Cons c' r')
    have r': "r' = takeWhile is_digit r' @ dropWhile is_digit r'" by simp
    show ?thesis
    proof (cases "c' = CHR ''.''")
      case True
      then have "exponent_text (dropWhile is_digit r')"
        using assms(1) Cons by (simp add: numeric_text_def r_def u_def Let_def)
      then have "\<forall>d \<in> set (dropWhile is_digit r'). numeric_char d"
        by (blast intro: exponent_text_chars)
      moreover have "\<forall>d \<in> set (takeWhile is_digit r'). numeric_char d"
        by (auto simp: numeric_char_def dest: set_takeWhileD)
      ultimately have "\<forall>d \<in> set r'. numeric_char d"
        by (metis r' Un_iff set_append)
      with True Cons show ?thesis by (simp add: numeric_char_def)
    next
      case False
      then have "exponent_text r"
        using assms(1) Cons by (simp add: numeric_text_def r_def u_def Let_def)
      then show ?thesis by (blast intro: exponent_text_chars)
    qed
  qed simp
  have "\<forall>d \<in> set u. numeric_char d"
    using r by (subst u) (auto simp: numeric_char_def dest: set_takeWhileD)
  with assms(2) show ?thesis
    using set_drop_sign[of s] by (auto simp: u_def numeric_char_def)
qed

end
