(* ===== verification/Sql_Text.thy ===== *)
theory Sql_Text
  imports Prelude
begin

text \<open>
  What the generated texts have to satisfy as SQL, independent of the code that generates them:
  a scanner for the lexical structure (quoted literals and identifiers, parentheses, statement
  separators and comments), the texts that are \<open>sql_closed\<close> for it, and reading a quoted token back.
  The locale \<open>sql_quoting\<close> is the interface between the two quoting functions of the program
  and everything that embeds their results.
\<close>

subsection \<open>A scanner for SQL text\<close>

text \<open>
  \<open>Plain\<close> is ordinary text, \<open>Dash\<close> and \<open>Slash\<close> ordinary text whose last character was a minus
  sign or a slash, \<open>In_Literal\<close> and \<open>In_Identifier\<close> the inside of single and double quotes. The
  number is the depth of open parentheses. The scanner stops (\<open>None\<close>) at an unmatched closing
  parenthesis, at a semicolon and at the start of a comment.
\<close>

datatype sql_mode = Plain | Dash | Slash | In_Literal | In_Identifier

fun scan_plain :: "nat \<Rightarrow> char \<Rightarrow> (sql_mode \<times> nat) option" where
  "scan_plain d c =
     (if c = CHR 0x27 then Some (In_Literal, d)
      else if c = CHR 0x22 then Some (In_Identifier, d)
      else if c = CHR ''('' then Some (Plain, Suc d)
      else if c = CHR '')'' then (case d of 0 \<Rightarrow> None | Suc d' \<Rightarrow> Some (Plain, d'))
      else if c = CHR '';'' then None
      else if c = CHR ''-'' then Some (Dash, d)
      else if c = CHR ''/'' then Some (Slash, d)
      else Some (Plain, d))"

fun scan_char :: "sql_mode \<times> nat \<Rightarrow> char \<Rightarrow> (sql_mode \<times> nat) option" where
  "scan_char (Plain, d) c = scan_plain d c"
| "scan_char (Dash, d) c = (if c = CHR ''-'' then None else scan_plain d c)"
| "scan_char (Slash, d) c = (if c = CHR ''*'' then None else scan_plain d c)"
| "scan_char (In_Literal, d) c = Some (if c = CHR 0x27 then (Plain, d) else (In_Literal, d))"
| "scan_char (In_Identifier, d) c = Some (if c = CHR 0x22 then (Plain, d) else (In_Identifier, d))"

fun scan :: "sql_mode \<times> nat \<Rightarrow> string \<Rightarrow> (sql_mode \<times> nat) option" where
  "scan st [] = Some st"
| "scan st (c # cs) = (case scan_char st c of None \<Rightarrow> None | Some st' \<Rightarrow> scan st' cs)"

text \<open>A closed text can stand in any expression: scanning it from ordinary text ends there again.\<close>

definition sql_closed :: "string \<Rightarrow> bool" where
  "sql_closed s \<longleftrightarrow> (\<forall>d. scan (Plain, d) s = Some (Plain, d))"

text \<open>An executable necessary condition, for concrete texts.\<close>

definition balanced :: "string \<Rightarrow> bool" where
  "balanced s \<longleftrightarrow> scan (Plain, 0) s = Some (Plain, 0)"

subsection \<open>Reading a quoted token\<close>

fun read_body :: "char \<Rightarrow> string \<Rightarrow> (string \<times> string) option" where
  "read_body q [] = None"
| "read_body q [c] = (if c = q then Some ([], []) else None)"
| "read_body q (c # d # r) =
     (if c = q then
        if d = q then map_option (\<lambda>(v, t). (q # v, t)) (read_body q r) else Some ([], d # r)
      else map_option (\<lambda>(v, t). (c # v, t)) (read_body q (d # r)))"

definition read_quoted :: "char \<Rightarrow> string \<Rightarrow> (string \<times> string) option" where
  "read_quoted q s = (case s of [] \<Rightarrow> None | c # r \<Rightarrow> if c = q then read_body q r else None)"

subsection \<open>Closed texts\<close>

lemma scan_append: "scan st (s @ t) = (case scan st s of None \<Rightarrow> None | Some st' \<Rightarrow> scan st' t)"
  by (induction s arbitrary: st) (auto split: option.splits)

lemma closed_scan: "sql_closed s \<Longrightarrow> scan (Plain, d) (s @ t) = scan (Plain, d) t"
  by (simp add: sql_closed_def scan_append)

lemma closed_scan_end: "sql_closed s \<Longrightarrow> scan (Plain, d) s = Some (Plain, d)"
  by (simp add: sql_closed_def)

lemma closedI: "(\<And>d. scan (Plain, d) s = Some (Plain, d)) \<Longrightarrow> sql_closed s"
  by (simp add: sql_closed_def)

lemmas closed_scans = closed_scan closed_scan_end

lemma closed_balanced: "sql_closed s \<Longrightarrow> balanced s"
  by (simp add: sql_closed_def balanced_def)

lemma closed_Nil [closed_intros, simp]: "sql_closed []"
  by (simp add: sql_closed_def)

lemma closed_append [closed_intros]: "sql_closed s \<Longrightarrow> sql_closed t \<Longrightarrow> sql_closed (s @ t)"
  by (simp add: sql_closed_def scan_append)

lemma closed_If: "(b \<Longrightarrow> sql_closed s) \<Longrightarrow> (\<not> b \<Longrightarrow> sql_closed t) \<Longrightarrow> sql_closed (if b then s else t)"
  by simp

lemma closed_parens [closed_intros]: "sql_closed s \<Longrightarrow> sql_closed (CHR ''('' # s @ '')'')"
  by (simp add: sql_closed_def scan_append)

definition plain_char :: "char \<Rightarrow> bool" where
  "plain_char c \<longleftrightarrow>
     c \<notin> {CHR 0x27, CHR 0x22, CHR ''('', CHR '')'', CHR '';'', CHR ''-'', CHR ''/''}"

lemma scan_char_plain:
  "plain_char c \<Longrightarrow> scan_char (Plain, d) c = Some (Plain, d)"
  "plain_char c \<Longrightarrow> scan_char (Dash, d) c = Some (Plain, d)"
  by (auto simp: plain_char_def)

lemma closed_plain: "list_all plain_char s \<Longrightarrow> sql_closed s"
  unfolding sql_closed_def
proof (induction s)
  case (Cons c s)
  then show ?case by (auto simp: scan_char_plain simp del: scan_char.simps)
qed simp

lemma closed_plain_Cons: "plain_char c \<Longrightarrow> sql_closed s \<Longrightarrow> sql_closed (c # s)"
  by (simp add: sql_closed_def scan_char_plain del: scan_char.simps)

lemma closed_minus: "plain_char c \<Longrightarrow> sql_closed s \<Longrightarrow> sql_closed (CHR ''-'' # c # s)"
  by (simp add: sql_closed_def scan_char_plain(2) del: scan_char.simps(2))

lemma plain_char_digit [simp]: "is_digit c \<Longrightarrow> plain_char c"
  by (auto simp: plain_char_def is_digit_def)

lemma closed_show_nat [closed_intros, simp]: "sql_closed (show_nat n)"
  using show_nat_digits [of n] by (auto intro!: closed_plain simp: list_all_iff)

lemma closed_join:
  assumes "\<forall>x \<in> set xs. sql_closed x" and "sql_closed sep"
  shows "sql_closed (join sep xs)"
  using assms by (induction sep xs rule: join.induct) (auto intro: closed_append)

lemma closed_signed:
  assumes "sql_closed (drop_sign s)" and "drop_sign s \<noteq> []" and "plain_char (hd (drop_sign s))"
  shows "sql_closed s"
proof (cases s)
  case (Cons c r)
  show ?thesis
  proof (cases "c = CHR ''+'' \<or> c = CHR ''-''")
    case True
    with Cons have r: "drop_sign s = r" by (simp add: drop_sign_def)
    then obtain x y where xy: "r = x # y" using assms(2) by (cases r) auto
    with assms r have "sql_closed (x # y)" and "plain_char x" by auto
    then have "sql_closed y" by (simp add: sql_closed_def scan_char_plain del: scan_char.simps)
    show ?thesis
    proof (cases "c = CHR ''-''")
      case True
      with Cons xy \<open>plain_char x\<close> \<open>sql_closed y\<close> show ?thesis by (simp add: closed_minus)
    next
      case False
      then have "plain_char c" using True by (auto simp: plain_char_def)
      with Cons xy \<open>sql_closed (x # y)\<close> show ?thesis by (simp add: closed_plain_Cons)
    qed
  next
    case False
    with Cons assms(1) show ?thesis by (simp add: drop_sign_def)
  qed
qed simp

lemma closed_integer_text:
  assumes "integer_text s"
  shows "sql_closed s"
proof (rule closed_signed)
  have "\<forall>c \<in> set (drop_sign s). plain_char c"
    using assms by (simp add: integer_text_def list_all_iff)
  then show "sql_closed (drop_sign s)" by (simp add: closed_plain list_all_iff)
  show "drop_sign s \<noteq> []" using assms by (simp add: integer_text_def)
  with \<open>\<forall>c \<in> set (drop_sign s). plain_char c\<close> show "plain_char (hd (drop_sign s))" by simp
qed

lemma closed_exponent_text: "exponent_text s \<Longrightarrow> sql_closed s"
  by (cases s)
    (auto simp: exponent_text_def plain_char_def intro: closed_plain_Cons [OF _ closed_integer_text])

lemma closed_digits: "sql_closed (takeWhile is_digit s)"
  by (rule closed_plain) (auto simp: list_all_iff dest: set_takeWhileD)

lemma closed_numeric_text:
  assumes "numeric_text s"
  shows "sql_closed s"
proof (rule closed_signed)
  let ?u = "drop_sign s"
  let ?r = "dropWhile is_digit ?u"
  have u: "?u = takeWhile is_digit ?u @ ?r" by simp
  have "sql_closed ?r"
  proof (cases ?r)
    case (Cons c r')
    show ?thesis
    proof (cases "c = CHR ''.''")
      case True
      with assms Cons have "exponent_text (dropWhile is_digit r')"
        by (simp add: numeric_text_def Let_def)
      then have "sql_closed (takeWhile is_digit r' @ dropWhile is_digit r')"
        by (intro closed_append closed_exponent_text closed_digits)
      then have "sql_closed r'" by simp
      with True Cons show ?thesis by (simp add: closed_plain_Cons plain_char_def)
    next
      case False
      with assms Cons show ?thesis
        by (simp add: numeric_text_def Let_def closed_exponent_text)
    qed
  next
    case Nil
    show ?thesis by (subst Nil) simp
  qed
  then show "sql_closed ?u" by (subst u) (intro closed_append closed_digits)
  show "?u \<noteq> []" using assms by (auto simp: numeric_text_def Let_def)
  show "plain_char (hd ?u)"
  proof (cases "takeWhile is_digit ?u")
    case Nil
    with assms obtain r' where "?r = CHR ''.'' # r'"
      by (auto simp: numeric_text_def Let_def split: list.splits if_splits)
    with Nil u have "hd ?u = CHR ''.''" by (metis append_Nil list.sel(1))
    then show ?thesis by (simp add: plain_char_def)
  next
    case (Cons c cs)
    then have "is_digit c" by (metis list.set_intros(1) set_takeWhileD)
    moreover from Cons u have "hd ?u = c" by (metis append_Cons list.sel(1))
    ultimately show ?thesis by simp
  qed
qed

subsection \<open>The quoting interface\<close>

locale sql_quoting =
  fixes q :: char
    and enc :: "string \<Rightarrow> string"
    and m :: sql_mode
  assumes enc: "enc s = q # replaceAll_char q [q, q] s @ [q]"
    and opens: "scan_char (Plain, d) q = Some (m, d)"
    and closes: "scan_char (m, d) q = Some (Plain, d)"
    and stays: "c \<noteq> q \<Longrightarrow> scan_char (m, d) c = Some (m, d)"
begin

lemma scan_doubled: "scan (m, d) (replaceAll_char q [q, q] s) = Some (m, d)"
  by (induction s) (simp_all add: stays closes opens del: scan_char.simps)

lemma closed_enc: "sql_closed (enc s)"
  unfolding sql_closed_def by (simp add: enc opens closes scan_append scan_doubled del: scan_char.simps)

lemma read_body_enc:
  "(case rest of [] \<Rightarrow> True | c # _ \<Rightarrow> c \<noteq> q) \<Longrightarrow>
   read_body q (replaceAll_char q [q, q] s @ q # rest) = Some (s, rest)"
proof (induction s)
  case Nil
  then show ?case by (cases rest) simp_all
next
  case (Cons c s)
  then have IH: "read_body q (replaceAll_char q [q, q] s @ q # rest) = Some (s, rest)"
    by simp
  show ?case
  proof (cases "c = q")
    case True
    with IH show ?thesis by simp
  next
    case False
    obtain x y where "replaceAll_char q [q, q] s @ q # rest = x # y"
      by (cases "replaceAll_char q [q, q] s @ q # rest") auto
    with IH False show ?thesis by simp
  qed
qed

lemma read_enc:
  "(case rest of [] \<Rightarrow> True | c # _ \<Rightarrow> c \<noteq> q) \<Longrightarrow> read_quoted q (enc s @ rest) = Some (s, rest)"
  by (simp add: read_quoted_def enc read_body_enc)

lemma enc_inj: "enc s = enc t \<longleftrightarrow> s = t"
proof
  assume "enc s = enc t"
  moreover have "read_quoted q (enc s) = Some (s, [])" for s
    using read_enc [of "[]" s] by simp
  ultimately show "s = t" by (metis option.inject prod.inject)
qed simp

end

end
