(* ===== verification/Json_Text.thy ===== *)
theory Json_Text
  imports Prelude
begin

text \<open>
  \<open>JSON.stringify\<close> and \<open>JSON.parse\<close> on arrays of strings. The frontend uses the JSON text of a
  pair of strings as a key (\<open>targetKey\<close>, \<open>analysisDraftKey\<close>, \<open>plotScope\<close>) and parses such keys
  back (\<open>renamedDrafts\<close>). Bytes of 128 and more belong to non-ASCII characters and are copied.
\<close>

definition hex_digit :: "nat \<Rightarrow> char" where
  "hex_digit n = (if n < 10 then char_of (48 + n) else char_of (87 + n))"

definition hex_value :: "char \<Rightarrow> nat option" where
  "hex_value c =
     (let n = (of_char c :: nat) in
      if 48 \<le> n \<and> n \<le> 57 then Some (n - 48)
      else if 97 \<le> n \<and> n \<le> 102 then Some (n - 87)
      else if 65 \<le> n \<and> n \<le> 70 then Some (n - 55)
      else None)"

definition json_char :: "char \<Rightarrow> string" where
  "json_char c =
     (let n = (of_char c :: nat) in
      if c = CHR 0x22 then [CHR 0x5C, CHR 0x22]
      else if c = CHR 0x5C then [CHR 0x5C, CHR 0x5C]
      else if c = CHR 0x08 then [CHR 0x5C, CHR ''b'']
      else if c = CHR 0x09 then [CHR 0x5C, CHR ''t'']
      else if c = CHR 0x0A then [CHR 0x5C, CHR ''n'']
      else if c = CHR 0x0C then [CHR 0x5C, CHR ''f'']
      else if c = CHR 0x0D then [CHR 0x5C, CHR ''r'']
      else if n < 32 then
        [CHR 0x5C, CHR ''u'', CHR ''0'', CHR ''0'', hex_digit (n div 16), hex_digit (n mod 16)]
      else [c])"

definition json_string :: "string \<Rightarrow> string" where
  "json_string s = CHR 0x22 # concat (map json_char s) @ [CHR 0x22]"

definition json_strings :: "string list \<Rightarrow> string" where
  "json_strings xs = CHR ''['' # join '','' (map json_string xs) @ '']''"

subsection \<open>Parsing\<close>

definition simple_escape :: "char \<Rightarrow> char option" where
  "simple_escape e =
     (if e = CHR 0x22 \<or> e = CHR 0x5C \<or> e = CHR ''/'' then Some e
      else if e = CHR ''b'' then Some (CHR 0x08)
      else if e = CHR ''t'' then Some (CHR 0x09)
      else if e = CHR ''n'' then Some (CHR 0x0A)
      else if e = CHR ''f'' then Some (CHR 0x0C)
      else if e = CHR ''r'' then Some (CHR 0x0D)
      else None)"

text \<open>The escapes \<open>\u00XX\<close> of ASCII characters, the only ones \<open>JSON.stringify\<close> writes.\<close>

definition unicode_escape :: "string \<Rightarrow> (char \<times> string) option" where
  "unicode_escape s =
     (case s of
        z # z' # h # h' # r \<Rightarrow>
          (case (hex_value h, hex_value h') of
             (Some a, Some b) \<Rightarrow>
               if z = CHR ''0'' \<and> z' = CHR ''0'' \<and> a < 8 then Some (char_of (16 * a + b), r) else None
           | _ \<Rightarrow> None)
      | _ \<Rightarrow> None)"

definition read_json_char :: "string \<Rightarrow> (char \<times> string) option" where
  "read_json_char s =
     (case s of
        [] \<Rightarrow> None
      | c # r \<Rightarrow>
          if c \<noteq> CHR 0x5C then (if (of_char c :: nat) < 32 then None else Some (c, r))
          else (case r of
                  [] \<Rightarrow> None
                | e # r' \<Rightarrow>
                    if e = CHR ''u'' then unicode_escape r'
                    else map_option (\<lambda>x. (x, r')) (simple_escape e)))"

lemma unicode_escape_length: "unicode_escape s = Some (c, r) \<Longrightarrow> length r < length s"
  by (auto simp: unicode_escape_def split: list.splits option.splits if_splits)

lemma read_json_char_length: "read_json_char s = Some (c, r) \<Longrightarrow> length r < length s"
  by (auto simp: read_json_char_def split: list.splits if_splits
        dest: unicode_escape_length)

function read_json_body :: "string \<Rightarrow> (string \<times> string) option" where
  "read_json_body s =
     (case s of
        [] \<Rightarrow> None
      | c # r \<Rightarrow>
          if c = CHR 0x22 then Some ([], r)
          else (case read_json_char s of
                  None \<Rightarrow> None
                | Some (x, r') \<Rightarrow>
                    (case read_json_body r' of
                       None \<Rightarrow> None
                     | Some (v, t) \<Rightarrow> Some (x # v, t))))"
  by pat_completeness auto
termination
  by (relation "measure length") (auto dest: read_json_char_length)

declare read_json_body.simps [simp del]

definition read_json_string :: "string \<Rightarrow> (string \<times> string) option" where
  "read_json_string s =
     (case s of [] \<Rightarrow> None | c # r \<Rightarrow> if c = CHR 0x22 then read_json_body r else None)"

lemma read_json_body_length: "read_json_body s = Some (v, t) \<Longrightarrow> length t < length s"
proof (induction s arbitrary: v t rule: read_json_body.induct)
  case (1 s)
  show ?case
  proof (cases s)
    case Nil
    with "1.prems" show ?thesis by (simp add: read_json_body.simps [of "[]"])
  next
    case (Cons c r)
    show ?thesis
    proof (cases "c = CHR 0x22")
      case True
      with Cons "1.prems" show ?thesis by (simp add: read_json_body.simps [of "CHR 0x22 # r"])
    next
      case False
      with Cons "1.prems" obtain x r' v' where r: "read_json_char s = Some (x, r')"
        and b: "read_json_body r' = Some (v', t)"
        by (auto simp: read_json_body.simps [of "c # r"] split: option.splits)
      from "1.IH" [OF Cons False r _ b] have "length t < length r'" by simp
      with read_json_char_length [OF r] show ?thesis by simp
    qed
  qed
qed

lemma read_json_string_length: "read_json_string s = Some (v, t) \<Longrightarrow> length t < length s"
  by (auto simp: read_json_string_def split: list.splits if_splits dest!: read_json_body_length)

text \<open>The elements after the opening bracket, up to the closing one.\<close>

function read_json_elements :: "string \<Rightarrow> string list option" where
  "read_json_elements s =
     (case read_json_string s of
        None \<Rightarrow> None
      | Some (v, t) \<Rightarrow>
          (case t of
             [] \<Rightarrow> None
           | c # r \<Rightarrow>
               if c = CHR '','' then map_option (Cons v) (read_json_elements r)
               else if c = CHR '']'' \<and> r = [] then Some [v]
               else None))"
  by pat_completeness auto
termination
  by (relation "measure length") (auto dest!: read_json_string_length)

declare read_json_elements.simps [simp del]

definition parse_json_strings :: "string \<Rightarrow> string list option" where
  "parse_json_strings s =
     (case s of
        [] \<Rightarrow> None
      | c # r \<Rightarrow>
          if c \<noteq> CHR ''['' then None
          else if r = '']'' then Some [] else read_json_elements r)"

subsection \<open>Parsing inverts printing\<close>

lemma hex_value_digit [simp]: "n < 16 \<Longrightarrow> hex_value (hex_digit n) = Some n"
  by (auto simp: hex_value_def hex_digit_def Let_def)

lemma of_char_control: "(of_char c :: nat) < 32 \<Longrightarrow> char_of (of_char c div 16 * 16 + of_char c mod 16 :: nat) = c"
  by simp

lemma read_json_char_json_char: "read_json_char (json_char c @ rest) = Some (c, rest)"
proof (cases "json_char c = [c]")
  case True
  then have "(of_char c :: nat) \<ge> 32" and "c \<noteq> CHR 0x5C"
    by (auto simp: json_char_def Let_def split: if_splits)
  with True show ?thesis by (simp add: read_json_char_def)
next
  case False
  let ?n = "of_char c :: nat"
  show ?thesis
  proof (cases "c \<in> {CHR 0x22, CHR 0x5C, CHR 0x08, CHR 0x09, CHR 0x0A, CHR 0x0C, CHR 0x0D}")
    case True
    then show ?thesis
      by (auto simp: json_char_def read_json_char_def simple_escape_def)
  next
    case named: False
    with False have n: "?n < 32"
      by (auto simp: json_char_def Let_def split: if_splits)
    with named have "json_char c =
        [CHR 0x5C, CHR ''u'', CHR ''0'', CHR ''0'', hex_digit (?n div 16), hex_digit (?n mod 16)]"
      by (simp add: json_char_def Let_def)
    moreover from n have "?n div 16 < 8" by simp
    moreover have "16 * (?n div 16) + ?n mod 16 = ?n" by simp
    ultimately show ?thesis
      by (simp add: read_json_char_def unicode_escape_def del: mult_div_mod_eq)
  qed
qed

lemma json_char_shape: "\<exists>a b. json_char c = a # b \<and> a \<noteq> CHR 0x22"
  by (auto simp: json_char_def Let_def)

lemma read_json_body_print:
  "read_json_body (concat (map json_char s) @ CHR 0x22 # rest) = Some (s, rest)"
proof (induction s)
  case Nil
  show ?case by (simp add: read_json_body.simps [of "CHR 0x22 # rest"])
next
  case (Cons c s)
  let ?t = "concat (map json_char s) @ CHR 0x22 # rest"
  obtain a b where ab: "json_char c = a # b" "a \<noteq> CHR 0x22" using json_char_shape by blast
  moreover have "read_json_char (json_char c @ ?t) = Some (c, ?t)"
    by (rule read_json_char_json_char)
  ultimately have "read_json_body (json_char c @ ?t) = Some (c # s, rest)"
    using Cons by (simp add: read_json_body.simps [of "a # b @ ?t"])
  then show ?case by simp
qed

lemma read_json_string_print [simp]: "read_json_string (json_string s @ rest) = Some (s, rest)"
  by (simp add: read_json_string_def json_string_def read_json_body_print)

lemma read_json_elements_print:
  "xs \<noteq> [] \<Longrightarrow> read_json_elements (join '','' (map json_string xs) @ '']'') = Some xs"
proof (induction xs rule: induct_list012)
  case (2 x)
  show ?case by (simp add: read_json_elements.simps [of "json_string x @ '']''"])
next
  case (3 x y zs)
  define t where "t = join '','' (map json_string (y # zs)) @ '']''"
  from 3 have IH: "read_json_elements t = Some (y # zs)" by (simp add: t_def)
  have "join '','' (map json_string (x # y # zs)) @ '']'' = json_string x @ CHR '','' # t"
    by (simp add: t_def)
  moreover have "read_json_elements (json_string x @ CHR '','' # t) = Some (x # y # zs)"
    using IH by (simp add: read_json_elements.simps [of "json_string x @ CHR '','' # t"])
  ultimately show ?case by simp
qed simp

lemma json_string_not_bracket: "join '','' (map json_string (x # xs)) @ '']'' \<noteq> '']''"
  by (cases xs) (simp_all add: json_string_def)

lemma parse_json_strings_print [simp]: "parse_json_strings (json_strings xs) = Some xs"
proof (cases xs)
  case Nil
  then show ?thesis by (simp add: parse_json_strings_def json_strings_def)
next
  case (Cons y ys)
  then show ?thesis
    using read_json_elements_print [of xs] json_string_not_bracket [of y ys]
    by (simp add: parse_json_strings_def json_strings_def)
qed

lemma json_strings_inj: "json_strings xs = json_strings ys \<Longrightarrow> xs = ys"
  by (metis option.inject parse_json_strings_print)

lemma json_strings_eq_iff [simp]: "json_strings xs = json_strings ys \<longleftrightarrow> xs = ys"
  by (auto dest: json_strings_inj)

end
