(* ===== verification/Objects.thy ===== *)
theory Objects
  imports Sql_Text Json_Text
begin

text \<open>
  Names of project objects: \<open>features/project/objects.ts\<close>. A data target is a registered Data
  Block (a string) or a reference to a catalogue object; its key is the JSON text of its schema
  and name.
\<close>

subsection \<open>Data targets\<close>

record object_ref =
  ref_schema :: string
  ref_name :: string

datatype data_target = Block string | Object_Target "string option" string

definition objectRef :: "data_target \<Rightarrow> object_ref" where
  "objectRef target =
     (case target of
        Block name \<Rightarrow> \<lparr>ref_schema = ''data'', ref_name = name\<rparr>
      | Object_Target schema name \<Rightarrow>
          \<lparr>ref_schema = (case schema of None \<Rightarrow> ''data'' | Some s \<Rightarrow> s), ref_name = name\<rparr>)"

definition targetKey :: "data_target \<Rightarrow> string" where
  "targetKey target = (let r = objectRef target in json_strings [ref_schema r, ref_name r])"

definition targetLabel :: "data_target \<Rightarrow> string" where
  "targetLabel target =
     (case target of
        Block name \<Rightarrow> name
      | Object_Target schema name \<Rightarrow> ref_schema (objectRef target) @ ''.'' @ name)"

definition sameTarget :: "data_target option \<Rightarrow> data_target option \<Rightarrow> bool" where
  "sameTarget left right =
     (case (left, right) of
        (Some l, Some r) \<Rightarrow> targetKey l = targetKey r
      | _ \<Rightarrow> left = right)"

subsection \<open>Identifiers\<close>

definition sql_identifier :: "string \<Rightarrow> string" where
  "sql_identifier value = CHR 0x22 # replaceAll_char (CHR 0x22) [CHR 0x22, CHR 0x22] value @ [CHR 0x22]"

text \<open>\<open>node.schema ? ... : 'data'\<close>: the empty schema counts as none.\<close>

definition relation :: "string option \<Rightarrow> string \<Rightarrow> string" where
  "relation schema table_name =
     (case schema of
        None \<Rightarrow> ''data''
      | Some s \<Rightarrow> if s = [] then ''data'' else sql_identifier s) @ ''.'' @ sql_identifier table_name"

definition objectSql :: "data_target \<Rightarrow> string" where
  "objectSql target = (let r = objectRef target in relation (Some (ref_schema r)) (ref_name r))"

subsection \<open>Identifiers are read back\<close>

interpretation ident: sql_quoting "CHR 0x22" sql_identifier In_Identifier
  by unfold_locales (auto simp: sql_identifier_def)

lemma closed_identifier [closed_intros, simp]: "sql_closed (sql_identifier s)"
  by (rule ident.closed_enc)

lemma closed_relation [closed_intros, simp]: "sql_closed (relation schema name)"
  by (rule closedI) (simp add: relation_def closed_scans split: option.splits)

subsection \<open>Target keys identify targets\<close>

lemma targetKey_eq_iff: "targetKey l = targetKey r \<longleftrightarrow> objectRef l = objectRef r"
  by (cases "objectRef l"; cases "objectRef r")
    (auto simp: targetKey_def Let_def dest: json_strings_inj)

lemma sameTarget_Some [simp]:
  "sameTarget (Some l) (Some r) \<longleftrightarrow> objectRef l = objectRef r"
  by (simp add: sameTarget_def targetKey_eq_iff)

lemma sameTarget_None [simp]:
  "sameTarget None t \<longleftrightarrow> t = None" "sameTarget t None \<longleftrightarrow> t = None"
  by (auto simp: sameTarget_def split: option.splits)

end
