(* ===== verification/Names.thy ===== *)
theory Names
  imports Prelude
begin

text \<open>
  Names that are free in a project: \<open>features/project/automaticNames.ts\<close>, \<open>uniqueColumnName\<close> of
  \<open>features/project/data-editor/expressions.ts\<close> and \<open>resolveColumnName\<close> of
  \<open>features/tools/preprocessing/sql.ts\<close>. All of them compare names with ASCII case folded, as
  DuckDB does, and number the candidates until one is free. The locale \<open>numbered_names\<close> states
  what such a loop promises; it is interpreted on the loop of the model.
\<close>

subsection \<open>Numbering candidates until one is free\<close>

text \<open>The numbers from \<open>n\<close> on whose candidate is taken are finitely many: the loops end.\<close>

lemma finite_taken:
  assumes "inj f"
  shows "finite {k::nat. n \<le> k \<and> f k \<in> set taken}"
proof -
  have "finite (f -` set taken)" using assms by (simp add: finite_vimageI)
  then show ?thesis by (rule rev_finite_subset) auto
qed

lemma card_taken_Suc:
  assumes "inj f" and "f n \<in> set taken"
  shows "card {k. Suc n \<le> k \<and> f k \<in> set taken} < card {k::nat. n \<le> k \<and> f k \<in> set taken}"
proof -
  let ?A = "{k. Suc n \<le> k \<and> f k \<in> set taken}" and ?B = "{k. n \<le> k \<and> f k \<in> set taken}"
  have "n \<in> ?B" and "n \<notin> ?A" and "?A \<subseteq> ?B" using assms(2) by auto
  then have "?A \<subset> ?B" by blast
  moreover have "finite ?B" using assms(1) by (rule finite_taken)
  ultimately show ?thesis by (intro psubset_card_mono)
qed

lemma inj_folded_number: "inj (\<lambda>k. fold_case (stem @ show_nat k))"
  by (auto intro!: injI dest: show_nat_inj)

text \<open>\<open>while (names.has(fold(`${stem}${number}`))) number++\<close>\<close>

function free_number :: "string \<Rightarrow> string list \<Rightarrow> nat \<Rightarrow> nat" where
  "free_number stem taken n =
     (if fold_case (stem @ show_nat n) \<in> set taken then free_number stem taken (Suc n) else n)"
  by pat_completeness auto
termination
proof (relation "measure (\<lambda>(stem, taken, n).
    card {k. n \<le> k \<and> fold_case (stem @ show_nat k) \<in> set taken})", goal_cases)
  case (2 stem taken n)
  then show ?case using card_taken_Suc [OF inj_folded_number] by simp
qed simp

declare free_number.simps [simp del]

locale numbered_names =
  fixes key :: "nat \<Rightarrow> string"
    and search :: "string list \<Rightarrow> nat \<Rightarrow> nat"
  assumes key_inj: "inj key"
    and search_step: "search taken n = (if key n \<in> set taken then search taken (Suc n) else n)"
begin

lemma exists_free: "\<exists>k. key (n + k) \<notin> set taken"
proof (rule ccontr)
  assume "\<not> ?thesis"
  then have "{k. n \<le> k \<and> key k \<in> set taken} = {n..}"
    by (auto simp: le_iff_add)
  with finite_taken [OF key_inj, of n taken] show False by (simp add: infinite_Ici)
qed

lemma search_finds:
  "key (n + k) \<notin> set taken \<Longrightarrow> \<forall>j < k. key (n + j) \<in> set taken \<Longrightarrow> search taken n = n + k"
proof (induction k arbitrary: n)
  case 0
  then show ?case by (subst search_step) simp
next
  case (Suc k)
  from Suc.prems(2) have "key n \<in> set taken" by (metis add_0_right zero_less_Suc)
  moreover have "search taken (Suc n) = Suc n + k"
    using Suc.prems by (intro Suc.IH) auto
  ultimately show ?case by (subst search_step) simp
qed

lemma search_least:
  "\<exists>k. search taken n = n + k \<and> key (n + k) \<notin> set taken \<and> (\<forall>j < k. key (n + j) \<in> set taken)"
proof -
  let ?k = "LEAST k. key (n + k) \<notin> set taken"
  have "key (n + ?k) \<notin> set taken" using exists_free by (rule LeastI_ex)
  moreover have "\<forall>j < ?k. key (n + j) \<in> set taken" by (blast dest: not_less_Least)
  ultimately show ?thesis using search_finds by blast
qed

lemma search_free: "key (search taken n) \<notin> set taken"
  using search_least [of taken n] by auto

lemma search_minimal: "n \<le> j \<Longrightarrow> j < search taken n \<Longrightarrow> key j \<in> set taken"
proof -
  assume "n \<le> j" "j < search taken n"
  moreover obtain k where "search taken n = n + k" "\<forall>j < k. key (n + j) \<in> set taken"
    using search_least by blast
  ultimately show ?thesis by (metis add_less_cancel_left le_Suc_ex)
qed

text \<open>The loop tries at most one candidate per taken name before it stops.\<close>

lemma search_bound: "search taken n \<le> n + length taken"
proof -
  obtain k where k: "search taken n = n + k" "\<forall>j < k. key (n + j) \<in> set taken"
    using search_least by blast
  have "inj_on (\<lambda>j. key (n + j)) {..<k}" using key_inj by (auto intro!: inj_onI dest: injD)
  moreover from k(2) have "(\<lambda>j. key (n + j)) ` {..<k} \<subseteq> set taken" by auto
  ultimately have "card {..<k} \<le> card (set taken)" by (intro card_inj_on_le) auto
  with card_length [of taken] k(1) show ?thesis by simp
qed

end

interpretation folded: numbered_names "\<lambda>k. fold_case (stem @ show_nat k)" "free_number stem" for stem
  by unfold_locales (rule inj_folded_number, rule free_number.simps)

subsection \<open>Column names\<close>

definition uniqueColumnName :: "string \<Rightarrow> string list \<Rightarrow> string" where
  "uniqueColumnName stem columns =
     (let taken = map fold_case columns in
      if fold_case stem \<in> set taken
      then stem @ '' '' @ show_nat (free_number (stem @ '' '') taken 2)
      else stem)"

definition suggestColumnName :: "string list \<Rightarrow> string" where
  "suggestColumnName existing =
     (let names = map fold_case existing in
      if fold_case ''col'' \<in> set names
      then ''col_'' @ show_nat (free_number ''col_'' names 2)
      else ''col'')"

definition resolveColumnName :: "string \<Rightarrow> string list \<Rightarrow> string" where
  "resolveColumnName name existing =
     (case find (\<lambda>column. fold_case column = fold_case name) existing of
        Some column \<Rightarrow> column
      | None \<Rightarrow> name)"

subsection \<open>Data Block names\<close>

datatype data_block_operation =
  Op_flt | Op_slc | Op_smp | Op_shf | Op_join | Op_stk | Op_bld | Op_grp | Op_agg | Op_ddp
  | Op_cpy | Op_sw | Op_cb | Op_cc | Op_cc_doc | Op_qt | Op_qt_doc | Op_tm | Op_tm_dict
  | Op_tr | Op_cp | Op_sc | Op_hm | Op_sk

fun operation_text :: "data_block_operation \<Rightarrow> string" where
  "operation_text Op_flt = ''flt''"
| "operation_text Op_slc = ''slc''"
| "operation_text Op_smp = ''smp''"
| "operation_text Op_shf = ''shf''"
| "operation_text Op_join = ''join''"
| "operation_text Op_stk = ''stk''"
| "operation_text Op_bld = ''bld''"
| "operation_text Op_grp = ''grp''"
| "operation_text Op_agg = ''agg''"
| "operation_text Op_ddp = ''ddp''"
| "operation_text Op_cpy = ''cpy''"
| "operation_text Op_sw = ''sw''"
| "operation_text Op_cb = ''cb''"
| "operation_text Op_cc = ''cc''"
| "operation_text Op_cc_doc = ''cc_doc''"
| "operation_text Op_qt = ''qt''"
| "operation_text Op_qt_doc = ''qt_doc''"
| "operation_text Op_tm = ''tm''"
| "operation_text Op_tm_dict = ''tm_dict''"
| "operation_text Op_tr = ''tr''"
| "operation_text Op_cp = ''cp''"
| "operation_text Op_sc = ''sc''"
| "operation_text Op_hm = ''hm''"
| "operation_text Op_sk = ''sk''"

text \<open>The code points of a string, each as its UTF-8 bytes.\<close>

definition continuation_byte :: "char \<Rightarrow> bool" where
  "continuation_byte c \<longleftrightarrow> 128 \<le> (of_char c :: nat) \<and> (of_char c :: nat) < 192"

function utf8_chars :: "string \<Rightarrow> string list" where
  "utf8_chars [] = []"
| "utf8_chars (c # s) =
     (c # takeWhile continuation_byte s) # utf8_chars (dropWhile continuation_byte s)"
  by pat_completeness auto
termination
  by (relation "measure length") (auto simp: length_dropWhile_le less_Suc_eq_le)

text \<open>
  \<open>source.replace(/[^\p{Alphabetic}\p{N}]+/gu, '_')\<close>, with the Unicode classes as the parameter
  \<open>word\<close> on code points.
\<close>

function replace_runs :: "(string \<Rightarrow> bool) \<Rightarrow> string list \<Rightarrow> string list" where
  "replace_runs word [] = []"
| "replace_runs word (c # cs) =
     (if word c then c # replace_runs word cs
      else ''_'' # replace_runs word (dropWhile (\<lambda>c. \<not> word c) cs))"
  by pat_completeness auto
termination
  by (relation "measure (\<lambda>(word, cs). length cs)") (auto simp: length_dropWhile_le less_Suc_eq_le)

text \<open>\<open>.replace(/^_+|_+$/g, '')\<close>\<close>

definition strip_underscores :: "string list \<Rightarrow> string list" where
  "strip_underscores cs =
     rev (dropWhile (\<lambda>c. c = ''_'') (rev (dropWhile (\<lambda>c. c = ''_'') cs)))"

definition sourcePrefix :: "(string \<Rightarrow> bool) \<Rightarrow> string list \<Rightarrow> string" where
  "sourcePrefix word sources =
     (let limit = (if length sources > 1 then 7 else 16);
          part = (\<lambda>source.
            let normalized = strip_underscores (replace_runs word (utf8_chars source));
                short = concat (strip_underscores (take limit normalized))
            in if short = [] then ''data'' else short);
          text = join ''_'' (map part (take 2 sources))
      in if text = [] then ''data'' else text)"

definition suggestDataBlockName ::
    "(string \<Rightarrow> bool) \<Rightarrow> string list \<Rightarrow> data_block_operation \<Rightarrow> string list \<Rightarrow> string" where
  "suggestDataBlockName word sources operation existing =
     (let names = map fold_case existing;
          stem = sourcePrefix word sources @ ''_'' @ operation_text operation
      in stem @ ''_'' @ show_nat (free_number (stem @ ''_'') names 1))"

text \<open>Outputs keep their payload \<open>'a\<close>; each new name is reserved for the ones after it.\<close>

fun suggestDataBlockNames ::
    "(string \<Rightarrow> bool) \<Rightarrow> (string list \<times> data_block_operation) list \<Rightarrow> string list \<Rightarrow> string list" where
  "suggestDataBlockNames word [] reserved = []"
| "suggestDataBlockNames word ((sources, operation) # outputs) reserved =
     (let name = suggestDataBlockName word sources operation reserved
      in name # suggestDataBlockNames word outputs (reserved @ [name]))"

subsection \<open>The suggested names are free\<close>

lemma uniqueColumnName_free: "fold_case (uniqueColumnName stem columns) \<notin> fold_case ` set columns"
  using folded.search_free [of "stem @ '' ''" "map fold_case columns" 2]
  by (auto simp: uniqueColumnName_def Let_def)

lemma uniqueColumnName_notin: "uniqueColumnName stem columns \<notin> set columns"
  using uniqueColumnName_free [of stem columns] by blast

lemma uniqueColumnName_stem:
  "fold_case stem \<notin> fold_case ` set columns \<Longrightarrow> uniqueColumnName stem columns = stem"
  by (simp add: uniqueColumnName_def)

lemma suggestDataBlockName_free:
  "fold_case (suggestDataBlockName word sources operation existing) \<notin> fold_case ` set existing"
proof -
  let ?stem = "sourcePrefix word sources @ ''_'' @ operation_text operation @ ''_''"
  have "fold_case (?stem @ show_nat (free_number ?stem (map fold_case existing) 1))
      \<notin> set (map fold_case existing)"
    by (rule folded.search_free)
  then show ?thesis by (simp add: suggestDataBlockName_def Let_def)
qed

lemma suggestDataBlockNames_free:
  "(\<forall>n \<in> set (suggestDataBlockNames word outputs reserved).
      fold_case n \<notin> fold_case ` set reserved) \<and>
   distinct (map fold_case (suggestDataBlockNames word outputs reserved))"
proof (induction outputs arbitrary: reserved)
  case (Cons out outputs)
  obtain sources operation where out: "out = (sources, operation)" by (cases out)
  define name where "name = suggestDataBlockName word sources operation reserved"
  define names where "names = suggestDataBlockNames word outputs (reserved @ [name])"
  have all: "suggestDataBlockNames word (out # outputs) reserved = name # names"
    by (simp add: out name_def names_def Let_def)
  have IH: "\<forall>n \<in> set names. fold_case n \<notin> fold_case ` set (reserved @ [name])"
    "distinct (map fold_case names)"
    using Cons.IH [of "reserved @ [name]"] by (simp_all add: names_def)
  moreover have "fold_case name \<notin> fold_case ` set reserved"
    by (simp add: name_def suggestDataBlockName_free)
  ultimately show ?case by (auto simp: all)
qed simp

text \<open>
  \<open>uniqueColumnName\<close> always returns, and its result differs from every existing column also
  when ASCII case is ignored.
\<close>

theorem uniqueColumnName_fresh:
  "\<not> (\<exists>column \<in> set columns. fold_case column = fold_case (uniqueColumnName stem columns))"
  using uniqueColumnName_free [of stem columns] by (metis image_eqI)

end
