(* ===== verification/Arrow.thy ===== *)
theory Arrow
  imports Names
begin

text \<open>
  Decoded Arrow fields and tables: \<open>lib/arrow/decodeArrowTable.ts\<close> and
  \<open>lib/arrow/semanticTypes.ts\<close>. The types are the type union of the Arrow schema; the
  predicates \<open>DataType.isInt\<close> and so on that the sources call test the constructor. The native
  spelling of a type, \<open>type.toString()\<close> of the Arrow package, is the parameter \<open>spelling\<close>.
\<close>

subsection \<open>Fields\<close>

datatype arrow_type =
    Arrow_Null
  | Arrow_Int (int_bits: nat) (int_signed: bool)
  | Arrow_Float
  | Arrow_Binary
  | Arrow_Utf8
  | Arrow_LargeUtf8
  | Arrow_Utf8View
  | Arrow_Bool
  | Arrow_Decimal int int
  | Arrow_Date
  | Arrow_Time
  | Arrow_Timestamp nat "string option"
  | Arrow_Interval
  | Arrow_Duration
  | Arrow_List arrow_field
  | Arrow_LargeList arrow_field
  | Arrow_FixedSizeList nat arrow_field
  | Arrow_Struct "arrow_field list"
  | Arrow_Map arrow_field
  | Arrow_Union "arrow_field list"
  | Arrow_Dictionary (dictionary_indices: arrow_type) (dictionary_values: arrow_type)
and arrow_field =
  Field (field_name: string) (field_type: arrow_type) (field_metadata: "(string \<times> string) list")

definition isArrowStringType :: "arrow_type \<Rightarrow> bool" where
  "isArrowStringType t \<longleftrightarrow> t = Arrow_Utf8 \<or> t = Arrow_LargeUtf8 \<or> t = Arrow_Utf8View"

definition arrowListChild :: "arrow_type \<Rightarrow> arrow_field option" where
  "arrowListChild t =
     (case t of
        Arrow_List child \<Rightarrow> Some child
      | Arrow_LargeList child \<Rightarrow> Some child
      | Arrow_FixedSizeList _ child \<Rightarrow> Some child
      | _ \<Rightarrow> None)"

definition ARROW_EXTENSION_NAME :: string where
  "ARROW_EXTENSION_NAME = ''ARROW:extension:name''"

definition arrowExtensionName :: "arrow_field \<Rightarrow> string option" where
  "arrowExtensionName field = map_of (field_metadata field) ARROW_EXTENSION_NAME"

definition arrowTypeName :: "(arrow_type \<Rightarrow> string) \<Rightarrow> arrow_field \<Rightarrow> string" where
  "arrowTypeName spelling field =
     (case arrowExtensionName field of Some n \<Rightarrow> n | None \<Rightarrow> spelling (field_type field))"

definition COMMON_ARROW_TYPE_DISPLAY_NAMES :: "(string \<times> string) list" where
  "COMMON_ARROW_TYPE_DISPLAY_NAMES =
     [(''Utf8View'', ''text''), (''Utf8'', ''text''),
      (''Dictionary<Uint32, Utf8View>'', ''category''),
      (''Int64'', ''whole number''), (''Float64'', ''decimal''),
      (''Timestamp<MICROSECOND, UTC>'', ''date and time'')]"

definition native_display_name :: "(arrow_type \<Rightarrow> string) \<Rightarrow> arrow_type \<Rightarrow> string" where
  "native_display_name spelling t =
     (case map_of COMMON_ARROW_TYPE_DISPLAY_NAMES (spelling t) of
        Some label \<Rightarrow> label | None \<Rightarrow> spelling t)"

definition arrowTypeDisplayName :: "(arrow_type \<Rightarrow> string) \<Rightarrow> arrow_field \<Rightarrow> string" where
  "arrowTypeDisplayName spelling field =
     (case arrowExtensionName field of
        Some n \<Rightarrow> n
      | None \<Rightarrow>
          (case field_type field of
             Arrow_Date \<Rightarrow> ''date''
           | Arrow_Interval \<Rightarrow> ''elapsed time''
           | Arrow_Decimal p s \<Rightarrow> ''decimal ('' @ show_int p @ '', '' @ show_int s @ '')''
           | Arrow_Dictionary (Arrow_Int bits signed) values \<Rightarrow>
               if \<not> signed \<and> bits \<in> {8, 16, 32} \<and> isArrowStringType values then ''category''
               else native_display_name spelling (field_type field)
           | t \<Rightarrow> native_display_name spelling t))"

definition isArrowStringField :: "arrow_field \<Rightarrow> bool" where
  "isArrowStringField field = isArrowStringType (field_type field)"

definition isArrowStringListField :: "arrow_field \<Rightarrow> bool" where
  "isArrowStringListField field =
     (case arrowListChild (field_type field) of
        Some child \<Rightarrow> isArrowStringType (field_type child) | None \<Rightarrow> False)"

definition isArrowDictionaryField :: "arrow_field \<Rightarrow> bool" where
  "isArrowDictionaryField field = (case field_type field of Arrow_Dictionary _ _ \<Rightarrow> True | _ \<Rightarrow> False)"

definition isArrowIntegerField :: "arrow_field \<Rightarrow> bool" where
  "isArrowIntegerField field = (case field_type field of Arrow_Int _ _ \<Rightarrow> True | _ \<Rightarrow> False)"

definition isArrowFloatField :: "arrow_field \<Rightarrow> bool" where
  "isArrowFloatField field =
     (case field_type field of Arrow_Float \<Rightarrow> True | Arrow_Decimal _ _ \<Rightarrow> True | _ \<Rightarrow> False)"

definition isArrowBooleanField :: "arrow_field \<Rightarrow> bool" where
  "isArrowBooleanField field = (field_type field = Arrow_Bool)"

definition isTimestampType :: "arrow_type \<Rightarrow> bool" where
  "isTimestampType t = (case t of Arrow_Timestamp _ _ \<Rightarrow> True | _ \<Rightarrow> False)"

definition isArrowTemporalField :: "arrow_field \<Rightarrow> bool" where
  "isArrowTemporalField field =
     (let t = field_type field in
      t = Arrow_Date \<or> t = Arrow_Time \<or> isTimestampType t \<or> t = Arrow_Duration \<or> t = Arrow_Interval)"

definition TOPIC_COVERAGE_EXTENSION :: string where
  "TOPIC_COVERAGE_EXTENSION = ''org.ldaca.wordflow.topic_coverage.v1''"

definition isTopicCoverageField :: "arrow_field option \<Rightarrow> bool" where
  "isTopicCoverageField field =
     (case field of
        None \<Rightarrow> False
      | Some f \<Rightarrow> arrowExtensionName f = Some TOPIC_COVERAGE_EXTENSION)"

subsection \<open>Timestamps\<close>

text \<open>BigInt division and remainder truncate towards zero.\<close>

definition big_div :: "int \<Rightarrow> int \<Rightarrow> int" where
  "big_div a b = sgn a * sgn b * (\<bar>a\<bar> div \<bar>b\<bar>)"

definition big_mod :: "int \<Rightarrow> int \<Rightarrow> int" where
  "big_mod a b = a - b * big_div a b"

definition padStart :: "nat \<Rightarrow> string \<Rightarrow> string" where
  "padStart n s = replicate (n - length s) (CHR ''0'') @ s"

definition timestamp_parts :: "nat \<Rightarrow> int \<Rightarrow> int \<times> int" where
  "timestamp_parts digits ticks =
     (let scale = 10 ^ digits;
          seconds = big_div ticks scale;
          remainder = big_mod ticks scale
      in if remainder < 0 then (seconds - 1, remainder + scale) else (seconds, remainder))"

text \<open>
  \<open>date_text\<close> is the date text of a number of seconds, \<open>new Date(seconds * 1000).toISOString()\<close>
  without its fraction; \<open>[0, 3, 6, 9][unit]\<close> gives the digits of the fraction.
\<close>

definition unit_digits :: "nat \<Rightarrow> nat" where
  "unit_digits u = 3 * u"

definition timestamp_text :: "(int \<Rightarrow> string) \<Rightarrow> nat \<Rightarrow> int \<Rightarrow> string" where
  "timestamp_text date_text u ticks =
     (let digits = unit_digits u; (seconds, remainder) = timestamp_parts digits ticks
      in date_text seconds @
         (if digits \<noteq> 0 then ''.'' @ padStart digits (show_int remainder) else []) @ ''Z'')"

text \<open>The value at an index of a chunked vector, the loop over \<open>vector.data\<close>.\<close>

fun chunk_value :: "'a list list \<Rightarrow> nat \<Rightarrow> 'a option" where
  "chunk_value [] offset = None"
| "chunk_value (data # rest) offset =
     (if offset \<ge> length data then chunk_value rest (offset - length data)
      else Some (data ! offset))"

subsection \<open>Tables\<close>

lemma inj_plain_number: "inj (\<lambda>k. stem @ show_nat k)"
  by (auto intro!: injI dest: show_nat_inj)

function free_suffix :: "string \<Rightarrow> string list \<Rightarrow> nat \<Rightarrow> nat" where
  "free_suffix stem used n =
     (if stem @ show_nat n \<in> set used then free_suffix stem used (Suc n) else n)"
  by pat_completeness auto
termination
proof (relation "measure (\<lambda>(stem, used, n). card {k. n \<le> k \<and> stem @ show_nat k \<in> set used})",
    goal_cases)
  case (2 stem used n)
  then show ?case using card_taken_Suc [OF inj_plain_number] by simp
qed simp

declare free_suffix.simps [simp del]

interpretation exact: numbered_names "\<lambda>k. stem @ show_nat k" "free_suffix stem" for stem
  by unfold_locales (rule inj_plain_number, rule free_suffix.simps)

text \<open>The presentation names of the fields, in order; \<open>used\<close> are the names given so far.\<close>

fun column_names :: "string list \<Rightarrow> arrow_field list \<Rightarrow> string list" where
  "column_names used [] = []"
| "column_names used (field # fs) =
     (let name = (if field_name field \<in> set used
                  then field_name field @ ''_'' @ show_nat (free_suffix (field_name field @ ''_'') used 1)
                  else field_name field)
      in name # column_names (used @ [name]) fs)"

record 'v arrow_table_data =
  table_columns :: "string list"
  table_schema :: "(string \<times> arrow_field) list"
  table_rows :: "(string \<rightharpoonup> 'v) list"

text \<open>
  \<open>value c i\<close> is \<open>decodeVectorValue(table.getChildAt(c), i)\<close>; a row is \<open>Object.fromEntries\<close> of
  the presentation names with the values read by position, a later entry replacing an equal key.
\<close>

definition decode_row :: "string list \<Rightarrow> (nat \<Rightarrow> 'v) \<Rightarrow> (string \<rightharpoonup> 'v)" where
  "decode_row names value = map_of (rev (zip names (map value [0..<length names])))"

definition decodeArrowData ::
    "arrow_field list \<Rightarrow> nat \<Rightarrow> (nat \<Rightarrow> nat \<Rightarrow> 'v) \<Rightarrow> 'v arrow_table_data" where
  "decodeArrowData fs numRows value =
     (let names = column_names [] fs
      in \<lparr>table_columns = names, table_schema = zip names fs,
          table_rows = map (\<lambda>index. decode_row names (\<lambda>c. value c index)) [0..<numRows]\<rparr>)"

subsection \<open>Presentation names are unique\<close>

lemma length_column_names [simp]: "length (column_names used fs) = length fs"
  by (induction used fs rule: column_names.induct) (simp_all add: Let_def)

lemma column_names_distinct:
  "distinct (column_names used fs) \<and> set (column_names used fs) \<inter> set used = {}"
proof (induction used fs rule: column_names.induct)
  case (2 used field fs)
  define name where "name = (if field_name field \<in> set used
      then field_name field @ ''_'' @ show_nat (free_suffix (field_name field @ ''_'') used 1)
      else field_name field)"
  have "name \<notin> set used"
    using exact.search_free [of "field_name field @ ''_''" used 1] by (simp add: name_def)
  moreover have "distinct (column_names (used @ [name]) fs) \<and>
      set (column_names (used @ [name]) fs) \<inter> set (used @ [name]) = {}"
    using "2.IH" [OF name_def] .
  moreover have "column_names used (field # fs) = name # column_names (used @ [name]) fs"
    by (simp add: name_def Let_def)
  ultimately show ?case by auto
qed simp

lemma decode_row_nth:
  assumes "distinct names" and "c < length names"
  shows "decode_row names value (names ! c) = Some (value c)"
proof -
  let ?ps = "zip names (map value [0..<length names])"
  have "(names ! c, value c) \<in> set (rev ?ps)"
    using assms(2) by (auto simp: set_zip intro!: exI [of _ c])
  moreover have "distinct (map fst (rev ?ps))"
    using assms(1) by (simp add: rev_map [symmetric])
  ultimately show ?thesis by (simp add: decode_row_def)
qed

lemma timestamp_parts_floor:
  "timestamp_parts digits ticks = (ticks div 10 ^ digits, ticks mod 10 ^ digits)"
proof (cases "ticks \<ge> 0")
  case True
  then have "big_div ticks (10 ^ digits) = ticks div 10 ^ digits"
    by (cases "ticks = 0") (simp_all add: big_div_def)
  then have "big_mod ticks (10 ^ digits) = ticks mod 10 ^ digits"
    by (simp add: big_mod_def minus_mult_div_eq_mod)
  with \<open>big_div ticks (10 ^ digits) = ticks div 10 ^ digits\<close> show ?thesis
    by (simp add: timestamp_parts_def Let_def not_less)
next
  case False
  define s :: int where "s = 10 ^ digits"
  have s: "s > 0" by (simp add: s_def)
  have bd: "big_div ticks s = - (- ticks div s)" using False s by (simp add: big_div_def)
  have bm: "big_mod ticks s = - (- ticks mod s)"
    by (simp add: big_mod_def bd minus_mod_eq_mult_div [symmetric] algebra_simps)
  show ?thesis
  proof (cases "- ticks mod s = 0")
    case True
    then have "ticks mod s = 0" by (simp add: mod_eq_0_iff_dvd)
    moreover from this s have "- (- ticks div s) = ticks div s"
      by (simp add: zdiv_zminus1_eq_if)
    ultimately show ?thesis
      using True by (simp add: timestamp_parts_def Let_def bd bm flip: s_def)
  next
    case nz: False
    then have "- ticks mod s > 0" using s by (metis order_le_less pos_mod_sign)
    moreover have "ticks mod s = s - (- ticks mod s)"
      using nz zmod_zminus1_eq_if [of "- ticks" s] by simp
    moreover have "ticks div s = - (- ticks div s) - 1"
      using nz s zdiv_zminus1_eq_if [of s "- ticks"] by simp
    ultimately show ?thesis
      by (simp add: timestamp_parts_def Let_def bd bm flip: s_def)
  qed
qed

lemma chunk_value_concat:
  "chunk_value chunks i = (if i < length (concat chunks) then Some (concat chunks ! i) else None)"
  by (induction chunks i rule: chunk_value.induct) (auto simp: nth_append)

text \<open>
  Decoding a result table loses no column and no cell: the presentation names are pairwise
  distinct, one per field in order, the schema pairs each of them with its field, and the row at an
  index holds under the name of a column exactly the value of that column at that index, also when
  the result has repeated field names.
\<close>

theorem decodeArrowData_faithful:
  assumes "c < length fs" and "index < numRows"
  shows "distinct (table_columns (decodeArrowData fs numRows value)) \<and>
    table_schema (decodeArrowData fs numRows value) ! c =
      (table_columns (decodeArrowData fs numRows value) ! c, fs ! c) \<and>
    (table_rows (decodeArrowData fs numRows value) ! index)
      (table_columns (decodeArrowData fs numRows value) ! c) = Some (value c index)"
  using assms column_names_distinct [of "[]" fs]
  by (simp add: decodeArrowData_def Let_def decode_row_nth)

theorem decodeArrowData_faithful_witness:
  "let fs = [Field ''n'' Arrow_Utf8 [], Field ''n'' Arrow_Bool []];
       decoded = decodeArrowData fs 2 (\<lambda>c index. 10 * c + index)
   in table_columns decoded = [''n'', ''n_1''] \<and> (table_rows decoded ! 1) ''n_1'' = Some (11 :: nat)"
proof -
  let ?fs = "[Field ''n'' Arrow_Utf8 [], Field ''n'' Arrow_Bool []]"
  have names: "table_columns (decodeArrowData ?fs 2 val) = [''n'', ''n_1'']" for val :: "nat \<Rightarrow> nat \<Rightarrow> nat"
  proof -
    have "column_names [] ?fs = [''n'', ''n_1'']" by code_simp
    then show ?thesis by (simp only: decodeArrowData_def Let_def arrow_table_data.simps)
  qed
  have "1 < length ?fs" "1 < (2 :: nat)" by simp_all
  from decodeArrowData_faithful [OF this, of "\<lambda>c index. 10 * c + index"] show ?thesis
    using names [of "\<lambda>c index. 10 * c + index"] by (simp add: Let_def)
qed

end
