(* ===== verification/Js_Number.thy ===== *)
theory Js_Number
  imports Complex_Main "HOL-Library.Log_Nat" Sql_Text
begin

text \<open>
  JavaScript numbers: IEEE 754 doubles as exact rationals with the three special values,
  \<open>Number(text)\<close> (rounding to the nearest double, ties to even) and \<open>String(number)\<close> (the
  shortest digits that round back), as ECMAScript defines them. Negative zero is identified with
  zero: none of the comparisons and texts of the sources tells them apart.
\<close>

datatype js_number = NaN | Infinity | Neg_Infinity | Finite rat

subsection \<open>Rounding to a double\<close>

definition pow2 :: "int \<Rightarrow> rat" where
  "pow2 k = (if 0 \<le> k then 2 ^ nat k else 1 / 2 ^ nat (- k))"

definition pow10 :: "int \<Rightarrow> rat" where
  "pow10 k = (if 0 \<le> k then 10 ^ nat k else 1 / 10 ^ nat (- k))"

definition round_half_even :: "rat \<Rightarrow> int" where
  "round_half_even q =
     (let n = \<lfloor>q\<rfloor>; f = q - of_int n in
      if f < 1 / 2 then n else if f > 1 / 2 then n + 1 else if even n then n else n + 1)"

text \<open>The exponent of the leading bit of a positive rational.\<close>

definition leading_bit :: "rat \<Rightarrow> int" where
  "leading_bit q =
     (let (a, b) = quotient_of q;
          e = int (floorlog 2 (nat a)) - int (floorlog 2 (nat b))
      in if pow2 e \<le> q then e else e - 1)"

definition to_double :: "rat \<Rightarrow> js_number" where
  "to_double q =
     (if q = 0 then Finite 0
      else
        let a = \<bar>q\<bar>;
            k = max (leading_bit a - 52) (-1074);
            v = of_int (round_half_even (a / pow2 k)) * pow2 k
        in if v \<ge> pow2 1024 then (if q < 0 then Neg_Infinity else Infinity)
           else Finite (if q < 0 then - v else v))"

subsection \<open>Number(text)\<close>

definition digit_value :: "char \<Rightarrow> nat" where
  "digit_value c = of_char c - 48"

definition decimal_value :: "string \<Rightarrow> nat" where
  "decimal_value s = foldl (\<lambda>n c. 10 * n + digit_value c) 0 s"

definition signed_value :: "string \<Rightarrow> int" where
  "signed_value s =
     (case s of c # r \<Rightarrow> if c = CHR ''-'' then - int (decimal_value r)
                        else if c = CHR ''+'' then int (decimal_value r)
                        else int (decimal_value s)
      | [] \<Rightarrow> 0)"

text \<open>The exact value of a text that \<open>numeric_text\<close> accepts.\<close>

definition numeric_value :: "string \<Rightarrow> rat" where
  "numeric_value s =
     (let u = drop_sign s;
          whole = takeWhile is_digit u;
          r = dropWhile is_digit u;
          frac = (case r of c # r' \<Rightarrow> if c = CHR ''.'' then takeWhile is_digit r' else [] | [] \<Rightarrow> []);
          r2 = (case r of c # r' \<Rightarrow> if c = CHR ''.'' then dropWhile is_digit r' else r | [] \<Rightarrow> []);
          e = (case r2 of c # t \<Rightarrow> signed_value t | [] \<Rightarrow> 0);
          v = of_nat (decimal_value (whole @ frac)) * pow10 (e - int (length frac))
      in if take 1 s = ''-'' then - v else v)"

definition radix_digit :: "nat \<Rightarrow> char \<Rightarrow> nat option" where
  "radix_digit b c =
     (let n = (of_char c :: nat);
          v = (if 48 \<le> n \<and> n \<le> 57 then n - 48
               else if 97 \<le> n \<and> n \<le> 102 then n - 87
               else if 65 \<le> n \<and> n \<le> 70 then n - 55 else 99)
      in if v < b then Some v else None)"

definition radix_number :: "nat \<Rightarrow> string \<Rightarrow> js_number" where
  "radix_number b s =
     (if s \<noteq> [] \<and> list_all (\<lambda>c. radix_digit b c \<noteq> None) s
      then to_double (of_nat (foldl (\<lambda>n c. b * n + the (radix_digit b c)) 0 s)) else NaN)"

definition Number :: "string \<Rightarrow> js_number" where
  "Number text =
     (let s = trim text in
      if s = [] then Finite 0
      else if s = ''Infinity'' \<or> s = ''+Infinity'' then Infinity
      else if s = ''-Infinity'' then Neg_Infinity
      else if numeric_text s then to_double (numeric_value s)
      else if take 2 s = ''0x'' \<or> take 2 s = ''0X'' then radix_number 16 (drop 2 s)
      else if take 2 s = ''0o'' \<or> take 2 s = ''0O'' then radix_number 8 (drop 2 s)
      else if take 2 s = ''0b'' \<or> take 2 s = ''0B'' then radix_number 2 (drop 2 s)
      else NaN)"

subsection \<open>Classification\<close>

definition isFinite :: "js_number \<Rightarrow> bool" where
  "isFinite x = (case x of Finite _ \<Rightarrow> True | _ \<Rightarrow> False)"

definition isInteger :: "js_number \<Rightarrow> bool" where
  "isInteger x = (case x of Finite q \<Rightarrow> of_int \<lfloor>q\<rfloor> = q | _ \<Rightarrow> False)"

definition isSafeInteger :: "js_number \<Rightarrow> bool" where
  "isSafeInteger x =
     (case x of Finite q \<Rightarrow> of_int \<lfloor>q\<rfloor> = q \<and> \<bar>q\<bar> \<le> 9007199254740991 | _ \<Rightarrow> False)"

text \<open>\<open>x < y\<close> and \<open>x <= y\<close>; every comparison with NaN is false.\<close>

fun num_less :: "js_number \<Rightarrow> js_number \<Rightarrow> bool" where
  "num_less NaN _ = False"
| "num_less _ NaN = False"
| "num_less (Finite p) (Finite q) = (p < q)"
| "num_less (Finite _) Infinity = True"
| "num_less (Finite _) Neg_Infinity = False"
| "num_less Infinity _ = False"
| "num_less Neg_Infinity Neg_Infinity = False"
| "num_less Neg_Infinity _ = True"

definition num_eq :: "js_number \<Rightarrow> js_number \<Rightarrow> bool" where
  "num_eq x y \<longleftrightarrow> x = y \<and> x \<noteq> NaN"

definition num_le :: "js_number \<Rightarrow> js_number \<Rightarrow> bool" where
  "num_le x y \<longleftrightarrow> num_less x y \<or> num_eq x y"

subsection \<open>String(number)\<close>

text \<open>The position of the decimal point: \<open>10^(n-1) \<le> q < 10^n\<close>; 400 steps span every double.\<close>

fun point_up :: "nat \<Rightarrow> rat \<Rightarrow> int \<Rightarrow> int" where
  "point_up 0 q n = n"
| "point_up (Suc f) q n = (if pow10 n \<le> q then point_up f q (n + 1) else n)"

fun point_down :: "nat \<Rightarrow> rat \<Rightarrow> int \<Rightarrow> int" where
  "point_down 0 q n = n"
| "point_down (Suc f) q n = (if q < pow10 (n - 1) then point_down f q (n - 1) else n)"

definition decimal_point :: "rat \<Rightarrow> int" where
  "decimal_point q = point_down 400 q (point_up 400 q 0)"

text \<open>The integers of \<open>k\<close> digits next to \<open>q\<close> that denote the same double, the closest first.\<close>

definition shortest_candidates :: "rat \<Rightarrow> int \<Rightarrow> nat \<Rightarrow> int list" where
  "shortest_candidates q n k =
     (let x = q * pow10 (int k - n); f = \<lfloor>x\<rfloor>;
          near = (if x - of_int f \<le> of_int (f + 1) - x then [f, f + 1] else [f + 1, f])
      in filter (\<lambda>s. 10 ^ (k - 1) \<le> s \<and> s < 10 ^ k \<and>
                     to_double (of_int s * pow10 (n - int k)) = Finite q) near)"

text \<open>At most 17 digits are needed for a double.\<close>

fun shortest_digits :: "nat \<Rightarrow> rat \<Rightarrow> int \<Rightarrow> nat \<Rightarrow> nat" where
  "shortest_digits 0 q n k = nat (round_half_even (q * pow10 (int k - n)))"
| "shortest_digits (Suc f) q n k =
     (case shortest_candidates q n k of s # _ \<Rightarrow> nat s | [] \<Rightarrow> shortest_digits f q n (Suc k))"

definition zeros :: "nat \<Rightarrow> string" where
  "zeros n = replicate n (CHR ''0'')"

definition show_positive :: "rat \<Rightarrow> string" where
  "show_positive q =
     (let n = decimal_point q;
          ds = show_nat (shortest_digits 17 q n 1);
          k = int (length ds);
          e = n - 1
      in if k \<le> n \<and> n \<le> 21 then ds @ zeros (nat (n - k))
         else if 0 < n \<and> n \<le> 21 then take (nat n) ds @ ''.'' @ drop (nat n) ds
         else if -6 < n \<and> n \<le> 0 then ''0.'' @ zeros (nat (- n)) @ ds
         else take 1 ds @ (if length ds = 1 then [] else ''.'' @ drop 1 ds) @
              (if e < 0 then ''e-'' else ''e+'') @ show_nat (nat \<bar>e\<bar>))"

definition show_number :: "js_number \<Rightarrow> string" where
  "show_number x =
     (case x of
        NaN \<Rightarrow> ''NaN'' | Infinity \<Rightarrow> ''Infinity'' | Neg_Infinity \<Rightarrow> ''-Infinity''
      | Finite q \<Rightarrow>
          if q = 0 then ''0''
          else if q < 0 then CHR ''-'' # show_positive (- q) else show_positive q)"

subsection \<open>Number texts are closed\<close>

lemma closed_minus_text:
  assumes "sql_closed s" and "s \<noteq> []" and "plain_char (hd s)"
  shows "sql_closed (CHR ''-'' # s)"
  by (rule closed_signed) (simp_all add: drop_sign_def assms)

lemma hd_show_nat: "is_digit (hd (show_nat n))"
  using show_nat_digits [of n] by (cases "show_nat n") auto

lemma closed_minus_show_nat: "sql_closed (CHR ''-'' # show_nat n)"
  by (rule closed_minus_text) (simp_all add: hd_show_nat)

lemma closed_sub_digits:
  "sql_closed (take i (show_nat n))" "sql_closed (drop i (show_nat n))"
  by (rule closed_plain,
      use show_nat_digits [of n] in \<open>auto simp: list_all_iff dest: in_set_takeD in_set_dropD\<close>)+

lemma closed_zeros: "sql_closed (zeros n)"
  by (rule closed_plain) (auto simp: zeros_def list_all_iff plain_char_def)

lemma closed_exponent: "sql_closed ((if b then ''e-'' else ''e+'') @ show_nat n)"
  by (auto simp: plain_char_def intro!: closed_plain_Cons closed_minus_show_nat)

lemma closed_point: "sql_closed s \<Longrightarrow> sql_closed (''.'' @ s)"
  by (simp add: closed_plain_Cons plain_char_def)

lemma closed_show_positive: "sql_closed (show_positive q)"
proof -
  have zero: "sql_closed ''0.''" by (rule closedI) simp
  show ?thesis
    unfolding show_positive_def Let_def
    by (intro closed_If closed_append closed_sub_digits closed_zeros closed_exponent closed_point
        zero closed_show_nat closed_Nil)
qed

lemma show_positive_hd: "show_positive q \<noteq> [] \<and> plain_char (hd (show_positive q))"
proof -
  have digits: "hd (show_nat n) = c \<Longrightarrow> plain_char c" for n c
    using hd_show_nat [of n] by auto
  have shapes: "\<exists>c r. show_nat n = c # r \<and> plain_char c" for n
    using hd_show_nat [of n] by (cases "show_nat n") auto
  obtain c r where cr: "show_nat (shortest_digits 17 q (decimal_point q) 1) = c # r" "plain_char c"
    using shapes by blast
  have "nat n \<noteq> 0" if "0 < n" for n :: int using that by simp
  then show ?thesis
    unfolding show_positive_def Let_def cr(1)
    using cr(2) by (auto simp: plain_char_def take_Cons' hd_append split: if_splits)
qed

lemma closed_show_number: "sql_closed (show_number x)"
proof (cases x)
  case (Finite q)
  have "sql_closed ''0''" by (rule closedI) simp
  then show ?thesis
    using Finite show_positive_hd [of "- q"]
    by (simp add: show_number_def closed_show_positive closed_minus_text)
qed (rule closedI, simp add: show_number_def)+

subsection \<open>Integers are exact\<close>

lemma floorlog_power:
  assumes "0 < (n :: int)"
  shows "2 ^ (floorlog 2 (nat n) - 1) \<le> n" and "0 < floorlog 2 (nat n)"
proof -
  have "2 ^ (floorlog 2 (nat n) - 1) \<le> nat n"
    using floorlog_bounds [of "nat n" 2] assms by auto
  then show "2 ^ (floorlog 2 (nat n) - 1) \<le> n"
    using assms by (metis int_nat_eq less_le_not_le of_nat_le_iff of_nat_numeral of_nat_power)
  show "0 < floorlog 2 (nat n)" using floorlog_eq_zero_iff [of 2 "nat n"] assms by auto
qed

lemma leading_bit_int:
  assumes "0 < n"
  shows "leading_bit (of_int n) = int (floorlog 2 (nat n)) - 1"
proof -
  have "pow2 (int (floorlog 2 (nat n)) - 1) = of_int (2 ^ (floorlog 2 (nat n) - 1))"
    using floorlog_power(2) [OF assms] by (simp add: pow2_def nat_diff_distrib)
  also have "\<dots> \<le> of_int n" using floorlog_power(1) [OF assms] by (simp only: of_int_le_iff)
  finally show ?thesis by (simp add: leading_bit_def floorlog_def)
qed

lemma pow2_divide:
  assumes "u \<le> int k"
  shows "(2 :: rat) ^ k = 2 ^ nat (int k - u) * pow2 u"
proof (cases "0 \<le> u")
  case True
  then show ?thesis using assms by (simp add: pow2_def nat_diff_distrib flip: power_add)
next
  case False
  then have "nat (int k - u) = k + nat (- u)" by simp
  then show ?thesis using False by (simp add: pow2_def power_add)
qed

lemma to_double_pos:
  "0 < q \<Longrightarrow> k = max (leading_bit q - 52) (-1074) \<Longrightarrow>
   of_int (round_half_even (q / pow2 k)) * pow2 k = v \<Longrightarrow> v < pow2 1024 \<Longrightarrow> to_double q = Finite v"
  by (simp add: to_double_def Let_def)

lemma to_double_exact:
  assumes "0 < m" "m < 2 ^ 53" "m * 2 ^ k < 2 ^ 1024"
  shows "to_double (of_int (m * 2 ^ k)) = Finite (of_int (m * 2 ^ k))"
proof -
  let ?n = "m * 2 ^ k"
  define u where "u = max (leading_bit (of_int ?n) - 52) (-1074)"
  have n: "0 < ?n" using assms by simp
  have "2 ^ (floorlog 2 (nat ?n) - 1) \<le> ?n" by (rule floorlog_power [OF n])
  also have "?n < 2 ^ (53 + k)" using assms(2) by (simp add: power_add)
  finally have "floorlog 2 (nat ?n) - 1 < 53 + k" by (simp add: power_strict_increasing_iff)
  then have u: "u \<le> int k"
    unfolding u_def leading_bit_int [OF n] using floorlog_power(2) [OF n] by auto
  have p: "pow2 u \<noteq> 0" by (simp add: pow2_def)
  have "(of_int ?n :: rat) / pow2 u = of_int (m * 2 ^ nat (int k - u))"
    using p by (simp add: pow2_divide [OF u])
  then have v: "of_int (round_half_even (of_int ?n / pow2 u)) * pow2 u = (of_int ?n :: rat)"
    by (simp add: round_half_even_def pow2_divide [OF u])
  have "(of_int ?n :: rat) < of_int (2 ^ 1024)" using assms(3) by (simp only: of_int_less_iff)
  then have "(of_int ?n :: rat) < pow2 1024" by (simp add: pow2_def)
  then show ?thesis using n u_def v by (intro to_double_pos [of "of_int ?n" u]) (simp_all only: of_int_0_less_iff)
qed

end
