(* ===== verification/Sql_Builders.thy ===== *)
theory Sql_Builders
  imports Objects Arrow Js_Number
begin

text \<open>
  The SQL builders of \<open>features/tools/preprocessing/sql.ts\<close> and the request types of
  \<open>features/tools/preprocessing/types.ts\<close> and \<open>slice/hooks/sliceFormModel.ts\<close> they read:
  literals, filters, samples, joins, stacks and computed columns. Preview and Apply both run the
  texts built here.
\<close>

subsection \<open>Literals\<close>

datatype scalar = S_String string | S_Number js_number | S_Bool bool | S_Null

definition literal_string :: "string \<Rightarrow> string" where
  "literal_string value = CHR 0x27 # replaceAll_char (CHR 0x27) [CHR 0x27, CHR 0x27] value @ [CHR 0x27]"

definition literal :: "scalar \<Rightarrow> string result" where
  "literal value =
     (case value of
        S_Null \<Rightarrow> Inr ''NULL''
      | S_Bool b \<Rightarrow> Inr (if b then ''TRUE'' else ''FALSE'')
      | S_Number n \<Rightarrow>
          if \<not> isFinite n then throw ''Expected a finite numeric value'' else Inr (show_number n)
      | S_String s \<Rightarrow> Inr (literal_string s))"

definition table :: "string \<Rightarrow> string" where
  "table name = relation None name"

definition CURRENT :: string where
  "CURRENT = ''__wf_current''"

text \<open>The quoted regular expression class \<open>'[\p{Z}\s]\<close> with its closing text.\<close>

definition space_class :: "string \<Rightarrow> string" where
  "space_class rest =
     CHR 0x27 # ''['' @ [CHR 0x5C] @ ''p{Z}'' @ [CHR 0x5C] @ ''s]'' @ rest @ [CHR 0x27]"

definition emptyPredicate :: "string \<Rightarrow> arrow_field option \<Rightarrow> string" where
  "emptyPredicate column field =
     (let source = sql_identifier column in
      source @ '' IS NULL'' @
      (case field of
         Some f \<Rightarrow> if isArrowFloatField f then '' OR isnan('' @ source @ '')'' else []
       | None \<Rightarrow> []) @
      (case field of
         Some f \<Rightarrow>
           if isArrowStringField f \<or> isArrowDictionaryField f
           then '' OR regexp_full_match(CAST('' @ source @ '' AS VARCHAR), '' @ space_class ''*'' @ '')''
           else []
       | None \<Rightarrow> []))"

text \<open>\<open>sql.trim().replace(/;\s*$/, '')\<close>: after trimming, one final semicolon is dropped.\<close>

definition selectText :: "string \<Rightarrow> string" where
  "selectText sql =
     (let s = trim sql in if s \<noteq> [] \<and> last s = CHR '';'' then butlast s else s)"

definition bindInput :: "string \<Rightarrow> string \<Rightarrow> string" where
  "bindInput sql name =
     ''WITH '' @ CURRENT @ '' AS (SELECT * FROM '' @ table name @ '') SELECT * FROM ('' @ selectText sql @ '')''"

subsection \<open>Filters\<close>

datatype filter_operator =
  Eq | Ne | Gt | Gte | Lt | Lte | Contains | Starts_With | Ends_With | Is_Null | Is_Empty | In | Between

datatype condition_value =
    V_Scalar scalar
  | V_Range "string option" "string option"
  | V_Topic js_number js_number
  | V_List "scalar list"

record filter_condition =
  cond_column :: string
  cond_operator :: filter_operator
  cond_value :: condition_value
  cond_negate :: bool
  cond_regex :: bool
  cond_case_sensitive :: bool
  cond_field :: "arrow_field option"

datatype filter_logic = And | Or

record filter_request =
  req_conditions :: "filter_condition list"
  req_logic :: filter_logic

definition scalar_sql :: "condition_value \<Rightarrow> string result" where
  "scalar_sql value =
     (case value of V_Scalar s \<Rightarrow> literal s | _ \<Rightarrow> throw ''Expected a scalar filter value'')"

text \<open>\<open>/^\d{4}-\d{2}-\d{2}$/\<close>\<close>

definition date_text :: "string \<Rightarrow> bool" where
  "date_text s \<longleftrightarrow>
     length s = 10 \<and> s ! 4 = CHR ''-'' \<and> s ! 7 = CHR ''-'' \<and>
     list_all is_digit (take 4 s) \<and> list_all is_digit (take 2 (drop 5 s)) \<and> list_all is_digit (drop 8 s)"

definition upperBound :: "filter_condition \<Rightarrow> condition_value \<Rightarrow> string result" where
  "upperBound condition input =
     (let column = sql_identifier (cond_column condition);
          plain = rbind (scalar_sql input) (\<lambda>v. Inr (column @ '' <= '' @ v))
      in case (cond_field condition, input) of
           (Some f, V_Scalar (S_String s)) \<Rightarrow>
             if isTimestampType (field_type f) \<and> date_text s
             then Inr (column @ '' < (CAST('' @ literal_string s @ '' AS DATE) + INTERVAL 1 DAY)'')
             else plain
         | _ \<Rightarrow> plain)"

definition coverage_comparison :: "filter_operator \<Rightarrow> string option" where
  "coverage_comparison operator =
     (case operator of
        Gt \<Rightarrow> Some ''>'' | Gte \<Rightarrow> Some ''>='' | Lt \<Rightarrow> Some ''<'' | Lte \<Rightarrow> Some ''<='' | Eq \<Rightarrow> Some ''=''
      | _ \<Rightarrow> None)"

definition comparison :: "filter_operator \<Rightarrow> string option" where
  "comparison operator =
     (case operator of
        Eq \<Rightarrow> Some ''='' | Ne \<Rightarrow> Some ''<>'' | Gt \<Rightarrow> Some ''>'' | Gte \<Rightarrow> Some ''>=''
      | Lt \<Rightarrow> Some ''<'' | Lte \<Rightarrow> Some ''<='' | _ \<Rightarrow> None)"

fun operator_text :: "filter_operator \<Rightarrow> string" where
  "operator_text Eq = ''eq''"
| "operator_text Ne = ''ne''"
| "operator_text Gt = ''gt''"
| "operator_text Gte = ''gte''"
| "operator_text Lt = ''lt''"
| "operator_text Lte = ''lte''"
| "operator_text Contains = ''contains''"
| "operator_text Starts_With = ''starts_with''"
| "operator_text Ends_With = ''ends_with''"
| "operator_text Is_Null = ''is_null''"
| "operator_text Is_Empty = ''is_empty''"
| "operator_text In = ''in''"
| "operator_text Between = ''between''"

definition topic_predicate :: "string \<Rightarrow> filter_condition \<Rightarrow> string result" where
  "topic_predicate column condition =
     (case cond_value condition of
        V_Topic topic_id threshold \<Rightarrow>
          (case coverage_comparison (cond_operator condition) of
             None \<Rightarrow> throw ''Unsupported coverage comparison''
           | Some cmp \<Rightarrow>
               rbind (literal (S_Number topic_id)) (\<lambda>t.
               rbind (literal (S_Number threshold)) (\<lambda>c.
               Inr (''(list_extract('' @ column @ '', CAST('' @ t @ '' AS INTEGER) + 2)).coverage '' @
                    cmp @ '' '' @ c))))
      | _ \<Rightarrow> throw ''Choose a topic and coverage threshold'')"

definition in_predicate :: "string \<Rightarrow> filter_condition \<Rightarrow> string result" where
  "in_predicate column condition =
     (case cond_value condition of
        V_List items \<Rightarrow>
          (let nonNull = filter (\<lambda>i. i \<noteq> S_Null) items;
               listField = (case cond_field condition of
                 Some f \<Rightarrow> isArrowStringListField f | None \<Rightarrow> False)
           in rbind
                (if nonNull = [] then Inr ''FALSE''
                 else rbind (rmap literal nonNull) (\<lambda>vs.
                   Inr (if listField
                        then ''list_has_any('' @ column @ '', ['' @ join '', '' vs @ ''])''
                        else column @ '' IN ('' @ join '', '' vs @ '')'')))
                (\<lambda>match.
                  Inr (if S_Null \<in> set items then column @ '' IS NULL OR ('' @ match @ '')''
                       else match)))
      | _ \<Rightarrow> throw ''Select filter values'')"

definition between_predicate :: "string \<Rightarrow> filter_condition \<Rightarrow> string result" where
  "between_predicate column condition =
     (case cond_value condition of
        V_Range start stop \<Rightarrow>
          rbind
            (case start of
               None \<Rightarrow> Inr []
             | Some s \<Rightarrow> if s = [] then Inr [] else Inr (column @ '' >= '' @ literal_string s)) (\<lambda>lo.
          rbind
            (case stop of
               None \<Rightarrow> Inr []
             | Some s \<Rightarrow> if s = [] then Inr [] else upperBound condition (V_Scalar (S_String s))) (\<lambda>hi.
            let bounds = filter (\<lambda>b. b \<noteq> []) [lo, hi]
            in if bounds = [] then throw ''Enter a range bound'' else Inr (join '' AND '' bounds)))
      | _ \<Rightarrow> throw ''Enter a range'')"

definition text_predicate :: "string \<Rightarrow> filter_condition \<Rightarrow> string result" where
  "text_predicate column condition =
     (let value = scalar_sql (cond_value condition) in
      if cond_regex condition then
        rbind value (\<lambda>v. Inr (''regexp_matches('' @ column @ '', '' @ v @ '', '' @
          literal_string (if cond_case_sensitive condition then ''c'' else ''i'') @ '')''))
      else
        rbind value (\<lambda>v.
          let lhs = (if cond_case_sensitive condition then column else ''lower('' @ column @ '')'');
              rhs = (if cond_case_sensitive condition then v else ''lower('' @ v @ '')'')
          in Inr (operator_text (cond_operator condition) @ ''('' @ lhs @ '', '' @ rhs @ '')'')))"

definition compare_predicate :: "string \<Rightarrow> filter_condition \<Rightarrow> string result" where
  "compare_predicate column condition =
     (case comparison (cond_operator condition) of
        None \<Rightarrow> throw ''Unsupported filter operator''
      | Some cmp \<Rightarrow>
          if cond_operator condition = Lte then upperBound condition (cond_value condition)
          else rbind (scalar_sql (cond_value condition)) (\<lambda>v. Inr (column @ '' '' @ cmp @ '' '' @ v)))"

definition condition_predicate :: "filter_condition \<Rightarrow> string result" where
  "condition_predicate condition =
     (let column = sql_identifier (cond_column condition); operator = cond_operator condition in
      rbind
        (if operator = Is_Null then Inr (column @ '' IS NULL'')
         else if operator = Is_Empty
           then Inr (emptyPredicate (cond_column condition) (cond_field condition))
         else if isTopicCoverageField (cond_field condition) then topic_predicate column condition
         else if operator = In then in_predicate column condition
         else if operator = Between then between_predicate column condition
         else if operator \<in> {Contains, Starts_With, Ends_With} then text_predicate column condition
         else compare_predicate column condition)
        (\<lambda>predicate.
          Inr (if cond_negate condition then ''NOT ('' @ predicate @ '')'' else ''('' @ predicate @ '')'')))"

definition filterPredicate :: "filter_request \<Rightarrow> string result" where
  "filterPredicate request =
     (if req_conditions request = [] then throw ''Add at least one filter condition''
      else rbind (rmap condition_predicate (req_conditions request)) (\<lambda>ps.
        Inr (join (case req_logic request of Or \<Rightarrow> '' OR '' | And \<Rightarrow> '' AND '') ps)))"

definition filterSelect :: "filter_request \<Rightarrow> string result" where
  "filterSelect request =
     rbind (filterPredicate request) (\<lambda>p. Inr (''SELECT * FROM '' @ CURRENT @ '' WHERE '' @ p))"

subsection \<open>Samples\<close>

datatype slice_mode = Mode_slice | Mode_random_sample | Mode_shuffle

record slice_request =
  sl_mode :: "slice_mode option"
  sl_offset :: "js_number option"
  sl_length :: "js_number option"
  sl_sample_size :: "js_number option"
  sl_random_seed :: "js_number option"

definition sample_integer :: "js_number \<Rightarrow> string result" where
  "sample_integer n =
     (if \<not> isSafeInteger n \<or> num_less n (Finite 0) then throw ''Expected a non-negative integer''
      else Inr (show_number n))"

text \<open>\<open>sample_size * 100\<close> in double arithmetic, for a finite size.\<close>

definition times_100 :: "js_number \<Rightarrow> js_number" where
  "times_100 n = (case n of Finite q \<Rightarrow> to_double (q * 100) | _ \<Rightarrow> n)"

definition sample_size_sql :: "slice_request \<Rightarrow> string result" where
  "sample_size_sql request =
     (if sl_mode request = Some Mode_shuffle then Inr ''100 PERCENT''
      else case sl_sample_size request of
             Some n \<Rightarrow>
               if num_less (Finite 0) n \<and> num_less n (Finite 1)
               then Inr (show_number (times_100 n) @ '' PERCENT'')
               else rbind (sample_integer n) (\<lambda>s. Inr (s @ '' ROWS''))
           | None \<Rightarrow> rbind (sample_integer (Finite 0)) (\<lambda>s. Inr (s @ '' ROWS'')))"

definition sampleSelect :: "slice_request \<Rightarrow> string result" where
  "sampleSelect request =
     (if sl_mode request = None \<or> sl_mode request = Some Mode_slice then
        rbind (case sl_length request of
                 None \<Rightarrow> Inr []
               | Some n \<Rightarrow> rbind (sample_integer n) (\<lambda>s. Inr ('' LIMIT '' @ s))) (\<lambda>limit.
        rbind (sample_integer (case sl_offset request of None \<Rightarrow> Finite 0 | Some n \<Rightarrow> n)) (\<lambda>offset.
          Inr (''SELECT * FROM '' @ CURRENT @ limit @ '' OFFSET '' @ offset)))
      else
        rbind (sample_size_sql request) (\<lambda>size.
        rbind (case sl_random_seed request of
                 None \<Rightarrow> Inr []
               | Some n \<Rightarrow> rbind (sample_integer n) (\<lambda>s. Inr ('' REPEATABLE ('' @ s @ '')''))) (\<lambda>seed.
          Inr (''SELECT * FROM '' @ CURRENT @ '' USING SAMPLE reservoir('' @ size @ '')'' @ seed))))"

subsection \<open>Joins, stacks and columns\<close>

datatype join_type = J_inner | J_left | J_right | J_full | J_semi | J_anti | J_cross

fun join_text :: "join_type \<Rightarrow> string" where
  "join_text J_inner = ''inner''"
| "join_text J_left = ''left''"
| "join_text J_right = ''right''"
| "join_text J_full = ''full''"
| "join_text J_semi = ''semi''"
| "join_text J_anti = ''anti''"
| "join_text J_cross = ''cross''"

definition join_merged :: "join_type \<Rightarrow> string option \<Rightarrow> string option \<Rightarrow> bool" where
  "join_merged kind leftKey rightKey \<longleftrightarrow> kind \<noteq> J_cross \<and> leftKey = rightKey"

definition left_selection :: "join_type \<Rightarrow> bool \<Rightarrow> string option \<Rightarrow> string \<Rightarrow> string" where
  "left_selection kind merged leftKey column =
     (let name = sql_identifier column in
      if merged \<and> Some column = leftKey \<and> (kind = J_right \<or> kind = J_full)
      then (if kind = J_right then ''b.'' @ name else ''coalesce(a.'' @ name @ '', b.'' @ name @ '')'') @
           '' AS '' @ name
      else ''a.'' @ name)"

text \<open>
  The output names of the right columns: \<open>reserved\<close> holds the folded names given so far, a
  clashing column gets the right block's name as a suffix and then a number.
\<close>

fun right_names :: "string \<Rightarrow> (string \<Rightarrow> bool) \<Rightarrow> string list \<Rightarrow> string list \<Rightarrow> (string \<times> string) list" where
  "right_names right skip reserved [] = []"
| "right_names right skip reserved (column # rest) =
     (if skip column then right_names right skip reserved rest
      else
        let stem = (if fold_case column \<in> set reserved then column @ ''_'' @ right else column);
            name = (if fold_case stem \<in> set reserved
                    then stem @ ''_'' @ show_nat (free_number (stem @ ''_'') reserved 2)
                    else stem)
        in (column, name) # right_names right skip (reserved @ [fold_case name]) rest)"

definition join_projection ::
    "string \<Rightarrow> join_type \<Rightarrow> string option \<Rightarrow> string option \<Rightarrow> string list \<Rightarrow> string list \<Rightarrow> string" where
  "join_projection right kind leftKey rightKey leftColumns rightColumns =
     (let merged = join_merged kind leftKey rightKey;
          selections = map (left_selection kind merged leftKey) leftColumns;
          added = (if kind = J_semi \<or> kind = J_anti then []
                   else right_names right (\<lambda>c. merged \<and> Some c = rightKey)
                          (map fold_case leftColumns) rightColumns)
      in join '', '' (selections @
           map (\<lambda>(column, name). ''b.'' @ sql_identifier column @ '' AS '' @ sql_identifier name) added))"

definition joinSelect ::
    "string \<Rightarrow> string \<Rightarrow> join_type \<Rightarrow> string option \<Rightarrow> string option \<Rightarrow>
     (string list \<times> string list) option \<Rightarrow> string result" where
  "joinSelect left right kind leftKey rightKey cols =
     (let projection = (case cols of
            None \<Rightarrow> ''*''
          | Some (leftColumns, rightColumns) \<Rightarrow>
              join_projection right kind leftKey rightKey leftColumns rightColumns);
          prefix = ''SELECT '' @ projection @ '' FROM '' @ table left @ '' AS a '' @
            ascii_upper (join_text kind) @ '' JOIN '' @ table right @ '' AS b''
      in if kind = J_cross then Inr prefix
         else case (leftKey, rightKey) of
                (Some lk, Some rk) \<Rightarrow>
                  if lk = [] \<or> rk = [] then throw ''Choose both join keys''
                  else Inr (if lk = rk then prefix @ '' USING ('' @ sql_identifier lk @ '')''
                            else prefix @ '' ON a.'' @ sql_identifier lk @ '' = b.'' @ sql_identifier rk)
              | _ \<Rightarrow> throw ''Choose both join keys'')"

definition stackSelect :: "string list \<Rightarrow> bool \<Rightarrow> string result" where
  "stackSelect names distinct_rows =
     (if length names < 2 then throw ''Select at least two Data Blocks''
      else Inr (join (if distinct_rows then '' UNION BY NAME '' else '' UNION ALL BY NAME '')
             (map (\<lambda>name. ''SELECT * FROM '' @ table name) names)))"

definition columnSelect :: "string \<Rightarrow> string \<Rightarrow> string list \<Rightarrow> string" where
  "columnSelect column expression existing =
     (if column \<in> set existing
      then ''SELECT * REPLACE ('' @ expression @ '' AS '' @ sql_identifier column @ '') FROM '' @ CURRENT
      else ''SELECT *, '' @ expression @ '' AS '' @ sql_identifier column @ '' FROM '' @ CURRENT)"

subsection \<open>Literals are read back\<close>

interpretation lit: sql_quoting "CHR 0x27" literal_string In_Literal
  by unfold_locales (auto simp: literal_string_def)

lemma closed_literal_string [closed_intros, simp]: "sql_closed (literal_string s)"
  by (rule lit.closed_enc)

lemma closed_literal: "literal v = Inr s \<Longrightarrow> sql_closed s"
proof -
  have "sql_closed ''NULL''" "sql_closed ''TRUE''" "sql_closed ''FALSE''"
    by (rule closedI, simp)+
  then show "literal v = Inr s \<Longrightarrow> sql_closed s"
    by (auto simp: literal_def closed_show_number split: scalar.splits if_splits)
qed

lemma closed_table [closed_intros, simp]: "sql_closed (table name)"
  by (simp add: table_def)

lemma closed_CURRENT [closed_intros, simp]: "sql_closed CURRENT"
  by (rule closedI) (simp add: CURRENT_def)

lemma replaceAll_char_idle: "c \<notin> set s \<Longrightarrow> replaceAll_char c r s = s"
  by (induction s) auto

lemma closed_space_class [simp]: "CHR 0x27 \<notin> set rest \<Longrightarrow> sql_closed (space_class rest)"
  using lit.closed_enc [of "''['' @ [CHR 0x5C] @ ''p{Z}'' @ [CHR 0x5C] @ ''s]'' @ rest"]
  by (simp add: space_class_def literal_string_def replaceAll_char_idle)

lemma closed_emptyPredicate [simp]: "sql_closed (emptyPredicate column field)"
  by (rule closedI)
    (simp add: emptyPredicate_def Let_def closed_scans split: option.splits)

subsection \<open>Closed filters\<close>

text \<open>One lemma per kind of predicate, then the whole request.\<close>

lemma closed_scalar_sql: "scalar_sql v = Inr s \<Longrightarrow> sql_closed s"
  by (auto simp: scalar_sql_def dest: closed_literal split: condition_value.splits)

lemma closed_upperBound: "upperBound condition v = Inr s \<Longrightarrow> sql_closed s"
  by (auto simp: upperBound_def Let_def closed_scans intro!: closedI dest!: closed_scalar_sql
      split: option.splits condition_value.splits scalar.splits if_splits)

lemma comparison_text:
  "comparison operator = Some cmp \<Longrightarrow> sql_closed cmp"
  "coverage_comparison operator = Some cmp \<Longrightarrow> sql_closed cmp"
  by (auto simp: comparison_def coverage_comparison_def plain_char_def intro!: closed_plain
      split: filter_operator.splits)

lemma closed_topic_predicate:
  "topic_predicate (sql_identifier c) condition = Inr s \<Longrightarrow> sql_closed s"
  by (auto simp: topic_predicate_def closed_scans intro!: closedI
      dest!: closed_literal comparison_text(2) split: condition_value.splits option.splits)

lemma closed_literals: "rmap literal vs = Inr ss \<Longrightarrow> \<forall>s \<in> set ss. sql_closed s"
  using rmap_Inr_all [of literal vs ss sql_closed] closed_literal by (auto simp: list_all_iff)

lemma closed_comma_join: "\<forall>s \<in> set ss. sql_closed s \<Longrightarrow> sql_closed (join '', '' ss)"
  by (rule closed_join) (simp_all add: closed_plain plain_char_def)

lemma closed_in_predicate:
  "in_predicate (sql_identifier c) condition = Inr s \<Longrightarrow> sql_closed s"
  by (auto simp: in_predicate_def Let_def closed_scans intro!: closedI
      dest!: closed_literals closed_comma_join split: condition_value.splits option.splits if_splits)

lemma closed_between_predicate:
  "between_predicate (sql_identifier c) condition = Inr s \<Longrightarrow> sql_closed s"
  by (auto simp: between_predicate_def Let_def closed_scans intro!: closedI dest!: closed_upperBound
      split: condition_value.splits option.splits if_splits)

lemma closed_text_predicate:
  "text_predicate (sql_identifier c) condition = Inr s \<Longrightarrow>
   cond_operator condition \<in> {Contains, Starts_With, Ends_With} \<Longrightarrow> sql_closed s"
  by (auto simp: text_predicate_def Let_def closed_scans intro!: closedI dest!: closed_scalar_sql
      split: if_splits)

lemma closed_compare_predicate:
  "compare_predicate (sql_identifier c) condition = Inr s \<Longrightarrow> sql_closed s"
  by (auto simp: compare_predicate_def closed_scans intro!: closedI
      dest!: closed_scalar_sql comparison_text(1) closed_upperBound split: option.splits if_splits)

lemma closed_condition_predicate: "condition_predicate condition = Inr s \<Longrightarrow> sql_closed s"
  by (auto simp: condition_predicate_def Let_def closed_scans intro!: closedI
      dest!: closed_topic_predicate closed_in_predicate closed_between_predicate
        closed_text_predicate closed_compare_predicate split: if_splits)

lemma closed_filterPredicate:
  assumes "filterPredicate request = Inr s"
  shows "sql_closed s"
proof -
  from assms obtain ps where ps: "rmap condition_predicate (req_conditions request) = Inr ps"
    and s: "s = join (case req_logic request of Or \<Rightarrow> '' OR '' | And \<Rightarrow> '' AND '') ps"
    by (auto simp: filterPredicate_def split: if_splits)
  have "list_all sql_closed ps"
    using ps by (rule rmap_Inr_all) (rule closed_condition_predicate)
  moreover have "sql_closed (case req_logic request of Or \<Rightarrow> '' OR '' | And \<Rightarrow> '' AND '')"
    by (cases "req_logic request") (auto intro!: closedI)
  ultimately show ?thesis using s by (auto intro!: closed_join simp: list_all_iff)
qed

subsection \<open>Closed samples, joins and stacks\<close>

lemma closed_sample_integer: "sample_integer n = Inr s \<Longrightarrow> sql_closed s"
  by (auto simp: sample_integer_def closed_show_number split: if_splits)

lemma closed_sample_size: "sample_size_sql request = Inr s \<Longrightarrow> sql_closed s"
  by (auto simp: sample_size_sql_def closed_scans closed_show_number intro!: closedI
      dest!: closed_sample_integer split: if_splits option.splits)

lemma closed_sampleSelect: "sampleSelect request = Inr s \<Longrightarrow> sql_closed s"
  by (auto simp: sampleSelect_def closed_scans intro!: closedI
      dest!: closed_sample_integer closed_sample_size split: if_splits option.splits)

lemma closed_left_selection: "sql_closed (left_selection kind merged leftKey column)"
  by (rule closedI) (simp add: left_selection_def Let_def closed_scans)

lemma closed_join_projection [simp]:
  "sql_closed (join_projection right kind leftKey rightKey leftColumns rightColumns)"
  unfolding join_projection_def Let_def
  by (intro closed_comma_join)
    (auto simp: closed_left_selection closed_scans intro!: closedI split: prod.splits)

lemma closed_join_text [simp]: "sql_closed (ascii_upper (join_text kind))"
proof (rule closed_plain)
  show "list_all plain_char (ascii_upper (join_text kind))" by (cases kind; simp only:; code_simp)
qed

lemma closed_joinSelect:
  "joinSelect left right kind leftKey rightKey cols = Inr s \<Longrightarrow> sql_closed s"
  by (auto simp: joinSelect_def Let_def closed_scans simp del: join_text.simps intro!: closedI
      split: if_splits option.splits)

lemma closed_stackSelect: "stackSelect names distinct_rows = Inr s \<Longrightarrow> sql_closed s"
proof -
  have "sql_closed (''SELECT * FROM '' @ table name)"
    and "sql_closed '' UNION BY NAME ''" "sql_closed '' UNION ALL BY NAME ''" for name
    by (rule closedI, simp add: closed_scans)+
  then show "stackSelect names distinct_rows = Inr s \<Longrightarrow> sql_closed s"
    by (auto simp: stackSelect_def intro!: closed_join split: if_splits)
qed

lemma closed_columnSelect: "sql_closed expression \<Longrightarrow> sql_closed (columnSelect column expression existing)"
  by (rule closedI) (simp add: columnSelect_def closed_scans)

end
