(* ===== verification/Operations.thy ===== *)
theory Operations
  imports Sql_Builders
begin

text \<open>
  The operation catalogue of the expression builder, \<open>preprocessing/build/operations.ts\<close>: the type
  families of the menus, the 62 operations with their eligibility, parameters, result family and
  SQL, and the functions that append an operation to a chain. The optional members \<open>parameters\<close>
  and \<open>summary\<close> of an entry default to no parameter and \<open>false\<close>, which is how every reader of the
  catalogue treats their absence.
\<close>

named_theorems catalogue \<open>the entries of the operation catalogue\<close>

subsection \<open>Type families\<close>

datatype build_type =
    T_number | T_text | T_boolean | T_date | T_time | T_timestamp | T_unknown | T_unsupported | T_null
  | T_list build_type

fun family_text :: "build_type \<Rightarrow> string" where
  "family_text T_number = ''number''"
| "family_text T_text = ''text''"
| "family_text T_boolean = ''boolean''"
| "family_text T_date = ''date''"
| "family_text T_time = ''time''"
| "family_text T_timestamp = ''timestamp''"
| "family_text T_unknown = ''unknown''"
| "family_text T_unsupported = ''unsupported''"
| "family_text T_null = ''null''"
| "family_text (T_list _) = ''list''"

definition extension_truthy :: "arrow_field \<Rightarrow> bool" where
  "extension_truthy field =
     (case arrowExtensionName field of Some n \<Rightarrow> n \<noteq> [] | None \<Rightarrow> False)"

definition utf8_dictionary :: "arrow_type \<Rightarrow> bool" where
  "utf8_dictionary t = (case t of Arrow_Dictionary _ v \<Rightarrow> v = Arrow_Utf8 | _ \<Rightarrow> False)"

function buildType :: "arrow_field option \<Rightarrow> build_type" where
  "buildType None = T_unsupported"
| "buildType (Some field) =
     (if extension_truthy field then T_unsupported
      else if isArrowStringField field \<or> utf8_dictionary (field_type field) then T_text
      else case field_type field of
             Arrow_Int _ _ \<Rightarrow> T_number
           | Arrow_Float \<Rightarrow> T_number
           | Arrow_Decimal _ _ \<Rightarrow> T_number
           | Arrow_Bool \<Rightarrow> T_boolean
           | Arrow_Date \<Rightarrow> T_date
           | Arrow_Time \<Rightarrow> T_time
           | Arrow_Timestamp _ _ \<Rightarrow> T_timestamp
           | Arrow_List child \<Rightarrow> T_list (buildType (Some child))
           | Arrow_FixedSizeList _ child \<Rightarrow> T_list (buildType (Some child))
           | _ \<Rightarrow> T_unsupported)"
  by pat_completeness auto
termination
proof (relation "measure (\<lambda>f. case f of None \<Rightarrow> 0 | Some f \<Rightarrow> Suc (size f))", goal_cases)
  case (2 field x)
  then show ?case by (cases field) simp
next
  case (3 field x y)
  then show ?case by (cases field) simp
qed simp

subsection \<open>Parameters and entries\<close>

datatype build_argument =
    A_value | A_digits | A_exponent | A_start | A_length | A_end | A_replacement | A_delimiter
  | A_format | A_part | A_unit | A_direction | A_index

fun argument_text :: "build_argument \<Rightarrow> string" where
  "argument_text A_value = ''value''"
| "argument_text A_digits = ''digits''"
| "argument_text A_exponent = ''exponent''"
| "argument_text A_start = ''start''"
| "argument_text A_length = ''length''"
| "argument_text A_end = ''end''"
| "argument_text A_replacement = ''replacement''"
| "argument_text A_delimiter = ''delimiter''"
| "argument_text A_format = ''format''"
| "argument_text A_part = ''part''"
| "argument_text A_unit = ''unit''"
| "argument_text A_direction = ''direction''"
| "argument_text A_index = ''index''"

record op_parameter =
  par_name :: build_argument
  par_label :: string
  par_value :: string
  par_options :: "string list option"
  par_optional :: bool
  par_integer :: bool

type_synonym arguments = "build_argument \<rightharpoonup> string"

datatype syntax_kind = Syn_text | Syn_number | Syn_scalar | Syn_element

record op_syntax =
  syn_name :: string
  syn_input :: nat
  syn_args :: "(build_argument \<times> syntax_kind \<times> bool) list"

record op_definition =
  def_functionName :: "string option"
  def_syntax :: "op_syntax option"
  def_label :: string
  def_group :: string
  def_accepts :: "build_type \<Rightarrow> bool"
  def_result :: "build_type \<Rightarrow> build_type"
  def_sql :: "string \<Rightarrow> arguments \<Rightarrow> build_type \<Rightarrow> string result"
  def_summary :: bool
  def_parameters :: "build_type \<Rightarrow> op_parameter list"
  def_description :: "string option"

definition scalar_family :: "build_type \<Rightarrow> bool" where
  "scalar_family t =
     (case t of T_unknown \<Rightarrow> False | T_unsupported \<Rightarrow> False | T_list _ \<Rightarrow> False | T_null \<Rightarrow> False | _ \<Rightarrow> True)"

definition numeric :: "build_type \<Rightarrow> bool" where
  "numeric t \<longleftrightarrow> t = T_number"

definition textual :: "build_type \<Rightarrow> bool" where
  "textual t \<longleftrightarrow> t = T_text"

definition logical :: "build_type \<Rightarrow> bool" where
  "logical t \<longleftrightarrow> t = T_boolean"

definition list_family :: "build_type \<Rightarrow> bool" where
  "list_family t = (case t of T_list _ \<Rightarrow> True | _ \<Rightarrow> False)"

definition numericList :: "build_type \<Rightarrow> bool" where
  "numericList t = (case t of T_list u \<Rightarrow> numeric u | _ \<Rightarrow> False)"

definition textList :: "build_type \<Rightarrow> bool" where
  "textList t = (case t of T_list u \<Rightarrow> textual u | _ \<Rightarrow> False)"

definition temporal :: "build_type \<Rightarrow> bool" where
  "temporal t \<longleftrightarrow> t = T_date \<or> t = T_time \<or> t = T_timestamp"

definition dateOrTimestamp :: "build_type \<Rightarrow> bool" where
  "dateOrTimestamp t \<longleftrightarrow> t = T_date \<or> t = T_timestamp"

definition same :: "build_type \<Rightarrow> build_type" where
  "same t = t"

definition parameter :: "build_argument \<Rightarrow> string \<Rightarrow> string \<Rightarrow> op_parameter" where
  "parameter name label value =
     \<lparr>par_name = name, par_label = label, par_value = value, par_options = None,
      par_optional = False, par_integer = False\<rparr>"

definition arg :: "arguments \<Rightarrow> build_argument \<Rightarrow> string result" where
  "arg args name =
     (case args name of None \<Rightarrow> throw (''Enter '' @ argument_text name) | Some value \<Rightarrow> Inr value)"

definition integer :: "string \<Rightarrow> string result" where
  "integer value =
     (if \<not> integer_text (trim value) then throw ''Expected an integer'' else Inr (trim value))"

definition numericLiteral :: "string \<Rightarrow> string result" where
  "numericLiteral value =
     (if \<not> numeric_text (trim value) then throw ''Expected a number'' else Inr (trim value))"

definition scalarLiteral :: "string \<Rightarrow> build_type \<Rightarrow> string result" where
  "scalarLiteral value t =
     (if numeric t then numericLiteral value
      else if logical t then
        (if fold_case value \<notin> {''true'', ''false''} then throw ''Choose true or false''
         else Inr (ascii_upper value))
      else Inr (literal_string value))"

definition scalarParameter :: "build_type \<Rightarrow> op_parameter list" where
  "scalarParameter t =
     [(parameter A_value ''Value'' (if numeric t then ''0'' else if logical t then ''false'' else []))
        \<lparr>par_options := (if logical t then Some [''true'', ''false''] else None)\<rparr>]"

definition fn_entry ::
    "string \<Rightarrow> string \<Rightarrow> string \<Rightarrow> (build_type \<Rightarrow> bool) \<Rightarrow> (build_type \<Rightarrow> build_type) \<Rightarrow> bool \<Rightarrow> op_definition"
  where [catalogue]:
  "fn_entry label grp name accepts result summary =
     \<lparr>def_functionName = Some name, def_syntax = None, def_label = label, def_group = grp,
      def_accepts = accepts, def_result = result,
      def_sql = (\<lambda>e a t. Inr (name @ ''('' @ e @ '')'')),
      def_summary = summary, def_parameters = (\<lambda>_. []), def_description = None\<rparr>"

definition plain_entry ::
    "string \<Rightarrow> string \<Rightarrow> (build_type \<Rightarrow> bool) \<Rightarrow> (build_type \<Rightarrow> build_type) \<Rightarrow>
     (string \<Rightarrow> arguments \<Rightarrow> build_type \<Rightarrow> string result) \<Rightarrow> op_definition" where [catalogue]:
  "plain_entry label grp accepts result sql =
     \<lparr>def_functionName = None, def_syntax = None, def_label = label, def_group = grp,
      def_accepts = accepts, def_result = result, def_sql = sql,
      def_summary = False, def_parameters = (\<lambda>_. []), def_description = None\<rparr>"

definition count_entry ::
    "string \<Rightarrow> (string \<Rightarrow> arguments \<Rightarrow> build_type \<Rightarrow> string result) \<Rightarrow> op_definition" where [catalogue]:
  "count_entry label sql =
     (plain_entry label ''Column summaries'' (\<lambda>_. True) (\<lambda>_. T_number) sql)\<lparr>def_summary := True\<rparr>"

definition numericFunction :: "string \<Rightarrow> string \<Rightarrow> op_definition" where [catalogue]:
  "numericFunction label name = fn_entry label ''Numeric'' name numeric (\<lambda>_. T_number) False"

definition numericSummary :: "string \<Rightarrow> string \<Rightarrow> op_definition" where [catalogue]:
  "numericSummary label name = fn_entry label ''Column summaries'' name numeric (\<lambda>_. T_number) True"

definition textFunction :: "string \<Rightarrow> string \<Rightarrow> build_type \<Rightarrow> op_definition" where [catalogue]:
  "textFunction label name result = fn_entry label ''Text'' name textual (\<lambda>_. result) False"

definition listFunction ::
    "string \<Rightarrow> string \<Rightarrow> (build_type \<Rightarrow> build_type) \<Rightarrow> (build_type \<Rightarrow> bool) \<Rightarrow> op_definition"
  where [catalogue]:
  "listFunction label name result accepts = fn_entry label ''List'' name accepts result False"

definition dateParts :: "build_type \<Rightarrow> string list" where
  "dateParts t =
     (if t \<noteq> T_time then [''year'', ''quarter'', ''month'', ''day'', ''isodow'', ''dayofyear'', ''week'']
      else []) @
     (if t \<noteq> T_date then [''hour'', ''minute'', ''second''] else [])"

definition units :: "build_type \<Rightarrow> string list" where
  "units t =
     [''year'', ''quarter'', ''month'', ''week'', ''day''] @
     (if t = T_timestamp then [''hour'', ''minute'', ''second''] else [])"

definition syntax_of :: "string \<Rightarrow> nat \<Rightarrow> (build_argument \<times> syntax_kind \<times> bool) list \<Rightarrow> op_syntax option"
  where [catalogue]:
  "syntax_of name input args = Some \<lparr>syn_name = name, syn_input = input, syn_args = args\<rparr>"

text \<open>\<open>f(e, x, ...)\<close>: a call with its input first, the arguments already rendered.\<close>

definition call :: "string \<Rightarrow> string list \<Rightarrow> string" where
  "call name args = name @ ''('' @ join '', '' args @ '')''"

subsection \<open>The entries with parameters or native SQL\<close>

definition op_is_null :: op_definition where [catalogue]:
  "op_is_null = plain_entry ''Is NULL'' ''General'' (\<lambda>_. True) (\<lambda>_. T_boolean)
     (\<lambda>e a t. Inr (''('' @ e @ '') IS NULL''))"

definition op_is_not_null :: op_definition where [catalogue]:
  "op_is_not_null = plain_entry ''Is not NULL'' ''General'' (\<lambda>_. True) (\<lambda>_. T_boolean)
     (\<lambda>e a t. Inr (''('' @ e @ '') IS NOT NULL''))"

definition op_fill_null :: op_definition where [catalogue]:
  "op_fill_null =
     (plain_entry ''Fill NULL'' ''General'' scalar_family same
       (\<lambda>e a t. rbind (arg a A_value) (\<lambda>v. rbind (scalarLiteral v t) (\<lambda>l.
          Inr (call ''coalesce'' [e, l])))))
     \<lparr>def_syntax := syntax_of ''coalesce'' 0 [(A_value, Syn_scalar, False)],
      def_parameters := scalarParameter\<rparr>"

definition op_count_distinct :: op_definition where [catalogue]:
  "op_count_distinct =
     (count_entry ''Count distinct'' (\<lambda>e a t. Inr (''count(DISTINCT '' @ e @ '')'')))
     \<lparr>def_accepts := (\<lambda>t. t \<noteq> T_unknown \<and> t \<noteq> T_unsupported)\<rparr>"

definition digits_parameter :: op_parameter where [catalogue]:
  "digits_parameter = (parameter A_digits ''Decimal places'' ''0'')\<lparr>par_integer := True\<rparr>"

definition op_round :: op_definition where [catalogue]:
  "op_round =
     (numericFunction ''Round'' ''round'')
     \<lparr>def_syntax := syntax_of ''round'' 0 [(A_digits, Syn_number, False)],
      def_parameters := (\<lambda>_. [digits_parameter]),
      def_sql := (\<lambda>e a t. rbind (arg a A_digits) (\<lambda>v. rbind (integer v) (\<lambda>n.
        Inr (call ''round'' [e, n]))))\<rparr>"

definition op_trunc :: op_definition where [catalogue]:
  "op_trunc =
     (numericFunction ''Truncate'' ''trunc'')
     \<lparr>def_syntax := syntax_of ''trunc'' 0 [(A_digits, Syn_number, False)],
      def_parameters := (\<lambda>_. [digits_parameter]),
      def_sql := (\<lambda>e a t. rbind (arg a A_digits) (\<lambda>v. rbind (integer v) (\<lambda>n.
        Inr (call ''trunc'' [e, n]))))\<rparr>"

definition op_power :: op_definition where [catalogue]:
  "op_power =
     (numericFunction ''Power'' ''power'')
     \<lparr>def_syntax := syntax_of ''power'' 0 [(A_exponent, Syn_number, False)],
      def_parameters := (\<lambda>_. [parameter A_exponent ''Exponent'' ''2'']),
      def_sql := (\<lambda>e a t. rbind (arg a A_exponent) (\<lambda>v. rbind (numericLiteral v) (\<lambda>n.
        Inr (call ''power'' [e, n]))))\<rparr>"

definition op_substring :: op_definition where [catalogue]:
  "op_substring =
     (textFunction ''Substring'' ''substring'' T_text)
     \<lparr>def_syntax := syntax_of ''substring'' 0 [(A_start, Syn_number, False), (A_length, Syn_number, True)],
      def_parameters := (\<lambda>_.
        [(parameter A_start ''Start (1-based; negatives count from end)'' ''1'')\<lparr>par_integer := True\<rparr>,
         (parameter A_length ''Length (blank means remainder)'' [])
           \<lparr>par_optional := True, par_integer := True\<rparr>]),
      def_sql := (\<lambda>e a t. rbind (arg a A_start) (\<lambda>v. rbind (integer v) (\<lambda>n.
        case a A_length of
          Some l \<Rightarrow> if l = [] then Inr (call ''substring'' [e, n])
                    else rbind (integer l) (\<lambda>m. Inr (call ''substring'' [e, n, m]))
        | None \<Rightarrow> Inr (call ''substring'' [e, n]))))\<rparr>"

definition op_replace :: op_definition where [catalogue]:
  "op_replace =
     (textFunction ''Replace literal text'' ''replace'' T_text)
     \<lparr>def_syntax := syntax_of ''replace'' 0 [(A_value, Syn_text, False), (A_replacement, Syn_text, False)],
      def_parameters := (\<lambda>_.
        [parameter A_value ''Find text'' [], parameter A_replacement ''Replacement'' []]),
      def_sql := (\<lambda>e a t. rbind (arg a A_value) (\<lambda>v. rbind (arg a A_replacement) (\<lambda>r.
        Inr (call ''replace'' [e, literal_string v, literal_string r]))))\<rparr>"

definition op_contains :: op_definition where [catalogue]:
  "op_contains =
     (textFunction ''Contains'' ''contains'' T_boolean)
     \<lparr>def_syntax := syntax_of ''contains'' 0 [(A_value, Syn_text, False)],
      def_parameters := (\<lambda>_. [parameter A_value ''Text'' []]),
      def_sql := (\<lambda>e a t. rbind (arg a A_value) (\<lambda>v.
        Inr (call ''contains'' [e, literal_string v])))\<rparr>"

definition op_starts_with :: op_definition where [catalogue]:
  "op_starts_with =
     (textFunction ''Starts with'' ''starts_with'' T_boolean)
     \<lparr>def_syntax := syntax_of ''starts_with'' 0 [(A_value, Syn_text, False)],
      def_parameters := (\<lambda>_. [parameter A_value ''Text'' []]),
      def_sql := (\<lambda>e a t. rbind (arg a A_value) (\<lambda>v.
        Inr (call ''starts_with'' [e, literal_string v])))\<rparr>"

definition op_ends_with :: op_definition where [catalogue]:
  "op_ends_with =
     (textFunction ''Ends with'' ''ends_with'' T_boolean)
     \<lparr>def_syntax := syntax_of ''ends_with'' 0 [(A_value, Syn_text, False)],
      def_parameters := (\<lambda>_. [parameter A_value ''Text'' []]),
      def_sql := (\<lambda>e a t. rbind (arg a A_value) (\<lambda>v.
        Inr (call ''ends_with'' [e, literal_string v])))\<rparr>"

definition op_split :: op_definition where [catalogue]:
  "op_split =
     (textFunction ''Split'' ''string_split'' (T_list T_text))
     \<lparr>def_syntax := syntax_of ''string_split'' 0 [(A_delimiter, Syn_text, False)],
      def_parameters := (\<lambda>_. [parameter A_delimiter ''Delimiter'' '' '']),
      def_sql := (\<lambda>e a t. rbind (arg a A_delimiter) (\<lambda>v.
        Inr (call ''string_split'' [e, literal_string v])))\<rparr>"

definition op_parse_datetime :: op_definition where [catalogue]:
  "op_parse_datetime =
     (textFunction ''Parse datetime'' ''strptime'' T_timestamp)
     \<lparr>def_syntax := syntax_of ''strptime'' 0 [(A_format, Syn_text, False)],
      def_parameters := (\<lambda>_. [parameter A_format ''DuckDB datetime format'' ''%Y-%m-%d %H:%M:%S'']),
      def_description := Some ''Strict parsing. Use .%f for fractional seconds and %z for a UTC offset.'',
      def_sql := (\<lambda>e a t. rbind (arg a A_format) (\<lambda>v.
        Inr (call ''strptime'' [e, literal_string v])))\<rparr>"

definition op_date_part :: op_definition where [catalogue]:
  "op_date_part =
     (plain_entry ''Extract date/time part'' ''Date/time'' temporal (\<lambda>_. T_number)
       (\<lambda>e a t. rbind (arg a A_part) (\<lambda>v. Inr (call ''date_part'' [literal_string v, e]))))
     \<lparr>def_syntax := syntax_of ''date_part'' 1 [(A_part, Syn_text, False)],
      def_parameters := (\<lambda>t.
        [(parameter A_part ''Part'' (hd (dateParts t)))\<lparr>par_options := Some (dateParts t)\<rparr>]),
      def_description := Some ''isodow: Monday=1; week: ISO week; second: whole seconds.''\<rparr>"

definition op_date_trunc :: op_definition where [catalogue]:
  "op_date_trunc =
     (plain_entry ''Truncate date/time'' ''Date/time'' dateOrTimestamp (\<lambda>_. T_timestamp)
       (\<lambda>e a t. rbind (arg a A_unit) (\<lambda>v. Inr (call ''date_trunc'' [literal_string v, e]))))
     \<lparr>def_syntax := syntax_of ''date_trunc'' 1 [(A_unit, Syn_text, False)],
      def_parameters := (\<lambda>t. [(parameter A_unit ''Unit'' ''day'')\<lparr>par_options := Some (units t)\<rparr>])\<rparr>"

definition op_format_datetime :: op_definition where [catalogue]:
  "op_format_datetime =
     (plain_entry ''Format date/time'' ''Date/time'' dateOrTimestamp (\<lambda>_. T_text)
       (\<lambda>e a t. rbind (arg a A_format) (\<lambda>v. Inr (call ''strftime'' [e, literal_string v]))))
     \<lparr>def_syntax := syntax_of ''strftime'' 0 [(A_format, Syn_text, False)],
      def_parameters := (\<lambda>_. [parameter A_format ''DuckDB datetime format'' ''%Y-%m-%d''])\<rparr>"

definition op_not :: op_definition where [catalogue]:
  "op_not = plain_entry ''NOT'' ''Boolean'' logical (\<lambda>_. T_boolean)
     (\<lambda>e a t. Inr (''NOT ('' @ e @ '')''))"

definition op_is_true :: op_definition where [catalogue]:
  "op_is_true = plain_entry ''Is true'' ''Boolean'' logical (\<lambda>_. T_boolean)
     (\<lambda>e a t. Inr (''('' @ e @ '') IS TRUE''))"

definition op_is_false :: op_definition where [catalogue]:
  "op_is_false = plain_entry ''Is false'' ''Boolean'' logical (\<lambda>_. T_boolean)
     (\<lambda>e a t. Inr (''('' @ e @ '') IS FALSE''))"

definition op_list_distinct :: op_definition where [catalogue]:
  "op_list_distinct =
     (listFunction ''Distinct elements'' ''list_distinct'' same list_family)
     \<lparr>def_description := Some ''Removes NULLs and duplicates; element order may change.''\<rparr>"

definition op_list_sort :: op_definition where [catalogue]:
  "op_list_sort =
     (listFunction ''Sort elements'' ''list_sort'' same list_family)
     \<lparr>def_syntax := syntax_of ''list_sort'' 0 [(A_direction, Syn_text, False)],
      def_parameters := (\<lambda>_.
        [(parameter A_direction ''Direction'' ''ASC'')\<lparr>par_options := Some [''ASC'', ''DESC'']\<rparr>]),
      def_sql := (\<lambda>e a t. rbind (arg a A_direction) (\<lambda>v.
        Inr (call ''list_sort'' [e, literal_string v])))\<rparr>"

definition element_family :: "build_type \<Rightarrow> build_type" where
  "element_family t = (case t of T_list u \<Rightarrow> u | _ \<Rightarrow> T_unknown)"

definition op_list_extract :: op_definition where [catalogue]:
  "op_list_extract =
     (listFunction ''Element at index'' ''list_extract'' element_family list_family)
     \<lparr>def_syntax := syntax_of ''list_extract'' 0 [(A_index, Syn_number, False)],
      def_parameters := (\<lambda>_.
        [(parameter A_index ''Index (1-based; negatives count from end)'' ''1'')\<lparr>par_integer := True\<rparr>]),
      def_sql := (\<lambda>e a t. rbind (arg a A_index) (\<lambda>v. rbind (integer v) (\<lambda>n.
        Inr (call ''list_extract'' [e, n]))))\<rparr>"

definition op_list_slice :: op_definition where [catalogue]:
  "op_list_slice =
     (listFunction ''Slice elements'' ''list_slice'' same list_family)
     \<lparr>def_syntax := syntax_of ''list_slice'' 0 [(A_start, Syn_number, False), (A_end, Syn_number, False)],
      def_parameters := (\<lambda>_.
        [(parameter A_start ''Start (inclusive)'' ''1'')\<lparr>par_integer := True\<rparr>,
         (parameter A_end ''End (inclusive)'' ''-1'')\<lparr>par_integer := True\<rparr>]),
      def_sql := (\<lambda>e a t. rbind (arg a A_start) (\<lambda>v. rbind (integer v) (\<lambda>n.
        rbind (arg a A_end) (\<lambda>w. rbind (integer w) (\<lambda>m. Inr (call ''list_slice'' [e, n, m]))))))\<rparr>"

definition op_list_contains :: op_definition where [catalogue]:
  "op_list_contains =
     (listFunction ''Contains element'' ''list_contains'' (\<lambda>_. T_boolean)
       (\<lambda>t. case t of T_list u \<Rightarrow> scalar_family u | _ \<Rightarrow> False))
     \<lparr>def_syntax := syntax_of ''list_contains'' 0 [(A_value, Syn_element, False)],
      def_parameters := (\<lambda>t. scalarParameter (element_family t)),
      def_sql := (\<lambda>e a t. rbind (arg a A_value) (\<lambda>v. rbind (scalarLiteral v (element_family t)) (\<lambda>l.
        Inr (call ''list_contains'' [e, l]))))\<rparr>"

definition op_list_join :: op_definition where [catalogue]:
  "op_list_join =
     (listFunction ''Join text elements'' ''array_to_string'' (\<lambda>_. T_text) textList)
     \<lparr>def_syntax := syntax_of ''array_to_string'' 0 [(A_delimiter, Syn_text, False)],
      def_parameters := (\<lambda>_. [parameter A_delimiter ''Delimiter'' '' '']),
      def_description := Some ''NULL elements are skipped.'',
      def_sql := (\<lambda>e a t. rbind (arg a A_delimiter) (\<lambda>v.
        Inr (call ''array_to_string'' [e, literal_string v])))\<rparr>"

subsection \<open>The catalogue\<close>

datatype (plugins only: code size) build_operation_kind =
    K_is_null
  | K_is_not_null
  | K_fill_null
  | K_count
  | K_count_null
  | K_count_distinct
  | K_min
  | K_max
  | K_abs
  | K_sign
  | K_round
  | K_trunc
  | K_floor
  | K_ceil
  | K_sqrt
  | K_power
  | K_ln
  | K_log10
  | K_exp
  | K_sum
  | K_mean
  | K_median
  | K_stddev
  | K_variance
  | K_lower
  | K_upper
  | K_trim
  | K_ltrim
  | K_rtrim
  | K_strip_accents
  | K_text_length
  | K_text_reverse
  | K_substring
  | K_replace
  | K_contains
  | K_starts_with
  | K_ends_with
  | K_split
  | K_parse_datetime
  | K_date_part
  | K_date_trunc
  | K_format_datetime
  | K_not
  | K_is_true
  | K_is_false
  | K_count_true
  | K_count_false
  | K_all_true
  | K_any_true
  | K_list_length
  | K_list_count
  | K_list_distinct
  | K_list_sort
  | K_list_reverse
  | K_list_extract
  | K_list_slice
  | K_list_contains
  | K_list_join
  | K_list_sum
  | K_list_mean
  | K_list_min
  | K_list_max

definition operationKinds :: "build_operation_kind list" where
  "operationKinds =
     [K_is_null, K_is_not_null, K_fill_null, K_count, K_count_null, K_count_distinct,
      K_min, K_max, K_abs, K_sign, K_round, K_trunc,
      K_floor, K_ceil, K_sqrt, K_power, K_ln, K_log10,
      K_exp, K_sum, K_mean, K_median, K_stddev, K_variance,
      K_lower, K_upper, K_trim, K_ltrim, K_rtrim, K_strip_accents,
      K_text_length, K_text_reverse, K_substring, K_replace, K_contains, K_starts_with,
      K_ends_with, K_split, K_parse_datetime, K_date_part, K_date_trunc, K_format_datetime,
      K_not, K_is_true, K_is_false, K_count_true, K_count_false, K_all_true,
      K_any_true, K_list_length, K_list_count, K_list_distinct, K_list_sort, K_list_reverse,
      K_list_extract, K_list_slice, K_list_contains, K_list_join, K_list_sum, K_list_mean,
      K_list_min, K_list_max]"

primrec kind_text :: "build_operation_kind \<Rightarrow> string" where
  "kind_text K_is_null = ''is_null''"
| "kind_text K_is_not_null = ''is_not_null''"
| "kind_text K_fill_null = ''fill_null''"
| "kind_text K_count = ''count''"
| "kind_text K_count_null = ''count_null''"
| "kind_text K_count_distinct = ''count_distinct''"
| "kind_text K_min = ''min''"
| "kind_text K_max = ''max''"
| "kind_text K_abs = ''abs''"
| "kind_text K_sign = ''sign''"
| "kind_text K_round = ''round''"
| "kind_text K_trunc = ''trunc''"
| "kind_text K_floor = ''floor''"
| "kind_text K_ceil = ''ceil''"
| "kind_text K_sqrt = ''sqrt''"
| "kind_text K_power = ''power''"
| "kind_text K_ln = ''ln''"
| "kind_text K_log10 = ''log10''"
| "kind_text K_exp = ''exp''"
| "kind_text K_sum = ''sum''"
| "kind_text K_mean = ''mean''"
| "kind_text K_median = ''median''"
| "kind_text K_stddev = ''stddev''"
| "kind_text K_variance = ''variance''"
| "kind_text K_lower = ''lower''"
| "kind_text K_upper = ''upper''"
| "kind_text K_trim = ''trim''"
| "kind_text K_ltrim = ''ltrim''"
| "kind_text K_rtrim = ''rtrim''"
| "kind_text K_strip_accents = ''strip_accents''"
| "kind_text K_text_length = ''text_length''"
| "kind_text K_text_reverse = ''text_reverse''"
| "kind_text K_substring = ''substring''"
| "kind_text K_replace = ''replace''"
| "kind_text K_contains = ''contains''"
| "kind_text K_starts_with = ''starts_with''"
| "kind_text K_ends_with = ''ends_with''"
| "kind_text K_split = ''split''"
| "kind_text K_parse_datetime = ''parse_datetime''"
| "kind_text K_date_part = ''date_part''"
| "kind_text K_date_trunc = ''date_trunc''"
| "kind_text K_format_datetime = ''format_datetime''"
| "kind_text K_not = ''not''"
| "kind_text K_is_true = ''is_true''"
| "kind_text K_is_false = ''is_false''"
| "kind_text K_count_true = ''count_true''"
| "kind_text K_count_false = ''count_false''"
| "kind_text K_all_true = ''all_true''"
| "kind_text K_any_true = ''any_true''"
| "kind_text K_list_length = ''list_length''"
| "kind_text K_list_count = ''list_count''"
| "kind_text K_list_distinct = ''list_distinct''"
| "kind_text K_list_sort = ''list_sort''"
| "kind_text K_list_reverse = ''list_reverse''"
| "kind_text K_list_extract = ''list_extract''"
| "kind_text K_list_slice = ''list_slice''"
| "kind_text K_list_contains = ''list_contains''"
| "kind_text K_list_join = ''list_join''"
| "kind_text K_list_sum = ''list_sum''"
| "kind_text K_list_mean = ''list_mean''"
| "kind_text K_list_min = ''list_min''"
| "kind_text K_list_max = ''list_max''"

primrec BUILD_OPERATIONS :: "build_operation_kind \<Rightarrow> op_definition" where
  "BUILD_OPERATIONS K_is_null = op_is_null"
| "BUILD_OPERATIONS K_is_not_null = op_is_not_null"
| "BUILD_OPERATIONS K_fill_null = op_fill_null"
| "BUILD_OPERATIONS K_count = count_entry ''Count non-NULL'' (\<lambda>e a t. Inr (''count('' @ e @ '')''))"
| "BUILD_OPERATIONS K_count_null = count_entry ''Count NULL'' (\<lambda>e a t. Inr (''countif(('' @ e @ '') IS NULL)''))"
| "BUILD_OPERATIONS K_count_distinct = op_count_distinct"
| "BUILD_OPERATIONS K_min = fn_entry ''Minimum'' ''Column summaries'' ''min'' scalar_family same True"
| "BUILD_OPERATIONS K_max = fn_entry ''Maximum'' ''Column summaries'' ''max'' scalar_family same True"
| "BUILD_OPERATIONS K_abs = numericFunction ''Absolute value'' ''abs''"
| "BUILD_OPERATIONS K_sign = numericFunction ''Sign'' ''sign''"
| "BUILD_OPERATIONS K_round = op_round"
| "BUILD_OPERATIONS K_trunc = op_trunc"
| "BUILD_OPERATIONS K_floor = numericFunction ''Floor'' ''floor''"
| "BUILD_OPERATIONS K_ceil = numericFunction ''Ceiling'' ''ceil''"
| "BUILD_OPERATIONS K_sqrt = numericFunction ''Square root'' ''sqrt''"
| "BUILD_OPERATIONS K_power = op_power"
| "BUILD_OPERATIONS K_ln = numericFunction ''Natural logarithm'' ''ln''"
| "BUILD_OPERATIONS K_log10 = numericFunction ''Base-10 logarithm'' ''log10''"
| "BUILD_OPERATIONS K_exp = numericFunction ''Exponential'' ''exp''"
| "BUILD_OPERATIONS K_sum = numericSummary ''Sum'' ''sum''"
| "BUILD_OPERATIONS K_mean = numericSummary ''Mean'' ''avg''"
| "BUILD_OPERATIONS K_median = numericSummary ''Median'' ''median''"
| "BUILD_OPERATIONS K_stddev = numericSummary ''Sample standard deviation'' ''stddev_samp''"
| "BUILD_OPERATIONS K_variance = numericSummary ''Sample variance'' ''var_samp''"
| "BUILD_OPERATIONS K_lower = textFunction ''Lowercase'' ''lower'' T_text"
| "BUILD_OPERATIONS K_upper = textFunction ''Uppercase'' ''upper'' T_text"
| "BUILD_OPERATIONS K_trim = textFunction ''Trim both ends'' ''trim'' T_text"
| "BUILD_OPERATIONS K_ltrim = textFunction ''Trim left'' ''ltrim'' T_text"
| "BUILD_OPERATIONS K_rtrim = textFunction ''Trim right'' ''rtrim'' T_text"
| "BUILD_OPERATIONS K_strip_accents = textFunction ''Strip accents'' ''strip_accents'' T_text"
| "BUILD_OPERATIONS K_text_length = textFunction ''Character length'' ''length'' T_number"
| "BUILD_OPERATIONS K_text_reverse = textFunction ''Reverse text'' ''reverse'' T_text"
| "BUILD_OPERATIONS K_substring = op_substring"
| "BUILD_OPERATIONS K_replace = op_replace"
| "BUILD_OPERATIONS K_contains = op_contains"
| "BUILD_OPERATIONS K_starts_with = op_starts_with"
| "BUILD_OPERATIONS K_ends_with = op_ends_with"
| "BUILD_OPERATIONS K_split = op_split"
| "BUILD_OPERATIONS K_parse_datetime = op_parse_datetime"
| "BUILD_OPERATIONS K_date_part = op_date_part"
| "BUILD_OPERATIONS K_date_trunc = op_date_trunc"
| "BUILD_OPERATIONS K_format_datetime = op_format_datetime"
| "BUILD_OPERATIONS K_not = op_not"
| "BUILD_OPERATIONS K_is_true = op_is_true"
| "BUILD_OPERATIONS K_is_false = op_is_false"
| "BUILD_OPERATIONS K_count_true = (count_entry ''Count true'' (\<lambda>e a t. Inr (''countif('' @ e @ '')''))) \<lparr>def_accepts := logical\<rparr>"
| "BUILD_OPERATIONS K_count_false = (count_entry ''Count false'' (\<lambda>e a t. Inr (''countif(NOT ('' @ e @ ''))''))) \<lparr>def_accepts := logical\<rparr>"
| "BUILD_OPERATIONS K_all_true = fn_entry ''All true'' ''Column summaries'' ''bool_and'' logical (\<lambda>_. T_boolean) True"
| "BUILD_OPERATIONS K_any_true = fn_entry ''Any true'' ''Column summaries'' ''bool_or'' logical (\<lambda>_. T_boolean) True"
| "BUILD_OPERATIONS K_list_length = listFunction ''List length'' ''length'' (\<lambda>_. T_number) list_family"
| "BUILD_OPERATIONS K_list_count = listFunction ''Non-NULL element count'' ''list_count'' (\<lambda>_. T_number) list_family"
| "BUILD_OPERATIONS K_list_distinct = op_list_distinct"
| "BUILD_OPERATIONS K_list_sort = op_list_sort"
| "BUILD_OPERATIONS K_list_reverse = listFunction ''Reverse elements'' ''list_reverse'' same list_family"
| "BUILD_OPERATIONS K_list_extract = op_list_extract"
| "BUILD_OPERATIONS K_list_slice = op_list_slice"
| "BUILD_OPERATIONS K_list_contains = op_list_contains"
| "BUILD_OPERATIONS K_list_join = op_list_join"
| "BUILD_OPERATIONS K_list_sum = listFunction ''Sum elements'' ''list_sum'' (\<lambda>_. T_number) numericList"
| "BUILD_OPERATIONS K_list_mean = listFunction ''Mean of elements'' ''list_avg'' (\<lambda>_. T_number) numericList"
| "BUILD_OPERATIONS K_list_min = listFunction ''Minimum element'' ''list_min'' (\<lambda>_. T_number) numericList"
| "BUILD_OPERATIONS K_list_max = listFunction ''Maximum element'' ''list_max'' (\<lambda>_. T_number) numericList"

subsection \<open>Appending an operation to a chain\<close>

datatype summary_mode = Window | Scalar_Source "string list"

record build_operation =
  bo_kind :: build_operation_kind
  bo_arguments :: arguments
  bo_summary :: "summary_mode option"

definition operationDefinition :: "build_operation_kind \<Rightarrow> op_definition" where
  "operationDefinition kind = BUILD_OPERATIONS kind"

definition operationDefaults :: "build_operation_kind \<Rightarrow> build_type \<Rightarrow> build_operation" where
  "operationDefaults kind t =
     \<lparr>bo_kind = kind,
      bo_arguments = map_of (rev (map (\<lambda>p. (par_name p, par_value p))
        (def_parameters (operationDefinition kind) t))),
      bo_summary = (if def_summary (operationDefinition kind) then Some Window else None)\<rparr>"

record build_chain =
  ch_sql :: string
  ch_type :: build_type
  ch_summarized :: bool

definition check_parameter :: "arguments \<Rightarrow> op_parameter \<Rightarrow> unit result" where
  "check_parameter args p =
     rbind (arg args (par_name p)) (\<lambda>value.
       if (case par_options p of Some options \<Rightarrow> value \<notin> set options | None \<Rightarrow> False)
       then throw (''Choose a valid '' @ par_label p)
       else if par_integer p \<and> (\<not> par_optional p \<or> value \<noteq> [])
       then rbind (integer value) (\<lambda>_. Inr ())
       else Inr ())"

definition renderBuildOperation :: "build_chain \<Rightarrow> build_operation \<Rightarrow> build_chain result" where
  "renderBuildOperation chain operation =
     (let def = operationDefinition (bo_kind operation) in
      rbind (def_sql def (ch_sql chain) (bo_arguments operation) (ch_type chain)) (\<lambda>sql.
        let sql' =
          (if def_summary def then
             (case bo_summary operation of
                Some (Scalar_Source source) \<Rightarrow>
                  ''(SELECT '' @ sql @ '' FROM '' @ join ''.'' (map sql_identifier source) @ '')''
              | _ \<Rightarrow> ''('' @ sql @ '' OVER ())'')
           else sql)
        in Inr
          \<lparr>ch_sql = ''('' @ sql' @ '')'',
           ch_type =
             (if ch_type chain = T_unknown \<and> \<not> def_accepts def (ch_type chain) then T_unknown
              else def_result def (ch_type chain)),
           ch_summarized = (ch_summarized chain \<or> def_summary def)\<rparr>))"

definition applyBuildOperation :: "build_chain \<Rightarrow> build_operation \<Rightarrow> build_chain result" where
  "applyBuildOperation chain operation =
     (let def = operationDefinition (bo_kind operation) in
      if \<not> def_accepts def (ch_type chain) \<and> ch_type chain \<noteq> T_unknown
      then throw (def_label def @ '' is not available for '' @ family_text (ch_type chain))
      else if def_summary def \<and> ch_summarized chain
      then throw ''Only one column summary is allowed in a chain''
      else rbind (rmap (check_parameter (bo_arguments operation)) (def_parameters def (ch_type chain)))
             (\<lambda>_. renderBuildOperation chain operation))"

text \<open>The loop over the steps of a chain; \<open>wrap\<close> adds the step number to an error message.\<close>

fun apply_steps ::
    "(nat \<Rightarrow> string) \<Rightarrow> nat \<Rightarrow> build_operation list \<Rightarrow> build_chain \<Rightarrow> build_chain result" where
  "apply_steps wrap index [] chain = Inr chain"
| "apply_steps wrap index (operation # rest) chain =
     (case applyBuildOperation chain operation of
        Inl e \<Rightarrow> throw (wrap (index + 1) @ message e)
      | Inr chain' \<Rightarrow> apply_steps wrap (index + 1) rest chain')"

definition quoted :: "string \<Rightarrow> string" where
  "quoted s = [CHR 0xE2, CHR 0x80, CHR 0x9C] @ s @ [CHR 0xE2, CHR 0x80, CHR 0x9D]"

definition columnChain ::
    "string \<Rightarrow> arrow_field option \<Rightarrow> build_operation list \<Rightarrow> build_chain result" where
  "columnChain column field operations =
     (case field of
        None \<Rightarrow> throw (''Column '' @ quoted column @ '' is unavailable'')
      | Some f \<Rightarrow>
          apply_steps (\<lambda>n. ''Column '' @ quoted column @ '', step '' @ show_nat n @ '': '') 0 operations
            \<lparr>ch_sql = sql_identifier column, ch_type = buildType (Some f), ch_summarized = False\<rparr>)"

end
