(* ===== verification/Operation_Laws.thy ===== *)
theory Operation_Laws
  imports Operations
begin

text \<open>
  Lemmas on the operation catalogue: every entry keeps the SQL text closed, the call described by
  an entry's \<open>syntax\<close> is the one its \<open>sql\<close> prints, the default arguments the menu fills in are
  accepted, and a chain of operations holds at most one column summary.
\<close>

subsection \<open>Arguments\<close>

lemma arg_Inr [simp]: "arg a n = Inr v \<longleftrightarrow> a n = Some v"
  by (simp add: arg_def split: option.splits)

lemma closed_integer: "integer v = Inr s \<Longrightarrow> sql_closed s"
  by (auto simp: integer_def closed_integer_text split: if_splits)

lemma closed_numericLiteral: "numericLiteral v = Inr s \<Longrightarrow> sql_closed s"
  by (auto simp: numericLiteral_def closed_numeric_text split: if_splits)

lemma upper_fold_char: "upper_char (fold_char c) = upper_char c"
  by (auto simp: upper_char_def fold_char_def)

lemma ascii_upper_fold: "ascii_upper v = ascii_upper (fold_case v)"
  by (simp add: ascii_upper_def fold_case_def upper_fold_char)

lemma ascii_upper_boolean:
  "fold_case v \<in> {''true'', ''false''} \<Longrightarrow> ascii_upper v \<in> {''TRUE'', ''FALSE''}"
proof -
  have "ascii_upper ''true'' = ''TRUE''" "ascii_upper ''false'' = ''FALSE''" by (code_simp+)
  then show "fold_case v \<in> {''true'', ''false''} \<Longrightarrow> ascii_upper v \<in> {''TRUE'', ''FALSE''}"
    by (auto simp: ascii_upper_fold [of v])
qed

lemma closed_scalarLiteral: "scalarLiteral v t = Inr s \<Longrightarrow> sql_closed s"
proof -
  have "sql_closed ''TRUE''" "sql_closed ''FALSE''" by (rule closedI, simp)+
  then show "scalarLiteral v t = Inr s \<Longrightarrow> sql_closed s"
    using ascii_upper_boolean [of v]
    by (auto simp: scalarLiteral_def dest: closed_numericLiteral split: if_splits)
qed

lemma closed_call: "sql_closed name \<Longrightarrow> \<forall>x \<in> set xs. sql_closed x \<Longrightarrow> sql_closed (call name xs)"
  unfolding call_def by (rule closedI) (simp add: closed_scans closed_comma_join)

lemma closed_function_call: "list_all plain_char name \<Longrightarrow> sql_closed e \<Longrightarrow> sql_closed (name @ ''('' @ e @ '')'')"
  using closed_plain [of name] by (auto simp: closed_scans intro!: closedI)

lemmas closed_arguments =
  closed_integer closed_numericLiteral closed_scalarLiteral

subsection \<open>Every entry prints closed SQL\<close>

lemma closed_def_sql:
  assumes "sql_closed e" and "def_sql (BUILD_OPERATIONS k) e a t = Inr s"
  shows "sql_closed s"
  using assms
  by (cases k)
    (auto simp: catalogue call_def closed_scans intro!: closedI dest!: closed_arguments
      split: option.split_asm if_split_asm)

lemma closed_dotted: "sql_closed (join ''.'' (map sql_identifier source))"
  by (rule closed_join) (auto simp: closed_plain plain_char_def)

lemma closed_renderBuildOperation:
  assumes "sql_closed (ch_sql chain)" and "renderBuildOperation chain operation = Inr chain'"
  shows "sql_closed (ch_sql chain')"
proof -
  obtain sql where sql: "sql_closed sql"
    and chain': "ch_sql chain' = ''('' @
      (if def_summary (operationDefinition (bo_kind operation)) then
         (case bo_summary operation of
            Some (Scalar_Source source) \<Rightarrow>
              ''(SELECT '' @ sql @ '' FROM '' @ join ''.'' (map sql_identifier source) @ '')''
          | _ \<Rightarrow> ''('' @ sql @ '' OVER ())'')
       else sql) @ '')''"
    using assms closed_def_sql
    by (fastforce simp: renderBuildOperation_def operationDefinition_def Let_def)
  show ?thesis unfolding chain'
    by (rule closedI)
      (simp add: closed_scans sql closed_dotted split: option.split summary_mode.split)
qed

lemma applyBuildOperation_Inr:
  "applyBuildOperation chain operation = Inr chain' \<longleftrightarrow>
     (def_accepts (operationDefinition (bo_kind operation)) (ch_type chain) \<or> ch_type chain = T_unknown) \<and>
     \<not> (def_summary (operationDefinition (bo_kind operation)) \<and> ch_summarized chain) \<and>
     (\<forall>p \<in> set (def_parameters (operationDefinition (bo_kind operation)) (ch_type chain)).
        check_parameter (bo_arguments operation) p = Inr ()) \<and>
     renderBuildOperation chain operation = Inr chain'"
proof -
  have "(\<exists>us. rmap (check_parameter a) ps = Inr us) \<longleftrightarrow> (\<forall>p \<in> set ps. check_parameter a p = Inr ())"
    for a ps by (induction ps) auto
  then show ?thesis by (auto simp: applyBuildOperation_def Let_def)
qed

lemma closed_applyBuildOperation:
  "sql_closed (ch_sql chain) \<Longrightarrow> applyBuildOperation chain operation = Inr chain' \<Longrightarrow>
   sql_closed (ch_sql chain')"
  unfolding applyBuildOperation_Inr by (blast intro: closed_renderBuildOperation)

lemma closed_apply_steps:
  "sql_closed (ch_sql chain) \<Longrightarrow> apply_steps wrap n ops chain = Inr chain' \<Longrightarrow> sql_closed (ch_sql chain')"
  by (induction wrap n ops chain rule: apply_steps.induct)
    (auto split: sum.split_asm dest: closed_applyBuildOperation)

lemma closed_columnChain: "columnChain column field ops = Inr chain \<Longrightarrow> sql_closed (ch_sql chain)"
  by (auto simp: columnChain_def split: option.split_asm dest!: closed_apply_steps [rotated])

subsection \<open>One column summary per chain\<close>

definition summary_operation :: "build_operation \<Rightarrow> bool" where
  "summary_operation operation \<longleftrightarrow> def_summary (operationDefinition (bo_kind operation))"

lemma apply_summarized:
  "applyBuildOperation chain operation = Inr chain' \<Longrightarrow>
   ch_summarized chain' = (ch_summarized chain \<or> summary_operation operation) \<and>
   \<not> (summary_operation operation \<and> ch_summarized chain)"
  unfolding applyBuildOperation_Inr
  by (auto simp: renderBuildOperation_def Let_def summary_operation_def)

lemma apply_steps_summaries:
  "apply_steps wrap n ops chain = Inr chain' \<Longrightarrow>
   length (filter summary_operation ops) + (if ch_summarized chain then 1 else 0) =
   (if ch_summarized chain' then 1 else 0)"
proof (induction wrap n ops chain rule: apply_steps.induct)
  case (2 wrap index operation rest chain)
  then obtain c where c: "applyBuildOperation chain operation = Inr c"
    and rest: "apply_steps wrap (index + 1) rest c = Inr chain'"
    by (auto split: sum.split_asm)
  from 2(1) [OF c rest] apply_summarized [OF c] show ?case by (auto split: if_splits)
qed auto

subsection \<open>Default arguments are accepted\<close>

lemma integer_texts:
  "integer ''0'' = Inr ''0''" "integer ''1'' = Inr ''1''" "integer ''-1'' = Inr ''-1''"
  "numericLiteral ''0'' = Inr ''0''" "numericLiteral ''2'' = Inr ''2''"
  by (simp_all add: integer_def numericLiteral_def trim_graphic graphic_char_def integer_text_def
      numeric_text_def drop_sign_def is_digit_def)

lemma fold_case_false: "fold_case ''false'' = ''false''"
  by code_simp

lemmas default_arguments =
  operationDefaults_def operationDefinition_def check_parameter_def scalarParameter_def parameter_def
  scalarLiteral_def integer_texts fold_case_false arg_def

lemma defaults_parameters:
  assumes "p \<in> set (def_parameters (BUILD_OPERATIONS k) t)"
  shows "check_parameter (bo_arguments (operationDefaults k t)) p = Inr ()"
  using assms
  by (cases k)
    (auto simp: catalogue default_arguments dateParts_def units_def element_family_def numeric_def
      logical_def split: build_type.splits)

lemma defaults_sql:
  "\<exists>s. def_sql (BUILD_OPERATIONS k) e (bo_arguments (operationDefaults k t)) t = Inr s"
  by (cases k) (simp_all add: catalogue default_arguments)

text \<open>
  The menu's defaults always work: for a chain whose family an operation accepts (or is
  unknown), and that is not summarised twice, applying the operation with the arguments
  \<open>operationDefaults\<close> fills in succeeds, for every operation of the catalogue.
\<close>

theorem operationDefaults_applicable:
  assumes "def_accepts (operationDefinition kind) (ch_type chain) \<or> ch_type chain = T_unknown"
    and "\<not> (def_summary (operationDefinition kind) \<and> ch_summarized chain)"
  shows "\<exists>chain'. applyBuildOperation chain (operationDefaults kind (ch_type chain)) = Inr chain'"
proof -
  obtain s where "def_sql (BUILD_OPERATIONS kind) (ch_sql chain)
      (bo_arguments (operationDefaults kind (ch_type chain))) (ch_type chain) = Inr s"
    using defaults_sql by blast
  then have "\<exists>c. renderBuildOperation chain (operationDefaults kind (ch_type chain)) = Inr c"
    by (simp add: renderBuildOperation_def operationDefaults_def operationDefinition_def Let_def)
  moreover have "bo_kind (operationDefaults kind (ch_type chain)) = kind"
    by (simp add: operationDefaults_def)
  ultimately show ?thesis
    using assms defaults_parameters [of _ kind "ch_type chain"]
    by (auto simp: applyBuildOperation_Inr operationDefinition_def)
qed

theorem operationDefaults_applicable_witness:
  "\<exists>chain'. applyBuildOperation \<lparr>ch_sql = ''a'', ch_type = T_date, ch_summarized = True\<rparr>
     (operationDefaults K_date_part T_date) = Inr chain'"
  using operationDefaults_applicable
      [of K_date_part "\<lparr>ch_sql = ''a'', ch_type = T_date, ch_summarized = True\<rparr>"]
  by (simp add: operationDefinition_def catalogue temporal_def)

subsection \<open>The declared syntax is the printed call\<close>

text \<open>The call an entry's \<open>syntax\<close> describes: its arguments by kind, the input at its position.\<close>

definition syntax_argument ::
    "arguments \<Rightarrow> build_type \<Rightarrow> build_argument \<times> syntax_kind \<times> bool \<Rightarrow> string list result" where
  "syntax_argument a t d =
     (case d of (name, kind, optional) \<Rightarrow>
        if optional \<and> (a name = None \<or> a name = Some []) then Inr []
        else rbind (arg a name) (\<lambda>v. rbind
          (case kind of
             Syn_text \<Rightarrow> Inr (literal_string v)
           | Syn_number \<Rightarrow> Inr (trim v)
           | Syn_scalar \<Rightarrow> scalarLiteral v t
           | Syn_element \<Rightarrow> scalarLiteral v (element_family t)) (\<lambda>s. Inr [s])))"

definition syntax_call :: "op_syntax \<Rightarrow> string \<Rightarrow> arguments \<Rightarrow> build_type \<Rightarrow> string result" where
  "syntax_call syn e a t =
     rbind (rmap (syntax_argument a t) (syn_args syn)) (\<lambda>xs.
       Inr (call (syn_name syn) (take (syn_input syn) (concat xs) @ e # drop (syn_input syn) (concat xs))))"

lemma integer_trim: "integer v = Inr n \<Longrightarrow> n = trim v"
  by (simp add: integer_def split: if_splits)

lemma numericLiteral_trim: "numericLiteral v = Inr n \<Longrightarrow> n = trim v"
  by (simp add: numericLiteral_def split: if_splits)

text \<open>
  Wherever a catalogue entry declares a call syntax, the SQL it prints is that call: the
  declared function name, the input expression at the declared position and each argument rendered
  by its declared kind, an absent or blank optional argument left out.
\<close>

theorem declared_syntax_printed:
  assumes "def_syntax (BUILD_OPERATIONS kind) = Some syn"
    and "def_sql (BUILD_OPERATIONS kind) e a t = Inr s"
  shows "syntax_call syn e a t = Inr s"
  using assms
  by (cases "a A_length"; cases kind)
    (auto simp: catalogue syntax_call_def syntax_argument_def
      dest!: integer_trim numericLiteral_trim split: if_split_asm)

theorem declared_syntax_printed_witness:
  "syntax_call \<lparr>syn_name = ''date_part'', syn_input = 1, syn_args = [(A_part, Syn_text, False)]\<rparr>
     ''d'' [A_part \<mapsto> ''year''] T_date = Inr (''date_part('' @ literal_string ''year'' @ '', d)'')"
  using declared_syntax_printed
      [of K_date_part _ "''d''" "[A_part \<mapsto> ''year'']" T_date
        "''date_part('' @ literal_string ''year'' @ '', d)''"]
  by (simp add: catalogue arg_def call_def)

end
