(* ===== verification/Build_Model.thy ===== *)
theory Build_Model
  imports Operation_Laws
begin

text \<open>
  The visual expression builder, \<open>preprocessing/build/hooks/buildExpressionModel.ts\<close>: the tokens
  of a draft, the combinations, the strict translation of a token to a chain (\<open>partChain\<close>), the
  tolerant inspection that keeps SQL for unfinished drafts (\<open>inspectBuildPart\<close>) and the
  validation of a definition. \<open>mapArrowColumnsToInfo\<close> is from
  \<open>data-view/utils/columnTypes.ts\<close>.
\<close>

subsection \<open>Columns and tokens\<close>

record column_info =
  ci_name :: string
  ci_typeName :: string
  ci_field :: arrow_field

definition mapArrowColumnsToInfo ::
    "(arrow_type \<Rightarrow> string) \<Rightarrow> (string \<times> arrow_field) list \<Rightarrow> column_info list" where
  "mapArrowColumnsToInfo spelling columns =
     map (\<lambda>(name, field).
       \<lparr>ci_name = name, ci_typeName = arrowTypeName spelling field, ci_field = field\<rparr>) columns"

datatype build_literal_type = L_text | L_number | L_boolean | L_null

datatype combination_kind =
    C_text | C_add | C_subtract | C_multiply | C_divide | C_greatest | C_least | C_coalesce
  | C_list | C_list_concat | C_and | C_or

record build_combination =
  comb_kind :: combination_kind
  comb_separator :: string

datatype build_token =
    Column_Token (tok_id: string) (tok_operations: "build_operation list") (tok_column: string)
  | Literal_Token (tok_id: string) (tok_operations: "build_operation list")
      (tok_literalType: build_literal_type) (tok_value: string)
  | Combination_Token (tok_id: string) (tok_operations: "build_operation list")
      (tok_combination: "build_combination option") (tok_children: "build_token list")
  | Sql_Token (tok_id: string) (tok_operations: "build_operation list") (tok_expression: string)

datatype build_definition = Visual "build_token list" | Raw_Sql string

record build_column_request =
  bcr_definition :: build_definition
  bcr_column :: string

definition emptyVisualBuild :: "build_token list" where
  "emptyVisualBuild = []"

subsection \<open>Combinations\<close>

fun family :: "build_type \<Rightarrow> string" where
  "family (T_list element) = ''list of '' @ family element"
| "family t = family_text t"

definition buildTypeLabel :: "build_type \<Rightarrow> string" where
  "buildTypeLabel t = family t"

definition knownTypes :: "build_chain list \<Rightarrow> build_type list" where
  "knownTypes cs = filter (\<lambda>t. t \<noteq> T_null) (map ch_type cs)"

definition all_family :: "build_chain list \<Rightarrow> string \<Rightarrow> bool" where
  "all_family cs expected = list_all (\<lambda>t. family_text t = expected) (knownTypes cs)"

definition commonType :: "build_type list \<Rightarrow> build_type" where
  "commonType types =
     (case filter (\<lambda>t. t \<noteq> T_null) types of
        [] \<Rightarrow> T_unknown
      | first # rest \<Rightarrow>
          if list_all (\<lambda>t. family t = family first) (first # rest) then first else T_unknown)"

record combination_definition =
  cd_kind :: combination_kind
  cd_label :: string
  cd_group :: string
  cd_accepts :: "build_chain list \<Rightarrow> bool"

definition numeric_combinations :: "(combination_kind \<times> string) list" where
  "numeric_combinations =
     [(C_add, ''Add''), (C_subtract, ''Subtract in order''), (C_multiply, ''Multiply''),
      (C_divide, ''Divide in order''), (C_greatest, ''Greatest''), (C_least, ''Least'')]"

definition buildCombinations :: "combination_definition list" where
  "buildCombinations =
     [\<lparr>cd_kind = C_text, cd_label = ''Join text'', cd_group = ''Text'',
       cd_accepts = (\<lambda>p. list_all (\<lambda>t. family_text t \<notin> {''list'', ''unknown'', ''unsupported''})
         (knownTypes p))\<rparr>] @
     map (\<lambda>(kind, label). \<lparr>cd_kind = kind, cd_label = label, cd_group = ''Numeric'',
       cd_accepts = (\<lambda>p. all_family p ''number'')\<rparr>) numeric_combinations @
     [\<lparr>cd_kind = C_coalesce, cd_label = ''First non-NULL'', cd_group = ''Values'',
       cd_accepts = (\<lambda>_. True)\<rparr>,
      \<lparr>cd_kind = C_list, cd_label = ''Make list'', cd_group = ''Values'', cd_accepts = (\<lambda>_. True)\<rparr>,
      \<lparr>cd_kind = C_list_concat, cd_label = ''Concatenate lists'', cd_group = ''Lists'',
       cd_accepts = (\<lambda>p. all_family p ''list'')\<rparr>] @
     map (\<lambda>(kind, label). \<lparr>cd_kind = kind, cd_label = label, cd_group = ''Boolean'',
       cd_accepts = (\<lambda>p. all_family p ''boolean'')\<rparr>) [(C_and, ''AND''), (C_or, ''OR'')]"

definition infix_operator :: "combination_kind \<Rightarrow> string option" where
  "infix_operator kind =
     (case kind of
        C_add \<Rightarrow> Some ''+'' | C_subtract \<Rightarrow> Some ''-'' | C_multiply \<Rightarrow> Some ''*''
      | C_divide \<Rightarrow> Some ''/'' | C_and \<Rightarrow> Some ''AND'' | C_or \<Rightarrow> Some ''OR'' | _ \<Rightarrow> None)"

definition combination_function :: "combination_kind \<Rightarrow> string" where
  "combination_function kind =
     (case kind of
        C_greatest \<Rightarrow> ''greatest'' | C_least \<Rightarrow> ''least'' | C_coalesce \<Rightarrow> ''coalesce''
      | C_list \<Rightarrow> ''list_value'' | C_list_concat \<Rightarrow> ''list_concat'' | _ \<Rightarrow> [])"

definition newline :: string where
  "newline = [CHR 0x0A]"

definition combineSql :: "string list \<Rightarrow> build_combination option \<Rightarrow> string" where
  "combineSql parts_sql combination =
     (let inputs = (if parts_sql \<noteq> [] then parts_sql else [''/* add input */'']) in
      case combination of
        None \<Rightarrow> ''<choose_function>('' @ newline @ join ('','' @ newline) inputs @ newline @ '')''
      | Some c \<Rightarrow>
          if comb_kind c = C_text
          then ''concat_ws('' @ literal_string (comb_separator c) @ '', '' @ join '', '' inputs @ '')''
          else case infix_operator (comb_kind c) of
                 Some operator \<Rightarrow>
                   if parts_sql = [] then ''(/* add input */ '' @ operator @ '' /* add input */)''
                   else foldl (\<lambda>left right. ''('' @ left @ '') '' @ operator @ '' ('' @ right @ '')'')
                          (hd inputs) (tl inputs)
               | None \<Rightarrow> combination_function (comb_kind c) @ ''('' @ join '', '' inputs @ '')'')"

definition combination_type :: "build_combination \<Rightarrow> build_chain list \<Rightarrow> build_type" where
  "combination_type c parts =
     (if comb_kind c = C_text then T_text
      else if comb_kind c \<in> {C_and, C_or} then T_boolean
      else if comb_kind c \<in> {C_add, C_subtract, C_multiply, C_divide}
      then (if T_unknown \<in> set (map ch_type parts) then T_unknown else T_number)
      else if comb_kind c = C_list then T_list (commonType (map ch_type parts))
      else commonType (map ch_type parts))"

definition combine :: "build_chain list \<Rightarrow> build_combination option \<Rightarrow> build_chain result" where
  "combine parts combination =
     (case combination of
        None \<Rightarrow> throw ''Choose how to combine these bubbles''
      | Some c \<Rightarrow>
          if parts = [] then throw ''Add an expression to the function''
          else case find (\<lambda>d. cd_kind d = comb_kind c) buildCombinations of
                 None \<Rightarrow> throw ''Choose a combination''
               | Some option \<Rightarrow>
                   if T_unknown \<notin> set (map ch_type parts) \<and> \<not> cd_accepts option parts
                   then throw (cd_label option @
                     '' is unavailable for these part types. Choose another combination.'')
                   else Inr
                     \<lparr>ch_sql = combineSql (map ch_sql parts) combination,
                      ch_type = combination_type c parts,
                      ch_summarized = list_ex ch_summarized parts\<rparr>)"

subsection \<open>The chain of a token\<close>

fun literal_family :: "build_literal_type \<Rightarrow> build_type" where
  "literal_family L_text = T_text"
| "literal_family L_number = T_number"
| "literal_family L_boolean = T_boolean"
| "literal_family L_null = T_null"

definition literalChain :: "build_literal_type \<Rightarrow> string \<Rightarrow> build_chain result" where
  "literalChain kind v =
     rbind
       (case kind of
          L_number \<Rightarrow> if \<not> numeric_text (trim v) then throw ''Enter a number'' else Inr (trim v)
        | L_boolean \<Rightarrow>
            if v \<notin> set [''true'', ''false''] then throw ''Choose true or false'' else Inr (ascii_upper v)
        | L_null \<Rightarrow> Inr ''NULL''
        | L_text \<Rightarrow> Inr (literal_string v))
       (\<lambda>sql. Inr \<lparr>ch_sql = sql, ch_type = literal_family kind, ch_summarized = False\<rparr>)"

definition wrap_sql :: "string \<Rightarrow> string" where
  "wrap_sql expression = ''('' @ newline @ expression @ newline @ '')''"

definition sqlChain :: "string \<Rightarrow> build_chain result" where
  "sqlChain expression =
     (if trim expression = [] then throw ''Enter a SQL expression''
      else Inr \<lparr>ch_sql = wrap_sql expression, ch_type = T_unknown, ch_summarized = False\<rparr>)"

definition field_of :: "column_info list \<Rightarrow> string \<Rightarrow> arrow_field option" where
  "field_of columns name = map_option ci_field (find (\<lambda>c. ci_name c = name) columns)"

definition step_text :: "nat \<Rightarrow> string" where
  "step_text n = ''Step '' @ show_nat n @ '': ''"

fun partChain :: "build_token \<Rightarrow> column_info list \<Rightarrow> build_chain result" where
  "partChain (Column_Token _ operations column) columns =
     rbind (columnChain column (field_of columns column) []) (apply_steps step_text 0 operations)"
| "partChain (Combination_Token _ operations combination children) columns =
     rbind (rmap (\<lambda>child. partChain child columns) children) (\<lambda>parts.
     rbind (combine parts combination) (apply_steps step_text 0 operations))"
| "partChain (Sql_Token _ operations expression) columns =
     rbind (sqlChain expression) (apply_steps step_text 0 operations)"
| "partChain (Literal_Token _ operations kind v) columns =
     rbind (literalChain kind v) (apply_steps step_text 0 operations)"

subsection \<open>Tolerant inspection\<close>

datatype issue_kind = Incomplete | Invalid

record build_issue =
  iss_label :: string
  iss_reason :: string
  iss_kind :: issue_kind

record inspection =
  ins_chain :: build_chain
  ins_issue :: "build_issue option"

definition or_issue :: "build_issue option \<Rightarrow> build_issue \<Rightarrow> build_issue option" where
  "or_issue current other = (case current of None \<Rightarrow> Some other | Some i \<Rightarrow> Some i)"

definition draft_sql :: "build_token \<Rightarrow> string" where
  "draft_sql part =
     (case part of
        Column_Token _ _ column \<Rightarrow> sql_identifier column
      | Sql_Token _ _ expression \<Rightarrow>
          if trim expression \<noteq> [] then wrap_sql expression else ''/* add SQL expression */''
      | Literal_Token _ _ kind v \<Rightarrow>
          (case kind of
             L_text \<Rightarrow> literal_string v
           | L_null \<Rightarrow> ''NULL''
           | _ \<Rightarrow> if v \<noteq> [] then v
                  else ''/* add '' @ family_text (literal_family kind) @ '' value */'')
      | Combination_Token _ _ _ _ \<Rightarrow> [])"

definition without_operations :: "build_token \<Rightarrow> build_token" where
  "without_operations part =
     (case part of
        Column_Token i _ column \<Rightarrow> Column_Token i [] column
      | Literal_Token i _ kind v \<Rightarrow> Literal_Token i [] kind v
      | Combination_Token i _ combination children \<Rightarrow> Combination_Token i [] combination children
      | Sql_Token i _ expression \<Rightarrow> Sql_Token i [] expression)"

definition is_column :: "build_token \<Rightarrow> bool" where
  "is_column part = (case part of Column_Token _ _ _ \<Rightarrow> True | _ \<Rightarrow> False)"

definition inspect_leaf :: "build_token \<Rightarrow> column_info list \<Rightarrow> inspection" where
  "inspect_leaf part columns =
     (case partChain (without_operations part) columns of
        Inr chain \<Rightarrow> \<lparr>ins_chain = chain, ins_issue = None\<rparr>
      | Inl e \<Rightarrow>
          \<lparr>ins_chain = \<lparr>ch_sql = draft_sql part, ch_type = T_unknown, ch_summarized = False\<rparr>,
           ins_issue = Some
             \<lparr>iss_label = (if is_column part then ''Column unavailable'' else ''Needs input''),
              iss_reason = message e,
              iss_kind = (if is_column part then Invalid else Incomplete)\<rparr>\<rparr>)"

definition child_issue :: "inspection list \<Rightarrow> build_issue option" where
  "child_issue children =
     (case find (\<lambda>c. ins_issue c \<noteq> None) children of
        None \<Rightarrow> None
      | Some c \<Rightarrow>
          map_option (\<lambda>i. i\<lparr>iss_label := (if iss_kind i = Invalid then ''Check input''
                                       else ''Incomplete input'')\<rparr>) (ins_issue c))"

definition inspect_combination ::
    "inspection list \<Rightarrow> build_combination option \<Rightarrow> inspection" where
  "inspect_combination children combination =
     (let issue =
        (if combination = None
         then Some \<lparr>iss_label = ''Choose a function'',
                iss_reason = ''Choose how to combine these inputs.'', iss_kind = Incomplete\<rparr>
         else if children = []
         then Some \<lparr>iss_label = ''Needs input'',
                iss_reason = ''Add a column, value or function.'', iss_kind = Incomplete\<rparr>
         else child_issue children)
      in case combine (map ins_chain children) combination of
           Inr chain \<Rightarrow> \<lparr>ins_chain = chain, ins_issue = issue\<rparr>
         | Inl e \<Rightarrow>
             \<lparr>ins_chain = \<lparr>ch_sql = combineSql (map (ch_sql \<circ> ins_chain) children) combination,
                ch_type = T_unknown, ch_summarized = False\<rparr>,
              ins_issue = or_issue issue
                \<lparr>iss_label = ''Check inputs'', iss_reason = message e, iss_kind = Invalid\<rparr>\<rparr>)"

fun inspect_steps :: "nat \<Rightarrow> build_operation list \<Rightarrow> inspection \<Rightarrow> inspection" where
  "inspect_steps index [] st = st"
| "inspect_steps index (operation # rest) st =
     (let chain = ins_chain st;
          issue = (case applyBuildOperation chain operation of
            Inr _ \<Rightarrow> ins_issue st
          | Inl e \<Rightarrow> or_issue (ins_issue st)
              \<lparr>iss_label = ''Check operation'',
               iss_reason = ''Step '' @ show_nat (index + 1) @ '' ('' @
                 def_label (operationDefinition (bo_kind operation)) @ ''): '' @ message e,
               iss_kind = Invalid\<rparr>);
          chain' = (case renderBuildOperation chain operation of
            Inr c \<Rightarrow> c
          | Inl _ \<Rightarrow> chain\<lparr>ch_sql := ''<'' @ kind_text (bo_kind operation) @ ''>('' @ ch_sql chain @
              '', /* complete parameters */)''\<rparr>)
      in inspect_steps (index + 1) rest \<lparr>ins_chain = chain', ins_issue = issue\<rparr>)"

fun inspectBuildPart :: "build_token \<Rightarrow> column_info list \<Rightarrow> inspection" where
  "inspectBuildPart (Combination_Token _ operations combination children) columns =
     inspect_steps 0 operations
       (inspect_combination (map (\<lambda>child. inspectBuildPart child columns) children) combination)"
| "inspectBuildPart part columns = inspect_steps 0 (tok_operations part) (inspect_leaf part columns)"

subsection \<open>Whole definitions\<close>

definition draftExpression :: "build_token list \<Rightarrow> column_info list \<Rightarrow> string \<times> bool" where
  "draftExpression roots columns =
     (if roots = [] then (''/* Add a column, value or function */'', True)
      else
        let parts = map (\<lambda>r. inspectBuildPart r columns) roots in
        (case parts of
           [first] \<Rightarrow> ch_sql (ins_chain first)
         | _ \<Rightarrow> combineSql (map (ch_sql \<circ> ins_chain) parts) None,
         length parts \<noteq> 1 \<or>
         list_ex (\<lambda>p. map_option iss_kind (ins_issue p) = Some Incomplete) parts))"

definition buildExpression :: "build_definition \<Rightarrow> column_info list \<Rightarrow> string result" where
  "buildExpression definition columns =
     (case definition of
        Visual roots \<Rightarrow>
          (case roots of
             [r] \<Rightarrow> rbind (partChain r columns) (\<lambda>chain. Inr (ch_sql chain))
           | _ \<Rightarrow> throw (if roots \<noteq> [] then ''Choose how to combine the r bubbles''
                        else ''Add a column or value to build an expression''))
      | Raw_Sql expression \<Rightarrow>
          if trim expression = [] then throw ''Enter a DuckDB expression''
          else Inr (wrap_sql expression))"

definition buildColumnRequest :: "build_definition \<Rightarrow> string \<Rightarrow> build_column_request" where
  "buildColumnRequest definition columnName =
     \<lparr>bcr_definition = definition, bcr_column = trim columnName\<rparr>"

record build_validation =
  val_expression :: string
  val_error :: "string option"
  val_incomplete :: bool

definition validateBuild :: "build_definition \<Rightarrow> column_info list \<Rightarrow> build_validation" where
  "validateBuild definition columns =
     (case buildExpression definition columns of
        Inr expression \<Rightarrow>
          \<lparr>val_expression = expression, val_error = None, val_incomplete = False\<rparr>
      | Inl e \<Rightarrow>
          (case definition of
             Visual roots \<Rightarrow>
               (case draftExpression roots columns of (expression, incomplete) \<Rightarrow>
                  \<lparr>val_expression = expression, val_error = Some (message e),
                   val_incomplete = incomplete\<rparr>)
           | Raw_Sql expression \<Rightarrow>
               \<lparr>val_expression = expression, val_error = Some (message e), val_incomplete = True\<rparr>))"

end
