(* ===== verification/Build_Laws.thy ===== *)
theory Build_Laws
  imports Build_Model
begin

text \<open>
  Lemmas on the expression builder: the SQL of a token is closed, strict translation and tolerant
  inspection agree, and a translated token holds at most one column summary on every path.
\<close>

subsection \<open>Closed SQL\<close>

text \<open>The SQL a user types into raw tokens is the only text the builder does not quote.\<close>

fun raw_sql_closed :: "build_token \<Rightarrow> bool" where
  "raw_sql_closed (Sql_Token _ _ expression) = sql_closed expression"
| "raw_sql_closed (Combination_Token _ _ _ children) = list_all raw_sql_closed children"
| "raw_sql_closed _ = True"

lemma closed_newline [simp]: "sql_closed newline"
  by (rule closedI) (simp add: newline_def)

lemma closed_wrap_sql: "sql_closed e \<Longrightarrow> sql_closed (wrap_sql e)"
  by (rule closedI) (simp add: wrap_sql_def closed_scans)

lemma closed_literalChain: "literalChain kind v = Inr chain \<Longrightarrow> sql_closed (ch_sql chain)"
proof -
  have upper: "ascii_upper ''true'' = ''TRUE''" "ascii_upper ''false'' = ''FALSE''" by (code_simp+)
  have "sql_closed ''NULL''" "sql_closed ''TRUE''" "sql_closed ''FALSE''" by (rule closedI, simp)+
  then show "literalChain kind v = Inr chain \<Longrightarrow> sql_closed (ch_sql chain)"
    by (auto simp: literalChain_def closed_numeric_text upper
        split: build_literal_type.split_asm if_split_asm)
qed

lemma closed_infix_fold:
  assumes "sql_closed ('' '' @ operator @ '' '')" and "sql_closed x" and "\<forall>y \<in> set ys. sql_closed y"
  shows "sql_closed (foldl (\<lambda>left right. ''('' @ left @ '') '' @ operator @ '' ('' @ right @ '')'') x ys)"
  using assms(2,3)
proof (induction ys arbitrary: x)
  case (Cons y ys)
  have "sql_closed (''('' @ x @ '')'')" "sql_closed (''('' @ y @ '')'')"
    using Cons.prems closed_parens [of x] closed_parens [of y] by simp_all
  then have "sql_closed ((''('' @ x @ '')'') @ ('' '' @ operator @ '' '') @ (''('' @ y @ '')''))"
    using assms(1) by (blast intro: closed_append)
  then show ?case using Cons by simp
qed simp

lemma closed_infix_operator:
  "infix_operator k = Some operator \<Longrightarrow> sql_closed ('' '' @ operator @ '' '')"
  by (cases k) (auto simp: infix_operator_def intro!: closedI)

lemma closed_combination_function [simp]: "sql_closed (combination_function k)"
  by (cases k) (auto simp: combination_function_def intro!: closedI)

lemma closed_combineSql:
  assumes "ps \<noteq> []" and "\<forall>p \<in> set ps. sql_closed p"
  shows "sql_closed (combineSql ps (Some c))"
proof (cases "infix_operator (comb_kind c)")
  case None
  with assms show ?thesis
    by (intro closedI) (simp add: combineSql_def Let_def closed_scans closed_comma_join)
next
  case (Some operator)
  have "comb_kind c \<noteq> C_text" using Some by (auto simp: infix_operator_def)
  with Some assms show ?thesis
    using closed_infix_fold [OF closed_infix_operator [OF Some], simplified]
    by (cases ps) (simp_all add: combineSql_def)
qed

lemma closed_combine:
  assumes "combine parts combination = Inr chain" and "\<forall>p \<in> set parts. sql_closed (ch_sql p)"
  shows "sql_closed (ch_sql chain)"
proof -
  obtain c where "combination = Some c" "parts \<noteq> []"
      "ch_sql chain = combineSql (map ch_sql parts) (Some c)"
    using assms(1) by (auto simp: combine_def split: option.split_asm if_split_asm)
  then show ?thesis using assms(2) by (simp add: closed_combineSql)
qed

lemma closed_partChain:
  "partChain part columns = Inr chain \<Longrightarrow> raw_sql_closed part \<Longrightarrow> sql_closed (ch_sql chain)"
proof (induction part columns arbitrary: chain rule: partChain.induct)
  case (2 i operations combination children columns)
  then obtain parts c where parts: "rmap (\<lambda>child. partChain child columns) children = Inr parts"
    and c: "combine parts combination = Inr c"
    and steps: "apply_steps step_text 0 operations c = Inr chain" by auto
  have "list_all (\<lambda>p. sql_closed (ch_sql p)) parts"
    using 2(1,3) rmap_Inr_member [OF parts] by (fastforce simp: list_all_iff)
  then show ?case
    using closed_combine [OF c] steps by (auto simp: list_all_iff dest: closed_apply_steps [rotated])
next
  case (3 i operations expression columns)
  then show ?case
    by (auto simp: sqlChain_def closed_wrap_sql dest: closed_apply_steps [rotated] split: if_split_asm)
qed (auto dest!: closed_columnChain closed_literalChain dest: closed_apply_steps)

subsection \<open>Inspection agrees with translation\<close>

lemma or_issue_None [simp]: "or_issue a b = None \<longleftrightarrow> False"
  by (simp add: or_issue_def split: option.splits)

lemma inspect_steps_issue: "ins_issue st \<noteq> None \<Longrightarrow> ins_issue (inspect_steps n ops st) \<noteq> None"
  by (induction n ops st rule: inspect_steps.induct)
    (auto simp: Let_def or_issue_def split: sum.splits)

lemma inspect_steps_agrees:
  assumes "ins_issue st = None"
  shows "(ins_issue (inspect_steps n ops st) = None \<and> ins_chain (inspect_steps n ops st) = c) \<longleftrightarrow>
    apply_steps wrap n ops (ins_chain st) = Inr c"
  using assms
proof (induction n ops st rule: inspect_steps.induct)
  case (2 index operation rest st)
  show ?case
  proof (cases "applyBuildOperation (ins_chain st) operation")
    case (Inl e)
    then show ?thesis
      using 2(2) inspect_steps_issue
      by (auto simp: Let_def or_issue_def)
  next
    case (Inr c')
    then have "renderBuildOperation (ins_chain st) operation = Inr c'"
      by (simp add: applyBuildOperation_Inr)
    then show ?thesis using 2 Inr by (simp add: Let_def)
  qed
qed simp

lemma partChain_operations:
  "partChain part columns =
     rbind (partChain (without_operations part) columns) (apply_steps step_text 0 (tok_operations part))"
proof -
  have id: "rbind r (apply_steps step_text 0 []) = r" for r by (cases r) simp_all
  have assoc: "rbind (rbind r f) g = rbind r (\<lambda>x. rbind (f x) g)"
    for r :: "'a result" and f :: "'a \<Rightarrow> build_chain result" and g :: "build_chain \<Rightarrow> build_chain result"
    by (cases r) simp_all
  have id': "rbind r (\<lambda>c. Inr c) = r" for r :: "build_chain result" by (cases r) simp_all
  show ?thesis
    by (cases part) (simp_all add: without_operations_def id id' assoc)
qed

lemma inspect_leaf_agrees:
  "(ins_issue (inspect_leaf part columns) = None \<and> ins_chain (inspect_leaf part columns) = c) \<longleftrightarrow>
   partChain (without_operations part) columns = Inr c"
  by (auto simp: inspect_leaf_def split: sum.split)

lemma child_issue_None: "child_issue children = None \<longleftrightarrow> (\<forall>c \<in> set children. ins_issue c = None)"
  by (auto simp: child_issue_def find_None_iff find_Some_iff split: option.split)

lemma inspect_combination_agrees:
  "(ins_issue (inspect_combination children combination) = None \<and>
    ins_chain (inspect_combination children combination) = c) \<longleftrightarrow>
   (\<forall>x \<in> set children. ins_issue x = None) \<and> combine (map ins_chain children) combination = Inr c"
  by (cases "combine (map ins_chain children) combination")
    (auto simp: inspect_combination_def Let_def child_issue_None,
     auto simp: combine_def split: option.split_asm if_split_asm)

lemma rmap_inspections:
  assumes "\<And>x c. x \<in> set xs \<Longrightarrow> (ins_issue (g x) = None \<and> ins_chain (g x) = c) \<longleftrightarrow> f x = Inr c"
  shows "rmap f xs = Inr ys \<longleftrightarrow> (\<forall>x \<in> set xs. ins_issue (g x) = None) \<and> ys = map (ins_chain \<circ> g) xs"
  using assms
proof (induction xs arbitrary: ys)
  case (Cons x xs)
  have x: "f x = Inr c \<longleftrightarrow> ins_issue (g x) = None \<and> ins_chain (g x) = c" for c
    using Cons.prems [of x c] by simp
  have IH: "rmap f xs = Inr zs \<longleftrightarrow>
      (\<forall>x \<in> set xs. ins_issue (g x) = None) \<and> zs = map (ins_chain \<circ> g) xs" for zs
    by (rule Cons.IH) (simp add: Cons.prems)
  show ?case by (auto simp: x IH)
qed auto

lemma inspect_steps_after:
  assumes "\<And>c. (ins_issue st = None \<and> ins_chain st = c) \<longleftrightarrow> r = Inr c"
  shows "(ins_issue (inspect_steps n ops st) = None \<and> ins_chain (inspect_steps n ops st) = c) \<longleftrightarrow>
    rbind r (apply_steps wrap n ops) = Inr c"
proof (cases "ins_issue st")
  case None
  then have "r = Inr (ins_chain st)" using assms by blast
  then show ?thesis using inspect_steps_agrees [OF None] by simp
next
  case (Some i)
  then obtain e where "r = Inl e" using assms by (cases r) auto
  then show ?thesis using inspect_steps_issue [of st] Some by simp
qed

lemma inspect_leaf_steps:
  "(ins_issue (inspect_steps 0 (tok_operations part) (inspect_leaf part columns)) = None \<and>
    ins_chain (inspect_steps 0 (tok_operations part) (inspect_leaf part columns)) = c) \<longleftrightarrow>
   partChain part columns = Inr c"
  by (subst partChain_operations) (rule inspect_steps_after, rule inspect_leaf_agrees)

lemma inspect_agrees:
  "(ins_issue (inspectBuildPart part columns) = None \<and> ins_chain (inspectBuildPart part columns) = c) \<longleftrightarrow>
   partChain part columns = Inr c"
proof (induction part arbitrary: c)
  case (Combination_Token i operations combination children)
  let ?cs = "map (\<lambda>child. inspectBuildPart child columns) children"
  have parts: "rmap (\<lambda>child. partChain child columns) children = Inr ys \<longleftrightarrow>
      (\<forall>x \<in> set ?cs. ins_issue x = None) \<and> ys = map ins_chain ?cs" for ys
    using rmap_inspections [of children "\<lambda>child. inspectBuildPart child columns"]
      Combination_Token by auto
  have "(ins_issue (inspect_combination ?cs combination) = None \<and>
      ins_chain (inspect_combination ?cs combination) = d) \<longleftrightarrow>
    rbind (rmap (\<lambda>child. partChain child columns) children) (\<lambda>ps. combine ps combination) = Inr d" for d
    unfolding inspect_combination_agrees rbind_Inr_iff parts by auto
  from inspect_steps_after [OF this, of 0 operations c step_text] show ?case
    by (cases "rmap (\<lambda>child. partChain child columns) children") simp_all
qed (simp_all only: inspectBuildPart.simps inspect_leaf_steps)

subsection \<open>Column summaries in a token\<close>

text \<open>The largest number of column summaries on a path from the token to a leaf.\<close>

fun path_summaries :: "build_token \<Rightarrow> nat" where
  "path_summaries (Combination_Token _ operations _ children) =
     length (filter summary_operation operations) + fold max (map path_summaries children) 0"
| "path_summaries part = length (filter summary_operation (tok_operations part))"

lemma fold_max_indicator:
  fixes n :: nat
  assumes "list_all2 (\<lambda>x p. f x = (if ch_summarized p then 1 else 0)) xs ps"
  shows "fold max (map f xs) n = max n (if list_ex ch_summarized ps then 1 else 0)"
  using assms by (induction xs ps arbitrary: n rule: list_all2_induct) auto

lemma partChain_summaries:
  "partChain part columns = Inr chain \<Longrightarrow> path_summaries part = (if ch_summarized chain then 1 else 0)"
proof (induction part columns arbitrary: chain rule: partChain.induct)
  case (2 i operations combination children columns)
  then obtain parts c where parts: "rmap (\<lambda>child. partChain child columns) children = Inr parts"
    and c: "combine parts combination = Inr c"
    and steps: "apply_steps step_text 0 operations c = Inr chain" by auto
  have "list_all2 (\<lambda>x p. path_summaries x = (if ch_summarized p then 1 else 0)) children parts"
    using parts 2(1) unfolding rmap_Inr_iff by (auto intro: list_all2_mono elim!: list_all2_mono simp: list_all2_conv_all_nth)
  moreover have "ch_summarized c = list_ex ch_summarized parts"
    using c by (auto simp: combine_def split: option.split_asm if_split_asm)
  ultimately show ?case using apply_steps_summaries [OF steps] fold_max_indicator by force
qed (auto simp: columnChain_def literalChain_def sqlChain_def dest!: apply_steps_summaries
      split: option.split_asm if_split_asm)

subsection \<open>Properties\<close>

text \<open>
  C1: the SQL that Preview and Apply run for a visual expression is well delimited: whenever
  \<open>buildExpression\<close> succeeds on a token whose raw SQL parts are well delimited, the computed column
  statement \<open>columnSelect\<close> built from it leaves no literal, identifier or parenthesis open, contains
  no statement separator and starts no comment, whatever the column names, values and separators.
\<close>

theorem visual_column_closed:
  assumes "buildExpression (Visual roots) columns = Inr expression"
    and "list_all raw_sql_closed roots"
  shows "sql_closed (columnSelect column expression existing)"
proof -
  obtain r chain where "roots = [r]" "partChain r columns = Inr chain" "expression = ch_sql chain"
    using assms(1) by (auto simp: buildExpression_def split: list.split_asm)
  then show ?thesis using assms(2) by (auto intro: closed_columnSelect closed_partChain)
qed

definition example_columns :: "column_info list" where
  "example_columns =
     [\<lparr>ci_name = ''n; --'', ci_typeName = ''Int64'', ci_field = Field ''n'' (Arrow_Int 64 True) []\<rparr>]"

definition example_token :: build_token where
  "example_token =
     Combination_Token ''1'' [] (Some \<lparr>comb_kind = C_add, comb_separator = []\<rparr>)
       [Column_Token ''2'' [operationDefaults K_sum T_number] ''n; --'',
        Literal_Token ''3'' [] L_null []]"

lemma example_expression:
  "buildExpression (Visual [example_token]) example_columns =
     Inr (''(((sum('' @ sql_identifier ''n; --'' @ '') OVER ()))) + (NULL)'')"
  by code_simp

theorem visual_column_closed_witness:
  "buildExpression (Visual [example_token]) example_columns =
     Inr (''(((sum('' @ sql_identifier ''n; --'' @ '') OVER ()))) + (NULL)'') \<and>
   sql_closed (columnSelect ''total''
     (''(((sum('' @ sql_identifier ''n; --'' @ '') OVER ()))) + (NULL)'') [''n; --''])"
  using visual_column_closed [OF example_expression] example_expression
  by (simp add: example_token_def)

text \<open>
  C5: the tolerant inspection that keeps a draft's SQL visible and the strict translation that
  Apply uses agree on every token: inspection reports no issue with a chain exactly when the
  translation succeeds with that chain.
\<close>

theorem inspection_agrees_with_translation:
  "(ins_issue (inspectBuildPart part columns) = None \<and> ins_chain (inspectBuildPart part columns) = chain) =
   (partChain part columns = Inr chain)"
  by (rule inspect_agrees)

text \<open>
  For a draft with one root, validation reports no error exactly when inspecting the root finds
  no issue, and the SQL it shows is the inspected SQL whether or not there is an error.
\<close>

theorem validateBuild_single_root:
  "(val_error (validateBuild (Visual [r]) columns) = None) =
     (ins_issue (inspectBuildPart r columns) = None) \<and>
   val_expression (validateBuild (Visual [r]) columns) = ch_sql (ins_chain (inspectBuildPart r columns))"
proof (cases "partChain r columns")
  case (Inl e)
  then have "ins_issue (inspectBuildPart r columns) \<noteq> None"
    using inspect_agrees [of r columns "ins_chain (inspectBuildPart r columns)"] by auto
  with Inl show ?thesis
    by (simp add: validateBuild_def buildExpression_def draftExpression_def)
next
  case (Inr chain)
  then have "ins_issue (inspectBuildPart r columns) = None" "ins_chain (inspectBuildPart r columns) = chain"
    using inspect_agrees [of r columns chain] by auto
  with Inr show ?thesis by (simp add: validateBuild_def buildExpression_def)
qed

text \<open>
  An accepted expression aggregates at most once on every path of its token tree, and its
  chain is marked as summarised exactly when some path has a column summary, so no summary is ever
  applied to a value that is already summarised.
\<close>

theorem one_summary_per_path:
  assumes "partChain part columns = Inr chain"
  shows "path_summaries part \<le> 1 \<and> ch_summarized chain = (path_summaries part = 1)"
  using partChain_summaries [OF assms] by simp

lemma example_chain:
  "partChain example_token example_columns =
     Inr \<lparr>ch_sql = ''(((sum('' @ sql_identifier ''n; --'' @ '') OVER ()))) + (NULL)'',
          ch_type = T_number, ch_summarized = True\<rparr>"
  by code_simp

theorem one_summary_per_path_witness:
  "path_summaries example_token \<le> 1 \<and> path_summaries example_token = 1"
  using one_summary_per_path [OF example_chain] by simp

end
