(* ===== verification/Expression_Tree.thy ===== *)
theory Expression_Tree
  imports Build_Laws "HOL-Library.Multiset"
begin

text \<open>
  The tree of builder tokens and its edits, \<open>preprocessing/build/expressionTree.ts\<close>, and the draft
  of the Build tab with the state changes of \<open>preprocessing/build/hooks/useBuildSubTab.ts\<close>.
\<close>

subsection \<open>Edits of the tree\<close>

text \<open>\<open>xs.toSpliced(index, 0, x)\<close>: a negative index counts from the end, both ends are clamped.\<close>

definition splice_index :: "nat \<Rightarrow> int \<Rightarrow> nat" where
  "splice_index len index =
     (if index < 0 then nat (max (int len + index) 0) else min (nat index) len)"

definition toSpliced :: "'a list \<Rightarrow> int \<Rightarrow> 'a \<Rightarrow> 'a list" where
  "toSpliced xs index x =
     take (splice_index (length xs) index) xs @ x # drop (splice_index (length xs) index) xs"

function findExpression :: "build_token list \<Rightarrow> string \<Rightarrow> build_token option" where
  "findExpression [] target = None"
| "findExpression (node # rest) target =
     (if tok_id node = target then Some node
      else case node of
             Combination_Token _ _ _ children \<Rightarrow>
               (case findExpression children target of
                  Some found \<Rightarrow> Some found
                | None \<Rightarrow> findExpression rest target)
           | _ \<Rightarrow> findExpression rest target)"
  by pat_completeness auto
termination by (relation "measure (\<lambda>(nodes, target). size_list size nodes)") auto

fun updateExpression ::
    "build_token list \<Rightarrow> string \<Rightarrow> (build_token \<Rightarrow> build_token) \<Rightarrow> build_token list" where
  "updateExpression nodes target update =
     map (\<lambda>node.
       if tok_id node = target then update node
       else case node of
              Combination_Token i operations combination children \<Rightarrow>
                Combination_Token i operations combination (updateExpression children target update)
            | _ \<Rightarrow> node) nodes"

fun removeExpression :: "build_token list \<Rightarrow> string \<Rightarrow> build_token list" where
  "removeExpression nodes target =
     map (\<lambda>node.
       case node of
         Combination_Token i operations combination children \<Rightarrow>
           Combination_Token i operations combination (removeExpression children target)
       | _ \<Rightarrow> node) (filter (\<lambda>node. tok_id node \<noteq> target) nodes)"

definition insertExpression ::
    "build_token list \<Rightarrow> string option \<Rightarrow> int \<Rightarrow> build_token \<Rightarrow> build_token list" where
  "insertExpression nodes parent index expression =
     (case parent of
        None \<Rightarrow> toSpliced nodes index expression
      | Some p \<Rightarrow>
          updateExpression nodes p (\<lambda>node.
            case node of
              Combination_Token i operations combination children \<Rightarrow>
                Combination_Token i operations combination (toSpliced children index expression)
            | _ \<Rightarrow> node))"

text \<open>\<open>for (const [index, node] of nodes.entries())\<close>, with the index of the first node.\<close>

function location_from ::
    "build_token list \<Rightarrow> string \<Rightarrow> string option \<Rightarrow> nat \<Rightarrow> (string option \<times> nat) option" where
  "location_from [] target parent index = None"
| "location_from (node # rest) target parent index =
     (if tok_id node = target then Some (parent, index)
      else case node of
             Combination_Token i _ _ children \<Rightarrow>
               (case location_from children target (Some i) 0 of
                  Some result \<Rightarrow> Some result
                | None \<Rightarrow> location_from rest target parent (index + 1))
           | _ \<Rightarrow> location_from rest target parent (index + 1))"
  by pat_completeness auto
termination by (relation "measure (\<lambda>(nodes, _). size_list size nodes)") auto

definition expressionLocation :: "build_token list \<Rightarrow> string \<Rightarrow> (string option \<times> nat) option" where
  "expressionLocation nodes target = location_from nodes target None 0"

definition is_combination :: "build_token \<Rightarrow> bool" where
  "is_combination node = (case node of Combination_Token _ _ _ _ \<Rightarrow> True | _ \<Rightarrow> False)"

definition is_combination_at :: "build_token list \<Rightarrow> string \<Rightarrow> bool" where
  "is_combination_at nodes p =
     (case findExpression nodes p of Some node \<Rightarrow> is_combination node | None \<Rightarrow> False)"

definition moveExpression ::
    "build_token list \<Rightarrow> string \<Rightarrow> string option \<Rightarrow> int \<Rightarrow> build_token list" where
  "moveExpression nodes target parent index =
     (if (case parent of Some p \<Rightarrow> \<not> is_combination_at nodes p | None \<Rightarrow> False) then nodes
      else case (findExpression nodes target, expressionLocation nodes target) of
             (Some expression, Some (fromParent, fromIndex)) \<Rightarrow>
               if (case parent of Some p \<Rightarrow> findExpression [expression] p \<noteq> None | None \<Rightarrow> False)
               then nodes
               else
                 let slot = (if fromParent = parent \<and> int fromIndex < index then index - 1 else index)
                 in insertExpression (removeExpression nodes target) parent slot expression
           | _ \<Rightarrow> nodes)"

declare updateExpression.simps [simp del] removeExpression.simps [simp del]

subsection \<open>Identifiers of a forest\<close>

fun sub_nodes :: "build_token \<Rightarrow> build_token list" where
  "sub_nodes (Combination_Token _ _ _ children) = children"
| "sub_nodes _ = []"

fun token_ids :: "build_token \<Rightarrow> string list" where
  "token_ids (Combination_Token i _ _ children) = i # concat (map token_ids children)"
| "token_ids node = [tok_id node]"

definition forest_ids :: "build_token list \<Rightarrow> string list" where
  "forest_ids nodes = concat (map token_ids nodes)"

lemma forest_ids_simps [simp]:
  "forest_ids [] = []"
  "forest_ids (node # rest) = tok_id node # forest_ids (sub_nodes node) @ forest_ids rest"
  "forest_ids (xs @ ys) = forest_ids xs @ forest_ids ys"
  by (cases node; simp add: forest_ids_def)+

lemma token_ids_forest: "token_ids node = tok_id node # forest_ids (sub_nodes node)"
  by (cases node) (simp_all add: forest_ids_def)

text \<open>Induction over a forest: the children of the first node, then the other nodes.\<close>

lemma forest_induct [case_names Nil Cons]:
  assumes "P []" and "\<And>node rest. P (sub_nodes node) \<Longrightarrow> P rest \<Longrightarrow> P (node # rest)"
  shows "P nodes"
proof (induction "size_list size nodes" arbitrary: nodes rule: less_induct)
  case less
  show ?case
  proof (cases nodes)
    case (Cons node rest)
    have "size_list size (sub_nodes node) < size_list size nodes"
      "size_list size rest < size_list size nodes"
      by (cases node; simp add: Cons)+
    then show ?thesis using assms(2) less Cons by simp
  qed (simp add: assms(1))
qed

subsection \<open>The operations on the first node and the rest\<close>

definition with_children :: "build_token \<Rightarrow> (build_token list \<Rightarrow> build_token list) \<Rightarrow> build_token" where
  "with_children node f =
     (case node of
        Combination_Token i operations combination children \<Rightarrow>
          Combination_Token i operations combination (f children)
      | _ \<Rightarrow> node)"

lemma with_children_simps [simp]:
  "tok_id (with_children node f) = tok_id node"
  "is_combination (with_children node f) = is_combination node"
  "is_combination node \<Longrightarrow> sub_nodes (with_children node f) = f (sub_nodes node)"
  "\<not> is_combination node \<Longrightarrow> with_children node f = node"
  "\<not> is_combination node \<Longrightarrow> sub_nodes node = []"
  by (cases node; simp add: with_children_def is_combination_def)+

lemma sub_with_children: "f [] = [] \<Longrightarrow> sub_nodes (with_children node f) = f (sub_nodes node)"
  by (cases "is_combination node") simp_all

lemma with_children_id: "f (sub_nodes node) = sub_nodes node \<Longrightarrow> with_children node f = node"
  by (cases node) (simp_all add: with_children_def)

lemma remove_simps [simp]:
  "removeExpression [] target = []"
  "removeExpression (node # rest) target =
     (if tok_id node = target then removeExpression rest target
      else with_children node (\<lambda>cs. removeExpression cs target) # removeExpression rest target)"
  by (simp_all add: removeExpression.simps [of "[]"] removeExpression.simps [of "node # rest"]
      removeExpression.simps [of rest] with_children_def)

lemma update_simps [simp]:
  "updateExpression [] target update = []"
  "updateExpression (node # rest) target update =
     (if tok_id node = target then update node
      else with_children node (\<lambda>cs. updateExpression cs target update)) #
     updateExpression rest target update"
  by (simp_all add: updateExpression.simps [of "[]"] updateExpression.simps [of "node # rest"]
      updateExpression.simps [of rest] with_children_def)

lemma find_Cons:
  "findExpression (node # rest) target =
     (if tok_id node = target then Some node
      else case findExpression (sub_nodes node) target of
             Some found \<Rightarrow> Some found
           | None \<Rightarrow> findExpression rest target)"
  by (cases node) simp_all

lemma location_Cons:
  "location_from (node # rest) target parent index =
     (if tok_id node = target then Some (parent, index)
      else case location_from (sub_nodes node) target (Some (tok_id node)) 0 of
             Some result \<Rightarrow> Some result
           | None \<Rightarrow> location_from rest target parent (index + 1))"
  by (cases node) simp_all

declare findExpression.simps(2) [simp del] find_Cons [simp]
  location_from.simps(2) [simp del] location_Cons [simp]

subsection \<open>Lookup\<close>

lemma findExpression_None_iff: "findExpression nodes target = None \<longleftrightarrow> target \<notin> set (forest_ids nodes)"
  by (induction nodes rule: forest_induct) (auto split: option.split)

lemma find_mem: "findExpression nodes target = Some node \<Longrightarrow> target \<in> set (forest_ids nodes)"
  using findExpression_None_iff [of nodes target] by auto

lemma find_tok_id: "findExpression nodes target = Some node \<Longrightarrow> tok_id node = target"
  by (induction nodes rule: forest_induct) (auto split: option.split_asm if_split_asm)

lemma find_ids:
  "findExpression nodes target = Some node \<Longrightarrow> set (token_ids node) \<subseteq> set (forest_ids nodes)"
  by (induction nodes rule: forest_induct)
    (auto simp: token_ids_forest split: option.split_asm if_split_asm)

lemma find_append:
  "findExpression (xs @ ys) target =
     (case findExpression xs target of Some n \<Rightarrow> Some n | None \<Rightarrow> findExpression ys target)"
  by (induction xs) (auto split: option.split)

lemma location_None_iff:
  "location_from nodes target parent index = None \<longleftrightarrow> target \<notin> set (forest_ids nodes)"
proof (induction nodes arbitrary: parent index rule: forest_induct)
  case (Cons node rest)
  show ?case
    using Cons.IH(1) [of "Some (tok_id node)" 0] Cons.IH(2) [of parent "index + 1"]
    by (cases "location_from (sub_nodes node) target (Some (tok_id node)) 0") auto
qed simp

subsection \<open>Removal and update\<close>

lemma remove_absent: "target \<notin> set (forest_ids nodes) \<Longrightarrow> removeExpression nodes target = nodes"
  by (induction nodes rule: forest_induct) (auto intro: with_children_id)

lemma update_absent: "target \<notin> set (forest_ids nodes) \<Longrightarrow> updateExpression nodes target f = nodes"
  by (induction nodes rule: forest_induct) (auto intro: with_children_id)

lemma remove_ids:
  "distinct (forest_ids nodes) \<Longrightarrow> findExpression nodes target = Some expression \<Longrightarrow>
   mset (forest_ids (removeExpression nodes target)) + mset (token_ids expression) =
   mset (forest_ids nodes)"
proof (induction nodes rule: forest_induct)
  case (Cons node rest)
  show ?case
  proof (cases "tok_id node = target")
    case True
    then have "expression = node" "target \<notin> set (forest_ids rest)" using Cons.prems by auto
    then show ?thesis using True by (simp add: remove_absent token_ids_forest)
  next
    case False
    show ?thesis
    proof (cases "findExpression (sub_nodes node) target")
      case None
      then have "removeExpression (sub_nodes node) target = sub_nodes node"
        by (simp add: findExpression_None_iff remove_absent)
      then show ?thesis using Cons False None by (simp add: sub_with_children)
    next
      case (Some e)
      then have "target \<notin> set (forest_ids rest)" using Cons.prems(1) find_mem by fastforce
      then show ?thesis using Cons False Some by (simp add: sub_with_children remove_absent)
    qed
  qed
qed simp

lemma remove_not_found:
  "distinct (forest_ids nodes) \<Longrightarrow> target \<notin> set (forest_ids (removeExpression nodes target))"
  by (induction nodes rule: forest_induct) (auto simp: sub_with_children)

lemma remove_subset: "set (forest_ids (removeExpression nodes target)) \<subseteq> set (forest_ids nodes)"
  by (induction nodes rule: forest_induct) (auto simp: sub_with_children)

lemma find_unaffected:
  assumes "findExpression nodes p = Some q" and "target \<notin> set (forest_ids nodes)"
  shows "findExpression (removeExpression nodes target) p =
    Some (with_children q (\<lambda>cs. removeExpression cs target))"
proof -
  have "with_children q (\<lambda>cs. removeExpression cs target) = q"
    using assms find_ids [OF assms(1)]
    by (intro with_children_id remove_absent) (auto simp: token_ids_forest)
  then show ?thesis using assms by (simp add: remove_absent)
qed

lemma find_after_remove:
  assumes "p \<noteq> target" and "p \<notin> set (token_ids expression)"
  shows "distinct (forest_ids nodes) \<Longrightarrow> findExpression nodes target = Some expression \<Longrightarrow>
    findExpression nodes p = Some q \<Longrightarrow>
    findExpression (removeExpression nodes target) p =
      Some (with_children q (\<lambda>cs. removeExpression cs target))"
proof (induction nodes rule: forest_induct)
  case (Cons node rest)
  show ?case
  proof (cases "tok_id node = target")
    case True
    then have e: "expression = node" and t: "target \<notin> set (forest_ids rest)" using Cons.prems by auto
    have "findExpression (sub_nodes node) p = None"
      using assms e by (simp add: findExpression_None_iff token_ids_forest)
    then have "findExpression rest p = Some q" using Cons.prems(3) assms True by simp
    then show ?thesis using True t by (simp add: find_unaffected)
  next
    case node: False
    show ?thesis
    proof (cases "findExpression (sub_nodes node) p")
      case None
      then have none: "findExpression (removeExpression (sub_nodes node) target) p = None"
        using remove_subset [of "sub_nodes node" target] by (auto simp: findExpression_None_iff)
      show ?thesis
      proof (cases "target \<in> set (forest_ids rest)")
        case True
        then have "findExpression (sub_nodes node) target = None"
          using Cons.prems(1) by (auto simp: findExpression_None_iff)
        then show ?thesis using Cons node None none by (auto simp: sub_with_children)
      next
        case False
        then show ?thesis using Cons.prems node None none
          by (auto simp: sub_with_children find_unaffected)
      qed
    next
      case (Some q')
      then have p: "tok_id node \<noteq> p" "q' = q"
        using Cons.prems find_mem [OF Some] by (auto split: if_split_asm)
      show ?thesis
      proof (cases "findExpression (sub_nodes node) target")
        case None
        then have "target \<notin> set (forest_ids (sub_nodes node))" by (simp add: findExpression_None_iff)
        then show ?thesis using p node Some by (simp add: sub_with_children find_unaffected)
      next
        case (Some e)
        then show ?thesis using Cons p node \<open>findExpression (sub_nodes node) p = Some q'\<close>
          by (simp add: sub_with_children)
      qed
    qed
  qed
qed simp

subsection \<open>Insertion\<close>

lemma insertExpression_Some:
  "insertExpression nodes (Some p) index e =
     updateExpression nodes p (\<lambda>node. with_children node (\<lambda>cs. toSpliced cs index e))"
  by (simp add: insertExpression_def with_children_def)

lemma splice_index_le [simp]: "splice_index n index \<le> n"
  by (auto simp: splice_index_def)

lemma forest_ids_take_drop: "forest_ids (take n xs) @ forest_ids (drop n xs) = forest_ids xs"
  by (metis append_take_drop_id forest_ids_simps(3))

lemma toSpliced_ids:
  "mset (forest_ids (toSpliced xs index e)) = mset (forest_ids xs) + mset (token_ids e)"
proof -
  let ?n = "splice_index (length xs) index"
  have "mset (forest_ids xs) = mset (forest_ids (take ?n xs)) + mset (forest_ids (drop ?n xs))"
    by (metis forest_ids_take_drop mset_append)
  then show ?thesis by (simp add: toSpliced_def token_ids_forest)
qed

lemma find_toSpliced:
  assumes "tok_id e \<notin> set (forest_ids xs)"
  shows "findExpression (toSpliced xs index e) (tok_id e) = Some e"
proof -
  have "set (forest_ids (take n xs)) \<subseteq> set (forest_ids xs)" for n
    by (metis Un_upper1 forest_ids_take_drop set_append)
  then have "findExpression (take n xs) (tok_id e) = None" for n
    using assms by (auto simp: findExpression_None_iff)
  then show ?thesis by (simp add: toSpliced_def find_append)
qed

lemma is_combination_at_Cons:
  "is_combination_at (node # rest) p =
     (if tok_id node = p then is_combination node
      else if p \<in> set (forest_ids (sub_nodes node)) then is_combination_at (sub_nodes node) p
      else is_combination_at rest p)"
  by (auto simp: is_combination_at_def findExpression_None_iff dest: find_mem split: option.split)

lemma is_combination_at_mem: "is_combination_at nodes p \<Longrightarrow> p \<in> set (forest_ids nodes)"
  by (auto simp: is_combination_at_def dest: find_mem split: option.split_asm)

lemma insert_child_ids:
  "distinct (forest_ids nodes) \<Longrightarrow> is_combination_at nodes p \<Longrightarrow>
   mset (forest_ids (insertExpression nodes (Some p) index e)) =
   mset (forest_ids nodes) + mset (token_ids e)"
  unfolding insertExpression_Some
proof (induction nodes rule: forest_induct)
  case (Cons node rest)
  show ?case
  proof (cases "tok_id node = p")
    case True
    then have "p \<notin> set (forest_ids rest)" "is_combination node"
      using Cons.prems by (auto simp: is_combination_at_Cons)
    then show ?thesis using True by (simp add: update_absent toSpliced_ids)
  next
    case False
    show ?thesis
    proof (cases "p \<in> set (forest_ids (sub_nodes node))")
      case True
      then have "p \<notin> set (forest_ids rest)" using Cons.prems by auto
      then show ?thesis using Cons False True
        by (simp add: update_absent is_combination_at_Cons sub_with_children)
    next
      case absent: False
      then show ?thesis using Cons False
        by (simp add: update_absent is_combination_at_Cons sub_with_children)
    qed
  qed
qed (simp add: is_combination_at_def)

lemma find_insert_child:
  "tok_id e \<notin> set (forest_ids nodes) \<Longrightarrow> is_combination_at nodes p \<Longrightarrow>
   findExpression (insertExpression nodes (Some p) index e) (tok_id e) = Some e"
  unfolding insertExpression_Some
proof (induction nodes rule: forest_induct)
  case (Cons node rest)
  then have ne: "tok_id node \<noteq> tok_id e" by auto
  show ?case
  proof (cases "tok_id node = p")
    case True
    then show ?thesis using Cons ne by (simp add: is_combination_at_Cons find_toSpliced)
  next
    case False
    show ?thesis
    proof (cases "p \<in> set (forest_ids (sub_nodes node))")
      case True
      then show ?thesis using Cons False ne by (simp add: is_combination_at_Cons sub_with_children)
    next
      case absent: False
      then have "findExpression (sub_nodes node) (tok_id e) = None"
        using Cons.prems by (simp add: findExpression_None_iff)
      then show ?thesis using Cons False ne absent
        by (simp add: is_combination_at_Cons sub_with_children update_absent)
    qed
  qed
qed (simp add: is_combination_at_def)

definition valid_parent :: "build_token list \<Rightarrow> build_token \<Rightarrow> string option \<Rightarrow> bool" where
  "valid_parent nodes expression parent =
     (case parent of
        None \<Rightarrow> True
      | Some p \<Rightarrow> is_combination_at nodes p \<and> p \<notin> set (token_ids expression))"

lemma moveExpression_valid:
  assumes "findExpression nodes target = Some expression" and "valid_parent nodes expression parent"
  shows "\<exists>slot. moveExpression nodes target parent index =
    insertExpression (removeExpression nodes target) parent slot expression"
proof -
  obtain l where "expressionLocation nodes target = Some l"
    using find_mem [OF assms(1)] location_None_iff [of nodes target None 0]
    by (auto simp: expressionLocation_def)
  moreover have "findExpression [expression] p = None" if "p \<notin> set (token_ids expression)" for p
    using that by (simp add: findExpression_None_iff token_ids_forest del: find_Cons)
  ultimately show ?thesis
    using assms
    by (cases l; cases parent)
      (auto simp: moveExpression_def valid_parent_def Let_def simp del: find_Cons)
qed

lemma insert_after_remove:
  fixes slot :: int
  assumes "distinct (forest_ids nodes)" and "findExpression nodes target = Some expression"
    and "valid_parent nodes expression parent"
  defines "nodes' \<equiv> insertExpression (removeExpression nodes target) parent slot expression"
  shows "mset (forest_ids nodes') = mset (forest_ids nodes)"
    and "findExpression nodes' target = Some expression"
proof -
  let ?r = "removeExpression nodes target"
  have id: "tok_id expression = target" using find_tok_id assms(2) by simp
  have ids: "mset (forest_ids ?r) + mset (token_ids expression) = mset (forest_ids nodes)"
    using remove_ids assms by blast
  have "distinct (forest_ids ?r)"
    using assms(1) by (metis distinct_append ids mset_append mset_eq_imp_distinct_iff)
  have absent: "tok_id expression \<notin> set (forest_ids ?r)" using remove_not_found assms(1) id by simp
  have parent: "is_combination_at ?r p" if "parent = Some p" for p
  proof -
    have p: "is_combination_at nodes p" "p \<notin> set (token_ids expression)"
      using assms(3) that by (simp_all add: valid_parent_def)
    then obtain q where q: "findExpression nodes p = Some q" "is_combination q"
      by (auto simp: is_combination_at_def split: option.split_asm)
    have "p \<noteq> target" using p id by (auto simp: token_ids_forest)
    from find_after_remove [OF this p(2) assms(1,2) q(1)] q(2) show ?thesis
      by (simp add: is_combination_at_def)
  qed
  show "mset (forest_ids nodes') = mset (forest_ids nodes)"
    using ids insert_child_ids [OF \<open>distinct (forest_ids ?r)\<close> parent] toSpliced_ids [of ?r slot expression]
    by (cases parent) (simp_all add: nodes'_def insertExpression_def [of ?r None])
  show "findExpression nodes' target = Some expression"
    using find_insert_child [OF absent parent] find_toSpliced [OF absent] id
    by (cases parent) (simp_all add: nodes'_def insertExpression_def [of ?r None])
qed

subsection \<open>Moving to a gap\<close>

lemma remove_append:
  "removeExpression (xs @ ys) target = removeExpression xs target @ removeExpression ys target"
  by (induction xs) auto

lemma length_remove: "length (removeExpression xs target) = length (filter (\<lambda>n. tok_id n \<noteq> target) xs)"
  by (induction xs) auto

lemma location_child:
  "location_from nodes target (Some x) index = Some (q, i) \<Longrightarrow> q \<noteq> None"
  by (induction nodes arbitrary: x index rule: forest_induct)
    (auto split: option.split_asm if_split_asm)

text \<open>At the root level the location is the index of the node, when it is a root at all.\<close>

lemma location_root:
  "location_from nodes target None index = Some (None, i) \<Longrightarrow>
   index \<le> i \<and> i - index < length nodes \<and> tok_id (nodes ! (i - index)) = target"
proof (induction nodes arbitrary: index)
  case (Cons node rest)
  show ?case
  proof (cases "tok_id node = target")
    case False
    with Cons.prems have "location_from rest target None (index + 1) = Some (None, i)"
      using location_child [of "sub_nodes node" target "tok_id node" 0]
      by (auto split: option.split_asm)
    with Cons.IH [of "index + 1"] show ?thesis by (auto simp: nth_Cons' Suc_diff_le)
  qed (use Cons.prems in auto)
qed simp

lemma location_below:
  "distinct (forest_ids nodes) \<Longrightarrow> location_from nodes target None index = Some (Some p, i) \<Longrightarrow>
   \<forall>n \<in> set nodes. tok_id n \<noteq> target"
proof (induction nodes arbitrary: index)
  case (Cons node rest)
  have mem: "n \<in> set rest \<Longrightarrow> tok_id n \<in> set (forest_ids rest)" for n
    by (induction rest) auto
  show ?case
  proof (cases "location_from (sub_nodes node) target (Some (tok_id node)) 0")
    case None
    then show ?thesis using Cons by (auto split: if_split_asm)
  next
    case (Some l)
    then have "target \<in> set (forest_ids (sub_nodes node))"
      using location_None_iff [of "sub_nodes node" target "Some (tok_id node)" 0] by auto
    then show ?thesis using Cons.prems mem by auto
  qed
qed simp

lemma distinct_root_ids: "distinct (forest_ids nodes) \<Longrightarrow> distinct (map tok_id nodes)"
proof (induction nodes)
  case (Cons node rest)
  have "n \<in> set rest \<Longrightarrow> tok_id n \<in> set (forest_ids rest)" for n by (induction rest) auto
  then show ?case using Cons by auto
qed simp

lemma removed_before:
  "distinct (map tok_id xs) \<Longrightarrow> j < length xs \<Longrightarrow> tok_id (xs ! j) = target \<Longrightarrow> k \<le> length xs \<Longrightarrow>
   length (removeExpression (take k xs) target) = (if j < k then k - 1 else k)"
  unfolding length_remove
proof (induction xs arbitrary: j k)
  case (Cons x xs)
  show ?case
  proof (cases j)
    case 0
    then have "filter (\<lambda>n. tok_id n \<noteq> target) xs = xs" using Cons.prems by (auto simp: filter_id_conv) (metis image_eqI)
    then have "filter (\<lambda>n. tok_id n \<noteq> target) (take m xs) = take m xs" for m
      by (metis filter_id_conv in_set_takeD)
    then show ?thesis using 0 Cons.prems by (cases k) auto
  next
    case (Suc i)
    then have "tok_id x \<noteq> target" using Cons.prems nth_mem [of i xs] by auto
    then show ?thesis using Suc Cons by (cases k) auto
  qed
qed simp

lemma removed_before_none:
  "\<forall>n \<in> set xs. tok_id n \<noteq> target \<Longrightarrow> k \<le> length xs \<Longrightarrow> length (removeExpression (take k xs) target) = k"
  unfolding length_remove by (subst filter_True) (auto dest: in_set_takeD)

lemma toSpliced_append: "n = int (length xs) \<Longrightarrow> toSpliced (xs @ ys) n e = xs @ e # ys"
  by (simp add: toSpliced_def splice_index_def)

subsection \<open>Properties of moves\<close>

text \<open>
  Moving a token never loses or duplicates a token: for a tree with distinct identifiers, a move
  to an allowed parent keeps exactly the same identifiers and the moved token, with its whole
  subtree unchanged, is found in the result.
\<close>

theorem moveExpression_preserves:
  assumes "distinct (forest_ids nodes)" and "findExpression nodes target = Some expression"
    and "valid_parent nodes expression parent"
  shows "mset (forest_ids (moveExpression nodes target parent index)) = mset (forest_ids nodes) \<and>
    findExpression (moveExpression nodes target parent index) target = Some expression"
  using moveExpression_valid [OF assms(2,3), of index] insert_after_remove [OF assms] by auto

definition example_forest :: "build_token list" where
  "example_forest =
     [Column_Token ''a'' [] ''x'', Combination_Token ''f'' [] None [Literal_Token ''b'' [] L_null []],
      Sql_Token ''c'' [] ''1'']"

theorem moveExpression_preserves_witness:
  "mset (forest_ids (moveExpression example_forest ''a'' (Some ''f'') 1)) = mset (forest_ids example_forest) \<and>
   findExpression (moveExpression example_forest ''a'' (Some ''f'') 1) ''a'' =
     Some (Column_Token ''a'' [] ''x'')"
proof -
  have "findExpression example_forest ''a'' = Some (Column_Token ''a'' [] ''x'')"
    and "valid_parent example_forest (Column_Token ''a'' [] ''x'') (Some ''f'')"
    by (simp_all add: example_forest_def valid_parent_def is_combination_at_def is_combination_def)
  then show ?thesis
    using moveExpression_preserves [of example_forest "''a''" "Column_Token ''a'' [] ''x''" "Some ''f''" 1]
    by (simp add: example_forest_def)
qed

text \<open>
  Dropping a token at a gap between the roots puts it exactly there: the result is the roots
  before the gap, the token, and the roots after the gap, with the token removed from where it was,
  also when it was itself one of the roots and its removal shifts the indices.
\<close>

theorem moveExpression_to_root_gap:
  assumes "distinct (forest_ids nodes)" and "findExpression nodes target = Some expression"
    and "gap \<le> length nodes"
  shows "moveExpression nodes target None (int gap) =
    removeExpression (take gap nodes) target @ expression # removeExpression (drop gap nodes) target"
proof -
  obtain q i where loc: "expressionLocation nodes target = Some (q, i)"
    using find_mem [OF assms(2)] location_None_iff [of nodes target None 0]
    by (auto simp: expressionLocation_def)
  let ?slot = "if q = None \<and> int i < int gap then int gap - 1 else int gap"
  have slot: "?slot = int (length (removeExpression (take gap nodes) target))"
  proof (cases q)
    case None
    then show ?thesis
      using location_root [of nodes target 0 i] loc
        removed_before [OF distinct_root_ids [OF assms(1)], of i target gap] assms(3)
      by (auto simp: expressionLocation_def)
  next
    case (Some p)
    then show ?thesis
      using location_below [OF assms(1)] loc removed_before_none assms(3)
      by (auto simp: expressionLocation_def)
  qed
  have "removeExpression nodes target =
      removeExpression (take gap nodes) target @ removeExpression (drop gap nodes) target"
    by (metis append_take_drop_id remove_append)
  then have "moveExpression nodes target None (int gap) =
      toSpliced (removeExpression (take gap nodes) target @ removeExpression (drop gap nodes) target)
        ?slot expression"
    using assms(2) loc by (simp add: moveExpression_def insertExpression_def Let_def)
  then show ?thesis using toSpliced_append [OF slot] by simp
qed

theorem moveExpression_to_root_gap_witness:
  "moveExpression example_forest ''a'' None 2 =
     [Combination_Token ''f'' [] None [Literal_Token ''b'' [] L_null []],
      Column_Token ''a'' [] ''x'', Sql_Token ''c'' [] ''1'']"
proof -
  have "findExpression example_forest ''a'' = Some (Column_Token ''a'' [] ''x'')"
    by (simp add: example_forest_def)
  then show ?thesis
    using moveExpression_to_root_gap [of example_forest "''a''" "Column_Token ''a'' [] ''x''" 2]
    by (simp add: example_forest_def with_children_def)
qed

end
