(* ===== verification/Build_Draft.thy ===== *)
theory Build_Draft
  imports Expression_Tree
begin

text \<open>
  The draft of the Build tab, \<open>preprocessing/build/hooks/useBuildSubTab.ts\<close>: every change of the
  draft is a function on \<open>build_draft\<close>, and the request that Apply captures is computed from the
  draft of that moment. \<open>takeMostRecent\<close> is from \<open>project/common/utils/selectionUtils.ts\<close>.
\<close>

definition takeMostRecent :: "'a list \<Rightarrow> nat \<Rightarrow> 'a list" where
  "takeMostRecent items max_items =
     (if length items \<le> max_items then items
      else if max_items = 0 then items
      else drop (length items - max_items) items)"

record build_draft =
  dr_visual :: "build_token list"
  dr_sql :: "string option"
  dr_column :: "string option"

definition initial_draft :: build_draft where
  "initial_draft = \<lparr>dr_visual = emptyVisualBuild, dr_sql = None, dr_column = None\<rparr>"

definition updateVisual :: "(build_token list \<Rightarrow> build_token list) \<Rightarrow> build_draft \<Rightarrow> build_draft" where
  "updateVisual change draft = draft\<lparr>dr_visual := change (dr_visual draft)\<rparr>"

definition draft_definition :: "build_draft \<Rightarrow> build_definition" where
  "draft_definition draft =
     (case dr_sql draft of Some expression \<Rightarrow> Raw_Sql expression | None \<Rightarrow> Visual (dr_visual draft))"

definition draft_column :: "build_draft \<Rightarrow> column_info list \<Rightarrow> string" where
  "draft_column draft columns =
     (case dr_column draft of Some c \<Rightarrow> c | None \<Rightarrow> suggestColumnName (map ci_name columns))"

definition MAX_SAFE_INTEGER :: int where
  "MAX_SAFE_INTEGER = 9007199254740991"

definition addPart :: "build_token \<Rightarrow> string option \<Rightarrow> int option \<Rightarrow> build_draft \<Rightarrow> build_draft" where
  "addPart part parent index =
     updateVisual (\<lambda>roots. insertExpression roots parent
       (case index of Some i \<Rightarrow> i | None \<Rightarrow> MAX_SAFE_INTEGER) part)"

definition updatePart :: "string \<Rightarrow> (build_token \<Rightarrow> build_token) \<Rightarrow> build_draft \<Rightarrow> build_draft" where
  "updatePart target change = updateVisual (\<lambda>roots. updateExpression roots target change)"

definition removePart :: "string \<Rightarrow> build_draft \<Rightarrow> build_draft" where
  "removePart target = updateVisual (\<lambda>roots. removeExpression roots target)"

definition movePart :: "string \<Rightarrow> string option \<Rightarrow> int \<Rightarrow> build_draft \<Rightarrow> build_draft" where
  "movePart target parent index = updateVisual (\<lambda>roots. moveExpression roots target parent index)"

definition setColumn :: "string \<Rightarrow> build_draft \<Rightarrow> build_draft" where
  "setColumn column draft = draft\<lparr>dr_column := Some column\<rparr>"

definition setSql :: "string \<Rightarrow> build_draft \<Rightarrow> build_draft" where
  "setSql expression draft =
     (case dr_sql draft of Some _ \<Rightarrow> draft\<lparr>dr_sql := Some expression\<rparr> | None \<Rightarrow> draft)"

text \<open>The active block is the most recently selected one; \<open>active\<close> is whether there is one.\<close>

definition editSql :: "bool \<Rightarrow> column_info list \<Rightarrow> build_draft \<Rightarrow> build_draft" where
  "editSql active columns draft =
     (if \<not> active then draft
      else draft\<lparr>dr_sql := Some (val_expression (validateBuild (draft_definition draft) columns))\<rparr>)"

definition startNewVisual :: "build_draft \<Rightarrow> build_draft" where
  "startNewVisual draft = draft\<lparr>dr_visual := emptyVisualBuild, dr_sql := None\<rparr>"

definition disabledReason :: "bool \<Rightarrow> column_info list \<Rightarrow> build_draft \<Rightarrow> string option" where
  "disabledReason active columns draft =
     (if \<not> active then Some ''Select an input Data Block''
      else if trim (draft_column draft columns) = [] then Some ''Enter a column name''
      else val_error (validateBuild (draft_definition draft) columns))"

text \<open>The request \<open>handleApply\<close> sends, if it sends one, for the draft it captures.\<close>

definition handleApply :: "bool \<Rightarrow> column_info list \<Rightarrow> build_draft \<Rightarrow> build_column_request option" where
  "handleApply active columns captured =
     (if \<not> active then None
      else if trim (draft_column captured columns) = [] \<or>
        (case val_error (validateBuild (draft_definition captured) columns) of
           Some e \<Rightarrow> e \<noteq> [] | None \<Rightarrow> False)
      then None
      else Some (buildColumnRequest (draft_definition captured) (draft_column captured columns)))"

subsection \<open>Error messages are not empty\<close>

text \<open>\<open>handleApply\<close> tests the message of an error for truth, so an empty one would be missed.\<close>

definition speaks :: "'a result \<Rightarrow> bool" where
  "speaks r = (case r of Inl e \<Rightarrow> message e \<noteq> [] | Inr _ \<Rightarrow> True)"

lemma speaks_simps [simp]:
  "speaks (Inr x)" "speaks (throw m) \<longleftrightarrow> m \<noteq> []" "speaks (Inl e) \<longleftrightarrow> message e \<noteq> []"
  by (simp_all add: speaks_def throw_def)

lemma speaks_rbind: "speaks r \<Longrightarrow> (\<And>x. r = Inr x \<Longrightarrow> speaks (f x)) \<Longrightarrow> speaks (rbind r f)"
  by (cases r) simp_all

lemma speaks_rmap: "(\<And>x. x \<in> set xs \<Longrightarrow> speaks (f x)) \<Longrightarrow> speaks (rmap f xs)"
  by (induction xs) (auto intro!: speaks_rbind)

lemma speaks_steps: "speaks (apply_steps step_text n ops chain)"
  by (induction ops arbitrary: n chain) (auto simp: step_text_def split: sum.split)

lemma speaks_combine: "speaks (combine parts combination)"
  by (simp add: combine_def split: option.split)

lemma speaks_partChain: "speaks (partChain part columns)"
  by (induction part columns rule: partChain.induct)
    (auto intro!: speaks_rbind speaks_rmap speaks_combine simp: speaks_steps columnChain_def
      literalChain_def sqlChain_def split: option.split build_literal_type.split)

lemma buildExpression_error: "buildExpression definition columns = Inl e \<Longrightarrow> message e \<noteq> []"
proof -
  have "speaks (buildExpression definition columns)"
    using speaks_partChain
    by (auto simp: buildExpression_def intro!: speaks_rbind split: build_definition.split list.split)
  then show "buildExpression definition columns = Inl e \<Longrightarrow> message e \<noteq> []" by simp
qed

lemma validateBuild_error:
  "val_error (validateBuild definition columns) = None \<longleftrightarrow>
     (\<exists>expression. buildExpression definition columns = Inr expression)"
  "val_error (validateBuild definition columns) = Some m \<Longrightarrow> m \<noteq> []"
  using buildExpression_error [of "definition" columns]
  by (auto simp: validateBuild_def split: sum.split build_definition.split prod.split
      sum.split_asm build_definition.split_asm prod.split_asm)

text \<open>
  The Apply button and its handler agree: \<open>handleApply\<close> sends a request exactly when the tab
  gives no reason to disable Apply.
\<close>

theorem handleApply_iff_enabled:
  "(handleApply active columns draft \<noteq> None) = (disabledReason active columns draft = None)"
  using validateBuild_error(2) [of "draft_definition draft" columns]
  by (auto simp: handleApply_def disabledReason_def split: option.split)

text \<open>
  A request that Apply sends is the draft's own: it names the draft's column with surrounding
  white space trimmed, which is not blank, and holds the draft's definition, for which SQL is
  generated.
\<close>

theorem handleApply_request:
  assumes "handleApply active columns draft = Some request"
  shows "bcr_column request = trim (draft_column draft columns) \<and> bcr_column request \<noteq> [] \<and>
    bcr_definition request = draft_definition draft \<and>
    (\<exists>expression. buildExpression (bcr_definition request) columns = Inr expression)"
proof -
  have "disabledReason active columns draft = None"
    using assms validateBuild_error(2) [of "draft_definition draft" columns]
    by (auto simp: handleApply_def disabledReason_def split: option.split_asm if_split_asm)
  then have "val_error (validateBuild (draft_definition draft) columns) = None"
    by (simp add: disabledReason_def split: if_split_asm)
  then show ?thesis
    using assms
    by (auto simp: handleApply_def buildColumnRequest_def validateBuild_error(1) split: if_split_asm)
qed

theorem handleApply_request_witness:
  "let draft = setColumn '' total '' (addPart example_token None None initial_draft);
       request = buildColumnRequest (Visual [example_token]) '' total ''
   in handleApply True example_columns draft = Some request \<and> bcr_column request \<noteq> [] \<and>
      (\<exists>expression. buildExpression (bcr_definition request) example_columns = Inr expression)"
proof -
  let ?draft = "setColumn '' total '' (addPart example_token None None initial_draft)"
  let ?request = "buildColumnRequest (Visual [example_token]) '' total ''"
  have "draft_definition ?draft = Visual [example_token]"
    by (simp add: draft_definition_def setColumn_def addPart_def updateVisual_def initial_draft_def
        insertExpression_def toSpliced_def emptyVisualBuild_def)
  moreover have "draft_column ?draft example_columns = '' total ''"
    by (simp add: draft_column_def setColumn_def)
  moreover have "trim '' total '' \<noteq> []"
    using trim_graphic_member [of "CHR ''t''" "'' total ''"] by (auto simp: graphic_char_def)
  ultimately have "handleApply True example_columns ?draft = Some ?request"
    using example_expression by (simp add: handleApply_def validateBuild_def)
  from this handleApply_request [OF this] show ?thesis unfolding Let_def by blast
qed

end
