(* ===== verification/Builder_Laws.thy ===== *)
theory Builder_Laws
  imports Sql_Builders
begin

text \<open>
  Laws of the statement builders of \<open>preprocessing/sql.ts\<close>: what they quote is read back, the
  statements are well delimited for every request, and the columns of a join have distinct names.
\<close>

subsection \<open>Joins\<close>

lemma right_names_fresh:
  "distinct (map (fold_case \<circ> snd) (right_names right skip reserved columns)) \<and>
   set (map (fold_case \<circ> snd) (right_names right skip reserved columns)) \<inter> set reserved = {}"
proof (induction right skip reserved columns rule: right_names.induct)
  case (2 right skip reserved column rest)
  define stem where "stem = (if fold_case column \<in> set reserved then column @ ''_'' @ right else column)"
  define name where "name = (if fold_case stem \<in> set reserved
      then stem @ ''_'' @ show_nat (free_number (stem @ ''_'') reserved 2) else stem)"
  have "fold_case name \<notin> set reserved"
    using folded.search_free [of "stem @ ''_''" reserved 2] by (simp add: name_def)
  moreover have "\<not> skip column \<Longrightarrow> right_names right skip reserved (column # rest) =
      (column, name) # right_names right skip (reserved @ [fold_case name]) rest"
    by (simp add: name_def stem_def Let_def)
  moreover note "2.IH"(1) "2.IH"(2) [OF _ stem_def name_def]
  ultimately show ?case by (cases "skip column") auto
qed simp

lemma right_names_columns:
  "map fst (right_names right skip reserved columns) = filter (\<lambda>c. \<not> skip c) columns"
  by (induction right skip reserved columns rule: right_names.induct) (simp_all add: Let_def)

definition join_outputs ::
    "string \<Rightarrow> join_type \<Rightarrow> string option \<Rightarrow> string option \<Rightarrow> string list \<Rightarrow> string list \<Rightarrow> string list" where
  "join_outputs right kind leftKey rightKey leftColumns rightColumns =
     leftColumns @
     (if kind = J_semi \<or> kind = J_anti then []
      else map snd (right_names right (\<lambda>c. join_merged kind leftKey rightKey \<and> Some c = rightKey)
             (map fold_case leftColumns) rightColumns))"

text \<open>
  A join never names two of its output columns alike: for left columns that are distinct under
  case folding, the left columns followed by the names \<open>joinSelect\<close> gives to the columns of the right
  block are pairwise distinct under case folding, and no column of the right block is dropped except
  the merged key (and all of them for semi and anti joins).
\<close>

theorem join_outputs_distinct:
  assumes "distinct (map fold_case leftColumns)"
  shows "distinct (map fold_case (join_outputs right kind leftKey rightKey leftColumns rightColumns)) \<and>
    map fst (right_names right (\<lambda>c. join_merged kind leftKey rightKey \<and> Some c = rightKey)
      (map fold_case leftColumns) rightColumns) =
    filter (\<lambda>c. \<not> (join_merged kind leftKey rightKey \<and> Some c = rightKey)) rightColumns"
  using assms right_names_fresh [of right "\<lambda>c. join_merged kind leftKey rightKey \<and> Some c = rightKey"
      "map fold_case leftColumns" rightColumns]
  unfolding join_outputs_def right_names_columns by (auto simp: o_def)

theorem join_outputs_distinct_witness:
  "join_outputs ''b'' J_left (Some ''id'') (Some ''id'') [''id'', ''text'', ''text_b''] [''id'', ''Text'', ''n''] =
     [''id'', ''text'', ''text_b'', ''Text_b_2'', ''n''] \<and>
   distinct (map fold_case
     (join_outputs ''b'' J_left (Some ''id'') (Some ''id'') [''id'', ''text'', ''text_b''] [''id'', ''Text'', ''n'']))"
proof
  show "join_outputs ''b'' J_left (Some ''id'') (Some ''id'') [''id'', ''text'', ''text_b''] [''id'', ''Text'', ''n''] =
     [''id'', ''text'', ''text_b'', ''Text_b_2'', ''n'']"
    by code_simp
  have "distinct (map fold_case [''id'', ''text'', ''text_b''])" by code_simp
  from join_outputs_distinct [OF this]
  show "distinct (map fold_case
     (join_outputs ''b'' J_left (Some ''id'') (Some ''id'') [''id'', ''text'', ''text_b''] [''id'', ''Text'', ''n'']))"
    by blast
qed

subsection \<open>Quoting\<close>

text \<open>
  C4: quoting is lossless: reading a quoted identifier or string literal, up to its closing quote
  and followed by anything that does not continue it, gives back exactly the quoted text, so a name
  or value can neither end its quotes early nor swallow what follows.
\<close>

theorem quoting_read_back:
  assumes "rest = [] \<or> hd rest \<notin> {CHR 0x22, CHR 0x27}"
  shows "read_quoted (CHR 0x22) (sql_identifier s @ rest) = Some (s, rest) \<and>
    read_quoted (CHR 0x27) (literal_string s @ rest) = Some (s, rest)"
  using assms ident.read_enc [of rest s] lit.read_enc [of rest s] by (cases rest) auto

theorem quoting_read_back_witness:
  "read_quoted (CHR 0x22) (sql_identifier [CHR ''a'', CHR 0x22] @ '' AS x'') = Some ([CHR ''a'', CHR 0x22], '' AS x'') \<and>
   read_quoted (CHR 0x27) (literal_string [CHR ''a'', CHR 0x22] @ '' AS x'') = Some ([CHR ''a'', CHR 0x22], '' AS x'')"
  by (rule quoting_read_back) simp

subsection \<open>Statements\<close>

lemma closed_filterSelect: "filterSelect request = Inr sql \<Longrightarrow> sql_closed sql"
  by (auto simp: filterSelect_def closed_scans intro!: closedI dest!: closed_filterPredicate)

text \<open>
  C3: the statements of the Filter, Sample, Join and Stack tools are well delimited: whatever the
  block names, column names, operators and values of a request, a statement that a builder returns
  closes every literal, quoted identifier and parenthesis it opens and contains no statement
  separator and no comment outside them.
\<close>

theorem preprocessing_statements_closed:
  assumes "Inr sql \<in> {filterSelect filter_request, sampleSelect sample_request,
      joinSelect left right kind leftKey rightKey columns, stackSelect names distinct_rows}"
  shows "sql_closed sql"
  using assms
  by (auto dest: closed_filterSelect [OF sym] closed_sampleSelect [OF sym] closed_joinSelect [OF sym]
      closed_stackSelect [OF sym])

theorem preprocessing_statements_closed_witness:
  "\<exists>sql. stackSelect [''a;b'', [CHR 0x22]] True = Inr sql \<and> sql_closed sql"
proof -
  obtain sql where sql: "stackSelect [''a;b'', [CHR 0x22]] True = Inr sql"
    by (simp add: stackSelect_def)
  then have "sql_closed sql"
    using preprocessing_statements_closed [of sql _ _ _ _ _ _ _ _ "[''a;b'', [CHR 0x22]]" True] by simp
  with sql show ?thesis by blast
qed

end
