(* ===== verification/Editor.thy ===== *)
theory Editor
  imports Sql_Builders
begin

text \<open>
  The data editor's column tools, \<open>features/project/data-editor/expressions.ts\<close>: the draft of the
  form, template strings, and \<open>compileEditor\<close>, which turns a draft into the column change that is
  stored, the select statement of the preview and the names of the output columns.
\<close>

subsection \<open>Drafts\<close>

datatype editor_tool =
    E_replace | E_extract | E_combine | E_duplicate | E_clean | E_split | E_count | E_map
  | E_categories | E_overview | E_delete

datatype clean_operation =
    Clean_trim | Clean_whitespace | Clean_lower | Clean_upper | Clean_title | Clean_punctuation
  | Clean_digits | Clean_urls | Clean_html | Clean_xml

datatype measure_kind = M_words | M_characters | M_non_whitespace | M_matches

datatype missing_mode = Missing_blank | Missing_missing

record editor_draft =
  ed_column :: string
  ed_output :: string
  ed_newColumn :: bool
  ed_pattern :: string
  ed_replacement :: string
  ed_regex :: bool
  ed_whole :: bool
  ed_sensitive :: bool
  ed_first :: bool
  ed_limit :: js_number
  ed_connector :: string
  ed_template :: string
  ed_missing :: missing_mode
  ed_clean :: clean_operation
  ed_delimiters :: "string list"
  ed_newlines :: bool
  ed_right :: bool
  ed_parts :: js_number
  ed_measure :: measure_kind
  ed_deleted :: "string list"
  ed_malformedOnly :: bool
  ed_mappings :: "(string option \<times> string option) list"
  ed_categoryOrder :: "string list option"

definition initialEditorDraft :: "string \<Rightarrow> editor_draft" where
  "initialEditorDraft column =
     \<lparr>ed_column = column, ed_output = [], ed_newColumn = False, ed_pattern = [],
      ed_replacement = [], ed_regex = False, ed_whole = False, ed_sensitive = True,
      ed_first = False, ed_limit = Finite 1, ed_connector = '' '', ed_template = [],
      ed_missing = Missing_blank, ed_clean = Clean_trim, ed_delimiters = [], ed_newlines = False,
      ed_right = False, ed_parts = Finite 2, ed_measure = M_words, ed_deleted = [],
      ed_malformedOnly = False, ed_mappings = [], ed_categoryOrder = None\<rparr>"

fun measure_text :: "measure_kind \<Rightarrow> string" where
  "measure_text M_words = ''words''"
| "measure_text M_characters = ''characters''"
| "measure_text M_non_whitespace = ''non_whitespace''"
| "measure_text M_matches = ''matches''"

fun tool_suffix :: "editor_tool \<Rightarrow> string" where
  "tool_suffix E_replace = ''replaced''"
| "tool_suffix E_extract = ''matches''"
| "tool_suffix E_combine = ''combined''"
| "tool_suffix E_duplicate = ''copy''"
| "tool_suffix E_clean = ''cleaned''"
| "tool_suffix E_split = ''split''"
| "tool_suffix E_map = ''mapped''"
| "tool_suffix _ = []"

definition suggestedEditorName :: "editor_tool \<Rightarrow> editor_draft \<Rightarrow> string list \<Rightarrow> string" where
  "suggestedEditorName tool draft columns =
     (let suffix = (if tool = E_count
                    then replaceAll_char (CHR ''_'') '' '' (measure_text (ed_measure draft)) @ '' count''
                    else tool_suffix tool)
      in uniqueColumnName
           (if tool = E_combine then ''combined''
            else (if ed_column draft \<noteq> [] then ed_column draft else ''text'') @ '' '' @ suffix)
           columns)"

subsection \<open>Templates\<close>

definition column_part :: "missing_mode \<Rightarrow> string \<Rightarrow> string" where
  "column_part missing name =
     (let source = ''CAST('' @ sql_identifier name @ '' AS VARCHAR)''
      in if missing = Missing_blank then ''coalesce('' @ source @ '', '' @ [CHR 0x27, CHR 0x27] @ '')''
         else source)"

definition flush :: "string \<Rightarrow> string list" where
  "flush text_so_far = (if text_so_far \<noteq> [] then [literal_string text_so_far] else [])"

text \<open>
  The loop over the template: \<open>text_so_far\<close> is the literal text read since the last column, the
  result is the list of the remaining parts.
\<close>

function template_parts ::
    "string list \<Rightarrow> missing_mode \<Rightarrow> string \<Rightarrow> string \<Rightarrow> string list result" where
  "template_parts columns missing text_so_far [] = Inr (flush text_so_far)"
| "template_parts columns missing text_so_far (c # rest) =
     (if (c = CHR ''{'' \<or> c = CHR ''}'') \<and> (rest \<noteq> [] \<and> hd rest = c)
      then template_parts columns missing (text_so_far @ [c]) (tl rest)
      else if c = CHR ''{'' then
        (if CHR ''}'' \<notin> set rest then throw ''A { has no matching }.''
         else
           let name = takeWhile (\<lambda>x. x \<noteq> CHR ''}'') rest in
           if name \<notin> set columns then throw (''Column is unavailable: '' @ name)
           else rbind (template_parts columns missing [] (drop (length name + 1) rest)) (\<lambda>parts.
             Inr (flush text_so_far @ [column_part missing name] @ parts)))
      else if c = CHR ''}'' then throw ''Write }} for a literal closing brace.''
      else template_parts columns missing (text_so_far @ [c]) rest)"
  by pat_completeness auto
termination by (relation "measure (\<lambda>(_, _, _, t). length t)") auto

definition combineExpression :: "string \<Rightarrow> string list \<Rightarrow> missing_mode \<Rightarrow> string result" where
  "combineExpression template columns missing =
     rbind (template_parts columns missing [] template) (\<lambda>parts.
       if parts = [] then throw ''Enter a nonempty template.'' else Inr (join '' || '' parts))"

subsection \<open>Expressions\<close>

record transform_column =
  tc_column :: string
  tc_expression :: string
  tc_replace :: bool

datatype column_change =
    Delete_Many "string list"
  | Order_Categories string "string list"
  | Transform_Many "transform_column list"

record editor_operation =
  eo_change :: column_change
  eo_select :: string
  eo_outputs :: "string list"
  eo_changed :: string
  eo_invalidXml :: "string option"

definition bool_sql :: "bool \<Rightarrow> string" where
  "bool_sql b = (if b then ''TRUE'' else ''FALSE'')"

definition text_source :: "editor_draft \<Rightarrow> string" where
  "text_source draft = ''CAST('' @ sql_identifier (ed_column draft) @ '' AS VARCHAR)''"

definition matches_sql :: "editor_draft \<Rightarrow> string" where
  "matches_sql draft =
     ''wordflow_matches('' @ join '', '' [text_source draft, literal_string (ed_pattern draft),
        bool_sql (ed_regex draft), bool_sql (ed_whole draft), bool_sql (ed_sensitive draft)] @ '')''"

definition replace_sql :: "editor_draft \<Rightarrow> string" where
  "replace_sql draft =
     ''wordflow_replace('' @ join '', '' [text_source draft, literal_string (ed_pattern draft),
        literal_string (ed_replacement draft), bool_sql (ed_regex draft), bool_sql (ed_whole draft),
        bool_sql (ed_sensitive draft), bool_sql (ed_first draft)] @ '')''"

definition extract_sql :: "editor_draft \<Rightarrow> string result" where
  "extract_sql draft =
     (if ed_first draft \<and> (\<not> isInteger (ed_limit draft) \<or> num_less (ed_limit draft) (Finite 1))
      then throw ''Enter a positive match count.''
      else Inr (''array_to_string('' @
        (if ed_first draft
         then ''list_slice('' @ matches_sql draft @ '', 1, '' @ show_number (ed_limit draft) @ '')''
         else matches_sql draft) @
        '', '' @ literal_string (ed_connector draft) @ '')''))"

definition optional_literal :: "string option \<Rightarrow> string" where
  "optional_literal v = (case v of None \<Rightarrow> ''NULL'' | Some s \<Rightarrow> literal_string s)"

definition map_sql :: "editor_draft \<Rightarrow> string result" where
  "map_sql draft =
     (if ed_mappings draft = [] then throw ''Change at least one value.''
      else Inr (''CASE '' @ join '' '' (map (\<lambda>(key, v).
        ''WHEN CAST(to_json('' @ sql_identifier (ed_column draft) @ '') AS VARCHAR) IS NOT DISTINCT FROM '' @
        optional_literal key @ '' THEN '' @ optional_literal v) (ed_mappings draft)) @
        '' ELSE '' @ text_source draft @ '' END''))"

text \<open>The texts between single quotes: regular expressions and flags, none contains a quote.\<close>

definition raw_literal :: "string \<Rightarrow> string" where
  "raw_literal s = CHR 0x27 # s @ [CHR 0x27]"

definition spaces_class :: string where
  "spaces_class = ''['' @ [CHR 0x5C] @ ''p{Z}'' @ [CHR 0x5C] @ ''s]''"

definition regexp_replace :: "string \<Rightarrow> string \<Rightarrow> string \<Rightarrow> string \<Rightarrow> string" where
  "regexp_replace source regex replacement flags =
     ''regexp_replace('' @ join '', '' [source, raw_literal regex, raw_literal replacement,
       raw_literal flags] @ '')''"

definition count_sql :: "editor_draft \<Rightarrow> string" where
  "count_sql draft =
     (case ed_measure draft of
        M_words \<Rightarrow> ''wordflow_word_count('' @ text_source draft @ '')''
      | M_characters \<Rightarrow> ''length('' @ text_source draft @ '')''
      | M_non_whitespace \<Rightarrow> ''length('' @ regexp_replace (text_source draft) spaces_class [] ''g'' @ '')''
      | M_matches \<Rightarrow> ''length('' @ matches_sql draft @ '')'')"

definition url_regex :: string where
  "url_regex = ''(https?://|www'' @ [CHR 0x5C] @ ''.)[^'' @ [CHR 0x5C] @ ''s]+''"

definition property_class :: "string \<Rightarrow> string" where
  "property_class p = [CHR 0x5C] @ ''p{'' @ p @ ''}''"

definition clean_sql :: "editor_draft \<Rightarrow> string" where
  "clean_sql draft =
     (let source = text_source draft in
      case ed_clean draft of
        Clean_trim \<Rightarrow>
          regexp_replace source (''^'' @ spaces_class @ ''+|'' @ spaces_class @ ''+$'') [] ''g''
      | Clean_whitespace \<Rightarrow> ''trim('' @ regexp_replace source (spaces_class @ ''+'') '' '' ''g'' @ '')''
      | Clean_lower \<Rightarrow> ''lower('' @ source @ '')''
      | Clean_upper \<Rightarrow> ''upper('' @ source @ '')''
      | Clean_title \<Rightarrow> ''wordflow_title_case('' @ source @ '')''
      | Clean_punctuation \<Rightarrow>
          regexp_replace source (''['' @ property_class ''P'' @ property_class ''S'' @ '']'') [] ''g''
      | Clean_digits \<Rightarrow> regexp_replace source (property_class ''N'') [] ''g''
      | Clean_urls \<Rightarrow> regexp_replace source url_regex [] ''gi''
      | Clean_html \<Rightarrow> regexp_replace source ''<[^>]*>'' [] ''g''
      | Clean_xml \<Rightarrow> ''wordflow_clean_xml('' @ source @ '')'')"

definition invalid_xml :: "editor_draft \<Rightarrow> string option" where
  "invalid_xml draft =
     (if ed_clean draft = Clean_xml
      then Some (sql_identifier (ed_column draft) @ '' IS NOT NULL AND NOT wordflow_xml_valid('' @
             text_source draft @ '')'')
      else None)"

subsection \<open>Compiling a draft\<close>

definition delete_operation :: "editor_draft \<Rightarrow> string list \<Rightarrow> editor_operation result" where
  "delete_operation draft columns =
     (if ed_deleted draft = [] then throw ''Choose columns to delete.''
      else if length (ed_deleted draft) \<ge> length columns then throw ''Keep at least one column.''
      else if list_ex (\<lambda>name. name \<notin> set columns) (ed_deleted draft)
      then throw ''A selected column is unavailable.''
      else Inr
        \<lparr>eo_change = Delete_Many (ed_deleted draft),
         eo_select = ''SELECT * EXCLUDE ('' @ join '', '' (map sql_identifier (ed_deleted draft)) @
           '') FROM __wf_current'',
         eo_outputs = [], eo_changed = ''TRUE'', eo_invalidXml = None\<rparr>)"

definition category_operation :: "editor_draft \<Rightarrow> editor_operation result" where
  "category_operation draft =
     (let source = sql_identifier (ed_column draft) in
      case ed_categoryOrder draft of
        None \<Rightarrow> throw ''Loading category values.''
      | Some order \<Rightarrow> Inr
          \<lparr>eo_change = Order_Categories (ed_column draft) order,
           eo_select =
             (if order \<noteq> []
              then ''SELECT * REPLACE (CAST(CAST('' @ source @ '' AS VARCHAR) AS ENUM ('' @
                join '', '' (map literal_string order) @ '')) AS '' @ source @ '') FROM __wf_current''
              else ''SELECT * FROM __wf_current''),
           eo_outputs = [ed_column draft], eo_changed = ''FALSE'', eo_invalidXml = None\<rparr>)"

definition split_delimiters :: "editor_draft \<Rightarrow> string list" where
  "split_delimiters draft =
     unique (ed_delimiters draft @
       (if ed_newlines draft then [[CHR 0x0D, CHR 0x0A], [CHR 0x0A], [CHR 0x0D]] else []))"

text \<open>The names of the parts; \<open>reserved\<close> collects the columns and the names given so far.\<close>

fun split_names :: "string \<Rightarrow> string list \<Rightarrow> nat \<Rightarrow> nat \<Rightarrow> string list" where
  "split_names column reserved index 0 = []"
| "split_names column reserved index (Suc n) =
     (let name = uniqueColumnName (column @ ''_'' @ show_nat (index + 1)) reserved
      in name # split_names column (reserved @ [name]) (index + 1) n)"

definition number_nat :: "js_number \<Rightarrow> nat" where
  "number_nat x = (case x of Finite q \<Rightarrow> nat \<lfloor>q\<rfloor> | _ \<Rightarrow> 0)"

definition split_call :: "editor_draft \<Rightarrow> string" where
  "split_call draft =
     ''wordflow_split('' @ join '', '' [text_source draft,
        literal_string (json_strings (split_delimiters draft)), show_number (ed_parts draft),
        bool_sql (ed_right draft)] @ '')''"

definition split_item :: "editor_draft \<Rightarrow> nat \<Rightarrow> string \<Rightarrow> transform_column" where
  "split_item draft index column =
     \<lparr>tc_column = column,
      tc_expression = ''list_extract('' @ split_call draft @ '', '' @ show_nat (index + 1) @ '')'',
      tc_replace = False\<rparr>"

definition split_operation :: "editor_draft \<Rightarrow> string list \<Rightarrow> editor_operation result" where
  "split_operation draft columns =
     (if \<not> isInteger (ed_parts draft) \<or> num_less (ed_parts draft) (Finite 2) \<or>
         num_less (Finite 50) (ed_parts draft)
      then throw ''Choose between 2 and 50 columns.''
      else
        let delimiters = split_delimiters draft in
        if delimiters = [] \<or> [] \<in> set delimiters then throw ''Add a literal delimiter.''
        else
          let outputs = split_names (ed_column draft) columns 0 (number_nat (ed_parts draft));
              expressions = map (\<lambda>(index, column). split_item draft index column) (enumerate 0 outputs)
          in Inr
            \<lparr>eo_change = Transform_Many expressions,
             eo_select = ''SELECT *, '' @ join '', '' (map (\<lambda>item.
                 tc_expression item @ '' AS '' @ sql_identifier (tc_column item)) expressions) @
               '' FROM __wf_current'',
             eo_outputs = outputs,
             eo_changed = sql_identifier (ed_column draft) @ '' IS NOT NULL'',
             eo_invalidXml = None\<rparr>)"

definition validateNew :: "string list \<Rightarrow> string \<Rightarrow> string result" where
  "validateNew columns name =
     (if name = [] then throw ''Enter a column name.''
      else if fold_case name \<in> fold_case ` set columns
      then throw ''A column with this name already exists.''
      else Inr name)"

definition editor_expression :: "editor_tool \<Rightarrow> editor_draft \<Rightarrow> string list \<Rightarrow> string result" where
  "editor_expression tool draft columns =
     (case tool of
        E_replace \<Rightarrow> Inr (replace_sql draft)
      | E_extract \<Rightarrow> extract_sql draft
      | E_combine \<Rightarrow> combineExpression (ed_template draft) columns (ed_missing draft)
      | E_duplicate \<Rightarrow> Inr (sql_identifier (ed_column draft))
      | E_map \<Rightarrow> map_sql draft
      | E_count \<Rightarrow> Inr (count_sql draft)
      | _ \<Rightarrow> Inr (clean_sql draft))"

definition transform_result ::
    "editor_draft \<Rightarrow> string option \<Rightarrow> bool \<Rightarrow> string \<Rightarrow> string \<Rightarrow> editor_operation" where
  "transform_result draft invalidXml replace column expression =
     \<lparr>eo_change = Transform_Many
        [\<lparr>tc_column = column, tc_expression = expression, tc_replace = replace\<rparr>],
      eo_select = ''SELECT *'' @
        (if replace then '' REPLACE ('' @ expression @ '' AS '' @ sql_identifier column @ '')''
         else '', '' @ expression @ '' AS '' @ sql_identifier column) @
        '' FROM __wf_current'' @
        (case invalidXml of
           Some x \<Rightarrow> if ed_malformedOnly draft then '' WHERE '' @ x else []
         | None \<Rightarrow> []),
      eo_outputs = [column],
      eo_changed = (if replace
                    then sql_identifier (ed_column draft) @ '' IS DISTINCT FROM ('' @ expression @ '')''
                    else ''('' @ expression @ '') IS NOT NULL''),
      eo_invalidXml = invalidXml\<rparr>"

definition transform_operation ::
    "editor_tool \<Rightarrow> editor_draft \<Rightarrow> string list \<Rightarrow> bool \<Rightarrow> editor_operation result" where
  "transform_operation tool draft columns preserveTypes =
     (let source = sql_identifier (ed_column draft);
          output = trim (if ed_output draft \<noteq> [] then ed_output draft
                         else suggestedEditorName tool draft columns);
          replace = ((tool = E_replace \<or> tool = E_clean) \<and> \<not> ed_newColumn draft);
          invalidXml = (if tool = E_clean then invalid_xml draft else None)
      in rbind (editor_expression tool draft columns) (\<lambda>e.
         rbind (if replace then Inr (ed_column draft) else validateNew columns output) (\<lambda>column.
           Inr (transform_result draft invalidXml replace column
             (if replace \<and> preserveTypes then ''cast_to_type(('' @ e @ ''), '' @ source @ '')''
              else e)))))"

definition needsPattern :: "editor_tool \<Rightarrow> editor_draft \<Rightarrow> bool" where
  "needsPattern tool draft \<longleftrightarrow>
     tool = E_replace \<or> tool = E_extract \<or> (tool = E_count \<and> ed_measure draft = M_matches)"

definition compileEditor ::
    "editor_tool \<Rightarrow> editor_draft \<Rightarrow> string list \<Rightarrow> bool \<Rightarrow> editor_operation result" where
  "compileEditor tool draft columns preserveTypes =
     (if tool = E_overview then throw ''Corpus overview reads the source without changing it.''
      else if tool = E_delete then delete_operation draft columns
      else if tool \<noteq> E_combine \<and> ed_column draft \<notin> set columns then throw ''Choose a column.''
      else if tool = E_categories then category_operation draft
      else if needsPattern tool draft \<and> ed_pattern draft = []
      then throw ''Enter text or a pattern to find.''
      else if tool = E_split then split_operation draft columns
      else transform_operation tool draft columns preserveTypes)"

end
