(* ===== verification/Editor_Laws.thy ===== *)
theory Editor_Laws
  imports Editor
begin

text \<open>
  Lemmas on the data editor: the statements it compiles are closed SQL, the columns it adds are
  new, and a template reads back as the sequence of texts and columns it was written from.
\<close>

subsection \<open>Closed statements\<close>

lemma closed_raw_literal: "CHR 0x27 \<notin> set s \<Longrightarrow> sql_closed (raw_literal s)"
  using lit.closed_enc [of s] by (simp add: raw_literal_def literal_string_def replaceAll_char_idle)

lemma closed_bool_sql [simp]: "sql_closed (bool_sql b)"
  by (rule closedI) (simp add: bool_sql_def)

lemma closed_text_source [simp]: "sql_closed (text_source draft)"
  by (rule closedI) (simp add: text_source_def closed_scans)

lemma closed_arguments_call: "\<forall>x \<in> set xs. sql_closed x \<Longrightarrow> list_all plain_char name \<Longrightarrow>
    sql_closed (name @ ''('' @ join '', '' xs @ '')'')"
  using closed_plain [of name] closed_comma_join [of xs]
  by (intro closedI) (simp add: closed_scans)

lemma closed_matches_sql [simp]: "sql_closed (matches_sql draft)"
  using closed_arguments_call [of "[text_source draft, literal_string (ed_pattern draft),
      bool_sql (ed_regex draft), bool_sql (ed_whole draft), bool_sql (ed_sensitive draft)]" "''wordflow_matches''"]
  by (simp add: matches_sql_def plain_char_def del: join.simps)

lemma closed_replace_sql [simp]: "sql_closed (replace_sql draft)"
  using closed_arguments_call [of "[text_source draft, literal_string (ed_pattern draft),
      literal_string (ed_replacement draft), bool_sql (ed_regex draft), bool_sql (ed_whole draft),
      bool_sql (ed_sensitive draft), bool_sql (ed_first draft)]" "''wordflow_replace''"]
  by (simp add: replace_sql_def plain_char_def del: join.simps)

lemma closed_extract_sql: "extract_sql draft = Inr s \<Longrightarrow> sql_closed s"
  by (auto simp: extract_sql_def closed_scans closed_show_number intro!: closedI split: if_split_asm)

lemma closed_optional_literal [simp]: "sql_closed (optional_literal v)"
  by (rule closedI) (simp add: optional_literal_def closed_scans split: option.split)

lemma closed_space_join: "\<forall>s \<in> set ss. sql_closed s \<Longrightarrow> sql_closed (join '' '' ss)"
  by (rule closed_join) (simp_all add: closed_plain plain_char_def)

lemma closed_map_sql: "map_sql draft = Inr s \<Longrightarrow> sql_closed s"
proof -
  let ?when = "\<lambda>(key, v). ''WHEN CAST(to_json('' @ sql_identifier (ed_column draft) @
      '') AS VARCHAR) IS NOT DISTINCT FROM '' @ optional_literal key @ '' THEN '' @ optional_literal v"
  have "sql_closed (?when m)" for m
    by (rule closedI) (simp add: closed_scans split: prod.split)
  then have "sql_closed (join '' '' (map ?when (ed_mappings draft)))"
    by (intro closed_space_join) auto
  then show "map_sql draft = Inr s \<Longrightarrow> sql_closed s"
    by (auto simp: map_sql_def closed_scans intro!: closedI split: if_split_asm)
qed

lemma closed_regexp_replace:
  assumes "sql_closed source" and "CHR 0x27 \<notin> set regex" "CHR 0x27 \<notin> set replacement"
    "CHR 0x27 \<notin> set flags"
  shows "sql_closed (regexp_replace source regex replacement flags)"
  using assms closed_arguments_call [of "[source, raw_literal regex, raw_literal replacement,
       raw_literal flags]" "''regexp_replace''"]
  by (simp add: regexp_replace_def plain_char_def closed_raw_literal del: join.simps)

lemma closed_count_sql [simp]: "sql_closed (count_sql draft)"
  by (rule closedI)
    (simp add: count_sql_def closed_scans closed_regexp_replace spaces_class_def split: measure_kind.split)

lemma closed_clean_sql [simp]: "sql_closed (clean_sql draft)"
  by (cases "ed_clean draft"; rule closedI)
    (simp_all add: clean_sql_def Let_def closed_scans closed_regexp_replace spaces_class_def
      property_class_def url_regex_def)

lemma closed_column_part: "sql_closed (column_part missing name)"
  by (rule closedI) (simp add: column_part_def Let_def closed_scans)

lemma closed_template_parts:
  "template_parts columns missing acc template = Inr parts \<Longrightarrow> \<forall>p \<in> set parts. sql_closed p"
  by (induction columns missing acc template arbitrary: parts rule: template_parts.induct)
    (auto simp: flush_def Let_def closed_column_part split: if_split_asm)

lemma closed_combineExpression: "combineExpression template columns missing = Inr s \<Longrightarrow> sql_closed s"
proof -
  have "sql_closed '' || ''" by (rule closedI) simp
  then show "combineExpression template columns missing = Inr s \<Longrightarrow> sql_closed s"
    by (auto simp: combineExpression_def intro!: closed_join dest!: closed_template_parts
        split: if_split_asm)
qed

lemma closed_editor_expression: "editor_expression tool draft columns = Inr s \<Longrightarrow> sql_closed s"
  by (auto simp: editor_expression_def dest: closed_extract_sql closed_map_sql closed_combineExpression
      split: editor_tool.split_asm)

lemma closed_invalid_xml: "invalid_xml draft = Some s \<Longrightarrow> sql_closed s"
  by (auto simp: invalid_xml_def closed_scans intro!: closedI split: if_split_asm)

text \<open>Every SQL text of a compiled operation: the statement, the test for changes, the expressions.\<close>

fun change_texts :: "column_change \<Rightarrow> string list" where
  "change_texts (Transform_Many items) = map tc_expression items"
| "change_texts _ = []"

definition operation_texts :: "editor_operation \<Rightarrow> string list" where
  "operation_texts op = eo_select op # eo_changed op # change_texts (eo_change op)"

lemma closed_identifiers: "sql_closed (join '', '' (map sql_identifier names))"
  by (rule closed_comma_join) auto

lemma closed_literal_list: "sql_closed (join '', '' (map literal_string names))"
  by (rule closed_comma_join) auto

lemma closed_delete_operation:
  "delete_operation draft columns = Inr op \<Longrightarrow> list_all sql_closed (operation_texts op)"
  by (auto simp: delete_operation_def operation_texts_def closed_scans closed_identifiers intro!: closedI
      split: if_split_asm)

lemma closed_category_operation:
  "category_operation draft = Inr op \<Longrightarrow> list_all sql_closed (operation_texts op)"
  by (auto simp: category_operation_def operation_texts_def Let_def closed_scans closed_literal_list
      intro!: closedI split: option.split_asm)

lemma closed_split_call [simp]: "sql_closed (split_call draft)"
  using closed_arguments_call [of "[text_source draft,
      literal_string (json_strings (split_delimiters draft)), show_number (ed_parts draft),
      bool_sql (ed_right draft)]" "''wordflow_split''"]
  by (simp add: split_call_def plain_char_def closed_show_number del: join.simps)

lemma closed_split_item: "sql_closed (tc_expression (split_item draft index column))"
  by (rule closedI) (simp add: split_item_def closed_scans)

lemma closed_items:
  assumes "\<forall>i \<in> set items. sql_closed (tc_expression i)"
  shows "sql_closed (join '', '' (map (\<lambda>item.
    tc_expression item @ '' AS '' @ sql_identifier (tc_column item)) items))"
proof (rule closed_comma_join)
  have "sql_closed (tc_expression i @ '' AS '' @ sql_identifier (tc_column i))" if "i \<in> set items" for i
    using assms that by (intro closedI) (simp add: closed_scans)
  then show "\<forall>s \<in> set (map (\<lambda>item.
      tc_expression item @ '' AS '' @ sql_identifier (tc_column item)) items). sql_closed s" by auto
qed

lemma closed_split_operation:
  assumes "split_operation draft columns = Inr op"
  shows "list_all sql_closed (operation_texts op)"
proof -
  let ?items = "map (\<lambda>(index, column). split_item draft index column)
    (enumerate 0 (split_names (ed_column draft) columns 0 (number_nat (ed_parts draft))))"
  have items: "\<forall>i \<in> set ?items. sql_closed (tc_expression i)" by (auto simp: closed_split_item)
  show ?thesis using assms closed_items [OF items] items
    by (auto simp: split_operation_def operation_texts_def Let_def closed_scans list_all_iff
        closed_scan_end [OF closed_split_item] intro!: closedI split: if_split_asm)
qed

lemma closed_transform_result:
  assumes "sql_closed e" and "\<And>x. invalidXml = Some x \<Longrightarrow> sql_closed x"
  shows "list_all sql_closed (operation_texts (transform_result draft invalidXml replace column e))"
proof -
  have "sql_closed (case invalidXml of
      Some x \<Rightarrow> if ed_malformedOnly draft then '' WHERE '' @ x else [] | None \<Rightarrow> [])"
    using assms(2) by (auto simp: closed_scans intro!: closedI split: option.split)
  then show ?thesis using assms(1)
    by (auto simp: operation_texts_def transform_result_def closed_scans intro!: closedI)
qed

lemma closed_transform_operation:
  "transform_operation tool draft columns preserveTypes = Inr op \<Longrightarrow>
   list_all sql_closed (operation_texts op)"
proof -
  have cast: "sql_closed e \<Longrightarrow>
      sql_closed (''cast_to_type(('' @ e @ ''), '' @ sql_identifier (ed_column draft) @ '')'')" for e
    by (rule closedI) (simp add: closed_scans)
  show "transform_operation tool draft columns preserveTypes = Inr op \<Longrightarrow>
    list_all sql_closed (operation_texts op)"
    unfolding transform_operation_def Let_def
    by (auto intro!: closed_transform_result dest!: closed_editor_expression dest: closed_invalid_xml
        cast split: if_split_asm simp del: append.simps)
qed

lemma closed_compileEditor:
  "compileEditor tool draft columns preserveTypes = Inr op \<Longrightarrow> list_all sql_closed (operation_texts op)"
  by (auto simp: compileEditor_def dest: closed_delete_operation closed_category_operation
      closed_split_operation closed_transform_operation split: if_split_asm)

subsection \<open>New columns are new\<close>

lemma split_names_fresh:
  "name \<in> set (split_names column reserved index n) \<Longrightarrow> fold_case name \<notin> fold_case ` set reserved"
proof (induction column reserved index n rule: split_names.induct)
  case (2 column reserved index n)
  then show ?case using uniqueColumnName_free by (fastforce simp: Let_def)
qed simp

lemma split_names_distinct: "distinct (map fold_case (split_names column reserved index n))"
proof (induction column reserved index n rule: split_names.induct)
  case (2 column reserved index n)
  then show ?case using split_names_fresh by (fastforce simp: Let_def)
qed simp

lemma length_split_names [simp]: "length (split_names column reserved index n) = n"
  by (induction column reserved index n rule: split_names.induct) (simp_all add: Let_def)

definition added_columns :: "column_change \<Rightarrow> string list" where
  "added_columns change =
     (case change of
        Transform_Many items \<Rightarrow> map tc_column (filter (\<lambda>i. \<not> tc_replace i) items)
      | _ \<Rightarrow> [])"

lemma split_operation_added:
  assumes "split_operation draft columns = Inr op"
  shows "added_columns (eo_change op) = eo_outputs op" and
    "eo_outputs op = split_names (ed_column draft) columns 0 (number_nat (ed_parts draft))"
proof -
  have not_replaced: "filter (\<lambda>i. \<not> tc_replace i) (map (\<lambda>(index, column). split_item draft index column) xs) =
      map (\<lambda>(index, column). split_item draft index column) xs" for xs
    by (rule filter_True) (auto simp: split_item_def)
  have names: "map (tc_column \<circ> (\<lambda>(index, column). split_item draft index column)) (enumerate n ys) = ys" for n ys
    by (induction ys arbitrary: n) (simp_all add: split_item_def)
  show "added_columns (eo_change op) = eo_outputs op"
    "eo_outputs op = split_names (ed_column draft) columns 0 (number_nat (ed_parts draft))"
    using assms by (auto simp: split_operation_def added_columns_def Let_def not_replaced names split: if_split_asm)
qed

definition example_split :: editor_draft where
  "example_split = (initialEditorDraft ''a'')\<lparr>ed_delimiters := [''; --''], ed_newlines := True\<rparr>"

lemma example_split_compiles:
  "\<exists>op. compileEditor E_split example_split [''a'', ''A_1''] False = Inr op \<and>
     added_columns (eo_change op) = [''a_1 2'', ''a_2'']"
proof -
  have "split_delimiters example_split = [''; --'', [CHR 0x0D, CHR 0x0A], [CHR 0x0A], [CHR 0x0D]]"
    by code_simp
  moreover have "isInteger (Finite 2)" "\<not> num_less (Finite 2) (Finite 2)" "\<not> num_less (Finite 50) (Finite 2)"
    by (simp_all add: isInteger_def)
  ultimately obtain op where op: "split_operation example_split [''a'', ''A_1''] = Inr op"
    by (simp add: split_operation_def example_split_def initialEditorDraft_def Let_def)
  then have "compileEditor E_split example_split [''a'', ''A_1''] False = Inr op"
    by (simp add: compileEditor_def needsPattern_def example_split_def initialEditorDraft_def)
  moreover have "split_names ''a'' [''a'', ''A_1''] 0 2 = [''a_1 2'', ''a_2'']" by code_simp
  ultimately show ?thesis
    using split_operation_added [OF op]
    by (simp add: example_split_def initialEditorDraft_def number_nat_def)
qed

text \<open>
  C8: the data editor never shadows a column: the columns an operation adds (every output it does
  not write in place) are pairwise different and different from all existing columns, under the ASCII
  case folding of DuckDB names, for every tool and draft.
\<close>

theorem compileEditor_adds_new_columns:
  assumes "compileEditor tool draft columns preserveTypes = Inr op"
  shows "distinct (map fold_case (added_columns (eo_change op))) \<and>
    (\<forall>name \<in> set (added_columns (eo_change op)). fold_case name \<notin> fold_case ` set columns)"
proof (cases "tool = E_split")
  case True
  then have split: "split_operation draft columns = Inr op"
    using assms by (auto simp: compileEditor_def split: if_split_asm)
  from split_operation_added [OF split] show ?thesis
    using split_names_distinct split_names_fresh by auto
next
  case False
  then show ?thesis using assms
    by (auto simp: compileEditor_def delete_operation_def category_operation_def transform_operation_def
        transform_result_def added_columns_def validateNew_def Let_def
        split: if_split_asm option.split_asm)
qed

theorem compileEditor_adds_new_columns_witness:
  "\<exists>op. compileEditor E_split example_split [''a'', ''A_1''] False = Inr op \<and>
     added_columns (eo_change op) = [''a_1 2'', ''a_2''] \<and>
     fold_case ''a_1 2'' \<notin> fold_case ` set [''a'', ''A_1'']"
  using example_split_compiles compileEditor_adds_new_columns by (metis list.set_intros(1))



subsection \<open>Templates read back\<close>

datatype segment = Text_Segment string | Column_Segment string

definition escape_braces :: "string \<Rightarrow> string" where
  "escape_braces s = concat (map (\<lambda>c. if c = CHR ''{'' \<or> c = CHR ''}'' then [c, c] else [c]) s)"

fun print_segment :: "segment \<Rightarrow> string" where
  "print_segment (Text_Segment s) = escape_braces s"
| "print_segment (Column_Segment name) = ''{'' @ name @ ''}''"

fun segment_sql :: "missing_mode \<Rightarrow> segment \<Rightarrow> string" where
  "segment_sql missing (Text_Segment s) = literal_string s"
| "segment_sql missing (Column_Segment name) = column_part missing name"

text \<open>Texts are not empty and not adjacent; a column is available and its name can be written.\<close>

fun is_text :: "segment \<Rightarrow> bool" where
  "is_text (Text_Segment _) = True"
| "is_text (Column_Segment _) = False"

fun writable_segment :: "string list \<Rightarrow> segment \<Rightarrow> bool" where
  "writable_segment columns (Text_Segment s) = (s \<noteq> [])"
| "writable_segment columns (Column_Segment name) =
     (name \<in> set columns \<and> CHR ''}'' \<notin> set name \<and> (name = [] \<or> hd name \<noteq> CHR ''{''))"

fun separated :: "segment list \<Rightarrow> bool" where
  "separated (x # y # rest) = (\<not> (is_text x \<and> is_text y) \<and> separated (y # rest))"
| "separated _ = True"

lemma template_escaped:
  "template_parts columns missing acc (escape_braces s @ rest) =
   template_parts columns missing (acc @ s) rest"
  by (induction s arbitrary: acc) (auto simp: escape_braces_def)

lemma template_column:
  assumes "name \<in> set columns" "CHR ''}'' \<notin> set name" "name = [] \<or> hd name \<noteq> CHR ''{''"
  shows "template_parts columns missing acc ((''{'' @ name @ ''}'') @ rest) =
    rbind (template_parts columns missing [] rest) (\<lambda>parts.
      Inr (flush acc @ [column_part missing name] @ parts))"
proof -
  have "hd (name @ CHR ''}'' # rest) \<noteq> CHR ''{''" using assms(3) by (cases name) auto
  moreover have "takeWhile (\<lambda>x. x \<noteq> CHR ''}'') (name @ CHR ''}'' # rest) = name"
    using assms(2) by (induction name) auto
  ultimately show ?thesis using assms(1) by (simp add: Let_def)
qed

lemma template_segments:
  "list_all (writable_segment columns) segs \<Longrightarrow> separated segs \<Longrightarrow>
   acc = [] \<or> segs = [] \<or> \<not> is_text (hd segs) \<Longrightarrow>
   template_parts columns missing acc (concat (map print_segment segs)) =
     Inr (flush acc @ map (segment_sql missing) segs)"
proof (induction segs arbitrary: acc)
  case (Cons seg segs)
  have sep: "separated segs" using Cons.prems(2) by (cases segs) auto
  show ?case
  proof (cases seg)
    case (Text_Segment s)
    then have "segs = [] \<or> \<not> is_text (hd segs)" using Cons.prems(2) by (cases segs) auto
    moreover have "acc = []" "s \<noteq> []" using Cons.prems Text_Segment by auto
    ultimately show ?thesis
      using Cons.IH [of s] Cons.prems sep Text_Segment by (simp add: template_escaped flush_def)
  next
    case (Column_Segment name)
    then show ?thesis
      using Cons.IH [of "[]"] Cons.prems sep template_column [of name columns missing acc]
      by (simp add: flush_def)
  qed
qed simp

text \<open>
  Templates mean what they show: writing a sequence of texts and columns as a template, with
  braces of the texts doubled, and compiling it gives the concatenation of exactly those texts and
  columns in that order.
\<close>

theorem combineExpression_segments:
  assumes "segs \<noteq> []" and "separated segs" and "list_all (writable_segment columns) segs"
  shows "combineExpression (concat (map print_segment segs)) columns missing =
    Inr (join '' || '' (map (segment_sql missing) segs))"
  using assms template_segments [of columns segs "[]" missing]
  by (simp add: combineExpression_def flush_def)

theorem combineExpression_segments_witness:
  "combineExpression ''a{{{n}}}'' [''n''] Missing_missing =
     Inr (literal_string ''a{'' @ '' || '' @ column_part Missing_missing ''n'' @ '' || '' @ literal_string ''}'')"
  using combineExpression_segments
      [of "[Text_Segment ''a{'', Column_Segment ''n'', Text_Segment ''}'']" "[''n'']" Missing_missing]
  by (simp add: escape_braces_def)

subsection \<open>Deleting columns\<close>

text \<open>
  Deleting columns always leaves a column: for a block with distinct column names, a compiled
  delete only names columns of the block and some column of the block is not deleted.
\<close>

theorem delete_keeps_a_column:
  assumes "compileEditor E_delete draft columns preserveTypes = Inr op" and "distinct columns"
  shows "set (ed_deleted draft) \<subset> set columns"
proof -
  have d: "length (ed_deleted draft) < length columns" "set (ed_deleted draft) \<subseteq> set columns"
    using assms(1) by (auto simp: compileEditor_def delete_operation_def list_ex_iff split: if_split_asm)
  have "card (set (ed_deleted draft)) < card (set columns)"
    using d(1) assms(2) card_length [of "ed_deleted draft"] by (simp add: distinct_card)
  then show ?thesis using d(2) by auto
qed

theorem delete_keeps_a_column_witness:
  "set (ed_deleted ((initialEditorDraft ''a'')\<lparr>ed_deleted := [''a'', ''a'']\<rparr>)) \<subset> set [''a'', ''b'', ''c'']"
proof -
  have "\<exists>op. compileEditor E_delete ((initialEditorDraft ''a'')\<lparr>ed_deleted := [''a'', ''a'']\<rparr>)
      [''a'', ''b'', ''c''] False = Inr op"
    by (simp add: compileEditor_def delete_operation_def)
  then show ?thesis using delete_keeps_a_column [of _ "[''a'', ''b'', ''c'']"] by fastforce
qed

end
