(* ===== verification/Grouping.thy ===== *)
theory Grouping
  imports Editor_Laws
begin

text \<open>
  Grouping, aggregation and de-duplication, \<open>preprocessing/grouping/sql.ts\<close>, with the
  \<open>Transformation\<close> record of \<open>preprocessing/projectPreprocessing.ts\<close>. The summary choices are a
  plain object, so a column without a choice is looked up on \<open>Object.prototype\<close> as well.
\<close>

subsection \<open>Groups\<close>

record column_mapping =
  cm_source :: string
  cm_column :: string
  cm_output :: string

record transformation =
  tr_select :: string
  tr_mappings :: "column_mapping list"
  tr_computedColumns :: "string list option"
  tr_currentInput :: "string option"

datatype period = P_year | P_month | P_day

fun period_text :: "period \<Rightarrow> string" where
  "period_text P_year = ''year''"
| "period_text P_month = ''month''"
| "period_text P_day = ''day''"

datatype grouping = Group_values | Group_dates period | Group_ranges string string

definition numericSql :: "string \<Rightarrow> string result" where
  "numericSql v = (if \<not> numeric_text (trim v) then throw ''Enter a numeric value.'' else Inr (trim v))"

definition group_value :: "string \<Rightarrow> grouping \<Rightarrow> arrow_field \<Rightarrow> string result" where
  "group_value source grouping field =
     (case grouping of
        Group_values \<Rightarrow> Inr source
      | Group_dates p \<Rightarrow>
          if \<not> isArrowTemporalField field then throw ''Choose a date or datetime column.''
          else Inr (''date_trunc('' @ literal_string (period_text p) @ '', '' @ source @ '')'')
      | Group_ranges start w \<Rightarrow>
          if \<not> isArrowIntegerField field \<and> \<not> isArrowFloatField field
          then throw ''Choose a numeric column.''
          else rbind (numericSql w) (\<lambda>width.
            if \<not> num_less (Finite 0) (Number width) then throw ''Range width must be positive.''
            else rbind (numericSql start) (\<lambda>s.
              Inr (''floor(('' @ source @ '' - '' @ s @ '') / '' @ width @ '')''))))"

definition groupExpression :: "string \<Rightarrow> grouping \<Rightarrow> arrow_field \<Rightarrow> string result" where
  "groupExpression column grouping field =
     rbind (group_value (sql_identifier column) grouping field) (\<lambda>v.
       Inr (''CASE WHEN '' @ emptyPredicate column (Some field) @ '' THEN NULL ELSE '' @ v @ '' END''))"

text \<open>The label of a range, \<open>start <= value < end\<close> with the mathematical sign in UTF-8.\<close>

definition range_label :: "string \<Rightarrow> string \<Rightarrow> string" where
  "range_label width start =
     ''CAST(value * '' @ width @ '' + '' @ start @ '' AS VARCHAR) || '' @
     raw_literal ('' '' @ [CHR 0xE2, CHR 0x89, CHR 0xA4] @ '' value < '') @
     '' || CAST((value + 1) * '' @ width @ '' + '' @ start @ '' AS VARCHAR)''"

definition groupCountSql :: "string \<Rightarrow> string \<Rightarrow> grouping option \<Rightarrow> string result" where
  "groupCountSql source expression grouping =
     rbind
       (case grouping of
          Some (Group_ranges start width) \<Rightarrow>
            rbind (numericSql width) (\<lambda>w. rbind (numericSql start) (\<lambda>s. Inr (range_label w s)))
        | _ \<Rightarrow> Inr ''CAST(value AS VARCHAR)'')
       (\<lambda>label. Inr (''SELECT CAST(value AS VARCHAR) AS value, '' @ label @
          '' AS label, CAST(count(*) AS VARCHAR) AS rows FROM (SELECT '' @ expression @
          '' AS value FROM '' @ table source @
          '') GROUP BY value ORDER BY count(*) DESC, value NULLS LAST LIMIT 51''))"

definition groupSelect :: "string \<Rightarrow> string \<Rightarrow> string option \<Rightarrow> string" where
  "groupSelect source expression v =
     ''SELECT * FROM '' @ table source @ '' WHERE CAST(('' @ expression @
     '') AS VARCHAR) IS NOT DISTINCT FROM '' @ optional_literal v"

subsection \<open>Aggregation\<close>

datatype summary =
    Sum_leave | Sum_join_text | Sum_distinct_values | Sum_count_distinct | Sum_first | Sum_last
  | Sum_sum | Sum_mean | Sum_min | Sum_max | Sum_earliest | Sum_latest | Sum_earliest_latest

fun summary_text :: "summary \<Rightarrow> string" where
  "summary_text Sum_leave = ''leave''"
| "summary_text Sum_join_text = ''join_text''"
| "summary_text Sum_distinct_values = ''distinct_values''"
| "summary_text Sum_count_distinct = ''count_distinct''"
| "summary_text Sum_first = ''first''"
| "summary_text Sum_last = ''last''"
| "summary_text Sum_sum = ''sum''"
| "summary_text Sum_mean = ''mean''"
| "summary_text Sum_min = ''min''"
| "summary_text Sum_max = ''max''"
| "summary_text Sum_earliest = ''earliest''"
| "summary_text Sum_latest = ''latest''"
| "summary_text Sum_earliest_latest = ''earliest_latest''"

definition summaryOptions :: "arrow_field \<Rightarrow> summary list" where
  "summaryOptions field =
     [Sum_leave] @
     (if isArrowStringField field \<or> isArrowDictionaryField field
      then [Sum_join_text, Sum_distinct_values]
      else if isArrowTemporalField field then [Sum_earliest_latest, Sum_earliest, Sum_latest]
      else if isArrowIntegerField field \<or> isArrowFloatField field
      then [Sum_sum, Sum_mean, Sum_min, Sum_max] else []) @
     [Sum_count_distinct, Sum_first, Sum_last]"

definition aggregate_function :: "summary \<Rightarrow> string" where
  "aggregate_function s =
     (case s of
        Sum_mean \<Rightarrow> ''avg'' | Sum_earliest \<Rightarrow> ''min'' | Sum_latest \<Rightarrow> ''max'' | Sum_first \<Rightarrow> ''first''
      | Sum_last \<Rightarrow> ''last'' | Sum_sum \<Rightarrow> ''sum'' | Sum_min \<Rightarrow> ''min'' | Sum_max \<Rightarrow> ''max'' | _ \<Rightarrow> [])"

text \<open>The expressions and name suffixes a summary adds for a column.\<close>

definition summary_outputs :: "string \<Rightarrow> string \<Rightarrow> summary \<Rightarrow> string \<Rightarrow> (string \<times> string) list" where
  "summary_outputs separator order s v =
     (let suffix = replaceAll_char (CHR ''_'') '' '' (summary_text s);
          text_value = ''CAST('' @ v @ '' AS VARCHAR)'' in
      case s of
        Sum_leave \<Rightarrow> []
      | Sum_earliest_latest \<Rightarrow>
          [(''min('' @ v @ '')'', ''earliest''), (''max('' @ v @ '')'', ''latest'')]
      | Sum_join_text \<Rightarrow>
          [(''string_agg('' @ text_value @ '', '' @ literal_string separator @ order @ '')'', suffix)]
      | Sum_distinct_values \<Rightarrow>
          [(''string_agg(DISTINCT '' @ text_value @ '', '' @ literal_string separator @
            '' ORDER BY '' @ text_value @ '')'', suffix)]
      | Sum_count_distinct \<Rightarrow> [(''count(DISTINCT '' @ v @ '')'', suffix)]
      | _ \<Rightarrow> [(aggregate_function s @ ''('' @ v @
            (if s = Sum_first \<or> s = Sum_last then order else []) @ '')'', suffix)])"

text \<open>\<open>named\<close>: the state is the reserved names and the selections so far.\<close>

type_synonym selection_state = "string list \<times> string list"

definition named :: "string \<Rightarrow> string \<Rightarrow> selection_state \<Rightarrow> selection_state" where
  "named expression stem st =
     (case st of (reserved, selections) \<Rightarrow>
        let name = uniqueColumnName stem reserved
        in (reserved @ [name], selections @ [expression @ '' AS '' @ sql_identifier name]))"

definition aggregate_column ::
    "string list \<Rightarrow> (string \<rightharpoonup> summary) \<Rightarrow> string \<Rightarrow> string \<Rightarrow> string \<times> arrow_field \<Rightarrow>
     selection_state \<Rightarrow> selection_state result" where
  "aggregate_column keys choices separator order column st =
     (case column of (name, field) \<Rightarrow>
        if name \<in> set keys then Inr st
        else case get_property choices name of
          Absent \<Rightarrow> Inr st
        | Inherited \<Rightarrow> throw (''Summary is unavailable for '' @ name @ ''.'')
        | Own s \<Rightarrow>
            if s = Sum_leave then Inr st
            else if s \<notin> set (summaryOptions field)
            then throw (''Summary is unavailable for '' @ name @ ''.'')
            else Inr (fold (\<lambda>(expression, suffix). named expression (name @ '' '' @ suffix))
                   (summary_outputs separator order s (sql_identifier name)) st))"

definition sort_order :: "(string \<times> bool) option \<Rightarrow> string" where
  "sort_order sort_by =
     (case sort_by of
        None \<Rightarrow> []
      | Some (column, descending) \<Rightarrow>
          '' ORDER BY '' @ sql_identifier column @ '' '' @ (if descending then ''DESC'' else ''ASC''))"

definition aggregate_selections ::
    "(string \<times> arrow_field) list \<Rightarrow> string list \<Rightarrow> (string \<rightharpoonup> summary) \<Rightarrow> string \<Rightarrow>
     (string \<times> bool) option \<Rightarrow> selection_state result" where
  "aggregate_selections columns keys choices separator sort_by =
     rfold (aggregate_column keys choices separator (sort_order sort_by)) columns
       (named ''count(*)'' ''row count'' (keys, map sql_identifier keys))"

definition aggregateOperation ::
    "string \<Rightarrow> (string \<times> arrow_field) list \<Rightarrow> string list \<Rightarrow> (string \<rightharpoonup> summary) \<Rightarrow> string \<Rightarrow>
     (string \<times> bool) option \<Rightarrow> transformation result" where
  "aggregateOperation source columns keys choices separator sort_by =
     (if keys = [] \<or> list_ex (\<lambda>key. key \<notin> fst ` set columns) keys
      then throw ''Choose grouping columns.''
      else if (case sort_by of Some (c, _) \<Rightarrow> c \<notin> fst ` set columns | None \<Rightarrow> False)
      then throw ''Choose a valid sort column.''
      else rbind (aggregate_selections columns keys choices separator sort_by)
        (\<lambda>(reserved, selections). Inr
          \<lparr>tr_select = ''SELECT '' @ join '', '' selections @ '' FROM '' @ table source @ '' GROUP BY '' @
             join '', '' (map sql_identifier keys),
           tr_mappings = map (\<lambda>column. \<lparr>cm_source = source, cm_column = column, cm_output = column\<rparr>) keys,
           tr_computedColumns = Some (filter (\<lambda>name. name \<notin> set keys) reserved), tr_currentInput = None\<rparr>))"

subsection \<open>De-duplication\<close>

record normalisation =
  norm_urls :: bool
  norm_punctuation :: bool
  norm_symbols :: bool
  norm_whitespace :: bool
  norm_ignoreCase :: bool

definition applied :: "bool \<Rightarrow> (string \<Rightarrow> string) \<Rightarrow> string \<Rightarrow> string" where
  "applied b f s = (if b then f s else s)"

definition key_expression ::
    "(string \<times> arrow_field) list \<Rightarrow> normalisation \<Rightarrow> string \<Rightarrow> string" where
  "key_expression columns n key =
     (case find (\<lambda>c. fst c = key) columns of
        Some (_, field) \<Rightarrow>
          if \<not> isArrowStringField field \<and> \<not> isArrowDictionaryField field then sql_identifier key
          else applied (norm_whitespace n) (\<lambda>v. regexp_replace v spaces_class [] ''g'')
            (applied (norm_symbols n) (\<lambda>v. regexp_replace v (property_class ''S'') [] ''g'')
              (applied (norm_punctuation n) (\<lambda>v. regexp_replace v (property_class ''P'') [] ''g'')
                (applied (norm_urls n) (\<lambda>v. regexp_replace v url_regex [] ''gi'')
                  (applied (norm_ignoreCase n) (\<lambda>v. ''lower('' @ v @ '')'')
                    (''CAST('' @ sql_identifier key @ '' AS VARCHAR)'')))))
      | None \<Rightarrow> sql_identifier key)"

text \<open>The working column names of the query and the name of the kept flag.\<close>

record helper_names =
  hn_order :: string
  hn_rank :: string
  hn_size :: string
  hn_kept :: string

definition helper_columns :: "string list \<Rightarrow> helper_names" where
  "helper_columns names =
     (let order = uniqueColumnName ''__wf_order'' names;
          rank = uniqueColumnName ''__wf_rank'' (names @ [order]);
          size = uniqueColumnName ''__wf_size'' (names @ [order, rank])
      in \<lparr>hn_order = order, hn_rank = rank, hn_size = size, hn_kept = uniqueColumnName ''kept'' names\<rparr>)"

definition ranked_prefix :: "string \<Rightarrow> string \<Rightarrow> helper_names \<Rightarrow> string" where
  "ranked_prefix source parts h =
     ''WITH incoming AS (SELECT *, row_number() OVER () AS '' @ sql_identifier (hn_order h) @ '' FROM '' @
     table source @ ''), ranked AS (SELECT *, row_number() OVER (PARTITION BY '' @ parts @
     '' ORDER BY '' @ sql_identifier (hn_order h) @ '') AS '' @ sql_identifier (hn_rank h) @
     '', count(*) OVER (PARTITION BY '' @ parts @ '') AS '' @ sql_identifier (hn_size h) @
     '' FROM incoming)''"

record deduplication =
  dd_kept :: transformation
  dd_duplicates :: transformation
  dd_keptColumn :: string

definition excluded :: "helper_names \<Rightarrow> string" where
  "excluded h = join '', '' [sql_identifier (hn_order h), sql_identifier (hn_rank h), sql_identifier (hn_size h)]"

definition kept_select :: "string \<Rightarrow> string \<Rightarrow> helper_names \<Rightarrow> string" where
  "kept_select source parts h =
     ranked_prefix source parts h @ '' SELECT * EXCLUDE ('' @ excluded h @ '') FROM ranked WHERE '' @
     sql_identifier (hn_rank h) @ ''=1 ORDER BY '' @ sql_identifier (hn_order h)"

definition duplicates_select :: "string \<Rightarrow> string \<Rightarrow> helper_names \<Rightarrow> string" where
  "duplicates_select source parts h =
     ranked_prefix source parts h @ '' SELECT * EXCLUDE ('' @ excluded h @ ''), '' @
     sql_identifier (hn_rank h) @ ''=1 AS '' @ sql_identifier (hn_kept h) @ '' FROM ranked WHERE '' @
     sql_identifier (hn_size h) @ ''>1 ORDER BY '' @ sql_identifier (hn_order h)"

definition deduplicateOperations ::
    "string \<Rightarrow> (string \<times> arrow_field) list \<Rightarrow> string list \<Rightarrow> normalisation \<Rightarrow> deduplication result" where
  "deduplicateOperations source columns keys n =
     (if keys = [] \<or> list_ex (\<lambda>key. key \<notin> fst ` set columns) keys
      then throw ''Choose columns to compare.''
      else
        let names = map fst columns;
            h = helper_columns names;
            parts = join '', '' (map (key_expression columns n) keys);
            mappings = map (\<lambda>column. \<lparr>cm_source = source, cm_column = column, cm_output = column\<rparr>) names
        in Inr
          \<lparr>dd_kept = \<lparr>tr_select = kept_select source parts h, tr_mappings = mappings,
             tr_computedColumns = None, tr_currentInput = None\<rparr>,
           dd_duplicates = \<lparr>tr_select = duplicates_select source parts h, tr_mappings = mappings,
             tr_computedColumns = Some [hn_kept h], tr_currentInput = None\<rparr>,
           dd_keptColumn = hn_kept h\<rparr>)"

subsection \<open>Output names\<close>

lemma named_reserved:
  assumes "distinct (map fold_case (fst st))"
  shows "distinct (map fold_case (fst (named e stem st)))"
    and "\<exists>added. fst (named e stem st) = fst st @ added"
  using assms uniqueColumnName_free [of stem "fst st"]
  by (cases st; simp add: named_def Let_def)+

lemma fold_named_reserved:
  "distinct (map fold_case (fst st)) \<Longrightarrow>
   distinct (map fold_case (fst (fold (\<lambda>(e, suffix). named e (name @ '' '' @ suffix)) outs st))) \<and>
   (\<exists>added. fst (fold (\<lambda>(e, suffix). named e (name @ '' '' @ suffix)) outs st) = fst st @ added)"
proof (induction outs arbitrary: st)
  case (Cons out outs)
  obtain e suffix where out: "out = (e, suffix)" by (cases out)
  from named_reserved [OF Cons.prems, of e "name @ '' '' @ suffix"]
  obtain added where "fst (named e (name @ '' '' @ suffix) st) = fst st @ added"
    and "distinct (map fold_case (fst (named e (name @ '' '' @ suffix) st)))" by blast
  with Cons.IH [of "named e (name @ '' '' @ suffix) st"] show ?case by (auto simp: out)
qed simp

lemma aggregate_column_reserved:
  assumes "aggregate_column keys choices separator order column st = Inr st'"
    and "distinct (map fold_case (fst st))"
  shows "distinct (map fold_case (fst st')) \<and> (\<exists>added. fst st' = fst st @ added)"
proof -
  have "st' = st \<or> (\<exists>name outs. st' = fold (\<lambda>(e, suffix). named e (name @ '' '' @ suffix)) outs st)"
    using assms(1)
    by (auto simp: aggregate_column_def split: prod.split_asm property.split_asm if_split_asm)
  then show ?thesis using assms(2) fold_named_reserved [OF assms(2)] by auto
qed

lemma aggregate_reserved:
  "rfold (aggregate_column keys choices separator order) columns st = Inr st' \<Longrightarrow>
   distinct (map fold_case (fst st)) \<Longrightarrow>
   distinct (map fold_case (fst st')) \<and> (\<exists>added. fst st' = fst st @ added)"
proof (induction columns arbitrary: st)
  case (Cons column columns)
  then obtain st1 where st1: "aggregate_column keys choices separator order column st = Inr st1"
    and rest: "rfold (aggregate_column keys choices separator order) columns st1 = Inr st'" by auto
  from aggregate_column_reserved [OF st1 Cons.prems(2)] Cons.IH [OF rest] show ?case by auto
qed simp

text \<open>
  An aggregation names its outputs without clashes: for grouping keys that are distinct under
  case folding, the keys followed by the computed columns are pairwise distinct under case folding.
\<close>

theorem aggregateOperation_outputs_distinct:
  assumes "aggregateOperation source columns keys choices separator sort_by = Inr tr"
    and "distinct (map fold_case keys)"
  shows "\<exists>computed. tr_computedColumns tr = Some computed \<and>
    distinct (map fold_case (map cm_output (tr_mappings tr) @ computed))"
proof -
  obtain reserved selections where
    st: "aggregate_selections columns keys choices separator sort_by = Inr (reserved, selections)"
    and tr: "tr_computedColumns tr = Some (filter (\<lambda>name. name \<notin> set keys) reserved)"
      "map cm_output (tr_mappings tr) = keys"
    using assms(1) by (auto simp: aggregateOperation_def comp_def split: if_split_asm)
  have "distinct (map fold_case (fst (named ''count(*)'' ''row count'' (keys, map sql_identifier keys))))"
    and "\<exists>added. fst (named ''count(*)'' ''row count'' (keys, map sql_identifier keys)) = keys @ added"
    using named_reserved [of "(keys, map sql_identifier keys)"] assms(2) by auto
  then obtain added where reserved: "reserved = keys @ added" and d: "distinct (map fold_case reserved)"
    using aggregate_reserved [OF st [unfolded aggregate_selections_def]] by fastforce
  then have "\<forall>name \<in> set added. name \<notin> set keys" by auto
  then have "filter (\<lambda>name. name \<notin> set keys) reserved = added" using reserved by (simp add: filter_id_conv)
  then show ?thesis using tr reserved d by simp
qed

theorem aggregateOperation_outputs_distinct_witness:
  "case aggregateOperation ''t'' [(''Row Count'', Field ''a'' Arrow_Utf8 []), (''n'', Field ''n'' Arrow_Float [])]
     [''Row Count''] [''n'' \<mapsto> Sum_mean] '','' None of
   Inr tr \<Rightarrow> tr_computedColumns tr = Some [''row count 2'', ''n mean''] \<and>
     (\<exists>computed. tr_computedColumns tr = Some computed \<and>
        distinct (map fold_case (map cm_output (tr_mappings tr) @ computed)))
   | Inl _ \<Rightarrow> False"
proof -
  let ?r = "aggregateOperation ''t'' [(''Row Count'', Field ''a'' Arrow_Utf8 []), (''n'', Field ''n'' Arrow_Float [])]
     [''Row Count''] [''n'' \<mapsto> Sum_mean] '','' None"
  have "case ?r of Inr tr \<Rightarrow> tr_computedColumns tr = Some [''row count 2'', ''n mean''] | Inl _ \<Rightarrow> False"
    by code_simp
  then show ?thesis
    using aggregateOperation_outputs_distinct
      [of "''t''" "[(''Row Count'', Field ''a'' Arrow_Utf8 []), (''n'', Field ''n'' Arrow_Float [])]"
        "[''Row Count'']" "[''n'' \<mapsto> Sum_mean]" "'',''" None]
    by (cases ?r) auto
qed

text \<open>
  The working columns that de-duplication adds and excludes again never clash with each other or
  with a column of the block, so excluding them keeps every column of the block, and the flag column
  of the duplicates is new as well.
\<close>

theorem deduplicate_helper_columns_fresh:
  "distinct (map fold_case [hn_order (helper_columns names), hn_rank (helper_columns names),
     hn_size (helper_columns names)]) \<and>
   fold_case ` {hn_order (helper_columns names), hn_rank (helper_columns names),
     hn_size (helper_columns names), hn_kept (helper_columns names)} \<inter> fold_case ` set names = {}"
  using uniqueColumnName_free [of "''__wf_order''" names] uniqueColumnName_free [of "''kept''" names]
    uniqueColumnName_free [of "''__wf_rank''" "names @ [uniqueColumnName ''__wf_order'' names]"]
    uniqueColumnName_free [of "''__wf_size''" "names @ [uniqueColumnName ''__wf_order'' names,
       uniqueColumnName ''__wf_rank'' (names @ [uniqueColumnName ''__wf_order'' names])]"]
  by (auto simp: helper_columns_def Let_def)

text \<open>
  C40: a column whose name is a property of \<open>Object.prototype\<close> cannot be left out of an aggregation:
  with no summary chosen for it, \<open>aggregateOperation\<close> throws instead of leaving the column out.
\<close>

theorem aggregate_prototype_column_throws:
  assumes "name \<in> set object_prototype_names" and "choices name = None" and "name \<notin> set keys"
    and "keys \<noteq> []" and "set keys \<subseteq> fst ` set columns" and "(name, field) \<in> set columns"
  shows "\<exists>e. aggregateOperation source columns keys choices separator None = Inl e"
proof -
  have "\<exists>e. rfold (aggregate_column keys choices separator order) columns st = Inl e" for order st
    using assms(6)
  proof (induction columns arbitrary: st)
    case (Cons column rest)
    show ?case
    proof (cases "column = (name, field)")
      case True
      then show ?thesis using assms(1-3) by (simp add: aggregate_column_def get_property_def throw_def)
    next
      case False
      then show ?thesis using Cons
        by (cases "aggregate_column keys choices separator order column st") auto
    qed
  qed simp
  then obtain e where "aggregate_selections columns keys choices separator None = Inl e"
    unfolding aggregate_selections_def by blast
  moreover have "\<not> list_ex (\<lambda>key. key \<notin> fst ` set columns) keys"
    using assms(5) by (auto simp: list_ex_iff)
  ultimately show ?thesis using assms(4) by (simp add: aggregateOperation_def)
qed

definition example_group_columns :: "(string \<times> arrow_field) list" where
  "example_group_columns =
     [(''k'', Field ''k'' Arrow_Utf8 []), (''constructor'', Field ''constructor'' Arrow_Utf8 [])]"

theorem aggregate_prototype_column_throws_witness:
  "\<exists>e. aggregateOperation ''t'' example_group_columns [''k''] Map.empty '' '' None = Inl e"
  using aggregate_prototype_column_throws [of "''constructor''" Map.empty "[''k'']" example_group_columns
      "Field ''constructor'' Arrow_Utf8 []" "''t''" "'' ''"]
  by (simp add: object_prototype_names_def example_group_columns_def)

end
