(* ===== verification/Grouping_Laws.thy ===== *)
theory Grouping_Laws
  imports Grouping
begin

text \<open>The statements of grouping, aggregation and de-duplication are closed SQL.\<close>

lemma closed_numericSql: "numericSql v = Inr s \<Longrightarrow> sql_closed s"
  by (auto simp: numericSql_def closed_numeric_text split: if_split_asm)

lemma closed_group_value:
  "sql_closed source \<Longrightarrow> group_value source grouping field = Inr s \<Longrightarrow> sql_closed s"
  by (cases grouping)
    (auto simp: group_value_def closed_scans intro!: closedI dest!: closed_numericSql split: if_split_asm)

lemma closed_groupExpression: "groupExpression column grouping field = Inr s \<Longrightarrow> sql_closed s"
  by (auto simp: groupExpression_def closed_scans intro!: closedI dest!: closed_group_value [rotated])

lemma closed_range_label: "sql_closed w \<Longrightarrow> sql_closed s \<Longrightarrow> sql_closed (range_label w s)"
  by (rule closedI) (simp add: range_label_def closed_scans closed_raw_literal)

lemma closed_groupCountSql:
  assumes "groupCountSql source expression grouping = Inr s" and "sql_closed expression"
  shows "sql_closed s"
proof -
  have "sql_closed ''CAST(value AS VARCHAR)''" by (rule closedI) simp
  then obtain label where "sql_closed label" and s: "s = ''SELECT CAST(value AS VARCHAR) AS value, '' @ label @
          '' AS label, CAST(count(*) AS VARCHAR) AS rows FROM (SELECT '' @ expression @
          '' AS value FROM '' @ table source @
          '') GROUP BY value ORDER BY count(*) DESC, value NULLS LAST LIMIT 51''"
    using assms(1) closed_range_label
    by (auto simp: groupCountSql_def dest!: closed_numericSql split: option.split_asm grouping.split_asm)
  then show ?thesis using assms(2) by (intro closedI) (simp add: closed_scans)
qed

lemma closed_groupSelect: "sql_closed expression \<Longrightarrow> sql_closed (groupSelect source expression v)"
  by (rule closedI) (simp add: groupSelect_def closed_scans)

lemma closed_sort_order [simp]: "sql_closed (sort_order sort_by)"
  by (rule closedI) (simp add: sort_order_def closed_scans split: option.split prod.split)

lemma closed_aggregate_function [simp]: "sql_closed (aggregate_function s)"
  by (cases s) (auto simp: aggregate_function_def intro!: closedI)

lemma closed_summary_outputs:
  "sql_closed v \<Longrightarrow> sql_closed order \<Longrightarrow> (e, suffix) \<in> set (summary_outputs separator order s v) \<Longrightarrow>
   sql_closed e"
  by (cases s) (auto simp: summary_outputs_def Let_def closed_scans intro!: closedI)

lemma closed_named:
  "sql_closed e \<Longrightarrow> list_all sql_closed (snd st) \<Longrightarrow> list_all sql_closed (snd (named e stem st))"
  by (cases st) (auto simp: named_def Let_def closed_scans intro!: closedI)

lemma closed_fold_named:
  "\<forall>(e, suffix) \<in> set outs. sql_closed e \<Longrightarrow> list_all sql_closed (snd st) \<Longrightarrow>
   list_all sql_closed (snd (fold (\<lambda>(e, suffix). named e (name @ '' '' @ suffix)) outs st))"
proof (induction outs arbitrary: st)
  case (Cons out outs)
  then show ?case
    using Cons.IH [of "named (fst out) (name @ '' '' @ snd out) st"] closed_named [of "fst out" st]
    by (simp add: case_prod_beta)
qed simp

lemma closed_aggregate_column:
  assumes "aggregate_column keys choices separator order column st = Inr st'"
    and "sql_closed order" and "list_all sql_closed (snd st)"
  shows "list_all sql_closed (snd st')"
proof -
  have "st' = st \<or> (\<exists>name s. st' = fold (\<lambda>(e, suffix). named e (name @ '' '' @ suffix))
      (summary_outputs separator order s (sql_identifier name)) st)"
    using assms(1)
    by (auto simp: aggregate_column_def split: prod.split_asm property.split_asm if_split_asm)
  moreover have "list_all sql_closed (snd (fold (\<lambda>(e, suffix). named e (name @ '' '' @ suffix))
      (summary_outputs separator order s (sql_identifier name)) st))" for s name
    using closed_summary_outputs [of "sql_identifier name" order _ _ separator s] assms(2,3)
    by (intro closed_fold_named) auto
  ultimately show ?thesis using assms(3) by auto
qed

lemma closed_aggregate_selections:
  assumes "aggregate_selections columns keys choices separator sort_by = Inr st"
  shows "list_all sql_closed (snd st)"
proof -
  have "rfold (aggregate_column keys choices separator order) columns st0 = Inr st \<Longrightarrow>
      sql_closed order \<Longrightarrow> list_all sql_closed (snd st0) \<Longrightarrow> list_all sql_closed (snd st)" for order st0
    by (induction columns arbitrary: st0) (auto dest: closed_aggregate_column)
  moreover have "list_all sql_closed (snd (named ''count(*)'' ''row count'' (keys, map sql_identifier keys)))"
    by (rule closed_named) (auto simp: list_all_iff intro: closedI)
  ultimately show ?thesis using assms by (simp add: aggregate_selections_def)
qed

lemma closed_aggregateOperation:
  assumes "aggregateOperation source columns keys choices separator sort_by = Inr tr"
  shows "sql_closed (tr_select tr)"
proof -
  obtain reserved selections where
    "aggregate_selections columns keys choices separator sort_by = Inr (reserved, selections)"
    and tr: "tr_select tr = ''SELECT '' @ join '', '' selections @ '' FROM '' @ table source @ '' GROUP BY '' @
       join '', '' (map sql_identifier keys)"
    using assms by (auto simp: aggregateOperation_def split: if_split_asm)
  then have "sql_closed (join '', '' selections)"
    using closed_aggregate_selections by (fastforce intro: closed_comma_join simp: list_all_iff)
  then show ?thesis unfolding tr by (intro closedI) (simp add: closed_scans closed_identifiers)
qed

lemma closed_applied: "sql_closed s \<Longrightarrow> sql_closed (f s) \<Longrightarrow> sql_closed (applied b f s)"
  by (simp add: applied_def)

lemma closed_key_expression: "sql_closed (key_expression columns n key)"
proof -
  have lower: "sql_closed v \<Longrightarrow> sql_closed (''lower('' @ v @ '')'')" for v
    by (rule closedI) (simp add: closed_scans)
  have cast: "sql_closed (''CAST('' @ sql_identifier key @ '' AS VARCHAR)'')"
    by (rule closedI) (simp add: closed_scans)
  have quotes: "CHR 0x27 \<notin> set spaces_class" "CHR 0x27 \<notin> set url_regex"
      "CHR 0x27 \<notin> set (property_class ''S'')" "CHR 0x27 \<notin> set (property_class ''P'')"
      "CHR 0x27 \<notin> set ''g''" "CHR 0x27 \<notin> set ''gi''" "CHR 0x27 \<notin> set []"
    by (simp_all add: spaces_class_def property_class_def url_regex_def)
  have "sql_closed (applied (norm_whitespace n) (\<lambda>v. regexp_replace v spaces_class [] ''g'')
      (applied (norm_symbols n) (\<lambda>v. regexp_replace v (property_class ''S'') [] ''g'')
        (applied (norm_punctuation n) (\<lambda>v. regexp_replace v (property_class ''P'') [] ''g'')
          (applied (norm_urls n) (\<lambda>v. regexp_replace v url_regex [] ''gi'')
            (applied (norm_ignoreCase n) (\<lambda>v. ''lower('' @ v @ '')'')
              (''CAST('' @ sql_identifier key @ '' AS VARCHAR)''))))))"
    by (intro closed_applied closed_regexp_replace lower cast quotes)
  then show ?thesis by (auto simp: key_expression_def split: option.split)
qed

lemma closed_ranked_prefix: "sql_closed parts \<Longrightarrow> sql_closed (ranked_prefix source parts h)"
  by (rule closedI) (simp add: ranked_prefix_def closed_scans)

lemma closed_excluded [simp]: "sql_closed (excluded h)"
  unfolding excluded_def by (rule closed_comma_join) auto

lemma closed_deduplicateOperations:
  assumes "deduplicateOperations source columns keys n = Inr dd"
  shows "sql_closed (tr_select (dd_kept dd)) \<and> sql_closed (tr_select (dd_duplicates dd))"
proof -
  let ?p = "join '', '' (map (key_expression columns n) keys)"
  have "sql_closed ?p" by (rule closed_comma_join) (auto simp: closed_key_expression)
  then have prefix: "sql_closed (ranked_prefix source ?p h)" for h by (rule closed_ranked_prefix)
  have "sql_closed (kept_select source ?p h)" "sql_closed (duplicates_select source ?p h)" for h
    by (rule closedI, simp add: kept_select_def duplicates_select_def closed_scans prefix)+
  then show ?thesis using assms by (auto simp: deduplicateOperations_def Let_def split: if_split_asm)
qed

end
