(* ===== verification/Slice_Form.thy ===== *)
theory Slice_Form
  imports Sql_Builders
begin

text \<open>
  The form model of Sample Rows, \<open>preprocessing/slice/hooks/sliceFormModel.ts\<close>: the numeric
  inputs are parsed from text, validated, and turned into the request that \<open>sampleSelect\<close> renders.
  Non-ASCII characters of the messages are given by their UTF-8 bytes.
\<close>

datatype sampling_mode = Sampling_slice | Sampling_random

record slice_input =
  in_existingNames :: "string list"
  in_selectedNodeId :: "string option"
  in_selectedNodeLabel :: string
  in_nodeRowCount :: "js_number option"
  in_mode :: sampling_mode
  in_offset :: string
  in_length :: string
  in_sampleSize :: string
  in_randomSeed :: string
  in_noRandomSeed :: bool

definition buildSlicePayload ::
    "sampling_mode \<Rightarrow> js_number \<Rightarrow> js_number option \<Rightarrow> js_number option \<Rightarrow> js_number option \<Rightarrow> bool \<Rightarrow>
     slice_request" where
  "buildSlicePayload mode offset lengthValue sampleSizeValue randomSeedValue isFullShuffle =
     (if mode = Sampling_random then
        (if isFullShuffle
         then \<lparr>sl_mode = Some Mode_shuffle, sl_offset = None, sl_length = None,
               sl_sample_size = None, sl_random_seed = randomSeedValue\<rparr>
         else \<lparr>sl_mode = Some Mode_random_sample, sl_offset = None, sl_length = None,
               sl_sample_size = sampleSizeValue, sl_random_seed = randomSeedValue\<rparr>)
      else \<lparr>sl_mode = Some Mode_slice, sl_offset = Some offset, sl_length = lengthValue,
            sl_sample_size = None, sl_random_seed = None\<rparr>)"

subsection \<open>Parsed and validated fields\<close>

definition hasSelection :: "slice_input \<Rightarrow> bool" where
  "hasSelection i = (case in_selectedNodeId i of Some n \<Rightarrow> n \<noteq> [] | None \<Rightarrow> False)"

definition offsetNumber :: "slice_input \<Rightarrow> js_number" where
  "offsetNumber i = Number (trim (in_offset i))"

definition offsetValid :: "slice_input \<Rightarrow> bool" where
  "offsetValid i \<longleftrightarrow>
     trim (in_offset i) \<noteq> [] \<and> isInteger (offsetNumber i) \<and> num_le (Finite 0) (offsetNumber i)"

definition optional_number :: "string \<Rightarrow> js_number option" where
  "optional_number text = (if trim text \<noteq> [] then Some (Number (trim text)) else None)"

definition lengthNumber :: "slice_input \<Rightarrow> js_number option" where
  "lengthNumber i = optional_number (in_length i)"

definition lengthValid :: "slice_input \<Rightarrow> bool" where
  "lengthValid i =
     (case lengthNumber i of
        None \<Rightarrow> True
      | Some n \<Rightarrow> isSafeInteger n \<and> num_le (Finite 1) n)"

definition sampleSizeNumber :: "slice_input \<Rightarrow> js_number option" where
  "sampleSizeNumber i = optional_number (in_sampleSize i)"

definition sampleSizeValid :: "slice_input \<Rightarrow> bool" where
  "sampleSizeValid i =
     (case sampleSizeNumber i of
        None \<Rightarrow> False
      | Some n \<Rightarrow> isFinite n \<and> num_less (Finite 0) n \<and> (num_less n (Finite 1) \<or> isInteger n))"

definition sampleSizeValue :: "slice_input \<Rightarrow> js_number option" where
  "sampleSizeValue i = (if sampleSizeValid i then sampleSizeNumber i else None)"

definition ge_sign :: string where
  "ge_sign = [CHR 0xE2, CHR 0x89, CHR 0xA5]"

definition en_dash :: string where
  "en_dash = [CHR 0xE2, CHR 0x80, CHR 0x93]"

definition em_dash :: string where
  "em_dash = [CHR 0xE2, CHR 0x80, CHR 0x94]"

definition fraction_hint :: string where
  "fraction_hint =
     ''Enter a fraction (0'' @ en_dash @ ''1) or an integer row count ('' @ ge_sign @ '' 1).''"

definition sampleSizeHint :: "slice_input \<Rightarrow> string option" where
  "sampleSizeHint i =
     (if trim (in_sampleSize i) = [] \<or> sampleSizeValid i then None
      else case sampleSizeNumber i of
        Some n \<Rightarrow>
          if num_le (Finite 1) n \<and> \<not> isInteger n
          then Some (''Values '' @ ge_sign @ '' 1 must be whole numbers (e.g. 25, not 25.5).'')
          else Some fraction_hint
      | None \<Rightarrow> Some fraction_hint)"

definition randomSeedNumber :: "slice_input \<Rightarrow> js_number option" where
  "randomSeedNumber i = optional_number (in_randomSeed i)"

definition randomSeedValid :: "slice_input \<Rightarrow> bool" where
  "randomSeedValid i =
     (if in_noRandomSeed i then True
      else case randomSeedNumber i of
        None \<Rightarrow> False
      | Some n \<Rightarrow> isInteger n \<and> num_le (Finite 0) n)"

definition randomSeedValue :: "slice_input \<Rightarrow> js_number option" where
  "randomSeedValue i =
     (if in_noRandomSeed i then None else if randomSeedValid i then randomSeedNumber i else None)"

definition hasOperation :: "slice_input \<Rightarrow> bool" where
  "hasOperation i =
     (if in_mode i = Sampling_slice then offsetValid i \<and> lengthValid i
      else sampleSizeValid i \<and> randomSeedValid i)"

definition isFullShuffle :: "slice_input \<Rightarrow> bool" where
  "isFullShuffle i =
     (in_mode i = Sampling_random \<and> sampleSizeValid i \<and>
      (case (in_nodeRowCount i, sampleSizeNumber i) of
         (Some rows, Some n) \<Rightarrow> isInteger n \<and> num_le rows n
       | _ \<Rightarrow> False))"

definition mode_text :: "sampling_mode \<Rightarrow> string" where
  "mode_text mode = (case mode of Sampling_slice \<Rightarrow> ''slice'' | Sampling_random \<Rightarrow> ''random_sample'')"

definition node_id_text :: "slice_input \<Rightarrow> string" where
  "node_id_text i = (case in_selectedNodeId i of Some n \<Rightarrow> n | None \<Rightarrow> [])"

definition formSignature :: "slice_input \<Rightarrow> string" where
  "formSignature i =
     join [CHR 0x00] [node_id_text i, mode_text (in_mode i), in_offset i, in_length i,
       in_sampleSize i, in_randomSeed i,
       if in_noRandomSeed i then ''no-random-seed'' else ''seeded'']"

definition resultSignature :: "slice_input \<Rightarrow> string" where
  "resultSignature i =
     join [CHR 0x00] [node_id_text i, in_selectedNodeLabel i, mode_text (in_mode i)]"

definition autoNodeName :: "(string \<Rightarrow> bool) \<Rightarrow> slice_input \<Rightarrow> string" where
  "autoNodeName word i =
     suggestDataBlockName word
       [if in_selectedNodeLabel i \<noteq> [] then in_selectedNodeLabel i else node_id_text i]
       (if in_mode i = Sampling_slice then Op_slc else if isFullShuffle i then Op_shf else Op_smp)
       (in_existingNames i)"

subsection \<open>Messages\<close>

text \<open>\<open>a + b - 1\<close> on doubles; both operands are finite where it is used.\<close>

definition last_row :: "js_number \<Rightarrow> js_number \<Rightarrow> js_number" where
  "last_row a b =
     (case (a, b) of
        (Finite p, Finite q) \<Rightarrow>
          (case to_double (p + q) of Finite r \<Rightarrow> to_double (r - 1) | x \<Rightarrow> x)
      | _ \<Rightarrow> NaN)"

definition slice_summary :: "slice_input \<Rightarrow> string" where
  "slice_summary i =
     (if \<not> offsetValid i then ''Offset must be a non-negative integer (zero-based row index).''
      else if \<not> lengthValid i
      then ''Length must be a positive whole number, or blank to include all remaining rows.''
      else case lengthNumber i of
        None \<Rightarrow> ''Rows from '' @ show_number (offsetNumber i) @ '' to the end.''
      | Some n \<Rightarrow>
          if num_eq n (Finite 0)
          then ''Slice starting at row '' @ show_number (offsetNumber i) @
               '' returning zero rows (length = 0).''
          else ''Rows '' @ show_number (offsetNumber i) @ en_dash @
               show_number (last_row (offsetNumber i) n) @ '' inclusive ('' @ show_number n @ '' total).'')"

definition sample_summary :: "slice_input \<Rightarrow> string" where
  "sample_summary i =
     (case sampleSizeValue i of
        None \<Rightarrow> fraction_hint
      | Some n \<Rightarrow>
          if \<not> randomSeedValid i then ''Random seed must be a non-negative integer.''
          else
            (if num_less n (Finite 1) then ''Random sample using fraction '' @ show_number n
             else ''Random sample of '' @ show_number n @ '' rows'') @
            (case randomSeedValue i of
               None \<Rightarrow> ''.''
             | Some seed \<Rightarrow> '' with seed '' @ show_number seed @ ''.''))"

definition rangeSummary :: "slice_input \<Rightarrow> string" where
  "rangeSummary i =
     (if \<not> hasSelection i then ''Select a data block to configure sampling.''
      else if in_mode i = Sampling_slice then slice_summary i
      else sample_summary i)"

definition previewReady :: "slice_input \<Rightarrow> bool" where
  "previewReady i \<longleftrightarrow> hasSelection i \<and> (in_mode i = Sampling_slice \<longrightarrow> offsetValid i)"

definition operationPayload :: "slice_input \<Rightarrow> slice_request option" where
  "operationPayload i =
     (if hasOperation i
      then Some (buildSlicePayload (in_mode i) (offsetNumber i) (lengthNumber i) (sampleSizeValue i)
             (randomSeedValue i) (isFullShuffle i))
      else None)"

definition previewReadyMessage :: "slice_input \<Rightarrow> string" where
  "previewReadyMessage i =
     (if \<not> hasSelection i then ''Select a data block to preview output rows.''
      else if in_mode i = Sampling_slice
      then ''Showing original data. Enter offset and length to preview sliced rows.''
      else ''Showing original data. Enter a fraction or row count and optional seed to preview sampled rows.'')"

definition applyDisabled :: "slice_input \<Rightarrow> bool" where
  "applyDisabled i \<longleftrightarrow> \<not> hasSelection i \<or> \<not> hasOperation i"

definition applyDisabledReason :: "slice_input \<Rightarrow> string option" where
  "applyDisabledReason i =
     (if \<not> hasSelection i then Some ''Select a data block first''
      else if in_mode i = Sampling_slice then
        (if \<not> lengthValid i
         then Some (if trim (in_length i) = [] then ''Enter a length (number of rows to include)''
                    else ''Length must be a whole number '' @ ge_sign @ '' 1'')
         else None)
      else if \<not> sampleSizeValid i
      then Some (if trim (in_sampleSize i) = [] then ''Enter a sample size''
                 else ''Enter a valid sample size '' @ em_dash @ '' a fraction (0'' @ en_dash @
                   ''1) or a whole number '' @ ge_sign @ '' 1'')
      else if \<not> randomSeedValid i then Some ''Enter a valid random seed (non-negative integer)''
      else None)"

text \<open>The record \<open>deriveSliceFormModel\<close> returns, as far as later code reads it.\<close>

record slice_model =
  sm_previewReady :: bool
  sm_previewReadyMessage :: string
  sm_operationPayload :: "slice_request option"
  sm_applyDisabled :: bool
  sm_applyDisabledReason :: "string option"
  sm_sampleSizeHint :: "string option"
  sm_rangeSummary :: string
  sm_autoNodeName :: string
  sm_formSignature :: string
  sm_resultSignature :: string

definition deriveSliceFormModel :: "(string \<Rightarrow> bool) \<Rightarrow> slice_input \<Rightarrow> slice_model" where
  "deriveSliceFormModel word i =
     \<lparr>sm_previewReady = previewReady i, sm_previewReadyMessage = previewReadyMessage i,
      sm_operationPayload = operationPayload i, sm_applyDisabled = applyDisabled i,
      sm_applyDisabledReason = applyDisabledReason i, sm_sampleSizeHint = sampleSizeHint i,
      sm_rangeSummary = rangeSummary i, sm_autoNodeName = autoNodeName word i,
      sm_formSignature = formSignature i, sm_resultSignature = resultSignature i\<rparr>"

subsection \<open>The request a form sends\<close>

lemma sample_integer_Inr:
  "(\<exists>s. sample_integer n = Inr s) \<longleftrightarrow> isSafeInteger n \<and> \<not> num_less n (Finite 0)"
  by (auto simp: sample_integer_def)

lemma num_le_zero: "num_le (Finite 0) n \<Longrightarrow> \<not> num_less n (Finite 0)"
  by (cases n) (auto simp: num_le_def num_eq_def)

lemma num_le_one: "num_le (Finite 1) n \<Longrightarrow> \<not> num_less n (Finite 0)"
  by (cases n) (auto simp: num_le_def num_eq_def)

lemma slice_payload_renders:
  assumes "in_mode i = Sampling_slice" and "operationPayload i = Some request"
  shows "(\<exists>sql. sampleSelect request = Inr sql) = isSafeInteger (offsetNumber i)"
proof -
  have valid: "offsetValid i" "lengthValid i"
    and request: "request = buildSlicePayload Sampling_slice (offsetNumber i) (lengthNumber i)
      (sampleSizeValue i) (randomSeedValue i) (isFullShuffle i)"
    using assms by (auto simp: operationPayload_def hasOperation_def split: if_split_asm)
  have "\<not> num_less (offsetNumber i) (Finite 0)" using valid(1) num_le_zero by (simp add: offsetValid_def)
  then have offset: "(\<exists>s. sample_integer (offsetNumber i) = Inr s) = isSafeInteger (offsetNumber i)"
    by (simp add: sample_integer_Inr)
  have length: "\<exists>s. sample_integer n = Inr s" if "lengthNumber i = Some n" for n
    using valid(2) that num_le_one by (simp add: lengthValid_def sample_integer_Inr)
  obtain limit where limit: "(case lengthNumber i of None \<Rightarrow> Inr []
      | Some n \<Rightarrow> rbind (sample_integer n) (\<lambda>s. Inr ('' LIMIT '' @ s))) = Inr limit"
    using length by (cases "lengthNumber i") fastforce+
  show ?thesis
    unfolding offset [symmetric]
    by (cases "sample_integer (offsetNumber i)")
      (simp_all add: request buildSlicePayload_def sampleSelect_def limit)
qed

text \<open>
  C39: for a slice, the form enables Apply for exactly the drafts the SQL builder accepts, except for
  integers beyond the safe range: when the form holds an operation, rendering its payload succeeds
  if and only if the offset is a safe integer.
\<close>

theorem slice_payload_renders_iff_safe:
  assumes "in_mode i = Sampling_slice" and "operationPayload i = Some request"
  shows "(\<exists>sql. sampleSelect request = Inr sql) = isSafeInteger (offsetNumber i)"
  using assms by (rule slice_payload_renders)

definition example_slice :: "string \<Rightarrow> slice_input" where
  "example_slice offset =
     \<lparr>in_existingNames = [], in_selectedNodeId = Some ''t'', in_selectedNodeLabel = ''t'',
      in_nodeRowCount = None, in_mode = Sampling_slice, in_offset = offset, in_length = [],
      in_sampleSize = [], in_randomSeed = [], in_noRandomSeed = True\<rparr>"

lemma Number_10: "trim ''10'' = ''10''" "Number ''10'' = Finite 10"
proof -
  show trim: "trim ''10'' = ''10''" by (simp add: trim_graphic graphic_char_def)
  have "numeric_text ''10''" by code_simp
  moreover have "numeric_value ''10'' = of_int (5 * 2 ^ 1)"
    by (simp add: numeric_value_def drop_sign_def is_digit_def decimal_value_def digit_value_def
        signed_value_def pow10_def)
  moreover have "to_double (of_int (5 * 2 ^ 1)) = Finite (of_int (5 * 2 ^ 1))"
    by (rule to_double_exact) simp_all
  ultimately show "Number ''10'' = Finite 10" using trim by (simp add: Number_def)
qed

lemma Number_1e16: "trim ''1e16'' = ''1e16''" "Number ''1e16'' = Finite (10 ^ 16)"
proof -
  show trim: "trim ''1e16'' = ''1e16''" by (simp add: trim_graphic graphic_char_def)
  have "numeric_text ''1e16''" by code_simp
  moreover have "numeric_value ''1e16'' = of_int (5 ^ 16 * 2 ^ 16)"
    by (simp add: numeric_value_def drop_sign_def is_digit_def decimal_value_def digit_value_def
        signed_value_def pow10_def)
  moreover have "to_double (of_int (5 ^ 16 * 2 ^ 16)) = Finite (of_int (5 ^ 16 * 2 ^ 16))"
    by (rule to_double_exact) simp_all
  ultimately show "Number ''1e16'' = Finite (10 ^ 16)" using trim by (simp add: Number_def)
qed

lemmas slice_fields =
  offsetValid_def offsetNumber_def lengthValid_def lengthNumber_def optional_number_def
  hasOperation_def hasSelection_def isInteger_def isSafeInteger_def num_le_def num_eq_def

theorem slice_payload_renders_iff_safe_witness:
  "\<exists>request sql. operationPayload (example_slice ''10'') = Some request \<and> sampleSelect request = Inr sql"
proof -
  obtain request where "operationPayload (example_slice ''10'') = Some request"
    by (simp add: operationPayload_def example_slice_def slice_fields Number_10)
  then show ?thesis
    using slice_payload_renders_iff_safe [of "example_slice ''10''" request]
    by (simp add: example_slice_def slice_fields Number_10)
qed

text \<open>
  An offset beyond the safe integers passes the form's validation but not the SQL builder: Apply
  is enabled, the form holds a request, and rendering that request throws.
\<close>

theorem unsafe_offset_enables_apply:
  assumes "in_mode i = Sampling_slice" and "hasSelection i" and "offsetValid i" and "lengthValid i"
    and "\<not> isSafeInteger (offsetNumber i)"
  shows "\<not> applyDisabled i \<and> (\<exists>request e. operationPayload i = Some request \<and> sampleSelect request = Inl e)"
proof -
  have op: "hasOperation i" using assms by (simp add: hasOperation_def)
  then obtain request where request: "operationPayload i = Some request" by (simp add: operationPayload_def)
  then obtain e where "sampleSelect request = Inl e"
    using slice_payload_renders [OF assms(1) request] assms(5) by (cases "sampleSelect request") auto
  then show ?thesis using op request assms(2) by (simp add: applyDisabled_def)
qed

theorem unsafe_offset_enables_apply_witness:
  "\<not> applyDisabled (example_slice ''1e16'') \<and>
   (\<exists>request e. operationPayload (example_slice ''1e16'') = Some request \<and> sampleSelect request = Inl e)"
  by (rule unsafe_offset_enables_apply) (simp_all add: example_slice_def slice_fields Number_1e16)

end
