(* ===== verification/Filter_State.thy ===== *)
theory Filter_State
  imports Sql_Builders
begin

text \<open>
  The state of the filter form: the operators a column offers (\<open>preprocessing/utils/typeUtils.ts\<close>),
  the creation and editing of conditions (\<open>filter/utils/conditionState.ts\<close>), their completeness
  and serialisation (\<open>filter/utils/serializers.ts\<close>) and the checklist options
  (\<open>filter/utils/categoricalOptions.ts\<close>). An absent optional flag of a condition is \<open>None\<close>.
\<close>

subsection \<open>Operators and values\<close>

definition getOperatorsForField :: "arrow_field option \<Rightarrow> filter_operator list" where
  "getOperatorsForField field =
     (if isTopicCoverageField field then [Gte, Gt, Lte, Lt]
      else case field of
        None \<Rightarrow> [Eq, Is_Empty]
      | Some f \<Rightarrow>
          if isArrowDictionaryField f then [In, Is_Empty]
          else if isArrowStringListField f then [In]
          else if isArrowStringField f then [Contains, Eq, Starts_With, Ends_With, Is_Empty]
          else if isArrowIntegerField f \<or> isArrowFloatField f then [Eq, Gte, Lte, Between, Is_Empty]
          else if isArrowBooleanField f then [Eq, Is_Empty]
          else if isArrowTemporalField f then [Gte, Lte, Between, Is_Empty]
          else [Eq, Is_Empty])"

definition formatPreviewValue :: "scalar \<Rightarrow> string" where
  "formatPreviewValue v =
     (case v of
        S_Null \<Rightarrow> ''(missing)''
      | S_String s \<Rightarrow>
          if trim s = [] then (if s = [] then ''(empty text)'' else ''(blank text)'') else s
      | S_Bool b \<Rightarrow> if b then ''true'' else ''false''
      | S_Number n \<Rightarrow> show_number n)"

fun scalar_nonempty :: "scalar \<Rightarrow> bool" where
  "scalar_nonempty S_Null = False"
| "scalar_nonempty (S_String s) = (trim s \<noteq> [])"
| "scalar_nonempty (S_Number _) = True"
| "scalar_nonempty (S_Bool _) = True"

definition text_nonempty :: "string option \<Rightarrow> bool" where
  "text_nonempty v = (case v of None \<Rightarrow> False | Some s \<Rightarrow> trim s \<noteq> [])"

fun hasNonEmptyValue :: "condition_value \<Rightarrow> bool" where
  "hasNonEmptyValue (V_Scalar s) = scalar_nonempty s"
| "hasNonEmptyValue (V_List items) = list_ex (\<lambda>i. i = S_Null \<or> scalar_nonempty i) items"
| "hasNonEmptyValue (V_Range start stop) = (text_nonempty start \<or> text_nonempty stop)"
| "hasNonEmptyValue (V_Topic topic_id threshold) = True"

subsection \<open>Conditions of the form\<close>

record form_condition =
  fc_id :: string
  fc_column :: string
  fc_operator :: filter_operator
  fc_value :: condition_value
  fc_negate :: "bool option"
  fc_regex :: "bool option"
  fc_caseSensitive :: "bool option"
  fc_field :: "arrow_field option"

record column_option =
  co_name :: string
  co_field :: arrow_field

definition getDefaultOperatorForFilterField :: "arrow_field option \<Rightarrow> filter_operator" where
  "getDefaultOperatorForFilterField field =
     (case getOperatorsForField field of operator # _ \<Rightarrow> operator | [] \<Rightarrow> Eq)"

definition isChecklistField :: "arrow_field option \<Rightarrow> bool" where
  "isChecklistField field =
     (case field of
        None \<Rightarrow> False
      | Some f \<Rightarrow> isArrowDictionaryField f \<or> isArrowStringListField f \<or> isTopicCoverageField field)"

text \<open>The threshold 0.05 of a new topic condition, as a double.\<close>

definition default_threshold :: js_number where
  "default_threshold = to_double (1 / 20)"

definition getDefaultValueForColumn :: "arrow_field option \<Rightarrow> filter_operator \<Rightarrow> condition_value" where
  "getDefaultValueForColumn field operator =
     (if isTopicCoverageField field then V_Topic (Finite 0) default_threshold
      else if operator = In then V_List [] else V_Scalar (S_String []))"

datatype prefill_kind = Prefill_datetime | Prefill_numeric

record prefill_request =
  pf_kind :: prefill_kind
  pf_conditionId :: string
  pf_column :: string
  pf_operator :: filter_operator

definition getPrefillRequest ::
    "string \<Rightarrow> arrow_field option \<Rightarrow> string \<Rightarrow> filter_operator \<Rightarrow> prefill_request option" where
  "getPrefillRequest conditionId field column operator =
     (if column = [] \<or> operator = Is_Null \<or> operator = Is_Empty then None
      else case field of
        None \<Rightarrow> None
      | Some f \<Rightarrow>
          if isArrowTemporalField f
          then Some \<lparr>pf_kind = Prefill_datetime, pf_conditionId = conditionId, pf_column = column,
                 pf_operator = operator\<rparr>
          else if (isArrowIntegerField f \<or> isArrowFloatField f) \<and>
            (operator = Gte \<or> operator = Lte \<or> operator = Between)
          then Some \<lparr>pf_kind = Prefill_numeric, pf_conditionId = conditionId, pf_column = column,
                 pf_operator = operator\<rparr>
          else None)"

definition createFilterCondition :: "string \<Rightarrow> column_option option \<Rightarrow> form_condition" where
  "createFilterCondition ident firstColumn =
     (let field = map_option co_field firstColumn;
          operator = getDefaultOperatorForFilterField field
      in \<lparr>fc_id = ident, fc_column = (case firstColumn of Some c \<Rightarrow> co_name c | None \<Rightarrow> []),
          fc_operator = operator, fc_value = getDefaultValueForColumn field operator,
          fc_negate = Some False, fc_regex = Some False, fc_caseSensitive = Some False,
          fc_field = field\<rparr>)"

text \<open>An edit of one member of a condition, \<open>field\<close> and \<open>value\<close> of the change.\<close>

datatype condition_edit =
    Edit_column string
  | Edit_operator filter_operator
  | Edit_value condition_value
  | Edit_negate "bool option"
  | Edit_regex "bool option"
  | Edit_caseSensitive "bool option"

record change_result =
  cr_condition :: form_condition
  cr_checklistLoadRequest :: "string option"
  cr_prefillRequest :: "prefill_request option"
  cr_shouldResetSearch :: bool

definition change_column :: "column_option list \<Rightarrow> string \<Rightarrow> form_condition \<Rightarrow> change_result" where
  "change_column availableColumns name condition =
     (let updated = condition\<lparr>fc_column := name\<rparr> in
      case find (\<lambda>c. co_name c = name) availableColumns of
        None \<Rightarrow> \<lparr>cr_condition = updated, cr_checklistLoadRequest = None, cr_prefillRequest = None,
                 cr_shouldResetSearch = True\<rparr>
      | Some info \<Rightarrow>
          let field = Some (co_field info); operator = getDefaultOperatorForFilterField field
          in \<lparr>cr_condition = updated
                \<lparr>fc_field := field, fc_operator := operator,
                 fc_value := getDefaultValueForColumn field operator,
                 fc_regex := Some False, fc_caseSensitive := Some False\<rparr>,
              cr_checklistLoadRequest = (if isChecklistField field then Some (co_name info) else None),
              cr_prefillRequest = getPrefillRequest (fc_id condition) field (co_name info) operator,
              cr_shouldResetSearch = True\<rparr>)"

definition value_for_in :: "filter_operator \<Rightarrow> arrow_field option \<Rightarrow> condition_value \<Rightarrow> condition_value" where
  "value_for_in operator field v =
     (if operator = In then (case v of V_List items \<Rightarrow> V_List items | _ \<Rightarrow> V_List [])
      else if (case field of Some f \<Rightarrow> isArrowDictionaryField f | None \<Rightarrow> False) then
        (case v of
           V_List items \<Rightarrow>
             V_Scalar (case items of
               [] \<Rightarrow> S_String []
             | first # _ \<Rightarrow> if first = S_Null then S_String [] else first)
         | _ \<Rightarrow> v)
      else v)"

definition value_for_between :: "filter_operator \<Rightarrow> condition_value \<Rightarrow> condition_value" where
  "value_for_between operator v =
     (case v of
        V_Range start stop \<Rightarrow> if operator = Between then v else V_Scalar (S_String [])
      | _ \<Rightarrow> if operator = Between then V_Range None None else v)"

definition change_operator :: "filter_operator \<Rightarrow> form_condition \<Rightarrow> change_result" where
  "change_operator operator condition =
     (let field = fc_field condition;
          v = value_for_between operator (value_for_in operator field (fc_value condition))
      in \<lparr>cr_condition = condition\<lparr>fc_operator := operator, fc_value := v\<rparr>,
          cr_checklistLoadRequest =
            (if operator = In \<and> isChecklistField field \<and> fc_column condition \<noteq> []
             then Some (fc_column condition) else None),
          cr_prefillRequest = getPrefillRequest (fc_id condition) field (fc_column condition) operator,
          cr_shouldResetSearch = True\<rparr>)"

definition plain_change :: "form_condition \<Rightarrow> change_result" where
  "plain_change condition =
     \<lparr>cr_condition = condition, cr_checklistLoadRequest = None, cr_prefillRequest = None,
      cr_shouldResetSearch = False\<rparr>"

definition applyFilterConditionFieldChange ::
    "form_condition \<Rightarrow> condition_edit \<Rightarrow> column_option list \<Rightarrow> change_result" where
  "applyFilterConditionFieldChange condition edit availableColumns =
     (case edit of
        Edit_column name \<Rightarrow> change_column availableColumns name condition
      | Edit_operator operator \<Rightarrow> change_operator operator condition
      | Edit_value v \<Rightarrow> plain_change (condition\<lparr>fc_value := v\<rparr>)
      | Edit_negate b \<Rightarrow> plain_change (condition\<lparr>fc_negate := b\<rparr>)
      | Edit_regex b \<Rightarrow> plain_change (condition\<lparr>fc_regex := b\<rparr>)
      | Edit_caseSensitive b \<Rightarrow> plain_change (condition\<lparr>fc_caseSensitive := b\<rparr>))"

subsection \<open>Serialisation\<close>

definition normalizeEdge :: "string option \<Rightarrow> string option" where
  "normalizeEdge edge =
     (case edge of
        None \<Rightarrow> None
      | Some e \<Rightarrow> if trim e \<noteq> [] then Some (trim e) else None)"

definition serialize_value :: "form_condition \<Rightarrow> condition_value" where
  "serialize_value condition =
     (if fc_operator condition = Is_Null \<or> fc_operator condition = Is_Empty then V_Scalar S_Null
      else case fc_value condition of
        V_Range start stop \<Rightarrow> V_Range (normalizeEdge start) (normalizeEdge stop)
      | V_Scalar S_Null \<Rightarrow> V_Scalar (S_String [])
      | v \<Rightarrow> v)"

definition serialize_condition :: "form_condition \<Rightarrow> filter_condition" where
  "serialize_condition condition =
     \<lparr>cond_column = fc_column condition, cond_operator = fc_operator condition,
      cond_value = serialize_value condition,
      cond_negate = (fc_negate condition = Some True), cond_regex = (fc_regex condition = Some True),
      cond_case_sensitive = (fc_caseSensitive condition = Some True),
      cond_field = fc_field condition\<rparr>"

definition buildFilterRequestPayload :: "form_condition list \<Rightarrow> string \<Rightarrow> filter_request" where
  "buildFilterRequestPayload conditions logic =
     \<lparr>req_conditions = map serialize_condition conditions,
      req_logic = (if logic = ''or'' then Or else And)\<rparr>"

definition isConditionComplete :: "form_condition \<Rightarrow> bool" where
  "isConditionComplete condition =
     (if fc_column condition = [] then False
      else if fc_operator condition = Is_Null \<or> fc_operator condition = Is_Empty then True
      else if fc_operator condition = Between then
        (case fc_value condition of
           V_Range start stop \<Rightarrow> text_nonempty start \<or> text_nonempty stop
         | _ \<Rightarrow> False)
      else hasNonEmptyValue (fc_value condition))"

subsection \<open>Checklist options\<close>

text \<open>A unique value of a column; dates and other objects come with the text \<open>String\<close> gives them.\<close>

datatype raw_value = Raw_Scalar scalar | Raw_Object string

definition toCategoricalPrimitive :: "raw_value \<Rightarrow> scalar" where
  "toCategoricalPrimitive v = (case v of Raw_Scalar s \<Rightarrow> s | Raw_Object text \<Rightarrow> S_String text)"

definition NULL_OPTION_KEY :: string where
  "NULL_OPTION_KEY = ''__LDACA_NULL__''"

definition getCategoricalOptionKey :: "scalar \<Rightarrow> string" where
  "getCategoricalOptionKey v =
     (case v of
        S_Null \<Rightarrow> NULL_OPTION_KEY
      | S_String s \<Rightarrow> ''string::'' @ s
      | S_Number n \<Rightarrow> ''number::'' @ show_number n
      | S_Bool b \<Rightarrow> ''boolean::'' @ (if b then ''true'' else ''false''))"

record option_entry =
  oe_key :: string
  oe_value :: scalar
  oe_label :: string
  oe_isNull :: bool

definition add_entry :: "raw_value \<Rightarrow> option_entry list \<Rightarrow> option_entry list" where
  "add_entry raw entries =
     (let v = toCategoricalPrimitive raw; key = getCategoricalOptionKey v in
      if v = S_Null \<or> key \<in> set (map oe_key entries) then entries
      else entries @ [\<lparr>oe_key = key, oe_value = v, oe_label = formatPreviewValue v, oe_isNull = False\<rparr>])"

definition buildCategoricalOptionEntries :: "raw_value list \<Rightarrow> bool \<Rightarrow> option_entry list" where
  "buildCategoricalOptionEntries rawValues hasNullFromResponse =
     (if hasNullFromResponse
      then [\<lparr>oe_key = NULL_OPTION_KEY, oe_value = S_Null, oe_label = ''Null (no value)'', oe_isNull = True\<rparr>]
      else []) @
     fold add_entry rawValues []"

subsection \<open>Well-formed conditions\<close>

text \<open>
  The invariant of a condition in the form: its operator is one the field offers, and its value has
  the shape that operator needs, with finite numbers.
\<close>

fun finite_scalar :: "scalar \<Rightarrow> bool" where
  "finite_scalar (S_Number n) = isFinite n"
| "finite_scalar _ = True"

definition value_fits :: "arrow_field option \<Rightarrow> filter_operator \<Rightarrow> condition_value \<Rightarrow> bool" where
  "value_fits field operator v =
     (case v of
        V_Topic t c \<Rightarrow> isTopicCoverageField field \<and> isFinite t \<and> isFinite c
      | V_Range _ _ \<Rightarrow> \<not> isTopicCoverageField field \<and> operator = Between
      | V_List items \<Rightarrow> \<not> isTopicCoverageField field \<and> operator = In \<and> list_all finite_scalar items
      | V_Scalar s \<Rightarrow>
          \<not> isTopicCoverageField field \<and> operator \<noteq> Between \<and> operator \<noteq> In \<and> finite_scalar s)"

definition wf_condition :: "form_condition \<Rightarrow> bool" where
  "wf_condition c \<longleftrightarrow>
     fc_operator c \<in> set (getOperatorsForField (fc_field c)) \<and>
     value_fits (fc_field c) (fc_operator c) (fc_value c)"

lemma operators_nonempty: "getOperatorsForField field \<noteq> []"
  by (simp add: getOperatorsForField_def split: option.split)

lemma default_operator: "getDefaultOperatorForFilterField field \<in> set (getOperatorsForField field)"
  using operators_nonempty [of field]
  by (simp add: getDefaultOperatorForFilterField_def split: list.split)

lemma default_operator_not_between: "getDefaultOperatorForFilterField field \<noteq> Between"
  by (simp add: getDefaultOperatorForFilterField_def getOperatorsForField_def split: option.split)

lemma topic_operators:
  "isTopicCoverageField field \<Longrightarrow> operator \<in> set (getOperatorsForField field) \<Longrightarrow>
   operator \<in> {Gte, Gt, Lte, Lt}"
  by (auto simp: getOperatorsForField_def)

lemma in_operator_field:
  "In \<in> set (getOperatorsForField (Some f)) \<Longrightarrow> operator \<in> set (getOperatorsForField (Some f)) \<Longrightarrow>
   operator = In \<or> isArrowDictionaryField f"
  by (auto simp: getOperatorsForField_def split: if_split_asm)

lemma in_operator_none: "In \<notin> set (getOperatorsForField None)"
  by (simp add: getOperatorsForField_def isTopicCoverageField_def)

lemma finite_default_threshold: "isFinite default_threshold"
  by code_simp

lemma default_value_fits:
  "value_fits field (getDefaultOperatorForFilterField field)
     (getDefaultValueForColumn field (getDefaultOperatorForFilterField field))"
  using default_operator_not_between [of field] finite_default_threshold
  by (simp add: value_fits_def getDefaultValueForColumn_def isFinite_def)

lemma operator_value_fits:
  assumes "operator \<in> set (getOperatorsForField field)" and "old \<in> set (getOperatorsForField field)"
    and "value_fits field old v"
  shows "value_fits field operator (value_for_between operator (value_for_in operator field v))"
proof (cases v)
  case (V_Topic t c)
  then have "isTopicCoverageField field" using assms(3) by (simp add: value_fits_def)
  then have "operator \<in> {Gte, Gt, Lte, Lt}" using topic_operators assms(1) by blast
  then show ?thesis using V_Topic assms(3)
    by (auto simp: value_fits_def value_for_in_def value_for_between_def split: option.split)
next
  case (V_List items)
  then have old: "old = In" "list_all finite_scalar items" using assms(3) by (auto simp: value_fits_def)
  then obtain f where f: "field = Some f" using assms(2) in_operator_none by (cases field) auto
  have "operator = In \<or> isArrowDictionaryField f" using assms(1,2) old(1) f in_operator_field by simp
  then show ?thesis using V_List assms(3) old f assms(1)
    by (cases items)
      (auto simp: value_fits_def value_for_in_def value_for_between_def getOperatorsForField_def
        split: if_split_asm)
next
  case (V_Scalar s)
  then show ?thesis using assms(3)
    by (auto simp: value_fits_def value_for_in_def value_for_between_def split: option.split)
next
  case (V_Range a b)
  then show ?thesis using assms(3)
    by (auto simp: value_fits_def value_for_in_def value_for_between_def split: option.split)
qed

subsection \<open>Editing keeps conditions well formed\<close>

text \<open>
  The edits the form offers: any column name, an operator of the field's list, a value of the shape
  the value editor of the operator produces, and the flags.
\<close>

fun offered_edit :: "form_condition \<Rightarrow> condition_edit \<Rightarrow> bool" where
  "offered_edit c (Edit_operator operator) = (operator \<in> set (getOperatorsForField (fc_field c)))"
| "offered_edit c (Edit_value v) = value_fits (fc_field c) (fc_operator c) v"
| "offered_edit c _ = True"

inductive reachable_condition :: "column_option list \<Rightarrow> form_condition \<Rightarrow> bool"
  for columns :: "column_option list" where
  created: "reachable_condition columns (createFilterCondition ident firstColumn)"
| edited: "reachable_condition columns c \<Longrightarrow> offered_edit c edit \<Longrightarrow>
     reachable_condition columns (cr_condition (applyFilterConditionFieldChange c edit columns))"

lemma wf_created: "wf_condition (createFilterCondition ident firstColumn)"
  by (simp add: wf_condition_def createFilterCondition_def Let_def default_operator default_value_fits)

lemma wf_change_column:
  "wf_condition c \<Longrightarrow> wf_condition (cr_condition (change_column columns name c))"
  by (simp add: wf_condition_def change_column_def Let_def default_operator default_value_fits
      split: option.split)

lemma wf_change_operator:
  "wf_condition c \<Longrightarrow> operator \<in> set (getOperatorsForField (fc_field c)) \<Longrightarrow>
   wf_condition (cr_condition (change_operator operator c))"
  using operator_value_fits [of operator "fc_field c" "fc_operator c" "fc_value c"]
  by (simp add: wf_condition_def change_operator_def Let_def)

lemma wf_edited:
  "wf_condition c \<Longrightarrow> offered_edit c edit \<Longrightarrow>
   wf_condition (cr_condition (applyFilterConditionFieldChange c edit columns))"
  by (cases edit)
    (simp_all add: applyFilterConditionFieldChange_def wf_change_column wf_change_operator,
     simp_all add: plain_change_def wf_condition_def)

lemma reachable_wf: "reachable_condition columns c \<Longrightarrow> wf_condition c"
  by (induction rule: reachable_condition.induct) (auto intro: wf_created wf_edited)

subsection \<open>Complete conditions render\<close>

definition renders :: "'a result \<Rightarrow> bool" where
  "renders r \<longleftrightarrow> (\<exists>x. r = Inr x)"

lemma renders_simps [simp]:
  "renders (Inr x)" "\<not> renders (throw m)"
  "renders (rbind r f) \<longleftrightarrow> (\<exists>x. r = Inr x \<and> renders (f x))"
  by (auto simp: renders_def throw_def)

lemma renders_literal [simp]: "finite_scalar s \<Longrightarrow> renders (literal s)"
  by (cases s) (simp_all add: literal_def)

lemma literal_finite: "finite_scalar s \<Longrightarrow> \<exists>t. literal s = Inr t"
  using renders_literal [of s] by (simp add: renders_def)

lemma rmap_literal_finite: "list_all finite_scalar vs \<Longrightarrow> \<exists>ss. rmap literal vs = Inr ss"
proof (induction vs)
  case (Cons v vs)
  then obtain t ss where "literal v = Inr t" "rmap literal vs = Inr ss"
    using literal_finite [of v] by auto
  then show ?case by simp
qed simp

lemma renders_topic:
  assumes "cond_value c = V_Topic t p" and "isFinite t" "isFinite p"
    and "cond_operator c \<in> {Gte, Gt, Lte, Lt}"
  shows "renders (topic_predicate column c)"
  using assms by (auto simp: topic_predicate_def coverage_comparison_def literal_def)

lemma renders_in:
  "cond_value c = V_List items \<Longrightarrow> list_all finite_scalar items \<Longrightarrow> renders (in_predicate column c)"
  using rmap_literal_finite [of "filter (\<lambda>i. i \<noteq> S_Null) items"]
  by (auto simp: in_predicate_def Let_def list_all_iff)

lemma renders_upperBound: "renders (upperBound c (V_Scalar (S_String s)))"
  by (simp add: upperBound_def scalar_sql_def literal_def Let_def split: option.split)

lemma upperBound_nonempty: "upperBound c v = Inr s \<Longrightarrow> s \<noteq> []"
  by (auto simp: upperBound_def Let_def sql_identifier_def
      split: option.split_asm condition_value.split_asm scalar.split_asm if_split_asm)

lemma renders_between:
  assumes "cond_value c = V_Range (normalizeEdge a) (normalizeEdge b)"
    and "text_nonempty a \<or> text_nonempty b"
  shows "renders (between_predicate (sql_identifier column) c)"
proof -
  have edge: "normalizeEdge e = (if text_nonempty e then Some (trim (the e)) else None)"
    "text_nonempty e \<Longrightarrow> trim (the e) \<noteq> []" for e
    by (auto simp: normalizeEdge_def text_nonempty_def split: option.split option.split_asm)
  obtain hi where "upperBound c (V_Scalar (S_String (trim (the b)))) = Inr hi" "hi \<noteq> []"
    using renders_upperBound [of c "trim (the b)"] upperBound_nonempty by (auto simp: renders_def)
  then show ?thesis using assms edge
    by (auto simp: between_predicate_def Let_def sql_identifier_def)
qed

lemma renders_scalar:
  assumes "cond_value c = V_Scalar s" "finite_scalar s"
  shows "renders (text_predicate column c)"
    and "cond_operator c \<in> {Eq, Gte, Lte} \<Longrightarrow> renders (compare_predicate column c)"
proof -
  obtain t where t: "literal s = Inr t" using literal_finite assms(2) by blast
  show "renders (text_predicate column c)"
    using t assms(1) by (simp add: text_predicate_def scalar_sql_def Let_def)
  have "renders (upperBound c (V_Scalar s))"
    using t by (simp add: upperBound_def scalar_sql_def Let_def split: option.split scalar.split)
  then show "cond_operator c \<in> {Eq, Gte, Lte} \<Longrightarrow> renders (compare_predicate column c)"
    using t assms(1) by (auto simp: compare_predicate_def comparison_def scalar_sql_def)
qed

lemma offered_operators:
  "operator \<in> set (getOperatorsForField field) \<Longrightarrow> \<not> isTopicCoverageField field \<Longrightarrow>
   operator \<in> {In, Is_Empty, Contains, Eq, Starts_With, Ends_With, Gte, Lte, Between}"
  by (auto simp: getOperatorsForField_def split: option.split_asm if_split_asm)

lemma complete_renders:
  assumes "wf_condition c" and "isConditionComplete c"
  shows "renders (condition_predicate (serialize_condition c))"
proof (cases "isTopicCoverageField (fc_field c)")
  case True
  then have op: "fc_operator c \<in> {Gte, Gt, Lte, Lt}"
    using assms(1) topic_operators by (auto simp: wf_condition_def)
  obtain t p where "fc_value c = V_Topic t p" "isFinite t" "isFinite p"
    using assms(1) True by (auto simp: wf_condition_def value_fits_def split: condition_value.split_asm)
  then have "renders (topic_predicate (sql_identifier (fc_column c)) (serialize_condition c))"
    using op by (intro renders_topic [of _ t p]) (auto simp: serialize_condition_def serialize_value_def)
  then show ?thesis using True op
    by (auto simp: condition_predicate_def serialize_condition_def renders_def)
next
  case False
  have op: "fc_operator c \<in> {In, Is_Empty, Contains, Eq, Starts_With, Ends_With, Gte, Lte, Between}"
    using assms(1) False offered_operators by (auto simp: wf_condition_def)
  show ?thesis
  proof (cases "fc_operator c = Is_Empty")
    case True
    then show ?thesis by (simp add: condition_predicate_def serialize_condition_def)
  next
    case notempty: False
    show ?thesis
    proof (cases "fc_value c")
      case (V_Scalar s)
      then have s: "finite_scalar s" "fc_operator c \<noteq> In" "fc_operator c \<noteq> Between" and "s \<noteq> S_Null"
        using assms False notempty op
        by (auto simp: wf_condition_def value_fits_def isConditionComplete_def split: if_split_asm)
      then have v: "cond_value (serialize_condition c) = V_Scalar s"
        using V_Scalar notempty op
        by (cases s) (auto simp: serialize_condition_def serialize_value_def)
      show ?thesis
        using renders_scalar [OF v s(1), of "sql_identifier (fc_column c)"] op notempty False s(2,3)
        by (auto simp: condition_predicate_def serialize_condition_def renders_def)
    next
      case (V_List items)
      then have "fc_operator c = In" "list_all finite_scalar items"
        using assms False by (auto simp: wf_condition_def value_fits_def)
      then show ?thesis
        using renders_in [of "serialize_condition c" items "sql_identifier (fc_column c)"] V_List False
        by (auto simp: condition_predicate_def serialize_condition_def serialize_value_def renders_def)
    next
      case (V_Range a b)
      then have "fc_operator c = Between" "text_nonempty a \<or> text_nonempty b"
        using assms False notempty op
        by (auto simp: wf_condition_def value_fits_def isConditionComplete_def split: if_split_asm)
      then show ?thesis
        using renders_between [of "serialize_condition c" a b "fc_column c"] V_Range False
        by (auto simp: condition_predicate_def serialize_condition_def serialize_value_def renders_def)
    next
      case (V_Topic t p)
      then show ?thesis using assms False by (auto simp: wf_condition_def value_fits_def)
    qed
  qed
qed

lemma complete_list_renders:
  assumes "conditions \<noteq> []" and "\<forall>c \<in> set conditions. wf_condition c \<and> isConditionComplete c"
  shows "\<exists>sql. filterSelect (buildFilterRequestPayload conditions logic) = Inr sql"
proof -
  have "\<exists>ps. rmap condition_predicate (map serialize_condition conditions) = Inr ps"
    using assms(2)
  proof (induction conditions)
    case (Cons c cs)
    then have "renders (condition_predicate (serialize_condition c))" using complete_renders by auto
    then show ?case using Cons by (auto simp: renders_def)
  qed simp
  then show ?thesis
    using assms(1) by (auto simp: filterSelect_def filterPredicate_def buildFilterRequestPayload_def)
qed

subsection \<open>Properties of the filter form\<close>

text \<open>
  The filter form only reaches well-formed conditions: from a new condition, through any
  sequence of the edits it offers (another column, an operator of the field, a value of the
  operator's shape, a flag), the operator stays one the field offers and the value keeps the shape
  that operator needs.
\<close>

theorem reachable_condition_wf:
  assumes "reachable_condition columns c"
  shows "wf_condition c"
  using assms by (rule reachable_wf)

definition example_option :: column_option where
  "example_option = \<lparr>co_name = ''n'', co_field = Field ''n'' Arrow_Float []\<rparr>"

definition example_condition :: form_condition where
  "example_condition =
     cr_condition (applyFilterConditionFieldChange (createFilterCondition ''1'' (Some example_option))
       (Edit_operator Between) [example_option])"

lemma example_reachable: "reachable_condition [example_option] example_condition"
proof -
  have "offered_edit (createFilterCondition ''1'' (Some example_option)) (Edit_operator Between)"
    by code_simp
  then show ?thesis
    unfolding example_condition_def by (intro reachable_condition.edited reachable_condition.created)
qed

theorem reachable_condition_wf_witness:
  "wf_condition example_condition \<and> fc_value example_condition = V_Range None None"
proof -
  have "fc_value example_condition = V_Range None None" by code_simp
  then show ?thesis using reachable_condition_wf [OF example_reachable] by simp
qed

text \<open>
  The completeness gate is sufficient: a non-empty list of conditions the form can reach, each
  of them complete, serialises to a request for which the filter statement is generated.
\<close>

theorem complete_conditions_render:
  assumes "conditions \<noteq> []"
    and "\<forall>c \<in> set conditions. reachable_condition columns c \<and> isConditionComplete c"
  shows "\<exists>sql. filterSelect (buildFilterRequestPayload conditions logic) = Inr sql"
  using assms reachable_wf by (intro complete_list_renders) auto

definition example_filled :: form_condition where
  "example_filled =
     cr_condition (applyFilterConditionFieldChange example_condition
       (Edit_value (V_Range (Some ''1'') None)) [example_option])"

theorem complete_conditions_render_witness:
  "\<exists>sql. filterSelect (buildFilterRequestPayload [example_filled] ''or'') = Inr sql"
proof -
  have "offered_edit example_condition (Edit_value (V_Range (Some ''1'') None))" by code_simp
  then have "reachable_condition [example_option] example_filled"
    unfolding example_filled_def by (intro reachable_condition.edited example_reachable)
  moreover have "isConditionComplete example_filled" by code_simp
  ultimately show ?thesis using complete_conditions_render [of "[example_filled]"] by simp
qed

subsection \<open>Properties of the checklist\<close>

lemma key_not_null: "v \<noteq> S_Null \<Longrightarrow> getCategoricalOptionKey v \<noteq> NULL_OPTION_KEY"
  by (cases v) (simp_all add: getCategoricalOptionKey_def NULL_OPTION_KEY_def)

definition wf_entries :: "option_entry list \<Rightarrow> bool" where
  "wf_entries entries \<longleftrightarrow>
     distinct (map oe_key entries) \<and>
     (\<forall>e \<in> set entries. oe_value e \<noteq> S_Null \<and> oe_key e = getCategoricalOptionKey (oe_value e))"

lemma wf_add_entry: "wf_entries entries \<Longrightarrow> wf_entries (add_entry raw entries)"
  by (auto simp: wf_entries_def add_entry_def Let_def)

lemma wf_fold_entries: "wf_entries entries \<Longrightarrow> wf_entries (fold add_entry raws entries)"
  by (induction raws arbitrary: entries) (simp_all add: wf_add_entry)

lemma add_entry_mono: "set (map oe_key entries) \<subseteq> set (map oe_key (add_entry raw entries))"
  by (auto simp: add_entry_def Let_def)

lemma fold_entries_mono: "set (map oe_key entries) \<subseteq> set (map oe_key (fold add_entry raws entries))"
proof (induction raws arbitrary: entries)
  case (Cons raw raws)
  show ?case using Cons [of "add_entry raw entries"] add_entry_mono [of entries raw] by simp
qed simp

lemma fold_entries_covers:
  "raw \<in> set raws \<Longrightarrow> toCategoricalPrimitive raw \<noteq> S_Null \<Longrightarrow>
   getCategoricalOptionKey (toCategoricalPrimitive raw) \<in> set (map oe_key (fold add_entry raws entries))"
proof (induction raws arbitrary: entries)
  case (Cons r raws)
  have "getCategoricalOptionKey (toCategoricalPrimitive raw) \<in> set (map oe_key (add_entry raw entries))"
    using Cons.prems(2) by (auto simp: add_entry_def Let_def)
  then show ?case using Cons fold_entries_mono [of "add_entry raw entries" raws] by auto
qed simp

text \<open>
  The checklist of a column is faithful: its keys are pairwise distinct, every non-null value of
  the column has the option with its key, and the null option is there exactly when the response
  reports missing values.
\<close>

theorem checklist_options_correct:
  "distinct (map oe_key (buildCategoricalOptionEntries raws hasNull)) \<and>
   (list_all (\<lambda>raw. toCategoricalPrimitive raw = S_Null \<or>
      getCategoricalOptionKey (toCategoricalPrimitive raw) \<in>
        set (map oe_key (buildCategoricalOptionEntries raws hasNull))) raws) \<and>
   (NULL_OPTION_KEY \<in> set (map oe_key (buildCategoricalOptionEntries raws hasNull))) = hasNull"
proof -
  have wf: "wf_entries (fold add_entry raws [])" by (rule wf_fold_entries) (simp add: wf_entries_def)
  then have null: "NULL_OPTION_KEY \<notin> set (map oe_key (fold add_entry raws []))"
    using key_not_null by (fastforce simp: wf_entries_def)
  show ?thesis
    using wf null fold_entries_covers [of _ raws "[]"]
    by (auto simp: buildCategoricalOptionEntries_def wf_entries_def list_all_iff)
qed

end
