(* ===== verification/Stores.thy ===== *)
theory Stores
  imports Editor "HOL-Library.AList"
begin

text \<open>
  The window-local stores of a project: the ordered selection (\<open>stores/selectionStore.ts\<close>), the
  pins (\<open>stores/pinnedNodesStore.ts\<close>), the preprocessing inputs
  (\<open>preprocessing/inputState.ts\<close>), the table views (\<open>project/projectViewState.ts\<close>), the graph
  canvas (\<open>project/graphState.ts\<close>) and the preview with its editor session
  (\<open>project/previewState.ts\<close>). Every action is a function on the state record. Plain objects whose
  entries the sources enumerate are association lists, updated in place as JavaScript objects are.
\<close>

subsection \<open>Selection\<close>

record selection_state =
  selectedNodeIds :: "string list"

definition initial_selection :: selection_state where
  "initial_selection = \<lparr>selectedNodeIds = []\<rparr>"

definition removeNode :: "string \<Rightarrow> selection_state \<Rightarrow> selection_state" where
  "removeNode n st = st\<lparr>selectedNodeIds := filter (\<lambda>node. node \<noteq> n) (selectedNodeIds st)\<rparr>"

definition replaceSelectedNodes :: "string list \<Rightarrow> selection_state \<Rightarrow> selection_state" where
  "replaceSelectedNodes ids st = st\<lparr>selectedNodeIds := unique (filter (\<lambda>n. n \<noteq> []) ids)\<rparr>"

definition toggleNode :: "string \<Rightarrow> selection_state \<Rightarrow> selection_state" where
  "toggleNode n st =
     (if n = [] then st
      else st\<lparr>selectedNodeIds :=
        (if n \<in> set (selectedNodeIds st) then filter (\<lambda>node. node \<noteq> n) (selectedNodeIds st)
         else selectedNodeIds st @ [n])\<rparr>)"

definition clearSelection :: "selection_state \<Rightarrow> selection_state" where
  "clearSelection st = st\<lparr>selectedNodeIds := []\<rparr>"

subsection \<open>Pins\<close>

record pinned_state =
  pinnedNodeIds :: "string list"

definition isPinned :: "string \<Rightarrow> pinned_state \<Rightarrow> bool" where
  "isPinned n st \<longleftrightarrow> n \<in> set (pinnedNodeIds st)"

definition togglePinnedNode :: "string \<Rightarrow> pinned_state \<Rightarrow> pinned_state" where
  "togglePinnedNode n st =
     (if n = [] then st
      else if n \<in> set (pinnedNodeIds st) then st\<lparr>pinnedNodeIds := remove1 n (pinnedNodeIds st)\<rparr>
      else st\<lparr>pinnedNodeIds := pinnedNodeIds st @ [n]\<rparr>)"

definition unpinNode :: "string \<Rightarrow> pinned_state \<Rightarrow> pinned_state" where
  "unpinNode n st = st\<lparr>pinnedNodeIds := filter (\<lambda>i. i \<noteq> n) (pinnedNodeIds st)\<rparr>"

definition prune :: "string list \<Rightarrow> pinned_state \<Rightarrow> pinned_state" where
  "prune nodeIds st = st\<lparr>pinnedNodeIds := filter (\<lambda>i. i \<in> set nodeIds) (pinnedNodeIds st)\<rparr>"

definition reset_pins :: "pinned_state \<Rightarrow> pinned_state" where
  "reset_pins st = st\<lparr>pinnedNodeIds := []\<rparr>"

subsection \<open>Preprocessing inputs\<close>

record node_input =
  ni_node_id :: string
  ni_column :: "string option"

datatype join_role = Role_left | Role_right

record input_state =
  is_activeTool :: string
  is_byTool :: "(string \<times> node_input list) list"
  is_left :: "node_input option"
  is_right :: "node_input option"

definition initial_inputs :: input_state where
  "initial_inputs = \<lparr>is_activeTool = ''filter'', is_byTool = [], is_left = None, is_right = None\<rparr>"

definition activate_tool :: "string \<Rightarrow> input_state \<Rightarrow> input_state" where
  "activate_tool tool st = st\<lparr>is_activeTool := tool\<rparr>"

definition setJoin :: "join_role \<Rightarrow> node_input option \<Rightarrow> input_state \<Rightarrow> input_state" where
  "setJoin role input st =
     (case role of Role_left \<Rightarrow> st\<lparr>is_left := input\<rparr> | Role_right \<Rightarrow> st\<lparr>is_right := input\<rparr>)"

definition set_inputs :: "string \<Rightarrow> node_input list \<Rightarrow> input_state \<Rightarrow> input_state" where
  "set_inputs tool inputs st = st\<lparr>is_byTool := AList.update tool inputs (is_byTool st)\<rparr>"

definition rename_input_node :: "string \<Rightarrow> string \<Rightarrow> node_input \<Rightarrow> node_input" where
  "rename_input_node previous next_name input =
     (if ni_node_id input = previous then input\<lparr>ni_node_id := next_name\<rparr> else input)"

definition rename_inputs :: "string \<Rightarrow> string \<Rightarrow> input_state \<Rightarrow> input_state" where
  "rename_inputs previous next_name st =
     st\<lparr>is_left := map_option (rename_input_node previous next_name) (is_left st),
        is_right := map_option (rename_input_node previous next_name) (is_right st),
        is_byTool := map (\<lambda>(tool, inputs). (tool, map (rename_input_node previous next_name) inputs))
          (is_byTool st)\<rparr>"

definition keep_input :: "string list \<Rightarrow> node_input option \<Rightarrow> node_input option" where
  "keep_input names input =
     (case input of
        Some i \<Rightarrow> if ni_node_id i \<in> set names then Some i else None
      | None \<Rightarrow> None)"

definition retain_inputs :: "string list \<Rightarrow> input_state \<Rightarrow> input_state" where
  "retain_inputs names st =
     st\<lparr>is_left := keep_input names (is_left st), is_right := keep_input names (is_right st),
        is_byTool := map (\<lambda>(tool, inputs).
          (tool, filter (\<lambda>input. ni_node_id input \<in> set names) inputs)) (is_byTool st)\<rparr>"

text \<open>The names of the Data Blocks a state refers to.\<close>

definition input_names :: "input_state \<Rightarrow> string set" where
  "input_names st =
     ni_node_id ` (set_option (is_left st) \<union> set_option (is_right st) \<union>
       (\<Union>(tool, inputs) \<in> set (is_byTool st). set inputs))"

subsection \<open>Table views\<close>

record sort_entry =
  sort_id :: string
  sort_desc :: bool

record 'w node_view =
  nv_page :: nat
  nv_size :: nat
  nv_sorting :: "sort_entry list"
  nv_widths :: "(string \<times> 'w) list"
  nv_expanded :: "(string \<times> bool) list"
  nv_start :: "string list"
  nv_end :: "string list"

definition defaultNodeView :: "'w node_view" where
  "defaultNodeView =
     \<lparr>nv_page = 1, nv_size = 20, nv_sorting = [], nv_widths = [], nv_expanded = [],
      nv_start = [], nv_end = []\<rparr>"

type_synonym 'w view_state = "string \<rightharpoonup> 'w node_view"

definition view_of :: "'w view_state \<Rightarrow> string \<Rightarrow> 'w node_view" where
  "view_of nodes name = (case nodes name of Some v \<Rightarrow> v | None \<Rightarrow> defaultNodeView)"

text \<open>\<open>patch\<close> is the function that overwrites the members the patch names.\<close>

definition update_view :: "string \<Rightarrow> ('w node_view \<Rightarrow> 'w node_view) \<Rightarrow> 'w view_state \<Rightarrow> 'w view_state" where
  "update_view name patch nodes = nodes(name \<mapsto> patch (view_of nodes name))"

definition move_key :: "string \<Rightarrow> string \<Rightarrow> (string \<rightharpoonup> 'v) \<Rightarrow> (string \<rightharpoonup> 'v)" where
  "move_key old new nodes =
     (let rest = nodes(old := None)
      in case nodes old of Some v \<Rightarrow> rest(new \<mapsto> v) | None \<Rightarrow> rest)"

definition rename_view :: "string \<Rightarrow> string \<Rightarrow> 'w view_state \<Rightarrow> 'w view_state" where
  "rename_view old new nodes = move_key old new nodes"

text \<open>\<open>to\<close> is absent when the column is deleted; an empty new name deletes it as well.\<close>

definition renamed :: "string \<Rightarrow> string option \<Rightarrow> string \<Rightarrow> string list" where
  "renamed from to n =
     (if n \<noteq> from then [n] else case to of Some t \<Rightarrow> if t = [] then [] else [t] | None \<Rightarrow> [])"

definition fromEntries :: "(string \<times> 'v) list \<Rightarrow> (string \<times> 'v) list" where
  "fromEntries entries = fold (\<lambda>(k, v). AList.update k v) entries []"

definition renameKeys :: "string \<Rightarrow> string option \<Rightarrow> (string \<times> 'v) list \<Rightarrow> (string \<times> 'v) list" where
  "renameKeys from to values_of =
     fromEntries (concat (map (\<lambda>(key, v). map (\<lambda>k. (k, v)) (renamed from to key)) values_of))"

definition changeColumn :: "string \<Rightarrow> string \<Rightarrow> string option \<Rightarrow> 'w view_state \<Rightarrow> 'w view_state" where
  "changeColumn name from to nodes =
     (let view = view_of nodes name
      in nodes(name \<mapsto> view
        \<lparr>nv_page := 1,
         nv_sorting := concat (map (\<lambda>s. map (\<lambda>i. s\<lparr>sort_id := i\<rparr>) (renamed from to (sort_id s)))
           (nv_sorting view)),
         nv_widths := renameKeys from to (nv_widths view),
         nv_expanded := renameKeys from to (nv_expanded view),
         nv_start := concat (map (renamed from to) (nv_start view)),
         nv_end := concat (map (renamed from to) (nv_end view))\<rparr>))"

definition view_columns :: "'w node_view \<Rightarrow> string list" where
  "view_columns view =
     map sort_id (nv_sorting view) @ map fst (nv_widths view) @ map fst (nv_expanded view) @
     nv_start view @ nv_end view"

definition reconcileColumns :: "string \<Rightarrow> string list \<Rightarrow> 'w view_state \<Rightarrow> 'w view_state" where
  "reconcileColumns name columns nodes =
     (case nodes name of
        None \<Rightarrow> nodes
      | Some view \<Rightarrow>
          if list_all (\<lambda>c. c \<in> set columns) (view_columns view) then nodes
          else nodes(name \<mapsto> view
            \<lparr>nv_page := 1,
             nv_sorting := filter (\<lambda>s. sort_id s \<in> set columns) (nv_sorting view),
             nv_widths := filter (\<lambda>(c, _). c \<in> set columns) (nv_widths view),
             nv_expanded := filter (\<lambda>(c, _). c \<in> set columns) (nv_expanded view),
             nv_start := filter (\<lambda>c. c \<in> set columns) (nv_start view),
             nv_end := filter (\<lambda>c. c \<in> set columns) (nv_end view)\<rparr>))"

definition retain_views :: "string list \<Rightarrow> 'w view_state \<Rightarrow> 'w view_state" where
  "retain_views names nodes = (\<lambda>name. if name \<in> set names then nodes name else None)"

subsection \<open>The graph canvas\<close>

datatype graph_mode = Logical | Dependencies

record ('p, 'v) canvas =
  cv_nodes :: "string \<rightharpoonup> 'p"
  cv_viewport :: "'v option"

record ('p, 'v) graph_state =
  gs_mode :: graph_mode
  gs_selected :: "string list"
  gs_logical :: "('p, 'v) canvas"
  gs_dependencies :: "('p, 'v) canvas"

definition move_placement :: "string \<Rightarrow> string \<Rightarrow> ('p, 'v) canvas \<Rightarrow> ('p, 'v) canvas" where
  "move_placement from to canvas = canvas\<lparr>cv_nodes := move_key from to (cv_nodes canvas)\<rparr>"

definition rename_graph ::
    "data_target \<Rightarrow> data_target \<Rightarrow> ('p, 'v) graph_state \<Rightarrow> ('p, 'v) graph_state" where
  "rename_graph old new st =
     st\<lparr>gs_logical :=
          (if ref_schema (objectRef old) = ''data''
           then move_placement (ref_name (objectRef old)) (ref_name (objectRef new)) (gs_logical st)
           else gs_logical st),
        gs_dependencies := move_placement (targetKey old) (targetKey new) (gs_dependencies st),
        gs_selected := map (\<lambda>i. if i = targetKey old then targetKey new else i) (gs_selected st)\<rparr>"

definition retain_canvas :: "string list \<Rightarrow> ('p, 'v) canvas \<Rightarrow> ('p, 'v) canvas" where
  "retain_canvas ids canvas =
     canvas\<lparr>cv_nodes := (\<lambda>i. if i \<in> set ids then cv_nodes canvas i else None)\<rparr>"

definition retain_graph ::
    "graph_mode \<Rightarrow> string list \<Rightarrow> ('p, 'v) graph_state \<Rightarrow> ('p, 'v) graph_state" where
  "retain_graph mode ids st =
     (case mode of
        Logical \<Rightarrow> st\<lparr>gs_logical := retain_canvas ids (gs_logical st)\<rparr>
      | Dependencies \<Rightarrow>
          st\<lparr>gs_dependencies := retain_canvas ids (gs_dependencies st),
             gs_selected := filter (\<lambda>i. i \<in> set ids) (gs_selected st)\<rparr>)"

subsection \<open>The preview\<close>

record editor_session =
  es_target :: data_target
  es_tool :: editor_tool
  es_draft :: editor_draft

record preview_state =
  pv_active :: "data_target option"
  pv_editor :: "editor_session option"

definition initial_preview :: preview_state where
  "initial_preview = \<lparr>pv_active = None, pv_editor = None\<rparr>"

definition preview_edit :: "data_target \<Rightarrow> editor_tool \<Rightarrow> string \<Rightarrow> preview_state \<Rightarrow> preview_state" where
  "preview_edit target tool column st =
     \<lparr>pv_active = Some target,
      pv_editor = Some \<lparr>es_target = target, es_tool = tool, es_draft = initialEditorDraft column\<rparr>\<rparr>"

definition updateEditor :: "editor_draft \<Rightarrow> preview_state \<Rightarrow> preview_state" where
  "updateEditor draft st = st\<lparr>pv_editor := map_option (\<lambda>e. e\<lparr>es_draft := draft\<rparr>) (pv_editor st)\<rparr>"

definition closeEditor :: "preview_state \<Rightarrow> preview_state" where
  "closeEditor st = st\<lparr>pv_editor := None\<rparr>"

definition preview_open :: "data_target \<Rightarrow> preview_state \<Rightarrow> preview_state" where
  "preview_open target st =
     \<lparr>pv_active = Some target,
      pv_editor = (if sameTarget (map_option es_target (pv_editor st)) (Some target)
                   then pv_editor st else None)\<rparr>"

definition preview_toggle :: "data_target \<Rightarrow> preview_state \<Rightarrow> preview_state" where
  "preview_toggle target st =
     \<lparr>pv_active = (if sameTarget (pv_active st) (Some target) then None else Some target),
      pv_editor = None\<rparr>"

definition preview_close :: "preview_state \<Rightarrow> preview_state" where
  "preview_close st = \<lparr>pv_active = None, pv_editor = None\<rparr>"

definition preview_remove :: "data_target \<Rightarrow> preview_state \<Rightarrow> preview_state" where
  "preview_remove target st = (if sameTarget (pv_active st) (Some target) then preview_close st else st)"

definition preview_rename :: "data_target \<Rightarrow> data_target \<Rightarrow> preview_state \<Rightarrow> preview_state" where
  "preview_rename old new st =
     (if \<not> sameTarget (pv_active st) (Some old) then st
      else
        let active = (case pv_active st of
              Some (Block _) \<Rightarrow>
                if ref_schema (objectRef new) = ''data'' then Block (ref_name (objectRef new)) else new
            | _ \<Rightarrow> new)
        in \<lparr>pv_active = Some active,
            pv_editor = map_option (\<lambda>e. e\<lparr>es_target := active\<rparr>) (pv_editor st)\<rparr>)"

definition preview_retainObjects :: "string list \<Rightarrow> preview_state \<Rightarrow> preview_state" where
  "preview_retainObjects keys st =
     (case pv_active st of
        Some target \<Rightarrow> if targetKey target \<notin> set keys then preview_close st else st
      | None \<Rightarrow> st)"

definition preview_retain :: "string list \<Rightarrow> preview_state \<Rightarrow> preview_state" where
  "preview_retain names st =
     (case pv_active st of
        Some (Block name) \<Rightarrow> if name \<notin> set names then preview_close st else st
      | _ \<Rightarrow> st)"

subsection \<open>Stores that toggle node ids\<close>

text \<open>
  The interface of an ordered set of node ids with a toggle: the selection and the pins provide it.
\<close>

locale toggle_store =
  fixes ids :: "'s \<Rightarrow> string list"
    and toggle :: "string \<Rightarrow> 's \<Rightarrow> 's"
  assumes toggle_empty: "toggle [] st = st"
    and toggle_off: "n \<noteq> [] \<Longrightarrow> n \<in> set (ids st) \<Longrightarrow> distinct (ids st) \<Longrightarrow>
      ids (toggle n st) = filter (\<lambda>i. i \<noteq> n) (ids st)"
    and toggle_on: "n \<noteq> [] \<Longrightarrow> n \<notin> set (ids st) \<Longrightarrow> ids (toggle n st) = ids st @ [n]"
begin

definition valid :: "'s \<Rightarrow> bool" where
  "valid st \<longleftrightarrow> distinct (ids st) \<and> [] \<notin> set (ids st)"

lemma toggle_valid:
  assumes "valid st"
  shows "valid (toggle n st)"
proof (cases "n = []")
  case False
  then show ?thesis using assms toggle_off [of n st] toggle_on [of n st]
    by (cases "n \<in> set (ids st)") (auto simp: valid_def)
qed (use assms in \<open>simp add: toggle_empty\<close>)

lemma toggle_member:
  assumes "valid st" and "n \<noteq> []"
  shows "m \<in> set (ids (toggle n st)) \<longleftrightarrow> (if m = n then n \<notin> set (ids st) else m \<in> set (ids st))"
  using assms toggle_off [of n st] toggle_on [of n st]
  by (cases "n \<in> set (ids st)") (auto simp: valid_def)

lemma toggle_order:
  assumes "valid st" and "n \<noteq> []"
  shows "filter (\<lambda>i. i \<noteq> n) (ids (toggle n st)) = filter (\<lambda>i. i \<noteq> n) (ids st)"
  using assms toggle_off [of n st] toggle_on [of n st]
  by (cases "n \<in> set (ids st)") (auto simp: valid_def)

end

interpretation sel: toggle_store selectedNodeIds toggleNode
  by unfold_locales (simp_all add: toggleNode_def)

lemma removeAll_filter: "removeAll n xs = filter (\<lambda>i. i \<noteq> n) xs"
  by (induction xs) auto

interpretation pin: toggle_store pinnedNodeIds togglePinnedNode
  by unfold_locales (simp_all add: togglePinnedNode_def distinct_remove1_removeAll removeAll_filter)

text \<open>The actions of the selection and pin stores, as steps.\<close>

inductive selection_reachable :: "selection_state \<Rightarrow> bool" where
  "selection_reachable initial_selection"
| "selection_reachable st \<Longrightarrow> selection_reachable (toggleNode n st)"
| "selection_reachable st \<Longrightarrow> selection_reachable (removeNode n st)"
| "selection_reachable st \<Longrightarrow> selection_reachable (replaceSelectedNodes ids st)"
| "selection_reachable st \<Longrightarrow> selection_reachable (clearSelection st)"

inductive pins_reachable :: "pinned_state \<Rightarrow> bool" where
  "pins_reachable \<lparr>pinnedNodeIds = []\<rparr>"
| "pins_reachable st \<Longrightarrow> pins_reachable (togglePinnedNode n st)"
| "pins_reachable st \<Longrightarrow> pins_reachable (unpinNode n st)"
| "pins_reachable st \<Longrightarrow> pins_reachable (prune names st)"
| "pins_reachable st \<Longrightarrow> pins_reachable (reset_pins st)"

lemma selection_valid: "selection_reachable st \<Longrightarrow> sel.valid st"
  by (induction rule: selection_reachable.induct)
    (auto simp: sel.toggle_valid,
     auto simp: sel.valid_def initial_selection_def removeNode_def replaceSelectedNodes_def
       clearSelection_def)

lemma pins_valid: "pins_reachable st \<Longrightarrow> pin.valid st"
  by (induction rule: pins_reachable.induct)
    (auto simp: pin.toggle_valid, auto simp: pin.valid_def unpinNode_def prune_def reset_pins_def)

text \<open>
  A selection reached by the store's actions holds every block at most once and never the empty
  name, and toggling a block flips exactly its own membership and keeps the order of the others.
\<close>

theorem selection_toggle_correct:
  assumes "selection_reachable st" and "n \<noteq> []"
  shows "distinct (selectedNodeIds st) \<and> [] \<notin> set (selectedNodeIds st) \<and>
    (n \<in> set (selectedNodeIds (toggleNode n st))) = (n \<notin> set (selectedNodeIds st)) \<and>
    filter (\<lambda>i. i \<noteq> n) (selectedNodeIds (toggleNode n st)) = filter (\<lambda>i. i \<noteq> n) (selectedNodeIds st)"
  using selection_valid [OF assms(1)] sel.toggle_member [of st n n] sel.toggle_order [of st n] assms(2)
  by (auto simp: sel.valid_def)

theorem selection_toggle_correct_witness:
  "distinct (selectedNodeIds (toggleNode ''a'' initial_selection)) \<and>
   ''a'' \<notin> set (selectedNodeIds (toggleNode ''a'' (toggleNode ''a'' initial_selection)))"
  using selection_toggle_correct [of "toggleNode ''a'' initial_selection" "''a''"]
  by (auto simp: toggleNode_def initial_selection_def intro: selection_reachable.intros)

text \<open>
  The pins reached by the store's actions have no duplicate and no empty name, and toggling a pin
  flips exactly that pin and keeps the pin sequence of the other blocks.
\<close>

theorem pins_toggle_correct:
  assumes "pins_reachable st" and "n \<noteq> []"
  shows "distinct (pinnedNodeIds st) \<and> [] \<notin> set (pinnedNodeIds st) \<and>
    isPinned n (togglePinnedNode n st) = (\<not> isPinned n st) \<and>
    filter (\<lambda>i. i \<noteq> n) (pinnedNodeIds (togglePinnedNode n st)) = filter (\<lambda>i. i \<noteq> n) (pinnedNodeIds st)"
  using pins_valid [OF assms(1)] pin.toggle_member [of st n n] pin.toggle_order [of st n] assms(2)
  by (auto simp: pin.valid_def isPinned_def)

theorem pins_toggle_correct_witness:
  "isPinned ''a'' (togglePinnedNode ''a'' \<lparr>pinnedNodeIds = []\<rparr>)"
  using pins_toggle_correct [of "\<lparr>pinnedNodeIds = []\<rparr>" "''a''"]
  by (simp add: isPinned_def pins_reachable.intros(1))

subsection \<open>Renaming and retaining inputs\<close>

lemma rename_input_node_id:
  "ni_node_id (rename_input_node p q i) = (if ni_node_id i = p then q else ni_node_id i)"
  by (simp add: rename_input_node_def)

lemma renamed_input_names:
  "input_names (rename_inputs p q st) = (\<lambda>n. if n = p then q else n) ` input_names st"
proof -
  have one: "ni_node_id ` (rename_input_node p q ` A) = (\<lambda>n. if n = p then q else n) ` (ni_node_id ` A)" for A
    by (auto simp: image_image rename_input_node_id)
  have sets: "set_option (map_option f x) = f ` set_option x" for f :: "node_input \<Rightarrow> node_input" and x
    by (cases x) simp_all
  have tools: "(\<Union>(tool, inputs) \<in> set (is_byTool (rename_inputs p q st)). set inputs) =
      rename_input_node p q ` (\<Union>(tool, inputs) \<in> set (is_byTool st). set inputs)"
    by (force simp: rename_inputs_def)
  show ?thesis
    unfolding input_names_def tools one [symmetric] image_Un
    by (simp add: rename_inputs_def sets image_Un)
qed

lemma retained_input_names:
  "input_names (retain_inputs names st) = input_names st \<inter> set names"
  by (force simp: input_names_def retain_inputs_def keep_input_def split: option.splits)

subsection \<open>Columns of a table view\<close>

lemma keys_update: "fst ` set (AList.update k v xs) = insert k (fst ` set xs)"
  by (induction xs) auto

lemma fromEntries_keys: "fst ` set (fromEntries entries) = fst ` set entries"
proof -
  have "fst ` set (fold (\<lambda>(k, v). AList.update k v) entries acc) = fst ` set entries \<union> fst ` set acc" for acc
    by (induction entries arbitrary: acc) (simp_all add: keys_update case_prod_beta)
  then show ?thesis by (simp add: fromEntries_def)
qed

lemma renamed_not_from: "to \<noteq> Some from \<Longrightarrow> from \<notin> set (renamed from to n)"
  by (auto simp: renamed_def split: option.split)

lemma renameKeys_not_from:
  assumes "to \<noteq> Some from"
  shows "(from, v) \<notin> set (renameKeys from to values_of)"
proof -
  have "from \<notin> fst ` set (renameKeys from to values_of)"
    unfolding renameKeys_def fromEntries_keys using renamed_not_from [OF assms] by fastforce
  then show ?thesis by force
qed

text \<open>
  After a column is renamed or deleted, the view of its table no longer mentions the old name in
  its sorting, widths, expansions or pins, and it shows the first page again.
\<close>

theorem changeColumn_forgets_old_name:
  assumes "to \<noteq> Some from"
  shows "\<exists>view. changeColumn name from to nodes name = Some view \<and>
    from \<notin> set (view_columns view) \<and> nv_page view = 1"
  by (auto simp: changeColumn_def view_columns_def Let_def renamed_not_from [OF assms]
      renameKeys_not_from [OF assms])

theorem changeColumn_forgets_old_name_witness:
  "\<exists>view. changeColumn ''t'' ''a'' (Some ''b'') [''t'' \<mapsto> (defaultNodeView :: nat node_view)\<lparr>nv_start := [''a'']\<rparr>]
     ''t'' = Some view \<and> ''a'' \<notin> set (view_columns view) \<and> nv_page view = 1"
  using changeColumn_forgets_old_name [of "Some ''b''" "''a''"] by simp

text \<open>
  Reconciling a view with the columns of its table leaves only columns the table has, and
  changes nothing when the view already mentions only those.
\<close>

theorem reconcileColumns_correct:
  assumes "nodes name = Some view"
  shows "(\<exists>view'. reconcileColumns name columns nodes name = Some view' \<and>
      set (view_columns view') = set (view_columns view) \<inter> set columns) \<and>
    (set (view_columns view) \<subseteq> set columns \<longrightarrow> reconcileColumns name columns nodes = nodes)"
proof -
  have "set (map fst (filter (\<lambda>(c, _). c \<in> set columns) xs)) = set (map fst xs) \<inter> set columns"
    for xs :: "(string \<times> 'v) list" by force
  then have "set (view_columns (view
            \<lparr>nv_page := 1,
             nv_sorting := filter (\<lambda>s. sort_id s \<in> set columns) (nv_sorting view),
             nv_widths := filter (\<lambda>(c, _). c \<in> set columns) (nv_widths view),
             nv_expanded := filter (\<lambda>(c, _). c \<in> set columns) (nv_expanded view),
             nv_start := filter (\<lambda>c. c \<in> set columns) (nv_start view),
             nv_end := filter (\<lambda>c. c \<in> set columns) (nv_end view)\<rparr>)) =
      set (view_columns view) \<inter> set columns"
    by (auto simp: view_columns_def)
  then show ?thesis using assms
    by (auto simp: reconcileColumns_def list_all_iff)
qed

theorem reconcileColumns_correct_witness:
  "\<exists>view'. reconcileColumns ''t'' [''a''] [''t'' \<mapsto> (defaultNodeView :: nat node_view)\<lparr>nv_start := [''a'', ''b'']\<rparr>]
     ''t'' = Some view' \<and> set (view_columns view') = {''a''}"
  using reconcileColumns_correct
    [of "[''t'' \<mapsto> (defaultNodeView :: nat node_view)\<lparr>nv_start := [''a'', ''b'']\<rparr>]" "''t''"
      "(defaultNodeView :: nat node_view)\<lparr>nv_start := [''a'', ''b'']\<rparr>" "[''a'']"]
  by (simp add: view_columns_def defaultNodeView_def)

subsection \<open>The editor session follows the preview\<close>

inductive preview_reachable :: "preview_state \<Rightarrow> bool" where
  pv_initial: "preview_reachable initial_preview"
| pv_edit: "preview_reachable st \<Longrightarrow> preview_reachable (preview_edit target tool column st)"
| pv_update: "preview_reachable st \<Longrightarrow> preview_reachable (updateEditor draft st)"
| pv_closeEditor: "preview_reachable st \<Longrightarrow> preview_reachable (closeEditor st)"
| pv_open: "preview_reachable st \<Longrightarrow> preview_reachable (preview_open target st)"
| pv_toggle: "preview_reachable st \<Longrightarrow> preview_reachable (preview_toggle target st)"
| pv_close: "preview_reachable st \<Longrightarrow> preview_reachable (preview_close st)"
| pv_remove: "preview_reachable st \<Longrightarrow> preview_reachable (preview_remove target st)"
| pv_rename: "preview_reachable st \<Longrightarrow> preview_reachable (preview_rename old new st)"
| pv_retain: "preview_reachable st \<Longrightarrow> preview_reachable (preview_retain names st)"
| pv_retainObjects: "preview_reachable st \<Longrightarrow> preview_reachable (preview_retainObjects keys st)"

definition editor_follows :: "preview_state \<Rightarrow> bool" where
  "editor_follows st \<longleftrightarrow>
     (case pv_editor st of
        None \<Rightarrow> True
      | Some session \<Rightarrow> sameTarget (Some (es_target session)) (pv_active st))"

lemmas preview_actions =
  initial_preview_def preview_edit_def updateEditor_def closeEditor_def preview_open_def
  preview_toggle_def preview_close_def preview_remove_def preview_rename_def preview_retain_def
  preview_retainObjects_def

lemma sameTarget_left:
  "sameTarget (Some l) t \<longleftrightarrow> (\<exists>r. t = Some r \<and> objectRef l = objectRef r)"
  "sameTarget t (Some l) \<longleftrightarrow> (\<exists>r. t = Some r \<and> objectRef r = objectRef l)"
  by (cases t; auto)+

lemma preview_invariant: "preview_reachable st \<Longrightarrow> editor_follows st"
  by (induction rule: preview_reachable.induct)
    (auto simp: editor_follows_def preview_actions Let_def sameTarget_left
      split: option.splits data_target.splits)

text \<open>
  An open data editor always edits the object that is previewed: in every state the preview
  store can reach, by any sequence of its actions including renames and removals, an editor session
  has the active target.
\<close>

theorem editor_session_follows_preview:
  assumes "preview_reachable st" and "pv_editor st = Some session"
  shows "\<exists>target. pv_active st = Some target \<and> objectRef (es_target session) = objectRef target"
  using preview_invariant [OF assms(1)] assms(2)
  by (cases "pv_active st") (auto simp: editor_follows_def)

theorem editor_session_follows_preview_witness:
  "\<exists>session target. pv_editor (preview_rename (Block ''a'') (Block ''b'')
       (preview_edit (Block ''a'') E_clean ''c'' initial_preview)) = Some session \<and>
     pv_active (preview_rename (Block ''a'') (Block ''b'')
       (preview_edit (Block ''a'') E_clean ''c'' initial_preview)) = Some target \<and>
     objectRef (es_target session) = objectRef target"
proof -
  let ?st = "preview_rename (Block ''a'') (Block ''b'') (preview_edit (Block ''a'') E_clean ''c'' initial_preview)"
  have "preview_reachable ?st" by (intro preview_reachable.intros)
  moreover obtain session where "pv_editor ?st = Some session"
    by (simp add: preview_rename_def preview_edit_def Let_def)
  ultimately show ?thesis using editor_session_follows_preview by blast
qed

end
