(* ===== verification/Js_Value.thy ===== *)
theory Js_Value
  imports Js_Number "HOL-Library.AList"
begin

text \<open>
  Plain JavaScript data: the values that requests and responses hold. An object is the list of its
  own properties in insertion order; writing a property replaces it in place or appends it.
\<close>

datatype js =
    JS_Undefined
  | JS_Null
  | JS_Bool bool
  | JS_Number js_number
  | JS_String string
  | JS_Array "js list"
  | JS_Object "(string \<times> js) list"

definition get_member :: "(string \<times> js) list \<Rightarrow> string \<Rightarrow> js" where
  "get_member props name = (case map_of props name of Some v \<Rightarrow> v | None \<Rightarrow> JS_Undefined)"

fun get :: "js \<Rightarrow> string \<Rightarrow> js" where
  "get (JS_Object props) name = get_member props name"
| "get _ name = JS_Undefined"

fun put :: "string \<Rightarrow> js \<Rightarrow> js \<Rightarrow> js" where
  "put name v (JS_Object props) = JS_Object (AList.update name v props)"
| "put name v other = JS_Object [(name, v)]"

fun truthy :: "js \<Rightarrow> bool" where
  "truthy JS_Undefined = False"
| "truthy JS_Null = False"
| "truthy (JS_Bool b) = b"
| "truthy (JS_Number n) = (n \<noteq> NaN \<and> n \<noteq> Finite 0)"
| "truthy (JS_String s) = (s \<noteq> [])"
| "truthy (JS_Array _) = True"
| "truthy (JS_Object _) = True"

lemma get_member_update [simp]:
  "get_member (AList.update name v props) other = (if other = name then v else get_member props other)"
  by (simp add: get_member_def update_conv')

lemma get_put [simp]:
  "get (put name v (JS_Object props)) other = (if other = name then v else get (JS_Object props) other)"
  by simp

lemma update_twice [simp]: "AList.update k v (AList.update k w ps) = AList.update k v ps"
  by (induction ps) auto

lemma put_twice [simp]: "put name v (put name w value) = put name v value"
  by (cases "value") simp_all

end
