(* ===== verification/References.thy ===== *)
theory References
  imports Objects Js_Value
begin

text \<open>
  References from analysis requests to tables and columns, and their renaming:
  \<open>features/tools/common/renameReferences.ts\<close>. The case folding \<open>lower\<close> is the language's Unicode
  \<open>toLowerCase\<close>, a parameter of the definitions.
\<close>

subsection \<open>Renames and inputs\<close>

datatype reference_rename =
    Rename_table (rn_source: object_ref) (rn_name: string)
  | Rename_column (rn_source: object_ref) (rn_before: string) (rn_after: string)

record source_ref =
  src_schema :: "string option"
  src_name :: string

text \<open>An input: its source, and its other properties in order.\<close>

record tool_input =
  ti_source :: source_ref
  ti_fields :: "(string \<times> js) list"

definition source_object :: "source_ref \<Rightarrow> object_ref" where
  "source_object source = objectRef (Object_Target (src_schema source) (src_name source))"

definition isRenameSource :: "(string \<Rightarrow> string) \<Rightarrow> source_ref \<Rightarrow> reference_rename \<Rightarrow> bool" where
  "isRenameSource lower source rename \<longleftrightarrow>
     lower (ref_schema (source_object source)) = lower (ref_schema (rn_source rename)) \<and>
     lower (src_name source) = lower (ref_name (rn_source rename))"

definition rename_value :: "(string \<Rightarrow> string) \<Rightarrow> string \<Rightarrow> string \<Rightarrow> js \<Rightarrow> js" where
  "rename_value lower before after v =
     (case v of JS_String s \<Rightarrow> if lower s = lower before then JS_String after else v | _ \<Rightarrow> v)"

definition rename_field :: "(string \<Rightarrow> string) \<Rightarrow> string \<Rightarrow> string \<Rightarrow> js \<Rightarrow> js" where
  "rename_field lower before after v =
     (case v of JS_Array vs \<Rightarrow> JS_Array (map (rename_value lower before after) vs)
      | _ \<Rightarrow> rename_value lower before after v)"

definition rename_fields ::
    "(string \<Rightarrow> string) \<Rightarrow> string \<Rightarrow> string \<Rightarrow> string list \<Rightarrow> (string \<times> js) list \<Rightarrow> (string \<times> js) list" where
  "rename_fields lower before after names props =
     fold (\<lambda>field. AList.update field (rename_field lower before after (get_member props field))) names props"

definition renameInput ::
    "(string \<Rightarrow> string) \<Rightarrow> tool_input \<Rightarrow> reference_rename \<Rightarrow> string list \<Rightarrow> tool_input" where
  "renameInput lower input rename names =
     (if \<not> isRenameSource lower (ti_source input) rename then input
      else case rename of
             Rename_table source name \<Rightarrow> input\<lparr>ti_source := (ti_source input)\<lparr>src_name := name\<rparr>\<rparr>
           | Rename_column source before after \<Rightarrow>
               input\<lparr>ti_fields := rename_fields lower before after names (ti_fields input)\<rparr>)"

subsection \<open>What a renaming changes\<close>

lemma fold_update_member:
  "get_member (fold (\<lambda>field. AList.update field (f field)) names props) name =
     (if name \<in> set names then f name else get_member props name)"
proof (induction names arbitrary: props)
  case (Cons field names)
  then show ?case by (cases "name \<in> set names") auto
qed simp

lemma rename_fields_member [simp]:
  "get_member (rename_fields lower before after names props) name =
     (if name \<in> set names then rename_field lower before after (get_member props name)
      else get_member props name)"
  by (simp add: rename_fields_def fold_update_member)

text \<open>The strings a value refers to, directly or as elements of an array.\<close>

fun referred :: "js \<Rightarrow> string set" where
  "referred (JS_String s) = {s}"
| "referred (JS_Array vs) = {s. JS_String s \<in> set vs}"
| "referred _ = {}"

lemma referred_rename_field:
  "referred (rename_field lower before after v) =
     (\<lambda>s. if lower s = lower before then after else s) ` referred v"
proof (cases v)
  case (JS_Array vs)
  have "JS_String s \<in> rename_value lower before after ` set vs \<longleftrightarrow>
      s \<in> (\<lambda>s. if lower s = lower before then after else s) ` {s. JS_String s \<in> set vs}" for s
    by (auto simp: rename_value_def image_iff split: js.split if_split_asm; metis js.exhaust)
  then show ?thesis using JS_Array by (auto simp: rename_field_def)
qed (simp_all add: rename_field_def rename_value_def)

lemma isRenameSource_self: "isRenameSource lower \<lparr>src_schema = Some (ref_schema r), src_name = ref_name r\<rparr> rename \<longleftrightarrow>
   lower (ref_schema r) = lower (ref_schema (rn_source rename)) \<and> lower (ref_name r) = lower (ref_name (rn_source rename))"
  by (simp add: isRenameSource_def source_object_def objectRef_def)

text \<open>
  A column rename reaches every reference of an input to the renamed column and nothing else:
  in each field the tool declares, the old name is replaced wherever it occurs, alone or in a list,
  the other names stay, and the fields the tool does not declare and the source are untouched.
\<close>

theorem renameInput_column:
  assumes "isRenameSource lower (ti_source input) (Rename_column source before after)"
  shows "ti_source (renameInput lower input (Rename_column source before after) names) = ti_source input \<and>
    referred (get_member (ti_fields (renameInput lower input (Rename_column source before after) names)) field) =
      (if field \<in> set names
       then (\<lambda>s. if lower s = lower before then after else s) ` referred (get_member (ti_fields input) field)
       else referred (get_member (ti_fields input) field))"
  using assms by (simp add: renameInput_def referred_rename_field)

theorem renameInput_column_witness:
  "referred (get_member (ti_fields (renameInput fold_case
     \<lparr>ti_source = \<lparr>src_schema = None, src_name = ''t''\<rparr>,
      ti_fields = [(''axis'', JS_String ''day''), (''groups'', JS_Array [JS_String ''Year'', JS_String ''kind''])]\<rparr>
     (Rename_column \<lparr>ref_schema = ''data'', ref_name = ''T''\<rparr> ''year'' ''y'') [''axis'', ''groups''])) ''groups'') =
   {''y'', ''kind''}"
proof -
  have "isRenameSource fold_case \<lparr>src_schema = None, src_name = ''t''\<rparr>
      (Rename_column \<lparr>ref_schema = ''data'', ref_name = ''T''\<rparr> ''year'' ''y'')"
    by code_simp
  moreover have "fold_case ''Year'' = fold_case ''year''" "fold_case ''kind'' \<noteq> fold_case ''year''" by code_simp+
  ultimately show ?thesis
    using renameInput_column [of fold_case "\<lparr>ti_source = \<lparr>src_schema = None, src_name = ''t''\<rparr>,
      ti_fields = [(''axis'', JS_String ''day''), (''groups'', JS_Array [JS_String ''Year'', JS_String ''kind''])]\<rparr>"
      "\<lparr>ref_schema = ''data'', ref_name = ''T''\<rparr>" "''year''" "''y''" "[''axis'', ''groups'']" "''groups''"]
    by (auto simp: get_member_def split: if_split_asm)
qed

end
