(* ===== verification/Draft_Store.thy ===== *)
theory Draft_Store
  imports References
begin

text \<open>
  Drafts of analysis requests, one store per tool: \<open>features/tools/common/analysisDraftStore.ts\<close> and
  \<open>renamedDrafts\<close> of \<open>renameReferences.ts\<close>. A draft is kept under the JSON text of its project's base
  and its tab's identifier. The locale \<open>draft_keys\<close> states what the stores rely on: the key of a pair
  is parsed back to the pair.
\<close>

subsection \<open>Renaming in drafts\<close>

text \<open>
  \<open>(JSON.parse(key) as [string, string])[0] === base\<close>; a key that is not the text of an array of
  strings, which no action writes, is an error.
\<close>

definition key_has_base :: "string \<Rightarrow> string \<Rightarrow> bool result" where
  "key_has_base base key =
     (case parse_json_strings key of
        None \<Rightarrow> throw ''Unexpected token in JSON''
      | Some parts \<Rightarrow> Inr (case parts of [] \<Rightarrow> False | first # _ \<Rightarrow> first = base))"

definition renamedDrafts ::
    "('r \<Rightarrow> reference_rename \<Rightarrow> 'r) \<Rightarrow> (string \<times> 'r) list \<Rightarrow> string \<Rightarrow> reference_rename \<Rightarrow> (string \<times> 'r) list result" where
  "renamedDrafts update drafts base rename =
     rmap (\<lambda>(key, draft).
       rbind (key_has_base base key) (\<lambda>owned. Inr (key, if owned then update draft rename else draft))) drafts"

locale draft_keys =
  fixes key :: "string \<Rightarrow> string \<Rightarrow> string"
  assumes parsed: "parse_json_strings (key base tab) = Some [base, tab]"
begin

definition keyed :: "(string \<times> 'v) list \<Rightarrow> bool" where
  "keyed entries \<longleftrightarrow> fst ` set entries \<subseteq> range (\<lambda>(base, tab). key base tab)"

lemma key_inj [simp]: "key base tab = key base' tab' \<longleftrightarrow> base = base' \<and> tab = tab'"
  by (metis list.inject option.inject parsed)

lemma key_has_base [simp]: "key_has_base base (key base' tab) = Inr (base' = base)"
  by (simp add: key_has_base_def parsed)

lemma keyed_Nil [simp]: "keyed []"
  by (simp add: keyed_def)

lemma keyed_update [simp]: "keyed entries \<Longrightarrow> keyed (AList.update (key base tab) v entries)"
  using dom_update [of "key base tab" v entries] by (auto simp: keyed_def dom_map_of_conv_image_fst)

lemma keyed_filter [simp]: "keyed entries \<Longrightarrow> keyed (filter P entries)"
  by (auto simp: keyed_def)

lemma renamedDrafts_total:
  assumes "keyed drafts"
  shows "\<exists>drafts'. renamedDrafts update drafts base rename = Inr drafts' \<and>
    map fst drafts' = map fst drafts \<and>
    (\<forall>base' tab. map_of drafts' (key base' tab) =
      map_option (\<lambda>draft. if base' = base then update draft rename else draft) (map_of drafts (key base' tab)))"
  using assms
proof (induction drafts)
  case Nil
  show ?case by (simp add: renamedDrafts_def)
next
  case (Cons entry drafts)
  then obtain owner tab draft where entry: "entry = (key owner tab, draft)"
    by (cases entry) (auto simp: keyed_def)
  from Cons obtain drafts' where IH: "renamedDrafts update drafts base rename = Inr drafts'"
    "map fst drafts' = map fst drafts"
    "\<forall>base' tab. map_of drafts' (key base' tab) =
      map_option (\<lambda>draft. if base' = base then update draft rename else draft) (map_of drafts (key base' tab))"
    by (auto simp: keyed_def)
  then show ?case by (auto simp: renamedDrafts_def entry)
qed

end

subsection \<open>The store\<close>

definition analysisDraftKey :: "string \<Rightarrow> string \<Rightarrow> string" where
  "analysisDraftKey base tab = json_strings [base, tab]"

interpretation draft: draft_keys analysisDraftKey
  by unfold_locales (simp add: analysisDraftKey_def)

record 'r preview_request =
  pr_request :: 'r
  pr_generation :: nat

record 'r draft_state =
  ds_active :: "(string \<times> string) list"
  ds_drafts :: "(string \<times> 'r) list"
  ds_previews :: "(string \<times> 'r preview_request) list"

definition initial_drafts :: "'r draft_state" where
  "initial_drafts = \<lparr>ds_active = [], ds_drafts = [], ds_previews = []\<rparr>"

definition without_key :: "string \<Rightarrow> (string \<times> 'v) list \<Rightarrow> (string \<times> 'v) list" where
  "without_key key entries = filter (\<lambda>(k, v). k \<noteq> key) entries"

definition reconcile ::
    "('r \<Rightarrow> reference_rename \<Rightarrow> 'r) \<Rightarrow> string \<Rightarrow> reference_rename \<Rightarrow> 'r draft_state \<Rightarrow> 'r draft_state result" where
  "reconcile renameRequest base rename st =
     rbind (renamedDrafts renameRequest (ds_drafts st) base rename) (\<lambda>drafts. Inr (st\<lparr>ds_drafts := drafts\<rparr>))"

definition discardPreview :: "string \<Rightarrow> string \<Rightarrow> 'r draft_state \<Rightarrow> 'r draft_state" where
  "discardPreview base tab st = st\<lparr>ds_previews := without_key (analysisDraftKey base tab) (ds_previews st)\<rparr>"

definition activate :: "string \<Rightarrow> string \<Rightarrow> 'r draft_state \<Rightarrow> 'r draft_state" where
  "activate base tab st = st\<lparr>ds_active := AList.update base tab (ds_active st)\<rparr>"

definition setDraft :: "string \<Rightarrow> string \<Rightarrow> 'r \<Rightarrow> 'r draft_state \<Rightarrow> 'r draft_state" where
  "setDraft base tab draft st = st\<lparr>ds_drafts := AList.update (analysisDraftKey base tab) draft (ds_drafts st)\<rparr>"

definition preview_generation :: "string \<Rightarrow> 'r draft_state \<Rightarrow> nat" where
  "preview_generation key st = (case map_of (ds_previews st) key of Some p \<Rightarrow> pr_generation p | None \<Rightarrow> 0)"

definition handoff :: "string \<Rightarrow> string \<Rightarrow> 'r \<Rightarrow> 'r draft_state \<Rightarrow> 'r draft_state" where
  "handoff base tab draft st =
     st\<lparr>ds_active := AList.update base tab (ds_active st),
        ds_drafts := AList.update (analysisDraftKey base tab) draft (ds_drafts st),
        ds_previews := AList.update (analysisDraftKey base tab)
          \<lparr>pr_request = draft, pr_generation = preview_generation (analysisDraftKey base tab) st + 1\<rparr>
          (ds_previews st)\<rparr>"

definition remove_draft :: "string \<Rightarrow> string \<Rightarrow> 'r draft_state \<Rightarrow> 'r draft_state" where
  "remove_draft base tab st =
     st\<lparr>ds_drafts := without_key (analysisDraftKey base tab) (ds_drafts st),
        ds_active := filter (\<lambda>(key, value). key \<noteq> base \<or> value \<noteq> tab) (ds_active st),
        ds_previews := without_key (analysisDraftKey base tab) (ds_previews st)\<rparr>"

inductive drafts_reachable :: "('r \<Rightarrow> reference_rename \<Rightarrow> 'r) \<Rightarrow> 'r draft_state \<Rightarrow> bool" for renameRequest where
  drafts_initial: "drafts_reachable renameRequest initial_drafts"
| drafts_reconcile: "drafts_reachable renameRequest st \<Longrightarrow> reconcile renameRequest base rename st = Inr st' \<Longrightarrow>
    drafts_reachable renameRequest st'"
| drafts_discard: "drafts_reachable renameRequest st \<Longrightarrow> drafts_reachable renameRequest (discardPreview base tab st)"
| drafts_activate: "drafts_reachable renameRequest st \<Longrightarrow> drafts_reachable renameRequest (activate base tab st)"
| drafts_set: "drafts_reachable renameRequest st \<Longrightarrow> drafts_reachable renameRequest (setDraft base tab draft st)"
| drafts_handoff: "drafts_reachable renameRequest st \<Longrightarrow> drafts_reachable renameRequest (handoff base tab draft st)"
| drafts_remove: "drafts_reachable renameRequest st \<Longrightarrow> drafts_reachable renameRequest (remove_draft base tab st)"

subsection \<open>Laws\<close>

definition draft_of :: "string \<Rightarrow> string \<Rightarrow> 'r draft_state \<Rightarrow> 'r option" where
  "draft_of base tab st = map_of (ds_drafts st) (analysisDraftKey base tab)"

lemma map_of_without_key [simp]: "map_of (without_key k entries) k' = (if k' = k then None else map_of entries k')"
  by (induction entries) (auto simp: without_key_def)

lemma keyed_without_key [simp]: "draft.keyed entries \<Longrightarrow> draft.keyed (without_key k entries)"
  by (simp add: without_key_def)

lemma distinct_without_key [simp]: "distinct (map fst entries) \<Longrightarrow> distinct (map fst (without_key k entries))"
  by (auto simp: without_key_def distinct_map inj_on_def)

lemma reconcile_drafts:
  assumes "draft.keyed (ds_drafts st)"
  shows "\<exists>st'. reconcile renameRequest base rename st = Inr st' \<and>
    ds_active st' = ds_active st \<and> ds_previews st' = ds_previews st \<and>
    map fst (ds_drafts st') = map fst (ds_drafts st) \<and>
    (\<forall>base' tab. draft_of base' tab st' =
      map_option (\<lambda>draft. if base' = base then renameRequest draft rename else draft) (draft_of base' tab st))"
proof -
  from draft.renamedDrafts_total [OF assms] obtain drafts' where
    "renamedDrafts renameRequest (ds_drafts st) base rename = Inr drafts'"
    "map fst drafts' = map fst (ds_drafts st)"
    "\<forall>base' tab. map_of drafts' (analysisDraftKey base' tab) =
      map_option (\<lambda>draft. if base' = base then renameRequest draft rename else draft)
        (map_of (ds_drafts st) (analysisDraftKey base' tab))" by blast
  then show ?thesis by (auto simp: reconcile_def draft_of_def)
qed

lemma drafts_keyed: "drafts_reachable renameRequest st \<Longrightarrow> draft.keyed (ds_drafts st)"
proof (induction rule: drafts_reachable.induct)
  case (drafts_reconcile st base rename st')
  from reconcile_drafts [OF drafts_reconcile.IH, of renameRequest base rename] drafts_reconcile.hyps(2)
  have "map fst (ds_drafts st') = map fst (ds_drafts st)" by auto
  then have "fst ` set (ds_drafts st') = fst ` set (ds_drafts st)" by (metis image_set)
  with drafts_reconcile.IH show ?case by (simp add: draft.keyed_def)
qed (simp_all add: initial_drafts_def discardPreview_def activate_def setDraft_def handoff_def remove_draft_def)

text \<open>
  Renaming in the drafts of a tool never fails and stays within its project: in every state the
  store's actions reach, reconciling a rename succeeds, updates each draft of the renamed project by
  the tool's own renaming, and changes neither the drafts of another project nor the active tabs nor
  the previews.
\<close>

theorem reconcile_within_project:
  assumes "drafts_reachable renameRequest st"
  shows "\<exists>st'. reconcile renameRequest base rename st = Inr st' \<and>
    ds_active st' = ds_active st \<and> ds_previews st' = ds_previews st \<and>
    draft_of base tab st' = map_option (\<lambda>draft. renameRequest draft rename) (draft_of base tab st) \<and>
    (base' = base \<or> draft_of base' tab st' = draft_of base' tab st)"
  using reconcile_drafts [OF drafts_keyed [OF assms], of renameRequest base rename]
  by (cases "base' = base") (auto simp: option.map_ident)

theorem reconcile_within_project_witness:
  "\<exists>st'. reconcile (\<lambda>(n :: nat) r. n + 1) ''p'' (Rename_table \<lparr>ref_schema = ''data'', ref_name = ''a''\<rparr> ''b'')
      (setDraft ''q'' ''1'' 5 (setDraft ''p'' ''1'' 7 initial_drafts)) = Inr st' \<and>
    draft_of ''p'' ''1'' st' = Some 8 \<and> draft_of ''q'' ''1'' st' = Some 5"
proof -
  let ?st = "setDraft ''q'' ''1'' (5 :: nat) (setDraft ''p'' ''1'' 7 initial_drafts)"
  have reach: "drafts_reachable (\<lambda>n r. n + 1) ?st"
    by (intro drafts_set drafts_initial)
  have "draft_of ''p'' ''1'' ?st = Some 7" "draft_of ''q'' ''1'' ?st = Some 5"
    by (simp_all add: draft_of_def setDraft_def initial_drafts_def update_conv')
  with reconcile_within_project [OF reach, of "''p''" "Rename_table \<lparr>ref_schema = ''data'', ref_name = ''a''\<rparr> ''b''" "''1''" "''q''"]
  show ?thesis by fastforce
qed

text \<open>
  What the draft store returns is what was stored: after a draft is set, handed off or removed,
  its own tab has the new draft, respectively none, and every other tab of every project keeps its
  draft; a hand-off also makes its tab the active one of its project and gives its preview the next
  generation, and a removed tab is no longer active and has no preview.
\<close>

theorem draft_store_laws:
  "draft_of base' tab' (setDraft base tab draft st) =
     (if (base', tab') = (base, tab) then Some draft else draft_of base' tab' st) \<and>
   draft_of base' tab' (handoff base tab draft st) =
     (if (base', tab') = (base, tab) then Some draft else draft_of base' tab' st) \<and>
   map_of (ds_active (handoff base tab draft st)) base = Some tab \<and>
   preview_generation (analysisDraftKey base tab) (handoff base tab draft st) =
     preview_generation (analysisDraftKey base tab) st + 1 \<and>
   draft_of base' tab' (remove_draft base tab st) =
     (if (base', tab') = (base, tab) then None else draft_of base' tab' st) \<and>
   (base, tab) \<notin> set (ds_active (remove_draft base tab st)) \<and>
   map_of (ds_previews (remove_draft base tab st)) (analysisDraftKey base tab) = None"
  by (auto simp: draft_of_def setDraft_def handoff_def remove_draft_def preview_generation_def update_conv')

end
