(* ===== verification/Tool_Drafts.thy ===== *)
theory Tool_Drafts
  imports Draft_Store
begin

text \<open>
  The drafts of the analysis tools: \<open>concordanceState.ts\<close>, \<open>quotationState.ts\<close>, \<open>topicState.ts\<close>,
  \<open>plotState.ts\<close>, \<open>annotationState.ts\<close> and \<open>frequencyState.ts\<close> under \<open>features/tools\<close>, with the
  renaming each of them gives to the shared draft store, and \<open>reconcileAnalysisDrafts.ts\<close>, which
  applies a list of renames to all six stores.
\<close>

subsection \<open>Concordance, topics and quotations\<close>

record 's concordance_request =
  cr_inputs :: "tool_input list"
  cr_search :: 's

definition rename_concordance ::
    "(string \<Rightarrow> string) \<Rightarrow> 's concordance_request \<Rightarrow> reference_rename \<Rightarrow> 's concordance_request" where
  "rename_concordance lower request rename =
     request\<lparr>cr_inputs := map (\<lambda>input. renameInput lower input rename [''column'']) (cr_inputs request)\<rparr>"

record 't topic_request =
  tr_inputs :: "tool_input list"
  tr_settings :: 't

definition rename_topic ::
    "(string \<Rightarrow> string) \<Rightarrow> 't topic_request \<Rightarrow> reference_rename \<Rightarrow> 't topic_request" where
  "rename_topic lower request rename =
     request\<lparr>tr_inputs := map (\<lambda>input. renameInput lower input rename [''column'']) (tr_inputs request)\<rparr>"

record quotation_request =
  qr_input :: tool_input

definition rename_quotation ::
    "(string \<Rightarrow> string) \<Rightarrow> quotation_request \<Rightarrow> reference_rename \<Rightarrow> quotation_request" where
  "rename_quotation lower request rename =
     request\<lparr>qr_input := renameInput lower (qr_input request) rename [''column'']\<rparr>"

text \<open>The sampling choices of topic modelling, per project and tab.\<close>

type_synonym 'c sampling_state = "(string \<times> (string \<times> 'c) list) list"

definition setChoices :: "string \<Rightarrow> string \<Rightarrow> (string \<times> 'c) list \<Rightarrow> 'c sampling_state \<Rightarrow> 'c sampling_state" where
  "setChoices base tab choices st = AList.update (analysisDraftKey base tab) choices st"

definition remove_choices :: "string \<Rightarrow> string \<Rightarrow> 'c sampling_state \<Rightarrow> 'c sampling_state" where
  "remove_choices base tab st = without_key (analysisDraftKey base tab) st"

subsection \<open>Annotations\<close>

record annotation_setup =
  as_input :: tool_input
  as_codebook :: "tool_input option"

record 'x annotation_execution =
  ae_settings :: 'x
  ae_examples :: "tool_input option"

record 'x annotation_draft =
  ad_setup :: annotation_setup
  ad_execution :: "'x annotation_execution option"

definition renameAnnotationDraft ::
    "(string \<Rightarrow> string) \<Rightarrow> 'x annotation_draft \<Rightarrow> reference_rename \<Rightarrow> 'x annotation_draft" where
  "renameAnnotationDraft lower request rename =
     request\<lparr>ad_setup := \<lparr>
          as_input = renameInput lower (as_input (ad_setup request)) rename [''document'', ''annotation'', ''correction''],
          as_codebook = map_option (\<lambda>codebook. renameInput lower codebook rename [''code'', ''description''])
            (as_codebook (ad_setup request))\<rparr>,
        ad_execution := map_option (\<lambda>execution. execution\<lparr>ae_examples :=
            map_option (\<lambda>examples. renameInput lower examples rename [''text'', ''label'']) (ae_examples execution)\<rparr>)
          (ad_execution request)\<rparr>"

subsection \<open>Plots\<close>

definition plotModes :: "string list" where
  "plotModes = [''trends'', ''compare'', ''scatter'', ''heatmap'', ''sankey'']"

definition plotScope :: "string \<Rightarrow> string \<Rightarrow> string" where
  "plotScope base mode = json_strings [base, mode]"

interpretation plot_scope: draft_keys plotScope
  by unfold_locales (simp add: plotScope_def)

definition setMode :: "string \<Rightarrow> string \<Rightarrow> (string \<times> string) list \<Rightarrow> (string \<times> string) list" where
  "setMode base mode modes = AList.update base mode modes"

definition has_field :: "tool_input \<Rightarrow> string \<Rightarrow> bool" where
  "has_field request name \<longleftrightarrow> name \<in> fst ` set (ti_fields request)"

definition field :: "tool_input \<Rightarrow> string \<Rightarrow> js" where
  "field request name = get_member (ti_fields request) name"

text \<open>
  \<open>groups.every(Boolean)\<close> and \<open>stages.length\<close>; the requests hold arrays there, and reading a method or
  the length of a missing value throws.
\<close>

definition array_of :: "js \<Rightarrow> js list result" where
  "array_of v = (case v of JS_Array vs \<Rightarrow> Inr vs | _ \<Rightarrow> throw ''Expected an array'')"

definition plotReady :: "tool_input \<Rightarrow> bool result" where
  "plotReady r =
     (if src_name (ti_source r) = [] then Inr False
      else if has_field r ''measure'' \<and> field r ''measure'' \<noteq> JS_String ''count'' \<and> \<not> truthy (field r ''value'')
      then Inr False
      else if has_field r ''axis''
      then if \<not> truthy (field r ''axis'') then Inr False
           else rbind (array_of (field r ''groups'')) (\<lambda>groups. Inr (list_all truthy groups))
      else if has_field r ''category'' then Inr (truthy (field r ''category''))
      else if has_field r ''x'' then Inr (truthy (field r ''x'') \<and> truthy (field r ''y''))
      else if has_field r ''row'' then Inr (truthy (field r ''row'') \<and> truthy (field r ''column''))
      else rbind (array_of (field r ''stages'')) (\<lambda>stages. Inr (length stages \<ge> 2)))"

definition plot_fields :: "tool_input \<Rightarrow> string list" where
  "plot_fields request =
     (if has_field request ''axis'' then [''axis'', ''groups'', ''value'']
      else if has_field request ''category'' then [''category'', ''stack'', ''value'']
      else if has_field request ''x'' then [''x'', ''y'', ''color'', ''size'', ''label'']
      else if has_field request ''row'' then [''row'', ''column'', ''value'']
      else [''stages'', ''value''])"

definition renamePlotRequest :: "(string \<Rightarrow> string) \<Rightarrow> tool_input \<Rightarrow> reference_rename \<Rightarrow> tool_input" where
  "renamePlotRequest lower request rename = renameInput lower request rename (plot_fields request)"

subsection \<open>Frequencies\<close>

datatype frequency_view = View_cloud | View_list

record frequency_display =
  fd_display :: frequency_view
  fd_cloudLimit :: nat
  fd_listLimit :: "nat option"
  fd_filter :: string
  fd_comparisonSort :: string
  fd_comparisonDescending :: bool
  fd_comparisonRows :: nat

definition defaultFrequencyDisplay :: frequency_display where
  "defaultFrequencyDisplay =
     \<lparr>fd_display = View_cloud, fd_cloudLimit = 50, fd_listLimit = None, fd_filter = [],
      fd_comparisonSort = ''log_likelihood_llv'', fd_comparisonDescending = True, fd_comparisonRows = 50\<rparr>"

record frequency_draft =
  fq_inputs :: "tool_input list"
  fq_study :: "string option"

record frequency_state =
  fs_display :: "(string \<times> frequency_display) list"
  fs_active :: "(string \<times> string) list"
  fs_drafts :: "(string \<times> frequency_draft) list"

definition draftKey :: "string \<Rightarrow> string \<Rightarrow> string" where
  "draftKey base tab = json_strings [base, tab]"

interpretation frequency: draft_keys draftKey
  by unfold_locales (simp add: draftKey_def)

definition initial_frequency :: frequency_state where
  "initial_frequency = \<lparr>fs_display = [], fs_active = [], fs_drafts = []\<rparr>"

text \<open>\<open>patch\<close> is the function that overwrites the members the patch names.\<close>

definition setDisplay ::
    "string \<Rightarrow> string \<Rightarrow> (frequency_display \<Rightarrow> frequency_display) \<Rightarrow> frequency_state \<Rightarrow> frequency_state" where
  "setDisplay base tab patch st =
     st\<lparr>fs_display := AList.update (draftKey base tab)
          (patch (case map_of (fs_display st) (draftKey base tab) of
                    Some d \<Rightarrow> d | None \<Rightarrow> defaultFrequencyDisplay)) (fs_display st)\<rparr>"

definition activate_frequency :: "string \<Rightarrow> string \<Rightarrow> frequency_state \<Rightarrow> frequency_state" where
  "activate_frequency base tab st = st\<lparr>fs_active := AList.update base tab (fs_active st)\<rparr>"

definition set_frequency_draft :: "string \<Rightarrow> string \<Rightarrow> frequency_draft \<Rightarrow> frequency_state \<Rightarrow> frequency_state" where
  "set_frequency_draft base tab draft st =
     st\<lparr>fs_drafts := AList.update (draftKey base tab) draft (fs_drafts st)\<rparr>"

definition remove_frequency :: "string \<Rightarrow> string \<Rightarrow> frequency_state \<Rightarrow> frequency_state" where
  "remove_frequency base tab st =
     st\<lparr>fs_drafts := without_key (draftKey base tab) (fs_drafts st),
        fs_active := filter (\<lambda>(key, selected). key \<noteq> base \<or> selected \<noteq> tab) (fs_active st),
        fs_display := without_key (draftKey base tab) (fs_display st)\<rparr>"

definition getFrequencyDraft :: "frequency_state \<Rightarrow> string \<Rightarrow> string \<Rightarrow> frequency_draft option" where
  "getFrequencyDraft st base tab = map_of (fs_drafts st) (draftKey base tab)"

fun find_index :: "('a \<Rightarrow> bool) \<Rightarrow> 'a list \<Rightarrow> nat option" where
  "find_index P [] = None"
| "find_index P (x # xs) = (if P x then Some 0 else map_option Suc (find_index P xs))"

text \<open>The index of the study input; \<open>None\<close> stands for the index \<open>-1\<close>.\<close>

definition study_index :: "frequency_draft \<Rightarrow> nat option" where
  "study_index draft =
     (case fq_study draft of
        None \<Rightarrow> Some 0
      | Some study \<Rightarrow>
          if study = [] then Some 0
          else find_index (\<lambda>input. src_name (ti_source input) = study) (fq_inputs draft))"

definition orderedFrequencyRequest :: "frequency_draft \<Rightarrow> tool_input list" where
  "orderedFrequencyRequest draft =
     (if length (fq_inputs draft) = 2 \<and> study_index draft = Some 0
      then rev (fq_inputs draft) else fq_inputs draft)"

definition renameFrequencyDraft ::
    "(string \<Rightarrow> string) \<Rightarrow> frequency_draft \<Rightarrow> reference_rename \<Rightarrow> frequency_draft" where
  "renameFrequencyDraft lower draft rename =
     draft\<lparr>fq_inputs := map (\<lambda>input. renameInput lower input rename [''column'']) (fq_inputs draft),
           fq_study := (case (rename, fq_study draft) of
               (Rename_table source name, Some study) \<Rightarrow>
                 if ref_schema source = ''data'' \<and> lower study = lower (ref_name source) then Some name
                 else Some study
             | _ \<Rightarrow> fq_study draft)\<rparr>"

definition reconcile_frequency ::
    "(string \<Rightarrow> string) \<Rightarrow> string \<Rightarrow> reference_rename \<Rightarrow> frequency_state \<Rightarrow> frequency_state result" where
  "reconcile_frequency lower base rename st =
     rbind (renamedDrafts (renameFrequencyDraft lower) (fs_drafts st) base rename)
       (\<lambda>drafts. Inr (st\<lparr>fs_drafts := drafts\<rparr>))"

subsection \<open>All drafts of a project\<close>

record ('s, 't, 'x) tool_drafts =
  td_concordance :: "'s concordance_request draft_state"
  td_quotation :: "quotation_request draft_state"
  td_topic :: "'t topic_request draft_state"
  td_plot :: "tool_input draft_state"
  td_annotation :: "'x annotation_draft draft_state"
  td_frequency :: frequency_state

definition reconcile_rename ::
    "(string \<Rightarrow> string) \<Rightarrow> string \<Rightarrow> reference_rename \<Rightarrow> ('s, 't, 'x) tool_drafts \<Rightarrow> ('s, 't, 'x) tool_drafts result" where
  "reconcile_rename lower base rename st =
     rbind (reconcile (rename_concordance lower) base rename (td_concordance st)) (\<lambda>concordance.
     rbind (reconcile (rename_quotation lower) base rename (td_quotation st)) (\<lambda>quotation.
     rbind (reconcile (rename_topic lower) base rename (td_topic st)) (\<lambda>topic.
     rbind (reconcile (renamePlotRequest lower) base rename (td_plot st)) (\<lambda>plot.
     rbind (reconcile (renameAnnotationDraft lower) base rename (td_annotation st)) (\<lambda>annotation.
     rbind (reconcile_frequency lower base rename (td_frequency st)) (\<lambda>frequency.
       Inr \<lparr>td_concordance = concordance, td_quotation = quotation, td_topic = topic, td_plot = plot,
            td_annotation = annotation, td_frequency = frequency\<rparr>))))))"

definition reconcileAnalysisDrafts ::
    "(string \<Rightarrow> string) \<Rightarrow> string \<Rightarrow> reference_rename list \<Rightarrow> ('s, 't, 'x) tool_drafts \<Rightarrow> ('s, 't, 'x) tool_drafts result" where
  "reconcileAnalysisDrafts lower base renames st = rfold (reconcile_rename lower base) renames st"

end
