(* ===== verification/Tool_Draft_Laws.thy ===== *)
theory Tool_Draft_Laws
  imports Tool_Drafts
begin

text \<open>
  What renames do to the drafts of the tools: a frequency comparison keeps its study corpus, a plot
  that is ready stays ready, and reconciling the drafts of all tools succeeds and touches only the
  renamed project.
\<close>

subsection \<open>The study corpus\<close>

definition input_name :: "tool_input \<Rightarrow> string" where
  "input_name input = src_name (ti_source input)"

definition block_input :: "tool_input \<Rightarrow> bool" where
  "block_input input \<longleftrightarrow> ref_schema (source_object (ti_source input)) = ''data''"

lemma renameInput_table_name:
  "input_name (renameInput lower input (Rename_table source name) names) =
     (if isRenameSource lower (ti_source input) (Rename_table source name) then name else input_name input)"
  by (simp add: renameInput_def input_name_def)

lemma block_rename_source:
  assumes "block_input input" and "ref_schema source = ''data''"
  shows "isRenameSource lower (ti_source input) (Rename_table source name) \<longleftrightarrow>
    lower (input_name input) = lower (ref_name source)"
  using assms by (simp add: isRenameSource_def block_input_def input_name_def)

lemma find_index_map: "find_index P (map f xs) = find_index (P \<circ> f) xs"
  by (induction xs) auto

lemma find_index_cong: "(\<And>x. x \<in> set xs \<Longrightarrow> P x = Q x) \<Longrightarrow> find_index P xs = find_index Q xs"
  by (induction xs) auto

lemma find_index_Some: "find_index P xs = Some i \<Longrightarrow> i < length xs \<and> P (xs ! i)"
  by (induction xs arbitrary: i) (auto split: if_split_asm)

text \<open>Drafts as the frequency tool makes them: named blocks, distinct, and a study among them.\<close>

definition wf_frequency_draft :: "(string \<Rightarrow> string) \<Rightarrow> frequency_draft \<Rightarrow> bool" where
  "wf_frequency_draft lower draft \<longleftrightarrow>
     list_all block_input (fq_inputs draft) \<and> distinct (map (lower \<circ> input_name) (fq_inputs draft)) \<and>
     [] \<notin> input_name ` set (fq_inputs draft) \<and>
     (case fq_study draft of None \<Rightarrow> True | Some study \<Rightarrow> study \<in> input_name ` set (fq_inputs draft))"

lemma renamed_study_index:
  assumes wf: "wf_frequency_draft lower draft" and schema: "ref_schema source = ''data''"
    and fresh: "name \<notin> input_name ` set (fq_inputs draft)" "name \<noteq> []"
  shows "study_index (renameFrequencyDraft lower draft (Rename_table source name)) = study_index draft"
proof (cases "fq_study draft")
  case None
  then show ?thesis by (simp add: study_index_def renameFrequencyDraft_def)
next
  case (Some study)
  let ?rename = "Rename_table source name"
  let ?study = "if lower study = lower (ref_name source) then name else study"
  from wf Some have study: "study \<in> input_name ` set (fq_inputs draft)"
    and "[] \<notin> input_name ` set (fq_inputs draft)"
    by (simp_all add: wf_frequency_draft_def)
  then have nonempty: "study \<noteq> []" by metis
  have same: "(input_name (renameInput lower input ?rename [''column'']) = ?study) = (input_name input = study)"
    if input: "input \<in> set (fq_inputs draft)" for input
  proof -
    have source: "isRenameSource lower (ti_source input) ?rename \<longleftrightarrow> lower (input_name input) = lower (ref_name source)"
      using wf input schema by (simp add: block_rename_source wf_frequency_draft_def list_all_iff)
    have "lower (input_name input) = lower study \<longleftrightarrow> input_name input = study"
      using wf input study by (auto simp: wf_frequency_draft_def distinct_map inj_on_def)
    then show ?thesis using fresh(1) study input by (auto simp: renameInput_table_name source)
  qed
  have "find_index (\<lambda>input. src_name (ti_source input) = ?study)
      (map (\<lambda>input. renameInput lower input ?rename [''column'']) (fq_inputs draft)) =
      find_index (\<lambda>input. src_name (ti_source input) = study) (fq_inputs draft)"
    unfolding find_index_map by (rule find_index_cong) (use same in \<open>simp add: input_name_def\<close>)
  then show ?thesis
    using Some nonempty fresh schema
    by (cases "lower study = lower (ref_name source)") (simp_all add: study_index_def renameFrequencyDraft_def)
qed

text \<open>
  Renaming a compared block keeps the comparison: for a draft over named blocks that are distinct
  and a study among them, and a new name that no input has, the request made after the rename is the
  request made before with its inputs renamed, in the same order, so the study corpus stays the study
  corpus; and the study is the last of the two inputs of the request.
\<close>

theorem frequency_rename_keeps_study:
  assumes "wf_frequency_draft lower draft" and "ref_schema source = ''data''"
    and "name \<notin> input_name ` set (fq_inputs draft)" and "name \<noteq> []"
  shows "orderedFrequencyRequest (renameFrequencyDraft lower draft (Rename_table source name)) =
      map (\<lambda>input. renameInput lower input (Rename_table source name) [''column'']) (orderedFrequencyRequest draft) \<and>
    (length (fq_inputs draft) = 2 \<longrightarrow> fq_study draft \<noteq> None \<longrightarrow>
      Some (input_name (last (orderedFrequencyRequest draft))) = fq_study draft)"
proof
  show "orderedFrequencyRequest (renameFrequencyDraft lower draft (Rename_table source name)) =
      map (\<lambda>input. renameInput lower input (Rename_table source name) [''column'']) (orderedFrequencyRequest draft)"
    unfolding orderedFrequencyRequest_def renamed_study_index [OF assms]
    by (simp add: renameFrequencyDraft_def rev_map)
  show "length (fq_inputs draft) = 2 \<longrightarrow> fq_study draft \<noteq> None \<longrightarrow>
      Some (input_name (last (orderedFrequencyRequest draft))) = fq_study draft"
    using assms(1)
    by (auto simp: wf_frequency_draft_def orderedFrequencyRequest_def study_index_def input_name_def
        length_Suc_conv numeral_2_eq_2 split: if_split_asm)
qed

definition example_input :: "string \<Rightarrow> tool_input" where
  "example_input name =
     \<lparr>ti_source = \<lparr>src_schema = None, src_name = name\<rparr>, ti_fields = [(''column'', JS_String ''text'')]\<rparr>"

theorem frequency_rename_keeps_study_witness:
  "map input_name (orderedFrequencyRequest (renameFrequencyDraft fold_case
     \<lparr>fq_inputs = [example_input ''a'', example_input ''b''], fq_study = Some ''a''\<rparr>
     (Rename_table \<lparr>ref_schema = ''data'', ref_name = ''A''\<rparr> ''c''))) = [''b'', ''c'']"
proof -
  let ?draft = "\<lparr>fq_inputs = [example_input ''a'', example_input ''b''], fq_study = Some ''a''\<rparr>"
  let ?source = "\<lparr>ref_schema = ''data'', ref_name = ''A''\<rparr>"
  have "wf_frequency_draft fold_case ?draft" by code_simp
  moreover have "ref_schema ?source = ''data''" by simp
  moreover have "''c'' \<notin> input_name ` set (fq_inputs ?draft)" by code_simp
  moreover have "''c'' \<noteq> []" by simp
  ultimately have "map input_name (orderedFrequencyRequest (renameFrequencyDraft fold_case ?draft
      (Rename_table ?source ''c''))) = map input_name (map (\<lambda>input. renameInput fold_case input
      (Rename_table ?source ''c'') [''column'']) (orderedFrequencyRequest ?draft))"
    using frequency_rename_keeps_study [of fold_case ?draft ?source "''c''"] by simp
  also have "\<dots> = [''b'', ''c'']" by code_simp
  finally show ?thesis .
qed

subsection \<open>Plots\<close>

lemma truthy_rename_value: "after \<noteq> [] \<Longrightarrow> truthy v \<Longrightarrow> truthy (rename_value lower before after v)"
  by (cases v) (auto simp: rename_value_def)

lemma truthy_rename_field: "after \<noteq> [] \<Longrightarrow> truthy v \<Longrightarrow> truthy (rename_field lower before after v)"
  by (cases v) (auto simp: rename_field_def rename_value_def)

lemma fold_update_keys:
  "fst ` set (fold (\<lambda>field. AList.update field (f field)) names props) = set names \<union> fst ` set props"
proof (induction names arbitrary: props)
  case (Cons name names)
  have "fst ` set (AList.update name (f name) props) = insert name (fst ` set props)"
    using dom_update [of name "f name" props] by (simp add: dom_map_of_conv_image_fst)
  with Cons show ?case by simp
qed simp

lemma has_field_rename:
  "has_field (r\<lparr>ti_fields := rename_fields lower before after names (ti_fields r)\<rparr>) k \<longleftrightarrow>
     k \<in> set names \<or> has_field r k"
  by (auto simp: has_field_def rename_fields_def fold_update_keys)

lemma field_rename:
  "field (r\<lparr>ti_fields := rename_fields lower before after names (ti_fields r)\<rparr>) k =
     (if k \<in> set names then rename_field lower before after (field r k) else field r k)"
  by (simp add: field_def)

lemma array_of_Inr: "array_of v = Inr vs \<longleftrightarrow> v = JS_Array vs"
  by (cases v) (auto simp: array_of_def)

lemma rename_field_Array [simp]:
  "rename_field lower before after (JS_Array vs) = JS_Array (map (rename_value lower before after) vs)"
  by (simp add: rename_field_def)

lemma plotReady_column:
  assumes "plotReady r = Inr True" and "after \<noteq> []"
  shows "plotReady (r\<lparr>ti_fields := rename_fields lower before after (plot_fields r) (ti_fields r)\<rparr>) = Inr True"
  using assms truthy_rename_value [OF assms(2)] truthy_rename_field [OF assms(2)]
  by (auto simp: plotReady_def plot_fields_def has_field_rename field_rename array_of_Inr
      list_all_iff split: if_split_asm)

text \<open>
  A plot that can be drawn can still be drawn after a rename of its table or of a column, to any
  non-empty name.
\<close>

theorem plot_stays_ready:
  assumes "plotReady request = Inr True"
    and "case rename of Rename_table source name \<Rightarrow> name \<noteq> [] | Rename_column source before after \<Rightarrow> after \<noteq> []"
  shows "plotReady (renamePlotRequest lower request rename) = Inr True"
proof (cases "isRenameSource lower (ti_source request) rename")
  case False
  with assms show ?thesis by (simp add: renamePlotRequest_def renameInput_def)
next
  case True
  show ?thesis
  proof (cases rename)
    case (Rename_table source name)
    with True assms show ?thesis
      by (auto simp: renamePlotRequest_def renameInput_def plotReady_def has_field_def field_def split: if_split_asm)
  next
    case (Rename_column source before after)
    with True assms plotReady_column show ?thesis by (simp add: renamePlotRequest_def renameInput_def)
  qed
qed

theorem plot_stays_ready_witness:
  "plotReady (renamePlotRequest fold_case
     \<lparr>ti_source = \<lparr>src_schema = None, src_name = ''t''\<rparr>,
      ti_fields = [(''stages'', JS_Array [JS_String ''a'', JS_String ''b'']), (''measure'', JS_String ''sum''),
        (''value'', JS_String ''n'')]\<rparr>
     (Rename_column \<lparr>ref_schema = ''data'', ref_name = ''t''\<rparr> ''n'' ''m'')) = Inr True"
  by (rule plot_stays_ready) (code_simp+)

subsection \<open>All tools\<close>

definition drafts_keyed :: "('s, 't, 'x) tool_drafts \<Rightarrow> bool" where
  "drafts_keyed st \<longleftrightarrow>
     draft.keyed (ds_drafts (td_concordance st)) \<and> draft.keyed (ds_drafts (td_quotation st)) \<and>
     draft.keyed (ds_drafts (td_topic st)) \<and> draft.keyed (ds_drafts (td_plot st)) \<and>
     draft.keyed (ds_drafts (td_annotation st)) \<and> frequency.keyed (fs_drafts (td_frequency st))"

text \<open>
  The abstract view of the six stores: the drafts of one tab of one project, and what a rename does
  to them.
\<close>

record ('s, 't, 'x) tab_drafts =
  at_concordance :: "'s concordance_request option"
  at_quotation :: "quotation_request option"
  at_topic :: "'t topic_request option"
  at_plot :: "tool_input option"
  at_annotation :: "'x annotation_draft option"
  at_frequency :: "frequency_draft option"

definition drafts_at :: "string \<Rightarrow> string \<Rightarrow> ('s, 't, 'x) tool_drafts \<Rightarrow> ('s, 't, 'x) tab_drafts" where
  "drafts_at base tab st =
     \<lparr>at_concordance = draft_of base tab (td_concordance st), at_quotation = draft_of base tab (td_quotation st),
      at_topic = draft_of base tab (td_topic st), at_plot = draft_of base tab (td_plot st),
      at_annotation = draft_of base tab (td_annotation st),
      at_frequency = getFrequencyDraft (td_frequency st) base tab\<rparr>"

definition rename_drafts ::
    "(string \<Rightarrow> string) \<Rightarrow> reference_rename \<Rightarrow> ('s, 't, 'x) tab_drafts \<Rightarrow> ('s, 't, 'x) tab_drafts" where
  "rename_drafts lower rename d =
     \<lparr>at_concordance = map_option (\<lambda>r. rename_concordance lower r rename) (at_concordance d),
      at_quotation = map_option (\<lambda>r. rename_quotation lower r rename) (at_quotation d),
      at_topic = map_option (\<lambda>r. rename_topic lower r rename) (at_topic d),
      at_plot = map_option (\<lambda>r. renamePlotRequest lower r rename) (at_plot d),
      at_annotation = map_option (\<lambda>r. renameAnnotationDraft lower r rename) (at_annotation d),
      at_frequency = map_option (\<lambda>r. renameFrequencyDraft lower r rename) (at_frequency d)\<rparr>"

lemma keyed_same_keys:
  assumes "map fst entries = map fst entries'"
  shows "draft.keyed entries = draft.keyed entries'" "frequency.keyed entries = frequency.keyed entries'"
proof -
  have "fst ` set entries = fst ` set entries'" using assms by (metis image_set)
  then show "draft.keyed entries = draft.keyed entries'" "frequency.keyed entries = frequency.keyed entries'"
    by (simp_all add: draft.keyed_def frequency.keyed_def)
qed

lemma map_option_if: "map_option (\<lambda>d. if b then f d else d) v = (if b then map_option f v else v)"
  by (simp add: option.map_ident)

lemma reconcile_step:
  assumes "draft.keyed (ds_drafts st)"
  obtains st' where "reconcile f base rename st = Inr st'" and "draft.keyed (ds_drafts st')"
    and "\<And>base' tab. draft_of base' tab st' =
      (if base' = base then map_option (\<lambda>d. f d rename) (draft_of base' tab st) else draft_of base' tab st)"
  using reconcile_drafts [OF assms, of f base rename] assms keyed_same_keys(1)
  unfolding map_option_if by metis

lemma frequency_step:
  assumes "frequency.keyed (fs_drafts st)"
  obtains st' where "reconcile_frequency lower base rename st = Inr st'" and "frequency.keyed (fs_drafts st')"
    and "\<And>base' tab. getFrequencyDraft st' base' tab =
      (if base' = base then map_option (\<lambda>d. renameFrequencyDraft lower d rename) (getFrequencyDraft st base' tab)
       else getFrequencyDraft st base' tab)"
proof -
  from frequency.renamedDrafts_total [OF assms, of "renameFrequencyDraft lower" base rename]
  obtain drafts' where d: "renamedDrafts (renameFrequencyDraft lower) (fs_drafts st) base rename = Inr drafts'"
    "map fst drafts' = map fst (fs_drafts st)"
    "\<And>base' tab. map_of drafts' (draftKey base' tab) =
      map_option (\<lambda>d. if base' = base then renameFrequencyDraft lower d rename else d)
        (map_of (fs_drafts st) (draftKey base' tab))" by blast
  then have "frequency.keyed drafts'" using assms keyed_same_keys(2) by blast
  with d that [of "st\<lparr>fs_drafts := drafts'\<rparr>"] show thesis
    by (simp add: reconcile_frequency_def getFrequencyDraft_def map_option_if)
qed

lemma reconcile_rename_step:
  assumes "drafts_keyed st"
  shows "\<exists>st'. reconcile_rename lower base rename st = Inr st' \<and> drafts_keyed st' \<and>
    (\<forall>base' tab. drafts_at base' tab st' =
      (if base' = base then rename_drafts lower rename else id) (drafts_at base' tab st))"
proof -
  note keyed = assms [unfolded drafts_keyed_def]
  obtain c where c: "reconcile (rename_concordance lower) base rename (td_concordance st) = Inr c"
    "draft.keyed (ds_drafts c)" "\<And>base' tab. draft_of base' tab c =
      (if base' = base then map_option (\<lambda>d. rename_concordance lower d rename) (draft_of base' tab (td_concordance st))
       else draft_of base' tab (td_concordance st))"
    using reconcile_step keyed by blast
  obtain q where q: "reconcile (rename_quotation lower) base rename (td_quotation st) = Inr q"
    "draft.keyed (ds_drafts q)" "\<And>base' tab. draft_of base' tab q =
      (if base' = base then map_option (\<lambda>d. rename_quotation lower d rename) (draft_of base' tab (td_quotation st))
       else draft_of base' tab (td_quotation st))"
    using reconcile_step keyed by blast
  obtain t where t: "reconcile (rename_topic lower) base rename (td_topic st) = Inr t"
    "draft.keyed (ds_drafts t)" "\<And>base' tab. draft_of base' tab t =
      (if base' = base then map_option (\<lambda>d. rename_topic lower d rename) (draft_of base' tab (td_topic st))
       else draft_of base' tab (td_topic st))"
    using reconcile_step keyed by blast
  obtain p where p: "reconcile (renamePlotRequest lower) base rename (td_plot st) = Inr p"
    "draft.keyed (ds_drafts p)" "\<And>base' tab. draft_of base' tab p =
      (if base' = base then map_option (\<lambda>d. renamePlotRequest lower d rename) (draft_of base' tab (td_plot st))
       else draft_of base' tab (td_plot st))"
    using reconcile_step keyed by blast
  obtain a where a: "reconcile (renameAnnotationDraft lower) base rename (td_annotation st) = Inr a"
    "draft.keyed (ds_drafts a)" "\<And>base' tab. draft_of base' tab a =
      (if base' = base then map_option (\<lambda>d. renameAnnotationDraft lower d rename) (draft_of base' tab (td_annotation st))
       else draft_of base' tab (td_annotation st))"
    using reconcile_step keyed by blast
  obtain f where f: "reconcile_frequency lower base rename (td_frequency st) = Inr f"
    "frequency.keyed (fs_drafts f)" "\<And>base' tab. getFrequencyDraft f base' tab =
      (if base' = base then map_option (\<lambda>d. renameFrequencyDraft lower d rename) (getFrequencyDraft (td_frequency st) base' tab)
       else getFrequencyDraft (td_frequency st) base' tab)"
    using frequency_step keyed by blast
  show ?thesis
    by (simp add: reconcile_rename_def c q t p a f drafts_keyed_def drafts_at_def rename_drafts_def)
qed

lemma reconcileAnalysisDrafts_view:
  assumes "drafts_keyed st"
  shows "\<exists>st'. reconcileAnalysisDrafts lower base renames st = Inr st' \<and> drafts_keyed st' \<and>
    drafts_at base' tab st' =
      (if base' = base then fold (rename_drafts lower) renames (drafts_at base' tab st) else drafts_at base' tab st)"
  using assms unfolding reconcileAnalysisDrafts_def
proof (induction renames arbitrary: st)
  case (Cons rename renames)
  from reconcile_rename_step [OF Cons.prems, of lower base rename]
  obtain st1 where st1: "reconcile_rename lower base rename st = Inr st1" "drafts_keyed st1"
    "drafts_at base' tab st1 = (if base' = base then rename_drafts lower rename else id) (drafts_at base' tab st)"
    by blast
  from Cons.IH [OF st1(2)] show ?case by (cases "base' = base") (use st1 in auto)
qed simp

lemma reconcileAnalysisDrafts_total:
  "drafts_keyed st \<Longrightarrow> \<exists>st'. reconcileAnalysisDrafts lower base renames st = Inr st'"
  using reconcileAnalysisDrafts_view by blast

text \<open>
  C37: renames reach the drafts of every tool: reconciling a list of renames with the drafts of all
  six tools never fails, applies the renames in order to every draft of the project they belong to,
  each by the renaming of its tool, and leaves the drafts of every other project as they are.
\<close>

theorem reconcileAnalysisDrafts_refines:
  assumes "drafts_keyed st"
  shows "\<exists>st'. reconcileAnalysisDrafts lower base renames st = Inr st' \<and> drafts_keyed st' \<and>
    drafts_at base' tab st' =
      (if base' = base then fold (rename_drafts lower) renames (drafts_at base' tab st) else drafts_at base' tab st)"
  using assms by (rule reconcileAnalysisDrafts_view)

theorem reconcileAnalysisDrafts_refines_witness:
  "\<exists>st'. reconcileAnalysisDrafts fold_case ''p''
      [Rename_table \<lparr>ref_schema = ''data'', ref_name = ''a''\<rparr> ''b'',
       Rename_table \<lparr>ref_schema = ''data'', ref_name = ''b''\<rparr> ''c'']
      \<lparr>td_concordance = (initial_drafts :: unit concordance_request draft_state), td_quotation = initial_drafts,
       td_topic = (initial_drafts :: unit topic_request draft_state),
       td_plot = setDraft ''p'' ''1'' (example_input ''a'') initial_drafts,
       td_annotation = (initial_drafts :: unit annotation_draft draft_state),
       td_frequency = initial_frequency\<rparr> = Inr st' \<and>
    map_option input_name (at_plot (drafts_at ''p'' ''1'' st')) = Some ''c''"
proof -
  let ?renames = "[Rename_table \<lparr>ref_schema = ''data'', ref_name = ''a''\<rparr> ''b'',
    Rename_table \<lparr>ref_schema = ''data'', ref_name = ''b''\<rparr> ''c'']"
  let ?st = "\<lparr>td_concordance = (initial_drafts :: unit concordance_request draft_state), td_quotation = initial_drafts,
       td_topic = (initial_drafts :: unit topic_request draft_state),
       td_plot = setDraft ''p'' ''1'' (example_input ''a'') initial_drafts,
       td_annotation = (initial_drafts :: unit annotation_draft draft_state),
       td_frequency = initial_frequency\<rparr>"
  have keyed: "drafts_keyed ?st"
    using draft.keyed_update [OF draft.keyed_Nil, of "''p''" "''1''" "example_input ''a''"]
    by (simp add: drafts_keyed_def initial_drafts_def initial_frequency_def setDraft_def)
  have "map_option input_name (at_plot (fold (rename_drafts fold_case) ?renames (drafts_at ''p'' ''1'' ?st))) = Some ''c''"
    by code_simp
  with reconcileAnalysisDrafts_refines [OF keyed, of fold_case "''p''" ?renames "''p''" "''1''"] show ?thesis
    by auto
qed

end
