(* ===== verification/Project_Renames.thy ===== *)
theory Project_Renames
  imports Stores Tool_Draft_Laws
begin

text \<open>
  Renames reach the window: \<open>features/project/reconcileRenames.ts\<close>. The mutation response and the
  change notification both call \<open>reconcileProjectRenames\<close>; a receipt per project and change makes the
  second call a no-op. The drafts of every project are renamed, the window's own state only for the
  project that is mounted.
\<close>

subsection \<open>The window\<close>

record ('s, 't, 'x, 'w, 'p, 'v) window =
  wi_receipts :: "string \<Rightarrow> string list"
  wi_base :: "string option"
  wi_drafts :: "('s, 't, 'x) tool_drafts"
  wi_selection :: selection_state
  wi_pins :: pinned_state
  wi_inputs :: input_state
  wi_preview :: preview_state
  wi_views :: "'w view_state"
  wi_graph :: "('p, 'v) graph_state"

definition mount_workspace :: "string \<Rightarrow> ('s, 't, 'x, 'w, 'p, 'v) window \<Rightarrow> ('s, 't, 'x, 'w, 'p, 'v) window" where
  "mount_workspace base win = win\<lparr>wi_base := Some base\<rparr>"

definition unmount_workspace :: "string \<Rightarrow> ('s, 't, 'x, 'w, 'p, 'v) window \<Rightarrow> ('s, 't, 'x, 'w, 'p, 'v) window" where
  "unmount_workspace base win = (if wi_base win = Some base then win\<lparr>wi_base := None\<rparr> else win)"

definition renamed_id :: "string \<Rightarrow> string \<Rightarrow> string \<Rightarrow> string" where
  "renamed_id old new i = (if i = old then new else i)"

definition object_target :: "object_ref \<Rightarrow> data_target" where
  "object_target r = Object_Target (Some (ref_schema r)) (ref_name r)"

text \<open>The stores of registered Data Blocks, by name.\<close>

definition rename_blocks ::
    "string \<Rightarrow> string \<Rightarrow> ('s, 't, 'x, 'w, 'p, 'v) window \<Rightarrow> ('s, 't, 'x, 'w, 'p, 'v) window" where
  "rename_blocks old new win =
     win\<lparr>wi_selection := replaceSelectedNodes (map (renamed_id old new) (selectedNodeIds (wi_selection win))) (wi_selection win),
         wi_pins := (wi_pins win)\<lparr>pinnedNodeIds := map (renamed_id old new) (pinnedNodeIds (wi_pins win))\<rparr>,
         wi_inputs := rename_inputs old new (wi_inputs win)\<rparr>"

definition rename_window ::
    "reference_rename \<Rightarrow> ('s, 't, 'x, 'w, 'p, 'v) window \<Rightarrow> ('s, 't, 'x, 'w, 'p, 'v) window" where
  "rename_window rename win =
     (case rename of
        Rename_column _ _ _ \<Rightarrow> win
      | Rename_table source name \<Rightarrow>
          let new = source\<lparr>ref_name := name\<rparr>;
              win1 = (if ref_schema source = ''data'' then rename_blocks (ref_name source) name win else win)
          in win1\<lparr>wi_preview := preview_rename (object_target source) (object_target new) (wi_preview win1),
                  wi_views := rename_view (targetKey (object_target source)) (targetKey (object_target new)) (wi_views win1),
                  wi_graph := rename_graph (object_target source) (object_target new) (wi_graph win1)\<rparr>)"

definition apply_renames ::
    "(string \<Rightarrow> string) \<Rightarrow> string \<Rightarrow> reference_rename list \<Rightarrow> ('s, 't, 'x, 'w, 'p, 'v) window \<Rightarrow>
     ('s, 't, 'x, 'w, 'p, 'v) window result" where
  "apply_renames lower base renames win =
     rbind (reconcileAnalysisDrafts lower base renames (wi_drafts win)) (\<lambda>drafts.
       let win1 = win\<lparr>wi_drafts := drafts\<rparr>
       in Inr (if wi_base win \<noteq> Some base then win1 else fold rename_window renames win1))"

definition reconcileProjectRenames ::
    "(string \<Rightarrow> string) \<Rightarrow> string \<Rightarrow> reference_rename list \<Rightarrow> string option \<Rightarrow> ('s, 't, 'x, 'w, 'p, 'v) window \<Rightarrow>
     ('s, 't, 'x, 'w, 'p, 'v) window result" where
  "reconcileProjectRenames lower base renames changeId win =
     (case changeId of
        Some change \<Rightarrow>
          if change = [] then apply_renames lower base renames win
          else if change \<in> set (wi_receipts win base) then Inr win
          else apply_renames lower base renames
                 (win\<lparr>wi_receipts := (wi_receipts win)(base := wi_receipts win base @ [change])\<rparr>)
      | None \<Rightarrow> apply_renames lower base renames win)"

subsection \<open>Receipts\<close>

lemma rename_window_receipts [simp]: "wi_receipts (rename_window rename win) = wi_receipts win"
  by (simp add: rename_window_def rename_blocks_def Let_def split: reference_rename.split)

lemma rename_window_drafts [simp]: "wi_drafts (rename_window rename win) = wi_drafts win"
  by (simp add: rename_window_def rename_blocks_def Let_def split: reference_rename.split)

lemma fold_rename_window [simp]:
  "wi_receipts (fold rename_window renames win) = wi_receipts win"
  "wi_drafts (fold rename_window renames win) = wi_drafts win"
  by (induction renames arbitrary: win) simp_all

lemma apply_renames_receipts: "apply_renames lower base renames win = Inr win' \<Longrightarrow> wi_receipts win' = wi_receipts win"
  by (auto simp: apply_renames_def Let_def split: if_split_asm)

text \<open>
  A change is applied once: after the renames of a change have been reconciled, every later
  delivery of the same change of the same project leaves the window exactly as it is, also when other
  changes have been reconciled in between.
\<close>

theorem renames_applied_once:
  assumes "reconcileProjectRenames lower base renames (Some change) win = Inr win1" and "change \<noteq> []"
    and "reconcileProjectRenames lower base' renames' change' win1 = Inr win2"
  shows "reconcileProjectRenames lower base renames'' (Some change) win2 = Inr win2"
proof -
  have "change \<in> set (wi_receipts win1 base)"
    using assms(1,2) apply_renames_receipts by (fastforce simp: reconcileProjectRenames_def split: if_split_asm)
  moreover have "set (wi_receipts win1 base) \<subseteq> set (wi_receipts win2 base)"
    using assms(3) apply_renames_receipts
    by (fastforce simp: reconcileProjectRenames_def split: if_split_asm option.split_asm)
  ultimately show ?thesis using assms(2) by (auto simp: reconcileProjectRenames_def)
qed

definition example_window :: "(unit, unit, unit, nat, nat, nat) window" where
  "example_window =
     \<lparr>wi_receipts = (\<lambda>_. []), wi_base = Some ''p'',
      wi_drafts = \<lparr>td_concordance = initial_drafts, td_quotation = initial_drafts, td_topic = initial_drafts,
        td_plot = initial_drafts, td_annotation = initial_drafts, td_frequency = initial_frequency\<rparr>,
      wi_selection = \<lparr>selectedNodeIds = [''a'', ''b'']\<rparr>, wi_pins = \<lparr>pinnedNodeIds = [''a'']\<rparr>,
      wi_inputs = initial_inputs, wi_preview = initial_preview, wi_views = Map.empty,
      wi_graph = \<lparr>gs_mode = Logical, gs_selected = [], gs_logical = \<lparr>cv_nodes = Map.empty, cv_viewport = None\<rparr>,
        gs_dependencies = \<lparr>cv_nodes = Map.empty, cv_viewport = None\<rparr>\<rparr>\<rparr>"

definition example_rename :: reference_rename where
  "example_rename = Rename_table \<lparr>ref_schema = ''data'', ref_name = ''a''\<rparr> ''c''"

lemma example_reconciled:
  "\<exists>win. reconcileProjectRenames fold_case ''p'' [example_rename] (Some ''1'') example_window = Inr win \<and>
     (\<exists>win'. reconcileProjectRenames fold_case ''p'' [] (Some ''2'') win = Inr win')"
  by (simp add: reconcileProjectRenames_def apply_renames_def reconcileAnalysisDrafts_def reconcile_rename_def
      reconcile_def reconcile_frequency_def renamedDrafts_def initial_drafts_def initial_frequency_def
      example_window_def example_rename_def Let_def)

theorem renames_applied_once_witness:
  "\<exists>win win'. reconcileProjectRenames fold_case ''p'' [example_rename] (Some ''1'') example_window = Inr win \<and>
     reconcileProjectRenames fold_case ''p'' [] (Some ''2'') win = Inr win' \<and>
     reconcileProjectRenames fold_case ''p'' [example_rename] (Some ''1'') win' = Inr win'"
proof -
  from example_reconciled obtain win win' where
    once: "reconcileProjectRenames fold_case ''p'' [example_rename] (Some ''1'') example_window = Inr win"
    and later: "reconcileProjectRenames fold_case ''p'' [] (Some ''2'') win = Inr win'" by blast
  from once later renames_applied_once [OF once _ later, of "[example_rename]"] show ?thesis by auto
qed

subsection \<open>No store keeps the old name\<close>

definition block_key :: "string \<Rightarrow> string" where
  "block_key name = targetKey (object_target \<lparr>ref_schema = ''data'', ref_name = name\<rparr>)"

text \<open>The registered blocks that the window's stores refer to.\<close>

definition canvas_blocks :: "('p, 'v) graph_state \<Rightarrow> string set" where
  "canvas_blocks graph =
     dom (cv_nodes (gs_logical graph)) \<union> {n. block_key n \<in> dom (cv_nodes (gs_dependencies graph))} \<union>
     {n. block_key n \<in> set (gs_selected graph)}"

definition preview_blocks :: "preview_state \<Rightarrow> string set" where
  "preview_blocks preview =
     {n. \<exists>target. pv_active preview = Some target \<and> objectRef target = \<lparr>ref_schema = ''data'', ref_name = n\<rparr>}"

definition mentioned_blocks :: "('s, 't, 'x, 'w, 'p, 'v) window \<Rightarrow> string set" where
  "mentioned_blocks win =
     set (selectedNodeIds (wi_selection win)) \<union> set (pinnedNodeIds (wi_pins win)) \<union> input_names (wi_inputs win) \<union>
     preview_blocks (wi_preview win) \<union> {n. block_key n \<in> dom (wi_views win)} \<union> canvas_blocks (wi_graph win)"

lemma block_key_eq_iff [simp]: "block_key m = block_key n \<longleftrightarrow> m = n"
  by (simp add: block_key_def object_target_def targetKey_eq_iff objectRef_def)

lemma dom_move_key: "old \<noteq> new \<Longrightarrow> dom (move_key old new m) = renamed_id old new ` dom m"
  by (auto simp: move_key_def renamed_id_def image_iff Let_def split: option.split if_split_asm)

lemma renamed_keys:
  "{n. block_key n \<in> renamed_id (block_key old) (block_key new) ` K} = renamed_id old new ` {n. block_key n \<in> K}"
  by (auto simp: renamed_id_def image_iff split: if_split_asm)

lemma renamed_selection:
  assumes "[] \<notin> set ids" and "new \<noteq> []"
  shows "set (selectedNodeIds (replaceSelectedNodes (map (renamed_id old new) ids) st)) = renamed_id old new ` set ids"
  using assms by (auto simp: replaceSelectedNodes_def set_unique renamed_id_def)

lemma renamed_preview:
  "preview_blocks (preview_rename (object_target \<lparr>ref_schema = ''data'', ref_name = old\<rparr>)
     (object_target \<lparr>ref_schema = ''data'', ref_name = new\<rparr>) preview) = renamed_id old new ` preview_blocks preview"
proof (cases "pv_active preview")
  case None
  then show ?thesis by (simp add: preview_blocks_def preview_rename_def)
next
  case (Some target)
  then show ?thesis
    by (cases target)
      (auto simp: preview_blocks_def preview_rename_def object_target_def objectRef_def renamed_id_def Let_def
        split: if_split_asm)
qed

lemma renamed_canvas:
  assumes "old \<noteq> new"
  shows "canvas_blocks (rename_graph (object_target \<lparr>ref_schema = ''data'', ref_name = old\<rparr>)
     (object_target \<lparr>ref_schema = ''data'', ref_name = new\<rparr>) graph) = renamed_id old new ` canvas_blocks graph"
proof -
  have keys: "targetKey (object_target \<lparr>ref_schema = ''data'', ref_name = n\<rparr>) = block_key n" for n
    by (simp add: block_key_def)
  have refs: "objectRef (object_target r) = r" for r by (simp add: object_target_def objectRef_def)
  have "block_key old \<noteq> block_key new" using assms by simp
  then show ?thesis
    using renamed_keys [of old new]
    by (simp add: assms dom_move_key canvas_blocks_def rename_graph_def move_placement_def keys refs image_Un renamed_id_def [symmetric])
qed

lemma rename_window_blocks:
  assumes "old \<noteq> new" and "new \<noteq> []" and "[] \<notin> set (selectedNodeIds (wi_selection win))"
  shows "mentioned_blocks (rename_window (Rename_table \<lparr>ref_schema = ''data'', ref_name = old\<rparr> new) win) =
    renamed_id old new ` mentioned_blocks win"
proof -
  have "block_key old \<noteq> block_key new" using assms(1) by simp
  moreover have "input_names (rename_inputs old new st) = renamed_id old new ` input_names st" for st
    using renamed_input_names [of old new st] by (simp add: renamed_id_def)
  ultimately show ?thesis
    using assms
    by (simp add: mentioned_blocks_def rename_window_def rename_blocks_def Let_def renamed_selection renamed_preview
        renamed_canvas rename_view_def dom_move_key renamed_keys image_Un block_key_def [symmetric])
qed



end
