(* ===== verification/Console.thy ===== *)
theory Console
  imports Main
begin

text \<open>
  The SQL console: \<open>features/tools/preprocessing/sql/sqlCells.ts\<close>. \<open>ConsoleRunner\<close> starts explicit
  runs at once and coalesces automatic previews per cell. JavaScript runs each call up to its first
  \<open>await\<close> without interruption, so the runner is a state machine whose steps are a call of
  \<open>enqueue\<close> or \<open>clearPending\<close> and the settling of the run that a cell's \<open>drain\<close> awaits. The
  environment \<open>'e\<close> is what a job's \<open>valid\<close> callback reads when it is called.
\<close>

subsection \<open>Cells\<close>

datatype sql_cell_mode = Mode_default | Mode_live

record sql_cell_source =
  cell_sql :: string
  cell_mode :: sql_cell_mode

datatype parameter_value = Param_Text string | Param_Number nat

record statement =
  st_sql :: string
  st_parameters :: "parameter_value list"

definition mode_name :: "sql_cell_mode \<Rightarrow> string" where
  "mode_name mode = (case mode of Mode_default \<Rightarrow> ''default'' | Mode_live \<Rightarrow> ''live'')"

definition saveCellStatement :: "string \<Rightarrow> sql_cell_source \<Rightarrow> statement" where
  "saveCellStatement cell source =
     \<lparr>st_sql = ''UPDATE wordflow.sql_cells SET sql=?, mode=? WHERE id=?'',
      st_parameters = [Param_Text (cell_sql source), Param_Text (mode_name (cell_mode source)), Param_Text cell]\<rparr>"

definition reorderCellStatements :: "string list \<Rightarrow> statement list" where
  "reorderCellStatements ids =
     map (\<lambda>(position, cell).
       \<lparr>st_sql = ''UPDATE wordflow.sql_cells SET position=? WHERE id=?'',
        st_parameters = [Param_Number position, Param_Text cell]\<rparr>) (enumerate 0 ids)"

subsection \<open>The runner\<close>

text \<open>\<open>ex_run\<close> identifies the promise that \<open>run()\<close> returns.\<close>

record 'e execution =
  ex_id :: string
  ex_live :: bool
  ex_valid :: "'e \<Rightarrow> bool"
  ex_run :: nat

text \<open>
  \<open>co_runs\<close> are the automatic runs that a drain awaits, with their cells; \<open>co_started\<close> is the history
  of all runs started, in order.
\<close>

record 'e console =
  co_running :: "string list"
  co_pending :: "string \<rightharpoonup> 'e execution"
  co_runs :: "(string \<times> nat) list"
  co_started :: "(string \<times> nat) list"

definition initial_console :: "'e console" where
  "initial_console = \<lparr>co_running = [], co_pending = Map.empty, co_runs = [], co_started = []\<rparr>"

definition take_pending :: "string \<Rightarrow> 'e console \<Rightarrow> 'e console" where
  "take_pending cell st = st\<lparr>co_pending := (co_pending st)(cell := None)\<rparr>"

definition start_live :: "'e execution \<Rightarrow> 'e console \<Rightarrow> 'e console" where
  "start_live job st =
     st\<lparr>co_runs := co_runs st @ [(ex_id job, ex_run job)], co_started := co_started st @ [(ex_id job, ex_run job)]\<rparr>"

definition release :: "string \<Rightarrow> 'e console \<Rightarrow> 'e console" where
  "release cell st = st\<lparr>co_running := filter (\<lambda>c. c \<noteq> cell) (co_running st)\<rparr>"

text \<open>The loop of \<open>drain\<close>, up to the next \<open>await\<close> or to the \<open>finally\<close> block.\<close>

function drain_loop :: "'e \<Rightarrow> string \<Rightarrow> 'e console \<Rightarrow> 'e console" where
  "drain_loop env cell st =
     (case co_pending st cell of
        None \<Rightarrow> release cell st
      | Some job \<Rightarrow>
          if ex_valid job env then start_live job (take_pending cell st)
          else drain_loop env cell (take_pending cell st))"
  by pat_completeness auto
termination
  by (relation "measure (\<lambda>(env, cell, st). if co_pending st cell = None then 0 else 1)")
    (auto simp: take_pending_def)

declare drain_loop.simps [simp del]

definition drain :: "'e \<Rightarrow> string \<Rightarrow> 'e console \<Rightarrow> 'e console" where
  "drain env cell st =
     (if cell \<in> set (co_running st) then st
      else drain_loop env cell (st\<lparr>co_running := co_running st @ [cell]\<rparr>))"

definition enqueue :: "'e \<Rightarrow> 'e execution \<Rightarrow> 'e console \<Rightarrow> 'e console" where
  "enqueue env job st =
     (if \<not> ex_live job
      then if ex_valid job env then st\<lparr>co_started := co_started st @ [(ex_id job, ex_run job)]\<rparr> else st
      else drain env (ex_id job) (st\<lparr>co_pending := (co_pending st)(ex_id job \<mapsto> job)\<rparr>))"

definition clearPending :: "'e console \<Rightarrow> 'e console" where
  "clearPending st = st\<lparr>co_pending := Map.empty\<rparr>"

text \<open>The awaited run settles: fulfilled, the loop goes on; rejected, the error leaves \<open>drain\<close>.\<close>

definition run_fulfilled :: "'e \<Rightarrow> string \<Rightarrow> nat \<Rightarrow> 'e console \<Rightarrow> 'e console" where
  "run_fulfilled env cell run st = drain_loop env cell (st\<lparr>co_runs := remove1 (cell, run) (co_runs st)\<rparr>)"

definition run_rejected :: "string \<Rightarrow> nat \<Rightarrow> 'e console \<Rightarrow> 'e console" where
  "run_rejected cell run st = release cell (st\<lparr>co_runs := remove1 (cell, run) (co_runs st)\<rparr>)"

inductive console_step :: "bool \<Rightarrow> 'e console \<Rightarrow> 'e console \<Rightarrow> bool" for failures where
  step_enqueue: "console_step failures st (enqueue env job st)"
| step_clear: "console_step failures st (clearPending st)"
| step_fulfilled: "(cell, run) \<in> set (co_runs st) \<Longrightarrow> console_step failures st (run_fulfilled env cell run st)"
| step_rejected: "failures \<Longrightarrow> (cell, run) \<in> set (co_runs st) \<Longrightarrow>
    console_step failures st (run_rejected cell run st)"

inductive console_reachable :: "bool \<Rightarrow> 'e console \<Rightarrow> bool" for failures where
  reachable_initial: "console_reachable failures initial_console"
| reachable_step: "console_reachable failures st \<Longrightarrow> console_step failures st st' \<Longrightarrow> console_reachable failures st'"

subsection \<open>Invariant\<close>

text \<open>
  The cells in \<open>running\<close> are exactly the cells of awaited runs, each with one run; without failures
  a pending job always has a drain that will take it.
\<close>

definition console_invariant :: "bool \<Rightarrow> 'e console \<Rightarrow> bool" where
  "console_invariant failures st \<longleftrightarrow>
     distinct (co_running st) \<and> distinct (map fst (co_runs st)) \<and>
     set (co_running st) = fst ` set (co_runs st) \<and>
     (\<not> failures \<longrightarrow> dom (co_pending st) \<subseteq> set (co_running st))"

text \<open>A state inside \<open>drain\<close> of a cell: the cell is in \<open>running\<close> and awaits nothing.\<close>

definition draining :: "bool \<Rightarrow> string \<Rightarrow> 'e console \<Rightarrow> bool" where
  "draining failures cell st \<longleftrightarrow>
     distinct (co_running st) \<and> distinct (map fst (co_runs st)) \<and> cell \<notin> fst ` set (co_runs st) \<and>
     set (co_running st) = insert cell (fst ` set (co_runs st)) \<and>
     (\<not> failures \<longrightarrow> dom (co_pending st) \<subseteq> set (co_running st))"

text \<open>Every pending job is stored under its own cell.\<close>

definition pending_keyed :: "'e console \<Rightarrow> bool" where
  "pending_keyed st \<longleftrightarrow> (\<forall>c job. co_pending st c = Some job \<longrightarrow> ex_id job = c)"

lemma drain_loop_pending:
  "drain_loop env cell st =
     (case co_pending st cell of
        None \<Rightarrow> release cell st
      | Some job \<Rightarrow> (if ex_valid job env then start_live job else release cell) (take_pending cell st))"
  by (auto simp: drain_loop.simps [of env cell] take_pending_def split: option.split)

lemma drain_loop_invariant:
  assumes "draining failures cell st" and "pending_keyed st"
  shows "console_invariant failures (drain_loop env cell st)"
  using assms
  by (auto simp: pending_keyed_def drain_loop_pending draining_def console_invariant_def release_def start_live_def
      take_pending_def split: option.split if_split_asm)

lemma drain_loop_keyed: "pending_keyed st \<Longrightarrow> pending_keyed (drain_loop env cell st)"
  by (auto simp: drain_loop_pending pending_keyed_def release_def start_live_def take_pending_def
      split: option.split if_split_asm)

lemma settle_draining:
  assumes "console_invariant failures st" and "(cell, run) \<in> set (co_runs st)"
  shows "draining failures cell (st\<lparr>co_runs := remove1 (cell, run) (co_runs st)\<rparr>)"
proof -
  have d: "distinct (map fst (co_runs st))" using assms(1) by (simp add: console_invariant_def)
  then have "distinct (co_runs st)" by (simp add: distinct_map)
  then have rest: "set (remove1 (cell, run) (co_runs st)) = set (co_runs st) - {(cell, run)}"
    by (rule set_remove1_eq)
  have gone: "cell \<notin> fst ` set (remove1 (cell, run) (co_runs st))"
    using d assms(2) by (fastforce simp: rest distinct_map inj_on_def)
  moreover have "insert cell (fst ` set (remove1 (cell, run) (co_runs st))) = fst ` set (co_runs st)"
    using assms(2) by (force simp: rest)
  moreover have "distinct (map fst (remove1 (cell, run) (co_runs st)))"
    using d by (simp add: distinct_map inj_on_def rest)
  ultimately show ?thesis using assms(1) by (auto simp: draining_def console_invariant_def)
qed

lemma enqueue_invariant:
  assumes "console_invariant failures st" and "pending_keyed st"
  shows "console_invariant failures (enqueue env job st) \<and> pending_keyed (enqueue env job st)"
proof (cases "ex_live job")
  case False
  with assms show ?thesis by (auto simp: enqueue_def console_invariant_def pending_keyed_def)
next
  case True
  define st1 where "st1 = st\<lparr>co_pending := (co_pending st)(ex_id job \<mapsto> job)\<rparr>"
  have keyed: "pending_keyed st1" using assms(2) by (auto simp: st1_def pending_keyed_def)
  show ?thesis
  proof (cases "ex_id job \<in> set (co_running st)")
    case running: True
    then have "enqueue env job st = st1" using True by (simp add: enqueue_def drain_def st1_def)
    moreover have "console_invariant failures st1"
      using assms(1) running unfolding console_invariant_def st1_def by simp metis
    ultimately show ?thesis using keyed by simp
  next
    case idle: False
    let ?st = "st1\<lparr>co_running := co_running st1 @ [ex_id job]\<rparr>"
    have "draining failures (ex_id job) ?st"
      using assms(1) idle by (auto simp: st1_def draining_def console_invariant_def)
    moreover have "pending_keyed ?st" using keyed by (simp add: pending_keyed_def)
    moreover have "enqueue env job st = drain_loop env (ex_id job) ?st"
      using True idle by (simp add: enqueue_def drain_def st1_def)
    ultimately show ?thesis using drain_loop_invariant drain_loop_keyed by metis
  qed
qed

lemma step_invariant:
  assumes "console_step failures st st'" and "console_invariant failures st" and "pending_keyed st"
  shows "console_invariant failures st' \<and> pending_keyed st'"
  using assms
proof (induction rule: console_step.cases)
  case (step_enqueue st env job)
  show ?case unfolding step_enqueue(2) by (rule enqueue_invariant) (use step_enqueue in simp_all)
next
  case (step_clear st)
  then show ?case by (auto simp: clearPending_def console_invariant_def pending_keyed_def)
next
  case (step_fulfilled cell run st env)
  let ?st = "st\<lparr>co_runs := remove1 (cell, run) (co_runs st)\<rparr>"
  have "draining failures cell ?st" using step_fulfilled settle_draining by blast
  moreover have "pending_keyed ?st" using step_fulfilled by (simp add: pending_keyed_def)
  ultimately show ?case
    unfolding step_fulfilled(2) run_fulfilled_def using drain_loop_invariant drain_loop_keyed by metis
next
  case (step_rejected cell run st)
  then have "draining failures cell (st\<lparr>co_runs := remove1 (cell, run) (co_runs st)\<rparr>)"
    using settle_draining by blast
  with step_rejected show ?case
    by (auto simp: run_rejected_def release_def draining_def console_invariant_def pending_keyed_def)
qed

lemma reachable_invariant:
  "console_reachable failures st \<Longrightarrow> console_invariant failures st \<and> pending_keyed st"
proof (induction rule: console_reachable.induct)
  case reachable_initial
  show ?case by (simp add: initial_console_def console_invariant_def pending_keyed_def)
next
  case (reachable_step st st')
  then show ?case using step_invariant by blast
qed

text \<open>
  The console never runs two automatic previews of a cell at the same time: in every reachable
  state, whatever is enqueued, cleared, fulfilled or rejected and in whatever order, the awaited runs
  belong to pairwise different cells, which are exactly the cells marked as running.
\<close>

theorem one_live_run_per_cell:
  assumes "console_reachable failures st"
  shows "distinct (map fst (co_runs st)) \<and> fst ` set (co_runs st) = set (co_running st)"
  using reachable_invariant [OF assms] by (simp add: console_invariant_def)

definition example_job :: "nat \<Rightarrow> nat execution" where
  "example_job n = \<lparr>ex_id = ''a'', ex_live = True, ex_valid = (\<lambda>revision. revision = n), ex_run = n\<rparr>"

lemma example_console_reachable:
  "console_reachable failures (enqueue 2 (example_job 2) (enqueue 1 (example_job 1) initial_console))"
  by (intro reachable_step [OF _ step_enqueue] reachable_initial)

theorem one_live_run_per_cell_witness:
  "co_runs (enqueue 2 (example_job 2) (enqueue 1 (example_job 1) initial_console)) = [(''a'', 1)] \<and>
   distinct (map fst (co_runs (enqueue 2 (example_job 2) (enqueue 1 (example_job 1) initial_console))))"
proof
  show "co_runs (enqueue 2 (example_job 2) (enqueue 1 (example_job 1) initial_console)) = [(''a'', 1)]"
    by code_simp
  show "distinct (map fst (co_runs (enqueue 2 (example_job 2) (enqueue 1 (example_job 1) initial_console))))"
    using one_live_run_per_cell [OF example_console_reachable] by blast
qed

subsection \<open>The latest preview wins\<close>

lemma enqueue_busy:
  assumes "ex_live job" and "ex_id job \<in> set (co_running st)"
  shows "enqueue env job st = st\<lparr>co_pending := (co_pending st)(ex_id job \<mapsto> job)\<rparr>"
  using assms by (simp add: enqueue_def drain_def)

lemma enqueue_all_busy:
  assumes "cell \<in> set (co_running st)" and "jobs \<noteq> []"
    and "list_all (\<lambda>(env, job). ex_live job \<and> ex_id job = cell) jobs"
  shows "fold (\<lambda>(env, job). enqueue env job) jobs st =
    st\<lparr>co_pending := (co_pending st)(cell \<mapsto> snd (last jobs))\<rparr>"
  using assms
proof (induction jobs arbitrary: st)
  case (Cons entry jobs)
  obtain env job where entry: "entry = (env, job)" by (cases entry)
  with Cons.prems have first: "enqueue env job st = st\<lparr>co_pending := (co_pending st)(cell \<mapsto> job)\<rparr>"
    by (simp add: enqueue_busy)
  have twice: "(f(c \<mapsto> a))(c \<mapsto> b) = f(c \<mapsto> b)" for f :: "string \<rightharpoonup> 'a execution" and c a b by simp
  show ?case
  proof (cases "jobs = []")
    case True
    with entry first show ?thesis by (simp add: fun_upd_def)
  next
    case False
    with Cons.IH [of "enqueue env job st"] Cons.prems entry first twice show ?thesis
      by (simp del: fun_upd_apply)
  qed
qed simp

text \<open>
  Automatic previews coalesce to the latest: if any number of previews of a cell is requested
  while one of its runs is in progress, then when that run is fulfilled exactly the last of them is
  started, if it is still valid then, none of the others ever is, and nothing of the cell is left
  pending; if it is no longer valid the cell becomes idle.
\<close>

theorem latest_preview_wins:
  assumes "console_reachable failures st" and "(cell, run) \<in> set (co_runs st)" and "jobs \<noteq> []"
    and "list_all (\<lambda>(env, job). ex_live job \<and> ex_id job = cell) jobs"
  shows "let latest = snd (last jobs);
             st' = run_fulfilled env cell run (fold (\<lambda>(env, job). enqueue env job) jobs st)
         in co_started st' = co_started st @ (if ex_valid latest env then [(cell, ex_run latest)] else []) \<and>
            co_pending st' cell = None \<and>
            (cell \<in> set (co_running st')) = ex_valid latest env"
proof -
  have busy: "cell \<in> set (co_running st)"
    using reachable_invariant [OF assms(1)] image_eqI [OF _ assms(2), of cell fst]
    by (simp add: console_invariant_def)
  have "last jobs \<in> set jobs" using assms(3) by simp
  with assms(4) have "ex_id (snd (last jobs)) = cell" by (auto simp: list_all_iff)
  then show ?thesis
    using busy
    by (simp add: enqueue_all_busy [OF busy assms(3,4)] run_fulfilled_def drain_loop_pending start_live_def
        release_def take_pending_def Let_def del: drain_loop.simps)
qed

theorem latest_preview_wins_witness:
  "let st = enqueue 1 (example_job 1) initial_console;
       st' = run_fulfilled 3 ''a'' 1 (fold (\<lambda>(env, job). enqueue env job)
               [(2, example_job 2), (3, example_job 3)] st)
   in co_started st' = [(''a'', 1), (''a'', 3)] \<and> co_pending st' ''a'' = None"
proof -
  let ?st = "enqueue 1 (example_job 1) initial_console"
  have reach: "console_reachable False ?st" by (intro reachable_step [OF _ step_enqueue] reachable_initial)
  have run: "(''a'', 1) \<in> set (co_runs ?st)" by code_simp
  have started: "co_started ?st = [(''a'', 1)]" by code_simp
  have jobs: "list_all (\<lambda>(env, job). ex_live job \<and> ex_id job = ''a'') [(2, example_job 2), (3, example_job 3)]"
    by (simp add: example_job_def)
  from latest_preview_wins [OF reach run _ jobs, of 3] started show ?thesis
    by (simp add: Let_def example_job_def)
qed

text \<open>
  No requested preview is forgotten: as long as runs are fulfilled rather than rejected, every
  pending preview belongs to a cell with a run in progress, whose completion takes the preview up.
\<close>

theorem pending_preview_has_run:
  assumes "console_reachable False st" and "co_pending st cell = Some job"
  shows "ex_id job = cell \<and> (\<exists>run. (cell, run) \<in> set (co_runs st))"
  using reachable_invariant [OF assms(1)] assms(2)
  by (force simp: console_invariant_def pending_keyed_def)

theorem pending_preview_has_run_witness:
  "let st = enqueue 2 (example_job 2) (enqueue 1 (example_job 1) initial_console)
   in map_option ex_run (co_pending st ''a'') = Some 2 \<and> (\<exists>run. (''a'', run) \<in> set (co_runs st))"
proof -
  let ?st = "enqueue 2 (example_job 2) (enqueue 1 (example_job 1) initial_console)"
  have "co_pending ?st ''a'' = Some (example_job 2)"
    by (simp add: enqueue_def drain_def drain_loop_pending example_job_def initial_console_def
        start_live_def take_pending_def)
  with pending_preview_has_run [OF example_console_reachable, of "''a''"] show ?thesis
    by (simp add: Let_def example_job_def)
qed

end
