(* ===== verification/Deletion.thy ===== *)
theory Deletion
  imports Objects
begin

text \<open>
  The selection of dependent objects: \<open>features/project/deletionSelection.ts\<close>. A sweep visits the
  edges in order and adds the far end of every edge that leaves the selected keys, and sweeps repeat
  until one adds nothing. The result is the set of objects reachable from the roots.
\<close>

subsection \<open>The loop\<close>

record dependency_edge =
  edge_source :: object_ref
  edge_target :: object_ref

record 'n dependency_node =
  dn_object :: object_ref
  dn_details :: 'n

record 'n dependency_graph =
  dg_edges :: "dependency_edge list"
  dg_nodes :: "'n dependency_node list"

definition object_key :: "object_ref \<Rightarrow> string" where
  "object_key r = targetKey (Object_Target (Some (ref_schema r)) (ref_name r))"

definition edge_keys :: "bool \<Rightarrow> dependency_edge \<Rightarrow> string \<times> string" where
  "edge_keys reverse edge =
     (if reverse then (object_key (edge_target edge), object_key (edge_source edge))
      else (object_key (edge_source edge), object_key (edge_target edge)))"

definition visit_edge :: "bool \<Rightarrow> dependency_edge \<Rightarrow> string list \<times> bool \<Rightarrow> string list \<times> bool" where
  "visit_edge reverse edge st =
     (case (edge_keys reverse edge, st) of
        ((k, t), (selected, changed)) \<Rightarrow>
          if k \<in> set selected \<and> t \<notin> set selected then (selected @ [t], True) else (selected, changed))"

definition sweep :: "bool \<Rightarrow> dependency_edge list \<Rightarrow> string list \<Rightarrow> string list \<times> bool" where
  "sweep reverse edges selected = fold (visit_edge reverse) edges (selected, False)"

definition unselected :: "bool \<Rightarrow> dependency_edge list \<Rightarrow> string list \<Rightarrow> string set" where
  "unselected reverse edges selected = snd ` edge_keys reverse ` set edges - set selected"

lemma visit_edge_cases:
  obtains "visit_edge reverse edge (selected, changed) = (selected, changed)"
    and "fst (edge_keys reverse edge) \<in> set selected \<longrightarrow> snd (edge_keys reverse edge) \<in> set selected"
  | "visit_edge reverse edge (selected, changed) = (selected @ [snd (edge_keys reverse edge)], True)"
    and "fst (edge_keys reverse edge) \<in> set selected"
    and "snd (edge_keys reverse edge) \<notin> set selected"
  by (cases "edge_keys reverse edge") (fastforce simp: visit_edge_def split: if_split_asm)

lemma fold_visit_grows:
  assumes "fold (visit_edge reverse) edges (selected, changed) = (selected', changed')"
  shows "set selected \<subseteq> set selected' \<and> set selected' \<subseteq> set selected \<union> snd ` edge_keys reverse ` set edges \<and>
    (changed \<longrightarrow> changed') \<and>
    (changed' \<longrightarrow> changed \<or> set selected \<subset> set selected') \<and>
    (\<not> changed' \<longrightarrow> selected' = selected)"
  using assms
proof (induction edges arbitrary: selected changed)
  case (Cons edge edges)
  show ?case
  proof (cases rule: visit_edge_cases [of reverse edge selected changed])
    case 1
    with Cons.prems have "fold (visit_edge reverse) edges (selected, changed) = (selected', changed')"
      by simp
    from Cons.IH [OF this] show ?thesis by auto
  next
    case 2
    with Cons.prems have "fold (visit_edge reverse) edges
        (selected @ [snd (edge_keys reverse edge)], True) = (selected', changed')"
      by simp
    from Cons.IH [OF this] show ?thesis using 2 by auto
  qed
qed simp

lemma sweep_shrinks [termination_simp]:
  assumes "sweep reverse edges selected = (selected', True)"
  shows "card (unselected reverse edges selected') < card (unselected reverse edges selected)"
proof (rule psubset_card_mono)
  show "finite (unselected reverse edges selected)" by (simp add: unselected_def)
  from fold_visit_grows [OF assms [unfolded sweep_def]]
  show "unselected reverse edges selected' \<subset> unselected reverse edges selected"
    unfolding unselected_def by blast
qed

function close_selection :: "bool \<Rightarrow> dependency_edge list \<Rightarrow> string list \<Rightarrow> string list" where
  "close_selection reverse edges selected =
     (case sweep reverse edges selected of
        (selected', changed) \<Rightarrow> if changed then close_selection reverse edges selected' else selected')"
  by pat_completeness auto
termination
  by (relation "measure (\<lambda>(reverse, edges, selected). card (unselected reverse edges selected))")
    (auto intro: sweep_shrinks)

declare close_selection.simps [simp del]

definition dependentSelection ::
    "'n dependency_graph \<Rightarrow> object_ref list \<Rightarrow> bool \<Rightarrow> object_ref list" where
  "dependentSelection graph roots reverse =
     (let selected = close_selection reverse (dg_edges graph) (map object_key roots)
      in map dn_object (filter (\<lambda>node. object_key (dn_object node) \<in> set selected) (dg_nodes graph)))"

subsection \<open>The loop computes reachability\<close>

definition edge_relation :: "bool \<Rightarrow> dependency_edge list \<Rightarrow> (string \<times> string) set" where
  "edge_relation reverse edges = edge_keys reverse ` set edges"

lemma fold_visit_sound:
  assumes "fold (visit_edge reverse) edges (selected, changed) = (selected', changed')"
    and "edge_relation reverse edges \<subseteq> R"
  shows "set selected' \<subseteq> R\<^sup>* `` set selected"
  using assms
proof (induction edges arbitrary: selected changed)
  case (Cons edge edges)
  have sub: "edge_relation reverse edges \<subseteq> R" and edge: "edge_keys reverse edge \<in> R"
    using Cons.prems(2) by (auto simp: edge_relation_def)
  show ?case
  proof (cases rule: visit_edge_cases [of reverse edge selected changed])
    case 1
    with Cons.IH [OF _ sub] Cons.prems(1) show ?thesis by simp
  next
    case 2
    let ?added = "selected @ [snd (edge_keys reverse edge)]"
    have "fold (visit_edge reverse) edges (?added, True) = (selected', changed')"
      using Cons.prems(1) 2 by simp
    then have "set selected' \<subseteq> R\<^sup>* `` set ?added" by (rule Cons.IH [OF _ sub])
    moreover have "set ?added \<subseteq> R\<^sup>* `` set selected"
    proof -
      have "(fst (edge_keys reverse edge), snd (edge_keys reverse edge)) \<in> R\<^sup>*"
        by (rule r_into_rtrancl) (use edge in simp)
      then have "snd (edge_keys reverse edge) \<in> R\<^sup>* `` set selected" by (rule ImageI) (rule 2(2))
      then show ?thesis by auto
    qed
    ultimately show ?thesis using Image_mono [OF subset_refl [of "R\<^sup>*"]] relcomp_Image
      by (metis (no_types, lifting) rtrancl_idemp_self_comp subset_trans)
  qed
qed auto

lemma fold_visit_closed:
  assumes "fold (visit_edge reverse) edges (selected, changed) = (selected', False)"
  shows "edge_relation reverse edges `` set selected \<subseteq> set selected \<and> selected' = selected"
  using assms
proof (induction edges arbitrary: selected changed)
  case (Cons edge edges)
  show ?case
  proof (cases rule: visit_edge_cases [of reverse edge selected changed])
    case 1
    with Cons.prems have "fold (visit_edge reverse) edges (selected, changed) = (selected', False)" by simp
    from Cons.IH [OF this] 1(2) show ?thesis
      by (cases "edge_keys reverse edge") (auto simp: edge_relation_def)
  next
    case 2
    with Cons.prems fold_visit_grows [of reverse edges "selected @ [snd (edge_keys reverse edge)]" True
        selected' False] show ?thesis by simp
  qed
qed (simp add: edge_relation_def)

lemma close_selection_reachable:
  "set (close_selection reverse edges selected) = (edge_relation reverse edges)\<^sup>* `` set selected"
proof (induction reverse edges selected rule: close_selection.induct)
  case (1 reverse edges selected)
  let ?R = "edge_relation reverse edges"
  obtain selected' changed where s: "sweep reverse edges selected = (selected', changed)"
    by (cases "sweep reverse edges selected")
  note fold = s [unfolded sweep_def]
  show ?case
  proof (cases changed)
    case True
    have "set selected \<subseteq> set selected'" using fold_visit_grows [OF fold] by simp
    moreover have "set selected' \<subseteq> ?R\<^sup>* `` set selected" by (rule fold_visit_sound [OF fold subset_refl])
    ultimately have "?R\<^sup>* `` set selected' = ?R\<^sup>* `` set selected" by (blast intro: rtrancl_trans)
    with 1 s True show ?thesis by (simp add: close_selection.simps [of reverse edges selected])
  next
    case False
    then have "?R `` set selected \<subseteq> set selected" "selected' = selected"
      using fold_visit_closed [of reverse edges selected False selected'] fold by simp_all
    moreover from this(1) have "?R\<^sup>* `` set selected = set selected" by (rule Image_closed_trancl)
    ultimately show ?thesis using s False by (simp add: close_selection.simps [of reverse edges selected])
  qed
qed

lemma object_key_eq_iff [simp]: "object_key r = object_key r' \<longleftrightarrow> r = r'"
  by (cases r; cases r') (simp add: object_key_def targetKey_eq_iff objectRef_def)

text \<open>The dependency relation between objects, along or against the edges.\<close>

definition depends :: "bool \<Rightarrow> dependency_edge list \<Rightarrow> (object_ref \<times> object_ref) set" where
  "depends reverse edges =
     (\<lambda>edge. if reverse then (edge_target edge, edge_source edge) else (edge_source edge, edge_target edge)) ` set edges"

lemma edge_relation_depends: "edge_relation reverse edges = map_prod object_key object_key ` depends reverse edges"
  by (force simp: edge_relation_def depends_def edge_keys_def)

lemma rtrancl_map_inj:
  assumes "inj f"
  shows "(f x, y) \<in> (map_prod f f ` R)\<^sup>* \<longleftrightarrow> (\<exists>z. y = f z \<and> (x, z) \<in> R\<^sup>*)" (is "?l = ?r")
proof
  show ?r if ?l
    using that
  proof (induction rule: rtrancl_induct)
    case (step y y')
    then obtain z a b where "y = f z" "(x, z) \<in> R\<^sup>*" "(a, b) \<in> R" "y = f a" "y' = f b" by auto
    with assms show ?case by (metis injD rtrancl.rtrancl_into_rtrancl)
  qed auto
  have "(x, z) \<in> R\<^sup>* \<Longrightarrow> (f x, f z) \<in> (map_prod f f ` R)\<^sup>*" for z
  proof (induction rule: rtrancl_induct)
    case (step u v)
    then have "(f u, f v) \<in> map_prod f f ` R" by force
    with step.IH show ?case by (rule rtrancl_into_rtrancl)
  qed simp
  then show ?l if ?r using that by auto
qed

lemma selected_iff_reachable:
  "object_key obj \<in> set (close_selection reverse edges (map object_key roots)) \<longleftrightarrow>
     (\<exists>root \<in> set roots. (root, obj) \<in> (depends reverse edges)\<^sup>*)"
proof -
  have "inj object_key" by (auto intro: injI)
  then show ?thesis
    by (auto simp: close_selection_reachable edge_relation_depends Image_iff rtrancl_map_inj)
qed

text \<open>
  C38: deleting objects takes exactly their dependents along: \<open>dependentSelection\<close> always returns, and
  it returns the objects of the graph that are reachable from a root through dependency edges (or
  against them, for the reverse selection), each in the order of the graph, and no others; the keys
  that stand for the objects never confuse two of them.
\<close>

theorem dependentSelection_reachable:
  "dependentSelection graph roots reverse =
     filter (\<lambda>obj. \<exists>root \<in> set roots. (root, obj) \<in> (depends reverse (dg_edges graph))\<^sup>*)
       (map dn_object (dg_nodes graph))"
  by (simp add: dependentSelection_def Let_def selected_iff_reachable filter_map o_def)

end
