(* ===== verification/Node_Inputs.thy ===== *)
theory Node_Inputs
  imports Stores
begin

text \<open>
  The inputs of a tool: \<open>features/tools/common/nodeInputs/nodeInputsCore.ts\<close> and the mutators of
  \<open>useNodeInputs.ts\<close>. A list of inputs is kept by its owner and resolved against the blocks of the
  project; adding validates existence, duplicates and capacity in this order.
\<close>

subsection \<open>Resolution and validation\<close>

record node_metadata =
  nm_id :: string
  nm_name :: string
  nm_color :: "string option"
  nm_document :: "string option"
  nm_tokenizerModel :: "string option"

record column_info =
  ci_name :: string
  ci_typeName :: string
  ci_field :: arrow_field

record input_constraints =
  ic_preserveColumnSelection :: bool
  ic_fieldPredicate :: "(arrow_field \<Rightarrow> bool) option"
  ic_maxNodes :: "nat option"
  ic_docTypeOnly :: bool

record resolved_input =
  ri_id :: string
  ri_name :: string
  ri_node :: node_metadata
  ri_column :: string
  ri_columnOptions :: "column_info list"

record add_rejection =
  ar_nodeId :: string
  ar_reason :: string

text \<open>\<open>getColumnInfos?.(node) ?? []\<close>: the getter may be absent or not know the columns yet.\<close>

type_synonym column_getter = "(node_metadata \<Rightarrow> column_info list option) option"

definition buildNodeMap :: "node_metadata list \<Rightarrow> (string \<rightharpoonup> node_metadata)" where
  "buildNodeMap allNodes = fold (\<lambda>node m. m(nm_id node \<mapsto> node)) allNodes Map.empty"

definition known_columns :: "column_getter \<Rightarrow> node_metadata \<Rightarrow> column_info list" where
  "known_columns getColumnInfos node =
     (case getColumnInfos of
        None \<Rightarrow> []
      | Some getter \<Rightarrow> (case getter node of None \<Rightarrow> [] | Some infos \<Rightarrow> infos))"

definition allowedColumnsForNode ::
    "node_metadata \<Rightarrow> input_constraints \<Rightarrow> column_getter \<Rightarrow> column_info list" where
  "allowedColumnsForNode node constraints getColumnInfos =
     (case ic_fieldPredicate constraints of
        None \<Rightarrow> known_columns getColumnInfos node
      | Some P \<Rightarrow> filter (\<lambda>column. P (ci_field column)) (known_columns getColumnInfos node))"

definition defaultColumnForNode :: "node_metadata \<Rightarrow> input_constraints \<Rightarrow> column_getter \<Rightarrow> string" where
  "defaultColumnForNode node constraints getColumnInfos =
     (let allowed = map ci_name (allowedColumnsForNode node constraints getColumnInfos);
          document = (case nm_document node of Some d \<Rightarrow> d | None \<Rightarrow> [])
      in if document \<noteq> [] \<and> (document \<in> set allowed \<or> ic_preserveColumnSelection constraints \<and> allowed = [])
         then document
         else if \<not> ic_docTypeOnly constraints then (case allowed of [] \<Rightarrow> [] | first # _ \<Rightarrow> first)
         else [])"

definition capacity_reason :: "nat \<Rightarrow> string" where
  "capacity_reason maxNodes =
     (if maxNodes = 1
      then ''This tool accepts a single node '' @ [CHR 0xE2, CHR 0x80, CHR 0x94] @ '' remove the current one first''
      else ''This tool accepts at most '' @ show_nat maxNodes @ '' nodes'')"

definition validateAdd ::
    "string \<Rightarrow> node_input list \<Rightarrow> (string \<rightharpoonup> node_metadata) \<Rightarrow> input_constraints \<Rightarrow> string option" where
  "validateAdd nodeId current nodeMap constraints =
     (if nodeMap nodeId = None then Some ''Node is no longer in the project''
      else if list_ex (\<lambda>i. ni_node_id i = nodeId) current then Some ''Already added''
      else case ic_maxNodes constraints of
             Some maxNodes \<Rightarrow> if length current \<ge> maxNodes then Some (capacity_reason maxNodes) else None
           | None \<Rightarrow> None)"

definition resolved_column ::
    "node_input \<Rightarrow> node_metadata \<Rightarrow> input_constraints \<Rightarrow> column_getter \<Rightarrow> string" where
  "resolved_column input node constraints getColumnInfos =
     (let names = map ci_name (allowedColumnsForNode node constraints getColumnInfos);
          stored = (case ni_column input of Some c \<Rightarrow> c | None \<Rightarrow> [])
      in if ic_preserveColumnSelection constraints \<or> stored \<noteq> [] \<and> stored \<in> set names then stored
         else defaultColumnForNode node constraints getColumnInfos)"

definition resolveNodeInputs ::
    "node_input list \<Rightarrow> (string \<rightharpoonup> node_metadata) \<Rightarrow> input_constraints \<Rightarrow> column_getter \<Rightarrow> resolved_input list" where
  "resolveNodeInputs inputs nodeMap constraints getColumnInfos =
     List.map_filter (\<lambda>input.
       map_option (\<lambda>node.
         \<lparr>ri_id = ni_node_id input, ri_name = nm_name node, ri_node = node,
          ri_column = resolved_column input node constraints getColumnInfos,
          ri_columnOptions = allowedColumnsForNode node constraints getColumnInfos\<rparr>)
         (nodeMap (ni_node_id input))) inputs"

subsection \<open>The mutators\<close>

text \<open>Each mutator gives the inputs it passes to \<open>onChange\<close>; \<open>None\<close> when it does not call it.\<close>

definition add_node ::
    "(string \<rightharpoonup> node_metadata) \<Rightarrow> input_constraints \<Rightarrow> column_getter \<Rightarrow> string \<Rightarrow>
     node_input list \<times> add_rejection list \<Rightarrow> node_input list \<times> add_rejection list" where
  "add_node nodeMap constraints getColumnInfos nodeId st =
     (case st of (inputs, rejections) \<Rightarrow>
        case validateAdd nodeId inputs nodeMap constraints of
          Some reason \<Rightarrow> (inputs, rejections @ [\<lparr>ar_nodeId = nodeId, ar_reason = reason\<rparr>])
        | None \<Rightarrow>
            (case nodeMap nodeId of
               None \<Rightarrow> (inputs, rejections)
             | Some node \<Rightarrow>
                 (inputs @ [\<lparr>ni_node_id = nodeId,
                    ni_column = Some (defaultColumnForNode node constraints getColumnInfos)\<rparr>], rejections)))"

definition addNodes ::
    "(string \<rightharpoonup> node_metadata) \<Rightarrow> input_constraints \<Rightarrow> column_getter \<Rightarrow> string list \<Rightarrow> node_input list \<Rightarrow>
     node_input list option \<times> add_rejection list" where
  "addNodes nodeMap constraints getColumnInfos ids inputs =
     (case fold (add_node nodeMap constraints getColumnInfos) ids (inputs, []) of
        (new, rejections) \<Rightarrow> (if length new \<noteq> length inputs then Some new else None, rejections))"

definition remove_input :: "string \<Rightarrow> node_input list \<Rightarrow> node_input list option" where
  "remove_input nodeId inputs =
     (let new = filter (\<lambda>i. ni_node_id i \<noteq> nodeId) inputs
      in if length new \<noteq> length inputs then Some new else None)"

definition clear_inputs :: "node_input list \<Rightarrow> node_input list option" where
  "clear_inputs inputs = (if inputs \<noteq> [] then Some [] else None)"

definition set_input_column :: "string \<Rightarrow> string \<Rightarrow> node_input list \<Rightarrow> node_input list option" where
  "set_input_column nodeId column inputs =
     (if list_ex (\<lambda>i. ni_node_id i = nodeId \<and> ni_column i \<noteq> Some column) inputs
      then Some (map (\<lambda>i. if ni_node_id i = nodeId \<and> ni_column i \<noteq> Some column
                          then i\<lparr>ni_column := Some column\<rparr> else i) inputs)
      else None)"

definition availableNodes :: "node_metadata list \<Rightarrow> node_input list \<Rightarrow> node_metadata list" where
  "availableNodes allNodes inputs = filter (\<lambda>node. nm_id node \<notin> ni_node_id ` set inputs) allNodes"

definition canAddMore :: "input_constraints \<Rightarrow> node_input list \<Rightarrow> bool" where
  "canAddMore constraints inputs =
     (case ic_maxNodes constraints of None \<Rightarrow> True | Some maxNodes \<Rightarrow> length inputs < maxNodes)"

subsection \<open>Invariant\<close>

definition wf_inputs :: "input_constraints \<Rightarrow> node_input list \<Rightarrow> bool" where
  "wf_inputs constraints inputs \<longleftrightarrow>
     distinct (map ni_node_id inputs) \<and>
     (case ic_maxNodes constraints of None \<Rightarrow> True | Some maxNodes \<Rightarrow> length inputs \<le> maxNodes)"

lemma validateAdd_None:
  "validateAdd nodeId inputs nodeMap constraints = None \<longleftrightarrow>
     nodeMap nodeId \<noteq> None \<and> nodeId \<notin> ni_node_id ` set inputs \<and> canAddMore constraints inputs"
  by (auto simp: validateAdd_def canAddMore_def list_ex_iff split: option.split)

lemma add_node_cases:
  obtains "validateAdd nodeId inputs nodeMap constraints = None"
    and "\<exists>input. ni_node_id input = nodeId \<and>
      add_node nodeMap constraints getColumnInfos nodeId (inputs, rejections) = (inputs @ [input], rejections)"
  | reason where "validateAdd nodeId inputs nodeMap constraints = Some reason"
    and "add_node nodeMap constraints getColumnInfos nodeId (inputs, rejections) =
      (inputs, rejections @ [\<lparr>ar_nodeId = nodeId, ar_reason = reason\<rparr>])"
proof (cases "validateAdd nodeId inputs nodeMap constraints")
  case None
  moreover from this obtain node where "nodeMap nodeId = Some node" by (auto simp: validateAdd_None)
  ultimately show ?thesis using that(1) by (simp add: add_node_def)
next
  case (Some reason)
  then show ?thesis using that(2) by (simp add: add_node_def)
qed

lemma fold_add_node:
  assumes "fold (add_node nodeMap constraints getColumnInfos) ids (inputs, rejections) = (new, rejections')"
    and "wf_inputs constraints inputs"
  shows "wf_inputs constraints new \<and>
    (\<exists>added refused. new = inputs @ added \<and> rejections' = rejections @ refused \<and>
      length added + length refused = length ids \<and>
      set (map ni_node_id added) \<subseteq> set ids \<inter> dom nodeMap \<and>
      set ids = set (map ni_node_id added) \<union> set (map ar_nodeId refused))"
  using assms
proof (induction ids arbitrary: inputs rejections)
  case (Cons nodeId ids)
  show ?case
  proof (cases rule: add_node_cases [of nodeId inputs nodeMap constraints getColumnInfos rejections])
    case 1
    then obtain input where input: "ni_node_id input = nodeId"
      "add_node nodeMap constraints getColumnInfos nodeId (inputs, rejections) = (inputs @ [input], rejections)" by blast
    have "wf_inputs constraints (inputs @ [input])" "nodeId \<in> dom nodeMap"
      using Cons.prems(2) 1(1) input(1)
      by (auto simp: wf_inputs_def validateAdd_None canAddMore_def split: option.split_asm)
    with Cons.IH [of "inputs @ [input]" rejections] Cons.prems(1) input
    obtain added refused where "wf_inputs constraints new" "new = (inputs @ [input]) @ added"
      "rejections' = rejections @ refused" "length added + length refused = length ids"
      "set (map ni_node_id added) \<subseteq> set ids \<inter> dom nodeMap"
      "set ids = set (map ni_node_id added) \<union> set (map ar_nodeId refused)" by auto
    with input(1) \<open>nodeId \<in> dom nodeMap\<close> show ?thesis
      by (intro conjI exI [of _ "input # added"] exI [of _ refused]) auto
  next
    case (2 reason)
    with Cons.IH [of inputs "rejections @ [\<lparr>ar_nodeId = nodeId, ar_reason = reason\<rparr>]"] Cons.prems
    obtain added refused where "wf_inputs constraints new" "new = inputs @ added"
      "rejections' = (rejections @ [\<lparr>ar_nodeId = nodeId, ar_reason = reason\<rparr>]) @ refused"
      "length added + length refused = length ids" "set (map ni_node_id added) \<subseteq> set ids \<inter> dom nodeMap"
      "set ids = set (map ni_node_id added) \<union> set (map ar_nodeId refused)" by auto
    then show ?thesis
      by (intro conjI exI [of _ added] exI [of _ "\<lparr>ar_nodeId = nodeId, ar_reason = reason\<rparr> # refused"]) auto
  qed
qed auto

text \<open>
  Adding blocks to a tool keeps its inputs valid and accounts for every request: the new inputs
  have no duplicate and stay within the tool's capacity, they are the old inputs followed by blocks of
  the project, and each requested block is either added or refused with a reason, never dropped.
\<close>

theorem addNodes_accounts:
  assumes "wf_inputs constraints inputs" and "addNodes nodeMap constraints getColumnInfos ids inputs = (changed, refused)"
  shows "\<exists>added. (changed = None \<and> added = [] \<or> changed = Some (inputs @ added) \<and> wf_inputs constraints (inputs @ added)) \<and>
    set (map ni_node_id added) \<subseteq> dom nodeMap \<and> length added + length refused = length ids \<and>
    set ids = set (map ni_node_id added) \<union> set (map ar_nodeId refused)"
proof -
  obtain new where new: "fold (add_node nodeMap constraints getColumnInfos) ids (inputs, []) = (new, refused)"
    and changed: "changed = (if length new \<noteq> length inputs then Some new else None)"
    using assms(2) by (cases "fold (add_node nodeMap constraints getColumnInfos) ids (inputs, [])")
      (auto simp: addNodes_def split: if_split_asm)
  from fold_add_node [OF new assms(1)] changed show ?thesis by (auto split: if_split_asm)
qed

theorem addNodes_accounts_witness:
  "\<exists>changed refused. addNodes (buildNodeMap [\<lparr>nm_id = ''a'', nm_name = ''a'', nm_color = None, nm_document = None,
        nm_tokenizerModel = None\<rparr>])
      \<lparr>ic_preserveColumnSelection = False, ic_fieldPredicate = None, ic_maxNodes = Some 2, ic_docTypeOnly = False\<rparr>
      None [''a'', ''b'', ''a''] [] = (changed, refused) \<and>
    map_option (map ni_node_id) changed = Some [''a''] \<and> map ar_nodeId refused = [''b'', ''a'']"
proof -
  let ?map = "buildNodeMap [\<lparr>nm_id = ''a'', nm_name = ''a'', nm_color = None, nm_document = None,
        nm_tokenizerModel = None\<rparr>]"
  let ?c = "\<lparr>ic_preserveColumnSelection = False, ic_fieldPredicate = None, ic_maxNodes = Some 2, ic_docTypeOnly = False\<rparr>"
  obtain changed refused where add: "addNodes ?map ?c None [''a'', ''b'', ''a''] [] = (changed, refused)"
    by (cases "addNodes ?map ?c None [''a'', ''b'', ''a''] []")
  have refused: "map ar_nodeId (snd (addNodes ?map ?c None [''a'', ''b'', ''a''] [])) = [''b'', ''a'']" by code_simp
  have "wf_inputs ?c []" by code_simp
  from addNodes_accounts [OF this add] obtain added where added:
    "changed = None \<and> added = [] \<or> changed = Some added"
    "set (map ni_node_id added) \<subseteq> dom ?map" "length added + length refused = 3" by auto
  moreover have "length refused = 2" using refused add by (metis length_map list.size(3,4) numeral_2_eq_2 One_nat_def add.commute plus_1_eq_Suc snd_conv)
  ultimately obtain input where "added = [input]" by (auto simp: length_Suc_conv numeral_3_eq_3)
  moreover have "dom ?map = {''a''}" by (simp add: buildNodeMap_def)
  ultimately show ?thesis using add added refused by auto
qed

text \<open>
  What a tool shows is consistent with the project: resolving keeps the order of the inputs, drops
  exactly those whose block is gone, and the shown column is the stored one when it is still offered,
  and otherwise empty or a column the tool accepts, except for tools that keep their selection as it
  is.
\<close>

theorem resolveNodeInputs_consistent:
  "map ri_id (resolveNodeInputs inputs nodeMap constraints getColumnInfos) =
     map ni_node_id (filter (\<lambda>input. nodeMap (ni_node_id input) \<noteq> None) inputs) \<and>
   list_all (\<lambda>r. ic_preserveColumnSelection constraints \<or> ri_column r = [] \<or>
       ri_column r \<in> set (map ci_name (ri_columnOptions r)))
     (resolveNodeInputs inputs nodeMap constraints getColumnInfos)"
proof
  show "map ri_id (resolveNodeInputs inputs nodeMap constraints getColumnInfos) =
     map ni_node_id (filter (\<lambda>input. nodeMap (ni_node_id input) \<noteq> None) inputs)"
    by (induction inputs) (auto simp: resolveNodeInputs_def List.map_filter_simps)
  have default: "ic_preserveColumnSelection constraints \<or> defaultColumnForNode node constraints getColumnInfos = [] \<or>
      defaultColumnForNode node constraints getColumnInfos \<in>
        set (map ci_name (allowedColumnsForNode node constraints getColumnInfos))" for node
    by (auto simp: defaultColumnForNode_def Let_def split: option.split list.split)
  show "list_all (\<lambda>r. ic_preserveColumnSelection constraints \<or> ri_column r = [] \<or>
       ri_column r \<in> set (map ci_name (ri_columnOptions r)))
     (resolveNodeInputs inputs nodeMap constraints getColumnInfos)"
    using default
    by (induction inputs) (auto simp: resolveNodeInputs_def List.map_filter_simps resolved_column_def Let_def
        split: option.split)
qed

end
