(* ===== verification/Join_Mappings.thy ===== *)
theory Join_Mappings
  imports Builder_Laws Grouping
begin

text \<open>
  The columns of a join and where their metadata comes from:
  \<open>features/tools/preprocessing/join/columnMappings.ts\<close>, together with \<open>resultSelect\<close> of
  \<open>projectPreprocessing.ts\<close>.
\<close>

subsection \<open>Mappings\<close>

definition output_at :: "string list \<Rightarrow> nat \<Rightarrow> column_mapping \<Rightarrow> column_mapping" where
  "output_at outputColumns index column =
     column\<lparr>cm_output := (if index < length outputColumns then outputColumns ! index else cm_output column)\<rparr>"

definition with_outputs :: "string list \<Rightarrow> column_mapping list \<Rightarrow> column_mapping list" where
  "with_outputs outputColumns columns = map2 (output_at outputColumns) [0..<length columns] columns"

fun find_position :: "('a \<Rightarrow> bool) \<Rightarrow> 'a list \<Rightarrow> nat option" where
  "find_position P [] = None"
| "find_position P (x # xs) = (if P x then Some 0 else map_option Suc (find_position P xs))"

definition key_mapping ::
    "join_type \<Rightarrow> column_mapping list \<Rightarrow> column_mapping list \<Rightarrow> string option \<Rightarrow> string option \<Rightarrow> string list \<Rightarrow>
     column_mapping list \<Rightarrow> column_mapping list" where
  "key_mapping kind left right leftKey rightKey outputColumns mappings =
     (case (find_position (\<lambda>column. Some (cm_column column) = leftKey) left,
            find (\<lambda>column. Some (cm_column column) = rightKey) right) of
        (Some index, Some rightColumn) \<Rightarrow>
          (let key = output_at outputColumns index rightColumn
           in if kind = J_right then mappings[index := key] else mappings @ [key])
      | _ \<Rightarrow> mappings)"

definition joinColumnMappings ::
    "column_mapping list \<Rightarrow> column_mapping list \<Rightarrow> join_type \<Rightarrow> string option \<Rightarrow> string option \<Rightarrow> string list \<Rightarrow>
     column_mapping list" where
  "joinColumnMappings left right kind leftKey rightKey outputColumns =
     (if kind = J_semi \<or> kind = J_anti then with_outputs outputColumns left
      else
        let merged = join_merged kind leftKey rightKey;
            mappings = with_outputs outputColumns
              (left @ filter (\<lambda>column. \<not> merged \<or> Some (cm_column column) \<noteq> rightKey) right)
        in if merged \<and> (kind = J_right \<or> kind = J_full)
           then key_mapping kind left right leftKey rightKey outputColumns mappings else mappings)"

text \<open>The statement of a result: over its current input, or as it stands.\<close>

definition resultSelect :: "transformation \<Rightarrow> string" where
  "resultSelect operation =
     (case tr_currentInput operation of
        Some input \<Rightarrow> if input = [] then selectText (tr_select operation) else bindInput (tr_select operation) input
      | None \<Rightarrow> selectText (tr_select operation))"

subsection \<open>Outputs are named and traced\<close>

lemma with_outputs_exact:
  assumes "length outputColumns = length columns"
  shows "map cm_output (with_outputs outputColumns columns) = outputColumns"
    and "map cm_column (with_outputs outputColumns columns) = map cm_column columns"
    and "length (with_outputs outputColumns columns) = length columns"
  using assms by (auto simp: with_outputs_def output_at_def intro!: nth_equalityI)

lemma find_position_Some: "find_position P xs = Some i \<Longrightarrow> i < length xs \<and> P (xs ! i)"
  by (induction xs arbitrary: i) (auto split: if_split_asm)

lemma length_join_outputs:
  "length (join_outputs right kind leftKey rightKey leftColumns rightColumns) =
     length leftColumns + (if kind = J_semi \<or> kind = J_anti then 0
       else length (filter (\<lambda>c. \<not> (join_merged kind leftKey rightKey \<and> Some c = rightKey)) rightColumns))"
  using arg_cong [OF right_names_columns [of right "\<lambda>c. join_merged kind leftKey rightKey \<and> Some c = rightKey"
      "map fold_case leftColumns" rightColumns], of length]
  by (simp add: join_outputs_def)

lemma key_mapping_traced:
  assumes outs: "map cm_output mappings = outputs" and cols: "take (length left) (map cm_column mappings) = map cm_column left"
    and keys: "leftKey = rightKey" and len: "length left \<le> length outputs"
  shows "map cm_output (take (length outputs) (key_mapping kind left right leftKey rightKey outputs mappings)) = outputs \<and>
    map cm_column (take (length outputs) (key_mapping kind left right leftKey rightKey outputs mappings)) = map cm_column mappings \<and>
    set (map cm_output (key_mapping kind left right leftKey rightKey outputs mappings)) \<subseteq> set outputs"
proof -
  have lm: "length mappings = length outputs" using outs by (metis length_map)
  show ?thesis
  proof (cases "\<exists>index column. find_position (\<lambda>column. Some (cm_column column) = leftKey) left = Some index \<and>
      find (\<lambda>column. Some (cm_column column) = rightKey) right = Some column")
    case False
    then have "key_mapping kind left right leftKey rightKey outputs mappings = mappings"
      by (auto simp: key_mapping_def split: option.split)
    then show ?thesis using outs lm by auto
  next
    case True
    then obtain index column where found: "find_position (\<lambda>column. Some (cm_column column) = leftKey) left = Some index"
      "find (\<lambda>column. Some (cm_column column) = rightKey) right = Some column" by blast
    then have index: "index < length left" "Some (cm_column (left ! index)) = leftKey"
      using find_position_Some by fastforce+
    have column: "Some (cm_column column) = rightKey" using found(2) by (auto simp: find_Some_iff)
    have same: "cm_column column = map cm_column mappings ! index"
      using arg_cong [OF cols, of "\<lambda>xs. xs ! index"] index column keys len lm by auto
    have in_range: "index < length outputs" using index(1) len by simp
    have km: "key_mapping kind left right leftKey rightKey outputs mappings =
        (if kind = J_right then mappings[index := output_at outputs index column]
         else mappings @ [output_at outputs index column])"
      by (simp add: key_mapping_def found Let_def)
    have out: "cm_output (output_at outputs index column) = outputs ! index"
      "cm_column (output_at outputs index column) = cm_column column"
      using in_range by (simp_all add: output_at_def)
    have upd: "map cm_output (mappings[index := output_at outputs index column]) = outputs"
      "map cm_column (mappings[index := output_at outputs index column]) = map cm_column mappings"
      using outs same by (simp_all add: map_update out)
    have sets: "set (map cm_output (mappings @ [output_at outputs index column])) \<subseteq> set outputs"
      using outs out in_range by auto
    show ?thesis
      using upd outs lm sets unfolding km by (cases "kind = J_right") (auto simp: take_map [symmetric])
  qed
qed

text \<open>The input columns of the outputs, in order.\<close>

definition join_kept ::
    "join_type \<Rightarrow> string option \<Rightarrow> string option \<Rightarrow> column_mapping list \<Rightarrow> column_mapping list \<Rightarrow> column_mapping list" where
  "join_kept kind leftKey rightKey left right =
     left @ (if kind = J_semi \<or> kind = J_anti then []
       else filter (\<lambda>column. \<not> join_merged kind leftKey rightKey \<or> Some (cm_column column) \<noteq> rightKey) right)"

lemma join_kept_columns:
  "map cm_column (join_kept kind leftKey rightKey left right) = map cm_column left @
     (if kind = J_semi \<or> kind = J_anti then []
      else filter (\<lambda>c. \<not> (join_merged kind leftKey rightKey \<and> Some c = rightKey)) (map cm_column right))"
proof -
  have "map cm_column (filter (\<lambda>column. \<not> m \<or> Some (cm_column column) \<noteq> rightKey) right) =
      filter (\<lambda>c. \<not> (m \<and> Some c = rightKey)) (map cm_column right)" for m
    by (simp add: filter_map o_def)
  then show ?thesis by (simp add: join_kept_def)
qed

lemma length_join_kept:
  "length (join_outputs rightName kind leftKey rightKey (map cm_column left) (map cm_column right)) =
     length (join_kept kind leftKey rightKey left right)"
  using arg_cong [OF join_kept_columns [of kind leftKey rightKey left right], of length]
  by (simp add: length_join_outputs split: if_split_asm)

lemma joinColumnMappings_shape:
  "joinColumnMappings left right kind leftKey rightKey outputs =
     (let base = with_outputs outputs (join_kept kind leftKey rightKey left right)
      in if join_merged kind leftKey rightKey \<and> (kind = J_right \<or> kind = J_full)
         then key_mapping kind left right leftKey rightKey outputs base else base)"
  by (cases kind) (simp_all add: joinColumnMappings_def join_kept_def Let_def)

text \<open>
  The metadata of a join's result is copied from the right columns: for the output names of the
  join, the mappings name every output column in order and trace it to the input column it is selected
  from, the left columns first and then the columns of the right block without the merged key; further
  mappings (the second source of a coalesced key) only name outputs of the join.
\<close>

theorem joinColumnMappings_traced:
  "let outputs = join_outputs rightName kind leftKey rightKey (map cm_column left) (map cm_column right);
       mappings = joinColumnMappings left right kind leftKey rightKey outputs
   in map cm_output (take (length outputs) mappings) = outputs \<and>
      map cm_column (take (length outputs) mappings) = map cm_column left @
        (if kind = J_semi \<or> kind = J_anti then []
         else filter (\<lambda>c. \<not> (join_merged kind leftKey rightKey \<and> Some c = rightKey)) (map cm_column right)) \<and>
      set (map cm_output mappings) = set outputs"
proof -
  define outputs where "outputs = join_outputs rightName kind leftKey rightKey (map cm_column left) (map cm_column right)"
  let ?kept = "join_kept kind leftKey rightKey left right"
  let ?base = "with_outputs outputs ?kept"
  let ?mappings = "joinColumnMappings left right kind leftKey rightKey outputs"
  have len: "length outputs = length ?kept" by (simp only: outputs_def length_join_kept)
  note exact = with_outputs_exact [OF len]
  have le: "length left \<le> length outputs" by (simp add: len join_kept_def)
  have left: "take (length left) (map cm_column ?base) = map cm_column left"
    unfolding exact(2) by (simp add: join_kept_columns)
  have plain: "map cm_output (take (length outputs) ?base) = outputs \<and>
      map cm_column (take (length outputs) ?base) = map cm_column ?base \<and> set (map cm_output ?base) \<subseteq> set outputs"
    using exact len by simp
  have traced: "map cm_output (take (length outputs) ?mappings) = outputs \<and>
      map cm_column (take (length outputs) ?mappings) = map cm_column ?kept \<and> set (map cm_output ?mappings) \<subseteq> set outputs"
    using plain key_mapping_traced [OF exact(1) left _ le, of leftKey rightKey kind right]
    unfolding joinColumnMappings_shape exact(2) by (simp add: Let_def join_merged_def)
  moreover from this have "set outputs \<subseteq> set (map cm_output ?mappings)"
    by (metis (no_types, lifting) set_take_subset image_mono list.set_map)
  ultimately show ?thesis
    unfolding Let_def outputs_def [symmetric] join_kept_columns [symmetric] by blast
qed

end
