(* ===== verification/Glob.thy ===== *)
theory Glob
  imports "HOL-Library.Word" "HOL-Library.AList" Prelude
begin

text \<open>
  Wildcard search: \<open>features/tools/topic-modeling/topicSearch.ts\<close> and \<open>lib/wildcardFilter.ts\<close>. Both
  compile a query with \<open>*\<close> and \<open>?\<close> to the text of a regular expression. A text here is the list of its
  UTF-16 code units, because the single-character wildcard matches a code unit. The part of the
  regular expression language the compiled patterns use (anchors, escaped syntax characters, \<open>.\<close> and
  \<open>.*\<close>, the flag \<open>i\<close>) is given its meaning below; the comparison of code units under the flag \<open>i\<close> and
  \<open>toLowerCase\<close> are parameters.
\<close>

type_synonym code_unit = "16 word"
type_synonym utf16 = "16 word list"

definition ascii :: "string \<Rightarrow> utf16" where
  "ascii s = map (\<lambda>c. of_nat (of_char c)) s"

subsection \<open>Regular expressions\<close>

abbreviation backslash :: code_unit where "backslash \<equiv> 92"
abbreviation star :: code_unit where "star \<equiv> 42"
abbreviation question :: code_unit where "question \<equiv> 63"
abbreviation dot :: code_unit where "dot \<equiv> 46"
abbreviation caret :: code_unit where "caret \<equiv> 94"
abbreviation dollar :: code_unit where "dollar \<equiv> 36"

text \<open>The class \<open>[.*+?^${}()|[\]\\]\<close>: the syntax characters.\<close>

definition syntax_character :: "code_unit \<Rightarrow> bool" where
  "syntax_character c \<longleftrightarrow> c \<in> {46, 42, 43, 63, 94, 36, 123, 125, 40, 41, 124, 91, 93, 92}"

datatype regex_item = Lit code_unit | Any | Any_Star

fun parse_items :: "utf16 \<Rightarrow> regex_item list option" where
  "parse_items [] = Some []"
| "parse_items (c # r) =
     (if c = backslash then
        (case r of
           [] \<Rightarrow> None
         | d # r' \<Rightarrow> if syntax_character d then map_option (Cons (Lit d)) (parse_items r') else None)
      else if c = dot then
        (case r of
           d # r' \<Rightarrow> if d = star then map_option (Cons Any_Star) (parse_items r')
                     else map_option (Cons Any) (parse_items r)
         | [] \<Rightarrow> map_option (Cons Any) (parse_items r))
      else if syntax_character c then None
      else map_option (Cons (Lit c)) (parse_items r))"

definition line_terminator :: "code_unit \<Rightarrow> bool" where
  "line_terminator c \<longleftrightarrow> c \<in> {10, 13, 0x2028, 0x2029}"

fun match_items :: "(code_unit \<Rightarrow> code_unit) \<Rightarrow> regex_item list \<Rightarrow> utf16 \<Rightarrow> bool" where
  "match_items canon [] s = (s = [])"
| "match_items canon (Lit c # p) s =
     (case s of [] \<Rightarrow> False | x # xs \<Rightarrow> canon x = canon c \<and> match_items canon p xs)"
| "match_items canon (Any # p) s =
     (case s of [] \<Rightarrow> False | x # xs \<Rightarrow> \<not> line_terminator x \<and> match_items canon p xs)"
| "match_items canon (Any_Star # p) s =
     (match_items canon p s \<or>
      (case s of [] \<Rightarrow> False | x # xs \<Rightarrow> \<not> line_terminator x \<and> match_items canon (Any_Star # p) xs))"

text \<open>\<open>new RegExp(pattern, 'i').test(subject)\<close> for an anchored pattern; other patterns are errors here.\<close>

definition regexp_test :: "(code_unit \<Rightarrow> code_unit) \<Rightarrow> utf16 \<Rightarrow> utf16 \<Rightarrow> bool result" where
  "regexp_test canon pattern subject =
     (if length pattern \<ge> 2 \<and> hd pattern = caret \<and> last pattern = dollar then
        (case parse_items (butlast (tl pattern)) of
           Some items \<Rightarrow> Inr (match_items canon items subject)
         | None \<Rightarrow> throw ''Invalid regular expression'')
      else throw ''Not an anchored expression'')"

definition escape_unit :: "code_unit \<Rightarrow> utf16" where
  "escape_unit c = (if syntax_character c then [backslash, c] else [c])"

definition escapeRegExp :: "utf16 \<Rightarrow> utf16" where
  "escapeRegExp text = concat (map escape_unit text)"

definition white_space :: "code_unit \<Rightarrow> bool" where
  "white_space c \<longleftrightarrow> c \<in> {9, 10, 11, 12, 13, 32, 160, 0x1680, 0x2000, 0x2001, 0x2002, 0x2003, 0x2004, 0x2005,
     0x2006, 0x2007, 0x2008, 0x2009, 0x200A, 0x2028, 0x2029, 0x202F, 0x205F, 0x3000, 0xFEFF}"

definition trim16 :: "utf16 \<Rightarrow> utf16" where
  "trim16 s = rev (dropWhile white_space (rev (dropWhile white_space s)))"

definition occurs_at :: "utf16 \<Rightarrow> utf16 \<Rightarrow> nat \<Rightarrow> bool" where
  "occurs_at needle text k \<longleftrightarrow> take (length needle) (drop k text) = needle"

definition indexOf :: "utf16 \<Rightarrow> utf16 \<Rightarrow> nat option" where
  "indexOf text needle = find (occurs_at needle text) [0..<Suc (length text)]"

definition text_includes :: "utf16 \<Rightarrow> utf16 \<Rightarrow> bool" where
  "text_includes text needle \<longleftrightarrow> list_ex (occurs_at needle text) [0..<Suc (length text)]"

subsection \<open>Topic search\<close>

fun has_wildcard :: "bool \<Rightarrow> utf16 \<Rightarrow> bool" where
  "has_wildcard escaped [] = False"
| "has_wildcard escaped (c # r) =
     (if escaped then has_wildcard False r
      else if c = backslash then has_wildcard True r
      else if c = star \<or> c = question then True
      else has_wildcard False r)"

definition hasUnescapedWildcard :: "utf16 \<Rightarrow> bool" where
  "hasUnescapedWildcard query = has_wildcard False query"

fun glob_pattern :: "bool \<Rightarrow> utf16 \<Rightarrow> utf16" where
  "glob_pattern escaped [] = (if escaped then [backslash, backslash] else [])"
| "glob_pattern escaped (c # r) =
     (if escaped then escape_unit c @ glob_pattern False r
      else if c = backslash then glob_pattern True r
      else if c = star then [dot, star] @ glob_pattern False r
      else if c = question then [dot] @ glob_pattern False r
      else escape_unit c @ glob_pattern False r)"

definition globToRegExp :: "utf16 \<Rightarrow> utf16" where
  "globToRegExp query = caret # glob_pattern False query @ [dollar]"

fun decode_escapes :: "bool \<Rightarrow> utf16 \<Rightarrow> utf16" where
  "decode_escapes escaped [] = (if escaped then [backslash] else [])"
| "decode_escapes escaped (c # r) =
     (if escaped
      then (if c = star \<or> c = question \<or> c = backslash then [c] else [backslash, c]) @ decode_escapes False r
      else if c = backslash then decode_escapes True r
      else c # decode_escapes False r)"

definition decodeEscapedWildcards :: "utf16 \<Rightarrow> utf16" where
  "decodeEscapedWildcards query = decode_escapes False query"

definition matchChecklistOption ::
    "(code_unit \<Rightarrow> code_unit) \<Rightarrow> (utf16 \<Rightarrow> utf16) \<Rightarrow> utf16 \<Rightarrow> utf16 \<Rightarrow> bool result" where
  "matchChecklistOption canon lower optionLabel query =
     (let normalizedQuery = trim16 query
      in if normalizedQuery = [] then Inr True
         else if hasUnescapedWildcard normalizedQuery
         then regexp_test canon (globToRegExp normalizedQuery) optionLabel
         else Inr (text_includes (lower optionLabel) (lower (decodeEscapedWildcards normalizedQuery))))"

fun any_match :: "('a \<Rightarrow> bool result) \<Rightarrow> 'a list \<Rightarrow> bool result" where
  "any_match P [] = Inr False"
| "any_match P (x # xs) = rbind (P x) (\<lambda>b. if b then Inr True else any_match P xs)"

fun join16 :: "utf16 \<Rightarrow> utf16 list \<Rightarrow> utf16" where
  "join16 sep [] = []"
| "join16 sep [x] = x"
| "join16 sep (x # y # zs) = x @ sep @ join16 sep (y # zs)"

definition matchTopicWords ::
    "(code_unit \<Rightarrow> code_unit) \<Rightarrow> (utf16 \<Rightarrow> utf16) \<Rightarrow> utf16 list \<Rightarrow> utf16 \<Rightarrow> bool result" where
  "matchTopicWords canon lower words query =
     rbind (matchChecklistOption canon lower (join16 (ascii '', '') words) query) (\<lambda>b.
       if b then Inr True else any_match (\<lambda>word. matchChecklistOption canon lower word query) words)"

record topic =
  tp_id :: int
  tp_words :: "utf16 list"

text \<open>\<open>Number\<close> positions of the fallback highlight; \<open>indexOf\<close> gives \<open>-1\<close> when there is no occurrence.\<close>

definition joined_range :: "(utf16 \<Rightarrow> utf16) \<Rightarrow> utf16 list \<Rightarrow> utf16 \<Rightarrow> int \<times> int" where
  "joined_range lower words query =
     (let joined = lower (join16 (ascii '', '') words);
          literal = lower (decodeEscapedWildcards (trim16 query));
          start = (if hasUnescapedWildcard query then 0
                   else case indexOf joined literal of Some k \<Rightarrow> int k | None \<Rightarrow> -1)
      in (start, if hasUnescapedWildcard query then int (length joined) else start + int (length literal)))"

fun overlapping :: "(utf16 \<Rightarrow> utf16) \<Rightarrow> int \<Rightarrow> int \<Rightarrow> int \<Rightarrow> utf16 list \<Rightarrow> utf16 list" where
  "overlapping lower start stop offset [] = []"
| "overlapping lower start stop offset (word # words) =
     (let len = int (length (lower word))
      in (if offset < stop \<and> offset + len > start then [word] else []) @
         overlapping lower start stop (offset + len + 2) words)"

fun matching_words :: "('a \<Rightarrow> bool result) \<Rightarrow> 'a list \<Rightarrow> 'a list result" where
  "matching_words P [] = Inr []"
| "matching_words P (x # xs) =
     rbind (P x) (\<lambda>b. rbind (matching_words P xs) (\<lambda>ys. Inr (if b then x # ys else ys)))"

definition highlighted_words ::
    "(code_unit \<Rightarrow> code_unit) \<Rightarrow> (utf16 \<Rightarrow> utf16) \<Rightarrow> utf16 list \<Rightarrow> utf16 \<Rightarrow> bool \<Rightarrow> utf16 list result" where
  "highlighted_words canon lower words query matches =
     (if trim16 query = [] \<or> \<not> matches then Inr []
      else rbind (matching_words (\<lambda>word. matchChecklistOption canon lower word query) words) (\<lambda>found.
        if found \<noteq> [] then Inr found
        else case joined_range lower words query of (start, stop) \<Rightarrow> Inr (overlapping lower start stop 0 words)))"

record topic_eligibility =
  te_eligible :: "int list"
  te_highlights :: "(int \<times> utf16 list) list"

text \<open>The sets are lists in insertion order; a later topic with the same identifier replaces the highlights.\<close>

definition add_id :: "int \<Rightarrow> int list \<Rightarrow> int list" where
  "add_id i ids = (if i \<in> set ids then ids else ids @ [i])"

definition topic_step ::
    "(code_unit \<Rightarrow> code_unit) \<Rightarrow> (utf16 \<Rightarrow> utf16) \<Rightarrow> utf16 \<Rightarrow> int list \<Rightarrow> topic \<Rightarrow> topic_eligibility \<Rightarrow>
     topic_eligibility result" where
  "topic_step canon lower query lasso t st =
     rbind (matchTopicWords canon lower (tp_words t) query) (\<lambda>matches.
     rbind (highlighted_words canon lower (tp_words t) query matches) (\<lambda>highlighted.
       Inr \<lparr>te_eligible = (if matches \<and> (lasso = [] \<or> tp_id t \<in> set lasso)
                            then add_id (tp_id t) (te_eligible st) else te_eligible st),
            te_highlights = AList.update (tp_id t) highlighted (te_highlights st)\<rparr>))"

definition topicEligibility ::
    "(code_unit \<Rightarrow> code_unit) \<Rightarrow> (utf16 \<Rightarrow> utf16) \<Rightarrow> topic list \<Rightarrow> utf16 \<Rightarrow> int list \<Rightarrow> topic_eligibility result" where
  "topicEligibility canon lower topics query lasso =
     rfold (topic_step canon lower query lasso) topics \<lparr>te_eligible = [], te_highlights = []\<rparr>"

subsection \<open>Column filters\<close>

text \<open>\<open>text.replace(/\\c/g, by)\<close>: the non-overlapping occurrences of a backslash and \<open>c\<close>, from the left.\<close>

fun replace_escaped :: "code_unit \<Rightarrow> utf16 \<Rightarrow> utf16 \<Rightarrow> utf16" where
  "replace_escaped c by [] = []"
| "replace_escaped c by (x # r) =
     (case r of
        y # r' \<Rightarrow> if x = backslash \<and> y = c then by @ replace_escaped c by r' else x # replace_escaped c by r
      | [] \<Rightarrow> [x])"

definition wildcard_pattern :: "utf16 \<Rightarrow> utf16" where
  "wildcard_pattern trimmed =
     replace_escaped question [dot] (replace_escaped star [dot, star] (escapeRegExp trimmed))"

text \<open>The matcher of a query, \<open>None\<close> when the query is blank.\<close>

definition createWildcardMatcher ::
    "(code_unit \<Rightarrow> code_unit) \<Rightarrow> (utf16 \<Rightarrow> utf16) \<Rightarrow> utf16 \<Rightarrow> (utf16 \<Rightarrow> bool result) option" where
  "createWildcardMatcher canon lower query =
     (let trimmed = trim16 query
      in if trimmed = [] then None
         else if star \<in> set trimmed \<or> question \<in> set trimmed
         then Some (regexp_test canon ([caret] @ wildcard_pattern trimmed @ [dollar]))
         else Some (\<lambda>candidate. Inr (text_includes (lower candidate) (lower trimmed))))"

subsection \<open>The language of a query\<close>

definition item_language :: "(code_unit \<Rightarrow> code_unit) \<Rightarrow> regex_item \<Rightarrow> utf16 set" where
  "item_language canon item =
     (case item of
        Lit c \<Rightarrow> {[x] | x. canon x = canon c}
      | Any \<Rightarrow> {[x] | x. \<not> line_terminator x}
      | Any_Star \<Rightarrow> {s. \<forall>x \<in> set s. \<not> line_terminator x})"

primrec items_language :: "(code_unit \<Rightarrow> code_unit) \<Rightarrow> regex_item list \<Rightarrow> utf16 set" where
  "items_language canon [] = {[]}"
| "items_language canon (item # items) =
     {part @ rest | part rest. part \<in> item_language canon item \<and> rest \<in> items_language canon items}"

lemma one_unit:
  "(\<exists>part rest. s = part @ rest \<and> (\<exists>x. part = [x] \<and> P x) \<and> rest \<in> L) \<longleftrightarrow>
     (case s of [] \<Rightarrow> False | x # xs \<Rightarrow> P x \<and> xs \<in> L)"
  by (cases s) (auto, metis append_Cons append_Nil)

lemma match_items_language: "match_items canon items s \<longleftrightarrow> s \<in> items_language canon items"
proof (induction canon items s rule: match_items.induct)
  case (4 canon p s)
  have "s \<in> items_language canon (Any_Star # p) \<longleftrightarrow>
      s \<in> items_language canon p \<or> (\<exists>x xs. s = x # xs \<and> \<not> line_terminator x \<and> xs \<in> items_language canon (Any_Star # p))"
    (is "?l \<longleftrightarrow> ?r")
  proof
    assume ?l
    then obtain part rest where s: "s = part @ rest" "\<forall>x \<in> set part. \<not> line_terminator x" "rest \<in> items_language canon p"
      by (auto simp: item_language_def)
    then show ?r by (cases part) (auto simp: item_language_def)
  next
    assume ?r
    then show ?l
    proof
      assume "s \<in> items_language canon p"
      then have "[] @ s \<in> items_language canon (Any_Star # p)"
        unfolding items_language.simps by (intro CollectI exI conjI) (auto simp: item_language_def)
      then show ?l by simp
    next
      assume "\<exists>x xs. s = x # xs \<and> \<not> line_terminator x \<and> xs \<in> items_language canon (Any_Star # p)"
      then obtain x part rest where "s = (x # part) @ rest" "\<forall>y \<in> set (x # part). \<not> line_terminator y"
        "rest \<in> items_language canon p"
        by (auto simp: item_language_def)
      then show ?l
        unfolding items_language.simps by (intro CollectI exI [of _ "x # part"] exI [of _ rest]) (simp add: item_language_def)
    qed
  qed
  then show ?case using 4 by (auto split: list.split)
qed (auto simp: item_language_def one_unit split: list.split)

text \<open>What a query means: a backslash makes the next character literal.\<close>

fun query_items :: "utf16 \<Rightarrow> regex_item list" where
  "query_items [] = []"
| "query_items (c # r) =
     (if c = backslash then (case r of [] \<Rightarrow> [Lit backslash] | d # r' \<Rightarrow> Lit d # query_items r')
      else (if c = star then Any_Star else if c = question then Any else Lit c) # query_items r)"

lemma parse_escape_unit: "parse_items (escape_unit c @ rest) = map_option (Cons (Lit c)) (parse_items rest)"
proof (cases "syntax_character c")
  case True
  then show ?thesis by (simp add: escape_unit_def)
next
  case False
  then have "c \<noteq> backslash" "c \<noteq> dot" by (auto simp: syntax_character_def)
  with False show ?thesis by (simp add: escape_unit_def)
qed

lemma escape_unit_hd: "hd (escape_unit c) \<noteq> star" "escape_unit c \<noteq> []"
  by (auto simp: escape_unit_def syntax_character_def)

lemma parse_dot: "rest = [] \<or> hd rest \<noteq> star \<Longrightarrow> parse_items (dot # rest) = map_option (Cons Any) (parse_items rest)"
  by (cases rest) (simp_all add: syntax_character_def)

lemma parse_dot_star: "parse_items (dot # star # rest) = map_option (Cons Any_Star) (parse_items rest)"
  by simp

lemma glob_pattern_hd: "glob_pattern escaped q = [] \<or> hd (glob_pattern escaped q) \<noteq> star"
  by (induction escaped q rule: glob_pattern.induct) (auto simp: escape_unit_hd hd_append)

lemma parse_glob_pattern:
  "parse_items (glob_pattern escaped q) = Some (query_items (if escaped then backslash # q else q))"
proof (induction escaped q rule: glob_pattern.induct)
  case (1 escaped)
  then show ?case by (simp add: syntax_character_def)
next
  case (2 escaped c r)
  show ?case
  proof (cases "escaped \<or> c \<noteq> question \<and> c \<noteq> star \<and> c \<noteq> backslash")
    case True
    with 2 show ?thesis by (auto simp: parse_escape_unit)
  next
    case False
    with 2 parse_dot [OF glob_pattern_hd] show ?thesis by (auto simp del: parse_items.simps simp: parse_dot_star)
  qed
qed

text \<open>The filter language has no escapes.\<close>

definition wild_item :: "code_unit \<Rightarrow> regex_item" where
  "wild_item c = (if c = star then Any_Star else if c = question then Any else Lit c)"

definition wild_unit :: "code_unit \<Rightarrow> code_unit list" where
  "wild_unit c = (if c = star then [dot, star] else if c = question then [dot] else escape_unit c)"

lemma replace_escaped_skip:
  "rest = [] \<or> x \<noteq> backslash \<or> hd rest \<noteq> c \<Longrightarrow> replace_escaped c by (x # rest) = x # replace_escaped c by rest"
  by (cases rest) auto

lemma replace_escaped_hit [simp]: "replace_escaped c by (backslash # c # rest) = by @ replace_escaped c by rest"
  by simp

declare replace_escaped.simps(2) [simp del]

lemma hd_concat_units:
  assumes "\<And>x. f x \<noteq> []" and "\<And>x. hd (f x) \<noteq> c"
  shows "concat (map f t) = [] \<or> hd (concat (map f t)) \<noteq> c"
  using assms by (cases t) (auto simp: hd_append)

lemma replace_escaped_units:
  assumes unit: "\<And>x. x \<noteq> c \<Longrightarrow> f x = [x] \<and> x \<noteq> backslash \<or> (\<exists>y. f x = [backslash, y] \<and> y \<noteq> c) \<or>
      f x = [dot] \<or> f x = [dot, star]"
    and target: "f c = [backslash, c]" and c: "syntax_character c" "c \<noteq> backslash" "c \<noteq> dot"
    and head: "\<And>x. hd (f x) \<noteq> c"
  shows "replace_escaped c by (concat (map f t)) = concat (map (\<lambda>x. if x = c then by else f x) t)"
proof (induction t)
  case (Cons x t)
  have nonempty: "f y \<noteq> []" for y using unit [of y] target by (cases "y = c") auto
  have rest: "concat (map f t) = [] \<or> hd (concat (map f t)) \<noteq> c"
    by (rule hd_concat_units [OF nonempty head])
  show ?case
  proof (cases "x = c")
    case True
    with Cons target show ?thesis by simp
  next
    case False
    with unit [OF this] Cons rest show ?thesis
      by (auto simp: replace_escaped_skip)
  qed
qed simp

lemma wildcard_pattern_units: "wildcard_pattern t = concat (map wild_unit t)"
proof -
  have "replace_escaped star [dot, star] (escapeRegExp t) =
      concat (map (\<lambda>x. if x = star then [dot, star] else escape_unit x) t)" (is "_ = concat (map ?f t)")
    unfolding escapeRegExp_def
    by (rule replace_escaped_units) (auto simp: escape_unit_def syntax_character_def)
  moreover have "replace_escaped question [dot] (concat (map ?f t)) =
      concat (map (\<lambda>x. if x = question then [dot] else ?f x) t)"
    by (rule replace_escaped_units) (auto simp: escape_unit_def syntax_character_def)
  moreover have "(if x = question then [dot] else ?f x) = wild_unit x" for x by (simp add: wild_unit_def)
  ultimately show ?thesis by (simp add: wildcard_pattern_def)
qed

lemma parse_wildcard_pattern: "parse_items (wildcard_pattern t) = Some (map wild_item t)"
  unfolding wildcard_pattern_units
proof (induction t)
  case (Cons c t)
  have "wild_unit x \<noteq> []" "hd (wild_unit x) \<noteq> star" for x
    by (auto simp: wild_unit_def escape_unit_def syntax_character_def)
  then have "concat (map wild_unit t) = [] \<or> hd (concat (map wild_unit t)) \<noteq> star" by (rule hd_concat_units)
  from parse_dot [OF this] Cons show ?case
    by (auto simp del: parse_items.simps simp: parse_dot_star parse_escape_unit wild_unit_def [of c] wild_item_def [of c])
qed simp

lemma regexp_test_items:
  "parse_items pattern = Some items \<Longrightarrow>
   regexp_test canon (caret # pattern @ [dollar]) subject = Inr (subject \<in> items_language canon items)"
  by (simp add: regexp_test_def match_items_language)


subsection \<open>Escaped queries are literal\<close>

definition escape_query :: "utf16 \<Rightarrow> utf16" where
  "escape_query s = concat (map (\<lambda>c. if c = star \<or> c = question \<or> c = backslash then [backslash, c] else [c]) s)"

lemma escape_query_literal: "\<not> hasUnescapedWildcard (escape_query s)"
  unfolding hasUnescapedWildcard_def escape_query_def by (induction s) auto

lemma decode_escape_query: "decodeEscapedWildcards (escape_query s) = s"
  unfolding decodeEscapedWildcards_def escape_query_def by (induction s) auto

subsection \<open>Topic search is total\<close>

text \<open>What a query selects: an empty query everything, a wildcard query its language, another query its occurrences.\<close>

definition selects :: "(code_unit \<Rightarrow> code_unit) \<Rightarrow> (utf16 \<Rightarrow> utf16) \<Rightarrow> utf16 \<Rightarrow> utf16 \<Rightarrow> bool" where
  "selects canon lower query label \<longleftrightarrow>
     (let q = trim16 query
      in q = [] \<or> (if hasUnescapedWildcard q then label \<in> items_language canon (query_items q)
                  else text_includes (lower label) (lower (decodeEscapedWildcards q))))"

lemma matchChecklistOption_selects: "matchChecklistOption canon lower label query = Inr (selects canon lower query label)"
  using regexp_test_items [OF parse_glob_pattern [of False "trim16 query"]]
  by (simp add: matchChecklistOption_def selects_def Let_def globToRegExp_def)

lemma any_match_total: "(\<And>x. P x = Inr (Q x)) \<Longrightarrow> any_match P xs = Inr (list_ex Q xs)"
  by (induction xs) auto

lemma matching_words_total: "(\<And>x. P x = Inr (Q x)) \<Longrightarrow> matching_words P xs = Inr (filter Q xs)"
  by (induction xs) auto

definition topic_matches :: "(code_unit \<Rightarrow> code_unit) \<Rightarrow> (utf16 \<Rightarrow> utf16) \<Rightarrow> utf16 \<Rightarrow> topic \<Rightarrow> bool" where
  "topic_matches canon lower query t \<longleftrightarrow>
     selects canon lower query (join16 (ascii '', '') (tp_words t)) \<or> list_ex (selects canon lower query) (tp_words t)"

lemma matchTopicWords_total: "matchTopicWords canon lower (tp_words t) query = Inr (topic_matches canon lower query t)"
  using any_match_total [of "\<lambda>word. matchChecklistOption canon lower word query" "selects canon lower query"]
  by (simp add: matchTopicWords_def topic_matches_def matchChecklistOption_selects)

lemma highlighted_words_total: "\<exists>words'. highlighted_words canon lower words query matches = Inr words'"
  using matching_words_total [of "\<lambda>word. matchChecklistOption canon lower word query" "selects canon lower query"]
  by (auto simp: highlighted_words_def matchChecklistOption_selects split: prod.split)

lemma set_add_id [simp]: "set (add_id i ids) = insert i (set ids)"
  by (auto simp: add_id_def)

lemma topicEligibility_fold:
  "\<exists>st'. rfold (topic_step canon lower query lasso) topics st = Inr st' \<and>
     set (te_eligible st') = set (te_eligible st) \<union>
       tp_id ` {t \<in> set topics. topic_matches canon lower query t \<and> (lasso = [] \<or> tp_id t \<in> set lasso)} \<and>
     fst ` set (te_highlights st') = fst ` set (te_highlights st) \<union> tp_id ` set topics"
proof (induction topics arbitrary: st)
  case (Cons t topics)
  obtain words' where "highlighted_words canon lower (tp_words t) query (topic_matches canon lower query t) = Inr words'"
    using highlighted_words_total by blast
  then obtain st1 where st1: "topic_step canon lower query lasso t st = Inr st1"
    "set (te_eligible st1) = set (te_eligible st) \<union>
      (if topic_matches canon lower query t \<and> (lasso = [] \<or> tp_id t \<in> set lasso) then {tp_id t} else {})"
    "fst ` set (te_highlights st1) = insert (tp_id t) (fst ` set (te_highlights st))"
    using dom_update [of "tp_id t" words' "te_highlights st"]
    by (cases "topic_matches canon lower query t \<and> (lasso = [] \<or> tp_id t \<in> set lasso)")
      (auto simp: topic_step_def matchTopicWords_total dom_map_of_conv_image_fst)
  from Cons.IH [of st1] st1 show ?case by auto
qed simp

text \<open>
  Topic search never fails and selects consistently: for every query and lasso, the eligible
  topics are exactly those whose joined label or one of whose words the query selects and that are in
  the lasso, if there is one, and every topic has an entry of highlighted words.
\<close>

theorem topicEligibility_correct:
  "\<exists>result. topicEligibility canon lower topics query lasso = Inr result \<and>
     set (te_eligible result) =
       tp_id ` {t \<in> set topics. topic_matches canon lower query t \<and> (lasso = [] \<or> tp_id t \<in> set lasso)} \<and>
     fst ` set (te_highlights result) = tp_id ` set topics"
  using topicEligibility_fold [of canon lower query lasso topics "\<lparr>te_eligible = [], te_highlights = []\<rparr>"]
  by (simp add: topicEligibility_def)

end
