(* ===== verification/Pagination.thy ===== *)
theory Pagination
  imports "HOL-Library.Multiset" Main
begin

text \<open>
  The page range of \<open>components/ui/paginationRange.ts\<close>: the loop over a known number of pages, the
  window of an unknown one, and the bounds of what is shown. Page numbers are integers.
\<close>

subsection \<open>Page ranges\<close>

datatype page_item = Page int | Dots

definition should_show :: "int \<Rightarrow> int \<Rightarrow> int \<Rightarrow> bool" where
  "should_show current total_pages page \<longleftrightarrow> total_pages \<le> 5 \<or> page = 1 \<or> page = total_pages \<or> \<bar>page - current\<bar> \<le> 1"

definition gap_items :: "int option \<Rightarrow> int \<Rightarrow> page_item list" where
  "gap_items previous page =
     (case previous of
        None \<Rightarrow> []
      | Some p \<Rightarrow> if page - p = 2 then [Page (p + 1)] else if page - p > 2 then [Dots] else [])"

definition page_step :: "int \<Rightarrow> int \<Rightarrow> int \<Rightarrow> page_item list \<times> int option \<Rightarrow> page_item list \<times> int option" where
  "page_step current total_pages page st =
     (case st of (out, previous) \<Rightarrow>
        if \<not> should_show current total_pages page then (out, previous)
        else (out @ gap_items previous page @ [Page page], Some page))"

definition known_range :: "int \<Rightarrow> int \<Rightarrow> page_item list" where
  "known_range current total_pages = fst (fold (page_step current total_pages) [1..total_pages] ([], None))"

definition unknown_range :: "int \<Rightarrow> bool \<Rightarrow> page_item list" where
  "unknown_range current hasNext =
     (if current \<le> 3 then map Page [1..current] else [Page 1, Dots, Page (current - 1), Page current]) @
     (if hasNext then [Page (current + 1), Dots] else [])"

definition buildPaginationRange :: "int \<Rightarrow> int option \<Rightarrow> bool \<Rightarrow> page_item list" where
  "buildPaginationRange current totalPages hasNext =
     (case totalPages of
        Some total_pages \<Rightarrow> if total_pages > 0 then known_range current total_pages else unknown_range current hasNext
      | None \<Rightarrow> unknown_range current hasNext)"

fun connected :: "int option \<Rightarrow> int list \<Rightarrow> page_item list" where
  "connected previous [] = []"
| "connected previous (page # pages) = gap_items previous page @ Page page # connected (Some page) pages"

lemma fold_page_step:
  "fst (fold (page_step current total_pages) pages (out, previous)) =
     out @ connected previous (filter (should_show current total_pages) pages)"
  by (induction pages arbitrary: out previous) (auto simp: page_step_def)

lemma known_range_connected:
  "known_range current total_pages = connected None (filter (should_show current total_pages) [1..total_pages])"
  by (simp add: known_range_def fold_page_step)

text \<open>The numbers a range shows.\<close>

fun shown :: "page_item list \<Rightarrow> int list" where
  "shown [] = []"
| "shown (Page p # items) = p # shown items"
| "shown (Dots # items) = shown items"

lemma shown_append [simp]: "shown (xs @ ys) = shown xs @ shown ys"
  by (induction xs rule: shown.induct) auto

lemma shown_gap: "shown (gap_items previous page) = (case previous of Some p \<Rightarrow> if page - p = 2 then [p + 1] else [] | None \<Rightarrow> [])"
  by (simp add: gap_items_def split: option.split)

lemma connected_subset: "set pages \<subseteq> set (shown (connected previous pages))"
  by (induction previous pages rule: connected.induct) auto

lemma connected_length: "length (connected previous pages) \<le> 2 * length pages"
proof (induction previous pages rule: connected.induct)
  case (2 previous page pages)
  have "length (gap_items previous page) \<le> 1" by (simp add: gap_items_def split: option.split)
  with 2 show ?case by simp
qed simp

lemma connected_above:
  "sorted_wrt (<) (p # pages) \<Longrightarrow> n \<in> set (shown (connected (Some p) pages)) \<Longrightarrow> p < n \<and> (\<exists>m \<in> set pages. n \<le> m)"
proof (induction pages arbitrary: p)
  case (Cons page pages)
  then consider "p + 1 = n \<and> page - p = 2" | "n = page" | "n \<in> set (shown (connected (Some page) pages))"
    by (auto simp: shown_gap split: if_split_asm)
  then show ?case
  proof cases
    case 3
    have "sorted_wrt (<) (page # pages)" using Cons.prems(1) by simp
    from Cons.IH [OF this 3] Cons.prems(1) show ?thesis by auto
  qed (use Cons.prems(1) in auto)
qed simp

lemma connected_sorted: "sorted_wrt (<) (p # pages) \<Longrightarrow> sorted_wrt (<) (p # shown (connected (Some p) pages))"
proof (induction pages arbitrary: p)
  case (Cons page pages)
  have sub: "sorted_wrt (<) (page # pages)" and "p < page" using Cons.prems by auto
  moreover have "\<forall>n \<in> set (shown (connected (Some p) (page # pages))). p < n"
    using connected_above [OF Cons.prems] by blast
  ultimately show ?case using Cons.IH [OF sub] by (auto simp: shown_gap)
qed simp

lemma sorted_upto [simp]: "sorted_wrt (<) [i..j]"
proof (induction i j rule: upto.induct)
  case (1 i j)
  then show ?case by (simp add: upto.simps [of i j])
qed

lemma shown_count:
  assumes "total_pages > 5"
  shows "length (filter (should_show current total_pages) [1..total_pages]) \<le> 5"
proof -
  let ?pages = "filter (should_show current total_pages) [1..total_pages]"
  have "set ?pages \<subseteq> {1, total_pages, current - 1, current, current + 1}"
    using assms by (auto simp: should_show_def)
  then have "card (set ?pages) \<le> card {1, total_pages, current - 1, current, current + 1}" by (intro card_mono) auto
  also have "\<dots> \<le> 5" by (intro order.trans [OF card_insert_le_m1]) (auto intro!: card_insert_le_m1)
  finally have "card (set ?pages) \<le> 5" .
  then show ?thesis using distinct_card [of ?pages] by (metis distinct_filter distinct_upto)
qed

text \<open>
  A page range is usable: for a current page among the known pages, the range shows pages of the
  result only, in increasing order, with the first, the current and the last page and the neighbours
  of the current page always among them, and it has at most ten entries however many pages there are.
\<close>

theorem pagination_range_bounds:
  assumes "1 \<le> current" and "current \<le> total_pages"
  shows "let shown_range = buildPaginationRange current (Some total_pages) hasNext
         in sorted_wrt (<) (shown shown_range) \<and> set (shown shown_range) \<subseteq> {1..total_pages} \<and>
            {1, current, total_pages} \<union> ({current - 1, current + 1} \<inter> {1..total_pages}) \<subseteq> set (shown shown_range) \<and>
            length shown_range \<le> 10"
proof -
  let ?pages = "filter (should_show current total_pages) [1..total_pages]"
  have visible: "{1, current, total_pages} \<union> ({current - 1, current + 1} \<inter> {1..total_pages}) \<subseteq> set ?pages"
    using assms by (auto simp: should_show_def)
  have "[1..total_pages] = 1 # [2..total_pages]" using assms upto_rec1 [of 1 total_pages] by simp
  then obtain rest where pages: "?pages = 1 # rest" by (simp add: should_show_def)
  have sorted: "sorted_wrt (<) (1 # rest)" using sorted_wrt_filter [OF sorted_upto, of "should_show current total_pages" 1 total_pages]
    by (simp only: pages)
  have laid_out: "buildPaginationRange current (Some total_pages) hasNext = Page 1 # connected (Some 1) rest"
    using assms pages by (simp add: buildPaginationRange_def known_range_connected gap_items_def)
  have bound: "n \<le> total_pages" if "n \<in> set rest" for n
    using that pages by (metis (no_types, lifting) atLeastAtMost_iff filter_is_subset list.set_intros(2) set_upto subsetD)
  have "length (buildPaginationRange current (Some total_pages) hasNext) \<le> 2 * length ?pages"
    unfolding laid_out pages using connected_length [of "Some 1" rest] by simp
  moreover have "length ?pages \<le> 5"
  proof (cases "total_pages > 5")
    case False
    then show ?thesis using length_filter_le [of "should_show current total_pages" "[1..total_pages]"] by simp
  qed (rule shown_count)
  moreover have "set (shown (connected (Some 1) rest)) \<subseteq> {1..total_pages}"
    using connected_above [OF sorted] bound by (meson atLeastAtMost_iff order.strict_implies_order order_trans subsetI)
  ultimately show ?thesis
    using connected_sorted [OF sorted] connected_subset [of rest "Some 1"] visible assms
    unfolding Let_def laid_out by (auto simp: pages)
qed

theorem pagination_range_bounds_witness:
  "shown (buildPaginationRange 6 (Some 12) False) = [1, 5, 6, 7, 12] \<and>
   length (buildPaginationRange 6 (Some 12) False) \<le> 10"
proof
  show "shown (buildPaginationRange 6 (Some 12) False) = [1, 5, 6, 7, 12]" by code_simp
  show "length (buildPaginationRange 6 (Some 12) False) \<le> 10"
    using pagination_range_bounds [of 6 12 False] by (simp add: Let_def)
qed

end
