(* ===== verification/Tab_Strip.thy ===== *)
theory Tab_Strip
  imports Prelude "HOL-Library.AList" "HOL-Library.Multiset" Complex_Main
begin

text \<open>
  The editor tab strip: the geometry of \<open>components/tabs/editorTabsLayout.ts\<close>, the reducer of
  \<open>components/tabs/editorTabsInteractionState.ts\<close>, the handlers of \<open>components/tabs/EditorTabs.tsx\<close>
  that drag, rename and walk the tabs, and the cached list of tabs that
  \<open>features/tools/common/Tabs.tsx\<close> keeps behind it. Pixel coordinates are exact rationals. A handler
  returns the next state with the callbacks it made, in order; it reads the state of the last render.
\<close>

subsection \<open>Geometry\<close>

definition TAB_GAP :: rat where "TAB_GAP = 0"
definition TAB_MIN_WIDTH :: rat where "TAB_MIN_WIDTH = 50"
definition TAB_MAX_WIDTH :: rat where "TAB_MAX_WIDTH = 320"
definition DRAG_THRESHOLD :: rat where "DRAG_THRESHOLD = 4"

definition computeContentTabWidths :: "rat list \<Rightarrow> rat list" where
  "computeContentTabWidths naturalWidths =
     map (\<lambda>natural. of_int \<lfloor>max TAB_MIN_WIDTH (min TAB_MAX_WIDTH natural)\<rfloor>) naturalWidths"

definition position_step :: "rat \<Rightarrow> rat list \<times> rat \<Rightarrow> rat list \<times> rat" where
  "position_step width st = (case st of (positions, offset) \<Rightarrow> (positions @ [offset], offset + (width + TAB_GAP)))"

definition computeTabPositions :: "rat list \<Rightarrow> rat list" where
  "computeTabPositions widths = fst (fold position_step widths ([], 0))"

definition computeTotalWidth :: "rat list \<Rightarrow> rat" where
  "computeTotalWidth widths =
     (if widths = [] then 0
      else fold (\<lambda>width sum. sum + width) widths 0 + TAB_GAP * (of_nat (length widths) - 1))"

text \<open>The best distance starts at infinity, here \<^const>\<open>None\<close>.\<close>

definition closest_step :: "rat \<Rightarrow> nat \<times> rat \<Rightarrow> rat option \<times> nat \<Rightarrow> rat option \<times> nat" where
  "closest_step v entry st =
     (case (entry, st) of ((index, position), (best, bestIndex)) \<Rightarrow>
        let distance = \<bar>v - position\<bar>
        in if (case best of None \<Rightarrow> True | Some b \<Rightarrow> distance < b) then (Some distance, index)
           else (best, bestIndex))"

definition closestIndex :: "rat \<Rightarrow> rat list \<Rightarrow> nat" where
  "closestIndex v positions = snd (fold (closest_step v) (enumerate 0 positions) (None, 0))"

definition moveInOrder :: "'a list \<Rightarrow> int \<Rightarrow> int \<Rightarrow> 'a list" where
  "moveInOrder order fromIndex toIndex =
     (if fromIndex = toIndex \<or> fromIndex < 0 \<or> toIndex < 0 \<or>
         fromIndex \<ge> int (length order) \<or> toIndex \<ge> int (length order) then order
      else let next = take (nat fromIndex) order @ drop (Suc (nat fromIndex)) order
           in take (nat toIndex) next @ order ! nat fromIndex # drop (nat toIndex) next)"

text \<open>\<open>Array.prototype.indexOf\<close>.\<close>

fun indexOf :: "'a list \<Rightarrow> 'a \<Rightarrow> int" where
  "indexOf [] x = -1"
| "indexOf (y # ys) x = (if y = x then 0 else if indexOf ys x < 0 then -1 else indexOf ys x + 1)"

subsection \<open>The reducer of drag and rename\<close>

record drag_render =
  dr_order :: "string list option"
  dr_tabId :: "string option"
  dr_deltaX :: rat
  dr_homeLeft :: rat

record rename_render =
  rr_id :: "string option"
  rr_draftTitle :: string

record interaction_state =
  ia_drag :: drag_render
  ia_rename :: rename_render

datatype interaction_action =
    DragStarted string "string list" rat
  | DragMoved rat "string list"
  | DragCleared
  | RenameStarted string string
  | RenameDraftChanged string
  | RenameCancelled

definition idleDragState :: drag_render where
  "idleDragState = \<lparr>dr_order = None, dr_tabId = None, dr_deltaX = 0, dr_homeLeft = 0\<rparr>"

definition idleRenameState :: rename_render where
  "idleRenameState = \<lparr>rr_id = None, rr_draftTitle = []\<rparr>"

definition createEditorTabsInteractionState :: interaction_state where
  "createEditorTabsInteractionState = \<lparr>ia_drag = idleDragState, ia_rename = idleRenameState\<rparr>"

text \<open>A \<open>string | null\<close> used as a condition.\<close>

definition truthy_id :: "string option \<Rightarrow> bool" where
  "truthy_id s \<longleftrightarrow> s \<noteq> None \<and> s \<noteq> Some []"

fun editorTabsInteractionReducer :: "interaction_state \<Rightarrow> interaction_action \<Rightarrow> interaction_state" where
  "editorTabsInteractionReducer state (DragStarted tabId order homeLeft) =
     state\<lparr>ia_drag := \<lparr>dr_order = Some order, dr_tabId = Some tabId, dr_deltaX = 0, dr_homeLeft = homeLeft\<rparr>\<rparr>"
| "editorTabsInteractionReducer state (DragMoved deltaX order) =
     (if truthy_id (dr_tabId (ia_drag state))
      then state\<lparr>ia_drag := (ia_drag state)\<lparr>dr_deltaX := deltaX, dr_order := Some order\<rparr>\<rparr> else state)"
| "editorTabsInteractionReducer state DragCleared =
     (if truthy_id (dr_tabId (ia_drag state)) \<or> dr_order (ia_drag state) \<noteq> None
      then state\<lparr>ia_drag := idleDragState\<rparr> else state)"
| "editorTabsInteractionReducer state (RenameStarted tabId title) =
     state\<lparr>ia_rename := \<lparr>rr_id = Some tabId, rr_draftTitle = title\<rparr>\<rparr>"
| "editorTabsInteractionReducer state (RenameDraftChanged title) =
     (if truthy_id (rr_id (ia_rename state))
      then state\<lparr>ia_rename := (ia_rename state)\<lparr>rr_draftTitle := title\<rparr>\<rparr> else state)"
| "editorTabsInteractionReducer state RenameCancelled =
     (if truthy_id (rr_id (ia_rename state)) then state\<lparr>ia_rename := idleRenameState\<rparr> else state)"

subsection \<open>The strip\<close>

record editor_tab =
  et_id :: string
  et_title :: string
  et_icon :: bool

record drag_ref =
  df_tabId :: string
  df_pointerId :: int
  df_startX :: rat
  df_homeLeft :: rat
  df_moved :: bool

text \<open>
  The properties the parent passes (the callbacks it offers as flags) and the state of the component;
  \<open>ts_renameError\<close> is whether an error is shown.
\<close>

record strip =
  ts_tabs :: "editor_tab list"
  ts_onReorder :: bool
  ts_onRename :: bool
  ts_onClose :: bool
  ts_interaction :: interaction_state
  ts_dragRef :: "drag_ref option"
  ts_naturalWidths :: "(string \<times> rat) list"
  ts_submitting :: bool
  ts_renamePending :: bool
  ts_renameError :: bool

datatype strip_call = Activate string | Reorder "string list" | Rename string string

definition dispatchInteraction :: "interaction_action \<Rightarrow> strip \<Rightarrow> strip" where
  "dispatchInteraction action st =
     st\<lparr>ts_interaction := editorTabsInteractionReducer (ts_interaction st) action\<rparr>"

abbreviation propIds :: "strip \<Rightarrow> string list" where
  "propIds st \<equiv> map et_id (ts_tabs st)"

abbreviation dragOrder :: "strip \<Rightarrow> string list option" where
  "dragOrder st \<equiv> dr_order (ia_drag (ts_interaction st))"

abbreviation renamingId :: "strip \<Rightarrow> string option" where
  "renamingId st \<equiv> rr_id (ia_rename (ts_interaction st))"

abbreviation draftTitle :: "strip \<Rightarrow> string" where
  "draftTitle st \<equiv> rr_draftTitle (ia_rename (ts_interaction st))"

definition orderIds :: "strip \<Rightarrow> string list" where
  "orderIds st =
     (case dragOrder st of
        None \<Rightarrow> propIds st
      | Some order \<Rightarrow>
          fold (\<lambda>id ordered. if id \<in> set ordered then ordered else ordered @ [id]) (propIds st)
            (List.filter (\<lambda>id. id \<in> set (propIds st)) order))"

definition strip_widths :: "strip \<Rightarrow> rat list" where
  "strip_widths st =
     computeContentTabWidths
       (map (\<lambda>id. case map_of (ts_naturalWidths st) id of None \<Rightarrow> TAB_MAX_WIDTH | Some w \<Rightarrow> w) (orderIds st))"

definition strip_positions :: "strip \<Rightarrow> rat list" where
  "strip_positions st = computeTabPositions (strip_widths st)"

text \<open>
  The measuring effect: \<open>measured\<close> are the title widths of the rendered tabs. The constants are the
  leading and trailing widths (8 each), the icon (22), the close action (24) and the slack (4).
\<close>

definition tabsById :: "strip \<Rightarrow> string \<Rightarrow> editor_tab option" where
  "tabsById st = map_of (rev (map (\<lambda>tab. (et_id tab, tab)) (ts_tabs st)))"

definition natural_width :: "strip \<Rightarrow> string \<Rightarrow> rat \<Rightarrow> rat" where
  "natural_width st tabId offsetWidth =
     offsetWidth + 8 + 8 +
     (case tabsById st tabId of Some tab \<Rightarrow> (if et_icon tab then 22 else 0) | None \<Rightarrow> 0) +
     (if ts_onClose st then 24 else 0) + 4"

definition measure_titles :: "(string \<times> rat) list \<Rightarrow> strip \<Rightarrow> strip" where
  "measure_titles measured st =
     st\<lparr>ts_naturalWidths :=
       List.filter (\<lambda>entry. fst entry \<in> set (propIds st))
         (fold (\<lambda>(tabId, offsetWidth) widths. AList.update tabId (natural_width st tabId offsetWidth) widths)
            measured (ts_naturalWidths st))\<rparr>"

subsection \<open>Pointer\<close>

definition clearDrag :: "strip \<Rightarrow> strip" where
  "clearDrag st = dispatchInteraction DragCleared (st\<lparr>ts_dragRef := None\<rparr>)"

definition handlePointerDown :: "string \<Rightarrow> int \<Rightarrow> int \<Rightarrow> rat \<Rightarrow> strip \<Rightarrow> strip" where
  "handlePointerDown tab button pointerId clientX st =
     (if button \<noteq> 0 \<or> truthy_id (renamingId st) then st
      else let index = indexOf (orderIds st) tab
           in st\<lparr>ts_dragRef := Some \<lparr>df_tabId = tab, df_pointerId = pointerId, df_startX = clientX,
                df_homeLeft = (if 0 \<le> index \<and> nat index < length (strip_positions st)
                               then strip_positions st ! nat index else 0),
                df_moved = False\<rparr>\<rparr>)"

text \<open>
  The move: the order and the positions are those of the render, also after the drag is started by
  this event.
\<close>

definition drag_to :: "drag_ref \<Rightarrow> rat \<Rightarrow> string list \<Rightarrow> rat list \<Rightarrow> strip \<Rightarrow> strip" where
  "drag_to drag delta order positions st =
     dispatchInteraction
       (DragMoved delta
          (moveInOrder order (indexOf order (df_tabId drag)) (int (closestIndex (df_homeLeft drag + delta) positions)))) st"

definition handlePointerMove :: "int \<Rightarrow> rat \<Rightarrow> strip \<Rightarrow> strip \<times> strip_call list" where
  "handlePointerMove pointerId clientX st =
     (case ts_dragRef st of
        None \<Rightarrow> (st, [])
      | Some drag \<Rightarrow>
          if df_pointerId drag \<noteq> pointerId then (st, [])
          else let delta = clientX - df_startX drag
               in if df_moved drag
                  then (drag_to drag delta (case dragOrder st of None \<Rightarrow> orderIds st | Some order \<Rightarrow> order)
                          (strip_positions st) st, [])
                  else if \<bar>delta\<bar> < DRAG_THRESHOLD \<or> \<not> ts_onReorder st then (st, [])
                  else (drag_to drag delta (orderIds st) (strip_positions st)
                          (dispatchInteraction (DragStarted (df_tabId drag) (orderIds st) (df_homeLeft drag))
                             (st\<lparr>ts_dragRef := Some (drag\<lparr>df_moved := True\<rparr>)\<rparr>)),
                        [Activate (df_tabId drag)]))"

definition order_changed :: "string list \<Rightarrow> string list \<Rightarrow> bool" where
  "order_changed finalOrder ids \<longleftrightarrow>
     (\<exists>index < length finalOrder. index \<ge> length ids \<or> finalOrder ! index \<noteq> ids ! index)"

definition handlePointerUp :: "string \<Rightarrow> int \<Rightarrow> strip \<Rightarrow> strip \<times> strip_call list" where
  "handlePointerUp tab pointerId st =
     (case ts_dragRef st of
        None \<Rightarrow> (st, [])
      | Some drag \<Rightarrow>
          if df_pointerId drag \<noteq> pointerId then (st, [])
          else if df_moved drag
          then let finalOrder = (case dragOrder st of None \<Rightarrow> orderIds st | Some order \<Rightarrow> order)
               in (clearDrag st,
                   if order_changed finalOrder (propIds st) \<and> ts_onReorder st then [Reorder finalOrder] else [])
          else (st\<lparr>ts_dragRef := None\<rparr>, [Activate tab]))"

subsection \<open>Keyboard\<close>

datatype tab_key = ArrowRight | ArrowLeft | Home_key | End_key | Enter_key | Other_key

definition target_index :: "tab_key \<Rightarrow> int \<Rightarrow> int \<Rightarrow> int option" where
  "target_index key currentIndex tab_count =
     (case key of
        ArrowRight \<Rightarrow> Some ((currentIndex + 1) mod tab_count)
      | ArrowLeft \<Rightarrow> Some ((currentIndex - 1 + tab_count) mod tab_count)
      | Home_key \<Rightarrow> Some 0
      | End_key \<Rightarrow> Some (tab_count - 1)
      | _ \<Rightarrow> None)"

definition handleTabKeyDown :: "string \<Rightarrow> tab_key \<Rightarrow> strip \<Rightarrow> strip_call list" where
  "handleTabKeyDown tab key st =
     (if key = Enter_key then [Activate tab]
      else case target_index key (indexOf (orderIds st) tab) (int (length (orderIds st))) of
             None \<Rightarrow> []
           | Some target \<Rightarrow>
               if 0 \<le> target \<and> nat target < length (orderIds st) \<and> orderIds st ! nat target \<noteq> []
               then [Activate (orderIds st ! nat target)] else [])"

subsection \<open>Inline rename\<close>

definition beginRename :: "editor_tab \<Rightarrow> strip \<Rightarrow> strip" where
  "beginRename tab st =
     dispatchInteraction (RenameStarted (et_id tab) (et_title tab)) (st\<lparr>ts_renameError := False\<rparr>)"

definition handleDoubleClick :: "editor_tab \<Rightarrow> strip \<Rightarrow> strip" where
  "handleDoubleClick tab st = (if ts_onRename st \<and> \<not> truthy_id (renamingId st) then beginRename tab st else st)"

text \<open>The input is read-only while a rename is pending.\<close>

definition handleRenameChange :: "string \<Rightarrow> strip \<Rightarrow> strip" where
  "handleRenameChange title st =
     (if ts_renamePending st then st else dispatchInteraction (RenameDraftChanged title) st)"

text \<open>Up to the \<open>await\<close>, and what follows it.\<close>

definition finishRename :: "strip \<Rightarrow> strip \<times> strip_call list" where
  "finishRename st =
     (if \<not> truthy_id (renamingId st) \<or> ts_submitting st \<or> trim (draftTitle st) = [] then (st, [])
      else (st\<lparr>ts_submitting := True, ts_renamePending := True, ts_renameError := False\<rparr>,
            if ts_onRename st then [Rename (the (renamingId st)) (trim (draftTitle st))] else []))"

definition rename_settled :: "bool \<Rightarrow> strip \<Rightarrow> strip" where
  "rename_settled succeeded st =
     (if succeeded then dispatchInteraction RenameCancelled st else st\<lparr>ts_renameError := True\<rparr>)
       \<lparr>ts_submitting := False, ts_renamePending := False\<rparr>"

datatype rename_key = Rename_enter | Rename_escape | Rename_other

definition handleRenameKeyDown :: "rename_key \<Rightarrow> strip \<Rightarrow> strip \<times> strip_call list" where
  "handleRenameKeyDown key st =
     (case key of
        Rename_enter \<Rightarrow> finishRename st
      | Rename_escape \<Rightarrow>
          if \<not> ts_renamePending st
          then ((dispatchInteraction RenameCancelled st)\<lparr>ts_renameError := False\<rparr>, []) else (st, [])
      | Rename_other \<Rightarrow> (st, []))"

definition handleRenameBlur :: "strip \<Rightarrow> strip \<times> strip_call list" where
  "handleRenameBlur st = (if \<not> ts_renameError st then finishRename st else (st, []))"

subsection \<open>The cached list of tabs\<close>

text \<open>
  The fields of a tab that the list changes; \<open>at_rest\<close> stands for its kind, settings and analysis,
  which are carried along.
\<close>

record 'a analysis_tab =
  at_id :: string
  at_name :: string
  at_position :: int
  at_rest :: 'a

definition chosen_tab :: "string option \<Rightarrow> 'a analysis_tab list option \<Rightarrow> 'a analysis_tab option" where
  "chosen_tab chosen data =
     (case data of
        None \<Rightarrow> None
      | Some items \<Rightarrow>
          (case find (\<lambda>item. Some (at_id item) = chosen) items of
             Some item \<Rightarrow> Some item
           | None \<Rightarrow> (case items of [] \<Rightarrow> None | item # rest \<Rightarrow> Some item)))"

definition create_success :: "'a analysis_tab \<Rightarrow> 'a analysis_tab list option \<Rightarrow> 'a analysis_tab list option" where
  "create_success created old =
     Some (List.filter (\<lambda>item. at_id item \<noteq> at_id created) (case old of None \<Rightarrow> [] | Some items \<Rightarrow> items) @ [created])"

definition rename_success :: "'a analysis_tab \<Rightarrow> 'a analysis_tab list option \<Rightarrow> 'a analysis_tab list option" where
  "rename_success updated old =
     map_option (map (\<lambda>item. if at_id item = at_id updated then item\<lparr>at_name := at_name updated\<rparr> else item)) old"

definition reposition :: "'a analysis_tab list \<Rightarrow> 'a analysis_tab \<Rightarrow> 'a analysis_tab" where
  "reposition updates item =
     item\<lparr>at_position :=
       (case find (\<lambda>updated. at_id updated = at_id item) updates of
          Some updated \<Rightarrow> at_position updated | None \<Rightarrow> at_position item)\<rparr>"

definition reorder_success :: "'a analysis_tab list \<Rightarrow> 'a analysis_tab list option \<Rightarrow> 'a analysis_tab list option" where
  "reorder_success updates old = map_option (\<lambda>items. sort_key at_position (map (reposition updates) items)) old"

definition remove_success :: "string \<Rightarrow> 'a analysis_tab list option \<Rightarrow> 'a analysis_tab list option" where
  "remove_success tabId old = map_option (List.filter (\<lambda>item. at_id item \<noteq> tabId)) old"

text \<open>The tabs handed to the strip.\<close>

definition strip_tabs :: "'a analysis_tab list \<Rightarrow> editor_tab list" where
  "strip_tabs items = map (\<lambda>item. \<lparr>et_id = at_id item, et_title = at_name item, et_icon = False\<rparr>) items"

subsection \<open>Events\<close>

datatype strip_event =
    Pointer_down string int int rat
  | Pointer_move int rat
  | Pointer_up string int
  | Double_click editor_tab
  | Title_typed string
  | Rename_key_down rename_key
  | Rename_blur
  | Rename_done bool
  | Key_down string tab_key
  | Titles_measured "(string \<times> rat) list"
  | Properties "editor_tab list" bool bool bool

fun strip_handle :: "strip_event \<Rightarrow> strip \<Rightarrow> strip \<times> strip_call list" where
  "strip_handle (Pointer_down tab button pointerId clientX) st = (handlePointerDown tab button pointerId clientX st, [])"
| "strip_handle (Pointer_move pointerId clientX) st = handlePointerMove pointerId clientX st"
| "strip_handle (Pointer_up tab pointerId) st = handlePointerUp tab pointerId st"
| "strip_handle (Double_click tab) st = (handleDoubleClick tab st, [])"
| "strip_handle (Title_typed title) st = (handleRenameChange title st, [])"
| "strip_handle (Rename_key_down key) st = handleRenameKeyDown key st"
| "strip_handle Rename_blur st = handleRenameBlur st"
| "strip_handle (Rename_done succeeded) st = (rename_settled succeeded st, [])"
| "strip_handle (Key_down tab key) st = (st, handleTabKeyDown tab key st)"
| "strip_handle (Titles_measured measured) st = (measure_titles measured st, [])"
| "strip_handle (Properties tabs onReorder onRename onClose) st =
     (st\<lparr>ts_tabs := tabs, ts_onReorder := onReorder, ts_onRename := onRename, ts_onClose := onClose\<rparr>, [])"

text \<open>
  When an event can happen: events of a tab come from a tab that is shown, a submission settles only
  while one is in flight, and the parent passes tabs with distinct ids, and other tabs only while no
  drag is in progress.
\<close>

fun strip_admits :: "strip_event \<Rightarrow> strip \<Rightarrow> bool" where
  "strip_admits (Pointer_down tab button pointerId clientX) st = (tab \<in> set (propIds st))"
| "strip_admits (Pointer_up tab pointerId) st = (tab \<in> set (propIds st))"
| "strip_admits (Double_click tab) st = (tab \<in> set (ts_tabs st))"
| "strip_admits (Key_down tab key) st = (tab \<in> set (propIds st))"
| "strip_admits (Rename_done succeeded) st = ts_submitting st"
| "strip_admits (Properties tabs onReorder onRename onClose) st =
     (distinct (map et_id tabs) \<and> [] \<notin> set (map et_id tabs) \<and> (dragOrder st = None \<or> map et_id tabs = propIds st))"
| "strip_admits event st = True"

definition initial_strip :: "editor_tab list \<Rightarrow> bool \<Rightarrow> bool \<Rightarrow> bool \<Rightarrow> strip" where
  "initial_strip tabs onReorder onRename onClose =
     \<lparr>ts_tabs = tabs, ts_onReorder = onReorder, ts_onRename = onRename, ts_onClose = onClose,
      ts_interaction = createEditorTabsInteractionState, ts_dragRef = None, ts_naturalWidths = [],
      ts_submitting = False, ts_renamePending = False, ts_renameError = False\<rparr>"

inductive strip_reachable :: "strip \<Rightarrow> bool" where
  strip_initial: "distinct (map et_id tabs) \<Longrightarrow> [] \<notin> set (map et_id tabs) \<Longrightarrow>
     strip_reachable (initial_strip tabs onReorder onRename onClose)"
| strip_event: "strip_reachable st \<Longrightarrow> strip_admits event st \<Longrightarrow> strip_reachable (fst (strip_handle event st))"

subsection \<open>Moving\<close>

lemma moveInOrder_id: "moveInOrder order i i = order"
  by (simp add: moveInOrder_def)

lemma mset_insert_at: "mset (take j xs @ x # drop j xs) = add_mset x (mset xs)"
  by (metis append_take_drop_id mset.simps(2) mset_append union_mset_add_mset_right)

lemma mset_remove_at: "k < length xs \<Longrightarrow> add_mset (xs ! k) (mset (take k xs @ drop (Suc k) xs)) = mset xs"
  by (metis id_take_nth_drop mset.simps(2) mset_append union_mset_add_mset_right)

lemma mset_moveInOrder [simp]: "mset (moveInOrder order i j) = mset order"
proof (cases "i = j \<or> i < 0 \<or> j < 0 \<or> i \<ge> int (length order) \<or> j \<ge> int (length order)")
  case False
  then have "nat i < length order" by (simp add: nat_less_iff)
  then show ?thesis unfolding moveInOrder_def Let_def if_not_P [OF False] mset_insert_at by (rule mset_remove_at)
qed (simp add: moveInOrder_def)

text \<open>
  Moving a tab between two slots of the row puts it in the target slot and keeps the other tabs,
  in their order.
\<close>

theorem moveInOrder_correct:
  assumes "0 \<le> fromIndex" "fromIndex < int (length order)" "0 \<le> toIndex" "toIndex < int (length order)"
  shows "let moved = moveInOrder order fromIndex toIndex; i = nat fromIndex; j = nat toIndex
         in length moved = length order \<and> moved ! j = order ! i \<and>
            take j moved @ drop (Suc j) moved = take i order @ drop (Suc i) order"
proof -
  define i j rest where "i = nat fromIndex" and "j = nat toIndex" and "rest = take i order @ drop (Suc i) order"
  have bounds: "i < length order" "j < length order" using assms by (auto simp: i_def j_def)
  then have rest: "length rest = length order - 1" by (simp add: rest_def)
  have "moveInOrder order fromIndex toIndex = take j rest @ order ! i # drop j rest"
  proof (cases "fromIndex = toIndex")
    case True
    then have "take j rest @ order ! i # drop j rest = take i order @ order ! i # drop (Suc i) order"
      using bounds by (simp add: rest_def i_def j_def)
    then show ?thesis using True bounds by (simp add: moveInOrder_def id_take_nth_drop [symmetric])
  next
    case False
    then show ?thesis using assms by (simp add: moveInOrder_def Let_def i_def j_def rest_def)
  qed
  moreover have "length (take j rest) = j" using rest bounds by simp
  ultimately show ?thesis
    using rest bounds unfolding i_def [symmetric] j_def [symmetric] rest_def [symmetric] Let_def
    by (auto simp: nth_append)
qed

theorem moveInOrder_correct_witness:
  "moveInOrder [CHR ''a'', CHR ''b'', CHR ''c''] 0 2 = ''bca'' \<and> moveInOrder ''abc'' 0 2 ! 2 = ''abc'' ! 0"
  using moveInOrder_correct [of 0 "''abc''" 2] by (simp add: Let_def) (simp add: moveInOrder_def)

lemma closest_step_Some:
  "closest_step v (i, p) (Some b, k) = (if \<bar>v - p\<bar> < b then (Some \<bar>v - p\<bar>, i) else (Some b, k))"
  by (simp add: closest_step_def)

lemma closest_fold:
  assumes "positions \<noteq> []"
  shows "\<exists>k < length positions.
    fold (closest_step v) (enumerate 0 positions) (None, 0) = (Some \<bar>v - positions ! k\<bar>, k) \<and>
    (\<forall>j < length positions. \<bar>v - positions ! k\<bar> \<le> \<bar>v - positions ! j\<bar> \<and> (j < k \<longrightarrow> \<bar>v - positions ! k\<bar> < \<bar>v - positions ! j\<bar>))"
  using assms
proof (induction positions rule: rev_nonempty_induct)
  case (single x)
  then show ?case by (simp add: closest_step_def)
next
  case (snoc x xs)
  then obtain k where k: "k < length xs" "fold (closest_step v) (enumerate 0 xs) (None, 0) = (Some \<bar>v - xs ! k\<bar>, k)"
    "\<And>j. j < length xs \<Longrightarrow> \<bar>v - xs ! k\<bar> \<le> \<bar>v - xs ! j\<bar> \<and> (j < k \<longrightarrow> \<bar>v - xs ! k\<bar> < \<bar>v - xs ! j\<bar>)" by blast
  show ?case
  proof (cases "\<bar>v - x\<bar> < \<bar>v - xs ! k\<bar>")
    case True
    then have "\<bar>v - x\<bar> < \<bar>v - xs ! j\<bar>" if "j < length xs" for j using k(3) [OF that] by linarith
    then show ?thesis using True k(2)
      by (intro exI [of _ "length xs"]) (auto simp: enumerate_append_eq closest_step_Some nth_append less_Suc_eq_le less_imp_le)
  next
    case False
    then show ?thesis using k
      by (intro exI [of _ k]) (auto simp: enumerate_append_eq closest_step_Some nth_append)
  qed
qed

lemma position_fold:
  "fold position_step widths (positions, offset) =
     (positions @ map (\<lambda>k. offset + sum_list (take k widths)) [0..<length widths], offset + sum_list widths)"
proof (induction widths arbitrary: positions offset)
  case (Cons width widths)
  have "map (\<lambda>k. offset + sum_list (take k (width # widths))) [0..<Suc (length widths)] =
      offset # map (\<lambda>k. offset + width + sum_list (take k widths)) [0..<length widths]"
    by (simp add: upt_conv_Cons map_Suc_upt [symmetric] comp_def add.assoc del: upt_Suc)
  then show ?case using Cons.IH [of "positions @ [offset]" "offset + width"]
    by (simp add: position_step_def TAB_GAP_def add.assoc del: upt_Suc)
qed simp

text \<open>
  The row has no gaps and no overlaps, and a drag lands in the nearest slot: every width lies
  between 50 and 320 pixels, every tab starts where the widths before it end, the row is as wide as
  its tabs, and the slot chosen for a pointer is the first one at least distance.
\<close>

theorem tab_row_geometry:
  fixes naturalWidths :: "rat list"
  defines "widths \<equiv> computeContentTabWidths naturalWidths"
  defines "positions \<equiv> computeTabPositions widths"
  shows "set widths \<subseteq> {50..320} \<and> positions = map (\<lambda>k. sum_list (take k widths)) [0..<length naturalWidths] \<and>
         computeTotalWidth widths = sum_list widths \<and>
         (positions \<noteq> [] \<longrightarrow> closestIndex v positions < length positions \<and>
            (\<forall>j < length positions. \<bar>v - positions ! closestIndex v positions\<bar> \<le> \<bar>v - positions ! j\<bar>))"
proof -
  have "of_int \<lfloor>max 50 (min 320 n)\<rfloor> \<in> {50..320::rat}" for n :: rat
  proof -
    have "50 \<le> \<lfloor>max 50 (min 320 n)\<rfloor>" "\<lfloor>max 50 (min 320 n)\<rfloor> \<le> 320" by (auto simp: le_floor_iff floor_le_iff)
    then show ?thesis by (metis atLeastAtMost_iff of_int_le_iff of_int_numeral)
  qed
  then have "set widths \<subseteq> {50..320}"
    by (auto simp: widths_def computeContentTabWidths_def TAB_MIN_WIDTH_def TAB_MAX_WIDTH_def)
  moreover have "positions = map (\<lambda>k. sum_list (take k widths)) [0..<length naturalWidths]"
    by (simp add: positions_def widths_def computeTabPositions_def position_fold computeContentTabWidths_def)
  moreover have "fold (\<lambda>width total. total + width) ws t = t + sum_list ws" for ws and t :: rat
    by (induction ws arbitrary: t) (simp_all add: add.assoc)
  then have "computeTotalWidth widths = sum_list widths" by (simp add: computeTotalWidth_def TAB_GAP_def)
  ultimately show ?thesis using closest_fold [of positions v] by (auto simp: closestIndex_def)
qed

theorem tab_row_geometry_witness:
  "closestIndex 70 (computeTabPositions (computeContentTabWidths [10, 60, 900])) = 1 \<and>
   computeTotalWidth (computeContentTabWidths [10, 60, 900]) = sum_list (computeContentTabWidths [10, 60, 900])"
proof
  show "closestIndex 70 (computeTabPositions (computeContentTabWidths [10, 60, 900])) = 1" by code_simp
qed (use tab_row_geometry in blast)

subsection \<open>The invariant of the strip\<close>

definition strip_ok :: "strip \<Rightarrow> bool" where
  "strip_ok st \<longleftrightarrow> distinct (propIds st) \<and> [] \<notin> set (propIds st) \<and>
     (\<forall>order. dragOrder st = Some order \<longrightarrow> mset order = mset (propIds st)) \<and>
     (\<forall>drag. ts_dragRef st = Some drag \<and> df_moved drag \<longrightarrow> dragOrder st \<noteq> None) \<and>
     ts_submitting st = ts_renamePending st \<and> (ts_submitting st \<longrightarrow> truthy_id (renamingId st))"

lemma push_missing_id: "set ids \<subseteq> set ordered \<Longrightarrow>
    fold (\<lambda>x ordered. if x \<in> set ordered then ordered else ordered @ [x]) ids ordered = ordered"
  by (induction ids) auto

lemma orderIds_shown:
  assumes "strip_ok st"
  shows "orderIds st = (case dragOrder st of None \<Rightarrow> propIds st | Some order \<Rightarrow> order)"
proof (cases "dragOrder st")
  case (Some order)
  then have "set order = set (propIds st)" using assms unfolding strip_ok_def by (metis mset_eq_setD)
  then show ?thesis using Some by (simp add: orderIds_def push_missing_id)
qed (simp add: orderIds_def)

lemma mset_orderIds: "strip_ok st \<Longrightarrow> mset (orderIds st) = mset (propIds st)"
  by (simp add: orderIds_shown strip_ok_def split: option.splits)

lemmas strip_defs = dispatchInteraction_def clearDrag_def drag_to_def createEditorTabsInteractionState_def
  idleDragState_def idleRenameState_def

lemma pointer_down_ok: "strip_ok st \<Longrightarrow> strip_ok (handlePointerDown tab button pointerId clientX st)"
  by (auto simp: handlePointerDown_def strip_ok_def Let_def)

lemma drag_to_ok:
  "strip_ok st \<Longrightarrow> mset order = mset (propIds st) \<Longrightarrow> strip_ok (drag_to drag delta order positions st)"
  by (auto simp: strip_defs strip_ok_def split: option.splits)

lemma drag_started_ok:
  "strip_ok st \<Longrightarrow>
   strip_ok (dispatchInteraction (DragStarted tab (orderIds st) home) (st\<lparr>ts_dragRef := ref\<rparr>))"
  using mset_orderIds [of st] by (simp add: strip_defs strip_ok_def split: option.splits)

lemma shown_order:
  "strip_ok st \<Longrightarrow> (case dragOrder st of None \<Rightarrow> orderIds st | Some order \<Rightarrow> order) = orderIds st"
  by (simp add: orderIds_shown split: option.split)

lemma ts_tabs_dispatch [simp]: "ts_tabs (dispatchInteraction action st) = ts_tabs st"
  by (simp add: dispatchInteraction_def)

lemma pointer_move_ok:
  assumes "strip_ok st"
  shows "strip_ok (fst (handlePointerMove pointerId clientX st))"
proof (cases "ts_dragRef st")
  case (Some drag)
  then show ?thesis using assms mset_orderIds [OF assms]
    by (simp add: handlePointerMove_def Let_def shown_order drag_to_ok drag_started_ok)
qed (use assms in \<open>simp add: handlePointerMove_def\<close>)

lemma pointer_up_ok: "strip_ok st \<Longrightarrow> strip_ok (fst (handlePointerUp tab pointerId st))"
  by (auto simp: handlePointerUp_def Let_def strip_defs strip_ok_def split: option.splits)

lemma finishRename_ok: "strip_ok st \<Longrightarrow> strip_ok (fst (finishRename st))"
  by (simp add: finishRename_def strip_ok_def)

lemma rename_ok:
  assumes "strip_ok st"
  shows "strip_ok (handleDoubleClick tab st)" and "strip_ok (handleRenameChange title st)"
    and "strip_ok (fst (handleRenameKeyDown key st))" and "strip_ok (fst (handleRenameBlur st))"
    and "strip_ok (rename_settled succeeded st)"
  using assms finishRename_ok [OF assms]
  by (auto simp: handleDoubleClick_def beginRename_def handleRenameChange_def handleRenameKeyDown_def
      handleRenameBlur_def rename_settled_def strip_defs strip_ok_def truthy_id_def split: rename_key.split option.splits)

lemma strip_handle_ok:
  assumes "strip_ok st" and "strip_admits event st"
  shows "strip_ok (fst (strip_handle event st))"
proof (cases event)
  case (Titles_measured measured)
  then show ?thesis using assms(1) by (simp add: measure_titles_def strip_ok_def)
next
  case (Properties tabs onReorder onRename onClose)
  then show ?thesis using assms by (auto simp: strip_ok_def simp flip: mset_map)
qed (use assms in \<open>simp_all add: pointer_down_ok pointer_move_ok pointer_up_ok rename_ok\<close>)

lemma strip_reachable_ok: "strip_reachable st \<Longrightarrow> strip_ok st"
proof (induction rule: strip_reachable.induct)
  case (strip_initial tabs onReorder onRename onClose)
  then show ?case by (simp add: initial_strip_def strip_ok_def strip_defs)
qed (rule strip_handle_ok)

subsection \<open>Reordering\<close>

lemma order_changed_iff: "length order = length ids \<Longrightarrow> order_changed order ids \<longleftrightarrow> order \<noteq> ids"
  by (auto simp: order_changed_def list_eq_iff_nth_eq)

lemma reorder_call:
  assumes "strip_ok st" and "Reorder ids \<in> set (snd (strip_handle event st))"
  shows "ids = orderIds st \<and> ids \<noteq> propIds st"
proof -
  have up: "ids = orderIds st \<and> ids \<noteq> propIds st" if "Reorder ids \<in> set (snd (handlePointerUp tab pointerId st))" for tab pointerId
    using that assms(1) mset_orderIds [OF assms(1), THEN mset_eq_length]
    by (cases "ts_dragRef st") (auto simp: handlePointerUp_def Let_def shown_order order_changed_iff split: if_splits)
  show ?thesis
    using assms(2) up
    by (cases event) (auto simp: handlePointerMove_def handleRenameKeyDown_def handleRenameBlur_def finishRename_def
        handleTabKeyDown_def Let_def split: option.splits if_splits rename_key.splits)
qed

lemma key_order_positions:
  assumes items: "mset (map key items) = mset keys" and "distinct keys"
    and positions: "\<And>item. item \<in> set items \<Longrightarrow> \<exists>k < length keys. keys ! k = key item \<and> position item = int k"
  shows "map key (sort_key position items) = keys"
proof -
  define sorted_items where "sorted_items = sort_key position items"
  have index: "\<exists>k < length keys. keys ! k = key item \<and> position item = int k" if "item \<in> set sorted_items" for item
    using that positions by (simp add: sorted_items_def)
  have lengths: "length sorted_items = length keys"
    using mset_eq_length [OF items] by (simp add: sorted_items_def)
  have "map key sorted_items = map (\<lambda>p. keys ! nat p) (map position sorted_items)"
    using index by fastforce
  moreover have "map position sorted_items = map int [0..<length keys]"
  proof (rule sorted_distinct_set_unique)
    have "distinct (map key sorted_items)"
      using items \<open>distinct keys\<close> by (metis mset_eq_imp_distinct_iff mset_map mset_sort sorted_items_def)
    then have keys: "inj_on key (set sorted_items)" "distinct sorted_items" by (auto simp: distinct_map)
    have "inj_on position (set sorted_items)"
      by (rule inj_onI) (metis index inj_onD [OF keys(1)] of_nat_eq_iff)
    then show "distinct (map position sorted_items)" using keys by (simp add: distinct_map)
    moreover have "position ` set sorted_items \<subseteq> int ` {0..<length keys}" using index by force
    ultimately show "set (map position sorted_items) = set (map int [0..<length keys])"
      using lengths card_image [OF \<open>inj_on position (set sorted_items)\<close>] distinct_card [OF keys(2)]
      by (simp add: card_subset_eq card_image)
  qed (use sorted_iff_nth_mono [of "map int [0..<length keys]"] in \<open>simp_all add: sorted_items_def distinct_map\<close>)
  ultimately have "map key sorted_items = map (\<lambda>p. keys ! nat p) (map int [0..<length keys])" by (simp only:)
  then show ?thesis unfolding sorted_items_def by (simp only: map_map comp_def nat_int map_nth)
qed

lemma repositioned:
  assumes service: "set (map (\<lambda>tab. (at_id tab, at_position tab)) updates) = set (map (\<lambda>k. (ids ! k, int k)) [0..<length ids])"
    and "at_id item \<in> set ids"
  shows "\<exists>k < length ids. ids ! k = at_id (reposition updates item) \<and> at_position (reposition updates item) = int k"
proof -
  obtain k where "k < length ids" "ids ! k = at_id item" using assms(2) by (metis in_set_conv_nth)
  then have "(at_id item, int k) \<in> set (map (\<lambda>tab. (at_id tab, at_position tab)) updates)"
    unfolding service by force
  then obtain found where found: "find (\<lambda>updated. at_id updated = at_id item) updates = Some found"
    by (cases "find (\<lambda>updated. at_id updated = at_id item) updates") (auto simp: find_None_iff)
  then have "found \<in> set updates" "at_id found = at_id item" by (metis (mono_tags, lifting) find_Some_iff nth_mem)+
  then have "(at_id item, at_position found) \<in> set (map (\<lambda>tab. (at_id tab, at_position tab)) updates)"
    unfolding set_map by (intro image_eqI [of _ _ found]) simp_all
  then have "(at_id item, at_position found) \<in> set (map (\<lambda>k. (ids ! k, int k)) [0..<length ids])"
    unfolding service .
  then show ?thesis using found by (auto simp: reposition_def)
qed

text \<open>
  Dropping a dragged tab settles where it was shown: in every reachable state of the strip, the order
  handed to \<open>onReorder\<close> holds every tab exactly once and differs from the current one, and when
  the service answers with the index of every tab in that order, the cached list shows the tabs in
  exactly the order the drag displayed.
\<close>

theorem dropped_order_settles:
  assumes "strip_reachable st" and "ts_tabs st = strip_tabs items"
    and "Reorder ids \<in> set (snd (strip_handle event st))"
    and service: "set (map (\<lambda>tab. (at_id tab, at_position tab)) (reorderTabs ids)) =
                  set (map (\<lambda>k. (ids ! k, int k)) [0..<length ids])"
  shows "mset ids = mset (map at_id items) \<and> distinct ids \<and> ids \<noteq> map at_id items \<and>
         map at_id (the (reorder_success (reorderTabs ids) (Some items))) = orderIds st"
proof -
  have shown: "propIds st = map at_id items" by (simp add: assms(2) strip_tabs_def comp_def)
  have call: "ids = orderIds st" "ids \<noteq> propIds st"
    using reorder_call [OF strip_reachable_ok [OF assms(1)] assms(3)] by auto
  have perm: "mset ids = mset (propIds st)" using mset_orderIds strip_reachable_ok assms(1) call by auto
  have distinct: "distinct ids"
    using strip_reachable_ok [OF assms(1)] perm mset_eq_imp_distinct_iff strip_ok_def by blast
  let ?moved = "map (reposition (reorderTabs ids)) items"
  have "\<exists>k < length ids. ids ! k = at_id item \<and> at_position item = int k" if item: "item \<in> set ?moved" for item
  proof -
    from item obtain old where old: "old \<in> set items" "item = reposition (reorderTabs ids) old" by auto
    then have "at_id old \<in> set ids" using mset_eq_setD [OF perm] shown by simp
    then show ?thesis using repositioned [OF service] old by simp
  qed
  moreover have "mset (map at_id ?moved) = mset ids" using perm shown by (simp add: comp_def reposition_def)
  ultimately have "map at_id (sort_key at_position ?moved) = ids" by (intro key_order_positions distinct) auto
  then show ?thesis using perm distinct shown call by (simp add: reorder_success_def)
qed

text \<open>A drag of the first of two tabs past the second.\<close>

definition example_items :: "unit analysis_tab list" where
  "example_items = [\<lparr>at_id = ''a'', at_name = ''A'', at_position = 0, at_rest = ()\<rparr>,
                    \<lparr>at_id = ''b'', at_name = ''B'', at_position = 1, at_rest = ()\<rparr>]"

definition example_start :: strip where
  "example_start = initial_strip (strip_tabs example_items) True True True"

definition example_dragged :: strip where
  "example_dragged = fst (strip_handle (Pointer_move 1 400) (fst (strip_handle (Pointer_down ''a'' 0 1 10) example_start)))"

definition example_service :: "string list \<Rightarrow> unit analysis_tab list" where
  "example_service ids =
     map (\<lambda>k. \<lparr>at_id = ids ! k, at_name = [], at_position = int k, at_rest = ()\<rparr>) [0..<length ids]"

lemma example_dragged_reachable: "strip_reachable example_dragged"
proof -
  have "strip_reachable example_start"
    unfolding example_start_def by (intro strip_initial) (simp_all add: strip_tabs_def example_items_def)
  then have "strip_reachable (fst (strip_handle (Pointer_down ''a'' 0 1 10) example_start))"
    by (rule strip_event) (simp add: example_start_def initial_strip_def strip_tabs_def example_items_def)
  then show ?thesis unfolding example_dragged_def by (rule strip_event) simp
qed

lemma example_drop: "snd (strip_handle (Pointer_up ''a'' 1) example_dragged) = [Reorder [''b'', ''a'']]"
  by code_simp

lemma example_dragged_tabs: "ts_tabs example_dragged = strip_tabs example_items"
  by code_simp

theorem dropped_order_settles_witness:
  "distinct [''b'', ''a''] \<and> [''b'', ''a''] \<noteq> map at_id example_items \<and>
   map at_id (the (reorder_success (example_service [''b'', ''a'']) (Some example_items))) = orderIds example_dragged"
proof -
  have call: "Reorder [''b'', ''a''] \<in> set (snd (strip_handle (Pointer_up ''a'' 1) example_dragged))"
    unfolding example_drop by simp
  have service: "set (map (\<lambda>tab. (at_id tab, at_position tab)) (example_service [''b'', ''a''])) =
      set (map (\<lambda>k. ([''b'', ''a''] ! k, int k)) [0..<length [''b'', ''a'']])"
    by (simp add: example_service_def)
  show ?thesis
    using dropped_order_settles [where reorderTabs = example_service, OF example_dragged_reachable example_dragged_tabs call service]
    by (simp only: simp_thms)
qed

subsection \<open>Renaming and stray pointers\<close>

text \<open>
  An inline rename is submitted at most once and closes what it submitted: in a reachable strip, a
  rename handed to \<open>onRename\<close> is that of the open title with the white space trimmed, which is not
  blank; and from then until it settles no event changes the open rename or submits another.
\<close>

theorem rename_submitted_once:
  assumes "strip_reachable st"
  shows "(Rename tab title \<in> set (snd (strip_handle event st)) \<longrightarrow>
            renamingId st = Some tab \<and> title = trim (draftTitle st) \<and> title \<noteq> [] \<and>
            \<not> ts_submitting st \<and> ts_submitting (fst (strip_handle event st))) \<and>
         (ts_submitting st \<and> (\<forall>succeeded. event \<noteq> Rename_done succeeded) \<longrightarrow>
            ia_rename (ts_interaction (fst (strip_handle event st))) = ia_rename (ts_interaction st) \<and>
            ts_submitting (fst (strip_handle event st)))"
proof -
  have ok: "ts_submitting st = ts_renamePending st" "ts_submitting st \<Longrightarrow> truthy_id (renamingId st)"
    using strip_reachable_ok [OF assms] by (auto simp: strip_ok_def)
  show ?thesis
    using ok
    by (cases event) (auto simp: handlePointerMove_def handlePointerUp_def handlePointerDown_def handleRenameKeyDown_def
        handleRenameBlur_def finishRename_def handleTabKeyDown_def handleDoubleClick_def handleRenameChange_def
        measure_titles_def strip_defs truthy_id_def Let_def split: option.splits if_splits rename_key.splits)
qed

definition example_renaming :: strip where
  "example_renaming = fst (strip_handle (Double_click (hd (strip_tabs example_items))) example_start)"

lemma example_renaming_reachable: "strip_reachable example_renaming"
proof -
  have "strip_reachable example_start"
    unfolding example_start_def by (intro strip_initial) (simp_all add: strip_tabs_def example_items_def)
  then show ?thesis
    unfolding example_renaming_def by (rule strip_event) (simp add: example_start_def initial_strip_def strip_tabs_def example_items_def)
qed

theorem rename_submitted_once_witness:
  "renamingId example_renaming = Some ''a'' \<and> ts_submitting (fst (strip_handle Rename_blur example_renaming))"
proof -
  have "snd (strip_handle Rename_blur example_renaming) = [Rename ''a'' ''A'']"
    by (simp add: example_renaming_def example_start_def initial_strip_def strip_tabs_def example_items_def handleDoubleClick_def
        beginRename_def handleRenameBlur_def finishRename_def strip_defs truthy_id_def trim_graphic graphic_char_def)
  then show ?thesis using rename_submitted_once [OF example_renaming_reachable, of "''a''" "''A''" Rename_blur] by simp
qed

text \<open>
  A second pointer that presses and lifts on a tab during a drag ends the drag without clearing it:
  the drag's order stays displayed and no later movement or lift of any pointer refers to it.
\<close>

theorem second_pointer_strands_drag:
  fixes tab :: string and pointerId :: int and clientX :: rat
  assumes "dragOrder st = Some order" and "\<not> truthy_id (renamingId st)"
  defines "stranded \<equiv> fst (handlePointerUp tab pointerId (handlePointerDown tab 0 pointerId clientX st))"
  shows "dragOrder stranded = Some order \<and> ts_dragRef stranded = None \<and>
         handlePointerMove anyPointer x stranded = (stranded, []) \<and> handlePointerUp anyTab anyPointer stranded = (stranded, [])"
  using assms by (simp add: handlePointerUp_def handlePointerDown_def handlePointerMove_def Let_def)

theorem second_pointer_strands_drag_witness:
  "dragOrder (fst (handlePointerUp ''b'' 2 (handlePointerDown ''b'' 0 2 60 example_dragged))) = Some [''b'', ''a'']"
proof -
  have "dragOrder example_dragged = Some [''b'', ''a'']" "\<not> truthy_id (renamingId example_dragged)" by code_simp+
  then show ?thesis using second_pointer_strands_drag by blast
qed

end
