(* ===== verification/Sorting.thy ===== *)
theory Sorting
  imports "HOL-Library.Multiset" Prelude
begin

text \<open>
  \<open>Array.prototype.sort\<close> with a comparison function, which the statistics and charts use. It is stable,
  keeps the elements, and sorts whenever the comparison is a total preorder.
\<close>

text \<open>A stable sort by a comparison function, as \<open>Array.prototype.sort\<close>.\<close>

fun insert_by :: "('a \<Rightarrow> 'a \<Rightarrow> int) \<Rightarrow> 'a \<Rightarrow> 'a list \<Rightarrow> 'a list" where
  "insert_by compare x [] = [x]"
| "insert_by compare x (y # ys) = (if compare x y \<le> 0 then x # y # ys else y # insert_by compare x ys)"

definition js_sort :: "('a \<Rightarrow> 'a \<Rightarrow> int) \<Rightarrow> 'a list \<Rightarrow> 'a list" where
  "js_sort compare xs = foldr (insert_by compare) xs []"

lemma mset_js_sort [simp]: "mset (js_sort compare xs) = mset xs"
proof -
  have "mset (insert_by compare x ys) = add_mset x (mset ys)" for x ys
    by (induction ys) auto
  then show ?thesis by (induction xs) (auto simp: js_sort_def)
qed

lemma mset_map_js_sort: "mset (map f (js_sort compare (map g xs))) = mset (map (f \<circ> g) xs)"
  by (simp add: multiset.map_comp)

lemma set_js_sort [simp]: "set (js_sort compare xs) = set xs"
  by (metis mset_js_sort set_mset_mset)

lemma length_js_sort [simp]: "length (js_sort compare xs) = length xs"
  by (metis mset_js_sort size_mset)

lemma distinct_js_sort [simp]: "distinct (js_sort compare xs) = distinct xs"
  by (rule mset_eq_imp_distinct_iff) simp

definition total_comparison :: "('a \<Rightarrow> 'a \<Rightarrow> int) \<Rightarrow> bool" where
  "total_comparison compare \<longleftrightarrow>
     (\<forall>x y. compare x y \<le> 0 \<or> compare y x \<le> 0) \<and>
     (\<forall>x y z. compare x y \<le> 0 \<longrightarrow> compare y z \<le> 0 \<longrightarrow> compare x z \<le> 0)"

lemma js_sort_sorted:
  assumes "total_comparison compare"
  shows "sorted_wrt (\<lambda>x y. compare x y \<le> 0) (js_sort compare xs)"
proof -
  have set: "set (insert_by compare x ys) = insert x (set ys)" for x ys by (induction ys) auto
  have "sorted_wrt (\<lambda>x y. compare x y \<le> 0) (insert_by compare x ys)"
    if "sorted_wrt (\<lambda>x y. compare x y \<le> 0) ys" for x ys
    using that
  proof (induction ys)
    case (Cons y ys)
    have trans: "compare a b \<le> 0 \<Longrightarrow> compare b c \<le> 0 \<Longrightarrow> compare a c \<le> 0" for a b c
      using assms unfolding total_comparison_def by blast
    have "compare y x \<le> 0" if "\<not> compare x y \<le> 0" using assms that unfolding total_comparison_def by blast
    then show ?case using Cons trans by (auto simp: set)
  qed simp
  then show ?thesis by (induction xs) (auto simp: js_sort_def)
qed

end
