(* ===== verification/Comparison.thy ===== *)
theory Comparison
  imports Js_Value "HOL-Library.Multiset" Complex_Main Sorting
begin

text \<open>
  The agreement statistics of an annotation page, \<open>features/tools/annotation/pageComparison.ts\<close>: the
  loop that pairs predictions with a comparison column and counts them, and the three coefficients it
  derives. Counts are natural numbers and the coefficients exact rationals: the rounding of the
  divisions is not modelled. \<open>String.prototype.localeCompare\<close>, which depends on the locale, is a
  parameter.
\<close>

subsection \<open>The loop\<close>

text \<open>A prediction is \<open>null\<close>, or its status with its label.\<close>

record prediction =
  pd_status :: string
  pd_label :: js

record matrix_cell =
  mc_annotation :: string
  mc_comparison :: string
  mc_count :: nat

record margin =
  mg_a :: nat
  mg_b :: nat

record tally =
  ty_included :: nat
  ty_excluded :: nat
  ty_agreements :: nat
  ty_matrix :: "matrix_cell list"
  ty_margins :: "(string \<times> margin) list"

definition valid_label :: "string list option \<Rightarrow> js \<Rightarrow> string option" where
  "valid_label codes v =
     (case v of
        JS_String s \<Rightarrow>
          if trim s = [] then None
          else (case codes of
                  None \<Rightarrow> Some (trim s)
                | Some known \<Rightarrow> if trim s \<in> set known then Some (trim s) else None)
      | _ \<Rightarrow> None)"

definition margin_of :: "(string \<times> margin) list \<Rightarrow> string \<Rightarrow> margin" where
  "margin_of margins label =
     (case map_of margins label of Some m \<Rightarrow> m | None \<Rightarrow> \<lparr>mg_a = 0, mg_b = 0\<rparr>)"

definition add_margins :: "string \<Rightarrow> string \<Rightarrow> (string \<times> margin) list \<Rightarrow> (string \<times> margin) list" where
  "add_margins a b margins =
     (let left = margin_of margins a;
          margins = AList.update a (left\<lparr>mg_a := mg_a left + 1\<rparr>) margins;
          right = margin_of margins b
      in AList.update b (right\<lparr>mg_b := mg_b right + 1\<rparr>) margins)"

fun count_pair :: "string \<Rightarrow> string \<Rightarrow> matrix_cell list \<Rightarrow> matrix_cell list" where
  "count_pair a b [] = [\<lparr>mc_annotation = a, mc_comparison = b, mc_count = 1\<rparr>]"
| "count_pair a b (cell # cells) =
     (if mc_annotation cell = a \<and> mc_comparison cell = b then cell\<lparr>mc_count := mc_count cell + 1\<rparr> # cells
      else cell # count_pair a b cells)"

definition page_label :: "string list option \<Rightarrow> prediction option \<Rightarrow> string option" where
  "page_label codes prediction =
     (case prediction of
        None \<Rightarrow> None
      | Some p \<Rightarrow> if pd_status p = ''success'' then valid_label codes (pd_label p) else None)"

definition compare_step :: "string list option \<Rightarrow> js list \<Rightarrow> nat \<times> prediction option \<Rightarrow> tally \<Rightarrow> tally" where
  "compare_step codes values entry result =
     (case entry of (index, prediction) \<Rightarrow>
       (case (page_label codes prediction,
              valid_label codes (if index < length values then values ! index else JS_Undefined)) of
          (Some a, Some b) \<Rightarrow>
            result\<lparr>ty_included := ty_included result + 1,
                    ty_agreements := ty_agreements result + (if a = b then 1 else 0),
                    ty_margins := add_margins a b (ty_margins result),
                    ty_matrix := count_pair a b (ty_matrix result)\<rparr>
        | _ \<Rightarrow> result\<lparr>ty_excluded := ty_excluded result + 1\<rparr>))"

definition compare_page :: "string list option \<Rightarrow> prediction option list \<Rightarrow> js list \<Rightarrow> tally" where
  "compare_page codes predictions values =
     fold (compare_step codes values) (enumerate 0 predictions)
       \<lparr>ty_included = 0, ty_excluded = 0, ty_agreements = 0, ty_matrix = [], ty_margins = []\<rparr>"

subsection \<open>The result\<close>

definition cell_order :: "(string \<Rightarrow> string \<Rightarrow> int) \<Rightarrow> matrix_cell \<Rightarrow> matrix_cell \<Rightarrow> int" where
  "cell_order localeCompare a b =
     (let order = localeCompare (mc_annotation a) (mc_annotation b)
      in if order \<noteq> 0 then order else localeCompare (mc_comparison a) (mc_comparison b))"

record comparison_result =
  cr_column :: string
  cr_included :: nat
  cr_excluded :: nat
  cr_agreement :: "rat option"
  cr_kappa :: "rat option"
  cr_alpha :: "rat option"
  cr_matrix :: "matrix_cell list"

definition expected_agreement :: "nat \<Rightarrow> (string \<times> margin) list \<Rightarrow> rat" where
  "expected_agreement n margins =
     fold (\<lambda>(label, m) sum. sum + (of_nat (mg_a m) / of_nat n) * (of_nat (mg_b m) / of_nat n)) margins 0"

definition same_ratings :: "(string \<times> margin) list \<Rightarrow> rat" where
  "same_ratings margins =
     fold (\<lambda>(label, m) sum. sum + of_nat (mg_a m + mg_b m) * (of_nat (mg_a m + mg_b m) - 1)) margins 0"

definition pageComparison ::
  "(string \<Rightarrow> string \<Rightarrow> int) \<Rightarrow> string \<Rightarrow> prediction option list \<Rightarrow> js list \<Rightarrow> string list option \<Rightarrow> comparison_result" where
  "pageComparison localeCompare column predictions values codes =
     (let result = compare_page codes predictions values;
          matrix = js_sort (cell_order localeCompare) (ty_matrix result);
          n = ty_included result
      in if n = 0
         then \<lparr>cr_column = column, cr_included = n, cr_excluded = ty_excluded result,
               cr_agreement = None, cr_kappa = None, cr_alpha = None, cr_matrix = matrix\<rparr>
         else let observed = of_nat (ty_agreements result) / of_nat n;
                  expected = expected_agreement n (ty_margins result);
                  ratings = 2 * of_nat n;
                  same = same_ratings (ty_margins result);
                  disagreement = 1 - same / (ratings * (ratings - 1))
              in \<lparr>cr_column = column, cr_included = n, cr_excluded = ty_excluded result,
                  cr_agreement = Some observed,
                  cr_kappa = (if expected < 1 then Some ((observed - expected) / (1 - expected)) else None),
                  cr_alpha = (if disagreement > 0 then Some (1 - (1 - observed) / disagreement) else None),
                  cr_matrix = matrix\<rparr>)"

subsection \<open>Reference: the pairs and the textbook coefficients\<close>

definition rated_pairs :: "string list option \<Rightarrow> prediction option list \<Rightarrow> js list \<Rightarrow> (string \<times> string) list" where
  "rated_pairs codes predictions values =
     List.map_filter (\<lambda>(index, prediction).
         case (page_label codes prediction, valid_label codes (if index < length values then values ! index else JS_Undefined)) of
           (Some a, Some b) \<Rightarrow> Some (a, b) | _ \<Rightarrow> None)
       (enumerate 0 predictions)"

definition labels_of :: "(string \<times> string) list \<Rightarrow> string set" where
  "labels_of pairs = fst ` set pairs \<union> snd ` set pairs"

definition by_first :: "(string \<times> string) list \<Rightarrow> string \<Rightarrow> nat" where
  "by_first pairs label = length (filter (\<lambda>p. fst p = label) pairs)"

definition by_second :: "(string \<times> string) list \<Rightarrow> string \<Rightarrow> nat" where
  "by_second pairs label = length (filter (\<lambda>p. snd p = label) pairs)"

definition observed_share :: "(string \<times> string) list \<Rightarrow> rat" where
  "observed_share pairs = of_nat (length (filter (\<lambda>p. fst p = snd p) pairs)) / of_nat (length pairs)"

text \<open>Cohen's chance agreement and Krippendorff's expected disagreement of nominal data.\<close>

definition chance_share :: "(string \<times> string) list \<Rightarrow> rat" where
  "chance_share pairs =
     (\<Sum>c \<in> labels_of pairs. of_nat (by_first pairs c) * of_nat (by_second pairs c)) / (of_nat (length pairs))\<^sup>2"

definition expected_disagreement :: "(string \<times> string) list \<Rightarrow> rat" where
  "expected_disagreement pairs =
     (let n = 2 * of_nat (length pairs); total = (\<lambda>c. of_nat (by_first pairs c + by_second pairs c))
      in 1 - (\<Sum>c \<in> labels_of pairs. total c * (total c - 1)) / (n * (n - 1)))"

subsection \<open>The loop counts the pairs\<close>

lemma rated_pairs_snoc:
  "rated_pairs codes (predictions @ [p]) values =
     rated_pairs codes predictions values @
     (case (page_label codes p, valid_label codes (if length predictions < length values then values ! length predictions else JS_Undefined)) of
        (Some a, Some b) \<Rightarrow> [(a, b)] | _ \<Rightarrow> [])"
  by (simp add: rated_pairs_def enumerate_append_eq List.map_filter_def split: option.split)

definition matrix_ok :: "(string \<times> string) list \<Rightarrow> matrix_cell list \<Rightarrow> bool" where
  "matrix_ok pairs cells \<longleftrightarrow>
     distinct (map (\<lambda>cell. (mc_annotation cell, mc_comparison cell)) cells) \<and>
     (\<lambda>cell. (mc_annotation cell, mc_comparison cell)) ` set cells = set pairs \<and>
     (\<forall>cell \<in> set cells. mc_count cell = count_list pairs (mc_annotation cell, mc_comparison cell))"

definition margins_ok :: "(string \<times> string) list \<Rightarrow> (string \<times> margin) list \<Rightarrow> bool" where
  "margins_ok pairs margins \<longleftrightarrow>
     distinct (map fst margins) \<and> fst ` set margins = labels_of pairs \<and>
     (\<forall>c. margin_of margins c = \<lparr>mg_a = by_first pairs c, mg_b = by_second pairs c\<rparr>)"

lemma margin_of_update:
  "margin_of (AList.update a m margins) c = (if c = a then m else margin_of margins c)"
  by (simp add: margin_of_def update_conv')

lemma labels_of_snoc: "labels_of (pairs @ [(a, b)]) = insert a (insert b (labels_of pairs))"
  by (auto simp: labels_of_def)

lemma add_margins_ok:
  assumes "margins_ok pairs margins"
  shows "margins_ok (pairs @ [(a, b)]) (add_margins a b margins)"
  using assms
  by (auto simp: margins_ok_def add_margins_def Let_def margin_of_update distinct_update dom_update labels_of_snoc
      by_first_def by_second_def)

lemma count_pair_keys:
  "map (\<lambda>cell. (mc_annotation cell, mc_comparison cell)) (count_pair a b cells) =
     (let keys = map (\<lambda>cell. (mc_annotation cell, mc_comparison cell)) cells
      in if (a, b) \<in> set keys then keys else keys @ [(a, b)])"
  by (induction cells) (auto simp: Let_def)

lemma count_pair_count:
  assumes "distinct (map (\<lambda>cell. (mc_annotation cell, mc_comparison cell)) cells)" "cell \<in> set (count_pair a b cells)"
  shows "if (mc_annotation cell, mc_comparison cell) = (a, b)
         then (\<exists>old \<in> set cells. (mc_annotation old, mc_comparison old) = (a, b) \<and> mc_count cell = mc_count old + 1) \<or>
              (a, b) \<notin> (\<lambda>cell. (mc_annotation cell, mc_comparison cell)) ` set cells \<and> mc_count cell = 1
         else cell \<in> set cells"
  using assms by (induction cells) (auto simp: image_iff split: if_splits)

lemma count_pair_ok:
  assumes ok: "matrix_ok pairs cells"
  shows "matrix_ok (pairs @ [(a, b)]) (count_pair a b cells)"
proof -
  let ?key = "\<lambda>cell. (mc_annotation cell, mc_comparison cell)"
  from ok have keys: "distinct (map ?key cells)" "?key ` set cells = set pairs"
    and counts: "\<And>cell. cell \<in> set cells \<Longrightarrow> mc_count cell = count_list pairs (?key cell)"
    by (simp_all add: matrix_ok_def)
  have "mc_count cell = count_list (pairs @ [(a, b)]) (?key cell)" if "cell \<in> set (count_pair a b cells)" for cell
    using count_pair_count [OF keys(1) that] counts keys(2)
    by (auto simp: count_list_0_iff split: if_splits)
  moreover have "distinct (map ?key (count_pair a b cells))"
    using keys by (simp add: count_pair_keys Let_def)
  moreover have "?key ` set (count_pair a b cells) = set (map ?key (count_pair a b cells))" by simp
  then have "?key ` set (count_pair a b cells) = set (pairs @ [(a, b)])"
    using keys(2) unfolding count_pair_keys by (auto simp: Let_def)
  ultimately show ?thesis by (simp add: matrix_ok_def)
qed

lemma compare_page_ok:
  defines "agreeing \<equiv> \<lambda>pairs. length (filter (\<lambda>p. fst p = snd p) pairs)"
  shows "let t = compare_page codes predictions values; pairs = rated_pairs codes predictions values
         in ty_included t = length pairs \<and> ty_included t + ty_excluded t = length predictions \<and>
            ty_agreements t = agreeing pairs \<and> margins_ok pairs (ty_margins t) \<and> matrix_ok pairs (ty_matrix t)"
proof (induction predictions rule: rev_induct)
  case Nil
  then show ?case
    by (simp add: compare_page_def rated_pairs_def List.map_filter_def agreeing_def margins_ok_def matrix_ok_def
        margin_of_def labels_of_def by_first_def by_second_def)
next
  case (snoc p predictions)
  have "compare_page codes (predictions @ [p]) values =
      compare_step codes values (length predictions, p) (compare_page codes predictions values)"
    by (simp add: compare_page_def enumerate_append_eq)
  then show ?case using snoc.IH
    by (auto simp: Let_def rated_pairs_snoc compare_step_def agreeing_def add_margins_ok count_pair_ok split: option.split)
qed

subsection \<open>The coefficients\<close>

lemma fold_sum:
  fixes t :: rat
  shows "fold (\<lambda>(label, m) total. total + g m) margins t = t + (\<Sum>(label, m) \<leftarrow> margins. g m)"
  by (induction margins arbitrary: t) (auto simp: add.assoc)

lemma sum_margins:
  fixes g :: "margin \<Rightarrow> rat"
  assumes "margins_ok pairs margins"
  shows "fold (\<lambda>(label, m) total. total + g m) margins 0 =
         (\<Sum>c \<in> labels_of pairs. g \<lparr>mg_a = by_first pairs c, mg_b = by_second pairs c\<rparr>)"
proof -
  have keys: "distinct (map fst margins)" "set (map fst margins) = labels_of pairs"
    and margins: "\<And>c. margin_of margins c = \<lparr>mg_a = by_first pairs c, mg_b = by_second pairs c\<rparr>"
    using assms by (simp_all add: margins_ok_def)
  have "map (\<lambda>(label, m). g m) margins = map (\<lambda>c. g (margin_of margins c)) (map fst margins)"
    using keys(1) by (auto simp: margin_of_def)
  then have "fold (\<lambda>(label, m) total. total + g m) margins 0 = sum_list (map (\<lambda>c. g (margin_of margins c)) (map fst margins))"
    by (simp only: fold_sum add_0)
  then show ?thesis by (simp only: sum_list_distinct_conv_sum_set [OF keys(1)] keys(2) margins)
qed

lemma distinct_cells_count:
  assumes "distinct (map (\<lambda>cell. (mc_annotation cell, mc_comparison cell)) cells)"
    and "\<forall>cell \<in> set cells. mc_count cell = count_list pairs (mc_annotation cell, mc_comparison cell)"
  shows "(\<Sum>cell \<leftarrow> filter (\<lambda>cell. mc_annotation cell = a \<and> mc_comparison cell = b) cells. mc_count cell) =
         (if (a, b) \<in> (\<lambda>cell. (mc_annotation cell, mc_comparison cell)) ` set cells then count_list pairs (a, b) else 0)"
  using assms by (induction cells) (auto simp: filter_empty_conv image_iff)

lemma matrix_count:
  assumes "matrix_ok pairs cells"
  shows "(\<Sum>cell \<leftarrow> filter (\<lambda>cell. mc_annotation cell = a \<and> mc_comparison cell = b) cells. mc_count cell) = count_list pairs (a, b)"
proof -
  have keys: "(\<lambda>cell. (mc_annotation cell, mc_comparison cell)) ` set cells = set pairs" using assms by (simp only: matrix_ok_def)
  have "distinct (map (\<lambda>cell. (mc_annotation cell, mc_comparison cell)) cells)"
    "\<forall>cell \<in> set cells. mc_count cell = count_list pairs (mc_annotation cell, mc_comparison cell)"
    using assms unfolding matrix_ok_def by blast+
  from distinct_cells_count [OF this, unfolded keys, of a b] show ?thesis by (simp split: if_splits)
qed

lemma filter_sum_mset_cong:
  assumes "mset xs = mset ys"
  shows "sum_list (map f (filter P xs)) = sum_list (map f (filter P ys) :: nat list)"
proof -
  have "mset (map f (filter P xs)) = mset (map f (filter P ys))" using assms by simp
  then show ?thesis by (metis sum_mset_sum_list)
qed

lemma pageComparison_coefficients:
  "let pairs = rated_pairs codes predictions values;
       result = pageComparison localeCompare column predictions values codes
   in cr_agreement result = (if pairs = [] then None else Some (observed_share pairs)) \<and>
      cr_kappa result =
        (if pairs = [] \<or> chance_share pairs \<ge> 1 then None
         else Some ((observed_share pairs - chance_share pairs) / (1 - chance_share pairs))) \<and>
      cr_alpha result =
        (if pairs = [] \<or> expected_disagreement pairs \<le> 0 then None
         else Some (1 - (1 - observed_share pairs) / expected_disagreement pairs))"
proof -
  define pairs where "pairs = rated_pairs codes predictions values"
  define t where "t = compare_page codes predictions values"
  have counted: "ty_included t = length pairs" "ty_agreements t = length (filter (\<lambda>p. fst p = snd p) pairs)" "margins_ok pairs (ty_margins t)"
    using compare_page_ok [of codes predictions "values"] by (auto simp: Let_def t_def pairs_def)
  have chance: "expected_agreement (length pairs) (ty_margins t) = chance_share pairs"
    unfolding expected_agreement_def sum_margins [OF counted(3)] chance_share_def
    by (simp add: sum_divide_distrib power2_eq_square)
  have same: "1 - same_ratings (ty_margins t) / (2 * of_nat (length pairs) * (2 * of_nat (length pairs) - 1)) = expected_disagreement pairs"
    unfolding same_ratings_def sum_margins [OF counted(3)] expected_disagreement_def by (simp add: Let_def)
  show ?thesis
    unfolding Let_def pageComparison_def t_def [symmetric] pairs_def [symmetric] counted(1) chance same
    using counted by (auto simp: observed_share_def not_le not_less)
qed

lemma pageComparison_counts:
  "let t = compare_page codes predictions values;
       result = pageComparison localeCompare column predictions values codes
   in cr_included result = ty_included t \<and> cr_excluded result = ty_excluded t \<and>
      cr_matrix result = js_sort (cell_order localeCompare) (ty_matrix t)"
  by (simp add: pageComparison_def Let_def)

text \<open>
  C33: the statistics of an annotation page are the textbook ones: over the pairs of valid labels of the
  page, with every other row excluded, the matrix counts every pair once, the agreement is the
  observed share of equal labels, kappa is Cohen's coefficient, given exactly when chance agreement
  is below one, and alpha is Krippendorff's nominal coefficient, given exactly when some
  disagreement is expected.
\<close>

theorem pageComparison_statistics:
  "let pairs = rated_pairs codes predictions values;
       result = pageComparison localeCompare column predictions values codes
   in cr_included result = length pairs \<and>
      cr_included result + cr_excluded result = length predictions \<and>
      (\<forall>a b. (\<Sum>cell \<leftarrow> filter (\<lambda>cell. mc_annotation cell = a \<and> mc_comparison cell = b) (cr_matrix result). mc_count cell) =
             count_list pairs (a, b)) \<and>
      cr_agreement result = (if pairs = [] then None else Some (observed_share pairs)) \<and>
      cr_kappa result =
        (if pairs = [] \<or> chance_share pairs \<ge> 1 then None
         else Some ((observed_share pairs - chance_share pairs) / (1 - chance_share pairs))) \<and>
      cr_alpha result =
        (if pairs = [] \<or> expected_disagreement pairs \<le> 0 then None
         else Some (1 - (1 - observed_share pairs) / expected_disagreement pairs))"
  using compare_page_ok [of codes predictions "values"] pageComparison_counts [of codes predictions "values" localeCompare column]
    pageComparison_coefficients [of codes predictions "values" localeCompare column]
  unfolding Let_def by (simp add: filter_sum_mset_cong [OF mset_js_sort] matrix_count)

text \<open>
  The coefficients of a page are in range and read as intended: agreement lies between zero and one,
  kappa and alpha are at most one, and where one of them is given it is one exactly when all the
  labels that were compared agree.
\<close>

theorem pageComparison_perfect:
  fixes localeCompare column predictions "values" codes
  defines "result \<equiv> pageComparison localeCompare column predictions values codes"
    and "pairs \<equiv> rated_pairs codes predictions values"
  shows "(\<forall>s. cr_agreement result = Some s \<longrightarrow> 0 \<le> s \<and> s \<le> 1) \<and>
         (\<forall>k. cr_kappa result = Some k \<or> cr_alpha result = Some k \<longrightarrow> k \<le> 1 \<and> (k = 1 \<longleftrightarrow> (\<forall>(a, b) \<in> set pairs. a = b)))"
proof (cases "pairs = []")
  case True
  then show ?thesis using pageComparison_coefficients [of codes predictions "values" localeCompare column]
    by (simp add: Let_def result_def pairs_def)
next
  case False
  let ?equal = "filter (\<lambda>p. fst p = snd p) pairs"
  have share: "0 \<le> observed_share pairs" "observed_share pairs \<le> 1"
    using False by (simp_all add: observed_share_def divide_le_eq_1)
  have "observed_share pairs = 1 \<longleftrightarrow> length ?equal = length pairs" using False by (auto simp: observed_share_def)
  also have "\<dots> \<longleftrightarrow> (\<forall>(a, b) \<in> set pairs. a = b)"
    by (metis (mono_tags, lifting) case_prod_beta' filter_True length_filter_less nat_neq_iff)
  finally have perfect: "observed_share pairs = 1 \<longleftrightarrow> (\<forall>(a, b) \<in> set pairs. a = b)" .
  have "k \<le> 1 \<and> (k = 1 \<longleftrightarrow> observed_share pairs = 1)" if "cr_kappa result = Some k" for k
    using that share pageComparison_coefficients [of codes predictions "values" localeCompare column]
    by (auto simp: Let_def result_def pairs_def divide_le_eq_1 divide_eq_1_iff split: if_splits)
  moreover have "k \<le> 1 \<and> (k = 1 \<longleftrightarrow> observed_share pairs = 1)" if "cr_alpha result = Some k" for k
    using that share pageComparison_coefficients [of codes predictions "values" localeCompare column]
    by (auto simp: Let_def result_def pairs_def divide_nonneg_pos split: if_splits)
  moreover have "cr_agreement result = Some (observed_share pairs)"
    using False pageComparison_coefficients [of codes predictions "values" localeCompare column]
    by (simp add: Let_def result_def pairs_def)
  ultimately show ?thesis using share perfect by auto
qed

definition example_predictions :: "prediction option list" where
  "example_predictions =
     [Some \<lparr>pd_status = ''success'', pd_label = JS_String ''a''\<rparr>, Some \<lparr>pd_status = ''success'', pd_label = JS_String ''b''\<rparr>, None]"

definition example_values :: "js list" where
  "example_values = [JS_String ''a'', JS_String ''b'']"

lemma example_tally:
  "compare_page None example_predictions example_values =
     \<lparr>ty_included = 2, ty_excluded = 1, ty_agreements = 2,
      ty_matrix = [\<lparr>mc_annotation = ''a'', mc_comparison = ''a'', mc_count = 1\<rparr>, \<lparr>mc_annotation = ''b'', mc_comparison = ''b'', mc_count = 1\<rparr>],
      ty_margins = [(''a'', \<lparr>mg_a = 1, mg_b = 1\<rparr>), (''b'', \<lparr>mg_a = 1, mg_b = 1\<rparr>)]\<rparr>"
proof -
  have labels: "trim ''a'' = ''a''" "trim ''b'' = ''b''" by (simp_all add: trim_graphic graphic_char_def)
  show ?thesis
    by (simp add: compare_page_def compare_step_def example_predictions_def example_values_def page_label_def
        valid_label_def labels add_margins_def margin_of_def Let_def)
qed

theorem pageComparison_perfect_witness:
  "cr_kappa (pageComparison (\<lambda>a b. 0) [] example_predictions example_values None) = Some 1 \<and> (1::rat) \<le> 1"
proof -
  have "cr_kappa (pageComparison (\<lambda>a b. 0) [] example_predictions example_values None) = Some 1"
    by (simp add: pageComparison_def Let_def example_tally expected_agreement_def)
  then show ?thesis using pageComparison_perfect by blast
qed

end
