(* ===== verification/Splits.thy ===== *)
theory Splits
  imports Prelude "HOL-Library.AList" Complex_Main
begin

text \<open>
  The stacked sections of the sidebar, \<open>components/layout/sidebar/useStackedSplits.ts\<close>: the collapse
  map, the height ratios, the drag of a boundary with its clamping and overflow scrolling, and the
  keyboard steps. Ratios and pixels are exact rationals. What the layout engine measures, the height
  of the container and of every section, is an argument of the handlers; scrolling an element is a
  call they return.
\<close>

record split_options =
  so_keys :: "string list"
  so_minSectionPx :: rat
  so_sectionMinPx :: "string \<Rightarrow> rat option"
  so_contentSized :: "string list"
  so_initialRatios :: "string \<Rightarrow> rat option"
  so_initialCollapsed :: "string \<Rightarrow> bool option"

text \<open>What the closures of a drag have captured.\<close>

record split_drag =
  sd_upper :: string
  sd_lower :: string
  sd_pointerId :: int
  sd_startY :: rat
  sd_height :: rat
  sd_startUpper :: rat
  sd_pairTotal :: rat
  sd_minUpper :: rat
  sd_maxUpper :: rat

record split_state =
  sp_collapsed :: "(string \<times> bool) list"
  sp_heights :: "(string \<times> rat) list"
  sp_resized :: "string list"
  sp_containerHeight :: rat
  sp_drag :: "split_drag option"

record measurement =
  ms_container :: rat
  ms_section :: "string \<Rightarrow> rat option"

datatype scroll_call = Scroll string rat

abbreviation lookup_or :: "'v \<Rightarrow> (string \<times> 'v) list \<Rightarrow> string \<Rightarrow> 'v" where
  "lookup_or d ps k \<equiv> (case map_of ps k of Some v \<Rightarrow> v | None \<Rightarrow> d)"

definition ratio_at :: "(string \<times> rat) list \<Rightarrow> string \<Rightarrow> rat" where
  "ratio_at ratios key = lookup_or 0 ratios key"

definition initial_splits :: "split_options \<Rightarrow> split_state" where
  "initial_splits options =
     (let keys = so_keys options;
          defaultRatio = (if keys \<noteq> [] then 1 / of_nat (length keys) else 0)
      in \<lparr>sp_collapsed = fold (\<lambda>key seed. AList.update key (case so_initialCollapsed options key of Some b \<Rightarrow> b | None \<Rightarrow> False) seed) keys [],
          sp_heights = fold (\<lambda>key seed. AList.update key (case so_initialRatios options key of Some r \<Rightarrow> r | None \<Rightarrow> defaultRatio) seed) keys [],
          sp_resized = [], sp_containerHeight = 0, sp_drag = None\<rparr>)"

definition isCollapsed :: "split_state \<Rightarrow> string \<Rightarrow> bool" where
  "isCollapsed st key = lookup_or False (sp_collapsed st) key"

definition toggleSection :: "string \<Rightarrow> split_state \<Rightarrow> split_state" where
  "toggleSection key st = st\<lparr>sp_collapsed := AList.update key (\<not> isCollapsed st key) (sp_collapsed st)\<rparr>"

text \<open>A content-sized section that was never resized.\<close>

definition fits_content :: "split_options \<Rightarrow> split_state \<Rightarrow> string \<Rightarrow> bool" where
  "fits_content options st key \<longleftrightarrow> key \<in> set (so_contentSized options) \<and> key \<notin> set (sp_resized st)"

definition activeSectionTotal :: "split_options \<Rightarrow> split_state \<Rightarrow> rat" where
  "activeSectionTotal options st =
     (let sum = fold (\<lambda>key sum. if isCollapsed st key \<or> fits_content options st key then sum
                               else sum + ratio_at (sp_heights st) key) (so_keys options) 0
      in if sum = 0 then 1 else sum)"

datatype flex_style = Flex_collapsed | Flex_content rat | Flex_ratio rat

definition minPx :: "split_options \<Rightarrow> string \<Rightarrow> rat" where
  "minPx options key = (case so_sectionMinPx options key of Some px \<Rightarrow> px | None \<Rightarrow> so_minSectionPx options)"

definition getSectionFlexStyle :: "split_options \<Rightarrow> split_state \<Rightarrow> string \<Rightarrow> flex_style" where
  "getSectionFlexStyle options st key =
     (if isCollapsed st key then Flex_collapsed
      else if fits_content options st key then Flex_content (minPx options key)
      else Flex_ratio (ratio_at (sp_heights st) key / activeSectionTotal options st))"

subsection \<open>Dragging a boundary\<close>

text \<open>
  \<open>(measured height ?? 0) / height || sectionHeights[key] || 0\<close>; the quotient is a number because the
  height is positive.
\<close>

definition measured_ratio :: "measurement \<Rightarrow> rat \<Rightarrow> split_state \<Rightarrow> string \<Rightarrow> rat" where
  "measured_ratio m height st key =
     (let rendered = (case ms_section m key of Some px \<Rightarrow> px | None \<Rightarrow> 0) / height
      in if rendered \<noteq> 0 then rendered else ratio_at (sp_heights st) key)"

definition measured_heights :: "split_options \<Rightarrow> measurement \<Rightarrow> rat \<Rightarrow> split_state \<Rightarrow> (string \<times> rat) list" where
  "measured_heights options m height st = map (\<lambda>key. (key, measured_ratio m height st key)) (so_keys options)"

definition minRatioFor :: "split_options \<Rightarrow> rat \<Rightarrow> string \<Rightarrow> rat" where
  "minRatioFor options height key = max (minPx options key / height) (2 / 100)"

text \<open>The minimum ratios of a pair, scaled down when the pair is too small for them.\<close>

definition pair_minimums :: "rat \<Rightarrow> rat \<Rightarrow> rat \<Rightarrow> (rat \<times> rat) option" where
  "pair_minimums minUpper minLower pairTotal =
     (if minUpper + minLower \<ge> pairTotal
      then let scale = (pairTotal - 2 / 100) / (minUpper + minLower)
           in if scale \<le> 0 then None else Some (minUpper * scale, minLower * scale)
      else Some (minUpper, minLower))"

definition add_resized :: "string list \<Rightarrow> split_state \<Rightarrow> split_state" where
  "add_resized added st =
     st\<lparr>sp_resized := fold (\<lambda>key seen. if key \<in> set seen then seen else seen @ [key]) added (sp_resized st)\<rparr>"

definition drag_height :: "measurement \<Rightarrow> split_state \<Rightarrow> rat" where
  "drag_height m st =
     (if sp_containerHeight st > 0 then sp_containerHeight st else if ms_container m > 0 then ms_container m else 1)"

definition handleResizeStart ::
  "split_options \<Rightarrow> measurement \<Rightarrow> string \<Rightarrow> string \<Rightarrow> int \<Rightarrow> int \<Rightarrow> rat \<Rightarrow> split_state \<Rightarrow> split_state" where
  "handleResizeStart options m upperKey lowerKey button pointerId clientY st =
     (if button \<noteq> 0 \<or> isCollapsed st upperKey \<or> isCollapsed st lowerKey then st
      else
        let height = drag_height m st;
            measured = measured_heights options m height st;
            startUpper = ratio_at measured upperKey;
            startLower = ratio_at measured lowerKey;
            pairTotal = startUpper + startLower
        in if pairTotal \<le> 0 then st
           else case pair_minimums (minRatioFor options height upperKey) (minRatioFor options height lowerKey) pairTotal of
                  None \<Rightarrow> st
                | Some (minUpper, minLower) \<Rightarrow>
                    if pairTotal - minLower \<le> minUpper then st
                    else (add_resized [upperKey, lowerKey] st)
                           \<lparr>sp_heights := measured,
                            sp_drag := Some \<lparr>sd_upper = upperKey, sd_lower = lowerKey, sd_pointerId = pointerId,
                              sd_startY = clientY, sd_height = height, sd_startUpper = startUpper,
                              sd_pairTotal = pairTotal, sd_minUpper = minUpper, sd_maxUpper = pairTotal - minLower\<rparr>\<rparr>)"

definition drag_section_move :: "int \<Rightarrow> rat \<Rightarrow> split_state \<Rightarrow> split_state \<times> scroll_call list" where
  "drag_section_move pointerId clientY st =
     (case sp_drag st of
        None \<Rightarrow> (st, [])
      | Some d \<Rightarrow>
          if pointerId \<noteq> sd_pointerId d then (st, [])
          else
            let candidateUpper = sd_startUpper d + (clientY - sd_startY d) / sd_height d;
                (nextUpper, overflowTarget, overflowRatio) =
                  (if candidateUpper < sd_minUpper d then (sd_minUpper d, Some (sd_upper d), candidateUpper - sd_minUpper d)
                   else if candidateUpper > sd_maxUpper d then (sd_maxUpper d, Some (sd_lower d), candidateUpper - sd_maxUpper d)
                   else (candidateUpper, None, 0));
                nextLower = sd_pairTotal d - nextUpper
            in (st\<lparr>sp_heights := AList.update (sd_lower d) nextLower (AList.update (sd_upper d) nextUpper (sp_heights st))\<rparr>,
                case overflowTarget of
                  Some key \<Rightarrow> if overflowRatio \<noteq> 0 then [Scroll key (overflowRatio * sd_height d)] else []
                | None \<Rightarrow> []))"

definition drag_section_end :: "int \<Rightarrow> split_state \<Rightarrow> split_state" where
  "drag_section_end pointerId st =
     (case sp_drag st of
        Some d \<Rightarrow> if sd_pointerId d = pointerId then st\<lparr>sp_drag := None\<rparr> else st
      | None \<Rightarrow> st)"

subsection \<open>Keyboard\<close>

datatype resize_key = Resize_up | Resize_down | Resize_other

definition handleResizeKey ::
  "split_options \<Rightarrow> measurement \<Rightarrow> string \<Rightarrow> string \<Rightarrow> resize_key \<Rightarrow> split_state \<Rightarrow> split_state" where
  "handleResizeKey options m upper lower key st =
     (if key = Resize_other \<or> isCollapsed st upper \<or> isCollapsed st lower then st
      else
        let height = (if ms_container m \<noteq> 0 then ms_container m else sp_containerHeight st)
        in if height = 0 then st
           else
             let measured = measured_heights options m height st;
                 pairTotal = ratio_at measured upper + ratio_at measured lower
             in case pair_minimums (minRatioFor options height upper) (minRatioFor options height lower) pairTotal of
                  None \<Rightarrow> st
                | Some (minUpper, minLower) \<Rightarrow>
                    let next = max minUpper (min (pairTotal - minLower)
                                 (ratio_at measured upper + (if key = Resize_up then - (3 / 100) else 3 / 100)))
                    in add_resized [upper, lower]
                         (st\<lparr>sp_heights := AList.update lower (pairTotal - next) (AList.update upper next measured)\<rparr>))"

subsection \<open>Runs\<close>

datatype split_event =
    Toggle string
  | Container_resized rat
  | Resize_start measurement string string int int rat
  | Resize_move int rat
  | Resize_end int
  | Resize_key measurement string string resize_key

fun split_handle :: "split_options \<Rightarrow> split_event \<Rightarrow> split_state \<Rightarrow> split_state \<times> scroll_call list" where
  "split_handle options (Toggle key) st = (toggleSection key st, [])"
| "split_handle options (Container_resized height) st = (st\<lparr>sp_containerHeight := height\<rparr>, [])"
| "split_handle options (Resize_start m upper lower button pointerId clientY) st =
     (handleResizeStart options m upper lower button pointerId clientY st, [])"
| "split_handle options (Resize_move pointerId clientY) st = drag_section_move pointerId clientY st"
| "split_handle options (Resize_end pointerId) st = (drag_section_end pointerId st, [])"
| "split_handle options (Resize_key m upper lower key) st = (handleResizeKey options m upper lower key st, [])"

text \<open>Separators stand between two different sections; measured heights are not negative.\<close>

fun split_admits :: "split_options \<Rightarrow> split_event \<Rightarrow> bool" where
  "split_admits options (Container_resized height) = (height \<ge> 0)"
| "split_admits options (Resize_start m upper lower button pointerId clientY) =
     (upper \<noteq> lower \<and> upper \<in> set (so_keys options) \<and> lower \<in> set (so_keys options))"
| "split_admits options (Resize_key m upper lower key) =
     (upper \<noteq> lower \<and> upper \<in> set (so_keys options) \<and> lower \<in> set (so_keys options) \<and> ms_container m \<ge> 0)"
| "split_admits options _ = True"

inductive splits_reachable :: "split_options \<Rightarrow> split_state \<Rightarrow> bool" for options where
  splits_initial: "splits_reachable options (initial_splits options)"
| splits_event: "splits_reachable options st \<Longrightarrow> split_admits options event \<Longrightarrow>
     splits_reachable options (fst (split_handle options event st))"

subsection \<open>The drag keeps its bounds\<close>

definition drag_ok :: "split_drag \<Rightarrow> bool" where
  "drag_ok d \<longleftrightarrow> sd_upper d \<noteq> sd_lower d \<and> 0 < sd_height d \<and> 0 < sd_minUpper d \<and>
     sd_minUpper d < sd_maxUpper d \<and> sd_maxUpper d < sd_pairTotal d"

lemma minRatioFor_pos: "0 < minRatioFor options height key"
  by (simp add: minRatioFor_def less_max_iff_disj)

lemma pair_minimums_bounds:
  assumes "pair_minimums minUpper minLower pairTotal = Some (a, b)" "0 < minUpper" "0 < minLower"
  shows "0 < a \<and> 0 < b \<and> a + b < pairTotal"
proof (cases "minUpper + minLower \<ge> pairTotal")
  case True
  define scale where "scale = (pairTotal - 2 / 100) / (minUpper + minLower)"
  have eq: "a = minUpper * scale" "b = minLower * scale" "0 < scale"
    using assms(1) True by (auto simp: pair_minimums_def Let_def scale_def split: if_splits)
  have "a + b = (minUpper + minLower) * scale" by (simp add: eq distrib_right)
  also have "\<dots> = pairTotal - 2 / 100" using assms by (simp add: scale_def)
  finally show ?thesis using eq assms by simp
qed (use assms in \<open>auto simp: pair_minimums_def\<close>)

lemma handleResizeStart_drag:
  assumes "sp_drag (handleResizeStart options m upper lower button pointerId clientY st) = Some d"
    and "sp_drag st = Some d \<Longrightarrow> drag_ok d" and "upper \<noteq> lower"
  shows "drag_ok d"
proof -
  have "0 < drag_height m st" by (simp add: drag_height_def)
  moreover note pair_minimums_bounds [OF _ minRatioFor_pos [of options "drag_height m st" upper] minRatioFor_pos [of options "drag_height m st" lower]]
  ultimately show ?thesis
    using assms unfolding handleResizeStart_def Let_def
    by (auto simp: drag_ok_def split: if_splits option.splits)
qed

lemma handleResizeKey_drag: "sp_drag (handleResizeKey options m upper lower key st) = sp_drag st"
  unfolding handleResizeKey_def Let_def add_resized_def by (simp split: option.split prod.split)

lemma splits_drag_ok: "splits_reachable options st \<Longrightarrow> sp_drag st = Some d \<Longrightarrow> drag_ok d"
proof (induction arbitrary: d rule: splits_reachable.induct)
  case splits_initial
  then show ?case by (simp add: initial_splits_def Let_def)
next
  case (splits_event st event)
  show ?case
  proof (cases event)
    case (Resize_start m upper lower button pointerId clientY)
    then show ?thesis using handleResizeStart_drag splits_event by fastforce
  next
    case (Resize_move pointerId clientY)
    then show ?thesis using splits_event by (auto simp: drag_section_move_def Let_def split: option.splits if_splits)
  next
    case (Resize_end pointerId)
    then show ?thesis using splits_event by (auto simp: drag_section_end_def split: option.splits if_splits)
  next
    case (Resize_key m upper lower key)
    then show ?thesis using splits_event by (simp add: handleResizeKey_drag)
  qed (use splits_event in \<open>auto simp: toggleSection_def\<close>)
qed

lemma ratio_at_update: "ratio_at (AList.update k v ratios) key = (if key = k then v else ratio_at ratios key)"
  by (simp add: ratio_at_def update_conv')

text \<open>
  Dragging a boundary of the sidebar conserves space: in every reachable drag each movement keeps
  the total of the two sections, gives each of them at least its minimum, which is positive, and leaves
  every other section alone; and no movement is lost: what the sections cannot take up is scrolled, to
  the pixel.
\<close>

theorem drag_conserves_pair:
  fixes clientY :: rat
  assumes "splits_reachable options st" and "sp_drag st = Some d"
  defines "after \<equiv> drag_section_move (sd_pointerId d) clientY st"
  defines "ratio \<equiv> ratio_at (sp_heights (fst after))"
  shows "ratio (sd_upper d) + ratio (sd_lower d) = sd_pairTotal d \<and>
         0 < sd_minUpper d \<and> sd_minUpper d \<le> ratio (sd_upper d) \<and>
         0 < sd_pairTotal d - sd_maxUpper d \<and> sd_pairTotal d - sd_maxUpper d \<le> ratio (sd_lower d) \<and>
         (\<forall>key. key \<noteq> sd_upper d \<longrightarrow> key \<noteq> sd_lower d \<longrightarrow> ratio key = ratio_at (sp_heights st) key) \<and>
         sd_startUpper d * sd_height d + (clientY - sd_startY d) =
           ratio (sd_upper d) * sd_height d + (\<Sum>call \<leftarrow> snd after. case call of Scroll key pixels \<Rightarrow> pixels)"
proof -
  note ok = splits_drag_ok [OF assms(1,2), unfolded drag_ok_def]
  have travelled: "(sd_startUpper d + (clientY - sd_startY d) / sd_height d) * sd_height d =
      sd_startUpper d * sd_height d + (clientY - sd_startY d)" using ok by (simp add: distrib_right)
  show ?thesis
    using ok travelled assms(2) unfolding ratio_def after_def drag_section_move_def
    by (auto simp: Let_def ratio_at_update algebra_simps)
qed

definition example_options :: split_options where
  "example_options = \<lparr>so_keys = [''a'', ''b''], so_minSectionPx = 100, so_sectionMinPx = (\<lambda>key. None), so_contentSized = [],
     so_initialRatios = (\<lambda>key. None), so_initialCollapsed = (\<lambda>key. None)\<rparr>"

definition example_measurement :: measurement where
  "example_measurement = \<lparr>ms_container = 1000, ms_section = (\<lambda>key. Some 500)\<rparr>"

definition example_drag :: split_drag where
  "example_drag = \<lparr>sd_upper = ''a'', sd_lower = ''b'', sd_pointerId = 1, sd_startY = 500, sd_height = 1000,
     sd_startUpper = 1 / 2, sd_pairTotal = 1, sd_minUpper = 1 / 10, sd_maxUpper = 9 / 10\<rparr>"

definition example_dragging :: split_state where
  "example_dragging = handleResizeStart example_options example_measurement ''a'' ''b'' 0 1 500 (initial_splits example_options)"

lemma example_dragging_drag: "sp_drag example_dragging = Some example_drag"
  by (simp add: example_dragging_def handleResizeStart_def initial_splits_def example_options_def example_measurement_def
      example_drag_def isCollapsed_def drag_height_def measured_heights_def measured_ratio_def ratio_at_def minRatioFor_def
      minPx_def pair_minimums_def add_resized_def Let_def)

lemma example_dragging_reachable: "splits_reachable example_options example_dragging"
  using splits_event [OF splits_initial, of example_options "Resize_start example_measurement ''a'' ''b'' 0 1 500"]
  by (simp add: example_dragging_def example_options_def)

theorem drag_conserves_pair_witness:
  "ratio_at (sp_heights (fst (drag_section_move 1 950 example_dragging))) ''a'' +
   ratio_at (sp_heights (fst (drag_section_move 1 950 example_dragging))) ''b'' = 1 \<and>
   snd (drag_section_move 1 950 example_dragging) = [Scroll ''b'' 50]"
proof
  show "ratio_at (sp_heights (fst (drag_section_move 1 950 example_dragging))) ''a'' +
      ratio_at (sp_heights (fst (drag_section_move 1 950 example_dragging))) ''b'' = 1"
    using drag_conserves_pair [OF example_dragging_reachable example_dragging_drag, of 950] by (simp add: example_drag_def)
  show "snd (drag_section_move 1 950 example_dragging) = [Scroll ''b'' 50]"
    by (simp add: drag_section_move_def example_dragging_drag example_drag_def Let_def)
qed

text \<open>
  A keyboard step on a boundary of the sidebar is safe: when it changes the ratios, the two
  sections keep the total they were measured with, both stay positive, and every other section keeps
  its measured ratio.
\<close>

theorem key_step_conserves_pair:
  assumes "upper \<noteq> lower" and "handleResizeKey options m upper lower key st \<noteq> st"
  shows "let height = (if ms_container m \<noteq> 0 then ms_container m else sp_containerHeight st);
             before = ratio_at (measured_heights options m height st);
             after = ratio_at (sp_heights (handleResizeKey options m upper lower key st))
         in after upper + after lower = before upper + before lower \<and> 0 < after upper \<and> 0 < after lower \<and>
            (\<forall>other. other \<noteq> upper \<longrightarrow> other \<noteq> lower \<longrightarrow> after other = before other)"
proof -
  define height where "height = (if ms_container m \<noteq> 0 then ms_container m else sp_containerHeight st)"
  define before where "before = measured_heights options m height st"
  define both where "both = ratio_at before upper + ratio_at before lower"
  define target where "target = ratio_at before upper + (if key = Resize_up then - (3 / 100) else 3 / 100)"
  obtain a b where pair: "pair_minimums (minRatioFor options height upper) (minRatioFor options height lower) both = Some (a, b)"
    and next_state: "handleResizeKey options m upper lower key st =
      add_resized [upper, lower] (st\<lparr>sp_heights :=
        AList.update lower (both - max a (min (both - b) target)) (AList.update upper (max a (min (both - b) target)) before)\<rparr>)"
    using assms(2) unfolding handleResizeKey_def Let_def height_def [symmetric] before_def [symmetric] both_def [symmetric] target_def [symmetric]
    by (cases "pair_minimums (minRatioFor options height upper) (minRatioFor options height lower) both") (auto split: if_splits)
  have "0 < max a (min (both - b) target)" "max a (min (both - b) target) < both"
    using pair_minimums_bounds [OF pair minRatioFor_pos minRatioFor_pos] by (auto simp: less_max_iff_disj min_less_iff_disj)
  then show ?thesis
    unfolding Let_def height_def [symmetric] before_def [symmetric] next_state
    using assms(1) by (simp add: add_resized_def ratio_at_update both_def)
qed

theorem key_step_conserves_pair_witness:
  "0 < ratio_at (sp_heights (handleResizeKey example_options example_measurement ''a'' ''b'' Resize_up (initial_splits example_options))) ''a''"
proof -
  let ?before = "initial_splits example_options"
  have "sp_resized (handleResizeKey example_options example_measurement ''a'' ''b'' Resize_up ?before) \<noteq> sp_resized ?before"
    by (simp add: handleResizeKey_def initial_splits_def example_options_def example_measurement_def isCollapsed_def
        measured_heights_def measured_ratio_def ratio_at_def minRatioFor_def minPx_def pair_minimums_def add_resized_def Let_def)
  then have "handleResizeKey example_options example_measurement ''a'' ''b'' Resize_up ?before \<noteq> ?before" by metis
  then show ?thesis
    using key_step_conserves_pair [of "''a''" "''b''" example_options example_measurement Resize_up ?before] by (simp add: Let_def)
qed

end
