(* ===== verification/Column_Edits.thy ===== *)
theory Column_Edits
  imports Prelude
begin

text \<open>
  Column changes of a table: the reducer of \<open>features/project/data-view/hooks/columnMutationState.ts\<close>
  and the operations of \<open>useColumnMutations.ts\<close> that cast, rename and delete columns. Operations that
  await a request are split there: the first part starts a change, the second runs when it settles, and
  any other event may come between them. A callback the table passes is named by the table that passed
  it, and a dialog's request by the number of the object, since the reducer compares requests by identity.
\<close>

subsection \<open>The reducer of the dialogs\<close>

text \<open>A cast target is a type name or \<open>{ sqlType }\<close>.\<close>

datatype cast_type = Cast_name string | Cast_sql string

record pending_cast =
  pc_object :: nat
  pc_column :: string
  pc_target :: cast_type
  pc_execute :: nat

record pending_sql =
  ps_object :: nat
  ps_column :: string
  ps_nodeName :: string
  ps_execute :: nat

record column_state =
  cs_renamingColumn :: "string option"
  cs_datetimeModal :: "pending_cast option"
  cs_sqlTypeModal :: "pending_sql option"
  cs_columnToDelete :: "string option"

datatype column_action =
    DatetimeRequested pending_cast
  | DatetimeClosed "pending_cast option"
  | SqlTypeRequested pending_sql
  | SqlTypeClosed pending_sql
  | ColumnRenameStarted string
  | ColumnRenameClosed
  | DeleteRequested string
  | DeleteDialogChanged bool

definition createColumnMutationState :: column_state where
  "createColumnMutationState =
     \<lparr>cs_renamingColumn = None, cs_datetimeModal = None, cs_sqlTypeModal = None, cs_columnToDelete = None\<rparr>"

definition same_cast :: "pending_cast option \<Rightarrow> pending_cast \<Rightarrow> bool" where
  "same_cast modal request \<longleftrightarrow> (case modal of Some m \<Rightarrow> pc_object m = pc_object request | None \<Rightarrow> False)"

definition same_sql :: "pending_sql option \<Rightarrow> pending_sql \<Rightarrow> bool" where
  "same_sql modal request \<longleftrightarrow> (case modal of Some m \<Rightarrow> ps_object m = ps_object request | None \<Rightarrow> False)"

fun columnMutationReducer :: "column_state \<Rightarrow> column_action \<Rightarrow> column_state" where
  "columnMutationReducer state (DatetimeRequested request) = state\<lparr>cs_datetimeModal := Some request\<rparr>"
| "columnMutationReducer state (DatetimeClosed None) = state\<lparr>cs_datetimeModal := None\<rparr>"
| "columnMutationReducer state (DatetimeClosed (Some request)) =
     (if same_cast (cs_datetimeModal state) request then state\<lparr>cs_datetimeModal := None\<rparr> else state)"
| "columnMutationReducer state (SqlTypeRequested request) = state\<lparr>cs_sqlTypeModal := Some request\<rparr>"
| "columnMutationReducer state (SqlTypeClosed request) =
     (if same_sql (cs_sqlTypeModal state) request then state\<lparr>cs_sqlTypeModal := None\<rparr> else state)"
| "columnMutationReducer state (ColumnRenameStarted column) = state\<lparr>cs_renamingColumn := Some column\<rparr>"
| "columnMutationReducer state ColumnRenameClosed = state\<lparr>cs_renamingColumn := None\<rparr>"
| "columnMutationReducer state (DeleteRequested column) = state\<lparr>cs_columnToDelete := Some column\<rparr>"
| "columnMutationReducer state (DeleteDialogChanged isOpen) =
     (if isOpen then state else state\<lparr>cs_columnToDelete := None\<rparr>)"

subsection \<open>The hook\<close>

text \<open>The call a change makes, with the table whose callback it is, and what its caller does afterwards.\<close>

datatype column_call =
    Cast_call nat string cast_type "string option"
  | Rename_call nat string string
  | Delete_call nat string

datatype continuation =
    Nothing_more
  | Close_datetime pending_cast
  | Close_sql pending_sql
  | Close_rename
  | Report_only

record change =
  cg_id :: nat
  cg_call :: column_call
  cg_then :: continuation

text \<open>
  The properties of the table shown now (its number stands for its callbacks, which may be absent) and
  the state: the reducer's, the changes in progress, the numbers given so far, and the errors reported.
\<close>

record edits =
  ed_table :: nat
  ed_nodeName :: string
  ed_identities :: "(string \<times> string) list"
  ed_canCast :: bool
  ed_canRename :: bool
  ed_canDelete :: bool
  ed_onError :: bool
  ed_state :: column_state
  ed_pending :: "change list"
  ed_fresh :: nat
  ed_errors :: "string list"

definition dispatch :: "column_action \<Rightarrow> edits \<Rightarrow> edits" where
  "dispatch action st = st\<lparr>ed_state := columnMutationReducer (ed_state st) action\<rparr>"

definition mutateAsync :: "column_call \<Rightarrow> continuation \<Rightarrow> edits \<Rightarrow> edits" where
  "mutateAsync call continuation st =
     st\<lparr>ed_pending := ed_pending st @ [\<lparr>cg_id = ed_fresh st, cg_call = call, cg_then = continuation\<rparr>],
        ed_fresh := ed_fresh st + 1\<rparr>"

fun cast_column :: "column_call \<Rightarrow> string option" where
  "cast_column (Cast_call owner column target format) = Some column"
| "cast_column _ = None"

fun action_column :: "column_call \<Rightarrow> string option" where
  "action_column (Rename_call owner column name) = Some column"
| "action_column (Delete_call owner column) = Some column"
| "action_column _ = None"

definition loadingCast :: "edits \<Rightarrow> string \<Rightarrow> bool" where
  "loadingCast st column \<longleftrightarrow> (\<exists>c \<in> set (ed_pending st). cast_column (cg_call c) = Some column)"

definition columnActionLoading :: "edits \<Rightarrow> string \<Rightarrow> bool" where
  "columnActionLoading st column \<longleftrightarrow> (\<exists>c \<in> set (ed_pending st). action_column (cg_call c) = Some column)"

text \<open>\<open>performCast\<close> up to its \<open>await\<close>, with the callback to run.\<close>

definition performCast :: "string \<Rightarrow> cast_type \<Rightarrow> string option \<Rightarrow> nat option \<Rightarrow> continuation \<Rightarrow> edits \<Rightarrow> edits" where
  "performCast column targetType format execute continuation st =
     (case execute of
        None \<Rightarrow> st
      | Some owner \<Rightarrow>
          if \<not> ed_onError st then st else mutateAsync (Cast_call owner column targetType format) continuation st)"

definition onCast :: "edits \<Rightarrow> nat option" where
  "onCast st = (if ed_canCast st then Some (ed_table st) else None)"

definition handleTypeChange :: "string \<Rightarrow> cast_type \<Rightarrow> edits \<Rightarrow> edits" where
  "handleTypeChange column newType st =
     (if \<not> ed_canCast st \<or> \<not> ed_onError st then st
      else case map_of (ed_identities st) column of
             Some identity \<Rightarrow>
               if newType \<noteq> Cast_name ''categorical'' \<and> newType = Cast_name identity then st
               else performCast column newType None (onCast st) Nothing_more st
           | None \<Rightarrow> performCast column newType None (onCast st) Nothing_more st)"

definition handleDatetimeFormatConfirm :: "string option \<Rightarrow> edits \<Rightarrow> edits" where
  "handleDatetimeFormatConfirm format st =
     (case (cs_datetimeModal (ed_state st), format) of
        (Some request, Some f) \<Rightarrow>
          if trim f = [] then st
          else performCast (pc_column request) (pc_target request) (Some (trim f)) (Some (pc_execute request))
                 (Close_datetime request) st
      | _ \<Rightarrow> st)"

definition closeDatetimeModal :: "edits \<Rightarrow> edits" where
  "closeDatetimeModal st = dispatch (DatetimeClosed None) st"

definition requestSqlType :: "string \<Rightarrow> edits \<Rightarrow> edits" where
  "requestSqlType column st =
     (if ed_canCast st \<and> ed_onError st
      then dispatch (SqlTypeRequested \<lparr>ps_object = ed_fresh st, ps_column = column, ps_nodeName = ed_nodeName st,
                       ps_execute = ed_table st\<rparr>) (st\<lparr>ed_fresh := ed_fresh st + 1\<rparr>)
      else st)"

definition closeSqlTypeModal :: "edits \<Rightarrow> edits" where
  "closeSqlTypeModal st =
     (case cs_sqlTypeModal (ed_state st) of Some request \<Rightarrow> dispatch (SqlTypeClosed request) st | None \<Rightarrow> st)"

definition confirmSqlType :: "string \<Rightarrow> edits \<Rightarrow> edits" where
  "confirmSqlType sqlType st =
     (case cs_sqlTypeModal (ed_state st) of
        None \<Rightarrow> st
      | Some request \<Rightarrow>
          if trim sqlType = [] then st
          else performCast (ps_column request) (Cast_sql (trim sqlType)) None (Some (ps_execute request))
                 (Close_sql request) st)"

definition startRename :: "string \<Rightarrow> edits \<Rightarrow> edits" where
  "startRename column st = dispatch (ColumnRenameStarted column) st"

definition cancelRename :: "edits \<Rightarrow> edits" where
  "cancelRename st = dispatch ColumnRenameClosed st"

definition submitRename :: "string \<Rightarrow> string \<Rightarrow> edits \<Rightarrow> edits result" where
  "submitRename column v st =
     (let nextName = trim v
      in if \<not> ed_canRename st \<or> \<not> ed_onError st then Inr (dispatch ColumnRenameClosed st)
         else if nextName = [] then throw ''Column name cannot be empty.''
         else if nextName = column then Inr (dispatch ColumnRenameClosed st)
         else Inr (mutateAsync (Rename_call (ed_table st) column nextName) Close_rename st))"

definition requestDeleteColumn :: "string \<Rightarrow> edits \<Rightarrow> edits" where
  "requestDeleteColumn column st = dispatch (DeleteRequested column) st"

definition setDeleteColumnDialogOpen :: "bool \<Rightarrow> edits \<Rightarrow> edits" where
  "setDeleteColumnDialogOpen isOpen st = dispatch (DeleteDialogChanged isOpen) st"

definition confirmDeleteColumn :: "edits \<Rightarrow> edits" where
  "confirmDeleteColumn st =
     (case cs_columnToDelete (ed_state st) of
        None \<Rightarrow> st
      | Some column \<Rightarrow>
          if column = [] \<or> \<not> ed_canDelete st \<or> \<not> ed_onError st then st
          else mutateAsync (Delete_call (ed_table st) column) Report_only (dispatch (DeleteDialogChanged False) st))"

text \<open>
  What follows an \<open>await\<close>. An error is the code of a \<open>ProjectError\<close> or another text. The promise of a
  failed rename rejects: its caller shows the error.
\<close>

definition cast_failed :: "string \<Rightarrow> column_call \<Rightarrow> edits \<Rightarrow> edits" where
  "cast_failed code call st =
     (case call of
        Cast_call owner column target format \<Rightarrow>
          if target = Cast_name ''datetime'' \<and> format = None \<and> code = ''datetime_format_required''
          then dispatch (DatetimeRequested \<lparr>pc_object = ed_fresh st, pc_column = column, pc_target = target, pc_execute = owner\<rparr>)
                 (st\<lparr>ed_fresh := ed_fresh st + 1\<rparr>)
          else st\<lparr>ed_errors := ed_errors st @ [code]\<rparr>
      | Delete_call owner column \<Rightarrow> st\<lparr>ed_errors := ed_errors st @ [code]\<rparr>
      | Rename_call owner column name \<Rightarrow> st)"

definition succeeded :: "continuation \<Rightarrow> edits \<Rightarrow> edits" where
  "succeeded continuation st =
     (case continuation of
        Close_datetime request \<Rightarrow> dispatch (DatetimeClosed (Some request)) st
      | Close_sql request \<Rightarrow> dispatch (SqlTypeClosed request) st
      | Close_rename \<Rightarrow> dispatch ColumnRenameClosed st
      | _ \<Rightarrow> st)"

definition change_settled :: "nat \<Rightarrow> string option \<Rightarrow> edits \<Rightarrow> edits" where
  "change_settled n failure st =
     (case find (\<lambda>c. cg_id c = n) (ed_pending st) of
        None \<Rightarrow> st
      | Some c \<Rightarrow>
          let rest = st\<lparr>ed_pending := filter (\<lambda>c. cg_id c \<noteq> n) (ed_pending st)\<rparr>
          in (case failure of None \<Rightarrow> succeeded (cg_then c) rest | Some code \<Rightarrow> cast_failed code (cg_call c) rest))"

subsection \<open>Runs\<close>

datatype edit_event =
    Type_change string cast_type
  | Format_confirm "string option"
  | Close_datetime_modal
  | Request_sql string
  | Close_sql_modal
  | Confirm_sql string
  | Start_rename string
  | Cancel_rename
  | Submit_rename string string
  | Request_delete string
  | Delete_dialog bool
  | Confirm_delete
  | Settled nat "string option"
  | Table_shown nat string "(string \<times> string) list" bool bool bool

fun edit_handle :: "edit_event \<Rightarrow> edits \<Rightarrow> edits" where
  "edit_handle (Type_change column newType) st = handleTypeChange column newType st"
| "edit_handle (Format_confirm format) st = handleDatetimeFormatConfirm format st"
| "edit_handle Close_datetime_modal st = closeDatetimeModal st"
| "edit_handle (Request_sql column) st = requestSqlType column st"
| "edit_handle Close_sql_modal st = closeSqlTypeModal st"
| "edit_handle (Confirm_sql sqlType) st = confirmSqlType sqlType st"
| "edit_handle (Start_rename column) st = startRename column st"
| "edit_handle Cancel_rename st = cancelRename st"
| "edit_handle (Submit_rename column v) st = (case submitRename column v st of Inr st' \<Rightarrow> st' | Inl e \<Rightarrow> st)"
| "edit_handle (Request_delete column) st = requestDeleteColumn column st"
| "edit_handle (Delete_dialog isOpen) st = setDeleteColumnDialogOpen isOpen st"
| "edit_handle Confirm_delete st = confirmDeleteColumn st"
| "edit_handle (Settled n failure) st = change_settled n failure st"
| "edit_handle (Table_shown table nodeName identities canCast canRename canDelete) st =
     st\<lparr>ed_table := table, ed_nodeName := nodeName, ed_identities := identities, ed_canCast := canCast,
        ed_canRename := canRename, ed_canDelete := canDelete\<rparr>"

definition initial_edits :: edits where
  "initial_edits =
     \<lparr>ed_table = 0, ed_nodeName = [], ed_identities = [], ed_canCast = False, ed_canRename = False, ed_canDelete = False,
      ed_onError = True, ed_state = createColumnMutationState, ed_pending = [], ed_fresh = 0, ed_errors = []\<rparr>"

text \<open>The columns the user asked to cast, each with the table that showed it then.\<close>

fun asked_cast :: "edit_event \<Rightarrow> edits \<Rightarrow> (nat \<times> string) set" where
  "asked_cast (Type_change column newType) st = {(ed_table st, column)}"
| "asked_cast (Request_sql column) st = {(ed_table st, column)}"
| "asked_cast _ st = {}"

inductive edits_reachable :: "edits \<Rightarrow> (nat \<times> string) set \<Rightarrow> bool" where
  edits_initial: "edits_reachable initial_edits {}"
| edits_event: "edits_reachable st asked \<Longrightarrow> edits_reachable (edit_handle event st) (asked \<union> asked_cast event st)"

subsection \<open>Requests stay with their table\<close>

definition datetime_requests :: "edits \<Rightarrow> pending_cast set" where
  "datetime_requests st = set_option (cs_datetimeModal (ed_state st)) \<union> {r. \<exists>c \<in> set (ed_pending st). cg_then c = Close_datetime r}"

definition sql_requests :: "edits \<Rightarrow> pending_sql set" where
  "sql_requests st = set_option (cs_sqlTypeModal (ed_state st)) \<union> {r. \<exists>c \<in> set (ed_pending st). cg_then c = Close_sql r}"

definition casts_in :: "edits \<Rightarrow> (nat \<times> string) set" where
  "casts_in st = {(owner, column). \<exists>c \<in> set (ed_pending st). \<exists>target format. cg_call c = Cast_call owner column target format}"

definition edits_ok :: "(nat \<times> string) set \<Rightarrow> edits \<Rightarrow> bool" where
  "edits_ok asked st \<longleftrightarrow>
     casts_in st \<subseteq> asked \<and>
     (\<forall>r \<in> datetime_requests st. (pc_execute r, pc_column r) \<in> asked \<and> pc_object r < ed_fresh st) \<and>
     (\<forall>r \<in> sql_requests st. (ps_execute r, ps_column r) \<in> asked \<and> ps_object r < ed_fresh st) \<and>
     inj_on pc_object (datetime_requests st) \<and> inj_on ps_object (sql_requests st)"

lemma edits_ok_mono: "edits_ok asked st \<Longrightarrow> asked \<subseteq> further \<Longrightarrow> edits_ok further st"
  unfolding edits_ok_def by (meson subsetD subset_trans)

text \<open>A step that forgets requests, or numbers a new one, keeps the invariant.\<close>

lemma edits_ok_shrink:
  assumes "edits_ok asked st" and "casts_in st' \<subseteq> casts_in st" "ed_fresh st \<le> ed_fresh st'"
    and "datetime_requests st' \<subseteq> datetime_requests st" "sql_requests st' \<subseteq> sql_requests st"
  shows "edits_ok asked st'"
  using assms unfolding edits_ok_def by (meson inj_on_subset order_less_le_trans subsetD subset_trans)

lemma edits_ok_new_cast:
  assumes "edits_ok asked st" and "casts_in st' \<subseteq> casts_in st" "ed_fresh st < ed_fresh st'"
    and "datetime_requests st' \<subseteq> insert r (datetime_requests st)" "sql_requests st' \<subseteq> sql_requests st"
    and "pc_object r = ed_fresh st" "(pc_execute r, pc_column r) \<in> asked"
  shows "edits_ok asked st'"
proof -
  have "inj_on pc_object (insert r (datetime_requests st))"
    using assms(1,6) unfolding edits_ok_def inj_on_insert by fastforce
  then have "inj_on pc_object (datetime_requests st')" using assms(4) by (rule inj_on_subset)
  moreover have "inj_on ps_object (sql_requests st')" using assms(1,5) inj_on_subset unfolding edits_ok_def by blast
  moreover have "(pc_execute q, pc_column q) \<in> asked \<and> pc_object q < ed_fresh st'" if "q \<in> datetime_requests st'" for q
    using that assms unfolding edits_ok_def by (metis insertE order_less_trans subsetD)
  moreover have "(ps_execute q, ps_column q) \<in> asked \<and> ps_object q < ed_fresh st'" if "q \<in> sql_requests st'" for q
    using that assms unfolding edits_ok_def by (meson order_less_trans subsetD)
  ultimately show ?thesis using assms(1,2) unfolding edits_ok_def by blast
qed

lemma edits_ok_new_sql:
  assumes "edits_ok asked st" and "casts_in st' \<subseteq> casts_in st" "ed_fresh st < ed_fresh st'"
    and "datetime_requests st' \<subseteq> datetime_requests st" "sql_requests st' \<subseteq> insert r (sql_requests st)"
    and "ps_object r = ed_fresh st" "(ps_execute r, ps_column r) \<in> asked"
  shows "edits_ok asked st'"
proof -
  have "inj_on ps_object (insert r (sql_requests st))"
    using assms(1,6) unfolding edits_ok_def inj_on_insert by fastforce
  then have "inj_on ps_object (sql_requests st')" using assms(5) by (rule inj_on_subset)
  moreover have "inj_on pc_object (datetime_requests st')" using assms(1,4) inj_on_subset unfolding edits_ok_def by blast
  moreover have "(ps_execute q, ps_column q) \<in> asked \<and> ps_object q < ed_fresh st'" if "q \<in> sql_requests st'" for q
    using that assms unfolding edits_ok_def by (metis insertE order_less_trans subsetD)
  moreover have "(pc_execute q, pc_column q) \<in> asked \<and> pc_object q < ed_fresh st'" if "q \<in> datetime_requests st'" for q
    using that assms unfolding edits_ok_def by (meson order_less_trans subsetD)
  ultimately show ?thesis using assms(1,2) unfolding edits_ok_def by blast
qed

lemmas request_sets = datetime_requests_def sql_requests_def casts_in_def

lemma casts_in_mutateAsync:
  "casts_in (mutateAsync call continuation st) =
     casts_in st \<union> {(owner, column). \<exists>target format. call = Cast_call owner column target format}"
  by (auto simp: casts_in_def mutateAsync_def)

lemma mutateAsync_ok:
  assumes "edits_ok asked st"
    and "\<And>owner column target format. call = Cast_call owner column target format \<Longrightarrow> (owner, column) \<in> asked"
    and "\<And>r. continuation = Close_datetime r \<Longrightarrow> r \<in> datetime_requests st"
    and "\<And>r. continuation = Close_sql r \<Longrightarrow> r \<in> sql_requests st"
  shows "edits_ok asked (mutateAsync call continuation st)"
proof -
  have "datetime_requests (mutateAsync call continuation st) = datetime_requests st"
    using assms(3) by (auto simp: mutateAsync_def datetime_requests_def)
  moreover have "sql_requests (mutateAsync call continuation st) = sql_requests st"
    using assms(4) by (auto simp: mutateAsync_def sql_requests_def)
  moreover have "casts_in (mutateAsync call continuation st) \<subseteq> asked"
    using assms(1,2) unfolding edits_ok_def casts_in_mutateAsync by blast
  moreover have "ed_fresh st < ed_fresh (mutateAsync call continuation st)" by (simp add: mutateAsync_def)
  ultimately show ?thesis using assms(1) unfolding edits_ok_def by (metis less_trans)
qed

lemma performCast_ok:
  assumes "edits_ok asked st" and "\<And>owner. execute = Some owner \<Longrightarrow> (owner, column) \<in> asked"
    and "\<And>r. continuation = Close_datetime r \<Longrightarrow> r \<in> datetime_requests st"
    and "\<And>r. continuation = Close_sql r \<Longrightarrow> r \<in> sql_requests st"
  shows "edits_ok asked (performCast column target format execute continuation st)"
  using assms by (auto simp: performCast_def intro!: mutateAsync_ok split: option.split)

lemma dispatch_ok:
  assumes "edits_ok asked st" and "\<And>r. action \<noteq> DatetimeRequested r" "\<And>r. action \<noteq> SqlTypeRequested r"
  shows "edits_ok asked (dispatch action st)"
proof (rule edits_ok_shrink [OF assms(1)])
  have state: "set_option (cs_datetimeModal (columnMutationReducer s action)) \<subseteq> set_option (cs_datetimeModal s) \<and>
      set_option (cs_sqlTypeModal (columnMutationReducer s action)) \<subseteq> set_option (cs_sqlTypeModal s)" for s
    using assms(2,3) by (induction s action rule: columnMutationReducer.induct) auto
  show "datetime_requests (dispatch action st) \<subseteq> datetime_requests st" "sql_requests (dispatch action st) \<subseteq> sql_requests st"
    using state [of "ed_state st"] by (auto simp: request_sets dispatch_def)
qed (simp_all add: dispatch_def casts_in_def)

lemma change_settled_ok:
  assumes ok: "edits_ok asked st"
  shows "edits_ok asked (change_settled n failure st)"
proof (cases "find (\<lambda>c. cg_id c = n) (ed_pending st)")
  case (Some c)
  then have c: "c \<in> set (ed_pending st)" by (metis find_Some_iff nth_mem)
  define rest where "rest = st\<lparr>ed_pending := filter (\<lambda>c. cg_id c \<noteq> n) (ed_pending st)\<rparr>"
  have rest: "edits_ok asked rest"
    using ok by (rule edits_ok_shrink) (auto simp: rest_def request_sets)
  have asked: "(owner, column) \<in> asked" if "cg_call c = Cast_call owner column target format" for owner column target format
    using that c ok unfolding edits_ok_def casts_in_def by blast
  have "edits_ok asked (succeeded (cg_then c) rest)"
    using rest by (auto simp: succeeded_def intro!: dispatch_ok split: continuation.split)
  moreover have "edits_ok asked (cast_failed code (cg_call c) rest)" for code
  proof (cases "cg_call c")
    case (Cast_call owner column target format)
    define request where "request = \<lparr>pc_object = ed_fresh rest, pc_column = column, pc_target = target, pc_execute = owner\<rparr>"
    have "edits_ok asked (dispatch (DatetimeRequested request) (rest\<lparr>ed_fresh := ed_fresh rest + 1\<rparr>))"
      using rest by (rule edits_ok_new_cast [where r = request]) (auto simp: request_def asked [OF Cast_call] dispatch_def request_sets)
    moreover have "edits_ok asked (rest\<lparr>ed_errors := errors\<rparr>)" for errors
      using rest by (rule edits_ok_shrink) (auto simp: request_sets)
    ultimately show ?thesis using Cast_call by (auto simp: cast_failed_def request_def)
  next
    case (Delete_call owner column)
    then show ?thesis using rest by (auto simp: cast_failed_def request_sets intro: edits_ok_shrink)
  qed (use rest in \<open>simp add: cast_failed_def\<close>)
  ultimately show ?thesis using Some by (simp add: change_settled_def rest_def [symmetric] split: option.split)
qed (use ok in \<open>simp add: change_settled_def\<close>)

lemma modal_asked:
  assumes "edits_ok asked st"
  shows "cs_datetimeModal (ed_state st) = Some r \<Longrightarrow> (pc_execute r, pc_column r) \<in> asked \<and> r \<in> datetime_requests st"
    and "cs_sqlTypeModal (ed_state st) = Some q \<Longrightarrow> (ps_execute q, ps_column q) \<in> asked \<and> q \<in> sql_requests st"
  using assms by (simp_all add: edits_ok_def datetime_requests_def sql_requests_def)

lemma edit_handle_ok:
  assumes "edits_ok asked st"
  shows "edits_ok (asked \<union> asked_cast event st) (edit_handle event st)"
proof -
  have wider: "edits_ok (asked \<union> asked_cast event st) st" using assms by (rule edits_ok_mono) auto
  show ?thesis
  proof (cases event)
    case (Type_change column newType)
    then show ?thesis using wider
      by (auto simp: handleTypeChange_def onCast_def intro!: performCast_ok split: option.split)
  next
    case (Format_confirm format)
    then show ?thesis using wider modal_asked [OF wider]
      by (auto simp: handleDatetimeFormatConfirm_def intro!: performCast_ok split: option.splits)
  next
    case (Request_sql column)
    define request where "request = \<lparr>ps_object = ed_fresh st, ps_column = column, ps_nodeName = ed_nodeName st, ps_execute = ed_table st\<rparr>"
    have "edits_ok (asked \<union> asked_cast event st) (dispatch (SqlTypeRequested request) (st\<lparr>ed_fresh := ed_fresh st + 1\<rparr>))"
      using wider by (rule edits_ok_new_sql [where r = request]) (auto simp: request_def Request_sql dispatch_def request_sets)
    then show ?thesis using wider Request_sql by (simp add: requestSqlType_def request_def)
  next
    case (Confirm_sql sqlType)
    then show ?thesis using wider modal_asked [OF wider]
      by (auto simp: confirmSqlType_def intro!: performCast_ok split: option.splits)
  next
    case (Submit_rename column v)
    then show ?thesis using wider
      by (auto simp: submitRename_def throw_def Let_def intro!: dispatch_ok mutateAsync_ok)
  next
    case Confirm_delete
    then show ?thesis using wider
      by (auto simp: confirmDeleteColumn_def intro!: dispatch_ok mutateAsync_ok split: option.split)
  next
    case (Table_shown table nodeName identities canCast canRename canDelete)
    show ?thesis using wider unfolding Table_shown by (rule edits_ok_shrink) (auto simp: request_sets)
  qed (use wider in \<open>auto simp: closeDatetimeModal_def closeSqlTypeModal_def startRename_def cancelRename_def requestDeleteColumn_def
    setDeleteColumnDialogOpen_def change_settled_ok intro!: dispatch_ok split: option.split\<close>)
qed

lemma edits_reachable_ok: "edits_reachable st asked \<Longrightarrow> edits_ok asked st"
proof (induction rule: edits_reachable.induct)
  case edits_initial
  then show ?case by (simp add: edits_ok_def request_sets initial_edits_def createColumnMutationState_def)
qed (rule edit_handle_ok)

text \<open>
  A column change stays with the table it was asked for, whatever table is shown when it runs: in
  every reachable state each cast in progress and each open dialog has the column and the callback of a
  table on which the user asked for that cast, and a confirmed date-time cast that succeeds late closes
  the dialog exactly if it is still its own.
\<close>

theorem casts_stay_with_table:
  assumes "edits_reachable st asked"
  shows "casts_in st \<subseteq> asked \<and>
         (\<forall>r. cs_datetimeModal (ed_state st) = Some r \<longrightarrow> (pc_execute r, pc_column r) \<in> asked) \<and>
         (\<forall>r. cs_sqlTypeModal (ed_state st) = Some r \<longrightarrow> (ps_execute r, ps_column r) \<in> asked) \<and>
         (\<forall>n c r. find (\<lambda>c. cg_id c = n) (ed_pending st) = Some c \<and> cg_then c = Close_datetime r \<longrightarrow>
            cs_datetimeModal (ed_state (change_settled n None st)) =
              (if cs_datetimeModal (ed_state st) = Some r then None else cs_datetimeModal (ed_state st)))"
proof -
  note ok = edits_reachable_ok [OF assms]
  have "cs_datetimeModal (ed_state (change_settled n None st)) =
      (if cs_datetimeModal (ed_state st) = Some r then None else cs_datetimeModal (ed_state st))"
    if "find (\<lambda>c. cg_id c = n) (ed_pending st) = Some c" "cg_then c = Close_datetime r" for n c r
  proof -
    have "c \<in> set (ed_pending st)" using that(1) by (metis find_Some_iff nth_mem)
    then have "r \<in> datetime_requests st" using that(2) by (auto simp: datetime_requests_def)
    then have "same_cast (cs_datetimeModal (ed_state st)) r \<longleftrightarrow> cs_datetimeModal (ed_state st) = Some r"
      using ok modal_asked(1) [OF ok] unfolding edits_ok_def inj_on_def same_cast_def by (auto split: option.splits)
    then show ?thesis using that by (simp add: change_settled_def succeeded_def dispatch_def)
  qed
  then show ?thesis using ok modal_asked [OF ok] unfolding edits_ok_def by blast
qed

text \<open>Table 7 asks for a date-time cast, the service wants a format, and table 8 is shown before it is given.\<close>

definition example_edits :: edits where
  "example_edits =
     fold edit_handle
       [Table_shown 7 ''docs'' [] True True True, Type_change ''day'' (Cast_name ''datetime''),
        Settled 0 (Some ''datetime_format_required''), Table_shown 8 ''other'' [] True True True, Format_confirm (Some ''%Y'')]
       initial_edits"

lemma edits_quiet_event:
  "edits_reachable st asked \<Longrightarrow> asked_cast event st = {} \<Longrightarrow> edits_reachable (edit_handle event st) asked"
  using edits_event [of st asked event] by simp

lemma example_edits_reachable: "edits_reachable example_edits {(7, ''day'')}"
proof -
  have "edits_reachable (edit_handle (Table_shown 7 ''docs'' [] True True True) initial_edits) {}"
    by (rule edits_quiet_event [OF edits_initial]) simp
  from edits_event [OF this, of "Type_change ''day'' (Cast_name ''datetime'')"]
  have "edits_reachable (edit_handle (Type_change ''day'' (Cast_name ''datetime''))
      (edit_handle (Table_shown 7 ''docs'' [] True True True) initial_edits)) {(7, ''day'')}" by simp
  from edits_quiet_event [OF edits_quiet_event [OF edits_quiet_event [OF this]]] show ?thesis
    unfolding example_edits_def fold_simps by (simp only: asked_cast.simps)
qed

theorem casts_stay_with_table_witness:
  "map cg_call (ed_pending example_edits) = [Cast_call 7 ''day'' (Cast_name ''datetime'') (Some ''%Y'')] \<and>
   casts_in example_edits \<subseteq> {(7, ''day'')}"
proof
  show "map cg_call (ed_pending example_edits) = [Cast_call 7 ''day'' (Cast_name ''datetime'') (Some ''%Y'')]"
  by (simp add: example_edits_def initial_edits_def handleTypeChange_def performCast_def onCast_def mutateAsync_def change_settled_def
      cast_failed_def dispatch_def handleDatetimeFormatConfirm_def createColumnMutationState_def trim_graphic graphic_char_def)
qed (use casts_stay_with_table [OF example_edits_reachable] in blast)

text \<open>
  The inline rename has no such identity: when the rename of one column succeeds after the user has
  opened another column's name for editing, that editor is closed too.
\<close>

theorem earlier_rename_closes_later_edit:
  assumes "find (\<lambda>c. cg_id c = n) (ed_pending st) = Some c" and "cg_then c = Close_rename"
  shows "cs_renamingColumn (ed_state (change_settled n None (startRename other st))) = None"
  using assms by (simp add: change_settled_def succeeded_def startRename_def dispatch_def)

theorem earlier_rename_closes_later_edit_witness:
  "cs_renamingColumn (ed_state (change_settled 0 None (startRename ''b''
     (mutateAsync (Rename_call 7 ''a'' ''c'') Close_rename initial_edits)))) = None"
  using earlier_rename_closes_later_edit [of 0 "mutateAsync (Rename_call 7 ''a'' ''c'') Close_rename initial_edits"]
  by (simp add: mutateAsync_def initial_edits_def)

end
