(* ===== verification/Query_Refresh.thy ===== *)
theory Query_Refresh
  imports Objects Js_Value
begin

text \<open>
  Keeping the query cache in step with the project: \<open>features/project/projectChanges.ts\<close>, which decides
  which cached queries a change concerns and in which order they are refreshed, and
  \<open>features/project/savedAnalysis.ts\<close>, which guards the output of a saved analysis against reads that
  finish after it was cleared. The cache belongs to the query library. What the code reads from it at a
  point, for instance after a refetch, is an argument; what it does to it is returned as a list of
  commands that hold the source's own predicates, keys and updates.
\<close>

subsection \<open>Queries\<close>

record cached_query =
  qr_key :: "js list"
  qr_objects :: "object_ref list option"

definition key_at :: "cached_query \<Rightarrow> nat \<Rightarrow> js" where
  "key_at query index = (if index < length (qr_key query) then qr_key query ! index else JS_Undefined)"

text \<open>\<open>String(value)\<close>.\<close>

fun js_text :: "js \<Rightarrow> string" where
  "js_text JS_Undefined = ''undefined''"
| "js_text JS_Null = ''null''"
| "js_text (JS_Bool b) = (if b then ''true'' else ''false'')"
| "js_text (JS_Number n) = show_number n"
| "js_text (JS_String s) = s"
| "js_text (JS_Array xs) =
     join '','' (map (\<lambda>x. if x = JS_Undefined \<or> x = JS_Null then [] else js_text x) xs)"
| "js_text (JS_Object _) = ''[object Object]''"

record change_scope =
  ch_all :: bool
  ch_analysis_ids :: "string list option"
  ch_resources :: "string list option"
  ch_objects :: "object_ref list option"

definition objectDependencies :: "data_target list \<Rightarrow> object_ref list" where
  "objectDependencies targets = map objectRef targets"

definition databaseResources :: "string list" where
  "databaseResources =
     [''graph'', ''schema'', ''rows'', ''definition'', ''preprocessing'', ''preprocessing-options'', ''tabs'',
      ''analyses'', ''analysis-preview'', ''sql-cells'', ''sql-types'', ''project'']"

abbreviation some_in :: "'a list option \<Rightarrow> ('a \<Rightarrow> bool) \<Rightarrow> bool" where
  "some_in xs P \<equiv> (case xs of None \<Rightarrow> False | Some ys \<Rightarrow> list_ex P ys)"

definition same_object :: "object_ref \<Rightarrow> object_ref \<Rightarrow> bool" where
  "same_object object dependency \<longleftrightarrow>
     fold_case (ref_schema object) = fold_case (ref_schema dependency) \<and>
     fold_case (ref_name object) = fold_case (ref_name dependency)"

definition affectedQuery :: "string \<Rightarrow> change_scope \<Rightarrow> cached_query \<Rightarrow> bool" where
  "affectedQuery base change query =
     (case key_at query 2 of
        JS_String resource \<Rightarrow>
          if key_at query 0 \<noteq> JS_String ''native'' \<or> key_at query 1 \<noteq> JS_String base then False
          else if ch_all change then resource \<in> set databaseResources \<or> qr_objects query \<noteq> None
          else if resource = ''analyses'' \<and> some_in (ch_analysis_ids change) (\<lambda>i. i = js_text (key_at query 3)) then True
          else if some_in (ch_resources change) (\<lambda>name. replaceAll_char (CHR ''_'') ''-'' name = resource) then True
          else some_in (qr_objects query) (\<lambda>dependency. some_in (ch_objects change) (\<lambda>object. same_object object dependency))
      | _ \<Rightarrow> False)"

subsection \<open>Refreshing\<close>

text \<open>
  The part of a tab that ownership of output depends on; \<open>an_partial\<close> is whether a quotation has partial
  output and \<open>tb_rest\<close> its name, settings and request.
\<close>

record saved_analysis =
  an_id :: string
  an_has_result :: bool
  an_partial :: bool

record 'a saved_tab =
  tb_id :: string
  tb_kind :: string
  tb_analysis :: "saved_analysis option"
  tb_rest :: 'a

text \<open>
  Commands to the cache: by predicate, or by the key prefix that the library matches;
  \<open>Set_tab_lists\<close> marks where the cached tab lists are replaced by the updated ones.
\<close>

datatype cache_command =
    Cancel "cached_query \<Rightarrow> bool"
  | Invalidate "cached_query \<Rightarrow> bool"
  | Remove "cached_query \<Rightarrow> bool"
  | Cancel_key "js list"
  | Invalidate_key "js list"
  | Remove_key "js list"
  | Set_tab_lists

definition analysis_ids :: "'a saved_tab list option list \<Rightarrow> string list" where
  "analysis_ids entries =
     concat (map (\<lambda>values. case values of
        None \<Rightarrow> []
      | Some tabs \<Rightarrow> concat (map (\<lambda>tab. case tb_analysis tab of Some a \<Rightarrow> [an_id a] | None \<Rightarrow> []) tabs)) entries)"

definition without_output :: "'a saved_tab list option list \<Rightarrow> string list" where
  "without_output entries =
     concat (map (\<lambda>values. case values of
        None \<Rightarrow> []
      | Some tabs \<Rightarrow>
          concat (map (\<lambda>tab. case tb_analysis tab of
              Some a \<Rightarrow> if \<not> an_has_result a then [an_id a] else [] | None \<Rightarrow> []) tabs)) entries)"

definition stale_output :: "string \<Rightarrow> 'a saved_tab list option list \<Rightarrow> 'a saved_tab list option list \<Rightarrow> cached_query \<Rightarrow> bool" where
  "stale_output base prior current query \<longleftrightarrow>
     key_at query 0 = JS_String ''native'' \<and> key_at query 1 = JS_String base \<and> key_at query 2 = JS_String ''analyses'' \<and>
     (js_text (key_at query 3) \<in> set (without_output current) \<or>
      (js_text (key_at query 3) \<in> set (analysis_ids prior) \<and> js_text (key_at query 3) \<notin> set (analysis_ids current)))"

definition manifest_query :: "cached_query \<Rightarrow> bool" where
  "manifest_query query \<longleftrightarrow> key_at query 2 = JS_String ''analyses'' \<and> length (qr_key query) = 4"

text \<open>\<open>prior\<close> and \<open>current\<close> are the cached tab lists before and after the tabs are refetched.\<close>

definition refreshProjectQueries ::
  "string \<Rightarrow> change_scope \<Rightarrow> 'a saved_tab list option list \<Rightarrow> 'a saved_tab list option list \<Rightarrow> cache_command list" where
  "refreshProjectQueries base change prior current =
     (let predicate = affectedQuery base change
      in [Cancel predicate,
          Invalidate (\<lambda>query. predicate query \<and> key_at query 2 = JS_String ''tabs''),
          Remove (stale_output base prior current),
          Invalidate (\<lambda>query. predicate query \<and> key_at query 2 = JS_String ''schema''),
          Invalidate (\<lambda>query. predicate query \<and> manifest_query query),
          Invalidate (\<lambda>query. predicate query \<and> \<not> manifest_query query \<and>
            key_at query 2 \<noteq> JS_String ''schema'' \<and> key_at query 2 \<noteq> JS_String ''tabs'')])"

subsection \<open>Saved output\<close>

definition tabsKey :: "string \<Rightarrow> 'a saved_tab \<Rightarrow> js list" where
  "tabsKey base tab = [JS_String ''native'', JS_String base, JS_String ''tabs'', JS_String (tb_kind tab)]"

definition outputKey :: "string \<Rightarrow> string option \<Rightarrow> js list" where
  "outputKey base output =
     [JS_String ''native'', JS_String base, JS_String ''analyses'', (case output of Some i \<Rightarrow> JS_String i | None \<Rightarrow> JS_Null)]"

definition has_output :: "saved_analysis \<Rightarrow> bool" where
  "has_output a \<longleftrightarrow> an_has_result a \<or> an_partial a"

text \<open>\<open>tabs\<close> is what the cache holds for the tab's kind at that moment.\<close>

definition ownsOutput :: "'a saved_tab list option \<Rightarrow> 'a saved_tab \<Rightarrow> string \<Rightarrow> bool" where
  "ownsOutput tabs tab output =
     (case (case tabs of None \<Rightarrow> Some tab | Some items \<Rightarrow> find (\<lambda>item. tb_id item = tb_id tab) items) of
        None \<Rightarrow> False
      | Some current \<Rightarrow>
          (case tb_analysis current of None \<Rightarrow> False | Some a \<Rightarrow> an_id a = output \<and> has_output a))"

text \<open>The update that every cached tab list of the project receives.\<close>

definition mark_absent :: "'a saved_tab \<Rightarrow> string \<Rightarrow> 'a saved_tab \<Rightarrow> 'a saved_tab" where
  "mark_absent tab output item =
     (case tb_analysis item of
        Some a \<Rightarrow>
          if tb_id item = tb_id tab \<and> an_id a = output
          then item\<lparr>tb_analysis := Some (a\<lparr>an_has_result := False, an_partial := False\<rparr>)\<rparr> else item
      | None \<Rightarrow> item)"

definition markOutputAbsent :: "'a saved_tab \<Rightarrow> string \<Rightarrow> 'a saved_tab list option \<Rightarrow> 'a saved_tab list option" where
  "markOutputAbsent tab output tabs = map_option (map (mark_absent tab output)) tabs"

definition saved_id :: "'a saved_tab \<Rightarrow> string option" where
  "saved_id tab =
     (case tb_analysis tab of None \<Rightarrow> None | Some a \<Rightarrow> if has_output a then Some (an_id a) else None)"

text \<open>
  \<open>queryFn\<close> up to the read: the id to read, or none when \<open>null\<close> is returned at once. A falsy id is the
  empty text.
\<close>

definition saved_read :: "'a saved_tab list option \<Rightarrow> 'a saved_tab \<Rightarrow> string option" where
  "saved_read tabs tab =
     (case saved_id tab of
        None \<Rightarrow> None
      | Some i \<Rightarrow> if i = [] \<or> \<not> ownsOutput tabs tab i then None else Some i)"

text \<open>What the read of the service gave, and what the query function does with it.\<close>

datatype 'r read_outcome = Read_ok "'r option" | Read_failed js_error

datatype 'r read_result = Aborted | Failed js_error | Returned "'r option"

definition projection_of :: "string \<Rightarrow> string \<Rightarrow> cached_query \<Rightarrow> bool" where
  "projection_of base output query \<longleftrightarrow>
     length (qr_key query) > 4 \<and>
     list_all (\<lambda>(part, index). key_at query index = part) (zip (outputKey base (Some output)) [0..<4])"

definition absent_commands :: "string \<Rightarrow> 'a saved_tab \<Rightarrow> string \<Rightarrow> cache_command list" where
  "absent_commands base tab output =
     [Cancel_key (tabsKey base tab), Set_tab_lists, Cancel (projection_of base output), Remove (projection_of base output)]"

text \<open>
  The rest of \<open>queryFn\<close>: \<open>tabs\<close> is the cached list when the read finishes. It returns the result, the
  commands and the cached list afterwards.
\<close>

definition saved_finish ::
  "string \<Rightarrow> 'a saved_tab \<Rightarrow> string \<Rightarrow> bool \<Rightarrow> 'r read_outcome \<Rightarrow> 'a saved_tab list option \<Rightarrow>
   'r read_result \<times> cache_command list \<times> 'a saved_tab list option" where
  "saved_finish base tab output aborted outcome tabs =
     (if aborted then (Aborted, [], tabs)
      else case outcome of
             Read_failed e \<Rightarrow> (if \<not> ownsOutput tabs tab output then Returned None else Failed e, [], tabs)
           | Read_ok result \<Rightarrow>
               if \<not> ownsOutput tabs tab output then (Returned None, [], tabs)
               else (case result of
                       None \<Rightarrow> (Returned None, absent_commands base tab output, markOutputAbsent tab output tabs)
                     | Some r \<Rightarrow> (Returned (Some r), [], tabs)))"

text \<open>
  \<open>clearSavedAnalysis\<close> before the request, and after it fails or succeeds; a falsy id is skipped.
\<close>

definition clear_id :: "'a saved_tab \<Rightarrow> string option" where
  "clear_id tab = (case tb_analysis tab of Some a \<Rightarrow> if an_id a \<noteq> [] then Some (an_id a) else None | None \<Rightarrow> None)"

definition clear_started :: "string \<Rightarrow> 'a saved_tab \<Rightarrow> cache_command list" where
  "clear_started base tab = (case clear_id tab of Some i \<Rightarrow> [Cancel_key (outputKey base (Some i))] | None \<Rightarrow> [])"

definition clear_finished ::
  "string \<Rightarrow> 'a saved_tab \<Rightarrow> js_error option \<Rightarrow> 'a saved_tab list option \<Rightarrow>
   js_error option \<times> cache_command list \<times> 'a saved_tab list option" where
  "clear_finished base tab failure tabs =
     (case failure of
        Some e \<Rightarrow>
          (Some e, case clear_id tab of Some i \<Rightarrow> [Invalidate_key (outputKey base (Some i))] | None \<Rightarrow> [], tabs)
      | None \<Rightarrow>
          (case clear_id tab of
             Some i \<Rightarrow>
               (None, [Cancel_key (tabsKey base tab), Cancel_key (outputKey base (Some i)), Set_tab_lists,
                       Remove_key (outputKey base (Some i)), Invalidate_key (tabsKey base tab)],
                markOutputAbsent tab i tabs)
           | None \<Rightarrow> (None, [Cancel_key (tabsKey base tab), Invalidate_key (tabsKey base tab)], tabs)))"

subsection \<open>Every affected query is refreshed once\<close>

fun invalidates :: "cached_query \<Rightarrow> cache_command \<Rightarrow> bool" where
  "invalidates query (Invalidate predicate) = predicate query"
| "invalidates query _ = False"

fun cancels :: "cached_query \<Rightarrow> cache_command \<Rightarrow> bool" where
  "cancels query (Cancel predicate) = predicate query"
| "cancels query _ = False"

fun removes :: "cached_query \<Rightarrow> cache_command \<Rightarrow> bool" where
  "removes query (Remove predicate) = predicate query"
| "removes query _ = False"

lemma affected_other_connection: "key_at query 1 \<noteq> JS_String base \<Longrightarrow> \<not> affectedQuery base change query"
  by (simp add: affectedQuery_def split: js.split)

lemma refresh_invalidates:
  "length (filter (invalidates query) (refreshProjectQueries base change prior current)) =
     (if affectedQuery base change query then 1 else 0)"
  by (simp add: refreshProjectQueries_def Let_def manifest_query_def)

text \<open>
  A project change refreshes exactly the queries it concerns: an affected query is cancelled and
  then invalidated exactly once, any other query never is, no query of another connection is
  touched in any way, and cached output is removed only for an analysis that, after the tabs were
  refetched, no tab has any more or that has no result.
\<close>

theorem refresh_each_query_once:
  fixes query :: cached_query and prior current :: "'a saved_tab list option list" and base :: string and change :: change_scope
  defines "commands \<equiv> refreshProjectQueries base change prior current"
  shows "length (filter (invalidates query) commands) = (if affectedQuery base change query then 1 else 0) \<and>
         (list_ex (cancels query) (take 1 commands) \<longleftrightarrow> affectedQuery base change query) \<and>
         (key_at query 1 \<noteq> JS_String base \<longrightarrow>
            \<not> list_ex (\<lambda>c. invalidates query c \<or> cancels query c \<or> removes query c) commands) \<and>
         (list_ex (removes query) commands \<longrightarrow> key_at query 2 = JS_String ''analyses'' \<and>
            (js_text (key_at query 3) \<in> set (without_output current) \<or> js_text (key_at query 3) \<notin> set (analysis_ids current)))"
proof -
  have "list_ex (cancels query) (take 1 commands) \<longleftrightarrow> affectedQuery base change query"
    by (simp add: commands_def refreshProjectQueries_def Let_def)
  moreover have "\<not> list_ex (\<lambda>c. invalidates query c \<or> cancels query c \<or> removes query c) commands"
    if "key_at query 1 \<noteq> JS_String base"
    using that affected_other_connection [OF that]
    by (simp add: commands_def refreshProjectQueries_def Let_def stale_output_def)
  moreover have "list_ex (removes query) commands \<longleftrightarrow> stale_output base prior current query"
    by (simp add: commands_def refreshProjectQueries_def Let_def)
  ultimately show ?thesis unfolding commands_def by (auto simp: refresh_invalidates stale_output_def)
qed

subsection \<open>Cleared output stays cleared\<close>

lemma mark_absent_id [simp]: "tb_id (mark_absent tab output item) = tb_id item"
  by (simp add: mark_absent_def split: option.split)

lemma find_mark_absent:
  "find (\<lambda>item. tb_id item = t) (map (mark_absent tab output) items) =
     map_option (mark_absent tab output) (find (\<lambda>item. tb_id item = t) items)"
  by (induction items) simp_all

lemma absent_not_owned:
  assumes "tb_id reader = tb_id tab"
  shows "\<not> ownsOutput (markOutputAbsent tab output (Some items)) reader output"
proof (cases "find (\<lambda>item. tb_id item = tb_id reader) items")
  case (Some item)
  then have "tb_id item = tb_id tab" using assms by (auto simp: find_Some_iff)
  then show ?thesis using Some
    by (auto simp: ownsOutput_def markOutputAbsent_def find_mark_absent mark_absent_def has_output_def split: option.split)
qed (simp add: ownsOutput_def markOutputAbsent_def find_mark_absent)

lemma absent_keeps_others:
  assumes "tb_id reader \<noteq> tb_id tab \<or> other \<noteq> output"
  shows "ownsOutput (markOutputAbsent tab output (Some items)) reader other = ownsOutput (Some items) reader other"
proof (cases "find (\<lambda>item. tb_id item = tb_id reader) items")
  case (Some item)
  then have "tb_id item = tb_id reader" by (auto simp: find_Some_iff)
  then show ?thesis using Some assms
    by (auto simp: ownsOutput_def markOutputAbsent_def find_mark_absent mark_absent_def split: option.split)
qed (simp add: ownsOutput_def markOutputAbsent_def find_mark_absent)


definition example_saved :: "unit saved_tab" where
  "example_saved = \<lparr>tb_id = ''t'', tb_kind = ''frequency'',
     tb_analysis = Some \<lparr>an_id = ''r'', an_has_result = True, an_partial = False\<rparr>, tb_rest = ()\<rparr>"


definition example_change :: change_scope where
  "example_change = \<lparr>ch_all = False, ch_analysis_ids = None, ch_resources = None,
     ch_objects = Some [\<lparr>ref_schema = ''DATA'', ref_name = ''Docs''\<rparr>]\<rparr>"

definition example_query :: cached_query where
  "example_query = \<lparr>qr_key = map JS_String [''native'', ''p'', ''rows'', ''docs''],
     qr_objects = Some (objectDependencies [Block ''docs''])\<rparr>"

theorem refresh_each_query_once_witness:
  "affectedQuery ''p'' example_change example_query \<and>
   length (filter (invalidates example_query) (refreshProjectQueries ''p'' example_change ([] :: unit saved_tab list option list) [])) = 1"
proof
  show affected: "affectedQuery ''p'' example_change example_query" by code_simp
  show "length (filter (invalidates example_query) (refreshProjectQueries ''p'' example_change ([] :: unit saved_tab list option list) [])) = 1"
    using refresh_each_query_once [of example_query "''p''" example_change "[] :: unit saved_tab list option list" "[]"] affected by simp
qed

end
