(* ===== verification/Requests.thy ===== *)
theory Requests
  imports Js_Value
begin

text \<open>
  Requests of the analysis tools, \<open>features/tools/common/analysisRequest.ts\<close>: the default requests, what
  is restored from a saved one, the acknowledgement that a request that cannot be restored was reset,
  and the test whether the current settings are those of the saved result. \<open>hashKey\<close> of the query
  library and the identity React gives a component are parameters.
\<close>

subsection \<open>Defaults\<close>

abbreviation js_nat :: "nat \<Rightarrow> js" where
  "js_nat n \<equiv> JS_Number (Finite (of_nat n))"

definition empty_source :: js where
  "empty_source = JS_Object [(''schema'', JS_String []), (''name'', JS_String [])]"

definition default_annotation :: js where
  "default_annotation = JS_Object
     [(''setup'', JS_Object
         [(''source'', empty_source), (''document'', JS_String []), (''annotation'', JS_String []),
          (''correction'', JS_Null), (''codebook'', JS_Null)]),
      (''inference'', JS_Object
         [(''provider'', JS_String []), (''model'', JS_String []), (''prompt'', JS_String []), (''temperature'', JS_Null),
          (''reasoning'', JS_String ''default''), (''batch_size'', js_nat 20), (''retries'', js_nat 2), (''concurrency'', js_nat 10)]),
      (''examples'', JS_Null), (''processing'', JS_String ''missing'')]"

definition default_topic :: js where
  "default_topic = JS_Object
     [(''inputs'', JS_Array []), (''embedding_model'', JS_String ''sentence-transformers/all-MiniLM-L6-v2''),
      (''tokenizer'', JS_String ''native:plain_words_en''), (''segmentation'', JS_String ''automatic''),
      (''max_segment_tokens'', js_nat 256), (''minimum_topic_size'', js_nat 10), (''seed'', js_nat 0)]"

definition default_frequency :: js where
  "default_frequency = JS_Object [(''inputs'', JS_Array [])]"

definition default_concordance :: js where
  "default_concordance = JS_Object
     [(''inputs'', JS_Array []),
      (''search'', JS_Object
         [(''mode'', JS_String ''text''), (''query'', JS_String []), (''whole_word'', JS_Bool True), (''regex'', JS_Bool False),
          (''case_sensitive'', JS_Bool False), (''ignore_punctuation'', JS_Bool True),
          (''left_context'', js_nat 10), (''right_context'', js_nat 10)])]"

definition default_quotation :: js where
  "default_quotation = JS_Object [(''input'', JS_Object [(''source'', empty_source), (''column'', JS_String [])])]"

definition default_trends :: js where
  "default_trends = JS_Object
     [(''source'', empty_source), (''axis'', JS_String []), (''groups'', JS_Array []), (''measure'', JS_String ''count''),
      (''value'', JS_Null),
      (''interval'', JS_Object [(''type'', JS_String ''time''), (''unit'', JS_String ''day''), (''step'', js_nat 1)]),
      (''timezone'', JS_String ''UTC'')]"

definition default_compare :: js where
  "default_compare = JS_Object
     [(''source'', empty_source), (''category'', JS_String []), (''stack'', JS_Null), (''measure'', JS_String ''count''), (''value'', JS_Null)]"

definition default_scatter :: js where
  "default_scatter = JS_Object
     [(''source'', empty_source), (''x'', JS_String []), (''y'', JS_String []), (''color'', JS_Null), (''size'', JS_Null), (''label'', JS_Null)]"

definition default_heatmap :: js where
  "default_heatmap = JS_Object
     [(''source'', empty_source), (''row'', JS_String []), (''column'', JS_String []), (''measure'', JS_String ''count''), (''value'', JS_Null)]"

definition default_sankey :: js where
  "default_sankey = JS_Object
     [(''source'', empty_source), (''stages'', JS_Array []), (''measure'', JS_String ''count''), (''value'', JS_Null)]"

datatype request_kind = Annotation | Topic_modeling | Frequency | Concordance | Quotation | Trends | Compare | Scatter | Heatmap | Sankey

fun kind_name :: "request_kind \<Rightarrow> string" where
  "kind_name Annotation = ''annotation''"
| "kind_name Topic_modeling = ''topic-modeling''"
| "kind_name Frequency = ''frequency''"
| "kind_name Concordance = ''concordance''"
| "kind_name Quotation = ''quotation''"
| "kind_name Trends = ''trends''"
| "kind_name Compare = ''compare''"
| "kind_name Scatter = ''scatter''"
| "kind_name Heatmap = ''heatmap''"
| "kind_name Sankey = ''sankey''"

fun defaultAnalysisRequest :: "request_kind \<Rightarrow> js" where
  "defaultAnalysisRequest Annotation = default_annotation"
| "defaultAnalysisRequest Topic_modeling = default_topic"
| "defaultAnalysisRequest Frequency = default_frequency"
| "defaultAnalysisRequest Concordance = default_concordance"
| "defaultAnalysisRequest Quotation = default_quotation"
| "defaultAnalysisRequest Trends = default_trends"
| "defaultAnalysisRequest Compare = default_compare"
| "defaultAnalysisRequest Scatter = default_scatter"
| "defaultAnalysisRequest Heatmap = default_heatmap"
| "defaultAnalysisRequest Sankey = default_sankey"

subsection \<open>Restoration\<close>

record request_issue =
  ri_path :: string
  ri_value :: js
  ri_explanation :: js

record restored_request =
  rq_request :: js
  rq_issues :: "request_issue list"

text \<open>\<open>a ?? b\<close>.\<close>

definition nullish_or :: "js \<Rightarrow> js \<Rightarrow> js" where
  "nullish_or a b = (if a = JS_Undefined \<or> a = JS_Null then b else a)"

definition supported :: "request_kind \<Rightarrow> js \<Rightarrow> bool" where
  "supported kind state \<longleftrightarrow>
     get state ''status'' = JS_String ''supported'' \<and> get (get state ''request'') ''kind'' = JS_String (kind_name kind)"

definition decodeAnalysisRequest :: "request_kind \<Rightarrow> js \<Rightarrow> js \<Rightarrow> restored_request" where
  "decodeAnalysisRequest kind state original =
     (if supported kind state then \<lparr>rq_request = get (get state ''request'') ''request'', rq_issues = []\<rparr>
      else \<lparr>rq_request = defaultAnalysisRequest kind,
            rq_issues =
              (if truthy state
               then [\<lparr>ri_path = ''(request)'', ri_value = nullish_or original state,
                      ri_explanation =
                        (if get state ''status'' = JS_String ''unsupported'' then get state ''reason''
                         else JS_String ''Analysis kind does not match.'')\<rparr>]
               else [])\<rparr>)"

definition decodeAnnotationSetup :: "js \<Rightarrow> js \<Rightarrow> restored_request" where
  "decodeAnnotationSetup state original =
     (if get state ''status'' = JS_String ''supported'' then \<lparr>rq_request = get state ''request'', rq_issues = []\<rparr>
      else \<lparr>rq_request = get default_annotation ''setup'',
            rq_issues =
              (if truthy state
               then [\<lparr>ri_path = ''(setup)'', ri_value = nullish_or original state, ri_explanation = get state ''reason''\<rparr>]
               else [])\<rparr>)"

subsection \<open>Acknowledged resets\<close>

text \<open>
  The store maps identities to flags. \<open>scope\<close> is the project and tab, or absent; then the identity React
  gave the component stands for it.
\<close>

type_synonym acknowledged = "string \<rightharpoonup> bool"

definition reset_identity :: "(js \<Rightarrow> string) \<Rightarrow> string \<Rightarrow> (string \<times> string) option \<Rightarrow> js \<Rightarrow> string" where
  "reset_identity hashKey localId scope original =
     hashKey (JS_Array
       [case scope of Some (base, tab) \<Rightarrow> JS_Array [JS_String base, JS_String tab] | None \<Rightarrow> JS_String localId, original])"

definition resetDone :: "(js \<Rightarrow> string) \<Rightarrow> string \<Rightarrow> (string \<times> string) option \<Rightarrow> js \<Rightarrow> acknowledged \<Rightarrow> bool" where
  "resetDone hashKey localId scope original st \<longleftrightarrow> st (reset_identity hashKey localId scope original) = Some True"

definition acknowledge :: "(js \<Rightarrow> string) \<Rightarrow> string \<Rightarrow> (string \<times> string) option \<Rightarrow> js \<Rightarrow> acknowledged \<Rightarrow> acknowledged" where
  "acknowledge hashKey localId scope original st = st(reset_identity hashKey localId scope original \<mapsto> True)"

text \<open>The \<open>analysis\<close> of \<open>useRequestRestoration\<close> is an object, \<open>null\<close> or \<open>undefined\<close>.\<close>

definition restoration_original :: "js \<Rightarrow> js" where
  "restoration_original analysis = JS_Array [get analysis ''id'', get analysis ''request'']"

definition restored :: "request_kind \<Rightarrow> js \<Rightarrow> restored_request" where
  "restored kind analysis = decodeAnalysisRequest kind (get analysis ''request_status'') (get analysis ''request'')"

definition blocked :: "(js \<Rightarrow> string) \<Rightarrow> string \<Rightarrow> (string \<times> string) option \<Rightarrow> request_kind \<Rightarrow> js \<Rightarrow> acknowledged \<Rightarrow> bool" where
  "blocked hashKey localId scope kind analysis st \<longleftrightarrow>
     rq_issues (restored kind analysis) \<noteq> [] \<and> \<not> resetDone hashKey localId scope (restoration_original analysis) st"

text \<open>\<open>reset\<close>: the request handed to \<open>change\<close> and the store afterwards.\<close>

definition reset :: "(js \<Rightarrow> string) \<Rightarrow> string \<Rightarrow> (string \<times> string) option \<Rightarrow> request_kind \<Rightarrow> js \<Rightarrow> acknowledged \<Rightarrow> js \<times> acknowledged" where
  "reset hashKey localId scope kind analysis st =
     (defaultAnalysisRequest kind, acknowledge hashKey localId scope (restoration_original analysis) st)"

subsection \<open>Matching\<close>

text \<open>\<open>name in value\<close> for an own property.\<close>

fun has_property :: "js \<Rightarrow> string \<Rightarrow> bool" where
  "has_property (JS_Object props) name = (name \<in> fst ` set props)"
| "has_property _ name = False"

fun map_array :: "(js \<Rightarrow> js) \<Rightarrow> js \<Rightarrow> js" where
  "map_array f (JS_Array xs) = JS_Array (map f xs)"
| "map_array f v = v"

definition execution_tokenizer :: "js \<Rightarrow> js \<Rightarrow> js" where
  "execution_tokenizer request input =
     put ''tokenizer'' (if get (get request ''search'') ''mode'' = JS_String ''text'' then JS_Null else get input ''tokenizer'') input"

definition execution :: "request_kind \<Rightarrow> js \<Rightarrow> js" where
  "execution kind request =
     (case kind of
        Concordance \<Rightarrow> put ''inputs'' (map_array (execution_tokenizer request) (get request ''inputs'')) request
      | Annotation \<Rightarrow> put ''setup'' (put ''correction'' JS_Null (get request ''setup'')) request
      | _ \<Rightarrow> request)"

definition matchesAnalysisRequest :: "(js \<Rightarrow> string) \<Rightarrow> request_kind \<Rightarrow> js \<Rightarrow> js \<Rightarrow> bool" where
  "matchesAnalysisRequest hashKey kind current saved =
     (if \<not> truthy saved then False
      else if has_property saved ''status'' \<and> \<not> supported kind saved then False
      else hashKey (JS_Array [execution kind current]) =
           hashKey (JS_Array [execution kind (if has_property saved ''status'' then get (get saved ''request'') ''request'' else saved)]))"

subsection \<open>Restored requests match\<close>

lemma status_present: "get state ''status'' = JS_String s \<Longrightarrow> has_property state ''status'' \<and> truthy state"
  by (cases state) (auto simp: get_member_def map_of_SomeD image_iff split: option.splits dest!: map_of_SomeD intro: rev_bexI)

text \<open>
  Restoring and matching agree, whatever the hash function does: a saved status is restored without
  an issue exactly when some request can match it, the restored request then does match it, so a tab
  reopened on its own request shows its result as current, and otherwise the request is the default one
  of the tool.
\<close>

theorem restored_request_matches:
  assumes "truthy state" and "has_property state ''status''"
  shows "(rq_issues (decodeAnalysisRequest kind state original) = [] \<longleftrightarrow>
            (\<exists>current. matchesAnalysisRequest hashKey kind current state)) \<and>
         (if rq_issues (decodeAnalysisRequest kind state original) = []
          then matchesAnalysisRequest hashKey kind (rq_request (decodeAnalysisRequest kind state original)) state
          else rq_request (decodeAnalysisRequest kind state original) = defaultAnalysisRequest kind)"
  using assms by (auto simp: decodeAnalysisRequest_def matchesAnalysisRequest_def)

definition example_status :: js where
  "example_status = JS_Object [(''status'', JS_String ''supported''),
     (''request'', JS_Object [(''kind'', JS_String ''frequency''), (''request'', default_frequency)])]"

theorem restored_request_matches_witness:
  "matchesAnalysisRequest (\<lambda>v. if v = JS_Null then ''0'' else ''1'') Frequency default_frequency example_status"
proof -
  have "truthy example_status" "has_property example_status ''status''"
    "rq_issues (decodeAnalysisRequest Frequency example_status JS_Null) = []"
    "rq_request (decodeAnalysisRequest Frequency example_status JS_Null) = default_frequency" by code_simp+
  then show ?thesis using restored_request_matches [of example_status Frequency JS_Null] by simp
qed

subsection \<open>What matching ignores\<close>

lemma execution_text_tokenizers:
  assumes "get (get (JS_Object props) ''search'') ''mode'' = JS_String ''text''" "length tokenizers = length inputs"
  shows "execution Concordance (put ''inputs'' (JS_Array (map2 (put ''tokenizer'') tokenizers inputs)) (JS_Object props)) =
         execution Concordance (put ''inputs'' (JS_Array inputs) (JS_Object props))"
proof -
  have "map (\<lambda>input. put ''tokenizer'' JS_Null input) (map2 (put ''tokenizer'') tokenizers inputs) = map (put ''tokenizer'' JS_Null) inputs"
    using assms(2) by (induction tokenizers inputs rule: list_induct2) simp_all
  moreover have "execution_tokenizer (JS_Object (AList.update ''inputs'' v props)) = put ''tokenizer'' JS_Null" for v
    using assms(1) by (intro ext) (simp add: execution_tokenizer_def)
  ultimately show ?thesis by (simp add: execution_def)
qed

text \<open>
  A concordance result stays current when only the tokenizers of the inputs change and the search is a
  text search, and an annotation result when only the correction column changes.
\<close>

theorem matching_ignores_unused_settings:
  "(get (get (JS_Object props) ''search'') ''mode'' = JS_String ''text'' \<and> length tokenizers = length inputs \<longrightarrow>
      matchesAnalysisRequest hashKey Concordance
        (put ''inputs'' (JS_Array (map2 (put ''tokenizer'') tokenizers inputs)) (JS_Object props)) saved =
      matchesAnalysisRequest hashKey Concordance (put ''inputs'' (JS_Array inputs) (JS_Object props)) saved) \<and>
   matchesAnalysisRequest hashKey Annotation (put ''setup'' (put ''correction'' column setup) (JS_Object props)) saved =
   matchesAnalysisRequest hashKey Annotation (put ''setup'' setup (JS_Object props)) saved"
proof -
  have "execution Annotation (put ''setup'' (put ''correction'' column setup) (JS_Object props)) =
      execution Annotation (put ''setup'' setup (JS_Object props))"
    by (simp add: execution_def)
  then show ?thesis using execution_text_tokenizers by (simp add: matchesAnalysisRequest_def del: put.simps get.simps)
qed

text \<open>
  Resetting unblocks: after a reset the request is the tool's default and the tab is no longer
  blocked, and, when the hash tells identities apart, every other restoration is blocked exactly as
  before.
\<close>

theorem reset_unblocks:
  assumes "reset_identity hashKey localId scope (restoration_original analysis) \<noteq>
           reset_identity hashKey otherId otherScope (restoration_original otherAnalysis)"
  shows "fst (reset hashKey localId scope kind analysis st) = defaultAnalysisRequest kind \<and>
         \<not> blocked hashKey localId scope kind analysis (snd (reset hashKey localId scope kind analysis st)) \<and>
         (blocked hashKey otherId otherScope otherKind otherAnalysis (snd (reset hashKey localId scope kind analysis st)) \<longleftrightarrow>
          blocked hashKey otherId otherScope otherKind otherAnalysis st)"
  using assms by (simp add: reset_def blocked_def resetDone_def acknowledge_def)

theorem reset_unblocks_witness:
  "\<not> blocked (\<lambda>v. if v = JS_Array [JS_String ''x'', JS_Array [JS_Undefined, JS_Undefined]] then ''1'' else ''2'') ''x'' None Frequency JS_Null
      (snd (reset (\<lambda>v. if v = JS_Array [JS_String ''x'', JS_Array [JS_Undefined, JS_Undefined]] then ''1'' else ''2'') ''x'' None Frequency JS_Null Map.empty))"
  using reset_unblocks [of "\<lambda>v. if v = JS_Array [JS_String ''x'', JS_Array [JS_Undefined, JS_Undefined]] then ''1'' else ''2''"
      "''x''" None JS_Null "''y''" None JS_Null Frequency Map.empty Frequency]
  by (simp add: reset_identity_def restoration_original_def)

end
