(* ===== verification/Build_Types.thy ===== *)
theory Build_Types
  imports Build_Laws
begin

text \<open>
  The types of build expressions as a typing relation. The translation of a token computes its SQL, its type
  and its summary mark together and fails in many places; the rules below say which tokens have a type,
  and which, without the SQL. The property of this theory is that the translation accepts exactly the
  typed tokens, with the type of the rules.
\<close>

declare buildType.simps [simp del]

subsection \<open>Steps\<close>

definition succeeds :: "'a result \<Rightarrow> bool" where
  "succeeds r \<longleftrightarrow> (\<exists>x. r = Inr x)"

lemma succeeds_simps [simp]: "succeeds (Inr x)" "\<not> succeeds (throw m)" "\<not> succeeds (Inl e)"
  by (simp_all add: succeeds_def throw_def)

lemma succeeds_rbind: "succeeds (rbind r f) \<longleftrightarrow> (\<exists>x. r = Inr x \<and> succeeds (f x))"
  by (cases r) simp_all

lemma succeeds_rmap: "succeeds (rmap f xs) \<longleftrightarrow> list_all (\<lambda>x. succeeds (f x)) xs"
proof (induction xs)
  case (Cons x xs)
  then show ?case by (cases "f x"; cases "rmap f xs") simp_all
qed simp

text \<open>A step applies to a type: its operation accepts the type, and its arguments are complete.\<close>

definition step_applies :: "build_operation \<Rightarrow> build_type \<Rightarrow> bool \<Rightarrow> bool" where
  "step_applies operation t summarized \<longleftrightarrow>
     (let def = operationDefinition (bo_kind operation); args = bo_arguments operation in
      (def_accepts def t \<or> t = T_unknown) \<and> \<not> (def_summary def \<and> summarized) \<and>
      list_all (\<lambda>p. succeeds (check_parameter args p)) (def_parameters def t) \<and> succeeds (def_sql def [] args t))"

definition step_type :: "build_operation \<Rightarrow> build_type \<Rightarrow> build_type" where
  "step_type operation t =
     (let def = operationDefinition (bo_kind operation) in
      if t = T_unknown \<and> \<not> def_accepts def t then T_unknown else def_result def t)"

definition step_summary :: "build_operation \<Rightarrow> bool" where
  "step_summary operation = def_summary (operationDefinition (bo_kind operation))"

inductive typed_steps :: "build_operation list \<Rightarrow> build_type \<Rightarrow> bool \<Rightarrow> build_type \<Rightarrow> bool \<Rightarrow> bool" where
  No_step: "typed_steps [] t s t s"
| Step: "step_applies operation t s \<Longrightarrow>
    typed_steps rest (step_type operation t) (s \<or> step_summary operation) t' s' \<Longrightarrow>
    typed_steps (operation # rest) t s t' s'"

inductive_simps typed_steps_simps [simp]: "typed_steps [] t s t' s'" "typed_steps (operation # rest) t s t' s'"

subsection \<open>Tokens\<close>

definition literal_fits :: "build_literal_type \<Rightarrow> string \<Rightarrow> bool" where
  "literal_fits kind v =
     (case kind of L_number \<Rightarrow> numeric_text (trim v) | L_boolean \<Rightarrow> v = ''true'' \<or> v = ''false'' | _ \<Rightarrow> True)"

text \<open>Every part is NULL or of the family, unless the type of some part is unknown.\<close>

definition parts_in :: "(build_type \<Rightarrow> bool) \<Rightarrow> build_type list \<Rightarrow> bool" where
  "parts_in in_family ts \<longleftrightarrow> T_unknown \<in> set ts \<or> list_all (\<lambda>t. t = T_null \<or> in_family t) ts"

inductive combines :: "combination_kind \<Rightarrow> build_type list \<Rightarrow> build_type \<Rightarrow> bool" where
  Joined_text: "parts_in (\<lambda>t. t \<noteq> T_unsupported \<and> (\<forall>e. t \<noteq> T_list e)) ts \<Longrightarrow> combines C_text ts T_text"
| Arithmetic: "kind \<in> {C_add, C_subtract, C_multiply, C_divide} \<Longrightarrow> T_unknown \<notin> set ts \<Longrightarrow>
    parts_in (\<lambda>t. t = T_number) ts \<Longrightarrow> combines kind ts T_number"
| Arithmetic_unknown: "kind \<in> {C_add, C_subtract, C_multiply, C_divide} \<Longrightarrow> T_unknown \<in> set ts \<Longrightarrow> combines kind ts T_unknown"
| Extremum: "kind \<in> {C_greatest, C_least} \<Longrightarrow> parts_in (\<lambda>t. t = T_number) ts \<Longrightarrow> combines kind ts (commonType ts)"
| Coalesce: "combines C_coalesce ts (commonType ts)"
| Listed: "combines C_list ts (T_list (commonType ts))"
| Concatenated: "parts_in (\<lambda>t. \<exists>e. t = T_list e) ts \<Longrightarrow> combines C_list_concat ts (commonType ts)"
| Connective: "kind \<in> {C_and, C_or} \<Longrightarrow> parts_in (\<lambda>t. t = T_boolean) ts \<Longrightarrow> combines kind ts T_boolean"

inductive typed :: "column_info list \<Rightarrow> build_token \<Rightarrow> build_type \<Rightarrow> bool \<Rightarrow> bool" for columns where
  Column: "field_of columns column = Some f \<Longrightarrow> typed_steps operations (buildType (Some f)) False t s \<Longrightarrow>
    typed columns (Column_Token i operations column) t s"
| Literal: "literal_fits kind v \<Longrightarrow> typed_steps operations (literal_family kind) False t s \<Longrightarrow>
    typed columns (Literal_Token i operations kind v) t s"
| Sql: "trim expression \<noteq> [] \<Longrightarrow> typed_steps operations T_unknown False t s \<Longrightarrow>
    typed columns (Sql_Token i operations expression) t s"
| Combination: "list_all2 (\<lambda>child part. typed columns child (fst part) (snd part)) children parts \<Longrightarrow> children \<noteq> [] \<Longrightarrow>
    combines (comb_kind c) (map fst parts) t0 \<Longrightarrow> typed_steps operations t0 (list_ex snd parts) t s \<Longrightarrow>
    typed columns (Combination_Token i operations (Some c) children) t s"

inductive_cases typed_combinationE: "typed columns (Combination_Token i operations c children) t s"
inductive_simps typed_leaf_simps:
  "typed columns (Column_Token i operations column) t s"
  "typed columns (Literal_Token i operations kind v) t s"
  "typed columns (Sql_Token i operations expression) t s"

subsection \<open>The translation follows the rules\<close>

lemma def_sql_text_free:
  "succeeds (def_sql (BUILD_OPERATIONS k) e a t) \<longleftrightarrow> succeeds (def_sql (BUILD_OPERATIONS k) [] a t)"
  by (cases k) (simp_all add: catalogue succeeds_rbind split: option.split)

text \<open>A result that is a chain of the type and the summary mark.\<close>

definition yields :: "build_chain result \<Rightarrow> build_type \<Rightarrow> bool \<Rightarrow> bool" where
  "yields r t s \<longleftrightarrow> (\<exists>chain. r = Inr chain \<and> ch_type chain = t \<and> ch_summarized chain = s)"

lemma yields_simps [simp]:
  "yields (Inr chain) t s \<longleftrightarrow> ch_type chain = t \<and> ch_summarized chain = s"
  "\<not> yields (throw m) t s" "\<not> yields (Inl e) t s"
  by (simp_all add: yields_def throw_def)

lemma yields_rbind: "yields (rbind r f) t s \<longleftrightarrow> (\<exists>x. r = Inr x \<and> yields (f x) t s)"
  by (cases r) simp_all

lemma step_accepted:
  "yields (applyBuildOperation chain operation) t s \<longleftrightarrow>
    step_applies operation (ch_type chain) (ch_summarized chain) \<and>
    t = step_type operation (ch_type chain) \<and> s = (ch_summarized chain \<or> step_summary operation)"
proof -
  have "succeeds (applyBuildOperation chain operation) \<longleftrightarrow> step_applies operation (ch_type chain) (ch_summarized chain)"
    using def_sql_text_free [of "bo_kind operation" "ch_sql chain" "bo_arguments operation" "ch_type chain"]
      succeeds_rmap [of "check_parameter (bo_arguments operation)" "def_parameters (operationDefinition (bo_kind operation)) (ch_type chain)"]
    by (auto simp: applyBuildOperation_def renderBuildOperation_def step_applies_def operationDefinition_def Let_def succeeds_rbind)
      (simp_all add: succeeds_def)
  moreover have "ch_type chain' = step_type operation (ch_type chain) \<and> ch_summarized chain' = (ch_summarized chain \<or> step_summary operation)"
    if "applyBuildOperation chain operation = Inr chain'" for chain'
    using that unfolding applyBuildOperation_def renderBuildOperation_def step_type_def step_summary_def Let_def
    by (auto split: if_splits)
  ultimately show ?thesis by (auto simp: succeeds_def yields_def)
qed

lemma steps_accepted:
  "yields (apply_steps wrap n operations chain) t s \<longleftrightarrow> typed_steps operations (ch_type chain) (ch_summarized chain) t s"
proof (induction operations arbitrary: n chain)
  case (Cons operation rest)
  show ?case
  proof (cases "applyBuildOperation chain operation")
    case (Inl e)
    then show ?thesis
      using step_accepted [of chain operation "step_type operation (ch_type chain)" "ch_summarized chain \<or> step_summary operation"] by simp
  next
    case (Inr chain')
    then show ?thesis
      using step_accepted [of chain operation "ch_type chain'" "ch_summarized chain'"] Cons.IH [of "n + 1" chain'] by simp
  qed
qed auto

lemma literal_accepted: "yields (literalChain kind v) t s \<longleftrightarrow> literal_fits kind v \<and> t = literal_family kind \<and> \<not> s"
  by (cases kind) (auto simp: literalChain_def literal_fits_def yields_rbind)

text \<open>The parts of a combination as the catalogue of combinations sees them.\<close>

lemma known_parts:
  "(T_unknown \<notin> set (map ch_type parts) \<longrightarrow> list_all P (knownTypes parts)) \<longleftrightarrow> parts_in P (map ch_type parts)"
  by (auto simp: knownTypes_def parts_in_def list_all_iff)

lemma family_text_is:
  "family_text t = ''number'' \<longleftrightarrow> t = T_number" "family_text t = ''boolean'' \<longleftrightarrow> t = T_boolean"
  "family_text t = ''list'' \<longleftrightarrow> (\<exists>e. t = T_list e)" "family_text t = ''unknown'' \<longleftrightarrow> t = T_unknown"
  "family_text t = ''unsupported'' \<longleftrightarrow> t = T_unsupported"
  by (cases t; simp)+

lemma parts_in_known: "parts_in (\<lambda>t. t \<noteq> T_unknown \<and> P t) ts \<longleftrightarrow> parts_in P ts"
  by (auto simp: parts_in_def list_all_iff)

inductive_simps combines_simps:
  "combines C_text ts t" "combines C_add ts t" "combines C_subtract ts t" "combines C_multiply ts t"
  "combines C_divide ts t" "combines C_greatest ts t" "combines C_least ts t" "combines C_coalesce ts t"
  "combines C_list ts t" "combines C_list_concat ts t" "combines C_and ts t" "combines C_or ts t"

lemma combine_accepted:
  "yields (combine parts (Some c)) t s \<longleftrightarrow>
    parts \<noteq> [] \<and> combines (comb_kind c) (map ch_type parts) t \<and> s = list_ex ch_summarized parts"
  apply (cases "comb_kind c")
  apply (auto simp: combine_def buildCombinations_def numeric_combinations_def combines_simps combination_type_def all_family_def
      family_text_is parts_in_def knownTypes_def list_all_iff)
  apply (metis imageI)+
  done

lemma leaf_accepted:
  "yields (rbind (columnChain column field []) (apply_steps step_text 0 operations)) t s \<longleftrightarrow>
    (\<exists>f. field = Some f \<and> typed_steps operations (buildType (Some f)) False t s)"
  "yields (rbind (literalChain kind v) (apply_steps step_text 0 operations)) t s \<longleftrightarrow>
    literal_fits kind v \<and> typed_steps operations (literal_family kind) False t s"
  "yields (rbind (sqlChain expression) (apply_steps step_text 0 operations)) t s \<longleftrightarrow>
    trim expression \<noteq> [] \<and> typed_steps operations T_unknown False t s"
proof -
  show "yields (rbind (literalChain kind v) (apply_steps step_text 0 operations)) t s \<longleftrightarrow>
      literal_fits kind v \<and> typed_steps operations (literal_family kind) False t s"
  proof (cases "literalChain kind v")
    case (Inl e)
    then show ?thesis using literal_accepted [of kind v "literal_family kind" False] by simp
  next
    case (Inr chain)
    then show ?thesis
      using literal_accepted [of kind v "ch_type chain" "ch_summarized chain"] by (simp add: steps_accepted)
  qed
qed (auto simp: columnChain_def sqlChain_def steps_accepted split: option.split)

lemma typed_accepted: "typed columns token t s \<Longrightarrow> yields (partChain token columns) t s"
proof (induction rule: typed.induct)
  case (Combination children parts c t0 operations t s i)
  have "\<exists>chains. rmap (\<lambda>child. partChain child columns) children = Inr chains \<and>
      map ch_type chains = map fst parts \<and> map ch_summarized chains = map snd parts"
    using Combination(1)
  proof (induction rule: list_all2_induct)
    case (Cons child children part parts)
    then obtain chains chain where "rmap (\<lambda>child. partChain child columns) children = Inr chains"
      "map ch_type chains = map fst parts" "map ch_summarized chains = map snd parts"
      "partChain child columns = Inr chain" "ch_type chain = fst part" "ch_summarized chain = snd part"
      by (auto simp: yields_def)
    then show ?case by (intro exI [of _ "chain # chains"]) simp
  qed simp
  then obtain chains where chains: "rmap (\<lambda>child. partChain child columns) children = Inr chains"
    "map ch_type chains = map fst parts" "map ch_summarized chains = map snd parts" by blast
  have "list_ex snd parts = list_ex ch_summarized chains"
    using arg_cong [OF chains(3), of "list_ex (\<lambda>b. b)"] by (simp add: list.pred_map comp_def list_ex_iff)
  moreover have "chains \<noteq> []" using Combination(2) rmap_Inr_length [OF chains(1)] by auto
  ultimately have "yields (combine chains (Some c)) t0 (list_ex snd parts)"
    using Combination(3) by (simp add: combine_accepted chains(2))
  then show ?case
    using Combination(4) steps_accepted by (auto simp: chains(1) yields_rbind yields_def [of "combine chains (Some c)"])
qed (simp_all add: leaf_accepted)

lemma accepted_typed: "yields (partChain token columns) t s \<Longrightarrow> typed columns token t s"
proof (induction token columns arbitrary: t s rule: partChain.induct)
  case (2 i operations combination children columns)
  obtain chains c chain where chains: "rmap (\<lambda>child. partChain child columns) children = Inr chains"
    and c: "combination = Some c" and chain: "combine chains (Some c) = Inr chain"
    and steps: "typed_steps operations (ch_type chain) (ch_summarized chain) t s"
    using "2.prems" by (cases combination) (auto simp: yields_rbind steps_accepted combine_def)
  have parts: "list_all2 (\<lambda>child part. typed columns child (fst part) (snd part)) children
      (map (\<lambda>ch. (ch_type ch, ch_summarized ch)) chains)"
    using chains "2.IH" by (auto simp: rmap_Inr_iff list_all2_conv_all_nth)
  have "chains \<noteq> [] \<and> combines (comb_kind c) (map ch_type chains) (ch_type chain) \<and> ch_summarized chain = list_ex ch_summarized chains"
    using combine_accepted [of chains c "ch_type chain" "ch_summarized chain"] chain by simp
  then show ?case
    unfolding c using rmap_Inr_length [OF chains] steps
    by (intro typed.Combination [OF parts]) (auto simp: comp_def list_ex_iff)
qed (simp_all add: leaf_accepted typed_leaf_simps)

text \<open>
  C9: the translation of a token succeeds exactly when the token has a type, and then with the type and the
  summary mark the rules give it, so no token has two types.
\<close>

theorem translation_follows_types:
  "typed columns token t s \<longleftrightarrow>
    (\<exists>chain. partChain token columns = Inr chain \<and> ch_type chain = t \<and> ch_summarized chain = s)"
  using typed_accepted [of columns token t s] accepted_typed [of token columns t s] unfolding yields_def by blast

text \<open>
  A type is stable: the columns a preview or a later edit adds to a block leave the type of every token as it was.
\<close>

lemma typed_more_columns:
  assumes "typed columns token t s" "\<And>name f. field_of columns name = Some f \<Longrightarrow> field_of columns' name = Some f"
  shows "typed columns' token t s"
  using assms(1)
proof (induction rule: typed.induct)
  case (Combination children parts c t0 operations t s i)
  then show ?case by (intro typed.Combination [of columns' children parts]) (auto elim!: list_all2_mono)
qed (auto simp: typed_leaf_simps assms(2))

end
