(* ===== verification/Table_Edits.thy ===== *)
theory Table_Edits
  imports "HOL-Library.AList" Json_Text
begin

text \<open>
  Editing the rows of a table, from \<open>features/table-editing/useTableEditing.ts\<close>: the draft of patches,
  deletions and insertions over the pages of a snapshot, the rows that are shown, and the session's
  save, cancel and release. The values of the session, of a page and of a cell are strings or null
  (\<open>None\<close>); a page's other data is of any type.
\<close>

subsection \<open>Data\<close>

record edit_column =
  ec_name :: string
  ec_data_type :: string
  ec_editable :: bool
  ec_identifier :: bool

record cell_patch =
  cp_row_ref :: string
  cp_column :: string
  cp_value :: "string option"

record inserted_row =
  in_id :: string
  in_before :: "string option"
  in_values :: "string \<rightharpoonup> string option"

text \<open>A JavaScript \<open>Map\<close> and \<open>Set\<close> keep the order of insertion, so they are lists.\<close>

record edit_draft =
  dr_patches :: "(string \<times> cell_patch) list"
  dr_deletions :: "string list"
  dr_insertions :: "inserted_row list"

datatype display_row = Source string nat | Inserted inserted_row

fun row_ref :: "display_row \<Rightarrow> string" where
  "row_ref (Source r _) = r"
| "row_ref (Inserted i) = in_id i"

record 'r edit_page =
  pg_rowRefs :: "string list"
  pg_rows :: "'r list"
  pg_editableValues :: "(string \<rightharpoonup> string option) list"
  pg_options :: "string \<rightharpoonup> string list"

text \<open>What a request of the session carries.\<close>

datatype edit_call =
    Save_call "cell_patch list" "string list" "(string \<rightharpoonup> string option) list"
  | Cancel_call

text \<open>The parameters of the hook and its state.\<close>

record edit_config =
  cf_columns :: "edit_column list"
  cf_editableColumns :: "string list option"
  cf_allowRowChanges :: bool

record 'r table_editing =
  te_page :: int
  te_pageSize :: int
  te_sorting :: "(string \<times> bool) list"
  te_nextRow :: nat
  te_draft :: edit_draft
  te_rows :: "'r edit_page option"
  te_saving :: bool
  te_cancelling :: bool
  te_finished :: bool
  te_mounted :: bool
  te_microtasks :: nat
  te_calls :: "edit_call list"

definition empty_draft :: edit_draft where
  "empty_draft = \<lparr>dr_patches = [], dr_deletions = [], dr_insertions = []\<rparr>"

definition default_row_changes :: "string list option \<Rightarrow> bool" where
  "default_row_changes editableColumns \<longleftrightarrow> editableColumns = None"

definition initial_editing :: "int \<Rightarrow> 'r table_editing" where
  "initial_editing initialPageSize =
     \<lparr>te_page = 1, te_pageSize = initialPageSize, te_sorting = [], te_nextRow = 0, te_draft = empty_draft,
      te_rows = None, te_saving = False, te_cancelling = False, te_finished = False, te_mounted = False,
      te_microtasks = 0, te_calls = []\<rparr>"

definition busy :: "'r table_editing \<Rightarrow> bool" where
  "busy e \<longleftrightarrow> te_saving e \<or> te_cancelling e"

subsection \<open>The rows shown\<close>

text \<open>The insertions grouped by the row they stand above.\<close>

definition add_to_group ::
    "inserted_row \<Rightarrow> (string option \<rightharpoonup> inserted_row list) \<Rightarrow> (string option \<rightharpoonup> inserted_row list)" where
  "add_to_group row before =
     (let group = (case before (in_before row) of Some g \<Rightarrow> g | None \<Rightarrow> []) in before(in_before row \<mapsto> group @ [row]))"

definition insertion_groups :: "inserted_row list \<Rightarrow> (string option \<rightharpoonup> inserted_row list)" where
  "insertion_groups rows = fold add_to_group rows Map.empty"

definition group_of :: "edit_draft \<Rightarrow> string option \<Rightarrow> display_row list" where
  "group_of draft anchor =
     map Inserted (case insertion_groups (dr_insertions draft) anchor of Some g \<Rightarrow> g | None \<Rightarrow> [])"

fun source_rows :: "edit_draft \<Rightarrow> nat \<Rightarrow> string list \<Rightarrow> display_row list" where
  "source_rows draft sourceIndex [] = []"
| "source_rows draft sourceIndex (r # refs) =
     group_of draft (Some r) @ (if r \<in> set (dr_deletions draft) then [] else [Source r sourceIndex]) @
     source_rows draft (Suc sourceIndex) refs"

definition page_refs :: "'r table_editing \<Rightarrow> string list" where
  "page_refs e = (case te_rows e of Some data \<Rightarrow> pg_rowRefs data | None \<Rightarrow> [])"

definition displayed :: "'r table_editing \<Rightarrow> display_row list" where
  "displayed e =
     source_rows (te_draft e) 0 (page_refs e) @ (if te_page e = 1 then group_of (te_draft e) None else [])"

text \<open>The values in the table: the page's row, or a row of nulls.\<close>

definition shown_row :: "'r \<Rightarrow> 'r table_editing \<Rightarrow> display_row \<Rightarrow> 'r" where
  "shown_row blank e row =
     (case row of
        Source _ i \<Rightarrow>
          (case te_rows e of Some data \<Rightarrow> if i < length (pg_rows data) then pg_rows data ! i else blank | None \<Rightarrow> blank)
      | Inserted _ \<Rightarrow> blank)"

definition shown_rows :: "'r \<Rightarrow> 'r table_editing \<Rightarrow> 'r list" where
  "shown_rows blank e = map (shown_row blank e) (displayed e)"

definition rowIds :: "'r table_editing \<Rightarrow> string list" where
  "rowIds e = map row_ref (displayed e)"

subsection \<open>Adding and deleting rows\<close>

text \<open>
  \<open>splice(index, 0, row)\<close>; \<open>findIndex\<close> gives -1 where nothing matches, and a negative index counts from
  the end. An operation takes the editor of the render its closure was made in and the current one.
\<close>

definition find_index :: "('a \<Rightarrow> bool) \<Rightarrow> 'a list \<Rightarrow> int" where
  "find_index P xs = (case find (\<lambda>i. P (xs ! i)) [0..<length xs] of Some i \<Rightarrow> int i | None \<Rightarrow> -1)"

definition splice_in :: "int \<Rightarrow> 'a \<Rightarrow> 'a list \<Rightarrow> 'a list" where
  "splice_in index x xs =
     (let i = (if index < 0 then nat (int (length xs) + index) else nat index) in take i xs @ x # drop i xs)"

definition blank_values :: "edit_column list \<Rightarrow> string \<rightharpoonup> string option" where
  "blank_values columns = map_of (map (\<lambda>c. (ec_name c, None)) (filter (\<lambda>c. ec_editable c \<or> ec_identifier c) columns))"

definition element_at :: "'a list \<Rightarrow> nat \<Rightarrow> 'a option" where
  "element_at xs i = (if i < length xs then Some (xs ! i) else None)"

definition new_row_id :: "nat \<Rightarrow> string" where
  "new_row_id n = ''new:'' @ show_nat n"

definition anchor_of :: "string list \<Rightarrow> display_row option \<Rightarrow> string option" where
  "anchor_of refs target =
     (case target of
        Some (Inserted i) \<Rightarrow> in_before i
      | Some (Source r _) \<Rightarrow> Some r
      | None \<Rightarrow> (case refs of [] \<Rightarrow> None | r # _ \<Rightarrow> Some r))"

definition insert_row :: "display_row option \<Rightarrow> inserted_row \<Rightarrow> edit_draft \<Rightarrow> edit_draft" where
  "insert_row target insertion draft =
     (let insertions = dr_insertions draft;
          index = (case target of
                     Some (Inserted i) \<Rightarrow> find_index (\<lambda>row. in_id row = in_id i) insertions
                   | _ \<Rightarrow> int (length insertions))
      in draft\<lparr>dr_insertions := splice_in index insertion insertions\<rparr>)"

definition addRowAbove :: "edit_config \<Rightarrow> nat option \<Rightarrow> 'r table_editing \<Rightarrow> 'r table_editing \<Rightarrow> 'r table_editing" where
  "addRowAbove cf rowIndex rendered e =
     (if busy rendered \<or> te_rows rendered = None then e
      else
        let target = (case rowIndex of Some i \<Rightarrow> element_at (displayed rendered) i | None \<Rightarrow> None);
            insertion = \<lparr>in_id = new_row_id (te_nextRow e), in_before = anchor_of (page_refs rendered) target,
                         in_values = blank_values (cf_columns cf)\<rparr>
        in e\<lparr>te_nextRow := te_nextRow e + 1, te_draft := insert_row target insertion (te_draft e)\<rparr>)"

definition add_deletion :: "string \<Rightarrow> string list \<Rightarrow> string list" where
  "add_deletion r deletions = (if r \<in> set deletions then deletions else deletions @ [r])"

definition delete_shown :: "display_row \<Rightarrow> edit_draft \<Rightarrow> edit_draft" where
  "delete_shown target draft =
     (case target of
        Inserted i \<Rightarrow> draft\<lparr>dr_insertions := filter (\<lambda>row. in_id row \<noteq> in_id i) (dr_insertions draft)\<rparr>
      | Source r _ \<Rightarrow>
          draft\<lparr>dr_patches := filter (\<lambda>(key, patch). cp_row_ref patch \<noteq> r) (dr_patches draft),
                dr_deletions := add_deletion r (dr_deletions draft)\<rparr>)"

definition deleteRow :: "nat \<Rightarrow> 'r table_editing \<Rightarrow> 'r table_editing \<Rightarrow> 'r table_editing" where
  "deleteRow rowIndex rendered e =
     (if busy rendered then e
      else case element_at (displayed rendered) rowIndex of
             None \<Rightarrow> e
           | Some target \<Rightarrow> e\<lparr>te_draft := delete_shown target (te_draft e)\<rparr>)"

subsection \<open>Cells\<close>

text \<open>
  The original of a source cell is a member of the row object of the page, so a column the page has no
  value of can read an inherited member.
\<close>

record edit_cell =
  ce_rowRef :: string
  ce_column :: edit_column
  ce_original :: "string option property"
  ce_value :: "string option property"
  ce_options :: "string list option"
  ce_changed :: bool
  ce_disabled :: bool

definition column_named :: "edit_config \<Rightarrow> string \<Rightarrow> edit_column option" where
  "column_named cf name = find (\<lambda>c. ec_name c = name) (cf_columns cf)"

definition column_allowed :: "edit_config \<Rightarrow> string \<Rightarrow> bool" where
  "column_allowed cf name \<longleftrightarrow> (case cf_editableColumns cf of None \<Rightarrow> True | Some names \<Rightarrow> name \<in> set names)"

definition patch_key :: "string \<Rightarrow> string \<Rightarrow> string" where
  "patch_key rowRef name = json_strings [rowRef, name]"

definition referencedCell ::
    "edit_config \<Rightarrow> 'r table_editing \<Rightarrow> string \<Rightarrow> string \<Rightarrow> string option property \<Rightarrow> string list option \<Rightarrow> edit_cell option" where
  "referencedCell cf e rowRef name original options =
     (case column_named cf name of
        None \<Rightarrow> None
      | Some column \<Rightarrow>
          if \<not> ec_editable column \<or> \<not> column_allowed cf name then None
          else
            let patch = map_of (dr_patches (te_draft e)) (patch_key rowRef name) in
            Some \<lparr>ce_rowRef = rowRef, ce_column = column, ce_original = original,
                  ce_value = (case patch of Some p \<Rightarrow> Own (cp_value p) | None \<Rightarrow> original),
                  ce_options = options, ce_changed = (patch \<noteq> None), ce_disabled = busy e\<rparr>)"

definition change_referenced ::
    "string \<Rightarrow> string \<Rightarrow> string option property \<Rightarrow> string option \<Rightarrow> 'r table_editing \<Rightarrow> 'r table_editing \<Rightarrow> 'r table_editing" where
  "change_referenced rowRef name original v rendered e =
     (if busy rendered then e
      else
        let draft = te_draft e; key = patch_key rowRef name;
            patches = (if Own v = original then AList.delete key (dr_patches draft)
                       else AList.update key \<lparr>cp_row_ref = rowRef, cp_column = name, cp_value = v\<rparr> (dr_patches draft))
        in e\<lparr>te_draft := draft\<lparr>dr_patches := patches\<rparr>\<rparr>)"

definition source_original :: "'r edit_page \<Rightarrow> nat \<Rightarrow> string \<Rightarrow> string option property" where
  "source_original data i name =
     (case element_at (pg_editableValues data) i of Some values \<Rightarrow> get_property values name | None \<Rightarrow> Absent)"

definition cell_target :: "edit_config \<Rightarrow> 'r table_editing \<Rightarrow> nat \<Rightarrow> string \<Rightarrow> (edit_column \<times> 'r edit_page \<times> display_row) option" where
  "cell_target cf e rowIndex name =
     (case (column_named cf name, te_rows e, element_at (displayed e) rowIndex) of
        (Some column, Some data, Some row) \<Rightarrow>
          if \<not> column_allowed cf name then None
          else if \<not> ec_editable column \<and> \<not> (ec_identifier column \<and> (\<exists>i. row = Inserted i)) then None
          else Some (column, data, row)
      | _ \<Rightarrow> None)"

definition cell :: "edit_config \<Rightarrow> 'r table_editing \<Rightarrow> nat \<Rightarrow> string \<Rightarrow> edit_cell option" where
  "cell cf e rowIndex name =
     (case cell_target cf e rowIndex name of
        None \<Rightarrow> None
      | Some (column, data, Source r i) \<Rightarrow>
          let original = source_original data i name in
          if original = Absent then None else referencedCell cf e r name original (pg_options data name)
      | Some (column, data, Inserted ins) \<Rightarrow>
          let v = (case in_values ins name of Some v \<Rightarrow> v | None \<Rightarrow> None) in
          Some \<lparr>ce_rowRef = in_id ins, ce_column = column, ce_original = Own None, ce_value = Own v,
                ce_options = pg_options data name, ce_changed = (v \<noteq> None), ce_disabled = busy e\<rparr>)"

definition change_inserted :: "string \<Rightarrow> string \<Rightarrow> string option \<Rightarrow> 'r table_editing \<Rightarrow> 'r table_editing \<Rightarrow> 'r table_editing" where
  "change_inserted rowRef name v rendered e =
     (if busy rendered then e
      else e\<lparr>te_draft := (te_draft e)\<lparr>dr_insertions :=
               map (\<lambda>row. if in_id row = rowRef then row\<lparr>in_values := (in_values row)(name \<mapsto> v)\<rparr> else row)
                 (dr_insertions (te_draft e))\<rparr>\<rparr>)"

text \<open>\<open>onChange\<close> of the cell of a row shown.\<close>

definition change_cell ::
    "edit_config \<Rightarrow> nat \<Rightarrow> string \<Rightarrow> string option \<Rightarrow> 'r table_editing \<Rightarrow> 'r table_editing \<Rightarrow> 'r table_editing" where
  "change_cell cf rowIndex name v rendered e =
     (case (cell cf rendered rowIndex name, element_at (displayed rendered) rowIndex) of
        (Some c, Some (Source r i)) \<Rightarrow> change_referenced r name (ce_original c) v rendered e
      | (Some c, Some (Inserted ins)) \<Rightarrow> change_inserted (in_id ins) name v rendered e
      | _ \<Rightarrow> e)"

subsection \<open>Save, cancel and release\<close>

definition modified :: "edit_draft \<Rightarrow> bool" where
  "modified draft \<longleftrightarrow> length (dr_patches draft) > 0 \<or> length (dr_insertions draft) > 0 \<or> length (dr_deletions draft) > 0"

definition save_payload :: "edit_draft \<Rightarrow> edit_call" where
  "save_payload draft = Save_call (map snd (dr_patches draft)) (dr_deletions draft) (map in_values (dr_insertions draft))"

definition send :: "edit_call \<Rightarrow> 'r table_editing \<Rightarrow> 'r table_editing" where
  "send call e = e\<lparr>te_calls := te_calls e @ [call]\<rparr>"

definition save_mutate :: "'r table_editing \<Rightarrow> 'r table_editing" where
  "save_mutate e = send (save_payload (te_draft e)) (e\<lparr>te_saving := True\<rparr>)"

definition cancel_mutate :: "'r table_editing \<Rightarrow> 'r table_editing" where
  "cancel_mutate e = send Cancel_call (e\<lparr>te_cancelling := True\<rparr>)"

definition save :: "'r table_editing \<Rightarrow> 'r table_editing" where
  "save e = (if busy e then e else save_mutate e)"

definition cancel :: "'r table_editing \<Rightarrow> 'r table_editing" where
  "cancel e = (if busy e then e else cancel_mutate e)"

definition release :: "'r table_editing \<Rightarrow> 'r table_editing" where
  "release e = (if te_finished e then e else send Cancel_call e)"

definition setPage :: "int \<Rightarrow> 'r table_editing \<Rightarrow> 'r table_editing" where
  "setPage v e = (if busy e then e else e\<lparr>te_page := v, te_rows := None\<rparr>)"

definition setPageSize :: "int \<Rightarrow> 'r table_editing \<Rightarrow> 'r table_editing" where
  "setPageSize v e = (if busy e then e else e\<lparr>te_pageSize := v, te_page := 1, te_rows := None\<rparr>)"

definition setSorting :: "(string \<times> bool) list \<Rightarrow> 'r table_editing \<Rightarrow> 'r table_editing" where
  "setSorting v e = (if busy e then e else e\<lparr>te_sorting := v, te_page := 1, te_rows := None\<rparr>)"

text \<open>
  The events of an editor. The rows of a page are read after its query key changed; the handlers of the
  table run on the editor as it was rendered, which is the current one, since an event of the user is
  rendered before the next.
\<close>

datatype 'r edit_event =
    Mounted
  | Unmounted
  | Microtask
  | Page_hidden
  | Page_read "'r edit_page"
  | Add_row "nat option"
  | Delete_row nat
  | Change_cell nat string "string option"
  | Pressed_save
  | Pressed_cancel
  | Save_accepted
  | Save_ended
  | Cancel_accepted
  | Cancel_ended
  | Page_chosen int
  | Page_size_chosen int
  | Sorting_chosen "(string \<times> bool) list"

fun handle_edit :: "edit_config \<Rightarrow> 'r edit_event \<Rightarrow> 'r table_editing \<Rightarrow> 'r table_editing" where
  "handle_edit cf Mounted e = e\<lparr>te_mounted := True\<rparr>"
| "handle_edit cf Unmounted e = e\<lparr>te_mounted := False, te_microtasks := te_microtasks e + 1\<rparr>"
| "handle_edit cf Microtask e =
     (if te_microtasks e = 0 then e
      else let e' = e\<lparr>te_microtasks := te_microtasks e - 1\<rparr> in if te_mounted e then e' else release e')"
| "handle_edit cf Page_hidden e = (if te_mounted e then release e else e)"
| "handle_edit cf (Page_read data) e = e\<lparr>te_rows := Some data\<rparr>"
| "handle_edit cf (Add_row i) e = (if cf_allowRowChanges cf then addRowAbove cf i e e else e)"
| "handle_edit cf (Delete_row i) e = (if cf_allowRowChanges cf then deleteRow i e e else e)"
| "handle_edit cf (Change_cell i name v) e = change_cell cf i name v e e"
| "handle_edit cf Pressed_save e = save e"
| "handle_edit cf Pressed_cancel e = cancel e"
| "handle_edit cf Save_accepted e = (if te_saving e then e\<lparr>te_finished := True\<rparr> else e)"
| "handle_edit cf Save_ended e = e\<lparr>te_saving := False\<rparr>"
| "handle_edit cf Cancel_accepted e = (if te_cancelling e then e\<lparr>te_finished := True\<rparr> else e)"
| "handle_edit cf Cancel_ended e = e\<lparr>te_cancelling := False\<rparr>"
| "handle_edit cf (Page_chosen v) e = setPage v e"
| "handle_edit cf (Page_size_chosen v) e = setPageSize v e"
| "handle_edit cf (Sorting_chosen v) e = setSorting v e"

text \<open>
  What a page of the session holds: distinct references of the snapshot's rows, which are numbers, and
  the values of every row.
\<close>

definition page_ok :: "edit_config \<Rightarrow> 'r edit_page \<Rightarrow> bool" where
  "page_ok cf data \<longleftrightarrow>
     distinct (pg_rowRefs data) \<and> (\<forall>r \<in> set (pg_rowRefs data). \<not> has_prefix ''new:'' r) \<and>
     length (pg_editableValues data) = length (pg_rowRefs data) \<and>
     (\<forall>values \<in> set (pg_editableValues data). \<forall>c \<in> set (cf_columns cf). ec_editable c \<longrightarrow> ec_name c \<in> dom values)"

inductive editing_reachable :: "edit_config \<Rightarrow> 'r table_editing \<Rightarrow> bool" for cf :: edit_config where
  editing_initial: "editing_reachable cf (initial_editing initialPageSize)"
| editing_step: "editing_reachable cf e \<Longrightarrow> (\<And>data. event = Page_read data \<Longrightarrow> page_ok cf data) \<Longrightarrow>
    editing_reachable cf (handle_edit cf event e)"

subsection \<open>Groups and rows\<close>

lemma insertion_groups_filter:
  "group_of draft anchor = map Inserted (filter (\<lambda>row. in_before row = anchor) (dr_insertions draft))"
proof -
  have "(case fold add_to_group rows before anchor of Some g \<Rightarrow> g | None \<Rightarrow> []) =
      (case before anchor of Some g \<Rightarrow> g | None \<Rightarrow> []) @ filter (\<lambda>row. in_before row = anchor) rows" for rows before
    by (induction rows arbitrary: before) (auto simp: add_to_group_def split: option.split)
  then show ?thesis by (simp add: group_of_def insertion_groups_def)
qed

lemma group_of_refs: "row_ref ` set (group_of draft anchor) \<subseteq> in_id ` set (dr_insertions draft)"
  by (auto simp: insertion_groups_filter)

text \<open>
  The rows shown as a sequence of blocks, each an anchor with the rows that follow its group: the row of
  the page unless it is deleted, nothing for the anchor of an empty table.
\<close>

fun page_blocks :: "string list \<Rightarrow> nat \<Rightarrow> string list \<Rightarrow> (string option \<times> display_row list) list" where
  "page_blocks deletions n [] = []"
| "page_blocks deletions n (r # refs) =
     (Some r, if r \<in> set deletions then [] else [Source r n]) # page_blocks deletions (Suc n) refs"

definition blocks :: "'r table_editing \<Rightarrow> (string option \<times> display_row list) list" where
  "blocks e =
     page_blocks (dr_deletions (te_draft e)) 0 (page_refs e) @ (if te_page e = 1 then [(None, [])] else [])"

definition flat :: "('a \<Rightarrow> 'b list) \<Rightarrow> ('a \<times> 'b list) list \<Rightarrow> 'b list" where
  "flat g bs = concat (map (\<lambda>(a, t). g a @ t) bs)"

lemma flat_simps [simp]:
  "flat g [] = []" "flat g ((a, t) # bs) = g a @ t @ flat g bs" "flat g (bs @ cs) = flat g bs @ flat g cs"
  by (simp_all add: flat_def)

lemma flat_cong: "(\<And>a. a \<in> fst ` set bs \<Longrightarrow> g' a = g a) \<Longrightarrow> flat g' bs = flat g bs"
  by (induction bs) auto

lemma source_rows_blocks: "source_rows draft n refs = flat (group_of draft) (page_blocks (dr_deletions draft) n refs)"
  by (induction draft n refs rule: source_rows.induct) simp_all

lemma displayed_blocks: "displayed e = flat (group_of (te_draft e)) (blocks e)"
  by (simp add: displayed_def source_rows_blocks blocks_def)

lemma page_blocks_anchors [simp]: "map fst (page_blocks deletions n refs) = map Some refs"
  by (induction deletions n refs rule: page_blocks.induct) simp_all

lemma blocks_anchors: "distinct (page_refs e) \<Longrightarrow> distinct (map fst (blocks e))"
  by (auto simp: blocks_def distinct_map)

lemma page_blocks_tail:
  "(a, t) \<in> set (page_blocks deletions n refs) \<Longrightarrow> \<exists>r k. a = Some r \<and> r \<in> set refs \<and> (t = [] \<and> r \<in> set deletions \<or> t = [Source r k] \<and> r \<notin> set deletions)"
  by (induction deletions n refs rule: page_blocks.induct) (auto split: if_splits)

lemma blocks_tail:
  assumes "(a, t) \<in> set (blocks e)" "d \<in> set t"
  obtains r k where "a = Some r" "d = Source r k" "t = [d]" "r \<in> set (page_refs e)" "r \<notin> set (dr_deletions (te_draft e))"
  using assms unfolding blocks_def by (auto dest!: page_blocks_tail split: if_splits)

text \<open>Inserting into one group inserts one row into the sequence.\<close>

lemma flat_insert:
  assumes "distinct (map fst bs)" "(a, t) \<in> set bs"
    and "g a = xs @ ys" "g' a = xs @ x # ys" "\<And>b. b \<noteq> a \<Longrightarrow> g' b = g b"
  shows "\<exists>p s. flat g bs = p @ ys @ t @ s \<and> flat g' bs = p @ x # ys @ t @ s"
proof -
  obtain bs1 bs2 where bs: "bs = bs1 @ (a, t) # bs2" using assms(2) by (metis split_list)
  have others: "a \<notin> fst ` set bs1" "a \<notin> fst ` set bs2" using assms(1) bs by auto
  have same: "flat g' bs1 = flat g bs1" "flat g' bs2 = flat g bs2"
    using others by (metis assms(5) flat_cong)+
  have "flat g bs = (flat g bs1 @ xs) @ ys @ t @ flat g bs2 \<and> flat g' bs = (flat g bs1 @ xs) @ x # ys @ t @ flat g bs2"
    using bs same assms(3,4) by simp
  then show ?thesis by blast
qed

lemma distinct_position:
  assumes "distinct ds" "ds = p @ d # s" "i < length ds" "ds ! i = d"
  shows "i = length p"
proof -
  have "length p < length ds" "ds ! length p = d" using assms(2) by simp_all
  then show ?thesis using assms(1,3,4) nth_eq_iff_index_eq by metis
qed

subsection \<open>The invariant\<close>

text \<open>
  Insertions have ids of their own, numbered below the counter; no row is patched and deleted; a patch
  is stored under the key of its cell, once.
\<close>

definition draft_ok :: "nat \<Rightarrow> edit_draft \<Rightarrow> bool" where
  "draft_ok n draft \<longleftrightarrow>
     distinct (map in_id (dr_insertions draft)) \<and>
     in_id ` set (dr_insertions draft) \<subseteq> new_row_id ` {..<n} \<and>
     distinct (map fst (dr_patches draft)) \<and>
     (\<forall>(key, patch) \<in> set (dr_patches draft).
        key = patch_key (cp_row_ref patch) (cp_column patch) \<and> cp_row_ref patch \<notin> set (dr_deletions draft)) \<and>
     distinct (dr_deletions draft)"

definition editing_ok :: "edit_config \<Rightarrow> 'r table_editing \<Rightarrow> bool" where
  "editing_ok cf e \<longleftrightarrow> draft_ok (te_nextRow e) (te_draft e) \<and> (\<forall>data. te_rows e = Some data \<longrightarrow> page_ok cf data)"

lemma new_row_id_inj [simp]: "new_row_id m = new_row_id n \<longleftrightarrow> m = n"
  by (auto simp: new_row_id_def dest: show_nat_inj)

lemma new_row_id_prefix: "has_prefix ''new:'' (new_row_id n)"
  by (simp add: has_prefix_def new_row_id_def)

lemma draft_okD:
  assumes "draft_ok n draft"
  shows "distinct (map in_id (dr_insertions draft))" "in_id ` set (dr_insertions draft) \<subseteq> new_row_id ` {..<n}"
    "distinct (map fst (dr_patches draft))" "distinct (dr_deletions draft)"
    "(key, patch) \<in> set (dr_patches draft) \<Longrightarrow>
       key = patch_key (cp_row_ref patch) (cp_column patch) \<and> cp_row_ref patch \<notin> set (dr_deletions draft)"
  using assms unfolding draft_ok_def by blast+

lemma page_refs_ok:
  assumes "editing_ok cf e"
  shows "distinct (page_refs e)" "r \<in> set (page_refs e) \<Longrightarrow> \<not> has_prefix ''new:'' r"
  using assms by (cases "te_rows e"; simp add: editing_ok_def page_refs_def page_ok_def)+

lemma editing_draft_ok: "editing_ok cf e \<Longrightarrow> draft_ok (te_nextRow e) (te_draft e)"
  by (simp add: editing_ok_def)

text \<open>The ids of the insertions above some anchors.\<close>

definition ids_before :: "edit_draft \<Rightarrow> string option set \<Rightarrow> string set" where
  "ids_before draft P = in_id ` {i \<in> set (dr_insertions draft). in_before i \<in> P}"

lemma ids_before_insert: "ids_before draft (insert a P) = ids_before draft {a} \<union> ids_before draft P"
  by (auto simp: ids_before_def)

lemma ids_before_disjoint:
  assumes "distinct (map in_id (dr_insertions draft))" "P \<inter> Q = {}"
  shows "ids_before draft P \<inter> ids_before draft Q = {}"
proof -
  have inj: "inj_on in_id (set (dr_insertions draft))" using assms(1) by (simp add: distinct_map)
  have sub: "{i \<in> set (dr_insertions draft). in_before i \<in> X} \<subseteq> set (dr_insertions draft)" for X by auto
  have "{i \<in> set (dr_insertions draft). in_before i \<in> P} \<inter> {i \<in> set (dr_insertions draft). in_before i \<in> Q} = {}"
    using assms(2) by blast
  then show ?thesis unfolding ids_before_def by (metis image_empty inj_on_image_Int [OF inj sub sub])
qed

lemma ids_not_refs:
  assumes "editing_ok cf e"
  shows "ids_before (te_draft e) P \<inter> set (page_refs e) = {}"
proof -
  have "x \<in> new_row_id ` {..<te_nextRow e}" if "x \<in> ids_before (te_draft e) P" for x
    using that draft_okD(2) [OF editing_draft_ok [OF assms]] by (auto simp: ids_before_def)
  then have "has_prefix ''new:'' x" if "x \<in> ids_before (te_draft e) P" for x
    using that new_row_id_prefix by blast
  with page_refs_ok(2) [OF assms] show ?thesis by blast
qed

lemma refs_not_inserted:
  assumes "editing_ok cf e" "r \<in> set (page_refs e)"
  shows "r \<notin> in_id ` set (dr_insertions (te_draft e))"
  using ids_not_refs [OF assms(1), of UNIV] assms(2) by (auto simp: ids_before_def)

lemma group_ids: "row_ref ` set (group_of draft anchor) = ids_before draft {anchor}"
  by (simp add: insertion_groups_filter image_image ids_before_def)

lemma group_distinct:
  "distinct (map in_id (dr_insertions draft)) \<Longrightarrow> distinct (map row_ref (group_of draft anchor))"
  by (simp add: insertion_groups_filter comp_def distinct_map inj_on_def)

lemma flat_refs:
  "row_ref ` set (flat (group_of draft) (page_blocks deletions n refs)) \<subseteq> ids_before draft (Some ` set refs) \<union> set refs"
proof (induction deletions n refs rule: page_blocks.induct)
  case (2 deletions n r refs)
  have "row_ref ` set (flat (group_of draft) (page_blocks deletions n (r # refs))) \<subseteq>
      row_ref ` set (group_of draft (Some r)) \<union> {r} \<union> row_ref ` set (flat (group_of draft) (page_blocks deletions (Suc n) refs))"
    by auto
  also have "\<dots> \<subseteq> ids_before draft {Some r} \<union> {r} \<union> (ids_before draft (Some ` set refs) \<union> set refs)"
    using 2 unfolding group_ids by blast
  finally show ?case using ids_before_insert [of draft "Some r" "Some ` set refs"] by auto
qed simp

lemma flat_distinct:
  assumes "distinct refs" "distinct (map in_id (dr_insertions draft))" "\<And>P. ids_before draft P \<inter> set refs = {}"
  shows "distinct (map row_ref (flat (group_of draft) (page_blocks deletions n refs)))"
  using assms(1,3)
proof (induction deletions n refs rule: page_blocks.induct)
  case (2 deletions n r refs)
  let ?rest = "row_ref ` set (flat (group_of draft) (page_blocks deletions (Suc n) refs))"
  have apart: "ids_before draft P \<inter> set refs = {}" "r \<notin> ids_before draft P" for P using "2.prems"(2) [of P] by auto
  have "{Some r} \<inter> Some ` set refs = {}" using "2.prems"(1) by auto
  then have "ids_before draft {Some r} \<inter> ids_before draft (Some ` set refs) = {}" by (rule ids_before_disjoint [OF assms(2)])
  then have group: "row_ref ` set (group_of draft (Some r)) \<inter> ?rest = {}"
    using flat_refs [of draft deletions "Suc n" refs] apart(1) [of "{Some r}"] unfolding group_ids by blast
  have r: "r \<notin> ?rest" "r \<notin> row_ref ` set (group_of draft (Some r))"
    using flat_refs [of draft deletions "Suc n" refs] apart(2) "2.prems"(1) unfolding group_ids by auto
  have "distinct (map row_ref (flat (group_of draft) (page_blocks deletions (Suc n) refs)))"
    using "2.IH" "2.prems"(1) apart(1) by simp
  with group r show ?case using group_distinct [OF assms(2), of "Some r"] by simp
qed simp

lemma rowIds_distinct:
  assumes "editing_ok cf e"
  shows "distinct (rowIds e)"
proof -
  let ?d = "te_draft e" and ?refs = "page_refs e"
  let ?flat = "flat (group_of ?d) (page_blocks (dr_deletions ?d) 0 ?refs)"
  have d: "distinct (map in_id (dr_insertions ?d))" by (rule draft_okD(1) [OF editing_draft_ok [OF assms]])
  note apart = ids_not_refs [OF assms]
  have "ids_before ?d {None} \<inter> ids_before ?d (Some ` set ?refs) = {}" by (rule ids_before_disjoint [OF d]) auto
  then have "row_ref ` set (group_of ?d None) \<inter> row_ref ` set ?flat = {}"
    using flat_refs [of ?d "dr_deletions ?d" 0 ?refs] apart [of "{None}"] unfolding group_ids by blast
  moreover have "distinct (map row_ref ?flat)" by (rule flat_distinct [OF page_refs_ok(1) [OF assms] d apart])
  ultimately show ?thesis
    using group_distinct [OF d, of None] by (simp add: rowIds_def displayed_blocks blocks_def Int_commute)
qed

subsection \<open>Rows are added and deleted where they are shown\<close>

lemma find_index_split:
  assumes "P y" "\<forall>x \<in> set xs. \<not> P x"
  shows "find_index P (xs @ y # ys) = int (length xs)"
proof -
  have "find (\<lambda>i. P ((xs @ y # ys) ! i)) [0..<length (xs @ y # ys)] = Some (length xs)"
    using assms unfolding find_Some_iff by (intro exI [where x = "length xs"]) (auto simp: nth_append)
  then show ?thesis by (simp add: find_index_def)
qed

lemma splice_in_append [simp]: "splice_in (int (length xs)) x (xs @ ys) = xs @ x # ys"
  by (simp add: splice_in_def)

lemma splice_in_end [simp]: "splice_in (int (length xs)) x xs = xs @ [x]"
  using splice_in_append [of xs x "[]"] by simp

lemma displayed_block:
  assumes "d \<in> set (displayed e)"
  obtains a t where "(a, t) \<in> set (blocks e)"
    "d \<in> set t \<or> (\<exists>ins. d = Inserted ins \<and> ins \<in> set (dr_insertions (te_draft e)) \<and> in_before ins = a)"
  using assms unfolding displayed_blocks flat_def by (auto simp: insertion_groups_filter)

text \<open>The new row is put into the group of its anchor, right above the target.\<close>

lemma insert_row_groups:
  assumes "target = Inserted ins" "ins \<in> set (dr_insertions draft)" "distinct (map in_id (dr_insertions draft))"
    and "in_before new = in_before ins"
  obtains xs ys where "group_of draft (in_before ins) = xs @ target # ys"
    and "group_of (insert_row (Some target) new draft) (in_before ins) = xs @ Inserted new # target # ys"
    and "\<And>b. b \<noteq> in_before ins \<Longrightarrow> group_of (insert_row (Some target) new draft) b = group_of draft b"
proof -
  obtain us vs where split: "dr_insertions draft = us @ ins # vs" using assms(2) by (metis split_list)
  have "find_index (\<lambda>row. in_id row = in_id ins) (us @ ins # vs) = int (length us)"
    using assms(3) by (intro find_index_split) (force simp: split image_iff)+
  then have rows: "dr_insertions (insert_row (Some target) new draft) = us @ new # ins # vs"
    by (simp add: insert_row_def assms(1) split)
  show thesis
    by (rule that [of "map Inserted (filter (\<lambda>row. in_before row = in_before ins) us)"
          "map Inserted (filter (\<lambda>row. in_before row = in_before ins) vs)"])
      (simp_all add: insertion_groups_filter rows [unfolded assms(1)] split assms(1,4))
qed

lemma insert_row_appends:
  assumes "\<And>ins. target \<noteq> Some (Inserted ins)"
  shows "group_of (insert_row target new draft) (in_before new) = group_of draft (in_before new) @ [Inserted new]"
    and "b \<noteq> in_before new \<Longrightarrow> group_of (insert_row target new draft) b = group_of draft b"
  using assms by (auto simp: insert_row_def insertion_groups_filter Let_def split: option.splits display_row.splits)

lemma insert_row_blocks: "blocks (e\<lparr>te_nextRow := n, te_draft := insert_row target new (te_draft e)\<rparr>) = blocks e"
  by (simp add: blocks_def insert_row_def page_refs_def Let_def)

definition new_row :: "edit_config \<Rightarrow> display_row option \<Rightarrow> 'r table_editing \<Rightarrow> inserted_row" where
  "new_row cf target e =
     \<lparr>in_id = new_row_id (te_nextRow e), in_before = anchor_of (page_refs e) target, in_values = blank_values (cf_columns cf)\<rparr>"

lemma addRowAbove_current:
  assumes "\<not> busy e" "te_rows e = Some data" "i < length (displayed e)"
  shows "addRowAbove cf (Some i) e e =
    e\<lparr>te_nextRow := te_nextRow e + 1,
      te_draft := insert_row (Some (displayed e ! i)) (new_row cf (Some (displayed e ! i)) e) (te_draft e)\<rparr>"
  using assms by (simp add: addRowAbove_def element_at_def new_row_def Let_def)

lemma add_row_shown:
  assumes ok: "editing_ok cf e" and "\<not> busy e" "te_rows e = Some data" and i: "i < length (displayed e)"
  shows "displayed (addRowAbove cf (Some i) e e) =
    take i (displayed e) @ Inserted (new_row cf (Some (displayed e ! i)) e) # drop i (displayed e)"
proof -
  define target where "target = displayed e ! i"
  define new where "new = new_row cf (Some target) e"
  let ?d = "te_draft e" let ?d' = "insert_row (Some target) new ?d"
  have ids: "distinct (map in_id (dr_insertions ?d))" by (rule draft_okD(1) [OF editing_draft_ok [OF ok]])
  have anchors: "distinct (map fst (blocks e))" by (rule blocks_anchors [OF page_refs_ok(1) [OF ok]])
  have after: "displayed (addRowAbove cf (Some i) e e) = flat (group_of ?d') (blocks e)"
    unfolding addRowAbove_current [OF assms(2-4)] displayed_blocks insert_row_blocks
    by (simp add: target_def new_def displayed_blocks)
  obtain a t where block: "(a, t) \<in> set (blocks e)"
    and where_: "target \<in> set t \<or> (\<exists>ins. target = Inserted ins \<and> ins \<in> set (dr_insertions ?d) \<and> in_before ins = a)"
    using displayed_block [of target e] i unfolding target_def by auto
  have "\<exists>p s. displayed e = p @ target # s \<and> flat (group_of ?d') (blocks e) = p @ Inserted new # target # s"
  proof (cases "target \<in> set t")
    case True
    with block obtain r k where row: "a = Some r" "target = Source r k" "t = [target]" by (rule blocks_tail)
    have "in_before new = a" using row by (simp add: new_def new_row_def anchor_of_def)
    then have "\<exists>p s. flat (group_of ?d) (blocks e) = p @ [] @ t @ s \<and> flat (group_of ?d') (blocks e) = p @ Inserted new # [] @ t @ s"
      using insert_row_appends [where target = "Some target" and new = new and draft = ?d] row(2)
      by (intro flat_insert [OF anchors block, where xs = "group_of ?d a"]) auto
    then show ?thesis unfolding displayed_blocks using row(3) by auto
  next
    case False
    with where_ obtain ins where ins: "target = Inserted ins" "ins \<in> set (dr_insertions ?d)" "in_before ins = a" by blast
    have "in_before new = in_before ins" using ins by (simp add: new_def new_row_def anchor_of_def)
    from insert_row_groups [OF ins(1,2) ids this] obtain xs ys where "group_of ?d a = xs @ target # ys"
      "group_of ?d' a = xs @ Inserted new # target # ys" "\<And>b. b \<noteq> a \<Longrightarrow> group_of ?d' b = group_of ?d b"
      unfolding ins(3) by metis
    from flat_insert [where g = "group_of ?d" and g' = "group_of ?d'", OF anchors block this]
    obtain p s where "displayed e = p @ (target # ys) @ t @ s"
      "flat (group_of ?d') (blocks e) = p @ Inserted new # (target # ys) @ t @ s" unfolding displayed_blocks by blast
    then have "displayed e = p @ target # (ys @ t @ s) \<and> flat (group_of ?d') (blocks e) = p @ Inserted new # target # (ys @ t @ s)"
      by simp
    then show ?thesis by blast
  qed
  then obtain p s where shown: "displayed e = p @ target # s" "flat (group_of ?d') (blocks e) = p @ Inserted new # target # s" by blast
  have "distinct (displayed e)" using rowIds_distinct [OF ok] by (simp add: rowIds_def distinct_map)
  then have "i = length p" using shown(1) i by (rule distinct_position) (simp only: target_def)
  then have "take i (displayed e) = p" "drop i (displayed e) = target # s" by (simp_all add: shown(1))
  then show ?thesis unfolding after shown(2) target_def [symmetric] new_def [symmetric] by simp
qed

lemma flat_filter: "flat (\<lambda>a. filter P (g a)) (map (\<lambda>(a, t). (a, filter P t)) bs) = filter P (flat g bs)"
  by (induction bs) auto

lemma filter_distinct_nth:
  assumes "distinct (map f xs)" "i < length xs"
  shows "filter (\<lambda>x. f x \<noteq> f (xs ! i)) xs = take i xs @ drop (Suc i) xs"
proof -
  have split: "xs = take i xs @ xs ! i # drop (Suc i) xs" using assms(2) by (rule id_take_nth_drop)
  have "map f xs = map f (take i xs) @ f (xs ! i) # map f (drop (Suc i) xs)"
    using arg_cong [OF split, of "map f"] by simp
  then have "distinct (map f (take i xs) @ f (xs ! i) # map f (drop (Suc i) xs))" using assms(1) by metis
  then have "f (xs ! i) \<notin> f ` set (take i xs)" "f (xs ! i) \<notin> f ` set (drop (Suc i) xs)" by auto
  then have "filter (\<lambda>x. f x \<noteq> f (xs ! i)) (take i xs) = take i xs"
    "filter (\<lambda>x. f x \<noteq> f (xs ! i)) (drop (Suc i) xs) = drop (Suc i) xs"
    unfolding filter_id_conv by (auto simp: image_iff)
  then show ?thesis by (subst (2) split) (simp only: filter_append filter.simps simp_thms if_False)
qed

lemma page_blocks_deleted:
  "page_blocks (add_deletion r deletions) n refs =
     map (\<lambda>(a, t). (a, filter (\<lambda>d. row_ref d \<noteq> r) t)) (page_blocks deletions n refs)"
  by (induction deletions n refs rule: page_blocks.induct) (auto simp: add_deletion_def)

lemma delete_shown_filters:
  assumes ok: "editing_ok cf e" and shown: "target \<in> set (displayed e)"
  shows "displayed (e\<lparr>te_draft := delete_shown target (te_draft e)\<rparr>) =
    filter (\<lambda>d. row_ref d \<noteq> row_ref target) (displayed e)"
proof -
  let ?e' = "e\<lparr>te_draft := delete_shown target (te_draft e)\<rparr>" and ?P = "\<lambda>d. row_ref d \<noteq> row_ref target"
  obtain a t where block: "(a, t) \<in> set (blocks e)" and where_: "target \<in> set t \<or>
      (\<exists>ins. target = Inserted ins \<and> ins \<in> set (dr_insertions (te_draft e)) \<and> in_before ins = a)"
    by (rule displayed_block [OF shown])
  have "group_of (te_draft ?e') b = filter ?P (group_of (te_draft e) b)
      \<and> blocks ?e' = map (\<lambda>(a, t). (a, filter ?P t)) (blocks e)" for b
  proof (cases "target \<in> set t")
    case True
    with block obtain r k where row: "target = Source r k" "r \<in> set (page_refs e)" by (rule blocks_tail)
    have "\<forall>i \<in> set (dr_insertions (te_draft e)). in_id i \<noteq> r" using refs_not_inserted [OF ok row(2)] by blast
    then have "filter ?P (group_of (te_draft e) b) = group_of (te_draft e) b"
      by (intro filter_True) (auto simp: insertion_groups_filter row(1))
    then show ?thesis
      by (simp add: row(1) delete_shown_def blocks_def page_refs_def page_blocks_deleted insertion_groups_filter)
  next
    case False
    with where_ obtain ins where ins: "target = Inserted ins" "ins \<in> set (dr_insertions (te_draft e))" by blast
    have "map (\<lambda>(a, t). (a, filter ?P t)) (blocks e) = blocks e"
    proof (rule map_idI)
      fix bt assume member: "bt \<in> set (blocks e)"
      obtain b u where bt: "bt = (b, u)" by (cases bt)
      have "in_id ins \<notin> set (page_refs e)" using refs_not_inserted [OF ok] ins(2) by blast
      then have "?P d" if "d \<in> set u" for d
        using member that unfolding bt by (elim blocks_tail) (auto simp: ins(1))
      then show "(case bt of (a, t) \<Rightarrow> (a, filter ?P t)) = bt" by (simp add: bt filter_id_conv)
    qed
    then show ?thesis
      by (simp add: ins(1) delete_shown_def blocks_def page_refs_def insertion_groups_filter filter_map comp_def conj_commute)
  qed
  then have "group_of (te_draft ?e') = (\<lambda>b. filter ?P (group_of (te_draft e) b))"
    and "blocks ?e' = map (\<lambda>(a, t). (a, filter ?P t)) (blocks e)" by auto
  then show ?thesis unfolding displayed_blocks by (simp only: flat_filter)
qed

lemma delete_row_shown:
  assumes "editing_ok cf e" "\<not> busy e" "i < length (displayed e)"
  shows "displayed (deleteRow i e e) = take i (displayed e) @ drop (Suc i) (displayed e)"
proof -
  have "deleteRow i e e = e\<lparr>te_draft := delete_shown (displayed e ! i) (te_draft e)\<rparr>"
    using assms(2,3) by (simp add: deleteRow_def element_at_def)
  then show ?thesis
    using delete_shown_filters [OF assms(1)] assms(3) rowIds_distinct [OF assms(1)]
    by (simp add: rowIds_def filter_distinct_nth)
qed

text \<open>The button over an empty table adds the only row of the page.\<close>

lemma add_first_row_shown:
  assumes ok: "editing_ok cf e" and "\<not> busy e" "te_rows e = Some data" "displayed e = []" "page_refs e \<noteq> [] \<or> te_page e = 1"
  shows "displayed (addRowAbove cf None e e) = [Inserted (new_row cf None e)]"
proof -
  let ?new = "new_row cf None e" let ?d' = "insert_row None ?new (te_draft e)"
  have empty: "flat (group_of (te_draft e)) (blocks e) = []" using assms(4) by (simp add: displayed_blocks)
  have "addRowAbove cf None e e = e\<lparr>te_nextRow := te_nextRow e + 1, te_draft := ?d'\<rparr>"
    using assms(2,3) by (simp add: addRowAbove_def new_row_def Let_def)
  then have after: "displayed (addRowAbove cf None e e) = flat (group_of ?d') (blocks e)"
    by (simp only: displayed_blocks insert_row_blocks) simp
  have append: "group_of ?d' b = (if b = in_before ?new then group_of (te_draft e) b @ [Inserted ?new] else group_of (te_draft e) b)" for b
    using insert_row_appends [where target = None and new = ?new and draft = "te_draft e"] by simp
  show ?thesis
  proof (cases "page_refs e")
    case Nil
    then have "te_page e = 1" "in_before ?new = None" using assms(5) by (auto simp: new_row_def anchor_of_def)
    with Nil show ?thesis using empty unfolding after by (simp add: blocks_def append)
  next
    case (Cons r refs)
    have anchor: "in_before ?new = Some r" by (simp add: Cons new_row_def anchor_of_def)
    obtain t bs where blocks: "blocks e = (Some r, t) # bs" by (simp add: blocks_def Cons)
    have none: "group_of (te_draft e) (Some r) = []" "t = []" "flat (group_of (te_draft e)) bs = []"
      using empty unfolding blocks by simp_all
    have "Some r \<notin> fst ` set bs" using blocks_anchors [OF page_refs_ok(1) [OF ok]] by (simp add: blocks)
    then have "flat (group_of ?d') bs = flat (group_of (te_draft e)) bs"
      by (intro flat_cong) (metis append anchor)
    moreover have "flat (group_of ?d') ((Some r, t) # bs) = Inserted ?new # flat (group_of ?d') bs"
      by (simp add: append anchor none)
    ultimately show ?thesis unfolding after blocks by (simp add: none)
  qed
qed

text \<open>The rows of another page stay as they are.\<close>

definition on_page :: "'r edit_page \<Rightarrow> int \<Rightarrow> 'r table_editing \<Rightarrow> 'r table_editing" where
  "on_page data p e = e\<lparr>te_rows := Some data, te_page := p\<rparr>"

definition other_page :: "'r table_editing \<Rightarrow> 'r edit_page \<Rightarrow> int \<Rightarrow> bool" where
  "other_page e data p \<longleftrightarrow> p \<noteq> te_page e \<and> set (pg_rowRefs data) \<inter> set (page_refs e) = {}"

lemma on_page_blocks:
  "blocks (on_page data p e) =
     page_blocks (dr_deletions (te_draft e)) 0 (pg_rowRefs data) @ (if p = 1 then [(None, [])] else [])"
  by (simp add: blocks_def on_page_def page_refs_def)

lemma on_page_displayed: "displayed (on_page data p e) = flat (group_of (te_draft e)) (blocks (on_page data p e))"
  by (simp add: displayed_blocks) (simp add: on_page_def)

lemma on_page_anchors: "fst ` set (blocks (on_page data p e)) = Some ` set (pg_rowRefs data) \<union> (if p = 1 then {None} else {})"
proof -
  have "map fst (blocks (on_page data p e)) = map Some (pg_rowRefs data) @ (if p = 1 then [None] else [])"
    by (simp add: on_page_blocks)
  then have "set (map fst (blocks (on_page data p e))) = set (map Some (pg_rowRefs data) @ (if p = 1 then [None] else []))" by (rule arg_cong)
  then show ?thesis by (simp split: if_splits)
qed

lemma shown_anchor:
  assumes "d \<in> set (displayed e)"
  shows "(\<exists>r k. d = Source r k \<and> r \<in> set (page_refs e) \<and> r \<notin> set (dr_deletions (te_draft e))) \<or>
    (\<exists>ins. d = Inserted ins \<and> ins \<in> set (dr_insertions (te_draft e)) \<and>
       (in_before ins = None \<and> te_page e = 1 \<or> in_before ins \<in> Some ` set (page_refs e)))"
proof -
  obtain a t where block: "(a, t) \<in> set (blocks e)" and where_: "d \<in> set t \<or>
      (\<exists>ins. d = Inserted ins \<and> ins \<in> set (dr_insertions (te_draft e)) \<and> in_before ins = a)"
    by (rule displayed_block [OF assms])
  have a: "a = None \<and> te_page e = 1 \<or> a \<in> Some ` set (page_refs e)"
    using block unfolding blocks_def by (auto dest!: page_blocks_tail split: if_splits)
  from where_ show ?thesis
  proof
    assume "d \<in> set t"
    with block show ?thesis by (rule blocks_tail) blast
  qed (use a in blast)
qed

lemma add_row_other_page:
  assumes ok: "editing_ok cf e" and "\<not> busy e" "te_rows e = Some shown" "i < length (displayed e)" "other_page e data p"
  shows "displayed (on_page data p (addRowAbove cf (Some i) e e)) = displayed (on_page data p e)"
proof -
  define target where "target = displayed e ! i"
  define new where "new = new_row cf (Some target) e"
  let ?d = "te_draft e" let ?d' = "insert_row (Some target) new ?d"
  have target: "target \<in> set (displayed e)" using assms(4) by (simp add: target_def)
  have anchor: "in_before new \<notin> fst ` set (blocks (on_page data p e))"
    using shown_anchor [OF target] assms(5) unfolding on_page_anchors other_page_def
    by (auto simp: new_def new_row_def anchor_of_def)
  have same: "group_of ?d' b = group_of ?d b" if "b \<noteq> in_before new" for b
  proof (cases target)
    case (Source r k)
    then show ?thesis using insert_row_appends(2) [where target = "Some target"] that by simp
  next
    case (Inserted ins)
    then have "ins \<in> set (dr_insertions ?d)" "in_before new = in_before ins"
      using shown_anchor [OF target] by (auto simp: new_def new_row_def anchor_of_def)
    from insert_row_groups [OF Inserted this(1) draft_okD(1) [OF editing_draft_ok [OF ok]] this(2)] show ?thesis
      using that \<open>in_before new = in_before ins\<close> by metis
  qed
  have "dr_deletions ?d' = dr_deletions ?d" by (simp add: insert_row_def Let_def)
  then have "blocks (on_page data p (addRowAbove cf (Some i) e e)) = blocks (on_page data p e)"
    unfolding on_page_blocks addRowAbove_current [OF assms(2-4)] by (simp add: target_def new_def)
  moreover have "te_draft (addRowAbove cf (Some i) e e) = ?d'"
    unfolding addRowAbove_current [OF assms(2-4)] by (simp add: target_def new_def)
  ultimately show ?thesis unfolding on_page_displayed using anchor same by (simp, intro flat_cong) metis
qed

lemma delete_row_other_page:
  assumes ok: "editing_ok cf e" and "\<not> busy e" "i < length (displayed e)" "other_page e data p"
  shows "displayed (on_page data p (deleteRow i e e)) = displayed (on_page data p e)"
proof -
  define target where "target = displayed e ! i"
  let ?d = "te_draft e" let ?d' = "delete_shown target ?d"
  have target: "target \<in> set (displayed e)" using assms(3) by (simp add: target_def)
  have d': "te_draft (deleteRow i e e) = ?d'" using assms(2,3) by (simp add: deleteRow_def element_at_def target_def)
  have "page_blocks (dr_deletions ?d') 0 (pg_rowRefs data) = page_blocks (dr_deletions ?d) 0 (pg_rowRefs data)"
    using shown_anchor [OF target] assms(4)
    by (auto simp: delete_shown_def other_page_def page_blocks_deleted intro!: map_idI filter_True
        dest!: page_blocks_tail split: display_row.split)
  then have blocks: "blocks (on_page data p (deleteRow i e e)) = blocks (on_page data p e)"
    unfolding on_page_blocks d' by simp
  have "group_of ?d' b = group_of ?d b" if "b \<in> fst ` set (blocks (on_page data p e))" for b
  proof (cases target)
    case (Inserted ins)
    have ins: "ins \<in> set (dr_insertions ?d)" "in_before ins \<noteq> b"
      using shown_anchor [OF target] that assms(4) unfolding on_page_anchors other_page_def Inserted
      by (auto split: if_splits)
    have "inj_on in_id (set (dr_insertions ?d))"
      using draft_okD(1) [OF editing_draft_ok [OF ok]] by (simp add: distinct_map)
    then have "in_id row \<noteq> in_id ins" if "row \<in> set (dr_insertions ?d)" "in_before row = b" for row
      using that ins by (metis inj_onD)
    then have "filter (\<lambda>row. in_id row \<noteq> in_id ins \<and> in_before row = b) (dr_insertions ?d) = filter (\<lambda>row. in_before row = b) (dr_insertions ?d)"
      by (intro filter_cong refl) blast
    then show ?thesis by (simp add: Inserted delete_shown_def insertion_groups_filter)
  qed (simp add: delete_shown_def insertion_groups_filter)
  then show ?thesis unfolding on_page_displayed blocks d' by (rule flat_cong)
qed

subsection \<open>Cells\<close>

lemma column_named_name: "column_named cf name = Some c \<Longrightarrow> ec_name c = name \<and> c \<in> set (cf_columns cf)"
  unfolding column_named_def by (metis (mono_tags) find_Some_iff nth_mem)

lemma patch_key_eq [simp]: "patch_key r n = patch_key r' n' \<longleftrightarrow> r = r' \<and> n = n'"
  by (simp add: patch_key_def)

lemma group_of_patches [simp]: "group_of (draft\<lparr>dr_patches := ps\<rparr>) = group_of draft"
  by (simp add: group_of_def fun_eq_iff)

lemma displayed_patches [simp]:
  "displayed (e\<lparr>te_draft := (te_draft e)\<lparr>dr_patches := ps\<rparr>\<rparr>) = displayed e"
  by (simp add: displayed_blocks blocks_def page_refs_def)

text \<open>A change of an inserted row changes that row of the rows shown, and nothing else.\<close>

definition set_value :: "string \<Rightarrow> string \<Rightarrow> string option \<Rightarrow> inserted_row \<Rightarrow> inserted_row" where
  "set_value rowRef name v row = (if in_id row = rowRef then row\<lparr>in_values := (in_values row)(name \<mapsto> v)\<rparr> else row)"

fun set_shown :: "string \<Rightarrow> string \<Rightarrow> string option \<Rightarrow> display_row \<Rightarrow> display_row" where
  "set_shown rowRef name v (Source r k) = Source r k"
| "set_shown rowRef name v (Inserted i) = Inserted (set_value rowRef name v i)"

lemma set_value_simps [simp]:
  "in_id (set_value rowRef name v row) = in_id row" "in_before (set_value rowRef name v row) = in_before row"
  by (simp_all add: set_value_def)

lemma row_ref_set_shown [simp]: "row_ref (set_shown rowRef name v d) = row_ref d"
  by (cases d) simp_all

lemma flat_map: "flat (\<lambda>a. map h (g a)) (map (\<lambda>(a, t). (a, map h t)) bs) = map h (flat g bs)"
  by (induction bs) auto

lemma page_blocks_set_shown:
  "map (\<lambda>(a, t). (a, map (set_shown rowRef name v) t)) (page_blocks deletions n refs) = page_blocks deletions n refs"
  by (induction deletions n refs rule: page_blocks.induct) auto

lemma change_inserted_current:
  "\<not> busy e \<Longrightarrow> change_inserted rowRef name v e e =
     e\<lparr>te_draft := (te_draft e)\<lparr>dr_insertions := map (set_value rowRef name v) (dr_insertions (te_draft e))\<rparr>\<rparr>"
  by (simp add: change_inserted_def set_value_def [abs_def])

lemma displayed_change_inserted:
  assumes "\<not> busy e"
  shows "displayed (change_inserted rowRef name v e e) = map (set_shown rowRef name v) (displayed e)"
proof -
  let ?e' = "change_inserted rowRef name v e e" and ?h = "set_shown rowRef name v"
  have "group_of (te_draft ?e') = (\<lambda>a. map ?h (group_of (te_draft e) a))"
    by (simp add: change_inserted_current [OF assms] insertion_groups_filter fun_eq_iff filter_map comp_def)
  moreover have "blocks ?e' = map (\<lambda>(a, t). (a, map ?h t)) (blocks e)"
    by (simp add: change_inserted_current [OF assms] blocks_def page_refs_def page_blocks_set_shown)
  ultimately show ?thesis unfolding displayed_blocks by (simp only: flat_map)
qed

lemma cell_source:
  assumes "element_at (displayed e) i = Some (Source r k)"
  shows "cell cf e i name =
    (case te_rows e of None \<Rightarrow> None
     | Some data \<Rightarrow> if source_original data k name = Absent then None
                    else referencedCell cf e r name (source_original data k name) (pg_options data name))"
  using assms by (simp add: cell_def cell_target_def referencedCell_def Let_def split: option.split)

lemma cell_inserted:
  assumes "element_at (displayed e) i = Some (Inserted ins)"
  shows "cell cf e i name =
    (case (column_named cf name, te_rows e) of
       (Some column, Some data) \<Rightarrow>
         if column_allowed cf name \<and> (ec_editable column \<or> ec_identifier column) then
           let v = (case in_values ins name of Some v \<Rightarrow> v | None \<Rightarrow> None) in
           Some \<lparr>ce_rowRef = in_id ins, ce_column = column, ce_original = Own None, ce_value = Own v,
                 ce_options = pg_options data name, ce_changed = (v \<noteq> None), ce_disabled = busy e\<rparr>
         else None
     | _ \<Rightarrow> None)"
  using assms by (simp add: cell_def cell_target_def split: option.split)

lemma cell_outside: "element_at (displayed e) i = None \<Longrightarrow> cell cf e i name = None"
  by (simp add: cell_def cell_target_def split: option.split)

lemma element_at_map: "element_at (map f xs) i = map_option f (element_at xs i)"
  by (simp add: element_at_def)

lemma element_at_distinct:
  assumes "distinct (map f xs)" "element_at xs i = Some x" "element_at xs j = Some y" "f x = f y"
  shows "i = j"
  using assms by (auto simp: element_at_def distinct_conv_nth split: if_splits)

text \<open>
  A cell after a change, when the column, the row or both are others: the same cell. And the cell itself:
  the new value, and changed exactly when that differs from the original.
\<close>

definition changed_to :: "string option \<Rightarrow> edit_cell \<Rightarrow> edit_cell" where
  "changed_to v c = c\<lparr>ce_value := Own v, ce_changed := (Own v \<noteq> ce_original c)\<rparr>"

lemma referencedCell_fields:
  "referencedCell cf e r name original options = Some c \<Longrightarrow> ce_original c = original"
  by (auto simp: referencedCell_def Let_def split: option.splits if_splits)

lemma referencedCell_patched:
  assumes "map_of (dr_patches (te_draft e')) (patch_key r name) = (if Own v = original then None else Some \<lparr>cp_row_ref = r, cp_column = name, cp_value = v\<rparr>)"
    and "busy e' = busy e" and "referencedCell cf e r name original options = Some c"
  shows "referencedCell cf e' r name original options = Some (changed_to v c)"
  using assms by (auto simp: referencedCell_def changed_to_def Let_def split: option.splits if_splits)

lemma referencedCell_cong:
  assumes "map_of (dr_patches (te_draft e')) (patch_key r name) = map_of (dr_patches (te_draft e)) (patch_key r name)" "busy e' = busy e"
  shows "referencedCell cf e' r name original options = referencedCell cf e r name original options"
  using assms by (simp add: referencedCell_def Let_def split: option.split)

lemma change_source_cell:
  fixes e :: "'r table_editing"
  assumes ok: "editing_ok cf e" and "\<not> busy e" and row: "element_at (displayed e) i = Some (Source r k)"
    and c: "cell cf e i name = Some c"
  shows "cell cf (change_cell cf i name v e e) j name' =
    (if j = i \<and> name' = name then Some (changed_to v c) else cell cf e j name')"
proof -
  obtain data where data: "te_rows e = Some data" using c row by (auto simp: cell_source split: option.splits)
  define original where "original = source_original data k name"
  have orig: "original \<noteq> Absent" and ref: "referencedCell cf e r name original (pg_options data name) = Some c"
    using c row data by (simp_all add: cell_source original_def split: if_splits)
  define patches where "patches = (if Own v = original then AList.delete (patch_key r name) (dr_patches (te_draft e))
      else AList.update (patch_key r name) \<lparr>cp_row_ref = r, cp_column = name, cp_value = v\<rparr> (dr_patches (te_draft e)))"
  let ?e' = "e\<lparr>te_draft := (te_draft e)\<lparr>dr_patches := patches\<rparr>\<rparr>"
  have e': "change_cell cf i name v e e = ?e'"
    using c row referencedCell_fields [OF ref] assms(2)
    by (simp add: change_cell_def change_referenced_def patches_def Let_def)
  have busy: "busy ?e' = busy e" by (simp add: busy_def)
  have lookup: "map_of patches key = (if key = patch_key r name then
      (if Own v = original then None else Some \<lparr>cp_row_ref = r, cp_column = name, cp_value = v\<rparr>)
      else map_of (dr_patches (te_draft e)) key)" for key
    by (simp add: patches_def delete_conv' update_conv')
  show ?thesis
  proof (cases "element_at (displayed e) j")
    case (Some d)
    show ?thesis
    proof (cases d)
      case (Source r' k')
      have same: "r' = r \<Longrightarrow> j = i" using row Some Source rowIds_distinct [OF ok]
        unfolding rowIds_def by (auto dest: element_at_distinct)
      show ?thesis
      proof (cases "r' = r \<and> name' = name")
        case True
        then have "k' = k" "j = i" using same row Some Source by auto
        then show ?thesis unfolding e'
          using True row orig referencedCell_patched [OF _ busy ref] lookup data
          by (simp add: cell_source original_def)
      next
        case False
        then have "referencedCell cf ?e' r' name' original options = referencedCell cf e r' name' original options" for original options
          by (intro referencedCell_cong busy) (auto simp: lookup)
        moreover have "\<not> (j = i \<and> name' = name)" using False row Some Source by auto
        ultimately show ?thesis unfolding e' using Some Source by (auto simp: cell_source split: option.split)
      qed
    next
      case (Inserted ins)
      then have "j \<noteq> i" using row Some by auto
      then show ?thesis unfolding e' using Some Inserted by (auto simp: cell_inserted busy Let_def split: option.split)
    qed
  qed (use row in \<open>auto simp: e' cell_outside\<close>)
qed

lemma change_inserted_cell:
  fixes e :: "'r table_editing"
  assumes ok: "editing_ok cf e" and "\<not> busy e" and row: "element_at (displayed e) i = Some (Inserted ins)"
    and c: "cell cf e i name = Some c"
  shows "cell cf (change_cell cf i name v e e) j name' =
    (if j = i \<and> name' = name then Some (changed_to v c) else cell cf e j name')"
proof -
  let ?e' = "change_inserted (in_id ins) name v e e"
  have e': "change_cell cf i name v e e = ?e'" using c row by (simp add: change_cell_def)
  have busy: "busy ?e' = busy e" and rows: "te_rows ?e' = te_rows e"
    using change_inserted_current [OF assms(2)] by (simp_all add: busy_def)
  have patches: "dr_patches (te_draft ?e') = dr_patches (te_draft e)" using change_inserted_current [OF assms(2)] by simp
  have shown: "element_at (displayed ?e') j = map_option (set_shown (in_id ins) name v) (element_at (displayed e) j)"
    by (simp add: displayed_change_inserted [OF assms(2)] element_at_map)
  show ?thesis
  proof (cases "element_at (displayed e) j")
    case (Some d)
    show ?thesis
    proof (cases d)
      case (Source r' k')
      then have "j \<noteq> i" using row Some by auto
      moreover have "referencedCell cf ?e' r' name' original options = referencedCell cf e r' name' original options" for original options
        by (intro referencedCell_cong busy) (simp add: patches)
      moreover have "element_at (displayed ?e') j = Some (Source r' k')" using shown Some Source by simp
      ultimately show ?thesis unfolding e' using Some Source by (simp add: cell_source rows split: option.split)
    next
      case (Inserted ins')
      have shown': "element_at (displayed ?e') j = Some (Inserted (set_value (in_id ins) name v ins'))" using shown Some Inserted by simp
      have same: "in_id ins' = in_id ins \<Longrightarrow> j = i" using row Some Inserted rowIds_distinct [OF ok]
        unfolding rowIds_def by (auto dest: element_at_distinct)
      show ?thesis
      proof (cases "j = i")
        case True
        then have "ins' = ins" using row Some Inserted by simp
        then show ?thesis unfolding e'
          using True c shown' row busy rows
          by (auto simp: cell_inserted set_value_def changed_to_def Let_def split: option.splits if_splits)
      next
        case False
        then have "set_value (in_id ins) name v ins' = ins'" using same by (auto simp: set_value_def)
        then show ?thesis unfolding e' using False shown' Some Inserted by (auto simp: cell_inserted busy rows Let_def split: option.split)
      qed
    qed
  next
    case None
    then have "j \<noteq> i" "element_at (displayed ?e') j = None" using row shown by auto
    then show ?thesis unfolding e' using None by (simp add: cell_outside)
  qed
qed

lemma change_cell_cell:
  assumes "editing_ok cf e" "\<not> busy e" "cell cf e i name = Some c"
  shows "cell cf (change_cell cf i name v e e) j name' =
    (if j = i \<and> name' = name then Some (changed_to v c) else cell cf e j name')"
proof (cases "element_at (displayed e) i")
  case None
  then show ?thesis using assms(3) by (simp add: cell_outside)
next
  case (Some d)
  then show ?thesis
    using change_source_cell [OF assms(1,2) _ assms(3)] change_inserted_cell [OF assms(1,2) _ assms(3)] by (cases d) auto
qed

subsection \<open>Every event keeps the invariant\<close>

lemma distinct_splice_in:
  "distinct (map f (splice_in i x xs)) \<longleftrightarrow> distinct (map f xs) \<and> f x \<notin> f ` set xs"
  "set (splice_in i x xs) = insert x (set xs)"
proof -
  obtain n where splice: "splice_in i x xs = take n xs @ x # drop n xs" by (auto simp: splice_in_def Let_def)
  have all: "set xs = set (take n xs) \<union> set (drop n xs)" by (metis append_take_drop_id set_append)
  have map: "map f xs = map f (take n xs) @ map f (drop n xs)" by (metis append_take_drop_id map_append)
  show "distinct (map f (splice_in i x xs)) \<longleftrightarrow> distinct (map f xs) \<and> f x \<notin> f ` set xs"
    unfolding splice map all by auto
  show "set (splice_in i x xs) = insert x (set xs)" unfolding splice all by auto
qed

lemma insert_row_ok:
  assumes "draft_ok n draft" "in_id new = new_row_id n"
  shows "draft_ok (Suc n) (insert_row target new draft)"
proof -
  obtain i where rows: "insert_row target new draft = draft\<lparr>dr_insertions := splice_in i new (dr_insertions draft)\<rparr>"
    by (simp add: insert_row_def Let_def)
  have "in_id new \<notin> in_id ` set (dr_insertions draft)" using draft_okD(2) [OF assms(1)] assms(2) by auto
  moreover have "new_row_id ` {..<n} \<subseteq> new_row_id ` {..<Suc n}" by auto
  ultimately show ?thesis
    using assms unfolding draft_ok_def rows by (auto simp: distinct_splice_in)
qed

lemma delete_shown_ok:
  assumes "draft_ok n draft"
  shows "draft_ok n (delete_shown target draft)"
proof (cases target)
  case (Source r k)
  have "distinct (map fst (filter (\<lambda>(key, patch). cp_row_ref patch \<noteq> r) (dr_patches draft)))"
    using draft_okD(3) [OF assms] by (rule distinct_map_filter)
  then show ?thesis using assms by (auto simp: draft_ok_def delete_shown_def Source add_deletion_def)
next
  case (Inserted ins)
  then show ?thesis using assms by (auto simp: draft_ok_def delete_shown_def distinct_map_filter)
qed

lemma update_member: "kv \<in> set (AList.update k v al) \<Longrightarrow> kv = (k, v) \<or> kv \<in> set al"
  by (induction al) (auto split: if_splits)

lemma change_referenced_ok:
  assumes "editing_ok cf e" "r \<notin> set (dr_deletions (te_draft e))"
  shows "editing_ok cf (change_referenced r name original v rendered e)"
proof -
  let ?key = "patch_key r name" and ?patch = "\<lparr>cp_row_ref = r, cp_column = name, cp_value = v\<rparr>" and ?ps = "dr_patches (te_draft e)"
  note draft = editing_draft_ok [OF assms(1)]
  have "draft_ok n (draft\<lparr>dr_patches := ps\<rparr>)"
    if "draft_ok n draft" "distinct (map fst ps)" "\<And>key patch. (key, patch) \<in> set ps \<Longrightarrow>
      key = patch_key (cp_row_ref patch) (cp_column patch) \<and> cp_row_ref patch \<notin> set (dr_deletions draft)" for n draft ps
    using that by (auto simp: draft_ok_def)
  note step = this [OF draft]
  have "draft_ok (te_nextRow e) ((te_draft e)\<lparr>dr_patches := AList.delete ?key ?ps\<rparr>)"
    using draft_okD(3,5) [OF draft] by (intro step) (auto simp: AList.delete_eq distinct_map_filter)
  moreover have "draft_ok (te_nextRow e) ((te_draft e)\<lparr>dr_patches := AList.update ?key ?patch ?ps\<rparr>)"
    using draft_okD(3,5) [OF draft] assms(2) by (intro step) (auto simp: distinct_update dest!: update_member)
  ultimately show ?thesis using assms(1) by (simp add: change_referenced_def editing_ok_def Let_def)
qed

lemma change_cell_ok:
  assumes "editing_ok cf e"
  shows "editing_ok cf (change_cell cf i name v e e)"
proof (cases "element_at (displayed e) i")
  case (Some d)
  then have shown: "d \<in> set (displayed e)" by (auto simp: element_at_def split: if_splits)
  show ?thesis
  proof (cases d)
    case (Source r k)
    then have "r \<notin> set (dr_deletions (te_draft e))" using shown_anchor [OF shown] by auto
    then show ?thesis
      using Some Source change_referenced_ok [OF assms] assms by (simp add: change_cell_def split: option.split)
  next
    case (Inserted ins)
    have "editing_ok cf (change_inserted (in_id ins) name v e e)"
      using assms by (auto simp: change_inserted_def editing_ok_def draft_ok_def set_value_def [symmetric] comp_def)
    then show ?thesis using Some Inserted assms by (simp add: change_cell_def split: option.split)
  qed
qed (use assms in \<open>simp add: change_cell_def split: option.split\<close>)

lemmas session_steps = save_def cancel_def save_mutate_def cancel_mutate_def release_def send_def setPage_def setPageSize_def setSorting_def

lemma handle_edit_ok:
  assumes "editing_ok cf e" and "\<And>data. event = Page_read data \<Longrightarrow> page_ok cf data"
  shows "editing_ok cf (handle_edit cf event e)"
proof -
  have add: "editing_ok cf (addRowAbove cf i e e)" for i
    using assms(1) by (auto simp: addRowAbove_def editing_ok_def Let_def insert_row_ok)
  have delete: "editing_ok cf (deleteRow i e e)" for i
    using assms(1) by (auto simp: deleteRow_def editing_ok_def delete_shown_ok split: option.split)
  show ?thesis
    using assms add delete change_cell_ok [OF assms(1)]
    by (cases event) (auto simp: editing_ok_def session_steps Let_def)
qed

lemma editing_reachable_ok: "editing_reachable cf e \<Longrightarrow> editing_ok cf e"
proof (induction rule: editing_reachable.induct)
  case (editing_initial initialPageSize)
  show ?case by (simp add: initial_editing_def editing_ok_def draft_ok_def empty_draft_def)
qed (rule handle_edit_ok)

subsection \<open>What a save sends\<close>

definition payload_ok :: "edit_call \<Rightarrow> bool" where
  "payload_ok call \<longleftrightarrow>
     (case call of
        Save_call changes deletions values \<Rightarrow>
          distinct (map (\<lambda>p. (cp_row_ref p, cp_column p)) changes) \<and>
          (\<forall>p \<in> set changes. cp_row_ref p \<notin> set deletions) \<and> distinct deletions
      | Cancel_call \<Rightarrow> True)"

definition calls_ok :: "'r table_editing \<Rightarrow> bool" where
  "calls_ok e \<longleftrightarrow>
     (\<forall>call \<in> set (te_calls e). payload_ok call) \<and>
     (te_saving e \<longrightarrow> save_payload (te_draft e) \<in> set (te_calls e))"

lemma save_payload_ok:
  assumes "draft_ok n draft"
  shows "payload_ok (save_payload draft)"
proof -
  have "inj_on fst (set (dr_patches draft))" "distinct (dr_patches draft)"
    using draft_okD(3) [OF assms] by (simp_all add: distinct_map)
  moreover have "fst kp = patch_key (cp_row_ref (snd kp)) (cp_column (snd kp))" if "kp \<in> set (dr_patches draft)" for kp
    using draft_okD(5) [OF assms, of "fst kp" "snd kp"] that by simp
  ultimately have "distinct (map (\<lambda>kp. (cp_row_ref (snd kp), cp_column (snd kp))) (dr_patches draft))"
    by (auto simp: distinct_map inj_on_def)
  then show ?thesis
    using draft_okD(4,5) [OF assms] by (auto simp: payload_ok_def save_payload_def comp_def)
qed

text \<open>Nothing changes the draft while a request is pending.\<close>

lemma busy_keeps_draft:
  assumes "busy e"
  shows "te_draft (handle_edit cf event e) = te_draft e"
  using assms
  by (cases event)
    (auto simp: session_steps addRowAbove_def deleteRow_def change_cell_def change_referenced_def change_inserted_def Let_def
      split: option.split display_row.split)

lemma handle_edit_calls:
  "set (te_calls e) \<subseteq> set (te_calls (handle_edit cf event e))"
  "call \<in> set (te_calls (handle_edit cf event e)) \<Longrightarrow> call \<in> set (te_calls e) \<or> call = Cancel_call \<or> call = save_payload (te_draft e)"
  "te_saving (handle_edit cf event e) \<Longrightarrow> te_saving e \<or> \<not> busy e \<and> event = Pressed_save"
  by (cases event;
      auto simp: session_steps addRowAbove_def deleteRow_def change_cell_def change_referenced_def change_inserted_def Let_def
        split: option.splits display_row.splits if_splits)+

lemma handle_edit_calls_ok:
  assumes "editing_ok cf e" "calls_ok e"
  shows "calls_ok (handle_edit cf event e)"
proof -
  have "payload_ok call" if "call \<in> set (te_calls (handle_edit cf event e))" for call
    using handle_edit_calls(2) [OF that] assms save_payload_ok [OF editing_draft_ok [OF assms(1)]]
    by (auto simp: calls_ok_def payload_ok_def)
  moreover have "save_payload (te_draft (handle_edit cf event e)) \<in> set (te_calls (handle_edit cf event e))"
    if saving: "te_saving (handle_edit cf event e)"
    using handle_edit_calls(3) [OF saving]
  proof
    assume "te_saving e"
    then show ?thesis
      using assms(2) handle_edit_calls(1) [of e cf event] busy_keeps_draft [of e cf event]
      by (auto simp: calls_ok_def busy_def)
  qed (auto simp: session_steps)
  ultimately show ?thesis by (simp add: calls_ok_def)
qed

lemma editing_reachable_calls: "editing_reachable cf e \<Longrightarrow> calls_ok e"
proof (induction rule: editing_reachable.induct)
  case (editing_initial initialPageSize)
  show ?case by (simp add: initial_editing_def calls_ok_def)
next
  case (editing_step e event)
  then show ?case by (intro handle_edit_calls_ok editing_reachable_ok)
qed

text \<open>
  Leaving the editor releases an unfinished session once its microtask runs; an editor mounted again
  before that keeps its session.
\<close>

lemma teardown_releases:
  "te_finished e \<or> Cancel_call \<in> set (te_calls (handle_edit cf Microtask (handle_edit cf Unmounted e)))"
  by (simp add: release_def send_def Let_def)

lemma remount_keeps_session:
  "te_calls (handle_edit cf Microtask (handle_edit cf Mounted (handle_edit cf Unmounted e))) = te_calls e"
  by (simp add: Let_def)

subsection \<open>Properties\<close>

definition example_edit_config :: edit_config where
  "example_edit_config =
     \<lparr>cf_columns = [\<lparr>ec_name = ''t'', ec_data_type = ''VARCHAR'', ec_editable = True, ec_identifier = False\<rparr>],
      cf_editableColumns = None, cf_allowRowChanges = True\<rparr>"

definition example_edit_page :: "unit edit_page" where
  "example_edit_page =
     \<lparr>pg_rowRefs = [''1'', ''2''], pg_rows = [(), ()],
      pg_editableValues = [[''t'' \<mapsto> Some ''a''], [''t'' \<mapsto> Some ''b'']], pg_options = Map.empty\<rparr>"

definition example_next_page :: "unit edit_page" where
  "example_next_page =
     \<lparr>pg_rowRefs = [''3''], pg_rows = [()], pg_editableValues = [[''t'' \<mapsto> None]], pg_options = Map.empty\<rparr>"

definition example_editing :: "unit table_editing" where
  "example_editing =
     handle_edit example_edit_config (Add_row (Some 1))
       (handle_edit example_edit_config (Page_read example_edit_page) (initial_editing 20))"

lemma example_page_ok: "page_ok example_edit_config example_edit_page"
  by (simp add: page_ok_def example_edit_page_def example_edit_config_def has_prefix_def)

lemma example_editing_reachable: "editing_reachable example_edit_config example_editing"
  unfolding example_editing_def
  by (intro editing_step editing_initial) (simp_all add: example_page_ok)

lemma example_row_id: "new_row_id 0 = ''new:0''"
  by code_simp

lemma example_editing_shown:
  "displayed example_editing =
     [Source ''1'' 0, Inserted \<lparr>in_id = ''new:0'', in_before = Some ''2'', in_values = [''t'' \<mapsto> None]\<rparr>, Source ''2'' 1]"
  "\<not> busy example_editing" "te_rows example_editing = Some example_edit_page" "te_page example_editing = 1"
  by (simp_all add: example_editing_def initial_editing_def empty_draft_def addRowAbove_def busy_def displayed_def
      page_refs_def example_edit_page_def group_of_def insertion_groups_def example_edit_config_def element_at_def
      anchor_of_def blank_values_def example_row_id insert_row_def splice_in_def add_to_group_def Let_def)

text \<open>
  C10: adding a row puts exactly one row right above the row it was asked for, deleting removes exactly the
  row it was asked for, and no row of another page of the snapshot changes.
\<close>

theorem row_changes_shown:
  assumes "editing_reachable cf e" "\<not> busy e" "te_rows e = Some shown" "i < length (displayed e)" "other_page e data p"
  shows "displayed (addRowAbove cf (Some i) e e) =
      take i (displayed e) @ Inserted (new_row cf (Some (displayed e ! i)) e) # drop i (displayed e) \<and>
    displayed (deleteRow i e e) = take i (displayed e) @ drop (Suc i) (displayed e) \<and>
    displayed (on_page data p (addRowAbove cf (Some i) e e)) = displayed (on_page data p e) \<and>
    displayed (on_page data p (deleteRow i e e)) = displayed (on_page data p e)"
  using add_row_shown delete_row_shown add_row_other_page delete_row_other_page editing_reachable_ok [OF assms(1)] assms(2-5)
  by blast

lemma row_changes_shown_witness:
  "displayed (deleteRow 1 example_editing example_editing) = [Source ''1'' 0, Source ''2'' 1] \<and>
   displayed (on_page example_next_page 2 (deleteRow 1 example_editing example_editing)) = displayed (on_page example_next_page 2 example_editing)"
proof -
  have "1 < length (displayed example_editing)" "other_page example_editing example_next_page 2"
    by (simp_all add: example_editing_shown other_page_def page_refs_def example_next_page_def example_edit_page_def)
  from row_changes_shown [OF example_editing_reachable example_editing_shown(2,3) this]
  have "displayed (deleteRow 1 example_editing example_editing) = take 1 (displayed example_editing) @ drop (Suc 1) (displayed example_editing)"
    "displayed (on_page example_next_page 2 (deleteRow 1 example_editing example_editing)) = displayed (on_page example_next_page 2 example_editing)"
    by blast+
  then show ?thesis by (simp add: example_editing_shown(1))
qed

text \<open>
  Changing a cell gives it the new value, marks it changed exactly when that differs from its original,
  and leaves every other cell of the page as it is.
\<close>

theorem cell_change_is_local:
  assumes "editing_reachable cf e" "\<not> busy e" "cell cf e i name = Some c"
  shows "cell cf (change_cell cf i name v e e) j name' =
    (if j = i \<and> name' = name then Some (c\<lparr>ce_value := Own v, ce_changed := (Own v \<noteq> ce_original c)\<rparr>)
     else cell cf e j name')"
  using change_cell_cell [OF editing_reachable_ok [OF assms(1)] assms(2,3)] by (simp add: changed_to_def)

lemma cell_change_is_local_witness:
  "map_option ce_value (cell example_edit_config (change_cell example_edit_config 2 ''t'' None example_editing example_editing) 2 ''t'') =
     Some (Own None)"
proof -
  have "element_at (displayed example_editing) 2 = Some (Source ''2'' 1)"
    unfolding example_editing_shown by (simp add: element_at_def)
  then obtain c where c: "cell example_edit_config example_editing 2 ''t'' = Some c"
    unfolding cell_source [OF \<open>element_at (displayed example_editing) 2 = _\<close>] example_editing_shown
    by (simp add: source_original_def example_edit_page_def element_at_def get_property_def referencedCell_def
        column_named_def example_edit_config_def column_allowed_def Let_def)
  show ?thesis
    using cell_change_is_local [OF example_editing_reachable example_editing_shown(2) c, of None 2 "''t''"] by simp
qed



end
