(* ===== verification/Tasks.thy ===== *)
theory Tasks
  imports Query_Refresh Project_Renames
begin

text \<open>
  Background tasks and project changes as the window observes them: the effect of
  \<open>features/project/useNativeTasks.ts\<close>. Snapshots of the tasks come from a request, the event stream and
  the responses to cancel and dismiss; changes come from the event stream, are merged while a refresh is
  under way and refreshed by a loop that awaits \<open>refreshProjectQueries\<close>. The loop is split at its awaits,
  so any event may come between them; the elements on screen are an argument of the events that read them.
\<close>

subsection \<open>Task snapshots\<close>

datatype task_state = Task_queued | Task_running | Task_cancelling | Task_succeeded | Task_failed | Task_cancelled

record 'e task =
  tk_id :: string
  tk_label :: string
  tk_state :: task_state
  tk_finished_at :: "int option"
  tk_notice :: "string option"
  tk_error :: "'e option"
  tk_tab_id :: "string option"

record 'e task_snapshot =
  sn_revision :: int
  sn_tasks :: "'e task list"

definition latestTasks :: "'e task_snapshot option \<Rightarrow> 'e task_snapshot \<Rightarrow> 'e task_snapshot" where
  "latestTasks previous arrived =
     (case previous of
        Some p \<Rightarrow> if sn_revision p > sn_revision arrived then p else arrived
      | None \<Rightarrow> arrived)"

record task_element =
  el_owner :: "string option"
  el_label :: "string option"
  el_rects :: nat

definition truthy :: "string option \<Rightarrow> bool" where
  "truthy s \<longleftrightarrow> s \<noteq> None \<and> s \<noteq> Some []"

definition visible_owner :: "task_element list \<Rightarrow> 'e task \<Rightarrow> bool" where
  "visible_owner elements task \<longleftrightarrow>
     list_ex (\<lambda>element.
       (if truthy (tk_tab_id task) then el_owner element = tk_tab_id task else el_label element = Some (tk_label task)) \<and>
       el_rects element > 0) elements"

datatype 'e report = Notice string string string | Failure string string 'e

fun reported_id :: "'e report \<Rightarrow> string" where
  "reported_id (Notice i _ _) = i"
| "reported_id (Failure i _ _) = i"

definition task_reports :: "task_element list \<Rightarrow> 'e task \<Rightarrow> 'e report list" where
  "task_reports elements task =
     (case (tk_state task, tk_notice task) of
        (Task_succeeded, Some notice) \<Rightarrow> if notice \<noteq> [] then [Notice (tk_id task) (tk_label task) notice] else []
      | _ \<Rightarrow> []) @
     (case (tk_state task, tk_error task) of
        (Task_failed, Some error) \<Rightarrow> if visible_owner elements task then [] else [Failure (tk_id task) (tk_label task) error]
      | _ \<Rightarrow> [])"

subsection \<open>The effect\<close>

text \<open>
  \<open>refreshing\<close> is true in the last two phases: a microtask is queued, or the loop awaits a refresh.
  \<open>wt_reports\<close> and \<open>wt_refreshed\<close> are the calls made: reports to the user, and the changes handed to
  \<open>refreshProjectQueries\<close>.
\<close>

datatype refresh_phase = Not_refreshing | Queued | Refreshing change_scope

record ('e, 'win) watch =
  wt_cache :: "'e task_snapshot option"
  wt_reconnecting :: bool
  wt_revision :: int
  wt_observed :: "string list"
  wt_disposed :: bool
  wt_pending :: "change_scope option"
  wt_phase :: refresh_phase
  wt_window :: 'win
  wt_reports :: "'e report list"
  wt_refreshed :: "change_scope list"

definition observe_task ::
    "task_element list \<Rightarrow> bool \<Rightarrow> 'e task \<Rightarrow> string list \<times> 'e report list \<Rightarrow> string list \<times> 'e report list" where
  "observe_task elements initial task =
     (\<lambda>(observed, reports).
        if tk_finished_at task = None \<or> tk_id task \<in> set observed then (observed, reports)
        else (observed @ [tk_id task], if initial then reports else reports @ task_reports elements task))"

definition observe :: "task_element list \<Rightarrow> 'e task_snapshot \<Rightarrow> ('e, 'win) watch \<Rightarrow> ('e, 'win) watch" where
  "observe elements arrived w =
     (if sn_revision arrived \<le> wt_revision w then w
      else
        let retained = map tk_id (sn_tasks arrived);
            kept = filter (\<lambda>i. i \<in> set retained) (wt_observed w);
            (observed, reports) = fold (observe_task elements (wt_revision w = -1)) (sn_tasks arrived) (kept, wt_reports w)
        in w\<lparr>wt_revision := sn_revision arrived, wt_observed := observed, wt_reports := reports\<rparr>)"

text \<open>Every snapshot goes through the query cache, which the effect subscribes to until it is disposed.\<close>

definition set_tasks :: "task_element list \<Rightarrow> 'e task_snapshot \<Rightarrow> ('e, 'win) watch \<Rightarrow> ('e, 'win) watch" where
  "set_tasks elements arrived w =
     (let data = latestTasks (wt_cache w) arrived; w' = w\<lparr>wt_cache := Some data\<rparr>
      in if wt_disposed w then w' else observe elements data w')"

definition start_watch :: "task_element list \<Rightarrow> 'e task_snapshot option \<Rightarrow> 'win \<Rightarrow> ('e, 'win) watch" where
  "start_watch elements cached win =
     (let w = \<lparr>wt_cache = cached, wt_reconnecting = False, wt_revision = -1, wt_observed = [], wt_disposed = False,
               wt_pending = None, wt_phase = Not_refreshing, wt_window = win, wt_reports = [], wt_refreshed = []\<rparr>
      in case cached of Some data \<Rightarrow> observe elements data w | None \<Rightarrow> w)"

subsection \<open>Merging and refreshing changes\<close>

definition given :: "'a list option \<Rightarrow> 'a list" where
  "given xs = (case xs of Some ys \<Rightarrow> ys | None \<Rightarrow> [])"

definition merge_change :: "change_scope option \<Rightarrow> change_scope \<Rightarrow> change_scope" where
  "merge_change pending change =
     (let earlier = (\<lambda>part. case pending of Some p \<Rightarrow> given (part p) | None \<Rightarrow> [])
      in \<lparr>ch_all = ((case pending of Some p \<Rightarrow> ch_all p | None \<Rightarrow> False) \<or> ch_all change),
          ch_analysis_ids = Some (unique (earlier ch_analysis_ids @ given (ch_analysis_ids change))),
          ch_resources = Some (unique (earlier ch_resources @ given (ch_resources change))),
          ch_objects = Some ((case pending of Some p \<Rightarrow> given (ch_objects p) | None \<Rightarrow> []) @ given (ch_objects change))\<rparr>)"

definition refresh :: "change_scope \<Rightarrow> ('e, 'win) watch \<Rightarrow> ('e, 'win) watch" where
  "refresh change w =
     w\<lparr>wt_pending := Some (merge_change (wt_pending w) change),
       wt_phase := (if wt_phase w = Not_refreshing then Queued else wt_phase w)\<rparr>"

text \<open>The head of the loop: it takes up what is pending, or ends.\<close>

definition refresh_loop :: "('e, 'win) watch \<Rightarrow> ('e, 'win) watch" where
  "refresh_loop w =
     (case wt_pending w of
        Some change \<Rightarrow>
          if wt_disposed w then w\<lparr>wt_phase := Not_refreshing\<rparr>
          else w\<lparr>wt_pending := None, wt_phase := Refreshing change, wt_refreshed := wt_refreshed w @ [change]\<rparr>
      | None \<Rightarrow> w\<lparr>wt_phase := Not_refreshing\<rparr>)"

definition reset_change :: change_scope where
  "reset_change = \<lparr>ch_all = True, ch_analysis_ids = None, ch_resources = None, ch_objects = None\<rparr>"

text \<open>A change of the event stream: its scope, its renames and its id.\<close>

record change_message =
  cm_scope :: change_scope
  cm_renames :: "reference_rename list"
  cm_id :: "string option"

datatype 'e watch_label =
    Tasks_response "task_element list" "'e task_snapshot"
  | Tasks_message "task_element list" "'e task_snapshot"
  | Change_received change_message
  | Reset_received
  | Stream_failed
  | Loop_started
  | Refresh_done
  | Refresh_rejected
  | Effect_disposed

text \<open>
  A reconciliation that throws leaves the handler, with whatever it has changed in the window until then;
  the change is not merged.
\<close>

inductive watch_step ::
    "(string \<Rightarrow> string) \<Rightarrow> string \<Rightarrow> ('e, ('s, 't, 'x, 'w, 'p, 'v) window) watch \<Rightarrow> 'e watch_label \<Rightarrow>
     ('e, ('s, 't, 'x, 'w, 'p, 'v) window) watch \<Rightarrow> bool"
  for lower :: "string \<Rightarrow> string" and base :: string where
  tasks_response: "watch_step lower base w (Tasks_response elements arrived) (set_tasks elements arrived w)"
| tasks_message: "\<not> wt_disposed w \<Longrightarrow>
    watch_step lower base w (Tasks_message elements arrived) ((set_tasks elements arrived w)\<lparr>wt_reconnecting := False\<rparr>)"
| change_without_renames: "\<not> wt_disposed w \<Longrightarrow> cm_renames m = [] \<Longrightarrow>
    watch_step lower base w (Change_received m) (refresh (cm_scope m) w)"
| change_with_renames: "\<not> wt_disposed w \<Longrightarrow> cm_renames m \<noteq> [] \<Longrightarrow>
    reconcileProjectRenames lower base (cm_renames m) (cm_id m) (wt_window w) = Inr win \<Longrightarrow>
    watch_step lower base w (Change_received m) (refresh (cm_scope m) (w\<lparr>wt_window := win\<rparr>))"
| change_throws: "\<not> wt_disposed w \<Longrightarrow> cm_renames m \<noteq> [] \<Longrightarrow>
    reconcileProjectRenames lower base (cm_renames m) (cm_id m) (wt_window w) = Inl error \<Longrightarrow>
    watch_step lower base w (Change_received m) (w\<lparr>wt_window := win\<rparr>)"
| reset_received: "\<not> wt_disposed w \<Longrightarrow> watch_step lower base w Reset_received (refresh reset_change w)"
| stream_failed: "\<not> wt_disposed w \<Longrightarrow> watch_step lower base w Stream_failed (w\<lparr>wt_reconnecting := True\<rparr>)"
| loop_started: "wt_phase w = Queued \<Longrightarrow> watch_step lower base w Loop_started (refresh_loop w)"
| refresh_done: "wt_phase w = Refreshing change \<Longrightarrow> watch_step lower base w Refresh_done (refresh_loop w)"
| refresh_rejected: "wt_phase w = Refreshing change \<Longrightarrow>
    watch_step lower base w Refresh_rejected (w\<lparr>wt_phase := Not_refreshing\<rparr>)"
| effect_disposed: "watch_step lower base w Effect_disposed (w\<lparr>wt_disposed := True\<rparr>)"

text \<open>Which change a step hands over, and which snapshot it observes.\<close>

definition accepted_change ::
    "(string \<Rightarrow> string) \<Rightarrow> string \<Rightarrow> ('e, ('s, 't, 'x, 'w, 'p, 'v) window) watch \<Rightarrow> 'e watch_label \<Rightarrow> change_scope list" where
  "accepted_change lower base w label =
     (case label of
        Change_received m \<Rightarrow>
          if cm_renames m = [] \<or> (\<exists>win. reconcileProjectRenames lower base (cm_renames m) (cm_id m) (wt_window w) = Inr win)
          then [cm_scope m] else []
      | Reset_received \<Rightarrow> [reset_change]
      | _ \<Rightarrow> [])"

fun arriving :: "'e watch_label \<Rightarrow> 'e task_snapshot set" where
  "arriving (Tasks_response _ s) = {s}"
| "arriving (Tasks_message _ s) = {s}"
| "arriving _ = {}"

inductive watch_reachable ::
    "(string \<Rightarrow> string) \<Rightarrow> string \<Rightarrow> 'e watch_label list \<Rightarrow> change_scope list \<Rightarrow> 'e task_snapshot set \<Rightarrow>
     ('e, ('s, 't, 'x, 'w, 'p, 'v) window) watch \<Rightarrow> bool"
  for lower :: "string \<Rightarrow> string" and base :: string where
  watch_started: "watch_reachable lower base [] [] (set_option cached) (start_watch elements cached win)"
| watch_stepped: "watch_reachable lower base labels changes seen w \<Longrightarrow> watch_step lower base w label w' \<Longrightarrow>
    watch_reachable lower base (labels @ [label]) (changes @ accepted_change lower base w label) (seen \<union> arriving label) w'"

subsection \<open>No change is lost\<close>

text \<open>
  A scope covers a change when every query the change affects is affected by the scope. A wider scope
  covers, provided the change names resources of the API only: a scope of everything reaches those.
\<close>

definition covers :: "change_scope \<Rightarrow> change_scope \<Rightarrow> bool" where
  "covers scope change \<longleftrightarrow> (\<forall>base query. affectedQuery base change query \<longrightarrow> affectedQuery base scope query)"

definition api_resources :: "string list" where
  "api_resources = [''graph'', ''tabs'', ''sql_cells'', ''project'', ''sql_types'']"

definition api_change :: "change_scope \<Rightarrow> bool" where
  "api_change change \<longleftrightarrow> set (given (ch_resources change)) \<subseteq> set api_resources"

definition wider :: "change_scope \<Rightarrow> change_scope \<Rightarrow> bool" where
  "wider scope change \<longleftrightarrow>
     (ch_all change \<longrightarrow> ch_all scope) \<and>
     set (given (ch_analysis_ids change)) \<subseteq> set (given (ch_analysis_ids scope)) \<and>
     set (given (ch_resources change)) \<subseteq> set (given (ch_resources scope)) \<and>
     set (given (ch_objects change)) \<subseteq> set (given (ch_objects scope))"

lemma wider_refl [simp]: "wider c c"
  by (simp add: wider_def)

lemma wider_trans: "wider a b \<Longrightarrow> wider b c \<Longrightarrow> wider a c"
  by (auto simp: wider_def)

lemma given_simps [simp]: "given (Some xs) = xs" "given None = []"
  by (simp_all add: given_def)

lemma merge_wider: "wider (merge_change pending change) change" "wider (merge_change (Some p) change) p"
  by (auto simp: wider_def merge_change_def Let_def)

lemma some_in_given: "some_in xs P = list_ex P (given xs)"
  by (simp add: given_def split: option.split)

lemma api_resources_database: "list_all (\<lambda>name. replaceAll_char (CHR ''_'') ''-'' name \<in> set databaseResources) api_resources"
  by code_simp

lemma affectedQuery_iff:
  assumes "key_at query 2 = JS_String resource"
  shows "affectedQuery base change query \<longleftrightarrow>
    key_at query 0 = JS_String ''native'' \<and> key_at query 1 = JS_String base \<and>
    (if ch_all change then resource \<in> set databaseResources \<or> qr_objects query \<noteq> None
     else resource = ''analyses'' \<and> js_text (key_at query 3) \<in> set (given (ch_analysis_ids change)) \<or>
       resource \<in> replaceAll_char (CHR ''_'') ''-'' ` set (given (ch_resources change)) \<or>
       (\<exists>d \<in> set (given (qr_objects query)). \<exists>object \<in> set (given (ch_objects change)). same_object object d))"
  using assms by (auto simp: affectedQuery_def some_in_given list_ex_iff)

lemma api_resource_database:
  "api_change change \<Longrightarrow> replaceAll_char (CHR ''_'') ''-'' ` set (given (ch_resources change)) \<subseteq> set databaseResources"
  using api_resources_database by (auto simp: api_change_def list_all_iff)

lemma wider_covers:
  assumes "wider scope change" "api_change change"
  shows "covers scope change"
proof -
  have "affectedQuery base scope query" if affected: "affectedQuery base change query" for base query
  proof (cases "key_at query 2")
    case (JS_String resource)
    note affected = affected [unfolded affectedQuery_iff [OF JS_String]]
    show ?thesis
    proof (cases "ch_all scope")
      case True
      have "''analyses'' \<in> set databaseResources" by (simp add: databaseResources_def)
      moreover have "qr_objects query \<noteq> None" if "d \<in> set (given (qr_objects query))" for d
        using that by (cases "qr_objects query") simp_all
      ultimately have "resource \<in> set databaseResources \<or> qr_objects query \<noteq> None"
        using affected api_resource_database [OF assms(2)] by (auto split: if_splits)
      then show ?thesis using affected True unfolding affectedQuery_iff [OF JS_String] by simp
    next
      case False
      then show ?thesis using affected assms(1) unfolding affectedQuery_iff [OF JS_String] wider_def by auto
    qed
  qed (use affected in \<open>simp_all add: affectedQuery_def\<close>)
  then show ?thesis by (simp add: covers_def)
qed

text \<open>
  Every accepted change is in the pending change or in one already handed over, as long as the effect
  lives; and what is pending has a refresh to come unless the last one was rejected.
\<close>

definition none_lost :: "change_scope list \<Rightarrow> ('e, 'win) watch \<Rightarrow> bool" where
  "none_lost changes w \<longleftrightarrow>
     (\<forall>c \<in> set changes. (\<exists>scope \<in> set (wt_refreshed w). wider scope c) \<or> (\<exists>p. wt_pending w = Some p \<and> wider p c))"

lemma kept_refresh:
  assumes "none_lost changes w"
  shows "none_lost (changes @ [c]) (refresh c w)"
proof -
  let ?m = "merge_change (wt_pending w) c"
  have "wider ?m c" by (rule merge_wider)
  moreover have "(\<exists>scope \<in> set (wt_refreshed w). wider scope d) \<or> wider ?m d" if "d \<in> set changes" for d
    using assms that merge_wider(2) wider_trans unfolding none_lost_def by metis
  ultimately show ?thesis by (auto simp: none_lost_def refresh_def)
qed

lemma kept_loop: "none_lost changes w \<Longrightarrow> none_lost changes (refresh_loop w)"
  unfolding none_lost_def refresh_loop_def by (auto split: option.split)

lemma observe_frame [simp]:
  "wt_pending (observe elements arrived w) = wt_pending w" "wt_refreshed (observe elements arrived w) = wt_refreshed w"
  "wt_phase (observe elements arrived w) = wt_phase w" "wt_disposed (observe elements arrived w) = wt_disposed w"
  "wt_cache (observe elements arrived w) = wt_cache w" "wt_window (observe elements arrived w) = wt_window w"
  by (simp_all add: observe_def Let_def split: prod.split)

lemma set_tasks_frame [simp]:
  "wt_pending (set_tasks elements arrived w) = wt_pending w" "wt_refreshed (set_tasks elements arrived w) = wt_refreshed w"
  "wt_phase (set_tasks elements arrived w) = wt_phase w" "wt_disposed (set_tasks elements arrived w) = wt_disposed w"
  by (simp_all add: set_tasks_def Let_def)

lemma kept_same: "none_lost changes w \<Longrightarrow> wt_pending w' = wt_pending w \<Longrightarrow> wt_refreshed w' = wt_refreshed w \<Longrightarrow> none_lost changes w'"
  by (simp add: none_lost_def)

lemma watch_step_kept:
  assumes "watch_step lower base w label w'" "none_lost changes w"
  shows "none_lost (changes @ accepted_change lower base w label) w'"
  using assms
proof (cases rule: watch_step.cases)
  case (change_without_renames m)
  then show ?thesis using kept_refresh [OF assms(2)] by (simp add: accepted_change_def)
next
  case (change_with_renames m win)
  have "none_lost changes (w\<lparr>wt_window := win\<rparr>)" using assms(2) by (rule kept_same) simp_all
  then show ?thesis using change_with_renames kept_refresh by (simp add: accepted_change_def)
next
  case reset_received
  then show ?thesis using kept_refresh [OF assms(2)] by (simp add: accepted_change_def)
qed (auto simp: accepted_change_def intro: kept_loop kept_same [OF assms(2)] assms(2))

lemma watch_reachable_kept: "watch_reachable lower base labels changes seen w \<Longrightarrow> none_lost changes w"
proof (induction rule: watch_reachable.induct)
  case (watch_started cached elements win)
  show ?case by (simp add: none_lost_def)
qed (rule watch_step_kept)

text \<open>Unless a refresh was rejected or the effect disposed, what is pending is about to be refreshed.\<close>

definition undisturbed :: "'e watch_label list \<Rightarrow> bool" where
  "undisturbed labels \<longleftrightarrow> Refresh_rejected \<notin> set labels \<and> Effect_disposed \<notin> set labels"

definition attended :: "('e, 'win) watch \<Rightarrow> bool" where
  "attended w \<longleftrightarrow> \<not> wt_disposed w \<and> (wt_pending w \<noteq> None \<longrightarrow> wt_phase w \<noteq> Not_refreshing)"

lemma refresh_loop_attended: "\<not> wt_disposed w \<Longrightarrow> attended (refresh_loop w)"
  by (simp add: attended_def refresh_loop_def split: option.split)

lemma watch_step_attended:
  assumes "watch_step lower base w label w'" "attended w" "label \<noteq> Refresh_rejected" "label \<noteq> Effect_disposed"
  shows "attended w'"
  using assms refresh_loop_attended [of w] by cases (auto simp: attended_def refresh_def)

lemma start_watch_idle [simp]:
  "wt_pending (start_watch elements cached win) = None" "wt_disposed (start_watch elements cached win) = False"
  "wt_refreshed (start_watch elements cached win) = []" "wt_phase (start_watch elements cached win) = Not_refreshing"
  by (simp_all add: start_watch_def Let_def split: option.split)

lemma watch_reachable_attended:
  "watch_reachable lower base labels changes seen w \<Longrightarrow> undisturbed labels \<Longrightarrow> attended w"
proof (induction rule: watch_reachable.induct)
  case (watch_stepped labels changes seen w label w')
  then have "attended w" "label \<noteq> Refresh_rejected" "label \<noteq> Effect_disposed" by (auto simp: undisturbed_def)
  then show ?case using watch_step_attended [OF watch_stepped(2)] by blast
qed (simp add: attended_def)

text \<open>Two completions of the loop hand over everything that was accepted before.\<close>

lemma refresh_loop_twice:
  assumes "\<not> wt_disposed w"
  shows "wt_pending (refresh_loop w) = None"
    and "set (wt_refreshed (refresh_loop w)) = set (wt_refreshed w) \<union> set_option (wt_pending w)"
    and "wt_phase (refresh_loop (refresh_loop w)) = Not_refreshing"
  using assms by (auto simp: refresh_loop_def split: option.split)

definition run_loop :: "('e, 'win) watch \<Rightarrow> ('e, 'win) watch" where
  "run_loop w = (if wt_phase w = Not_refreshing then w else refresh_loop w)"

lemma run_loop_step:
  "run_loop w = w \<or> watch_step lower base w Loop_started (run_loop w) \<or> watch_step lower base w Refresh_done (run_loop w)"
  using loop_started [of w lower base] refresh_done [of w _ lower base]
  by (cases "wt_phase w") (auto simp: run_loop_def)

subsection \<open>Tasks are reported once\<close>

lemma latestTasks_revision:
  "sn_revision (latestTasks previous arrived) \<ge> sn_revision arrived"
  "previous = Some p \<Longrightarrow> sn_revision (latestTasks previous arrived) \<ge> sn_revision p"
  by (auto simp: latestTasks_def split: option.split)

lemma observe_task_observed:
  "set (fst (observe_task elements initial task (observed, reports))) =
     set observed \<union> (if tk_finished_at task = None then {} else {tk_id task})"
  by (auto simp: observe_task_def)

lemma task_reports_id: "r \<in> set (task_reports elements task) \<Longrightarrow> reported_id r = tk_id task"
  by (auto simp: task_reports_def split: task_state.splits option.splits if_splits)

lemma task_reports_one: "distinct (map reported_id (task_reports elements task))"
  by (simp add: task_reports_def split: task_state.split option.split)

text \<open>What one snapshot adds to the observed tasks and the reports.\<close>

definition adds_reports :: "string set \<Rightarrow> string set \<Rightarrow> string set \<Rightarrow> bool \<Rightarrow> 'e report list \<Rightarrow> bool" where
  "adds_reports present before after initial added \<longleftrightarrow>
     before \<subseteq> after \<and> reported_id ` set added \<subseteq> present \<inter> after - before \<and>
     distinct (map reported_id added) \<and> (initial \<longrightarrow> added = [])"

lemma adds_reports_trans:
  assumes "adds_reports P A B initial xs" "adds_reports Q B C initial ys"
  shows "adds_reports (P \<union> Q) A C initial (xs @ ys)"
proof -
  have "reported_id ` set xs \<inter> reported_id ` set ys = {}" using assms unfolding adds_reports_def by blast
  then have "distinct (map reported_id (xs @ ys))" using assms unfolding adds_reports_def by simp
  moreover have "reported_id ` set (xs @ ys) \<subseteq> (P \<union> Q) \<inter> C - A" using assms unfolding adds_reports_def by auto
  ultimately show ?thesis using assms unfolding adds_reports_def by auto
qed

lemma observe_task_adds:
  assumes "observe_task elements initial task (kept, reports) = (observed, reports')"
  shows "\<exists>added. reports' = reports @ added \<and> adds_reports {tk_id task} (set kept) (set observed) initial added"
proof (cases "tk_finished_at task = None \<or> tk_id task \<in> set kept")
  case True
  then show ?thesis using assms by (simp add: observe_task_def adds_reports_def)
next
  case False
  let ?now = "if initial then [] else task_reports elements task"
  have "observed = kept @ [tk_id task]" "reports' = reports @ ?now" using assms False by (auto simp: observe_task_def split: if_splits)
  moreover have "reported_id ` set ?now \<subseteq> {tk_id task}" using task_reports_id by auto
  ultimately show ?thesis
    using False task_reports_one [of elements task]
    by (intro exI [where x = ?now]) (auto simp: adds_reports_def dest!: task_reports_id)
qed

lemma observe_tasks_adds:
  "fold (observe_task elements initial) tasks (kept, reports) = (observed, reports') \<Longrightarrow>
     \<exists>added. reports' = reports @ added \<and> adds_reports (tk_id ` set tasks) (set kept) (set observed) initial added"
proof (induction tasks arbitrary: kept reports)
  case Nil
  then show ?case by (simp add: adds_reports_def)
next
  case (Cons task tasks)
  obtain kept1 reports1 where first: "observe_task elements initial task (kept, reports) = (kept1, reports1)" by fastforce
  then have rest: "fold (observe_task elements initial) tasks (kept1, reports1) = (observed, reports')" using Cons.prems by simp
  obtain xs where xs: "reports1 = reports @ xs" "adds_reports {tk_id task} (set kept) (set kept1) initial xs"
    using observe_task_adds [OF first] by blast
  obtain ys where ys: "reports' = reports1 @ ys" "adds_reports (tk_id ` set tasks) (set kept1) (set observed) initial ys"
    using Cons.IH [OF rest] by blast
  have "adds_reports (tk_id ` set (task # tasks)) (set kept) (set observed) initial (xs @ ys)"
    using adds_reports_trans [OF xs(2) ys(2)] by simp
  then show ?case using xs(1) ys(1) by auto
qed

text \<open>
  The host's snapshots are consistent when a task that left the list does not come back in a later
  revision. The effect then reports a task at most once: one it has reported is still observed or has
  left the list for good.
\<close>

definition task_ids :: "'e task_snapshot \<Rightarrow> string set" where
  "task_ids s = tk_id ` set (sn_tasks s)"

definition no_return :: "'e task_snapshot set \<Rightarrow> bool" where
  "no_return seen \<longleftrightarrow>
     (\<forall>s \<in> seen. \<forall>t \<in> seen. \<forall>u \<in> seen. sn_revision s < sn_revision t \<longrightarrow> sn_revision t < sn_revision u \<longrightarrow>
        task_ids s \<inter> task_ids u \<subseteq> task_ids t)"

definition accounted :: "'e task_snapshot set \<Rightarrow> ('e, 'win) watch \<Rightarrow> string \<Rightarrow> bool" where
  "accounted seen w i \<longleftrightarrow>
     (\<exists>s \<in> seen. i \<in> task_ids s \<and> sn_revision s \<le> wt_revision w \<and>
        (i \<in> set (wt_observed w) \<or> (\<exists>t \<in> seen. sn_revision s < sn_revision t \<and> sn_revision t \<le> wt_revision w \<and> i \<notin> task_ids t)))"

definition reports_ok :: "'e task_snapshot set \<Rightarrow> ('e, 'win) watch \<Rightarrow> bool" where
  "reports_ok seen w \<longleftrightarrow>
     distinct (map reported_id (wt_reports w)) \<and> (\<forall>r \<in> set (wt_reports w). accounted seen w (reported_id r))"

lemma observe_accepted:
  assumes "sn_revision arrived > wt_revision w"
  obtains added where "wt_reports (observe elements arrived w) = wt_reports w @ added"
    and "adds_reports (task_ids arrived) (set (wt_observed w) \<inter> task_ids arrived) (set (wt_observed (observe elements arrived w)))
      (wt_revision w = -1) added"
    and "wt_revision (observe elements arrived w) = sn_revision arrived"
proof -
  obtain observed reports where f: "fold (observe_task elements (wt_revision w = -1)) (sn_tasks arrived)
      (filter (\<lambda>i. i \<in> set (map tk_id (sn_tasks arrived))) (wt_observed w), wt_reports w) = (observed, reports)" by fastforce
  from observe_tasks_adds [OF this] obtain added where "reports = wt_reports w @ added"
    "adds_reports (tk_id ` set (sn_tasks arrived)) (set (filter (\<lambda>i. i \<in> set (map tk_id (sn_tasks arrived))) (wt_observed w)))
       (set observed) (wt_revision w = -1) added" by blast
  moreover have "set (filter (\<lambda>i. i \<in> set (map tk_id (sn_tasks arrived))) (wt_observed w)) = set (wt_observed w) \<inter> task_ids arrived"
    by (auto simp: task_ids_def)
  ultimately show thesis using f assms by (intro that) (simp_all add: observe_def task_ids_def Let_def)
qed

lemma observe_reports_ok:
  assumes ok: "reports_ok seen w" and "no_return seen" "arrived \<in> seen"
  shows "reports_ok seen (observe elements arrived w)"
proof (cases "sn_revision arrived > wt_revision w")
  case True
  let ?w' = "observe elements arrived w"
  obtain added where reports: "wt_reports ?w' = wt_reports w @ added"
    and adds: "adds_reports (task_ids arrived) (set (wt_observed w) \<inter> task_ids arrived) (set (wt_observed ?w')) (wt_revision w = -1) added"
    and revision: "wt_revision ?w' = sn_revision arrived"
    by (rule observe_accepted [OF True])
  have old: "accounted seen ?w' i" if acc: "accounted seen w i" for i
  proof -
    from acc obtain s where s: "s \<in> seen" "i \<in> task_ids s" "sn_revision s \<le> wt_revision w" and
      gone: "i \<in> set (wt_observed w) \<or> (\<exists>t \<in> seen. sn_revision s < sn_revision t \<and> sn_revision t \<le> wt_revision w \<and> i \<notin> task_ids t)"
      unfolding accounted_def by blast
    have later: "sn_revision s < sn_revision arrived" "sn_revision s \<le> wt_revision ?w'" using s(3) True revision by simp_all
    have "i \<in> set (wt_observed ?w')" if "i \<in> set (wt_observed w)" "i \<in> task_ids arrived"
      using adds that unfolding adds_reports_def by blast
    moreover have "sn_revision t \<le> wt_revision ?w'" if "sn_revision t \<le> wt_revision w" for t :: "'a task_snapshot"
      using that True revision by simp
    ultimately show ?thesis unfolding accounted_def using s(1,2) gone later assms(3) revision by (metis order_refl)
  qed
  have fresh: "\<not> accounted seen w i" if i: "i \<in> reported_id ` set added" for i
  proof
    assume "accounted seen w i"
    then obtain s where s: "s \<in> seen" "i \<in> task_ids s" "sn_revision s \<le> wt_revision w" and
      gone: "i \<in> set (wt_observed w) \<or> (\<exists>t \<in> seen. sn_revision s < sn_revision t \<and> sn_revision t \<le> wt_revision w \<and> i \<notin> task_ids t)"
      unfolding accounted_def by blast
    have present: "i \<in> task_ids arrived" "i \<notin> set (wt_observed w)" using adds i unfolding adds_reports_def by blast+
    with gone obtain t where t: "t \<in> seen" "sn_revision s < sn_revision t" "sn_revision t \<le> wt_revision w" "i \<notin> task_ids t" by blast
    have "sn_revision t < sn_revision arrived" using t(3) True by simp
    then show False using assms(2,3) s(1,2) t present(1) unfolding no_return_def by blast
  qed
  have new: "accounted seen ?w' i" if "i \<in> reported_id ` set added" for i
  proof -
    have "i \<in> task_ids arrived" "i \<in> set (wt_observed ?w')" using adds that unfolding adds_reports_def by blast+
    then show ?thesis unfolding accounted_def using assms(3) revision by (metis order_refl)
  qed
  have "reported_id ` set (wt_reports w) \<inter> reported_id ` set added = {}"
    using ok fresh unfolding reports_ok_def by blast
  moreover have "distinct (map reported_id added)" using adds unfolding adds_reports_def by blast
  ultimately have "distinct (map reported_id (wt_reports ?w'))" using ok unfolding reports reports_ok_def by simp
  moreover have "accounted seen ?w' (reported_id r)" if "r \<in> set (wt_reports ?w')" for r
    using that ok old new unfolding reports reports_ok_def by auto
  ultimately show ?thesis unfolding reports_ok_def by blast
qed (use ok in \<open>simp add: observe_def\<close>)

lemma accounted_mono:
  assumes "accounted seen w i" "seen \<subseteq> seen'" "wt_revision w' = wt_revision w" "wt_observed w' = wt_observed w"
  shows "accounted seen' w' i"
  using assms(1) unfolding accounted_def assms(3,4)
  by (elim bexE conjE disjE) (use assms(2) in blast)+

lemma reports_ok_same:
  assumes "reports_ok seen w" "seen \<subseteq> seen'"
    and "wt_revision w' = wt_revision w" "wt_observed w' = wt_observed w" "wt_reports w' = wt_reports w"
  shows "reports_ok seen' w'"
  using assms accounted_mono [OF _ assms(2-4)] by (simp add: reports_ok_def)

lemma no_return_subset: "no_return seen' \<Longrightarrow> seen \<subseteq> seen' \<Longrightarrow> no_return seen"
  unfolding no_return_def by blast

definition cache_seen :: "'e task_snapshot set \<Rightarrow> ('e, 'win) watch \<Rightarrow> bool" where
  "cache_seen seen w \<longleftrightarrow> set_option (wt_cache w) \<subseteq> seen"

lemma latest_seen: "set_option previous \<subseteq> seen \<Longrightarrow> latestTasks previous arrived \<in> insert arrived seen"
  by (auto simp: latestTasks_def split: option.split)

lemma set_tasks_reports_ok:
  assumes "reports_ok seen w" "cache_seen seen w" "no_return (insert arrived seen)"
  shows "reports_ok (insert arrived seen) (set_tasks elements arrived w) \<and> cache_seen (insert arrived seen) (set_tasks elements arrived w)"
proof -
  let ?data = "latestTasks (wt_cache w) arrived"
  have member: "?data \<in> insert arrived seen" using assms(2) unfolding cache_seen_def by (rule latest_seen)
  have ok: "reports_ok (insert arrived seen) (w\<lparr>wt_cache := Some ?data\<rparr>)" using assms(1) by (rule reports_ok_same) auto
  then show ?thesis
    using member observe_reports_ok [OF ok assms(3) member, of elements] by (simp add: set_tasks_def cache_seen_def Let_def)
qed

lemma refresh_loop_frame [simp]:
  "wt_revision (refresh_loop w) = wt_revision w" "wt_observed (refresh_loop w) = wt_observed w"
  "wt_reports (refresh_loop w) = wt_reports w" "wt_cache (refresh_loop w) = wt_cache w"
  by (simp_all add: refresh_loop_def split: option.split)

lemma watch_step_reports_ok:
  assumes step: "watch_step lower base w label w'" and ok: "reports_ok seen w" "cache_seen seen w"
    and "no_return (seen \<union> arriving label)"
  shows "reports_ok (seen \<union> arriving label) w' \<and> cache_seen (seen \<union> arriving label) w'"
proof -
  have same: "reports_ok seen v \<and> cache_seen seen v"
    if "wt_revision v = wt_revision w" "wt_observed v = wt_observed w" "wt_reports v = wt_reports w" "wt_cache v = wt_cache w" for v
    using that ok reports_ok_same [OF ok(1) order_refl] by (simp add: cache_seen_def)
  show ?thesis
    using step
  proof cases
    case (tasks_response elements arrived)
    then show ?thesis using set_tasks_reports_ok [OF ok] assms(4) by simp
  next
    case (tasks_message elements arrived)
    let ?v = "set_tasks elements arrived w"
    have "reports_ok (insert arrived seen) ?v" "cache_seen (insert arrived seen) ?v"
      using set_tasks_reports_ok [OF ok] assms(4) tasks_message by simp_all
    moreover from this(1) have "reports_ok (insert arrived seen) (?v\<lparr>wt_reconnecting := False\<rparr>)" by (rule reports_ok_same) auto
    ultimately show ?thesis using tasks_message by (simp add: cache_seen_def)
  qed (simp_all add: same refresh_def)
qed

lemma watch_reachable_reports:
  "watch_reachable lower base labels changes seen w \<Longrightarrow> no_return seen \<Longrightarrow> reports_ok seen w \<and> cache_seen seen w"
proof (induction rule: watch_reachable.induct)
  case (watch_started cached elements win)
  show ?case
  proof (cases cached)
    case (Some data)
    then show ?thesis using watch_started
      by (simp add: start_watch_def cache_seen_def Let_def) (rule observe_reports_ok; simp add: reports_ok_def)
  qed (simp add: start_watch_def reports_ok_def cache_seen_def Let_def)
next
  case (watch_stepped labels changes seen w label w')
  then have "no_return seen" by (meson no_return_subset Un_upper1)
  then show ?case using watch_stepped watch_step_reports_ok by blast
qed

text \<open>A task that finishes after the first snapshot is reported when its snapshot is accepted.\<close>

lemma observe_tasks_reports:
  assumes "task \<in> set tasks" "distinct (map tk_id tasks)" "tk_finished_at task \<noteq> None" "tk_id task \<notin> set kept"
    and "fold (observe_task elements False) tasks (kept, reports) = (observed, reports')"
  shows "set (task_reports elements task) \<subseteq> set reports'"
  using assms
proof (induction tasks arbitrary: kept reports)
  case (Cons t tasks)
  obtain kept1 reports1 where first: "observe_task elements False t (kept, reports) = (kept1, reports1)" by fastforce
  then have rest: "fold (observe_task elements False) tasks (kept1, reports1) = (observed, reports')" using Cons.prems by simp
  then have grows: "set reports1 \<subseteq> set reports'" using observe_tasks_adds by fastforce
  show ?case
  proof (cases "task = t")
    case True
    then have "set (task_reports elements task) \<subseteq> set reports1" using first Cons.prems by (auto simp: observe_task_def)
    with grows show ?thesis by simp
  next
    case False
    then have member: "task \<in> set tasks" "tk_id t \<noteq> tk_id task" using Cons.prems(1,2) by (auto simp: image_iff)
    then have "tk_id task \<notin> set kept1" using first Cons.prems(4) by (auto simp: observe_task_def split: if_splits)
    with Cons.IH [OF member(1) _ Cons.prems(3) _ rest] Cons.prems(2) show ?thesis by simp
  qed
qed simp

lemma finished_task_reported:
  assumes "sn_revision arrived > wt_revision w" "wt_revision w \<noteq> -1" "task \<in> set (sn_tasks arrived)"
    and "distinct (map tk_id (sn_tasks arrived))" "tk_finished_at task \<noteq> None" "tk_id task \<notin> set (wt_observed w)"
  shows "set (task_reports elements task) \<subseteq> set (wt_reports (observe elements arrived w))"
proof -
  let ?kept = "filter (\<lambda>i. i \<in> set (map tk_id (sn_tasks arrived))) (wt_observed w)"
  obtain observed reports where f: "fold (observe_task elements False) (sn_tasks arrived) (?kept, wt_reports w) = (observed, reports)"
    by fastforce
  have "tk_id task \<notin> set ?kept" using assms(6) by simp
  from observe_tasks_reports [OF assms(3,4,5) this f] show ?thesis using f assms(1,2) by (simp add: observe_def Let_def)
qed

subsection \<open>Properties\<close>

definition example_message :: change_message where
  "example_message =
     \<lparr>cm_scope = \<lparr>ch_all = False, ch_analysis_ids = None, ch_resources = Some [''tabs''], ch_objects = None\<rparr>,
      cm_renames = [], cm_id = None\<rparr>"

definition example_task :: "int option \<Rightarrow> unit task" where
  "example_task finished =
     \<lparr>tk_id = ''t'', tk_label = ''Export'', tk_state = (if finished = None then Task_running else Task_failed),
      tk_finished_at = finished, tk_notice = None, tk_error = Some (), tk_tab_id = None\<rparr>"

definition example_snapshot :: "int \<Rightarrow> int option \<Rightarrow> unit task_snapshot" where
  "example_snapshot revision finished = \<lparr>sn_revision = revision, sn_tasks = [example_task finished]\<rparr>"

abbreviation example_watch :: "(unit, (unit, unit, unit, nat, nat, nat) window) watch" where
  "example_watch \<equiv> start_watch [] (Some (example_snapshot 1 None)) example_window"


lemma example_message_reachable:
  "watch_reachable lower base [Change_received example_message] [cm_scope example_message] {example_snapshot 1 None}
     (refresh (cm_scope example_message) example_watch)"
proof -
  have "watch_step lower base example_watch (Change_received example_message) (refresh (cm_scope example_message) example_watch)"
    by (rule change_without_renames) (simp_all add: example_message_def)
  from watch_stepped [OF watch_started this] show ?thesis by (simp add: accepted_change_def example_message_def)
qed


text \<open>
  Provided a task that left the host's list does not return, the window reports every task at most
  once, whichever way and in whatever order its snapshots arrive.
\<close>

theorem tasks_reported_once:
  assumes "watch_reachable lower base labels changes seen w" "no_return seen"
  shows "distinct (map reported_id (wt_reports w))"
  using watch_reachable_reports [OF assms] by (simp add: reports_ok_def)

lemma example_reported:
  "wt_reports (set_tasks [] (example_snapshot 3 (Some 9)) (set_tasks [] (example_snapshot 2 (Some 9)) example_watch)) =
     [Failure ''t'' ''Export'' ()]"
  by (simp add: set_tasks_def start_watch_def latestTasks_def observe_def observe_task_def example_snapshot_def
      example_task_def task_reports_def visible_owner_def Let_def)

lemma tasks_reported_once_witness:
  "distinct (map reported_id (wt_reports
     (set_tasks [] (example_snapshot 3 (Some 9)) (set_tasks [] (example_snapshot 2 (Some 9)) example_watch))))"
proof -
  let ?seen = "{example_snapshot 1 None} \<union> {example_snapshot 2 (Some 9)} \<union> {example_snapshot 3 (Some 9)}"
  let ?first = "set_tasks [] (example_snapshot 2 (Some 9)) example_watch"
  have "watch_reachable fold_case ''b'' [] [] (set_option (Some (example_snapshot 1 None))) example_watch" by (rule watch_started)
  from watch_stepped [OF this tasks_response [of _ _ _ "[]" "example_snapshot 2 (Some 9)"]]
  have "watch_reachable fold_case ''b'' [Tasks_response [] (example_snapshot 2 (Some 9))] []
      ({example_snapshot 1 None} \<union> {example_snapshot 2 (Some 9)}) ?first" by (simp add: accepted_change_def insert_commute)
  from watch_stepped [OF this tasks_response [of _ _ _ "[]" "example_snapshot 3 (Some 9)"]]
  have "\<exists>labels. watch_reachable fold_case ''b'' labels [] ?seen (set_tasks [] (example_snapshot 3 (Some 9)) ?first)"
    by (auto simp: accepted_change_def insert_commute)
  moreover have "no_return ?seen" by (auto simp: no_return_def example_snapshot_def task_ids_def example_task_def)
  ultimately show ?thesis using tasks_reported_once by blast
qed

end
