(* ===== verification/Connections.thy ===== *)
theory Connections
  imports Prelude
begin

text \<open>
  The event streams of a window, from \<open>features/server/events.ts\<close>: one stream per server is shared by the
  listeners of server events and the selected project. Connections are objects on a heap, since the
  functions that end a subscription keep the one they were made for; a source is numbered by its
  creation, listeners and handlers by the function they are.
\<close>

subsection \<open>Objects\<close>

record project_subscription =
  pj_object :: nat
  pj_id :: string
  pj_handlers :: nat

record connection =
  cn_source :: nat
  cn_listeners :: "nat list"
  cn_project :: "project_subscription option"

text \<open>An \<open>EventSource\<close>: its server, the project of its query and the connection its callbacks read.\<close>

record event_source =
  so_base :: string
  so_query :: "string option"
  so_connection :: nat
  so_open :: bool

record streams =
  st_connections :: "string \<rightharpoonup> nat"
  st_heap :: "connection list"
  st_sources :: "event_source list"
  st_objects :: nat

definition no_streams :: streams where
  "no_streams = \<lparr>st_connections = Map.empty, st_heap = [], st_sources = [], st_objects = 0\<rparr>"

definition source_url :: "(string \<Rightarrow> string) \<Rightarrow> event_source \<Rightarrow> string" where
  "source_url encodeURIComponent source =
     so_base source @ ''/api/server/events'' @
     (case so_query source of Some i \<Rightarrow> ''?project_id='' @ encodeURIComponent i | None \<Rightarrow> [])"

definition set_connection :: "nat \<Rightarrow> connection \<Rightarrow> streams \<Rightarrow> streams" where
  "set_connection c connection st = st\<lparr>st_heap := (st_heap st)[c := connection]\<rparr>"

text \<open>\<open>connect\<close> opens a source for the connection object \<open>c\<close> and gives its number.\<close>

definition connect :: "string \<Rightarrow> nat \<Rightarrow> project_subscription option \<Rightarrow> streams \<Rightarrow> streams" where
  "connect base c project st =
     st\<lparr>st_sources := st_sources st @ [\<lparr>so_base = base, so_query = map_option pj_id project, so_connection = c, so_open = True\<rparr>]\<rparr>"

definition close_source :: "nat \<Rightarrow> streams \<Rightarrow> streams" where
  "close_source s st = st\<lparr>st_sources := (st_sources st)[s := (st_sources st ! s)\<lparr>so_open := False\<rparr>]\<rparr>"

definition getConnection :: "string \<Rightarrow> project_subscription option \<Rightarrow> streams \<Rightarrow> nat \<times> streams" where
  "getConnection base project st =
     (case st_connections st base of
        Some c \<Rightarrow> (c, st)
      | None \<Rightarrow>
          let c = length (st_heap st);
              connection = \<lparr>cn_source = length (st_sources st), cn_listeners = [], cn_project = project\<rparr>;
              st' = connect base c project (st\<lparr>st_heap := st_heap st @ [connection]\<rparr>)
          in (c, st'\<lparr>st_connections := (st_connections st)(base \<mapsto> c)\<rparr>))"

definition release :: "string \<Rightarrow> nat \<Rightarrow> streams \<Rightarrow> streams" where
  "release base c st =
     (if cn_listeners (st_heap st ! c) = [] \<and> cn_project (st_heap st ! c) = None
      then let st' = close_source (cn_source (st_heap st ! c)) st
           in st'\<lparr>st_connections := (st_connections st')(base := None)\<rparr>
      else st)"

text \<open>Closing a connection's source and opening another for its new project.\<close>

definition reconnect :: "string \<Rightarrow> nat \<Rightarrow> project_subscription option \<Rightarrow> streams \<Rightarrow> streams" where
  "reconnect base c project st =
     (let st1 = close_source (cn_source (st_heap st ! c)) st;
          connection = (st_heap st ! c)\<lparr>cn_project := project, cn_source := length (st_sources st1)\<rparr>
      in connect base c project (set_connection c connection st1))"

subsection \<open>Subscriptions\<close>

datatype subscription = Server_subscription string nat nat | Project_subscription string nat project_subscription

definition subscribeServerEvents :: "string \<Rightarrow> nat \<Rightarrow> streams \<Rightarrow> subscription \<times> streams" where
  "subscribeServerEvents base listener st =
     (let (c, st') = getConnection base None st; connection = st_heap st' ! c;
          listeners = (if listener \<in> set (cn_listeners connection) then cn_listeners connection else cn_listeners connection @ [listener])
      in (Server_subscription base c listener, set_connection c (connection\<lparr>cn_listeners := listeners\<rparr>) st'))"

definition same_project :: "project_subscription option \<Rightarrow> project_subscription \<Rightarrow> bool" where
  "same_project current project \<longleftrightarrow> (case current of Some p \<Rightarrow> pj_object p = pj_object project | None \<Rightarrow> False)"

definition subscribeProjectEvents :: "string \<Rightarrow> string \<Rightarrow> nat \<Rightarrow> streams \<Rightarrow> subscription \<times> streams" where
  "subscribeProjectEvents base i handlers st =
     (let project = \<lparr>pj_object = st_objects st, pj_id = i, pj_handlers = handlers\<rparr>;
          (c, st') = getConnection base (Some project) (st\<lparr>st_objects := st_objects st + 1\<rparr>)
      in (Project_subscription base c project,
          if same_project (cn_project (st_heap st' ! c)) project then st' else reconnect base c (Some project) st'))"

fun unsubscribe :: "subscription \<Rightarrow> streams \<Rightarrow> streams" where
  "unsubscribe (Server_subscription base c listener) st =
     (let connection = st_heap st ! c in
      if listener \<notin> set (cn_listeners connection) then st
      else release base c (set_connection c (connection\<lparr>cn_listeners := filter (\<lambda>l. l \<noteq> listener) (cn_listeners connection)\<rparr>) st))"
| "unsubscribe (Project_subscription base c project) st =
     (let connection = st_heap st ! c in
      if \<not> same_project (cn_project connection) project then st
      else if cn_listeners connection \<noteq> [] then reconnect base c None st
      else release base c (set_connection c (connection\<lparr>cn_project := None\<rparr>) (close_source (cn_source connection) st)))"

subsection \<open>Events\<close>

datatype stream_event = Message | Stream_error | Tasks_event string | Change_event string | Reset_event

datatype stream_call =
    Notify nat
  | Project_error nat
  | Check_account string
  | Project_tasks nat string
  | Project_change nat string
  | Project_reset nat

definition stream_calls :: "stream_event \<Rightarrow> string \<Rightarrow> connection \<Rightarrow> stream_call list" where
  "stream_calls event base connection =
     (let project = (\<lambda>call. case cn_project connection of Some p \<Rightarrow> [call (pj_handlers p)] | None \<Rightarrow> [])
      in case event of
           Message \<Rightarrow> map Notify (cn_listeners connection)
         | Stream_error \<Rightarrow> project Project_error @ [Check_account base]
         | Tasks_event data \<Rightarrow> project (\<lambda>h. Project_tasks h data)
         | Change_event data \<Rightarrow> project (\<lambda>h. Project_change h data)
         | Reset_event \<Rightarrow> project Project_reset)"

text \<open>A closed source fires no events.\<close>

definition deliver :: "nat \<Rightarrow> stream_event \<Rightarrow> streams \<Rightarrow> stream_call list" where
  "deliver s event st =
     (if s < length (st_sources st) \<and> so_open (st_sources st ! s)
      then stream_calls event (so_base (st_sources st ! s)) (st_heap st ! so_connection (st_sources st ! s)) else [])"

subsection \<open>What subscribers see\<close>

text \<open>The subscribers of a server and the state that the streams stand for.\<close>

definition listeners_of :: "streams \<Rightarrow> string \<Rightarrow> nat list" where
  "listeners_of st base = (case st_connections st base of Some c \<Rightarrow> cn_listeners (st_heap st ! c) | None \<Rightarrow> [])"

definition project_of :: "streams \<Rightarrow> string \<Rightarrow> project_subscription option" where
  "project_of st base = (case st_connections st base of Some c \<Rightarrow> cn_project (st_heap st ! c) | None \<Rightarrow> None)"

definition subscribed :: "streams \<Rightarrow> string \<Rightarrow> bool" where
  "subscribed st base \<longleftrightarrow> listeners_of st base \<noteq> [] \<or> project_of st base \<noteq> None"

text \<open>The open streams of a server.\<close>

definition open_sources :: "streams \<Rightarrow> string \<Rightarrow> nat set" where
  "open_sources st base = {s. s < length (st_sources st) \<and> so_open (st_sources st ! s) \<and> so_base (st_sources st ! s) = base}"

definition source_ok :: "streams \<Rightarrow> string \<Rightarrow> nat \<Rightarrow> bool" where
  "source_ok st base c \<longleftrightarrow>
     c < length (st_heap st) \<and> cn_source (st_heap st ! c) < length (st_sources st) \<and>
     st_sources st ! cn_source (st_heap st ! c) =
       \<lparr>so_base = base, so_query = map_option pj_id (cn_project (st_heap st ! c)), so_connection = c, so_open = True\<rparr>"

definition unused :: "connection \<Rightarrow> bool" where
  "unused connection \<longleftrightarrow> cn_listeners connection = [] \<and> cn_project connection = None"

text \<open>
  A registered connection has an open source of its own that asks for its current project, every open
  source belongs to a registered connection, and a connection that is not registered has no subscriber.
\<close>

definition fine :: "streams \<Rightarrow> bool" where
  "fine st \<longleftrightarrow>
     (\<forall>base c. st_connections st base = Some c \<longrightarrow> source_ok st base c) \<and>
     (\<forall>s < length (st_sources st). so_open (st_sources st ! s) \<longrightarrow>
        st_connections st (so_base (st_sources st ! s)) = Some (so_connection (st_sources st ! s)) \<and>
        cn_source (st_heap st ! so_connection (st_sources st ! s)) = s) \<and>
     (\<forall>c < length (st_heap st). c \<notin> ran (st_connections st) \<longrightarrow> unused (st_heap st ! c)) \<and>
     (\<forall>c < length (st_heap st). \<forall>p. cn_project (st_heap st ! c) = Some p \<longrightarrow> pj_object p < st_objects st)"

definition streams_ok :: "streams \<Rightarrow> bool" where
  "streams_ok st \<longleftrightarrow> fine st \<and> (\<forall>base c. st_connections st base = Some c \<longrightarrow> \<not> unused (st_heap st ! c))"

lemma fineD:
  assumes "fine st"
  shows "st_connections st base = Some c \<Longrightarrow> source_ok st base c"
    and "s < length (st_sources st) \<Longrightarrow> so_open (st_sources st ! s) \<Longrightarrow>
      st_connections st (so_base (st_sources st ! s)) = Some (so_connection (st_sources st ! s)) \<and>
      cn_source (st_heap st ! so_connection (st_sources st ! s)) = s"
    and "c < length (st_heap st) \<Longrightarrow> c \<notin> ran (st_connections st) \<Longrightarrow> unused (st_heap st ! c)"
    and "c < length (st_heap st) \<Longrightarrow> cn_project (st_heap st ! c) = Some p \<Longrightarrow> pj_object p < st_objects st"
  using assms unfolding fine_def by blast+

lemma connection_base: "fine st \<Longrightarrow> st_connections st base = Some c \<Longrightarrow> st_connections st base' = Some c \<Longrightarrow> base' = base"
  using fineD(1) [of st base c] fineD(1) [of st base' c] by (simp add: source_ok_def)

lemma connection_source:
  assumes "fine st" "st_connections st base = Some c" "st_connections st base' = Some c'"
    and "cn_source (st_heap st ! c) = cn_source (st_heap st ! c')"
  shows "c' = c"
  using fineD(1) [OF assms(1,2)] fineD(1) [OF assms(1,3)] assms(4) by (simp add: source_ok_def)

lemma fine_listeners:
  assumes "fine st" "st_connections st base = Some c"
  shows "fine (set_connection c ((st_heap st ! c)\<lparr>cn_listeners := ls\<rparr>) st)"
  using assms unfolding fine_def set_connection_def source_ok_def
  by (auto simp: nth_list_update ranI)

lemma fineI:
  assumes "\<And>base c. st_connections st base = Some c \<Longrightarrow> source_ok st base c"
    and "\<And>s. s < length (st_sources st) \<Longrightarrow> so_open (st_sources st ! s) \<Longrightarrow>
      st_connections st (so_base (st_sources st ! s)) = Some (so_connection (st_sources st ! s)) \<and>
      cn_source (st_heap st ! so_connection (st_sources st ! s)) = s"
    and "\<And>c. c < length (st_heap st) \<Longrightarrow> c \<notin> ran (st_connections st) \<Longrightarrow> unused (st_heap st ! c)"
    and "\<And>c p. c < length (st_heap st) \<Longrightarrow> cn_project (st_heap st ! c) = Some p \<Longrightarrow> pj_object p < st_objects st"
  shows "fine st"
  using assms unfolding fine_def by blast

lemma source_ok_grow:
  "source_ok st b c \<Longrightarrow> st_heap st' = st_heap st @ hs \<Longrightarrow> st_sources st' = st_sources st @ ss \<Longrightarrow> source_ok st' b c"
  by (simp add: source_ok_def nth_append)

lemma getConnection_new:
  assumes "st_connections st base = None"
  shows "fst (getConnection base project st) = length (st_heap st)"
    "st_connections (snd (getConnection base project st)) = (st_connections st)(base \<mapsto> length (st_heap st))"
    "st_heap (snd (getConnection base project st)) =
       st_heap st @ [\<lparr>cn_source = length (st_sources st), cn_listeners = [], cn_project = project\<rparr>]"
    "st_sources (snd (getConnection base project st)) = st_sources st @
       [\<lparr>so_base = base, so_query = map_option pj_id project, so_connection = length (st_heap st), so_open = True\<rparr>]"
    "st_objects (snd (getConnection base project st)) = st_objects st"
  using assms by (simp_all add: getConnection_def connect_def Let_def)

lemma fine_connect:
  assumes fine: "fine st" and new: "st_connections st base = None" and "\<And>p. project = Some p \<Longrightarrow> pj_object p < st_objects st"
  shows "fine (snd (getConnection base project st))"
proof (rule fineI)
  let ?st' = "snd (getConnection base project st)"
  note result = getConnection_new [OF new, of project]
  fix b c assume "st_connections ?st' b = Some c"
  then show "source_ok ?st' b c"
    using source_ok_grow [OF fineD(1) [OF fine] result(3,4)] by (cases "b = base") (auto simp: result source_ok_def)
next
  let ?st' = "snd (getConnection base project st)"
  note result = getConnection_new [OF new, of project]
  fix s assume "s < length (st_sources ?st')" "so_open (st_sources ?st' ! s)"
  then consider "s = length (st_sources st)" | "s < length (st_sources st)" "so_open (st_sources st ! s)"
    by (auto simp: result nth_append less_Suc_eq split: if_splits)
  then show "st_connections ?st' (so_base (st_sources ?st' ! s)) = Some (so_connection (st_sources ?st' ! s)) \<and>
      cn_source (st_heap ?st' ! so_connection (st_sources ?st' ! s)) = s"
  proof cases
    case 2
    then have old: "st_connections st (so_base (st_sources st ! s)) = Some (so_connection (st_sources st ! s))"
      "cn_source (st_heap st ! so_connection (st_sources st ! s)) = s" using fineD(2) [OF fine] by blast+
    then have "so_base (st_sources st ! s) \<noteq> base" "so_connection (st_sources st ! s) < length (st_heap st)"
      using new fineD(1) [OF fine old(1)] by (auto simp: source_ok_def)
    then show ?thesis using old 2 by (simp add: result nth_append)
  qed (simp add: result)
next
  let ?st' = "snd (getConnection base project st)"
  note result = getConnection_new [OF new, of project]
  fix c assume "c < length (st_heap ?st')" "c \<notin> ran (st_connections ?st')"
  then show "unused (st_heap ?st' ! c)" using fineD(3) [OF fine] new by (simp add: result nth_append less_Suc_eq)
next
  let ?st' = "snd (getConnection base project st)"
  note result = getConnection_new [OF new, of project]
  fix c p assume "c < length (st_heap ?st')" "cn_project (st_heap ?st' ! c) = Some p"
  then show "pj_object p < st_objects ?st'" using fineD(4) [OF fine] assms(3) by (auto simp: result nth_append less_Suc_eq)
qed

text \<open>Closing one source: no other connection uses it.\<close>

lemma close_source_simps [simp]:
  "st_connections (close_source s st) = st_connections st" "st_heap (close_source s st) = st_heap st"
  "length (st_sources (close_source s st)) = length (st_sources st)" "st_objects (close_source s st) = st_objects st"
  by (simp_all add: close_source_def)

lemma close_source_nth:
  "s' < length (st_sources st) \<Longrightarrow> st_sources (close_source s st) ! s' =
     (if s' = s then (st_sources st ! s)\<lparr>so_open := False\<rparr> else st_sources st ! s')"
  by (simp add: close_source_def nth_list_update)

lemma close_source_twice: "close_source s (close_source s st) = close_source s st"
  by (cases "s < length (st_sources st)") (simp_all add: close_source_def list_update_beyond)

lemma reconnect_simps:
  assumes "c < length (st_heap st)"
  shows "st_connections (reconnect base c project st) = st_connections st"
    "st_heap (reconnect base c project st) = (st_heap st)[c := (st_heap st ! c)\<lparr>cn_project := project, cn_source := length (st_sources st)\<rparr>]"
    "st_sources (reconnect base c project st) = st_sources (close_source (cn_source (st_heap st ! c)) st) @
       [\<lparr>so_base = base, so_query = map_option pj_id project, so_connection = c, so_open = True\<rparr>]"
    "st_objects (reconnect base c project st) = st_objects st"
  using assms by (simp_all add: reconnect_def connect_def set_connection_def Let_def)

lemma fine_reconnect:
  assumes fine: "fine st" and c: "st_connections st base = Some c" and "\<And>p. project = Some p \<Longrightarrow> pj_object p < st_objects st"
  shows "fine (reconnect base c project st)"
proof (rule fineI)
  let ?st' = "reconnect base c project st"
  have bound: "c < length (st_heap st)" using fineD(1) [OF fine c] by (simp add: source_ok_def)
  note result = reconnect_simps [OF bound, of base project]
  fix b d assume d: "st_connections ?st' b = Some d"
  show "source_ok ?st' b d"
  proof (cases "d = c")
    case True
    then have "b = base" using d connection_base [OF fine c] by (simp add: result)
    then show ?thesis using True bound by (simp add: result source_ok_def nth_append)
  next
    case False
    have old: "source_ok st b d" using d fineD(1) [OF fine] by (simp add: result)
    have "cn_source (st_heap st ! d) \<noteq> cn_source (st_heap st ! c)"
      using connection_source [OF fine c] d False by (metis result(1))
    then show ?thesis using old False by (simp add: result source_ok_def nth_append close_source_nth)
  qed
next
  let ?st' = "reconnect base c project st"
  have bound: "c < length (st_heap st)" using fineD(1) [OF fine c] by (simp add: source_ok_def)
  note result = reconnect_simps [OF bound, of base project]
  fix s assume "s < length (st_sources ?st')" "so_open (st_sources ?st' ! s)"
  then consider "s = length (st_sources st)"
    | "s < length (st_sources st)" "s \<noteq> cn_source (st_heap st ! c)" "so_open (st_sources st ! s)" "st_sources ?st' ! s = st_sources st ! s"
    by (auto simp: result nth_append less_Suc_eq close_source_nth split: if_splits)
  then show "st_connections ?st' (so_base (st_sources ?st' ! s)) = Some (so_connection (st_sources ?st' ! s)) \<and>
      cn_source (st_heap ?st' ! so_connection (st_sources ?st' ! s)) = s"
  proof cases
    case 1
    then show ?thesis using c bound by (simp add: result nth_append)
  next
    case 2
    then have old: "st_connections st (so_base (st_sources st ! s)) = Some (so_connection (st_sources st ! s))"
      "cn_source (st_heap st ! so_connection (st_sources st ! s)) = s" using fineD(2) [OF fine] by blast+
    then have "so_connection (st_sources st ! s) \<noteq> c" using 2 by auto
    then show ?thesis using old 2 by (simp add: result(1,2))
  qed
next
  let ?st' = "reconnect base c project st"
  have bound: "c < length (st_heap st)" using fineD(1) [OF fine c] by (simp add: source_ok_def)
  note result = reconnect_simps [OF bound, of base project]
  fix d assume "d < length (st_heap ?st')" "d \<notin> ran (st_connections ?st')"
  then show "unused (st_heap ?st' ! d)" using fineD(3) [OF fine] c by (cases "d = c") (auto simp: result ranI)
next
  let ?st' = "reconnect base c project st"
  have bound: "c < length (st_heap st)" using fineD(1) [OF fine c] by (simp add: source_ok_def)
  note result = reconnect_simps [OF bound, of base project]
  fix d p assume "d < length (st_heap ?st')" "cn_project (st_heap ?st' ! d) = Some p"
  then show "pj_object p < st_objects ?st'"
    using fineD(4) [OF fine] assms(3) bound by (cases "d = c") (auto simp: result reconnect_simps [OF bound])
qed

text \<open>A connection without subscribers is closed and removed.\<close>

lemma fine_drop:
  assumes fine: "fine st" and c: "st_connections st base = Some c" and k: "unused k"
    and final: "st_connections st' = (st_connections st)(base := None)" "st_heap st' = (st_heap st)[c := k]"
      "st_sources st' = st_sources (close_source (cn_source (st_heap st ! c)) st)" "st_objects st' = st_objects st"
  shows "fine st'"
proof (rule fineI)
  fix b d assume "st_connections st' b = Some d"
  then have d: "st_connections st b = Some d" "b \<noteq> base" using final(1) by (auto split: if_splits)
  have "d \<noteq> c" using d connection_base [OF fine c] by blast
  moreover have "cn_source (st_heap st ! d) \<noteq> cn_source (st_heap st ! c)"
    using connection_source [OF fine c d(1)] \<open>d \<noteq> c\<close> by metis
  ultimately show "source_ok st' b d"
    using fineD(1) [OF fine d(1)] by (simp add: source_ok_def final close_source_nth)
next
  fix s assume "s < length (st_sources st')" "so_open (st_sources st' ! s)"
  then have s: "s < length (st_sources st)" "s \<noteq> cn_source (st_heap st ! c)" "so_open (st_sources st ! s)" "st_sources st' ! s = st_sources st ! s"
    by (auto simp: final(3) close_source_nth split: if_splits)
  then have old: "st_connections st (so_base (st_sources st ! s)) = Some (so_connection (st_sources st ! s))"
    "cn_source (st_heap st ! so_connection (st_sources st ! s)) = s" using fineD(2) [OF fine] by blast+
  then have "so_connection (st_sources st ! s) \<noteq> c" using s(2) by auto
  then show "st_connections st' (so_base (st_sources st' ! s)) = Some (so_connection (st_sources st' ! s)) \<and>
      cn_source (st_heap st' ! so_connection (st_sources st' ! s)) = s"
    using old s(4) c by (auto simp: final(1,2))
next
  fix d assume d: "d < length (st_heap st')" "d \<notin> ran (st_connections st')"
  show "unused (st_heap st' ! d)"
  proof (cases "d = c")
    case False
    have "d \<notin> ran (st_connections st)"
    proof
      assume "d \<in> ran (st_connections st)"
      then obtain b where "st_connections st b = Some d" by (auto simp: ran_def)
      then have "st_connections st' b = Some d" using False c by (auto simp: final(1))
      then show False using d(2) by (auto simp: ran_def)
    qed
    then show ?thesis using fineD(3) [OF fine] d(1) False by (simp add: final(2))
  qed (use d(1) k in \<open>simp add: final(2)\<close>)
next
  fix d p assume d: "d < length (st_heap st')" "cn_project (st_heap st' ! d) = Some p"
  then show "pj_object p < st_objects st'"
    using fineD(4) [OF fine] k by (cases "d = c") (auto simp: final unused_def)
qed

subsection \<open>Subscribing and ending a subscription\<close>

text \<open>A subscription that has been given out names the connection of its server, or one that is gone.\<close>

fun subscription_connection :: "subscription \<Rightarrow> string \<times> nat" where
  "subscription_connection (Server_subscription base c _) = (base, c)"
| "subscription_connection (Project_subscription base c _) = (base, c)"

definition issued_ok :: "streams \<Rightarrow> subscription \<Rightarrow> bool" where
  "issued_ok st sub \<longleftrightarrow>
     (case subscription_connection sub of (base, c) \<Rightarrow>
        c < length (st_heap st) \<and> (\<forall>b. st_connections st b = Some c \<longrightarrow> b = base))"

lemma getConnection_old: "st_connections st base = Some c \<Longrightarrow> getConnection base project st = (c, st)"
  by (simp add: getConnection_def)

lemma getConnection_result:
  assumes "fine st" "\<And>p. project = Some p \<Longrightarrow> pj_object p < st_objects st" "getConnection base project st = (c, st')"
  shows "fine st'" "st_connections st' base = Some c" "c < length (st_heap st')" "st_objects st' = st_objects st"
    "\<And>b. b \<noteq> base \<Longrightarrow> st_connections st' b = st_connections st b"
    "\<And>d. d < length (st_heap st) \<Longrightarrow> d < length (st_heap st') \<and> st_heap st' ! d = st_heap st ! d"
    "cn_listeners (st_heap st' ! c) = listeners_of st base"
    "cn_project (st_heap st' ! c) = (if st_connections st base = None then project else project_of st base)"
    "\<And>b d. st_connections st' b = Some d \<Longrightarrow> st_connections st b = Some d \<or> d \<ge> length (st_heap st)"
proof -
  have all: "fine st' \<and> st_connections st' base = Some c \<and> st_objects st' = st_objects st \<and>
    (\<forall>b. b \<noteq> base \<longrightarrow> st_connections st' b = st_connections st b) \<and>
    (\<forall>d. d < length (st_heap st) \<longrightarrow> d < length (st_heap st') \<and> st_heap st' ! d = st_heap st ! d) \<and>
    cn_listeners (st_heap st' ! c) = listeners_of st base \<and>
    cn_project (st_heap st' ! c) = (if st_connections st base = None then project else project_of st base) \<and>
    (\<forall>b d. st_connections st' b = Some d \<longrightarrow> st_connections st b = Some d \<or> d \<ge> length (st_heap st))"
  proof (cases "st_connections st base")
    case None
    note new = getConnection_new [OF None, of project]
    have "fine st'" using fine_connect [where project = project, OF assms(1) None assms(2)] assms(3) by simp
    then show ?thesis using new assms(3) None by (auto simp: nth_append listeners_of_def)
  next
    case (Some d)
    then show ?thesis using assms getConnection_old [OF Some] by (simp add: listeners_of_def project_of_def)
  qed
  then show "fine st'" "st_connections st' base = Some c" "st_objects st' = st_objects st"
    "\<And>b. b \<noteq> base \<Longrightarrow> st_connections st' b = st_connections st b"
    "\<And>d. d < length (st_heap st) \<Longrightarrow> d < length (st_heap st') \<and> st_heap st' ! d = st_heap st ! d"
    "cn_listeners (st_heap st' ! c) = listeners_of st base"
    "cn_project (st_heap st' ! c) = (if st_connections st base = None then project else project_of st base)"
    "\<And>b d. st_connections st' b = Some d \<Longrightarrow> st_connections st b = Some d \<or> d \<ge> length (st_heap st)" by blast+
  from all show "c < length (st_heap st')" using fineD(1) unfolding source_ok_def by blast
qed

lemma issued_mono:
  assumes "issued_ok st sub" "length (st_heap st) \<le> length (st_heap st')"
    and "\<And>b d. st_connections st' b = Some d \<Longrightarrow> st_connections st b = Some d \<or> d \<ge> length (st_heap st)"
  shows "issued_ok st' sub"
  using assms by (fastforce simp: issued_ok_def split: prod.splits)

lemma set_connection_simps [simp]:
  "st_connections (set_connection c k st) = st_connections st" "st_heap (set_connection c k st) = (st_heap st)[c := k]"
  "st_objects (set_connection c k st) = st_objects st" "st_sources (set_connection c k st) = st_sources st"
  by (simp_all add: set_connection_def)

lemma streams_okD: "streams_ok st \<Longrightarrow> fine st" "streams_ok st \<Longrightarrow> st_connections st b = Some c \<Longrightarrow> \<not> unused (st_heap st ! c)"
  by (auto simp: streams_ok_def)

text \<open>
  The common form of the operations: one connection \<open>c\<close>, that of \<open>base\<close>, gets other subscribers and
  every other server keeps its own.
\<close>

definition changes_only :: "string \<Rightarrow> nat list \<Rightarrow> project_subscription option \<Rightarrow> streams \<Rightarrow> streams \<Rightarrow> bool" where
  "changes_only base listeners project st st' \<longleftrightarrow>
     streams_ok st' \<and> (\<forall>sub. issued_ok st sub \<longrightarrow> issued_ok st' sub) \<and>
     listeners_of st' = (listeners_of st)(base := listeners) \<and> project_of st' = (project_of st)(base := project)"

lemma changes_onlyI:
  assumes ok: "streams_ok st" "fine st'" and grows: "length (st_heap st) \<le> length (st_heap st')"
    and others: "\<And>b. b \<noteq> base \<Longrightarrow> st_connections st' b = st_connections st b"
      "\<And>b d. b \<noteq> base \<Longrightarrow> st_connections st b = Some d \<Longrightarrow> st_heap st' ! d = st_heap st ! d"
    and own: "\<And>d. st_connections st' base = Some d \<Longrightarrow> st_connections st base = Some d \<or> d \<ge> length (st_heap st)"
      "\<And>d. st_connections st' base = Some d \<Longrightarrow> \<not> unused (st_heap st' ! d)"
    and result: "listeners_of st' base = listeners" "project_of st' base = project"
  shows "changes_only base listeners project st st'"
proof -
  have "\<not> unused (st_heap st' ! c)" if "st_connections st' b = Some c" for b c
    using that own(2) others streams_okD(2) [OF ok(1)] by (cases "b = base") auto
  then have "streams_ok st'" using ok(2) by (simp add: streams_ok_def)
  moreover have "issued_ok st' sub" if "issued_ok st sub" for sub
    using that grows by (rule issued_mono) (use others(1) own(1) in metis)
  moreover have "listeners_of st' b = listeners_of st b" "project_of st' b = project_of st b" if "b \<noteq> base" for b
    using others that by (auto simp: listeners_of_def project_of_def split: option.splits)
  ultimately show ?thesis using result by (auto simp: changes_only_def)
qed

definition add_listener :: "nat \<Rightarrow> nat list \<Rightarrow> nat list" where
  "add_listener listener listeners = (if listener \<in> set listeners then listeners else listeners @ [listener])"

lemma subscribe_server:
  assumes ok: "streams_ok st" and sub: "subscribeServerEvents base listener st = (sub, st')"
  shows "changes_only base (add_listener listener (listeners_of st base)) (project_of st base) st st'"
    and "issued_ok st' sub"
proof -
  obtain c st1 where get: "getConnection base None st = (c, st1)" by fastforce
  note result = getConnection_result [OF streams_okD(1) [OF ok] _ get, simplified]
  let ?ls = "add_listener listener (listeners_of st base)"
  have st': "st' = set_connection c ((st_heap st1 ! c)\<lparr>cn_listeners := ?ls\<rparr>) st1" and sub': "sub = Server_subscription base c listener"
    using sub get result(7) by (auto simp: subscribeServerEvents_def add_listener_def Let_def)
  have old: "st_connections st1 b = Some d \<Longrightarrow> b \<noteq> base \<Longrightarrow> d \<noteq> c" for b d
    using connection_base [OF result(1,2)] by blast
  have length: "length (st_heap st) \<le> length (st_heap st1)" using result(6) by (meson not_less order_less_irrefl leI)
  have bound: "st_connections st b = Some d \<Longrightarrow> d < length (st_heap st)" for b d
    using fineD(1) [OF streams_okD(1) [OF ok]] by (simp add: source_ok_def)
  show "changes_only base ?ls (project_of st base) st st'"
  proof (rule changes_onlyI [OF ok])
    show "fine st'" unfolding st' using result(1,2) by (rule fine_listeners)
    fix b d assume "b \<noteq> base" "st_connections st b = Some d"
    then show "st_heap st' ! d = st_heap st ! d" using old [of b d] result(5,6) bound by (auto simp: st')
  next
    have "?ls \<noteq> []" by (auto simp: add_listener_def)
    then show "\<not> unused (st_heap st' ! d)" if "st_connections st' base = Some d" for d
      using that result(2,3) by (simp add: st' unused_def)
  qed (use result length in \<open>auto simp: st' listeners_of_def project_of_def split: option.split if_splits\<close>)
  show "issued_ok st' sub" using result(3) connection_base [OF result(1,2)] by (simp add: issued_ok_def sub' st')
qed

lemma subscribers_new_object [simp]:
  "listeners_of (st\<lparr>st_objects := n\<rparr>) = listeners_of st" "project_of (st\<lparr>st_objects := n\<rparr>) = project_of st"
  by (simp_all add: listeners_of_def project_of_def fun_eq_iff split: option.split)

lemma subscribe_project:
  assumes ok: "streams_ok st" and sub: "subscribeProjectEvents base i handlers st = (sub, st')"
  defines "project \<equiv> \<lparr>pj_object = st_objects st, pj_id = i, pj_handlers = handlers\<rparr>"
  shows "changes_only base (listeners_of st base) (Some project) st st'" and "issued_ok st' sub"
proof -
  let ?st0 = "st\<lparr>st_objects := st_objects st + 1\<rparr>"
  obtain c st1 where get: "getConnection base (Some project) ?st0 = (c, st1)" by fastforce
  have fine0: "fine ?st0" using streams_okD(1) [OF ok] by (auto simp: fine_def source_ok_def less_Suc_eq)
  have fresh: "\<And>p. Some project = Some p \<Longrightarrow> pj_object p < st_objects ?st0" by (simp add: project_def)
  note result = getConnection_result [OF fine0 fresh get, simplified]
  have same: "same_project (cn_project (st_heap st1 ! c)) project \<longleftrightarrow> st_connections st base = None"
  proof (cases "st_connections st base")
    case None
    then show ?thesis using result(8) by (simp add: same_project_def)
  next
    case (Some d)
    have "d < length (st_heap st)" using fineD(1) [OF streams_okD(1) [OF ok] Some] by (simp add: source_ok_def)
    then have "pj_object p < st_objects st" if "cn_project (st_heap st ! d) = Some p" for p
      using that by (rule fineD(4) [OF streams_okD(1) [OF ok]])
    then have "\<not> same_project (cn_project (st_heap st ! d)) project"
      by (cases "cn_project (st_heap st ! d)") (fastforce simp: same_project_def project_def)+
    then show ?thesis using result(8) Some by (simp add: project_of_def)
  qed
  define st2 where "st2 = (if st_connections st base = None then st1 else reconnect base c (Some project) st1)"
  have st': "st' = st2" and sub': "sub = Project_subscription base c project"
    using sub get same by (auto simp: subscribeProjectEvents_def project_def [symmetric] st2_def Let_def)
  have fine2: "fine st2"
    using result(1) fine_reconnect [OF result(1,2), of "Some project"] result(4) by (simp add: st2_def project_def)
  have heap2: "st_connections st2 = st_connections st1" "length (st_heap st2) = length (st_heap st1)"
    "\<And>d. d \<noteq> c \<Longrightarrow> st_heap st2 ! d = st_heap st1 ! d" "cn_project (st_heap st2 ! c) = Some project"
    "cn_listeners (st_heap st2 ! c) = listeners_of st base"
    using result(7,8) by (auto simp: st2_def reconnect_simps [OF result(3)] result(3))
  have old: "st_connections st1 b = Some d \<Longrightarrow> b \<noteq> base \<Longrightarrow> d \<noteq> c" for b d
    using connection_base [OF result(1,2)] by blast
  have length: "length (st_heap st) \<le> length (st_heap st1)" using result(6) by (meson not_less order_less_irrefl leI)
  have bound: "st_connections st b = Some d \<Longrightarrow> d < length (st_heap st)" for b d
    using fineD(1) [OF streams_okD(1) [OF ok]] by (simp add: source_ok_def)
  show "changes_only base (listeners_of st base) (Some project) st st'"
    unfolding st'
  proof (rule changes_onlyI [OF ok fine2])
    fix b d assume "b \<noteq> base" "st_connections st b = Some d"
    then show "st_heap st2 ! d = st_heap st ! d" using old [of b d] result(5,6) bound heap2(3) by auto
  next
    show "\<not> unused (st_heap st2 ! d)" if "st_connections st2 base = Some d" for d
      using that result(2) heap2(1,4) by (auto simp: unused_def)
  qed (use result length heap2 in \<open>auto simp: listeners_of_def project_of_def split: option.split\<close>)
  show "issued_ok st' sub" using result(3) connection_base [OF result(1,2)] by (simp add: issued_ok_def sub' st' heap2)
qed

text \<open>Ending a subscription of a connection that is gone does nothing.\<close>

lemma unsubscribe_gone:
  assumes "streams_ok st" "issued_ok st sub" "subscription_connection sub = (base, c)" "st_connections st base \<noteq> Some c"
  shows "unsubscribe sub st = st"
proof -
  have "c < length (st_heap st)" "c \<notin> ran (st_connections st)" using assms(2-4) by (auto simp: issued_ok_def ran_def)
  then have "unused (st_heap st ! c)" using fineD(3) [OF streams_okD(1) [OF assms(1)]] by blast
  then show ?thesis using assms(3) by (cases sub) (simp_all add: unused_def same_project_def)
qed

lemma changes_only_none:
  assumes "streams_ok st"
  shows "changes_only base (listeners_of st base) (project_of st base) st st"
  using assms by (simp add: changes_only_def)

lemma drop_changes_only:
  assumes ok: "streams_ok st" and c: "st_connections st base = Some c" and k: "unused k"
    and final: "st_connections st' = (st_connections st)(base := None)" "st_heap st' = (st_heap st)[c := k]"
      "st_sources st' = st_sources (close_source (cn_source (st_heap st ! c)) st)" "st_objects st' = st_objects st"
  shows "changes_only base [] None st st'"
proof (rule changes_onlyI [OF ok fine_drop [OF streams_okD(1) [OF ok] c k final]])
  fix b d assume "b \<noteq> base" "st_connections st b = Some d"
  then have "d \<noteq> c" using connection_base [OF streams_okD(1) [OF ok] c] by blast
  then show "st_heap st' ! d = st_heap st ! d" by (simp add: final(2))
qed (simp_all add: final listeners_of_def project_of_def)

lemma unsubscribe_server:
  assumes ok: "streams_ok st" and c: "st_connections st base = Some c"
  shows "changes_only base (filter (\<lambda>l. l \<noteq> listener) (listeners_of st base)) (project_of st base) st
    (unsubscribe (Server_subscription base c listener) st)"
proof -
  let ?k = "st_heap st ! c"
  let ?ls = "filter (\<lambda>l. l \<noteq> listener) (cn_listeners ?k)"
  have fine: "fine st" by (rule streams_okD(1) [OF ok])
  have bound: "c < length (st_heap st)" using fineD(1) [OF fine c] by (simp add: source_ok_def)
  have abs: "listeners_of st base = cn_listeners ?k" "project_of st base = cn_project ?k" using c by (simp_all add: listeners_of_def project_of_def)
  consider "listener \<notin> set (cn_listeners ?k)" | "listener \<in> set (cn_listeners ?k)" "unused (?k\<lparr>cn_listeners := ?ls\<rparr>)"
    | "listener \<in> set (cn_listeners ?k)" "\<not> unused (?k\<lparr>cn_listeners := ?ls\<rparr>)" by blast
  then show ?thesis
  proof cases
    case 1
    then have "?ls = cn_listeners ?k" by (auto simp: filter_id_conv)
    then show ?thesis using 1 changes_only_none [OF ok, of base] by (simp add: abs)
  next
    case 2
    then have "?ls = []" "cn_project ?k = None" by (simp_all add: unused_def)
    then show ?thesis unfolding abs
      using 2 bound by (simp add: Let_def release_def) (rule drop_changes_only [OF ok c 2(2)]; simp add: close_source_def)
  next
    case 3
    have "unsubscribe (Server_subscription base c listener) st = set_connection c (?k\<lparr>cn_listeners := ?ls\<rparr>) st"
      using 3 bound by (auto simp: release_def unused_def Let_def)
    moreover have "changes_only base ?ls (cn_project ?k) st (set_connection c (?k\<lparr>cn_listeners := ?ls\<rparr>) st)"
    proof (rule changes_onlyI [OF ok fine_listeners [OF fine c]])
      fix b d assume "b \<noteq> base" "st_connections st b = Some d"
      then have "d \<noteq> c" using connection_base [OF fine c] by blast
      then show "st_heap (set_connection c (?k\<lparr>cn_listeners := ?ls\<rparr>) st) ! d = st_heap st ! d" by simp
    qed (use c bound 3 in \<open>simp_all add: listeners_of_def project_of_def\<close>)
    ultimately show ?thesis by (simp add: abs)
  qed
qed

lemma unsubscribe_project:
  assumes ok: "streams_ok st" and c: "st_connections st base = Some c"
  shows "changes_only base (listeners_of st base) (if same_project (project_of st base) project then None else project_of st base) st
    (unsubscribe (Project_subscription base c project) st)"
proof -
  let ?k = "st_heap st ! c"
  have fine: "fine st" by (rule streams_okD(1) [OF ok])
  have bound: "c < length (st_heap st)" and source: "cn_source ?k < length (st_sources st)"
    using fineD(1) [OF fine c] by (simp_all add: source_ok_def)
  have abs: "listeners_of st base = cn_listeners ?k" "project_of st base = cn_project ?k" using c by (simp_all add: listeners_of_def project_of_def)
  consider "\<not> same_project (cn_project ?k) project" | "same_project (cn_project ?k) project" "cn_listeners ?k = []"
    | "same_project (cn_project ?k) project" "cn_listeners ?k \<noteq> []" by blast
  then show ?thesis
  proof cases
    case 1
    then show ?thesis using changes_only_none [OF ok, of base] by (simp add: abs)
  next
    case 2
    have "unused (?k\<lparr>cn_project := None\<rparr>)" using 2 by (simp add: unused_def)
    then show ?thesis unfolding abs
      using 2 bound by (simp add: Let_def release_def) (rule drop_changes_only [OF ok c]; simp add: close_source_def source)
  next
    case 3
    have "changes_only base (cn_listeners ?k) None st (reconnect base c None st)"
    proof (rule changes_onlyI [OF ok fine_reconnect [OF fine c]])
      fix b d assume "b \<noteq> base" "st_connections st b = Some d"
      then have "d \<noteq> c" using connection_base [OF fine c] by blast
      then show "st_heap (reconnect base c None st) ! d = st_heap st ! d" by (simp add: reconnect_simps [OF bound])
    qed (use c bound 3 in \<open>simp_all add: listeners_of_def project_of_def reconnect_simps unused_def\<close>)
    then show ?thesis using 3 by (simp add: abs Let_def)
  qed
qed

subsection \<open>Every sequence of subscriptions\<close>

datatype stream_action = Listen string nat | Select_project string string nat | End_subscription subscription

fun stream_act :: "stream_action \<Rightarrow> streams \<times> subscription set \<Rightarrow> streams \<times> subscription set" where
  "stream_act (Listen base listener) (st, issued) =
     (let (sub, st') = subscribeServerEvents base listener st in (st', insert sub issued))"
| "stream_act (Select_project base i handlers) (st, issued) =
     (let (sub, st') = subscribeProjectEvents base i handlers st in (st', insert sub issued))"
| "stream_act (End_subscription sub) (st, issued) = (if sub \<in> issued then unsubscribe sub st else st, issued)"

definition run_streams :: "stream_action list \<Rightarrow> streams \<times> subscription set" where
  "run_streams actions = fold stream_act actions (no_streams, {})"

definition run_ok :: "streams \<times> subscription set \<Rightarrow> bool" where
  "run_ok r \<longleftrightarrow> streams_ok (fst r) \<and> (\<forall>sub \<in> snd r. issued_ok (fst r) sub)"

lemma changes_only_ok:
  assumes "changes_only base ls p st st'"
  shows "streams_ok st'" "issued_ok st sub \<Longrightarrow> issued_ok st' sub"
  using assms by (simp_all add: changes_only_def)

text \<open>Ending a subscription changes the subscribers of its server only, and there only what it names.\<close>

lemma unsubscribe_changes_only:
  assumes "streams_ok st" "issued_ok st sub"
  obtains ls p where "changes_only (fst (subscription_connection sub)) ls p st (unsubscribe sub st)"
proof -
  obtain base c where sub: "subscription_connection sub = (base, c)" by fastforce
  show thesis
  proof (cases "st_connections st base = Some c")
    case True
    then show ?thesis
      using that sub unsubscribe_server [OF assms(1) True] unsubscribe_project [OF assms(1) True] by (cases sub) auto
  qed (use that sub changes_only_none [OF assms(1)] unsubscribe_gone [OF assms sub] in auto)
qed

lemma stream_act_ok: "run_ok r \<Longrightarrow> run_ok (stream_act action r)"
proof (induction action r rule: stream_act.induct)
  case (1 base listener st issued)
  obtain sub st' where act: "subscribeServerEvents base listener st = (sub, st')" by fastforce
  show ?case using 1 changes_only_ok [OF subscribe_server(1) [OF _ act]] subscribe_server(2) [OF _ act] by (auto simp: run_ok_def act)
next
  case (2 base i handlers st issued)
  obtain sub st' where act: "subscribeProjectEvents base i handlers st = (sub, st')" by fastforce
  show ?case using 2 changes_only_ok [OF subscribe_project(1) [OF _ act]] subscribe_project(2) [OF _ act] by (auto simp: run_ok_def act)
next
  case (3 sub st issued)
  then show ?case
    by (cases "sub \<in> issued") (auto simp: run_ok_def elim!: unsubscribe_changes_only dest: changes_only_ok)
qed

lemma run_streams_ok: "run_ok (run_streams actions)"
proof -
  have "run_ok r \<Longrightarrow> run_ok (fold stream_act actions r)" for r
    by (induction actions arbitrary: r) (simp_all add: stream_act_ok)
  moreover have "run_ok (no_streams, {})" by (simp add: run_ok_def streams_ok_def fine_def no_streams_def)
  ultimately show ?thesis by (simp add: run_streams_def)
qed

lemma open_sources_connection:
  assumes "streams_ok st"
  shows "open_sources st base = (case st_connections st base of Some c \<Rightarrow> {cn_source (st_heap st ! c)} | None \<Rightarrow> {})"
proof -
  have fine: "fine st" by (rule streams_okD(1) [OF assms])
  have "st_connections st base = Some (so_connection (st_sources st ! s)) \<and> cn_source (st_heap st ! so_connection (st_sources st ! s)) = s"
    if "s \<in> open_sources st base" for s
    using that fineD(2) [OF fine, of s] by (auto simp: open_sources_def)
  moreover have "cn_source (st_heap st ! c) \<in> open_sources st base" if "st_connections st base = Some c" for c
    using fineD(1) [OF fine that] by (simp add: source_ok_def open_sources_def)
  ultimately show ?thesis by (auto split: option.split)
qed

lemma subscribed_connection:
  assumes "streams_ok st"
  shows "subscribed st base \<longleftrightarrow> st_connections st base \<noteq> None"
  using streams_okD(2) [OF assms, of base]
  by (cases "st_connections st base") (auto simp: subscribed_def listeners_of_def project_of_def unused_def)

subsection \<open>Properties\<close>

text \<open>
  C12: after any sequence of subscriptions, a server has exactly one open stream while it has a listener or a
  project and none otherwise; the stream asks for the current project, and what it delivers goes to the
  current listeners and the current project's handlers only.
\<close>

theorem one_stream_per_server:
  fixes actions :: "stream_action list" and base :: string
  defines "st \<equiv> fst (run_streams actions)"
  shows "card (open_sources st base) = (if subscribed st base then 1 else 0) \<and>
    (\<forall>s \<in> open_sources st base.
       so_query (st_sources st ! s) = map_option pj_id (project_of st base) \<and>
       deliver s event st =
         stream_calls event base \<lparr>cn_source = s, cn_listeners = listeners_of st base, cn_project = project_of st base\<rparr>)"
proof -
  have ok: "streams_ok st" using run_streams_ok [of actions] by (simp add: run_ok_def st_def)
  show ?thesis
  proof (cases "st_connections st base")
    case None
    then show ?thesis using open_sources_connection [OF ok, of base] subscribed_connection [OF ok, of base] by simp
  next
    case (Some c)
    have "source_ok st base c" by (rule fineD(1) [OF streams_okD(1) [OF ok] Some])
    then show ?thesis
      using open_sources_connection [OF ok, of base] subscribed_connection [OF ok, of base] Some
      by (simp add: source_ok_def deliver_def stream_calls_def listeners_of_def project_of_def split: stream_event.split)
  qed
qed

lemma one_stream_per_server_witness:
  "card (open_sources (fst (run_streams [Select_project ''s'' ''p'' 1, Listen ''s'' 7])) ''s'') = 1"
proof -
  have "subscribed (fst (run_streams [Select_project ''s'' ''p'' 1, Listen ''s'' 7])) ''s''"
    by (simp add: run_streams_def no_streams_def subscribeProjectEvents_def subscribeServerEvents_def getConnection_def
        connect_def same_project_def set_connection_def subscribed_def listeners_of_def project_of_def Let_def)
  then show ?thesis
    using one_stream_per_server [of "[Select_project ''s'' ''p'' 1, Listen ''s'' 7]" "''s''" Message] by simp
qed

text \<open>
  Ending a subscription ends it: its project is not the current one of any server, its listener is no
  longer one of its server, unless the connection it was made for has been replaced; and no subscriber of
  another server, no other listener and no later project is affected.
\<close>

theorem ended_subscriptions:
  assumes "sub \<in> snd (run_streams actions)"
  defines "st \<equiv> fst (run_streams actions)"
  shows "(\<forall>other. other \<noteq> fst (subscription_connection sub) \<longrightarrow>
      listeners_of (unsubscribe sub st) other = listeners_of st other \<and> project_of (unsubscribe sub st) other = project_of st other) \<and>
    (case sub of
       Server_subscription base c listener \<Rightarrow>
         project_of (unsubscribe sub st) base = project_of st base \<and>
         listeners_of (unsubscribe sub st) base =
           (if st_connections st base = Some c then filter (\<lambda>l. l \<noteq> listener) (listeners_of st base) else listeners_of st base)
     | Project_subscription base c project \<Rightarrow>
         listeners_of (unsubscribe sub st) base = listeners_of st base \<and>
         project_of (unsubscribe sub st) base =
           (if st_connections st base = Some c \<and> same_project (project_of st base) project then None else project_of st base))"
proof -
  have ok: "streams_ok st" "issued_ok st sub" using run_streams_ok [of actions] assms(1) by (auto simp: run_ok_def st_def)
  obtain base c where sub: "subscription_connection sub = (base, c)" by fastforce
  show ?thesis
  proof (cases "st_connections st base = Some c")
    case True
    show ?thesis
      using sub True unsubscribe_server [OF ok(1) True] unsubscribe_project [OF ok(1) True]
      by (cases sub) (auto simp: changes_only_def simp del: unsubscribe.simps)
  next
    case False
    then show ?thesis using sub unsubscribe_gone [OF ok sub False] by (cases sub) auto
  qed
qed

lemma ended_subscriptions_witness:
  "project_of (unsubscribe (Project_subscription ''s'' 0 \<lparr>pj_object = 0, pj_id = ''p'', pj_handlers = 1\<rparr>)
     (fst (run_streams [Select_project ''s'' ''p'' 1, Listen ''s'' 7]))) ''s'' = None"
proof -
  let ?sub = "Project_subscription ''s'' 0 \<lparr>pj_object = 0, pj_id = ''p'', pj_handlers = 1\<rparr>"
  let ?run = "run_streams [Select_project ''s'' ''p'' 1, Listen ''s'' 7]"
  have state: "?sub \<in> snd ?run" "st_connections (fst ?run) ''s'' = Some 0"
    "project_of (fst ?run) ''s'' = Some \<lparr>pj_object = 0, pj_id = ''p'', pj_handlers = 1\<rparr>"
    by (simp_all add: run_streams_def no_streams_def subscribeProjectEvents_def subscribeServerEvents_def getConnection_def
        connect_def same_project_def set_connection_def project_of_def Let_def)
  from ended_subscriptions [OF state(1)] state(2,3) show ?thesis
    by (simp add: same_project_def del: unsubscribe.simps)
qed

end
