(* ===== verification/Dispersion.thy ===== *)
theory Dispersion
  imports Sorting Js_Number "HOL-Library.AList"
begin

text \<open>
  The dispersion chart of a concordance: \<open>features/tools/concordance/concordanceDispersionModel.ts\<close>, the
  escaping of \<open>common/chartText.ts\<close> that its tooltip uses, and the interleaving of sources in
  \<open>concordanceRows.ts\<close>. \<open>toLowerCase\<close>, the default order of strings, which compares UTF-16 units, and
  \<open>localeCompare\<close> are parameters. A row comes with the text of its searched column as it is shown.
\<close>

subsection \<open>Data\<close>

record hit =
  ht_matched_text :: string
  ht_start_idx :: nat

record document_row =
  dc_text :: string
  dc_matches :: "hit list"

record density =
  dn_term :: string
  dn_bin :: nat
  dn_count :: nat

record term_series =
  tm_key :: string
  tm_label :: string
  tm_variants :: "string list"
  tm_color :: string
  tm_counts :: "nat list"
  tm_total :: nat

definition DISPLAY_BINS :: "nat list" where
  "DISPLAY_BINS = [4, 5, 10, 20, 25, 50, 100]"

definition GREY :: string where
  "GREY = ''#6b7280''"

definition VIZ_PALETTE :: "string list" where
  "VIZ_PALETTE =
     [''#2563eb'', ''#dc2626'', ''#16a34a'', ''#9333ea'', ''#d97706'', ''#0d9488'', ''#db2777'', ''#4f46e5'',
      ''#65a30d'', ''#0891b2'', ''#92400e'', GREY]"

definition termKey :: "(string \<Rightarrow> string) \<Rightarrow> string \<Rightarrow> bool \<Rightarrow> string" where
  "termKey lower term uncased = (if uncased then lower term else term)"

subsection \<open>Density of a preview\<close>

text \<open>\<open>Array.from(text).length\<close>: the code points of a text, the bytes that do not continue one.\<close>

definition code_points :: "string \<Rightarrow> nat" where
  "code_points s = length (filter (\<lambda>c. \<not> (128 \<le> (of_char c :: nat) \<and> (of_char c :: nat) < 192)) s)"

definition hit_bin :: "document_row \<Rightarrow> hit \<Rightarrow> nat" where
  "hit_bin row hit = min 99 ((ht_start_idx hit * 100) div max 1 (code_points (dc_text row)))"

definition count_hit :: "document_row \<Rightarrow> hit \<Rightarrow> ((string \<times> nat) \<times> density) list \<Rightarrow> ((string \<times> nat) \<times> density) list" where
  "count_hit row hit counts =
     (let bin = hit_bin row hit; key = (ht_matched_text hit, bin);
          item = (case map_of counts key of Some d \<Rightarrow> d
                  | None \<Rightarrow> \<lparr>dn_term = ht_matched_text hit, dn_bin = bin, dn_count = 0\<rparr>)
      in AList.update key (item\<lparr>dn_count := dn_count item + 1\<rparr>) counts)"

definition previewDensity :: "document_row list \<Rightarrow> density list" where
  "previewDensity rows = map snd (fold (\<lambda>row. fold (count_hit row) (dc_matches row)) rows [])"

subsection \<open>Series\<close>

definition display_bin :: "nat \<Rightarrow> nat \<Rightarrow> nat" where
  "display_bin binCount bin = min (binCount - 1) ((bin * binCount) div 100)"

fun index_of :: "'a \<Rightarrow> 'a list \<Rightarrow> nat option" where
  "index_of x [] = None"
| "index_of x (y # ys) = (if x = y then Some 0 else map_option Suc (index_of x ys))"

definition term_color :: "string list \<Rightarrow> string \<Rightarrow> string" where
  "term_color keys key =
     (case index_of key keys of Some i \<Rightarrow> VIZ_PALETTE ! (i mod length VIZ_PALETTE) | None \<Rightarrow> GREY)"

definition new_series :: "string list \<Rightarrow> nat \<Rightarrow> string \<Rightarrow> term_series" where
  "new_series keys binCount key =
     \<lparr>tm_key = key, tm_label = [], tm_variants = [], tm_color = term_color keys key,
      tm_counts = replicate binCount 0, tm_total = 0\<rparr>"

definition add_density :: "nat \<Rightarrow> density \<Rightarrow> term_series \<Rightarrow> term_series" where
  "add_density binCount item entry =
     (let bin = display_bin binCount (dn_bin item) in
      entry\<lparr>tm_variants := (if dn_term item \<in> set (tm_variants entry) then tm_variants entry else tm_variants entry @ [dn_term item]),
            tm_counts := (tm_counts entry)[bin := tm_counts entry ! bin + dn_count item],
            tm_total := tm_total entry + dn_count item\<rparr>)"

definition series_step ::
    "(string \<Rightarrow> string) \<Rightarrow> string list \<Rightarrow> nat \<Rightarrow> density \<Rightarrow> (string \<times> term_series) list \<Rightarrow> (string \<times> term_series) list" where
  "series_step key_of keys binCount item series =
     (let key = key_of (dn_term item);
          entry = (case map_of series key of Some e \<Rightarrow> e | None \<Rightarrow> new_series keys binCount key)
      in AList.update key (add_density binCount item entry) series)"

definition variant_order :: "(string \<Rightarrow> string \<Rightarrow> int) \<Rightarrow> string \<Rightarrow> string \<Rightarrow> string \<Rightarrow> int" where
  "variant_order localeCompare key a b = (if a = key then -1 else if b = key then 1 else localeCompare a b)"

definition label_series :: "(string \<Rightarrow> string \<Rightarrow> int) \<Rightarrow> term_series \<Rightarrow> term_series" where
  "label_series localeCompare entry =
     (let variants = js_sort (variant_order localeCompare (tm_key entry)) (tm_variants entry)
      in entry\<lparr>tm_variants := variants, tm_label := join ''/'' variants\<rparr>)"

definition dispersionSeries ::
    "(string \<Rightarrow> string) \<Rightarrow> (string \<Rightarrow> string \<Rightarrow> int) \<Rightarrow> (string \<Rightarrow> string \<Rightarrow> int) \<Rightarrow>
     density list \<Rightarrow> string list \<Rightarrow> nat \<Rightarrow> bool \<Rightarrow> term_series list" where
  "dispersionSeries lower unitOrder localeCompare density allTerms binCount uncased =
     (let key_of = (\<lambda>term. termKey lower term uncased);
          keys = js_sort unitOrder (unique (map key_of allTerms));
          series = fold (series_step key_of keys binCount) density []
      in map (label_series localeCompare) (js_sort (\<lambda>a b. localeCompare (tm_key a) (tm_key b)) (map snd series)))"

subsection \<open>Selecting bins\<close>

definition selectBinRange :: "int list \<Rightarrow> int \<Rightarrow> int \<Rightarrow> bool \<Rightarrow> int list" where
  "selectBinRange bins start finish add =
     sort (unique ((if add then bins else []) @
       map (\<lambda>i. min start finish + int i) [0..<nat (\<bar>finish - start\<bar> + 1)]))"

definition selectBin :: "int list \<Rightarrow> int \<Rightarrow> int option \<Rightarrow> bool \<Rightarrow> int list" where
  "selectBin bins bin anchor extending =
     (case anchor of
        Some a \<Rightarrow>
          if extending then selectBinRange bins a bin True
          else if bin \<in> set bins then filter (\<lambda>v. v \<noteq> bin) bins else sort (bins @ [bin])
      | None \<Rightarrow> if bin \<in> set bins then filter (\<lambda>v. v \<noteq> bin) bins else sort (bins @ [bin]))"

definition binLabel :: "nat \<Rightarrow> nat \<Rightarrow> string" where
  "binLabel bin binCount =
     show_number (to_double ((of_nat bin * 100) / of_nat binCount)) @ [CHR 0xE2, CHR 0x80, CHR 0x93] @
     show_number (to_double (((of_nat bin + 1) * 100) / of_nat binCount)) @ ''%''"

subsection \<open>The chart\<close>

definition escape_char :: "char \<Rightarrow> string" where
  "escape_char c =
     (if c = CHR ''&'' then ''&amp;'' else if c = CHR ''<'' then ''&lt;'' else if c = CHR ''>'' then ''&gt;''
      else if c = CHR 0x22 then ''&quot;'' else if c = CHR 0x27 then ''&#39;'' else [c])"

definition escapeChartText :: "string \<Rightarrow> string" where
  "escapeChartText s = concat (map escape_char s)"

datatype chart_mode = Line_chart | Bar_chart | Area_chart | Cumulative_chart

text \<open>The points of a series: the middle of the bin in per cent, the value, and whether the bin stands out.\<close>

record chart_point =
  pt_x :: rat
  pt_y :: nat
  pt_filled :: bool
  pt_dimmed :: bool

record chart_series =
  cs_name :: string
  cs_bars :: bool
  cs_smooth :: bool
  cs_step :: bool
  cs_stacked :: bool
  cs_color :: string
  cs_data :: "chart_point list"

definition bin_middle :: "nat \<Rightarrow> nat \<Rightarrow> rat" where
  "bin_middle binCount bin = ((of_nat bin + 1 / 2) * 100) / of_nat binCount"

definition chart_point :: "chart_mode \<Rightarrow> int list \<Rightarrow> nat \<Rightarrow> nat \<Rightarrow> nat \<Rightarrow> chart_point" where
  "chart_point type bins binCount bin y =
     \<lparr>pt_x = bin_middle binCount bin, pt_y = y, pt_filled = (int bin \<in> set bins),
      pt_dimmed = (type = Bar_chart \<and> bins \<noteq> [] \<and> int bin \<notin> set bins)\<rparr>"

text \<open>The running sum of \<open>term.counts.map\<close>.\<close>

fun chart_data :: "chart_mode \<Rightarrow> int list \<Rightarrow> nat \<Rightarrow> nat \<Rightarrow> nat \<Rightarrow> nat list \<Rightarrow> chart_point list" where
  "chart_data type bins binCount bin cumulative [] = []"
| "chart_data type bins binCount bin cumulative (c # counts) =
     (let sum = cumulative + c
      in chart_point type bins binCount bin (if type = Cumulative_chart then sum else c) #
         chart_data type bins binCount (Suc bin) sum counts)"

definition stacked :: "chart_mode \<Rightarrow> nat \<Rightarrow> bool" where
  "stacked type binCount \<longleftrightarrow> type = Area_chart \<or> type = Bar_chart \<and> binCount > 10"

definition chart_series :: "chart_mode \<Rightarrow> int list \<Rightarrow> nat \<Rightarrow> term_series \<Rightarrow> chart_series" where
  "chart_series type bins binCount term =
     \<lparr>cs_name = tm_label term, cs_bars = (type = Bar_chart), cs_smooth = (type = Line_chart \<or> type = Area_chart),
      cs_step = (type = Cumulative_chart), cs_stacked = stacked type binCount, cs_color = tm_color term,
      cs_data = chart_data type bins binCount 0 0 (tm_counts term)\<rparr>"

definition chart_order :: "chart_mode \<Rightarrow> nat \<Rightarrow> term_series list \<Rightarrow> term_series list" where
  "chart_order type binCount series = (if stacked type binCount then rev series else series)"

definition volume_overview :: "nat \<Rightarrow> term_series list \<Rightarrow> (rat \<times> nat) list" where
  "volume_overview binCount overview =
     map (\<lambda>bin. (bin_middle binCount bin,
                 fold (\<lambda>term sum. sum + (if bin < length (tm_counts term) then tm_counts term ! bin else 0)) overview 0))
       [0..<binCount]"

definition dispersion_series :: "term_series list \<Rightarrow> chart_mode \<Rightarrow> int list \<Rightarrow> nat \<Rightarrow> chart_series list" where
  "dispersion_series series type bins binCount = map (chart_series type bins binCount) (chart_order type binCount series)"

subsection \<open>Interleaving sources\<close>

definition row_at :: "nat \<Rightarrow> 'a list \<Rightarrow> 'a list" where
  "row_at index rows = (if index < length rows then [rows ! index] else [])"

definition interleave :: "'a list list \<Rightarrow> 'a list" where
  "interleave sources =
     concat (map (\<lambda>index. concat (map (row_at index) sources)) [0..<fold (\<lambda>rows n. max n (length rows)) sources 0])"

subsection \<open>Counts are conserved\<close>

text \<open>The hits of a document row with their bins.\<close>

definition placed_hits :: "document_row list \<Rightarrow> (string \<times> nat) list" where
  "placed_hits rows = concat (map (\<lambda>row. map (\<lambda>hit. (ht_matched_text hit, hit_bin row hit)) (dc_matches row)) rows)"

definition count_place :: "string \<times> nat \<Rightarrow> ((string \<times> nat) \<times> density) list \<Rightarrow> ((string \<times> nat) \<times> density) list" where
  "count_place place counts =
     AList.update place
       (case map_of counts place of Some d \<Rightarrow> d\<lparr>dn_count := dn_count d + 1\<rparr>
        | None \<Rightarrow> \<lparr>dn_term = fst place, dn_bin = snd place, dn_count = 1\<rparr>) counts"

lemma count_hit_place: "count_hit row = (\<lambda>hit. count_place (ht_matched_text hit, hit_bin row hit))"
  by (simp add: count_hit_def count_place_def fun_eq_iff Let_def split: option.split)

lemma previewDensity_places: "previewDensity rows = map snd (fold count_place (placed_hits rows) [])"
proof -
  have inner: "fold (count_hit row) hits = fold count_place (map (\<lambda>hit. (ht_matched_text hit, hit_bin row hit)) hits)" for row hits
    by (simp add: fold_map comp_def count_hit_place)
  have "fold (\<lambda>row. fold (count_hit row) (dc_matches row)) rows acc = fold count_place (placed_hits rows) acc" for acc
    by (induction rows arbitrary: acc) (simp_all add: inner placed_hits_def)
  then show ?thesis by (simp add: previewDensity_def)
qed

lemma count_places:
  "map_of (fold count_place places []) place =
     (if place \<in> set places then Some \<lparr>dn_term = fst place, dn_bin = snd place, dn_count = count_list places place\<rparr> else None)"
proof (induction places rule: rev_induct)
  case (snoc p ps)
  then show ?case by (cases "p \<in> set ps") (auto simp: count_place_def update_conv' count_list_0_iff)
qed simp

lemma count_places_distinct: "distinct (map fst (fold count_place places []))"
  by (induction places rule: rev_induct) (simp_all add: count_place_def distinct_update)

text \<open>A series is the sum of the densities of its key.\<close>

definition series_of :: "(string \<Rightarrow> string) \<Rightarrow> string list \<Rightarrow> nat \<Rightarrow> density list \<Rightarrow> string \<Rightarrow> term_series" where
  "series_of key_of keys n ds key =
     fold (add_density n) (filter (\<lambda>d. key_of (dn_term d) = key) ds) (new_series keys n key)"

lemma series_fold:
  "map_of (fold (series_step key_of keys n) ds []) key =
     (if key \<in> (\<lambda>d. key_of (dn_term d)) ` set ds then Some (series_of key_of keys n ds key) else None)"
proof (induction ds rule: rev_induct)
  case (snoc d ds)
  have "filter (\<lambda>e. key_of (dn_term e) = key_of (dn_term d)) ds = []" if "key_of (dn_term d) \<notin> (\<lambda>d. key_of (dn_term d)) ` set ds"
    unfolding filter_empty_conv using that by (metis (mono_tags, lifting) image_eqI)
  then show ?case using snoc by (auto simp: series_step_def update_conv' series_of_def Let_def)
qed simp

lemma series_fold_distinct: "distinct (map fst (fold (series_step key_of keys n) ds []))"
  by (induction ds rule: rev_induct) (simp_all add: series_step_def distinct_update Let_def)

lemma fold_add_density:
  fixes n :: nat and items :: "density list" and entry :: term_series
  defines "result \<equiv> fold (add_density n) items entry"
  assumes "length (tm_counts entry) = n"
  shows "tm_key result = tm_key entry" "tm_color result = tm_color entry" "length (tm_counts result) = n"
    "tm_total result = tm_total entry + sum_list (map dn_count items)"
    "b < n \<Longrightarrow> tm_counts result ! b =
       tm_counts entry ! b + sum_list (map dn_count (filter (\<lambda>d. display_bin n (dn_bin d) = b) items))"
    "set (tm_variants result) = set (tm_variants entry) \<union> dn_term ` set items"
    "distinct (tm_variants entry) \<Longrightarrow> distinct (tm_variants result)"
  using assms(2) unfolding result_def
  by (induction items arbitrary: entry) (auto simp: add_density_def nth_list_update Let_def)

lemma display_bin_bound: "n > 0 \<Longrightarrow> display_bin n bin < n"
  by (auto simp: display_bin_def)

lemma sum_list_by_index:
  fixes f :: "'a \<Rightarrow> nat" and n :: nat
  assumes "\<And>x. x \<in> set xs \<Longrightarrow> f x < n"
  shows "(\<Sum>b<n. sum_list (map g (filter (\<lambda>x. f x = b) xs))) = sum_list (map g xs)"
  using assms
proof (induction xs)
  case (Cons x xs)
  have "(\<Sum>b<n. sum_list (map g (filter (\<lambda>y. f y = b) (x # xs)))) =
      (\<Sum>b<n. (if f x = b then g x else 0) + sum_list (map g (filter (\<lambda>y. f y = b) xs)))"
    by (intro sum.cong) auto
  also have "\<dots> = g x + sum_list (map g xs)" using Cons by (simp add: sum.distrib sum.delta')
  finally show ?case by simp
qed simp

lemma sum_list_below:
  assumes "length xs = n"
  shows "sum_list xs = (\<Sum>b<n. xs ! b)"
  using assms by (simp add: sum_list_sum_nth atLeast0LessThan)

text \<open>What the code promises of a series: the densities of one key, in the bins shown.\<close>

definition rebinned :: "(string \<Rightarrow> string) \<Rightarrow> density list \<Rightarrow> nat \<Rightarrow> term_series \<Rightarrow> bool" where
  "rebinned key_of ds n s \<longleftrightarrow>
     (let items = filter (\<lambda>d. key_of (dn_term d) = tm_key s) ds in
      length (tm_counts s) = n \<and>
      (\<forall>b < n. tm_counts s ! b = sum_list (map dn_count (filter (\<lambda>d. display_bin n (dn_bin d) = b) items))) \<and>
      sum_list (tm_counts s) = tm_total s \<and> tm_total s = sum_list (map dn_count items) \<and>
      set (tm_variants s) = dn_term ` set items \<and> distinct (tm_variants s))"

lemma series_of_rebinned:
  fixes key_of :: "string \<Rightarrow> string" and n :: nat
  assumes "n > 0"
  shows "rebinned key_of ds n (series_of key_of keys n ds key)" "tm_key (series_of key_of keys n ds key) = key"
    "tm_color (series_of key_of keys n ds key) = term_color keys key"
proof -
  let ?items = "filter (\<lambda>d. key_of (dn_term d) = key) ds"
  let ?s = "series_of key_of keys n ds key"
  have length: "length (tm_counts (new_series keys n key)) = n" by (simp add: new_series_def)
  note sums = fold_add_density [where items = ?items, OF length, folded series_of_def]
  show key: "tm_key ?s = key" "tm_color ?s = term_color keys key" using sums(1,2) by (simp_all add: new_series_def)
  have counts: "tm_counts ?s ! b = sum_list (map dn_count (filter (\<lambda>d. display_bin n (dn_bin d) = b) ?items))" if "b < n" for b
    using sums(5) [OF that] that by (simp add: new_series_def)
  have total: "tm_total ?s = sum_list (map dn_count ?items)" using sums(4) by (simp add: new_series_def)
  have "sum_list (tm_counts ?s) = (\<Sum>b<n. sum_list (map dn_count (filter (\<lambda>d. display_bin n (dn_bin d) = b) ?items)))"
    unfolding sum_list_below [OF sums(3)] by (intro sum.cong) (simp_all add: counts)
  also have "\<dots> = sum_list (map dn_count ?items)" by (rule sum_list_by_index) (rule display_bin_bound [OF assms])
  finally show "rebinned key_of ds n ?s"
    using sums(3,6,7) counts total unfolding rebinned_def key by (simp add: new_series_def Let_def)
qed

lemma label_series_simps [simp]:
  "tm_key (label_series localeCompare s) = tm_key s" "tm_counts (label_series localeCompare s) = tm_counts s"
  "tm_total (label_series localeCompare s) = tm_total s" "tm_color (label_series localeCompare s) = tm_color s"
  "set (tm_variants (label_series localeCompare s)) = set (tm_variants s)"
  "distinct (tm_variants (label_series localeCompare s)) = distinct (tm_variants s)"
  by (simp_all add: label_series_def Let_def distinct_js_sort)

lemma rebinned_label [simp]: "rebinned key_of ds n (label_series localeCompare s) = rebinned key_of ds n s"
  by (simp add: rebinned_def)

lemma dispersionSeries_members:
  assumes "s \<in> set (dispersionSeries lower unitOrder localeCompare ds allTerms n uncased)"
  defines "key_of \<equiv> \<lambda>term. termKey lower term uncased"
  obtains keys key where "s = label_series localeCompare (series_of key_of keys n ds key)"
    "keys = js_sort unitOrder (unique (map key_of allTerms))" "key \<in> (\<lambda>d. key_of (dn_term d)) ` set ds"
proof -
  let ?keys = "js_sort unitOrder (unique (map key_of allTerms))"
  let ?series = "fold (series_step key_of ?keys n) ds []"
  from assms obtain key e where e: "(key, e) \<in> set ?series" "s = label_series localeCompare e"
    by (auto simp: dispersionSeries_def Let_def)
  then have "map_of ?series key = Some e" using series_fold_distinct by (metis map_of_eq_Some_iff)
  then show thesis using that e(2) unfolding series_fold by (metis option.distinct(1) option.inject)
qed

lemma dispersionSeries_keys:
  fixes lower :: "string \<Rightarrow> string" and uncased :: bool and n :: nat
  assumes "n > 0"
  defines "key_of \<equiv> \<lambda>term. termKey lower term uncased"
  shows "distinct (map tm_key (dispersionSeries lower unitOrder localeCompare ds allTerms n uncased))"
    and "tm_key ` set (dispersionSeries lower unitOrder localeCompare ds allTerms n uncased) = (\<lambda>d. key_of (dn_term d)) ` set ds"
proof -
  let ?keys = "js_sort unitOrder (unique (map key_of allTerms))"
  let ?series = "fold (series_step key_of ?keys n) ds []"
  let ?sorted = "js_sort (\<lambda>a b. localeCompare (tm_key a) (tm_key b)) (map snd ?series)"
  have entry: "tm_key e = key \<and> key \<in> (\<lambda>d. key_of (dn_term d)) ` set ds" if "(key, e) \<in> set ?series" for key e
  proof -
    have "map_of ?series key = Some e" using that series_fold_distinct by (metis map_of_eq_Some_iff)
    then show ?thesis using series_of_rebinned(2) [OF assms(1)] unfolding series_fold by (metis option.distinct(1) option.inject)
  qed
  have keys: "map (tm_key \<circ> snd) ?series = map fst ?series" using entry by (intro map_cong) auto
  have "mset (map tm_key ?sorted) = mset (map fst ?series)"
    unfolding keys [symmetric] by (simp only: mset_map_js_sort)
  then have distinct: "distinct (map tm_key ?sorted)" and set: "set (map tm_key ?sorted) = set (map fst ?series)"
    using series_fold_distinct mset_eq_imp_distinct_iff mset_eq_setD by metis+
  have result: "dispersionSeries lower unitOrder localeCompare ds allTerms n uncased = map (label_series localeCompare) ?sorted"
    by (simp add: dispersionSeries_def key_of_def Let_def)
  show "distinct (map tm_key (dispersionSeries lower unitOrder localeCompare ds allTerms n uncased))"
    using distinct unfolding result by (simp add: comp_def)
  have "fst ` set ?series = (\<lambda>d. key_of (dn_term d)) ` set ds"
  proof
    show "(\<lambda>d. key_of (dn_term d)) ` set ds \<subseteq> fst ` set ?series"
    proof
      fix key assume "key \<in> (\<lambda>d. key_of (dn_term d)) ` set ds"
      then have "map_of ?series key \<noteq> None" by (simp add: series_fold)
      then show "key \<in> fst ` set ?series" by (simp add: map_of_eq_None_iff)
    qed
  qed (use entry in auto)
  then show "tm_key ` set (dispersionSeries lower unitOrder localeCompare ds allTerms n uncased) = (\<lambda>d. key_of (dn_term d)) ` set ds"
    using set unfolding result by (simp add: image_image)
qed

text \<open>Every supported number of bins divides the hundred native bins, so each bin shown is a union of them.\<close>

lemma display_bin_exact:
  assumes "n \<in> set DISPLAY_BINS" "bin < 100"
  shows "display_bin n bin = bin div (100 div n)"
proof -
  let ?m = "100 div n"
  have divides: "100 = ?m * n" "n > 0" using assms(1) by (auto simp: DISPLAY_BINS_def)
  then have "(bin * n) div 100 = bin div ?m" by (metis div_mult_mult2 less_numeral_extra(3))
  moreover have "bin div ?m < n" using assms(2) divides by (metis less_mult_imp_div_less mult.commute)
  ultimately show ?thesis by (simp add: display_bin_def)
qed

subsection \<open>Selections\<close>

lemma selectBinRange_set: "set (selectBinRange bins start finish add) = (if add then set bins else {}) \<union> {min start finish..max start finish}"
proof -
  have "(\<lambda>i. min start finish + int i) ` {0..<nat (\<bar>finish - start\<bar> + 1)} = {min start finish..max start finish}"
  proof (intro set_eqI iffI)
    fix v assume "v \<in> {min start finish..max start finish}"
    then show "v \<in> (\<lambda>i. min start finish + int i) ` {0..<nat (\<bar>finish - start\<bar> + 1)}"
      by (intro image_eqI [where x = "nat (v - min start finish)"]) auto
  qed auto
  then show ?thesis by (simp add: selectBinRange_def)
qed

lemma selectBinRange_sorted: "sorted (selectBinRange bins start finish add) \<and> distinct (selectBinRange bins start finish add)"
  by (simp add: selectBinRange_def)

lemma selectBin_set:
  "set (selectBin bins bin anchor extending) =
     (case anchor of
        Some a \<Rightarrow> if extending then set bins \<union> {min a bin..max a bin}
                  else if bin \<in> set bins then set bins - {bin} else insert bin (set bins)
      | None \<Rightarrow> if bin \<in> set bins then set bins - {bin} else insert bin (set bins))"
  by (auto simp: selectBin_def selectBinRange_set split: option.split)

lemma selectBin_sorted:
  assumes "sorted bins" "distinct bins"
  shows "sorted (selectBin bins bin anchor extending) \<and> distinct (selectBin bins bin anchor extending)"
  using assms selectBinRange_sorted
  by (auto simp: selectBin_def sorted_wrt_filter split: option.split)

lemma selectBin_twice:
  assumes "sorted bins" "distinct bins"
  shows "selectBin (selectBin bins bin anchor False) bin anchor' False = bins"
proof (rule sorted_distinct_set_unique)
  have once: "sorted (selectBin bins bin anchor False)" "distinct (selectBin bins bin anchor False)"
    using selectBin_sorted [OF assms] by blast+
  show "sorted (selectBin (selectBin bins bin anchor False) bin anchor' False)"
    "distinct (selectBin (selectBin bins bin anchor False) bin anchor' False)" using selectBin_sorted [OF once] by blast+
  show "set (selectBin (selectBin bins bin anchor False) bin anchor' False) = set bins"
    by (auto simp: selectBin_set split: option.split if_splits)
qed (use assms in simp_all)

subsection \<open>The chart shows the counts\<close>

lemma chart_data_nth:
  "i < length counts \<Longrightarrow> chart_data type bins n bin cumulative counts ! i =
     chart_point type bins n (bin + i)
       (if type = Cumulative_chart then cumulative + sum_list (take (Suc i) counts) else counts ! i)"
proof (induction counts arbitrary: bin cumulative i)
  case (Cons c counts)
  then show ?case by (cases i) (simp_all add: Let_def add.assoc)
qed simp

lemma length_chart_data [simp]: "length (chart_data type bins n bin cumulative counts) = length counts"
  by (induction counts arbitrary: bin cumulative) (simp_all add: Let_def)

lemma fold_plus: "fold (\<lambda>x sum. sum + f x) xs (a :: nat) = a + sum_list (map f xs)"
  by (induction xs arbitrary: a) simp_all

text \<open>
  Outside the cumulative chart the values over a bin add up to the overview; in it, each series ends at
  its total.
\<close>

lemma chart_sums:
  assumes "\<forall>s \<in> set series. length (tm_counts s) = n" "b < n"
  shows "type \<noteq> Cumulative_chart \<Longrightarrow>
      sum_list (map (\<lambda>c. pt_y (cs_data c ! b)) (dispersion_series series type bins n)) = snd (volume_overview n series ! b)"
    and "type = Cumulative_chart \<Longrightarrow> s \<in> set series \<Longrightarrow>
      pt_y (cs_data (chart_series type bins n s) ! b) = sum_list (take (Suc b) (tm_counts s))"
proof -
  have order: "mset (chart_order type n series) = mset series" by (simp add: chart_order_def)
  have y: "pt_y (cs_data (chart_series type bins n s) ! b) =
      (if type = Cumulative_chart then sum_list (take (Suc b) (tm_counts s)) else tm_counts s ! b)" if "s \<in> set series" for s
    using assms that by (simp add: chart_series_def chart_data_nth chart_point_def)
  show "sum_list (map (\<lambda>c. pt_y (cs_data c ! b)) (dispersion_series series type bins n)) = snd (volume_overview n series ! b)"
    if "type \<noteq> Cumulative_chart"
  proof -
    have "sum_list (map (\<lambda>c. pt_y (cs_data c ! b)) (dispersion_series series type bins n)) =
        sum_list (map (\<lambda>s. pt_y (cs_data (chart_series type bins n s) ! b)) (chart_order type n series))"
      by (simp add: dispersion_series_def comp_def)
    also have "\<dots> = sum_list (map (\<lambda>s. pt_y (cs_data (chart_series type bins n s) ! b)) series)"
      using order by (metis mset_map sum_mset_sum_list)
    also have "\<dots> = sum_list (map (\<lambda>s. tm_counts s ! b) series)"
      using y that by (intro arg_cong [where f = sum_list] map_cong) simp_all
    also have "\<dots> = sum_list (map (\<lambda>s. if b < length (tm_counts s) then tm_counts s ! b else 0) series)"
      using assms by (intro arg_cong [where f = sum_list] map_cong) simp_all
    finally show ?thesis using assms(2) by (simp add: volume_overview_def fold_plus cong: if_cong)
  qed
  show "pt_y (cs_data (chart_series type bins n s) ! b) = sum_list (take (Suc b) (tm_counts s))"
    if "type = Cumulative_chart" "s \<in> set series" using y [OF that(2)] that(1) by simp
qed

subsection \<open>Labels are escaped\<close>

definition markup_char :: "char \<Rightarrow> bool" where
  "markup_char c \<longleftrightarrow> c \<in> {CHR ''<'', CHR ''>'', CHR 0x22, CHR 0x27}"

lemma escape_char_safe: "c \<in> set (escape_char x) \<Longrightarrow> \<not> markup_char c"
  by (auto simp: escape_char_def markup_char_def split: if_splits)

lemma escapeChartText_safe: "c \<in> set (escapeChartText s) \<Longrightarrow> \<not> markup_char c"
  using escape_char_safe by (auto simp: escapeChartText_def)

text \<open>The browser reads the entities back.\<close>

definition entities :: "(string \<times> char) list" where
  "entities = [(''&amp;'', CHR ''&''), (''&lt;'', CHR ''<''), (''&gt;'', CHR ''>''), (''&quot;'', CHR 0x22), (''&#39;'', CHR 0x27)]"

function read_entities :: "string \<Rightarrow> string" where
  "read_entities s =
     (case s of
        [] \<Rightarrow> []
      | c # r \<Rightarrow>
          (case find (\<lambda>e. has_prefix (fst e) s) entities of
             Some e \<Rightarrow> snd e # read_entities (drop (length (fst e)) s)
           | None \<Rightarrow> c # read_entities r))"
  by pat_completeness auto
termination
  by (relation "measure length") (auto simp: entities_def find_Some_iff nth_Cons' split: if_splits)

declare read_entities.simps [simp del]

lemma read_entities_escape: "read_entities (escape_char c @ s) = c # read_entities s"
proof (cases "c = CHR ''&'' \<or> c = CHR ''<'' \<or> c = CHR ''>'' \<or> c = CHR 0x22 \<or> c = CHR 0x27")
  case True
  then show ?thesis
    by (elim disjE) (simp_all add: escape_char_def read_entities.simps [of "CHR ''&'' # _"] entities_def has_prefix_def)
next
  case False
  then have "find (\<lambda>e. has_prefix (fst e) (c # s)) entities = None" by (auto simp: entities_def has_prefix_def)
  then show ?thesis using False by (simp add: escape_char_def read_entities.simps [of "c # s"])
qed

lemma read_escapeChartText: "read_entities (escapeChartText s) = s"
  by (induction s) (simp_all add: escapeChartText_def read_entities_escape, simp add: read_entities.simps)

subsection \<open>Interleaving\<close>

lemma max_length_bound: "rows \<in> set sources \<Longrightarrow> length rows \<le> fold (\<lambda>rows n. max n (length rows)) sources a"
proof -
  have grow: "a \<le> fold (\<lambda>rows n. max n (length rows)) sources a" for a and sources :: "'b list list"
    by (induction sources arbitrary: a) (simp, metis fold_simps(2) max.bounded_iff)
  show "rows \<in> set sources \<Longrightarrow> length rows \<le> fold (\<lambda>rows n. max n (length rows)) sources a"
  proof (induction sources arbitrary: a)
    case (Cons r sources)
    then show ?case using grow [of "max a (length r)" sources] by auto
  qed simp
qed

lemma rows_by_index: "length rows \<le> n \<Longrightarrow> concat (map (\<lambda>i. row_at i rows) [0..<n]) = rows"
proof (induction n arbitrary: rows)
  case (Suc n)
  show ?case
  proof (cases rows rule: rev_cases)
    case (snoc xs x)
    have "row_at n rows = (if length rows = Suc n then [x] else [])" using Suc.prems snoc by (auto simp: row_at_def nth_append)
    moreover have "concat (map (\<lambda>i. row_at i rows) [0..<n]) = (if length rows = Suc n then xs else rows)"
    proof (cases "length rows = Suc n")
      case True
      then have "map (\<lambda>i. row_at i rows) [0..<n] = map (\<lambda>i. row_at i xs) [0..<n]" using snoc by (auto simp: row_at_def nth_append)
      then have "concat (map (\<lambda>i. row_at i rows) [0..<n]) = concat (map (\<lambda>i. row_at i xs) [0..<n])" by (rule arg_cong)
      then show ?thesis using Suc.IH [of xs] True snoc by simp
    qed (use Suc in auto)
    ultimately show ?thesis using snoc by simp
  qed (simp add: row_at_def)
qed simp

text \<open>Rows tagged with their source: each source's rows come in their order, and nothing is lost.\<close>

lemma filter_row_at:
  assumes "j < length sources"
  shows "filter (\<lambda>p. fst p = j) (concat (map (row_at i) (map (\<lambda>(k, rows). map (Pair k) rows) (enumerate 0 sources)))) =
    map (Pair j) (row_at i (sources ! j))"
proof -
  have "filter (\<lambda>p. fst p = j) (concat (map (row_at i) (map (\<lambda>(k, rows). map (Pair k) rows) (enumerate m sources)))) =
      (if m \<le> j \<and> j < m + length sources then map (Pair j) (row_at i (sources ! (j - m))) else [])" for m
    by (induction sources arbitrary: m) (auto simp: row_at_def nth_Cons' Suc_diff_le)
  from this [of 0] show ?thesis using assms by simp
qed

lemma interleave_order:
  assumes "j < length sources"
  shows "filter (\<lambda>p. fst p = j) (interleave (map (\<lambda>(k, rows). map (Pair k) rows) (enumerate 0 sources))) = map (Pair j) (sources ! j)"
proof -
  let ?tagged = "map (\<lambda>(k, rows). map (Pair k) rows) (enumerate 0 sources)"
  let ?n = "fold (\<lambda>rows n. max n (length rows)) ?tagged 0"
  have "map (Pair j) (sources ! j) \<in> set ?tagged" 
    using assms by (auto simp: in_set_enumerate_eq intro!: image_eqI [where x = "(j, sources ! j)"])
  then have bound: "length (sources ! j) \<le> ?n" using max_length_bound by fastforce
  have "filter P (concat (map F is)) = concat (map (\<lambda>i. filter P (F i)) is)" for P :: "nat \<times> 'a \<Rightarrow> bool" and F and "is" :: "nat list"
    by (simp add: filter_concat comp_def)
  then have "filter (\<lambda>p. fst p = j) (interleave ?tagged) = concat (map (\<lambda>i. map (Pair j) (row_at i (sources ! j))) [0..<?n])"
    by (simp only: interleave_def filter_row_at [OF assms])
  also have "\<dots> = map (Pair j) (concat (map (\<lambda>i. row_at i (sources ! j)) [0..<?n]))" by (simp add: map_concat comp_def)
  finally show ?thesis using rows_by_index [OF bound] by simp
qed

subsection \<open>Properties\<close>

definition native_density :: "density list \<Rightarrow> bool" where
  "native_density ds \<longleftrightarrow> (\<forall>d \<in> set ds. dn_bin d < 100)"

text \<open>
  C28: for every number of bins the chart offers, the series partition the densities by their key: each bin
  shown holds exactly the counts of the native bins it covers, and no count is lost or moved to another
  term.
\<close>

theorem rebinning_conserves_counts:
  fixes lower :: "string \<Rightarrow> string" and unitOrder localeCompare :: "string \<Rightarrow> string \<Rightarrow> int"
    and ds :: "density list" and allTerms :: "string list" and uncased :: bool and n :: nat
  assumes "n \<in> set DISPLAY_BINS" "native_density ds"
  defines "result \<equiv> dispersionSeries lower unitOrder localeCompare ds allTerms n uncased"
  shows "distinct (map tm_key result) \<and> tm_key ` set result = (\<lambda>d. termKey lower (dn_term d) uncased) ` set ds \<and>
    (\<forall>s \<in> set result.
       let items = filter (\<lambda>d. termKey lower (dn_term d) uncased = tm_key s) ds in
       length (tm_counts s) = n \<and>
       (\<forall>b < n. tm_counts s ! b = sum_list (map dn_count (filter (\<lambda>d. dn_bin d div (100 div n) = b) items))) \<and>
       sum_list (tm_counts s) = tm_total s \<and> tm_total s = sum_list (map dn_count items) \<and>
       set (tm_variants s) = dn_term ` set items)"
proof -
  have n: "n > 0" using assms(1) by (auto simp: DISPLAY_BINS_def)
  have bins: "filter (\<lambda>d. display_bin n (dn_bin d) = b) items = filter (\<lambda>d. dn_bin d div (100 div n) = b) items"
    if "set items \<subseteq> set ds" for items b
    using that assms(2) display_bin_exact [OF assms(1)] unfolding native_density_def by (intro filter_cong) auto
  have exact: "filter (\<lambda>d. display_bin n (dn_bin d) = b) (filter P ds) = filter (\<lambda>d. dn_bin d div (100 div n) = b) (filter P ds)" for P b
    by (rule bins) (rule filter_is_subset)
  have rebinned: "rebinned (\<lambda>term. termKey lower term uncased) ds n s" if "s \<in> set result" for s
    using that unfolding result_def by (rule dispersionSeries_members) (simp add: series_of_rebinned(1) [OF n])
  show ?thesis
  proof (intro conjI ballI)
    show "distinct (map tm_key result)" "tm_key ` set result = (\<lambda>d. termKey lower (dn_term d) uncased) ` set ds"
      unfolding result_def using dispersionSeries_keys [OF n] by simp_all
  next
    fix s assume "s \<in> set result"
    from rebinned [OF this] show "let items = filter (\<lambda>d. termKey lower (dn_term d) uncased = tm_key s) ds in
       length (tm_counts s) = n \<and>
       (\<forall>b < n. tm_counts s ! b = sum_list (map dn_count (filter (\<lambda>d. dn_bin d div (100 div n) = b) items))) \<and>
       sum_list (tm_counts s) = tm_total s \<and> tm_total s = sum_list (map dn_count items) \<and>
       set (tm_variants s) = dn_term ` set items" unfolding rebinned_def Let_def exact by simp
  qed
qed

definition example_density :: "density list" where
  "example_density =
     [\<lparr>dn_term = ''Jobs'', dn_bin = 99, dn_count = 3\<rparr>, \<lparr>dn_term = ''jobs'', dn_bin = 0, dn_count = 2\<rparr>,
      \<lparr>dn_term = ''else'', dn_bin = 42, dn_count = 1\<rparr>]"

lemma rebinning_conserves_counts_witness:
  "tm_key ` set (dispersionSeries fold_case (\<lambda>_ _. 0) (\<lambda>_ _. 0) example_density [] 4 False) = {''Jobs'', ''jobs'', ''else''}"
proof -
  have "4 \<in> set DISPLAY_BINS" "native_density example_density"
    by (simp_all add: DISPLAY_BINS_def native_density_def example_density_def)
  note keys = rebinning_conserves_counts [OF this, of fold_case "\<lambda>_ _. 0" "\<lambda>_ _. 0" "[]" False]
  have "(\<lambda>d. termKey fold_case (dn_term d) False) ` set example_density = {''Jobs'', ''jobs'', ''else''}"
    by (simp add: example_density_def termKey_def)
  with keys [THEN conjunct2, THEN conjunct1] show ?thesis by (simp only:)
qed

text \<open>
  A preview counts every hit of its page once, in one of the hundred bins: each density counts the hits of
  its term in its bin.
\<close>

theorem preview_counts_hits:
  fixes rows :: "document_row list"
  defines "ds \<equiv> previewDensity rows"
  shows "native_density ds \<and> distinct (map (\<lambda>d. (dn_term d, dn_bin d)) ds) \<and>
    (\<forall>d \<in> set ds. dn_count d = count_list (placed_hits rows) (dn_term d, dn_bin d)) \<and>
    (\<lambda>d. (dn_term d, dn_bin d)) ` set ds = set (placed_hits rows)"
proof -
  let ?counts = "fold count_place (placed_hits rows) []"
  have entry: "place \<in> set (placed_hits rows) \<and>
      d = \<lparr>dn_term = fst place, dn_bin = snd place, dn_count = count_list (placed_hits rows) place\<rparr>"
    if "(place, d) \<in> set ?counts" for place d
  proof -
    have "map_of ?counts place = Some d" using that count_places_distinct by (metis map_of_eq_Some_iff)
    then show ?thesis unfolding count_places by (simp split: if_splits)
  qed
  have ds: "ds = map snd ?counts" unfolding ds_def by (rule previewDensity_places)
  have places: "map (\<lambda>d. (dn_term d, dn_bin d)) ds = map fst ?counts"
    unfolding ds map_map by (intro map_cong) (auto dest!: entry)
  have "fst ` set ?counts = set (placed_hits rows)"
  proof (intro set_eqI)
    fix place
    have "place \<in> fst ` set ?counts \<longleftrightarrow> map_of ?counts place \<noteq> None" by (simp add: map_of_eq_None_iff)
    then show "place \<in> fst ` set ?counts \<longleftrightarrow> place \<in> set (placed_hits rows)" unfolding count_places by simp
  qed
  then have cover: "(\<lambda>d. (dn_term d, dn_bin d)) ` set ds = set (placed_hits rows)"
    using arg_cong [OF places, of set] by simp
  have bounds: "dn_bin d < 100" if "d \<in> set ds" for d
  proof -
    have "(dn_term d, dn_bin d) \<in> set (placed_hits rows)" using that cover by blast
    then show ?thesis by (auto simp: placed_hits_def hit_bin_def)
  qed
  have "dn_count d = count_list (placed_hits rows) (dn_term d, dn_bin d)" if "d \<in> set ds" for d
  proof -
    obtain place where "(place, d) \<in> set ?counts" using \<open>d \<in> set ds\<close> unfolding ds by auto
    from entry [OF this] show ?thesis by (cases place) simp
  qed
  then show ?thesis
    using bounds cover count_places_distinct [of "placed_hits rows"] unfolding native_density_def places by blast
qed

text \<open>
  The sources of a combined result are interleaved row by row: each source's rows keep their order and all
  of them are there.
\<close>

theorem interleave_keeps_sources:
  assumes "j < length sources"
  shows "filter (\<lambda>p. fst p = j) (interleave (map (\<lambda>(k, rows). map (Pair k) rows) (enumerate 0 sources))) =
    map (Pair j) (sources ! j)"
  by (rule interleave_order [OF assms])

lemma interleave_keeps_sources_witness:
  "filter (\<lambda>p. fst p = 1) (interleave (map (\<lambda>(k, rows). map (Pair k) rows) (enumerate 0 [[1], [2, 3 :: nat]]))) =
     [(1, 2), (1, 3)]"
  using interleave_keeps_sources [of 1 "[[1], [2, 3 :: nat]]"] by simp

end
