(* ===== verification/Transport.thy ===== *)
theory Transport
  imports Json_Text Query_Refresh
begin

text \<open>
  Requests to the native host: \<open>api/http.ts\<close> (the URL of an operation), \<open>features/server/account.ts\<close>
  (the account of the window, provider keys in browser storage, headers) and the outcome of a request in
  \<open>api/client.ts\<close>. Strings are UTF-8 bytes, which is what percent encoding works on. A value in browser
  storage is the data its JSON text stands for, or a text that is not JSON.
\<close>

subsection \<open>Percent encoding\<close>

definition upper_hex :: "nat \<Rightarrow> char" where
  "upper_hex n = (if n < 10 then char_of (48 + n) else char_of (55 + n))"

definition ascii_alphanumeric :: "char \<Rightarrow> bool" where
  "ascii_alphanumeric c \<longleftrightarrow>
     (let n = (of_char c :: nat) in 48 \<le> n \<and> n \<le> 57 \<or> 65 \<le> n \<and> n \<le> 90 \<or> 97 \<le> n \<and> n \<le> 122)"

definition percent_byte :: "char \<Rightarrow> string" where
  "percent_byte c = [CHR ''%'', upper_hex (of_char c div 16), upper_hex (of_char c mod 16)]"

definition uri_unreserved :: "char \<Rightarrow> bool" where
  "uri_unreserved c \<longleftrightarrow> ascii_alphanumeric c \<or> c \<in> set (''-_.!~*()'' @ [CHR 0x27])"

definition encodeURIComponent :: "string \<Rightarrow> string" where
  "encodeURIComponent s = concat (map (\<lambda>c. if uri_unreserved c then [c] else percent_byte c) s)"

text \<open>The serializer of \<open>URLSearchParams\<close>.\<close>

definition form_unreserved :: "char \<Rightarrow> bool" where
  "form_unreserved c \<longleftrightarrow> ascii_alphanumeric c \<or> c \<in> set ''*-._''"

definition form_encode :: "string \<Rightarrow> string" where
  "form_encode s =
     concat (map (\<lambda>c. if form_unreserved c then [c] else if c = CHR '' '' then ''+'' else percent_byte c) s)"

definition search_text :: "(string \<times> string) list \<Rightarrow> string" where
  "search_text entries = join ''&'' (map (\<lambda>(k, v). form_encode k @ ''='' @ form_encode v) entries)"

subsection \<open>The URL of an operation\<close>

text \<open>\<open>template.replace(/\{([^}]+)\}/g, \<dots>)\<close> with a replacement that may throw.\<close>

function fill_template :: "(string \<Rightarrow> string result) \<Rightarrow> string \<Rightarrow> string result" where
  "fill_template value_of s =
     (case s of
        [] \<Rightarrow> Inr []
      | c # r \<Rightarrow>
          (let name = takeWhile (\<lambda>x. x \<noteq> CHR ''}'') r; rest = dropWhile (\<lambda>x. x \<noteq> CHR ''}'') r in
           if c = CHR ''{'' \<and> name \<noteq> [] \<and> rest \<noteq> [] then
             rbind (value_of name) (\<lambda>v. rbind (fill_template value_of (tl rest)) (\<lambda>t. Inr (v @ t)))
           else rbind (fill_template value_of r) (\<lambda>t. Inr (c # t))))"
  by pat_completeness auto
termination
  by (relation "measure (length \<circ> snd)") (auto intro: le_imp_less_Suc le_trans [OF diff_le_self length_dropWhile_le])

declare fill_template.simps [simp del]

definition path_value :: "(string \<times> js) list option \<Rightarrow> string \<Rightarrow> string result" where
  "path_value parameters key =
     (let missing = throw (''Missing path parameter: '' @ key) in
      case parameters of
        None \<Rightarrow> missing
      | Some props \<Rightarrow>
          (case get_property (map_of props) key of
             Own (JS_String s) \<Rightarrow> Inr (encodeURIComponent s)
           | Own (JS_Number n) \<Rightarrow> Inr (encodeURIComponent (show_number n))
           | _ \<Rightarrow> missing))"

definition query_entries :: "(string \<times> js) list \<Rightarrow> (string \<times> string) list" where
  "query_entries query =
     map (\<lambda>(key, v). (key, js_text v)) (filter (\<lambda>(key, v). v \<noteq> JS_Undefined \<and> v \<noteq> JS_Null) query)"

definition requestUrl :: "string \<Rightarrow> (string \<times> js) list option \<Rightarrow> (string \<times> js) list option \<Rightarrow> string result" where
  "requestUrl template parameters query =
     rbind (fill_template (path_value parameters) template) (\<lambda>url.
       case query of
         None \<Rightarrow> Inr url
       | Some entries \<Rightarrow>
           (let search = query_entries entries in
            Inr (if search = [] then url else url @ ''?'' @ search_text search)))"

subsection \<open>The account of the window\<close>

record account =
  ac_id :: string
  ac_browser_credentials :: bool

datatype stored = Not_json | Json js

type_synonym storage = "string \<rightharpoonup> stored"

definition browserCredentials :: "account option \<Rightarrow> bool" where
  "browserCredentials account = (case account of Some a \<Rightarrow> ac_browser_credentials a | None \<Rightarrow> False)"

definition storageKey :: "account option \<Rightarrow> string result" where
  "storageKey account =
     (case account of
        Some a \<Rightarrow>
          if ac_browser_credentials a then Inr (''wordflow-provider-credentials:v1:'' @ ac_id a)
          else throw ''Browser credentials require an authenticated account''
      | None \<Rightarrow> throw ''Browser credentials require an authenticated account'')"

definition connection_id :: "string \<Rightarrow> bool" where
  "connection_id s \<longleftrightarrow>
     length s = 36 \<and> list_all (\<lambda>c. is_digit c \<or> c \<in> set ''abcdef'' \<or> c = CHR ''-'') s"

text \<open>The properties of an object, and \<open>name in object\<close> for a name that is not inherited.\<close>

definition own_properties :: "js \<Rightarrow> (string \<times> js) list option" where
  "own_properties v = (case v of JS_Object props \<Rightarrow> Some props | _ \<Rightarrow> None)"

definition stored_entry :: "string \<times> js \<Rightarrow> (string \<times> string) result" where
  "stored_entry entry =
     (case entry of
        (i, JS_String key) \<Rightarrow> if connection_id i then Inr (i, key) else throw ''Invalid browser credential storage''
      | _ \<Rightarrow> throw ''Invalid browser credential storage'')"

definition stored_connections :: "js \<Rightarrow> (string \<times> string) list result" where
  "stored_connections v =
     (case own_properties v of
        None \<Rightarrow> throw ''Invalid browser credential storage''
      | Some props \<Rightarrow>
          if get_member props ''version'' \<noteq> JS_Number (Finite 1) then throw ''Invalid browser credential storage''
          else (case own_properties (get_member props ''connections'') of
                  None \<Rightarrow> throw ''Invalid browser credential storage''
                | Some entries \<Rightarrow> rmap stored_entry entries))"

definition storedKeys :: "account option \<Rightarrow> storage \<Rightarrow> (string \<times> string) list result" where
  "storedKeys account storage =
     rbind (storageKey account) (\<lambda>key.
       case storage key of
         None \<Rightarrow> Inr []
       | Some Not_json \<Rightarrow> throw ''Unexpected token''
       | Some (Json v) \<Rightarrow> stored_connections v)"

definition providerKey :: "account option \<Rightarrow> storage \<Rightarrow> string \<Rightarrow> string property result" where
  "providerKey account storage i =
     (if browserCredentials account
      then rbind (storedKeys account storage) (\<lambda>keys. Inr (get_property (map_of keys) i))
      else Inr Absent)"

definition credentials_value :: "(string \<times> string) list \<Rightarrow> js" where
  "credentials_value keys =
     JS_Object [(''version'', JS_Number (Finite 1)), (''connections'', JS_Object (map (\<lambda>(i, k). (i, JS_String k)) keys))]"

text \<open>The property \<open>__proto__\<close> is not a connection's id: writing it would not add a property.\<close>

definition storeProviderKey :: "account option \<Rightarrow> string \<Rightarrow> string option \<Rightarrow> storage \<Rightarrow> storage result" where
  "storeProviderKey account i key storage =
     rbind (storedKeys account storage) (\<lambda>keys.
       rbind (storageKey account) (\<lambda>name.
         let connections = (case key of
               None \<Rightarrow> AList.delete i keys
             | Some k \<Rightarrow> if i = ''__proto__'' then keys else AList.update i k keys)
         in Inr (storage(name \<mapsto> Json (credentials_value connections)))))"

text \<open>
  Logging out: what \<open>setAccount\<close> leaves in the storage of the browser, if it can write there, and what the
  \<open>storage\<close> event does in the other windows. The signal is the data its text stands for.
\<close>

definition logoutSignal :: string where
  "logoutSignal = ''wordflow-account-logout:v1''"

definition logout_value :: "account \<Rightarrow> string \<Rightarrow> js" where
  "logout_value previous nonce = JS_Object [(''id'', JS_String (ac_id previous)), (''nonce'', JS_String nonce)]"

definition setAccount :: "string \<Rightarrow> bool \<Rightarrow> account option \<Rightarrow> account option \<times> storage \<Rightarrow> account option \<times> storage" where
  "setAccount nonce writable next_account = (\<lambda>(account, storage).
     (next_account,
      case (next_account, account) of
        (None, Some previous) \<Rightarrow>
          if ac_browser_credentials previous \<and> writable then storage(logoutSignal \<mapsto> Json (logout_value previous nonce)) else storage
      | _ \<Rightarrow> storage))"

text \<open>The new account and whether the window announces that its account expired.\<close>

definition storage_event :: "string \<Rightarrow> stored option \<Rightarrow> account option \<Rightarrow> account option \<times> bool" where
  "storage_event key new_value account =
     (case (new_value, account) of
        (Some (Json v), Some a) \<Rightarrow>
          if key = logoutSignal \<and> ac_browser_credentials a \<and> get v ''id'' = JS_String (ac_id a)
          then (None, True) else (account, False)
      | _ \<Rightarrow> (account, False))"

definition expireAccount :: "string \<Rightarrow> bool \<Rightarrow> account option \<times> storage \<Rightarrow> (account option \<times> storage) \<times> bool" where
  "expireAccount nonce writable state = (setAccount nonce writable None state, True)"

subsection \<open>Headers\<close>

fun split_char :: "char \<Rightarrow> string \<Rightarrow> string list" where
  "split_char c [] = [[]]"
| "split_char c (x # xs) =
     (if x = c then [] # split_char c xs
      else (case split_char c xs of [] \<Rightarrow> [[x]] | s # ss \<Rightarrow> (x # s) # ss))"

definition csrf_cookie :: "string \<Rightarrow> string option" where
  "csrf_cookie cookies =
     map_option (drop (length ''wordflow_csrf=''))
       (find (has_prefix ''wordflow_csrf='') (map trim (split_char (CHR '';'') cookies)))"

definition is_object :: "js \<Rightarrow> bool" where
  "is_object v \<longleftrightarrow> (case v of JS_Array _ \<Rightarrow> True | JS_Object _ \<Rightarrow> True | _ \<Rightarrow> False)"

definition body_provider :: "js \<Rightarrow> string option" where
  "body_provider body =
     (let input = (if is_object (get body ''request'') then get body ''request'' else body);
          inference = get input ''inference''
      in if \<not> is_object inference then None
         else (case get inference ''provider'' of JS_String p \<Rightarrow> Some p | _ \<Rightarrow> None))"

text \<open>The last segments of a path: \<open>/api/ai/providers/<id>/models\<close>.\<close>

definition path_provider :: "string \<Rightarrow> string option" where
  "path_provider path =
     (case rev (split_char (CHR ''/'') path) of
        m # i # p # ai # api # _ # _ \<Rightarrow>
          if m = ''models'' \<and> i \<noteq> [] \<and> p = ''providers'' \<and> ai = ''ai'' \<and> api = ''api'' then Some i else None
      | _ \<Rightarrow> None)"

record transport_headers =
  hd_csrf :: "string option"
  hd_provider :: "(string \<times> string property) option"

definition no_headers :: transport_headers where
  "no_headers = \<lparr>hd_csrf = None, hd_provider = None\<rparr>"

text \<open>A non-empty key: an inherited member is an object and counts as one.\<close>

definition usable_key :: "string property \<Rightarrow> bool" where
  "usable_key key \<longleftrightarrow> (case key of Own s \<Rightarrow> s \<noteq> [] | Inherited \<Rightarrow> True | Absent \<Rightarrow> False)"

definition transportHeaders ::
    "account option \<Rightarrow> storage \<Rightarrow> string \<Rightarrow> string \<Rightarrow> js option \<Rightarrow> string option \<Rightarrow> transport_headers result" where
  "transportHeaders account storage cookies method body provider =
     (if \<not> browserCredentials account then Inr no_headers
      else
        let csrf = (if ascii_upper method \<in> {''GET'', ''HEAD'', ''OPTIONS''} then None
                    else (case csrf_cookie cookies of Some token \<Rightarrow> if token = [] then None else Some token | None \<Rightarrow> None));
            chosen = (if provider = None \<or> provider = Some []
                      then (case body of Some b \<Rightarrow> if is_object b \<and> body_provider b \<noteq> None then body_provider b else provider | None \<Rightarrow> provider)
                      else provider)
        in (case chosen of
              Some (c # cs) \<Rightarrow>
                rbind (providerKey account storage (c # cs)) (\<lambda>key.
                  Inr \<lparr>hd_csrf = csrf, hd_provider = (if usable_key key then Some (c # cs, key) else None)\<rparr>)
            | _ \<Rightarrow> Inr \<lparr>hd_csrf = csrf, hd_provider = None\<rparr>))"

subsection \<open>Outcomes\<close>

text \<open>
  A request that failed: its message, the code and the task of the host, or the exception of an aborted
  fetch, which is passed on. The error envelope of a response is read by \<open>envelope\<close>, \<open>None\<close> when the text
  is not JSON.
\<close>

record error_envelope =
  en_message :: "string option"
  en_code :: "string option"
  en_statement_index :: "int option"

record project_error =
  pe_message :: string
  pe_code :: string
  pe_statement_index :: "int option"
  pe_task_id :: "string option"

datatype request_failure = Passed_on | Project_error project_error

datatype fetch_result = Fetch_failed string bool | Response nat "string option" string

definition new_project_error :: "(string \<Rightarrow> error_envelope option) \<Rightarrow> string \<Rightarrow> string \<Rightarrow> string option \<Rightarrow> project_error" where
  "new_project_error envelope msg body taskId =
     \<lparr>pe_message = msg,
      pe_code = (case envelope body of Some e \<Rightarrow> (case en_code e of Some c \<Rightarrow> c | None \<Rightarrow> ''request_failed'') | None \<Rightarrow> ''request_failed''),
      pe_statement_index = (case envelope body of Some e \<Rightarrow> en_statement_index e | None \<Rightarrow> None),
      pe_task_id = taskId\<rparr>"

definition error_message :: "(string \<Rightarrow> error_envelope option) \<Rightarrow> nat \<Rightarrow> string \<Rightarrow> string" where
  "error_message envelope status body =
     (let msg = (case envelope body of
           Some e \<Rightarrow> (case en_message e of Some m \<Rightarrow> m | None \<Rightarrow> body) | None \<Rightarrow> body)
      in if msg \<noteq> [] then msg else ''Request failed ('' @ show_nat status @ '')'')"

text \<open>What the window does besides: 401 ends the account.\<close>

definition request_outcome ::
    "(string \<Rightarrow> error_envelope option) \<Rightarrow> bool \<Rightarrow> account option \<Rightarrow> fetch_result \<Rightarrow> account option \<times> (request_failure + string)" where
  "request_outcome envelope aborted account outcome =
     (case outcome of
        Fetch_failed msg abort_error \<Rightarrow>
          (account, Inl (if aborted \<or> abort_error then Passed_on else Project_error (new_project_error envelope msg [] None)))
      | Response status task_id body \<Rightarrow>
          if 200 \<le> status \<and> status \<le> 299 then (account, Inr body)
          else (if status = 401 then None else account,
                Inl (Project_error (new_project_error envelope (error_message envelope status body) body task_id))))"

subsection \<open>Reading the encodings back\<close>

fun percent_decode :: "string \<Rightarrow> string" where
  "percent_decode (c # h # l # r) =
     (if c = CHR ''%'' then
        (case (hex_value h, hex_value l) of
           (Some a, Some b) \<Rightarrow> char_of (16 * a + b) # percent_decode r
         | _ \<Rightarrow> c # percent_decode (h # l # r))
      else c # percent_decode (h # l # r))"
| "percent_decode (c # r) = c # percent_decode r"
| "percent_decode [] = []"

lemma hex_value_upper [simp]: "n < 16 \<Longrightarrow> hex_value (upper_hex n) = Some n"
  by (auto simp: hex_value_def upper_hex_def Let_def)

lemma byte_halves: "(of_char c :: nat) div 16 < 16" "(of_char c :: nat) mod 16 < 16"
  using of_char_of [where 'a = nat] by (auto intro!: less_mult_imp_div_less)

lemma percent_decode_other: "c \<noteq> CHR ''%'' \<Longrightarrow> percent_decode (c # r) = c # percent_decode r"
  by (cases r; cases "tl r") (auto simp: neq_Nil_conv)

lemma percent_decode_byte: "percent_decode (percent_byte c @ r) = c # percent_decode r"
  using byte_halves [of c] by (simp add: percent_byte_def)

lemma uri_unreserved_percent: "\<not> uri_unreserved (CHR ''%'')"
  by (simp add: uri_unreserved_def ascii_alphanumeric_def)

lemma percent_decode_encode [simp]: "percent_decode (encodeURIComponent s) = s"
proof (induction s)
  case (Cons c s)
  have "percent_decode ((if uri_unreserved c then [c] else percent_byte c) @ encodeURIComponent s) = c # percent_decode (encodeURIComponent s)"
    using uri_unreserved_percent by (cases "c = CHR ''%''") (auto simp: percent_decode_byte percent_decode_other)
  then show ?case using Cons by (simp add: encodeURIComponent_def)
qed (simp add: encodeURIComponent_def)

lemma upper_hex_alphanumeric: "n < 16 \<Longrightarrow> ascii_alphanumeric (upper_hex n)"
  by (auto simp: ascii_alphanumeric_def upper_hex_def Let_def)

lemma percent_byte_chars: "x \<in> set (percent_byte c) \<Longrightarrow> x = CHR ''%'' \<or> ascii_alphanumeric x"
  using byte_halves [of c] upper_hex_alphanumeric by (auto simp: percent_byte_def)

lemma encodeURIComponent_chars: "x \<in> set (encodeURIComponent s) \<Longrightarrow> x = CHR ''%'' \<or> uri_unreserved x"
  using percent_byte_chars by (auto simp: encodeURIComponent_def uri_unreserved_def split: if_splits)

definition url_delimiter :: "char \<Rightarrow> bool" where
  "url_delimiter c \<longleftrightarrow> c \<in> set ''/?#{}&=''"

lemma encodeURIComponent_delimiter: "x \<in> set (encodeURIComponent s) \<Longrightarrow> \<not> url_delimiter x"
  by (drule encodeURIComponent_chars) (auto simp: url_delimiter_def uri_unreserved_def ascii_alphanumeric_def)

definition form_decode :: "string \<Rightarrow> string" where
  "form_decode s = percent_decode (map (\<lambda>c. if c = CHR ''+'' then CHR '' '' else c) s)"

lemma form_encode_chars: "x \<in> set (form_encode s) \<Longrightarrow> x = CHR ''%'' \<or> x = CHR ''+'' \<or> form_unreserved x"
  using percent_byte_chars by (auto simp: form_encode_def form_unreserved_def split: if_splits)

lemma form_encode_delimiter: "x \<in> set (form_encode s) \<Longrightarrow> \<not> url_delimiter x"
  by (drule form_encode_chars) (auto simp: url_delimiter_def form_unreserved_def ascii_alphanumeric_def)

lemma alphanumeric_not: "ascii_alphanumeric c \<Longrightarrow> c \<noteq> CHR ''+'' \<and> c \<noteq> CHR ''%''"
  by (auto simp: ascii_alphanumeric_def)

lemma map_plus_byte: "map (\<lambda>c. if c = CHR ''+'' then CHR '' '' else c) (percent_byte c) = percent_byte c"
  using percent_byte_chars [of _ c] alphanumeric_not by (intro map_idI) auto

lemma form_decode_encode [simp]: "form_decode (form_encode s) = s"
proof (induction s)
  case (Cons c s)
  let ?m = "map (\<lambda>c. if c = CHR ''+'' then CHR '' '' else c)"
  have unreserved: "c \<noteq> CHR ''+'' \<and> c \<noteq> CHR ''%''" if "form_unreserved c"
    using that alphanumeric_not by (auto simp: form_unreserved_def)
  have "percent_decode (?m (if form_unreserved c then [c] else if c = CHR '' '' then ''+'' else percent_byte c) @ ?m (form_encode s)) =
      c # percent_decode (?m (form_encode s))"
    using unreserved by (auto simp: map_plus_byte percent_decode_byte percent_decode_other)
  then show ?case using Cons by (simp add: form_decode_def form_encode_def)
qed (simp add: form_decode_def form_encode_def)

lemma split_char_Nil [simp]: "split_char c s \<noteq> []"
  by (induction s) (auto split: list.split)

lemma split_char_none: "c \<notin> set s \<Longrightarrow> split_char c s = [s]"
  by (induction s) auto

lemma split_char_first: "c \<notin> set s \<Longrightarrow> split_char c (s @ c # r) = s # split_char c r"
  by (induction s) auto

lemma split_char_join: "parts \<noteq> [] \<Longrightarrow> \<forall>p \<in> set parts. c \<notin> set p \<Longrightarrow> split_char c (join [c] parts) = parts"
  by (induction "[c]" parts rule: join.induct) (simp_all add: split_char_none split_char_first)

definition parse_search :: "string \<Rightarrow> (string \<times> string) list" where
  "parse_search text =
     map (\<lambda>part. (form_decode (takeWhile (\<lambda>c. c \<noteq> CHR ''='') part), form_decode (drop 1 (dropWhile (\<lambda>c. c \<noteq> CHR ''='') part))))
       (split_char (CHR ''&'') text)"

lemma parse_search_text:
  assumes "entries \<noteq> []"
  shows "parse_search (search_text entries) = entries"
proof -
  let ?part = "\<lambda>(k, v). form_encode k @ ''='' @ form_encode v"
  have amp: "CHR ''&'' \<notin> set (form_encode s)" and eq: "CHR ''='' \<notin> set (form_encode s)" for s
    using form_encode_delimiter by (auto simp: url_delimiter_def)
  have "split_char (CHR ''&'') (search_text entries) = map ?part entries"
    unfolding search_text_def using assms amp by (intro split_char_join) auto
  moreover have "(form_decode (takeWhile (\<lambda>c. c \<noteq> CHR ''='') (?part e)), form_decode (drop 1 (dropWhile (\<lambda>c. c \<noteq> CHR ''='') (?part e)))) = e" for e
  proof -
    obtain k v where e: "e = (k, v)" by (cases e)
    have "takeWhile (\<lambda>c. c \<noteq> CHR ''='') (form_encode k @ ''='' @ form_encode v) = form_encode k"
      "dropWhile (\<lambda>c. c \<noteq> CHR ''='') (form_encode k @ ''='' @ form_encode v) = ''='' @ form_encode v"
      using eq by (subst takeWhile_append2 dropWhile_append2; auto)+
    then show ?thesis by (simp add: e)
  qed
  ultimately show ?thesis by (simp add: parse_search_def comp_def)
qed

subsection \<open>Templates\<close>

text \<open>The templates of the API: segments that are literal or one parameter.\<close>

datatype segment = Literal string | Parameter string

fun segment_text :: "segment \<Rightarrow> string" where
  "segment_text (Literal s) = s"
| "segment_text (Parameter name) = ''{'' @ name @ ''}''"

fun segment_ok :: "segment \<Rightarrow> bool" where
  "segment_ok (Literal s) = (\<forall>c \<in> set s. \<not> url_delimiter c \<and> c \<noteq> CHR ''%'')"
| "segment_ok (Parameter name) = (name \<noteq> [] \<and> (\<forall>c \<in> set name. \<not> url_delimiter c))"

definition template_text :: "segment list \<Rightarrow> string" where
  "template_text segments = join ''/'' (map segment_text segments)"

fun fill_segment :: "(string \<Rightarrow> string result) \<Rightarrow> segment \<Rightarrow> string result" where
  "fill_segment value_of (Literal s) = Inr s"
| "fill_segment value_of (Parameter name) = value_of name"

lemma fill_template_Nil [simp]: "fill_template value_of [] = Inr []"
  by (simp add: fill_template.simps)

lemma fill_template_literal:
  "CHR ''{'' \<notin> set s \<Longrightarrow> fill_template value_of (s @ r) = rbind (fill_template value_of r) (\<lambda>t. Inr (s @ t))"
proof (induction s)
  case Nil
  then show ?case by (cases "fill_template value_of r") simp_all
next
  case (Cons c s)
  then have "fill_template value_of (c # s @ r) = rbind (fill_template value_of (s @ r)) (\<lambda>t. Inr (c # t))"
    by (subst fill_template.simps) (auto simp: Let_def)
  with Cons show ?case by (cases "fill_template value_of r") simp_all
qed

lemma fill_template_parameter:
  assumes "name \<noteq> []" "CHR ''}'' \<notin> set name"
  shows "fill_template value_of (''{'' @ name @ ''}'' @ r) =
    rbind (value_of name) (\<lambda>v. rbind (fill_template value_of r) (\<lambda>t. Inr (v @ t)))"
proof -
  have "takeWhile (\<lambda>x. x \<noteq> CHR ''}'') (name @ CHR ''}'' # r) = name"
    "dropWhile (\<lambda>x. x \<noteq> CHR ''}'') (name @ CHR ''}'' # r) = CHR ''}'' # r"
    using assms(2) by (subst takeWhile_append2 dropWhile_append2; auto)+
  then show ?thesis using assms(1) by (subst fill_template.simps) simp
qed

lemma fill_template_segment:
  assumes "segment_ok g"
  shows "fill_template value_of (segment_text g @ r) =
    rbind (fill_segment value_of g) (\<lambda>v. rbind (fill_template value_of r) (\<lambda>t. Inr (v @ t)))"
proof (cases g)
  case (Literal s)
  have "CHR ''{'' \<notin> set s" using assms by (auto simp: Literal url_delimiter_def)
  then show ?thesis by (simp add: Literal fill_template_literal)
next
  case (Parameter name)
  have "name \<noteq> []" "CHR ''}'' \<notin> set name" using assms by (auto simp: Parameter url_delimiter_def)
  then show ?thesis using fill_template_parameter [of name value_of r] by (simp add: Parameter)
qed

lemma fill_template_segments:
  assumes "list_all segment_ok segments"
  shows "fill_template value_of (template_text segments) =
    rbind (rmap (fill_segment value_of) segments) (\<lambda>vs. Inr (join ''/'' vs))"
  using assms
proof (induction segments)
  case (Cons g segments)
  show ?case
  proof (cases segments)
    case Nil
    then show ?thesis
      using Cons.prems fill_template_segment [of g value_of "[]"] by (cases "fill_segment value_of g") (simp_all add: template_text_def)
  next
    case (Cons h hs)
    have shape: "template_text (g # segments) = segment_text g @ ''/'' @ template_text segments"
      using Cons by (simp add: template_text_def)
    have rest: "fill_template value_of (''/'' @ template_text segments) =
        rbind (fill_template value_of (template_text segments)) (\<lambda>t. Inr (''/'' @ t))" by (rule fill_template_literal) simp
    have join: "join ''/'' (v # vs) = v @ ''/'' @ join ''/'' vs" if "length vs = length segments" for v vs
      using that Cons by (cases vs) simp_all
    show ?thesis
    proof (cases "fill_segment value_of g")
      case (Inr v)
      then show ?thesis
        using Cons.IH Cons.prems fill_template_segment [of g value_of "''/'' @ template_text segments"] rest
        by (cases "rmap (fill_segment value_of) segments") (simp_all add: shape join rmap_Inr_length)
    qed (use Cons.prems fill_template_segment [of g value_of "''/'' @ template_text segments"] in \<open>simp add: shape\<close>)
  qed
qed (simp add: template_text_def)

text \<open>What a segment of the URL stands for: the literal, or the value of the parameter.\<close>

definition parameter_text :: "(string \<times> js) list option \<Rightarrow> string \<Rightarrow> string option" where
  "parameter_text parameters name =
     (case parameters of
        None \<Rightarrow> None
      | Some props \<Rightarrow>
          (case map_of props name of Some (JS_String s) \<Rightarrow> Some s | Some (JS_Number n) \<Rightarrow> Some (show_number n) | _ \<Rightarrow> None))"

fun segment_value :: "(string \<times> js) list option \<Rightarrow> segment \<Rightarrow> string option" where
  "segment_value parameters (Literal s) = Some s"
| "segment_value parameters (Parameter name) = parameter_text parameters name"

lemma path_value_text:
  "path_value parameters name =
     (case parameter_text parameters name of
        Some v \<Rightarrow> Inr (encodeURIComponent v) | None \<Rightarrow> throw (''Missing path parameter: '' @ name))"
  by (simp add: path_value_def parameter_text_def get_property_def Let_def split: option.split js.split)

lemma percent_decode_plain: "CHR ''%'' \<notin> set s \<Longrightarrow> percent_decode s = s"
  by (induction s) (auto simp: percent_decode_other)

lemma fill_segment_value:
  assumes "segment_ok g"
  shows "segment_value parameters g = Some v \<Longrightarrow> \<exists>t. fill_segment (path_value parameters) g = Inr t \<and>
      percent_decode t = v \<and> (\<forall>c \<in> set t. \<not> url_delimiter c)"
    and "segment_value parameters g = None \<Longrightarrow> \<exists>m. fill_segment (path_value parameters) g = throw m"
  using assms encodeURIComponent_delimiter
  by (cases g; force simp: path_value_text percent_decode_plain)+

lemma rmap_segments:
  assumes "list_all segment_ok segments" "\<forall>g \<in> set segments. segment_value parameters g \<noteq> None"
  obtains ts where "rmap (fill_segment (path_value parameters)) segments = Inr ts"
    and "map percent_decode ts = map (\<lambda>g. the (segment_value parameters g)) segments"
    and "\<forall>t \<in> set ts. \<forall>c \<in> set t. \<not> url_delimiter c"
  using assms
proof (induction segments arbitrary: thesis)
  case (Cons g segments)
  obtain v where "segment_value parameters g = Some v" using Cons.prems(3) by auto
  then obtain t where t: "fill_segment (path_value parameters) g = Inr t" "percent_decode t = v" "\<forall>c \<in> set t. \<not> url_delimiter c"
    using fill_segment_value(1) [of g parameters v] Cons.prems(2) by auto
  obtain ts where "rmap (fill_segment (path_value parameters)) segments = Inr ts"
    "map percent_decode ts = map (\<lambda>g. the (segment_value parameters g)) segments" "\<forall>t \<in> set ts. \<forall>c \<in> set t. \<not> url_delimiter c"
    using Cons.IH Cons.prems(2,3) by auto
  with t show ?case using \<open>segment_value parameters g = Some v\<close> by (intro Cons.prems(1) [of "t # ts"]) simp_all
qed simp

text \<open>
  The path of a URL as the browser sends it, without dot segments: \<open>.\<close> is dropped and \<open>..\<close> drops the
  segment before it.
\<close>

definition remove_dots :: "string list \<Rightarrow> string list" where
  "remove_dots segments =
     rev (fold (\<lambda>g kept. if g = ''..'' then tl kept else if g = ''.'' then kept else g # kept) segments [])"

lemma remove_dots_plain: "''.'' \<notin> set segments \<Longrightarrow> ''..'' \<notin> set segments \<Longrightarrow> remove_dots segments = segments"
proof -
  have "fold (\<lambda>g kept. if g = ''..'' then tl kept else if g = ''.'' then kept else g # kept) segments acc = rev segments @ acc"
    if "''.'' \<notin> set segments" "''..'' \<notin> set segments" for acc
    using that by (induction segments arbitrary: acc) auto
  then show "''.'' \<notin> set segments \<Longrightarrow> ''..'' \<notin> set segments \<Longrightarrow> remove_dots segments = segments" by (simp add: remove_dots_def)
qed

definition url_path :: "string \<Rightarrow> string" where
  "url_path url = takeWhile (\<lambda>c. c \<noteq> CHR ''?'') url"

definition url_search :: "string \<Rightarrow> string option" where
  "url_search url = (case dropWhile (\<lambda>c. c \<noteq> CHR ''?'') url of [] \<Rightarrow> None | _ # r \<Rightarrow> Some r)"

lemma join_slash_chars: "c \<in> set (join ''/'' ts) \<Longrightarrow> c = CHR ''/'' \<or> (\<exists>t \<in> set ts. c \<in> set t)"
  by (induction "''/''" ts rule: join.induct) auto

lemma url_parts:
  assumes "CHR ''?'' \<notin> set path"
  shows "url_path path = path" "url_search path = None" "url_path (path @ ''?'' @ r) = path" "url_search (path @ ''?'' @ r) = Some r"
proof -
  have "takeWhile (\<lambda>c. c \<noteq> CHR ''?'') path = path" "dropWhile (\<lambda>c. c \<noteq> CHR ''?'') path = []"
    using assms by (auto simp: takeWhile_eq_all_conv dropWhile_eq_Nil_conv)
  moreover have "takeWhile (\<lambda>c. c \<noteq> CHR ''?'') (path @ CHR ''?'' # r) = path" "dropWhile (\<lambda>c. c \<noteq> CHR ''?'') (path @ CHR ''?'' # r) = CHR ''?'' # r"
    using assms by (auto simp: takeWhile_append dropWhile_append)
  ultimately show "url_path path = path" "url_search path = None" "url_path (path @ ''?'' @ r) = path" "url_search (path @ ''?'' @ r) = Some r"
    by (simp_all add: url_path_def url_search_def dropWhile_eq_Nil_conv [THEN iffD2])
qed

text \<open>What the host reads from a URL: the segments of its path and the entries of its query.\<close>

definition url_segments :: "string \<Rightarrow> string list" where
  "url_segments url = map percent_decode (split_char (CHR ''/'') (url_path url))"

definition url_entries :: "string \<Rightarrow> (string \<times> string) list" where
  "url_entries url = (case url_search url of None \<Rightarrow> [] | Some search \<Rightarrow> parse_search search)"

definition given_entries :: "(string \<times> js) list option \<Rightarrow> (string \<times> string) list" where
  "given_entries query = (case query of None \<Rightarrow> [] | Some entries \<Rightarrow> query_entries entries)"

lemma filled_url_read:
  assumes "ts \<noteq> []" "\<forall>t \<in> set ts. \<forall>c \<in> set t. \<not> url_delimiter c"
    and "fill_template (path_value parameters) template = Inr (join ''/'' ts)"
  shows "\<exists>url. requestUrl template parameters query = Inr url \<and>
    url_segments url = map percent_decode ts \<and> url_entries url = given_entries query"
proof -
  have split: "split_char (CHR ''/'') (join ''/'' ts) = ts"
    using assms(1,2) by (intro split_char_join) (auto simp: url_delimiter_def)
  have "CHR ''?'' \<notin> set (join ''/'' ts)" using assms(2) by (auto simp: url_delimiter_def dest!: join_slash_chars)
  note parts = url_parts [OF this]
  show ?thesis
  proof (cases query)
    case None
    then show ?thesis
      using parts(1,2) split by (simp add: requestUrl_def assms(3) url_segments_def url_entries_def given_entries_def)
  next
    case (Some entries)
    show ?thesis
    proof (cases "query_entries entries = []")
      case True
      then show ?thesis
        using parts(1,2) split by (simp add: Some requestUrl_def assms(3) url_segments_def url_entries_def given_entries_def Let_def)
    next
      case False
      then show ?thesis
        using parts(3,4) [of "search_text (query_entries entries)"] split parse_search_text [OF False]
        by (simp add: Some requestUrl_def assms(3) url_segments_def url_entries_def given_entries_def Let_def)
    qed
  qed
qed

lemma request_url_present:
  assumes "list_all segment_ok segments" "segments \<noteq> []" "\<forall>g \<in> set segments. segment_value parameters g \<noteq> None"
  shows "\<exists>url. requestUrl (template_text segments) parameters query = Inr url \<and>
    url_segments url = map (\<lambda>g. the (segment_value parameters g)) segments \<and> url_entries url = given_entries query"
proof -
  obtain ts where ts: "rmap (fill_segment (path_value parameters)) segments = Inr ts"
    "map percent_decode ts = map (\<lambda>g. the (segment_value parameters g)) segments" "\<forall>t \<in> set ts. \<forall>c \<in> set t. \<not> url_delimiter c"
    using rmap_segments [OF assms(1,3)] by blast
  have "ts \<noteq> []" using ts(2) assms(2) by auto
  moreover have "fill_template (path_value parameters) (template_text segments) = Inr (join ''/'' ts)"
    using fill_template_segments [OF assms(1), of "path_value parameters"] ts(1) by simp
  ultimately show ?thesis using filled_url_read [of ts parameters "template_text segments" query] ts(2,3) by simp
qed

lemma request_url_missing:
  assumes "list_all segment_ok segments" "g \<in> set segments" "segment_value parameters g = None"
  shows "\<exists>m. requestUrl (template_text segments) parameters query = throw m"
proof (cases "rmap (fill_segment (path_value parameters)) segments")
  case (Inl e)
  then show ?thesis
    using fill_template_segments [OF assms(1), of "path_value parameters"] by (cases e) (simp add: requestUrl_def throw_def)
next
  case (Inr ts)
  have "segment_ok g" using assms(1,2) by (simp add: list_all_iff)
  then show ?thesis using rmap_Inr_member_of [OF Inr assms(2)] fill_segment_value(2) [OF _ assms(3)] by auto
qed


definition example_segments :: "segment list" where
  "example_segments = [Literal [], Literal ''api'', Literal ''nodes'', Parameter ''name'', Literal ''rows'']"

lemma example_template: "template_text example_segments = ''/api/nodes/{name}/rows''"
  by (simp add: example_segments_def template_text_def)


text \<open>
  A value that is only dots is not encoded, so the segment it makes is a dot segment, which a browser
  removes from the URL it fetches together with the segment before it.
\<close>

lemma dot_segment_url:
  "requestUrl ''/api/nodes/{name}/rows'' (Some [(''name'', JS_String ''..'')]) None = Inr ''/api/nodes/../rows''"
  "remove_dots (split_char (CHR ''/'') ''/api/nodes/../rows'') = [[], ''api'', ''rows'']"
proof -
  have "fill_template (path_value (Some [(''name'', JS_String ''..'')])) (template_text example_segments) =
      rbind (rmap (fill_segment (path_value (Some [(''name'', JS_String ''..'')]))) example_segments) (\<lambda>vs. Inr (join ''/'' vs))"
    by (rule fill_template_segments) (simp add: example_segments_def url_delimiter_def)
  moreover have "encodeURIComponent ''..'' = ''..''" by (simp add: encodeURIComponent_def uri_unreserved_def)
  ultimately show "requestUrl ''/api/nodes/{name}/rows'' (Some [(''name'', JS_String ''..'')]) None = Inr ''/api/nodes/../rows''"
    unfolding requestUrl_def example_template by (simp add: example_segments_def path_value_text parameter_text_def)
qed (simp add: remove_dots_def)

subsection \<open>Provider keys\<close>

lemma storageKey_account: "storageKey account = Inr name \<longleftrightarrow>
    (\<exists>a. account = Some a \<and> ac_browser_credentials a \<and> name = ''wordflow-provider-credentials:v1:'' @ ac_id a)"
  by (auto simp: storageKey_def throw_def split: option.splits if_splits)

lemma stored_entry_id: "stored_entry e = Inr k \<Longrightarrow> connection_id (fst k)"
  by (cases e; cases "snd e") (auto simp: stored_entry_def throw_def split: if_splits)

lemma stored_entries_ids: "rmap stored_entry es = Inr keys \<Longrightarrow> \<forall>i \<in> fst ` set keys. connection_id i"
proof (induction es arbitrary: keys)
  case (Cons e es)
  then obtain k ks where "stored_entry e = Inr k" "rmap stored_entry es = Inr ks" "keys = k # ks"
    by (cases "stored_entry e"; cases "rmap stored_entry es") auto
  then show ?case using Cons.IH [of ks] stored_entry_id [of e k] by auto
qed simp

lemma storedKeys_ids: "storedKeys account storage = Inr keys \<Longrightarrow> \<forall>i \<in> fst ` set keys. connection_id i"
  by (cases "storageKey account")
    (auto simp: storedKeys_def stored_connections_def throw_def split: option.splits stored.splits if_splits dest: stored_entries_ids)

lemma stored_connections_value:
  assumes "\<forall>i \<in> fst ` set keys. connection_id i"
  shows "stored_connections (credentials_value keys) = Inr keys"
proof -
  have "rmap stored_entry (map (\<lambda>(i, k). (i, JS_String k)) keys) = Inr keys"
    using assms by (induction keys) (auto simp: stored_entry_def)
  then show ?thesis by (simp add: stored_connections_def credentials_value_def own_properties_def get_member_def)
qed

lemma connection_id_own: "connection_id i \<Longrightarrow> i \<notin> set object_prototype_names"
proof -
  have "list_all (\<lambda>name. length name < 36) object_prototype_names" by (simp add: object_prototype_names_def)
  then show "connection_id i \<Longrightarrow> i \<notin> set object_prototype_names" by (auto simp: connection_id_def list_all_iff)
qed

lemma storeProviderKey_keys:
  assumes "storeProviderKey account i key storage = Inr storage'" "connection_id i"
  obtains keys where "storedKeys account storage = Inr keys"
    and "storedKeys account storage' = Inr (case key of None \<Rightarrow> AList.delete i keys | Some k \<Rightarrow> AList.update i k keys)"
    and "storageKey other \<noteq> storageKey account \<Longrightarrow> storedKeys other storage' = storedKeys other storage"
proof -
  obtain keys where keys: "storedKeys account storage = Inr keys"
    using assms(1) by (cases "storedKeys account storage") (auto simp: storeProviderKey_def)
  obtain name where name: "storageKey account = Inr name"
    using keys by (cases "storageKey account") (auto simp: storedKeys_def)
  let ?next = "case key of None \<Rightarrow> AList.delete i keys | Some k \<Rightarrow> AList.update i k keys"
  have plain: "i \<noteq> ''__proto__''" using connection_id_own [OF assms(2)] by (auto simp: object_prototype_names_def)
  have storage': "storage' = storage(name \<mapsto> Json (credentials_value ?next))"
    using assms(1) keys name plain by (auto simp: storeProviderKey_def Let_def split: option.splits)
  have "\<forall>j \<in> fst ` set ?next. connection_id j"
  proof (cases key)
    case (Some k)
    have "fst ` set (AList.update i k keys) = insert i (fst ` set keys)" by (simp add: dom_update)
    then show ?thesis using storedKeys_ids [OF keys] assms(2) by (simp add: Some)
  next
    case None
    have "fst ` set (AList.delete i keys) \<subseteq> fst ` set keys" by (rule dom_delete_subset)
    then show ?thesis using storedKeys_ids [OF keys] by (simp only: None option.case) blast
  qed
  then have "storedKeys account storage' = Inr ?next"
    by (simp add: storedKeys_def name storage' stored_connections_value)
  moreover have "storedKeys other storage' = storedKeys other storage" if "storageKey other \<noteq> storageKey account"
    using that by (cases "storageKey other") (auto simp: storedKeys_def storage' name)
  ultimately show ?thesis using that keys by blast
qed

lemma transportHeaders_chosen:
  "ac_browser_credentials a \<Longrightarrow> p \<noteq> [] \<Longrightarrow> providerKey (Some a) storage p = Inr key \<Longrightarrow>
    \<exists>csrf. transportHeaders (Some a) storage cookies verb body (Some p) =
      Inr \<lparr>hd_csrf = csrf, hd_provider = (if usable_key key then Some (p, key) else None)\<rparr>"
  by (cases p) (auto simp: transportHeaders_def browserCredentials_def Let_def)

lemma stored_key_known:
  assumes "storeProviderKey (Some a) i key storage = Inr storage'" "connection_id i"
  shows "ac_browser_credentials a"
    and "providerKey (Some a) storage' i = Inr (case key of None \<Rightarrow> Absent | Some k \<Rightarrow> Own k)"
    and "j \<noteq> i \<Longrightarrow> providerKey (Some a) storage' j = providerKey (Some a) storage j"
proof -
  obtain keys where keys: "storedKeys (Some a) storage = Inr keys"
    "storedKeys (Some a) storage' = Inr (case key of None \<Rightarrow> AList.delete i keys | Some k \<Rightarrow> AList.update i k keys)"
    using storeProviderKey_keys [OF assms, of "Some a"] by blast
  show browser: "ac_browser_credentials a"
    using keys(1) by (cases "ac_browser_credentials a") (simp_all add: storedKeys_def storageKey_def throw_def)
  show "providerKey (Some a) storage' i = Inr (case key of None \<Rightarrow> Absent | Some k \<Rightarrow> Own k)"
    using connection_id_own [OF assms(2)] keys(2) browser
    by (simp add: providerKey_def browserCredentials_def get_property_def update_conv' delete_conv' split: option.split)
  show "j \<noteq> i \<Longrightarrow> providerKey (Some a) storage' j = providerKey (Some a) storage j"
    using keys by (simp add: providerKey_def get_property_def update_conv' delete_conv' split: option.split)
qed

lemma stored_key_elsewhere:
  assumes "storeProviderKey (Some a) i key storage = Inr storage'" "connection_id i" "ac_id other \<noteq> ac_id a"
  shows "transportHeaders (Some other) storage' cookies verb body p = transportHeaders (Some other) storage cookies verb body p"
proof -
  have "storageKey (Some other) \<noteq> storageKey (Some a)"
    using stored_key_known(1) [OF assms(1,2)] assms(3) by (simp add: storageKey_def throw_def)
  then have "storedKeys (Some other) storage' = storedKeys (Some other) storage"
    using storeProviderKey_keys [OF assms(1,2), of "Some other"] by blast
  then have "providerKey (Some other) storage' q = providerKey (Some other) storage q" for q
    by (simp add: providerKey_def)
  then show ?thesis by (simp add: transportHeaders_def)
qed

lemma stored_key_sent:
  assumes "storeProviderKey (Some a) i key storage = Inr storage'" "connection_id i"
  shows "\<exists>csrf. transportHeaders (Some a) storage' cookies verb body (Some i) =
    Inr \<lparr>hd_csrf = csrf, hd_provider = (case key of Some (c # cs) \<Rightarrow> Some (i, Own (c # cs)) | _ \<Rightarrow> None)\<rparr>"
proof -
  have "(if usable_key (case key of None \<Rightarrow> Absent | Some k \<Rightarrow> Own k) then Some (i, case key of None \<Rightarrow> Absent | Some k \<Rightarrow> Own k) else None) =
      (case key of Some (c # cs) \<Rightarrow> Some (i, Own (c # cs)) | _ \<Rightarrow> None)"
    by (auto simp: usable_key_def split: option.split list.split)
  moreover have "i \<noteq> []" using assms(2) by (auto simp: connection_id_def)
  ultimately show ?thesis
    using transportHeaders_chosen [OF stored_key_known(1) [OF assms] _ stored_key_known(2) [OF assms], of cookies verb body] by simp
qed


definition example_account :: "string \<Rightarrow> account" where
  "example_account name = \<lparr>ac_id = name, ac_browser_credentials = True\<rparr>"

definition example_connection :: string where
  "example_connection = ''00000000-1111-2222-3333-444444444444''"

lemma example_connection_id: "connection_id example_connection"
  by (simp add: connection_id_def example_connection_def is_digit_def)

definition example_storage :: storage where
  "example_storage = Map.empty(''wordflow-provider-credentials:v1:u'' \<mapsto>
     Json (credentials_value [(example_connection, ''key'')]))"

lemma example_stored:
  "storeProviderKey (Some (example_account ''u'')) example_connection (Some ''key'') Map.empty = Inr example_storage"
  using connection_id_own [OF example_connection_id]
  by (auto simp: storeProviderKey_def storedKeys_def storageKey_def example_account_def example_storage_def object_prototype_names_def)


text \<open>
  Logging out reaches the other windows of the account and no others: the event of the value it leaves ends
  the account exactly where it is this account with browser credentials.
\<close>

lemma logout_reaches_windows:
  assumes "ac_browser_credentials previous" "setAccount nonce True None (Some previous, storage) = (account, storage')"
  shows "storage_event logoutSignal (storage' logoutSignal) (Some other) =
    (if ac_browser_credentials other \<and> ac_id other = ac_id previous then (None, True) else (Some other, False))"
  using assms by (auto simp: setAccount_def storage_event_def logout_value_def get_member_def)

lemma logout_keeps_keys: "fst (setAccount nonce writable account state) = account \<and>
    (key \<noteq> logoutSignal \<longrightarrow> snd (setAccount nonce writable account state) key = snd state key)"
  by (cases state) (simp add: setAccount_def split: option.split)

text \<open>A window without browser credentials adds no header, and a 401 response leaves it without an account.\<close>

lemma no_account_no_headers: "\<not> browserCredentials account \<Longrightarrow> transportHeaders account storage cookies verb body p = Inr no_headers"
  by (simp add: transportHeaders_def)

lemma unauthorized_ends_account: "fst (request_outcome envelope aborted account (Response 401 task_id body)) = None"
  by (simp add: request_outcome_def)

lemma request_outcome_keeps_account:
  "(\<And>task_id body. outcome \<noteq> Response 401 task_id body) \<Longrightarrow> fst (request_outcome envelope aborted account outcome) = account"
  by (auto simp: request_outcome_def split: fetch_result.split)

end
