(* ===== verification/Topic_Graph.thy ===== *)
theory Topic_Graph
  imports Complex_Main Glob Dispersion Json_Text
begin

text \<open>
  The topic graph, \<open>features/tools/topic-modeling/topicModelingGraph.ts\<close>, and the blending of two colours in
  \<open>common/vizPalette.ts\<close>: the positions of topics on the virtual plane, the bubbles with their colours, the
  lasso and the placing of labels. Coordinates, radii and opacities are real numbers. Colours are ASCII texts.
\<close>

subsection \<open>Data\<close>

definition TOPIC_GRAPH_WIDTH :: real where "TOPIC_GRAPH_WIDTH = 1000"
definition TOPIC_GRAPH_HEIGHT :: real where "TOPIC_GRAPH_HEIGHT = 550"

record graph_topic = topic +
  tg_x :: real
  tg_y :: real
  tg_size :: "int list"
  tg_total_size :: int

record graph_point =
  gp_x :: real
  gp_y :: real

record graph_viewport = graph_point +
  gp_zoom :: real

record color_group =
  cg_color :: string
  cg_count :: int

record color_scheme =
  sc_groups :: "color_group list"
  sc_topicCounts :: "int \<rightharpoonup> int list"

record bubble =
  bu_id :: int
  bu_topic :: graph_topic
  bu_position :: graph_point
  bu_radius :: real
  bu_fill :: string
  bu_fillOpacity :: real
  bu_selected :: bool
  bu_lassoed :: bool
  bu_hovered :: bool
  bu_filteredOut :: bool
  bu_highlightedWords :: "utf16 list"

subsection \<open>Blending colours\<close>

definition parse_hex :: "string \<Rightarrow> int option" where
  "parse_hex s =
     (let t = strip_prefixes Prelude.white_space s;
          (negative, u) = (case t of [] \<Rightarrow> (False, []) | c # r \<Rightarrow> if c = CHR ''-'' then (True, r) else if c = CHR ''+'' then (False, r) else (False, t));
          v = (if has_prefix ''0x'' u \<or> has_prefix ''0X'' u then drop 2 u else u);
          digits = takeWhile (\<lambda>c. hex_value c \<noteq> None) v
      in if digits = [] then None
         else Some ((if negative then -1 else 1) * foldl (\<lambda>n c. 16 * n + int (the (hex_value c))) 0 digits))"

definition line_terminator :: "char \<Rightarrow> bool" where
  "line_terminator c \<longleftrightarrow> c = CHR 0x0A \<or> c = CHR 0x0D"

text \<open>\<open>match(/.{2}/g)\<close>.\<close>

fun char_pairs :: "string \<Rightarrow> string list" where
  "char_pairs (a # b # r) =
     (if line_terminator a then char_pairs (b # r) else if line_terminator b then char_pairs r else [a, b] # char_pairs r)"
| "char_pairs _ = []"

fun remove_first :: "char \<Rightarrow> string \<Rightarrow> string" where
  "remove_first c [] = []"
| "remove_first c (x # r) = (if x = c then r else x # remove_first c r)"

text \<open>A channel is \<open>None\<close> where the number would be NaN.\<close>

definition color_channel :: "string list \<Rightarrow> nat \<Rightarrow> int option" where
  "color_channel parts i = (if i < length parts then parse_hex (parts ! i) else Some 0)"

definition blend_channel :: "int option \<Rightarrow> int option \<Rightarrow> real \<Rightarrow> string" where
  "blend_channel a b t =
     (case (a, b) of
        (Some x, Some y) \<Rightarrow> show_int \<lfloor>real_of_int x + (real_of_int y - real_of_int x) * t + 1 / 2\<rfloor>
      | _ \<Rightarrow> ''NaN'')"

definition interpolateVizColor :: "string \<Rightarrow> string \<Rightarrow> real \<Rightarrow> string" where
  "interpolateVizColor colorA colorB t =
     (let a = char_pairs (remove_first (CHR ''#'') colorA); b = char_pairs (remove_first (CHR ''#'') colorB);
          channel = (\<lambda>i. blend_channel (color_channel a i) (color_channel b i) t)
      in ''rgb('' @ channel 0 @ '', '' @ channel 1 @ '', '' @ channel 2 @ '')'')"

subsection \<open>Colours of groups\<close>

definition group_weight :: "color_scheme \<Rightarrow> int \<Rightarrow> nat \<Rightarrow> color_group \<Rightarrow> string \<times> real" where
  "group_weight scheme topic index g =
     (cg_color g,
      if cg_count g > 0
      then real_of_int (case sc_topicCounts scheme topic of
             Some counts \<Rightarrow> if index < length counts then counts ! index else 0 | None \<Rightarrow> 0) / real_of_int (cg_count g)
      else 0)"

definition weights_of :: "color_scheme \<Rightarrow> int \<Rightarrow> (string \<times> real) list" where
  "weights_of scheme topic = map (\<lambda>(index, g). group_weight scheme topic index g) (enumerate 0 (sc_groups scheme))"

definition sign_of :: "real \<Rightarrow> int" where
  "sign_of r = (if r < 0 then -1 else if r = 0 then 0 else 1)"

definition group_fill :: "(string \<times> real) list \<Rightarrow> string \<Rightarrow> string" where
  "group_fill weights fallback =
     (case js_sort (\<lambda>a b. sign_of (snd b - snd a)) (filter (\<lambda>g. snd g > 0) weights) of
        [] \<Rightarrow> fallback
      | [first] \<Rightarrow> fst first
      | first # second # _ \<Rightarrow> interpolateVizColor (fst first) (fst second) (snd second / (snd first + snd second)))"

definition entropy_of :: "real \<Rightarrow> (string \<times> real) list \<Rightarrow> real" where
  "entropy_of whole weights =
     fold (\<lambda>g sum. let share = snd g / whole in if share > 0 then sum - share * ln share else sum) weights 0"

definition concentration_of :: "real \<Rightarrow> (string \<times> real) list \<Rightarrow> real" where
  "concentration_of whole weights =
     (if length weights < 2 then 1
      else min 1 (max 0 (1 - entropy_of whole weights / ln (real (length weights)))))"

definition topicGroupStyle :: "color_scheme \<Rightarrow> int \<Rightarrow> string \<Rightarrow> string \<times> real" where
  "topicGroupStyle scheme topic fallback =
     (let weights = weights_of scheme topic; sum = fold (\<lambda>g n. n + snd g) weights 0
      in (group_fill weights fallback,
          if sum = 0 then 6 / 10 else 25 / 100 + 55 / 100 * sqrt (concentration_of sum weights)))"

definition resolveTopicCorpusColor :: "nat \<Rightarrow> string \<Rightarrow> string list \<Rightarrow> (string \<rightharpoonup> string) \<Rightarrow> string list \<Rightarrow> string" where
  "resolveTopicCorpusColor index fallback panelNodeIds nodeColors defaultPalette =
     (let palette = (if index < length defaultPalette then Some (defaultPalette ! index) else None);
          non_empty = (\<lambda>s. s \<noteq> None \<and> s \<noteq> Some [])
      in if index < length panelNodeIds \<and> panelNodeIds ! index \<noteq> [] then
           (let color = nodeColors (panelNodeIds ! index)
            in if non_empty color then the color else if non_empty palette then the palette else fallback)
         else (case palette of Some c \<Rightarrow> c | None \<Rightarrow> fallback))"

subsection \<open>Positions\<close>

definition normalized_position :: "graph_topic list \<Rightarrow> graph_topic \<Rightarrow> graph_point" where
  "normalized_position topics t =
     (let xs = map tg_x topics; ys = map tg_y topics;
          xMin = Min (set xs); xMax = Max (set xs); yMin = Min (set ys); yMax = Max (set ys);
          span = (\<lambda>s. if s = 0 then 1 else s);
          scale = min (TOPIC_GRAPH_WIDTH / span (xMax - xMin)) (TOPIC_GRAPH_HEIGHT / span (yMax - yMin))
      in \<lparr>gp_x = TOPIC_GRAPH_WIDTH / 2 + (tg_x t - (xMin + xMax) / 2) * scale,
          gp_y = TOPIC_GRAPH_HEIGHT / 2 + (tg_y t - (yMin + yMax) / 2) * scale\<rparr>)"

definition normalizeTopicPositions :: "graph_topic list \<Rightarrow> int \<rightharpoonup> graph_point" where
  "normalizeTopicPositions topics =
     (if topics = [] then Map.empty
      else map_of (rev (map (\<lambda>t. (tp_id t, normalized_position topics t)) topics)))"

subsection \<open>Bubbles\<close>

definition share_of :: "graph_topic \<Rightarrow> int list \<Rightarrow> nat \<Rightarrow> real" where
  "share_of t corpusSizes i =
     (let size = (if i < length corpusSizes then corpusSizes ! i else 0) in
      if size > 0 then real_of_int (if i < length (tg_size t) then tg_size t ! i else 0) / real_of_int size else 0)"

definition corpus_proportion :: "graph_topic \<Rightarrow> int list \<Rightarrow> real" where
  "corpus_proportion t corpusSizes =
     (let a = share_of t corpusSizes 0; b = share_of t corpusSizes 1
      in if length corpusSizes = 2 \<and> a + b > 0 then b / (a + b) else 1 / 2)"

definition bubble_order :: "graph_topic \<Rightarrow> graph_topic \<Rightarrow> int" where
  "bubble_order a b =
     (if tg_total_size b - tg_total_size a \<noteq> 0 then tg_total_size b - tg_total_size a else tp_id a - tp_id b)"

record bubble_options =
  bo_corpusSizes :: "int list"
  bo_panelNodeIds :: "string list"
  bo_nodeColors :: "string \<rightharpoonup> string"
  bo_defaultPalette :: "string list"
  bo_selectedTopicIds :: "int set"
  bo_lassoTopicIds :: "int list"
  bo_hoveredTopicId :: "int option"
  bo_topicSearchQuery :: utf16
  bo_colorScheme :: "color_scheme option"
  bo_eligibility :: "topic_eligibility option"

definition bubble_style :: "bubble_options \<Rightarrow> string \<Rightarrow> string \<Rightarrow> graph_topic \<Rightarrow> string \<times> real" where
  "bubble_style opts colorA colorB t =
     (let corpusCount = length (bo_corpusSizes opts) in
      case bo_colorScheme opts of
        Some scheme \<Rightarrow>
          if corpusCount \<le> 1 then topicGroupStyle scheme (tp_id t) colorA
          else (interpolateVizColor colorA colorB (corpus_proportion t (bo_corpusSizes opts)), 6 / 10)
      | None \<Rightarrow>
          (if corpusCount \<le> 1 then colorA else interpolateVizColor colorA colorB (corpus_proportion t (bo_corpusSizes opts)), 6 / 10))"

definition bubble_of ::
    "bubble_options \<Rightarrow> graph_topic list \<Rightarrow> topic_eligibility \<Rightarrow> string \<Rightarrow> string \<Rightarrow> graph_topic \<Rightarrow> bubble" where
  "bubble_of opts topics projection colorA colorB t =
     (let visible = filter (\<lambda>t. tg_total_size t > 0) topics;
          maxSize = Max (insert 1 (set (map tg_total_size visible)));
          style = bubble_style opts colorA colorB t
      in \<lparr>bu_id = tp_id t, bu_topic = t,
          bu_position = (case normalizeTopicPositions topics (tp_id t) of Some p \<Rightarrow> p
            | None \<Rightarrow> \<lparr>gp_x = TOPIC_GRAPH_WIDTH / 2, gp_y = TOPIC_GRAPH_HEIGHT / 2\<rparr>),
          bu_radius = 50 * sqrt (real_of_int (tg_total_size t) / real_of_int maxSize),
          bu_fill = fst style, bu_fillOpacity = snd style,
          bu_selected = (tp_id t \<in> bo_selectedTopicIds opts), bu_lassoed = (tp_id t \<in> set (bo_lassoTopicIds opts)),
          bu_hovered = (bo_hoveredTopicId opts = Some (tp_id t)),
          bu_filteredOut = (tp_id t \<notin> set (te_eligible projection)),
          bu_highlightedWords = (case map_of (te_highlights projection) (tp_id t) of Some ws \<Rightarrow> ws | None \<Rightarrow> [])\<rparr>)"

definition nth_or :: "'a list \<Rightarrow> nat \<Rightarrow> 'a \<Rightarrow> 'a" where
  "nth_or xs i d = (if i < length xs then xs ! i else d)"

definition buildTopicBubbleModels ::
    "(code_unit \<Rightarrow> code_unit) \<Rightarrow> (utf16 \<Rightarrow> utf16) \<Rightarrow> graph_topic list \<Rightarrow> bubble_options \<Rightarrow> bubble list result" where
  "buildTopicBubbleModels canon lower topics opts =
     (let palette = bo_defaultPalette opts;
          color = (\<lambda>i. resolveTopicCorpusColor i (nth_or palette i (nth_or VIZ_PALETTE i GREY))
                    (bo_panelNodeIds opts) (bo_nodeColors opts) palette)
      in rbind (case bo_eligibility opts of
                  Some e \<Rightarrow> Inr e
                | None \<Rightarrow> topicEligibility canon lower (map topic.truncate topics) (bo_topicSearchQuery opts) (bo_lassoTopicIds opts))
           (\<lambda>projection. Inr (map (bubble_of opts topics projection (color 0) (color 1))
              (js_sort bubble_order (filter (\<lambda>t. tg_total_size t > 0) topics)))))"

subsection \<open>The lasso\<close>

definition edge_crosses :: "graph_point \<Rightarrow> graph_point \<Rightarrow> graph_point \<Rightarrow> bool" where
  "edge_crosses p current previous \<longleftrightarrow>
     (gp_y current > gp_y p) \<noteq> (gp_y previous > gp_y p) \<and>
     gp_x p < ((gp_x previous - gp_x current) * (gp_y p - gp_y current)) / (gp_y previous - gp_y current) + gp_x current"

text \<open>The loop over the vertices with the previous one at hand.\<close>

fun crossing_loop :: "graph_point \<Rightarrow> graph_point \<Rightarrow> graph_point list \<Rightarrow> bool \<Rightarrow> bool" where
  "crossing_loop p previous [] inside = inside"
| "crossing_loop p previous (current # rest) inside =
     crossing_loop p current rest (if edge_crosses p current previous then \<not> inside else inside)"

definition isPointInsidePolygon :: "graph_point \<Rightarrow> graph_point list \<Rightarrow> bool" where
  "isPointInsidePolygon p polygon \<longleftrightarrow> \<not> length polygon < 3 \<and> crossing_loop p (last polygon) polygon False"

definition on_screen :: "graph_viewport \<Rightarrow> bubble \<Rightarrow> graph_point" where
  "on_screen viewport b =
     \<lparr>gp_x = gp_x (bu_position b) * gp_zoom viewport + gp_x viewport,
      gp_y = gp_y (bu_position b) * gp_zoom viewport + gp_y viewport\<rparr>"

definition findTopicIdsInsideLasso :: "bubble list \<Rightarrow> graph_point list \<Rightarrow> graph_viewport \<Rightarrow> int list" where
  "findTopicIdsInsideLasso bubbles polygon viewport =
     unique (map bu_id (filter (\<lambda>b. isPointInsidePolygon (on_screen viewport b) polygon) bubbles))"

subsection \<open>Labels\<close>

record label_box =
  lb_x :: real
  lb_y :: real
  lb_width :: real

definition label_order :: "bubble \<Rightarrow> bubble \<Rightarrow> int" where
  "label_order a b =
     (let number = (\<lambda>v. if v then 1 else 0 :: int); hovered = number (bu_hovered b) - number (bu_hovered a);
          selected = number (bu_selected b) - number (bu_selected a); radius = sign_of (bu_radius b - bu_radius a)
      in if hovered \<noteq> 0 then hovered else if selected \<noteq> 0 then selected else if radius \<noteq> 0 then radius
         else bu_id a - bu_id b)"

definition label_width :: "bubble \<Rightarrow> real" where
  "label_width b = real (length (CHR ''T'' # show_int (bu_id b))) * 7 + 6"

definition label_offset :: "nat \<Rightarrow> real" where
  "label_offset attempt =
     (if attempt = 0 then 0 else real ((attempt + 1) div 2) * 18 * (if odd attempt then -1 else 1))"

definition boxes_overlap :: "label_box \<Rightarrow> label_box \<Rightarrow> bool" where
  "boxes_overlap a b \<longleftrightarrow> \<bar>lb_x a - lb_x b\<bar> < (lb_width a + lb_width b) / 2 \<and> \<bar>lb_y a - lb_y b\<bar> < 16"

definition label_at :: "real \<Rightarrow> bubble \<Rightarrow> nat \<Rightarrow> label_box" where
  "label_at zoom b attempt =
     \<lparr>lb_x = gp_x (bu_position b) * zoom, lb_y = gp_y (bu_position b) * zoom + label_offset attempt, lb_width = label_width b\<rparr>"

definition label_attempts :: "nat \<Rightarrow> bubble \<Rightarrow> nat" where
  "label_attempts n b = (if bu_hovered b \<or> bu_selected b then n * 2 + 1 else 1)"

definition place_label ::
    "nat \<Rightarrow> real \<Rightarrow> bubble \<Rightarrow> label_box list \<times> (int \<times> real) list \<Rightarrow> label_box list \<times> (int \<times> real) list" where
  "place_label n zoom b = (\<lambda>(placed, offsets).
     case find (\<lambda>attempt. \<not> list_ex (\<lambda>label. boxes_overlap label (label_at zoom b attempt)) placed) [0..<label_attempts n b] of
       None \<Rightarrow> (placed, offsets)
     | Some attempt \<Rightarrow> (placed @ [label_at zoom b attempt], AList.update (bu_id b) (label_offset attempt / zoom) offsets))"

definition topicLabelOffsets :: "bubble list \<Rightarrow> real \<Rightarrow> (int \<times> real) list" where
  "topicLabelOffsets bubbles zoom =
     snd (fold (place_label (length bubbles) zoom) (js_sort label_order bubbles) ([], []))"

subsection \<open>Positions, opacity and the lasso\<close>

definition nonzero_span :: "real \<Rightarrow> real" where
  "nonzero_span s = (if s = 0 then 1 else s)"

lemma centred_bound:
  assumes "lo \<le> v" "v \<le> hi" "0 \<le> scale" "scale \<le> extent / nonzero_span (hi - lo)" "extent \<ge> 0"
  shows "0 \<le> extent / 2 + (v - (lo + hi) / 2) * scale" "extent / 2 + (v - (lo + hi) / 2) * scale \<le> extent"
proof -
  have "\<bar>v - (lo + hi) / 2\<bar> \<le> (hi - lo) / 2" using assms(1,2) by (simp add: abs_if field_simps)
  from mult_right_mono [OF this assms(3)] have "\<bar>(v - (lo + hi) / 2) * scale\<bar> \<le> (hi - lo) / 2 * scale"
    unfolding abs_mult abs_of_nonneg [OF assms(3)] .
  also have "\<dots> \<le> extent / 2"
  proof (cases "hi = lo")
    case False
    then have "scale \<le> extent / (hi - lo)" "hi - lo > 0" using assms by (simp_all add: nonzero_span_def)
    then have "(hi - lo) * scale \<le> extent" by (simp add: pos_le_divide_eq mult.commute)
    then show ?thesis by simp
  qed (use assms(5) in simp)
  finally show "0 \<le> extent / 2 + (v - (lo + hi) / 2) * scale" "extent / 2 + (v - (lo + hi) / 2) * scale \<le> extent"
    unfolding abs_le_iff by linarith+
qed

lemma normalized_position_bounds:
  assumes "t \<in> set topics"
  shows "0 \<le> gp_x (normalized_position topics t)" "gp_x (normalized_position topics t) \<le> TOPIC_GRAPH_WIDTH"
    "0 \<le> gp_y (normalized_position topics t)" "gp_y (normalized_position topics t) \<le> TOPIC_GRAPH_HEIGHT"
proof -
  let ?lo = "\<lambda>f. Min (f ` set topics)" and ?hi = "\<lambda>f. Max (f ` set topics)"
  let ?scale = "min (TOPIC_GRAPH_WIDTH / nonzero_span (?hi tg_x - ?lo tg_x)) (TOPIC_GRAPH_HEIGHT / nonzero_span (?hi tg_y - ?lo tg_y))"
  have between: "?lo f \<le> f t" "f t \<le> ?hi f" for f :: "graph_topic \<Rightarrow> real" using assms by simp_all
  then have "nonzero_span (?hi f - ?lo f) > 0" for f :: "graph_topic \<Rightarrow> real"
    using order_trans [OF between [of f]] by (simp add: nonzero_span_def less_le)
  then have scale: "0 \<le> ?scale" by (simp add: TOPIC_GRAPH_WIDTH_def TOPIC_GRAPH_HEIGHT_def less_imp_le)
  have position: "gp_x (normalized_position topics t) = TOPIC_GRAPH_WIDTH / 2 + (tg_x t - (?lo tg_x + ?hi tg_x) / 2) * ?scale"
    "gp_y (normalized_position topics t) = TOPIC_GRAPH_HEIGHT / 2 + (tg_y t - (?lo tg_y + ?hi tg_y) / 2) * ?scale"
    by (simp_all add: normalized_position_def Let_def nonzero_span_def)
  show "0 \<le> gp_x (normalized_position topics t)" "gp_x (normalized_position topics t) \<le> TOPIC_GRAPH_WIDTH"
    "0 \<le> gp_y (normalized_position topics t)" "gp_y (normalized_position topics t) \<le> TOPIC_GRAPH_HEIGHT"
    unfolding position
    using centred_bound [OF between [of tg_x] scale, of TOPIC_GRAPH_WIDTH] centred_bound [OF between [of tg_y] scale, of TOPIC_GRAPH_HEIGHT]
    by (simp_all add: TOPIC_GRAPH_WIDTH_def TOPIC_GRAPH_HEIGHT_def)
qed

text \<open>Every topic is drawn on the plane, and the distances keep their proportions.\<close>

lemma topics_on_plane:
  assumes "distinct (map tp_id topics)" "t \<in> set topics"
  shows "normalizeTopicPositions topics (tp_id t) = Some (normalized_position topics t)"
proof -
  have "topics \<noteq> []" using assms(2) by auto
  moreover have "map_of (rev (map (\<lambda>t. (tp_id t, normalized_position topics t)) topics)) (tp_id t) = Some (normalized_position topics t)"
    using assms by (intro map_of_is_SomeI) (auto simp: rev_map [symmetric] comp_def)
  ultimately show ?thesis by (simp add: normalizeTopicPositions_def)
qed

text \<open>The opacity of metadata is between 0.25 and 0.8, and it is 0.6 where no group has the topic.\<close>

lemma group_opacity_bounds:
  "25 / 100 \<le> snd (topicGroupStyle scheme topic fallback) \<and> snd (topicGroupStyle scheme topic fallback) \<le> 8 / 10"
proof -
  obtain n w where style: "snd (topicGroupStyle scheme topic fallback) = (if n = 0 then 6 / 10 else 25 / 100 + 55 / 100 * sqrt (concentration_of n w))"
    by (auto simp: topicGroupStyle_def Let_def)
  have "0 \<le> concentration_of n w \<and> concentration_of n w \<le> 1" by (auto simp: concentration_of_def min_def max_def)
  then obtain r where r: "sqrt (concentration_of n w) = r" "0 \<le> r" "r \<le> 1" by simp
  show ?thesis unfolding style r(1) using r(2,3) by (cases "n = 0") (simp, simp only: if_False, linarith)
qed

text \<open>The lasso is even-odd: a point is inside when a ray from it crosses an odd number of edges.\<close>

definition polygon_edges :: "graph_point list \<Rightarrow> (graph_point \<times> graph_point) list" where
  "polygon_edges polygon = zip polygon (last polygon # butlast polygon)"

lemma crossing_loop_count:
  "crossing_loop p previous polygon inside \<longleftrightarrow>
     inside \<noteq> odd (length (filter (\<lambda>(c, q). edge_crosses p c q) (zip polygon (previous # butlast polygon))))"
proof (induction p previous polygon inside rule: crossing_loop.induct)
  case (2 p previous current rest inside)
  have "zip rest (butlast (current # rest)) = zip rest (current # butlast rest)" by (cases rest) simp_all
  then show ?case using 2 by (cases "edge_crosses p current previous") (simp_all del: butlast.simps)
qed simp

lemma edge_crosses_commute: "edge_crosses p a b = edge_crosses p b a"
proof (cases "gp_y a = gp_y b")
  case False
  have "((gp_x b - gp_x a) * (gp_y p - gp_y a)) / (gp_y b - gp_y a) + gp_x a =
      ((gp_x a - gp_x b) * (gp_y p - gp_y b)) / (gp_y a - gp_y b) + gp_x b"
    using False by (simp add: field_simps)
  then show ?thesis by (auto simp: edge_crosses_def)
qed (simp add: edge_crosses_def)

lemma lasso_even_odd:
  "isPointInsidePolygon p polygon \<longleftrightarrow>
     3 \<le> length polygon \<and> odd (length (filter (\<lambda>(c, q). edge_crosses p c q) (polygon_edges polygon)))"
  by (auto simp: isPointInsidePolygon_def crossing_loop_count polygon_edges_def)

text \<open>A blend of two colours lies between them, and at the ends it is one of them.\<close>

lemma blend_between:
  assumes "0 \<le> t" "t \<le> 1"
  shows "\<exists>c. blend_channel (Some a) (Some b) t = show_int c \<and> min a b \<le> c \<and> c \<le> max a b"
proof -
  let ?v = "real_of_int a + (real_of_int b - real_of_int a) * t"
  have "real_of_int (min a b) \<le> ?v \<and> ?v \<le> real_of_int (max a b)"
  proof (cases "a \<le> b")
    case True
    then have "0 \<le> (real_of_int b - real_of_int a) * t" "(real_of_int b - real_of_int a) * t \<le> real_of_int b - real_of_int a"
      using assms by (simp_all add: mult_left_le)
    then show ?thesis using True by simp
  next
    case False
    then have "0 \<le> (real_of_int a - real_of_int b) * t" "(real_of_int a - real_of_int b) * t \<le> real_of_int a - real_of_int b"
      using assms by (simp_all add: mult_left_le)
    then show ?thesis using False by (simp add: left_diff_distrib)
  qed
  then have "min a b \<le> \<lfloor>?v + 1 / 2\<rfloor>" "\<lfloor>?v + 1 / 2\<rfloor> \<le> max a b" by linarith+
  then show ?thesis by (auto simp: blend_channel_def)
qed

lemma blend_ends: "blend_channel (Some a) (Some b) 0 = show_int a" "blend_channel (Some a) (Some b) 1 = show_int b"
  by (simp_all add: blend_channel_def)

text \<open>
  The bubbles are those of the topics with documents, the largest first, and the area of a bubble is in
  proportion to the size of its topic.
\<close>

lemma bubbles_of_topics:
  assumes "buildTopicBubbleModels canon lower topics opts = Inr bubbles"
  shows "mset (map bu_topic bubbles) = mset (filter (\<lambda>t. tg_total_size t > 0) topics)"
    and "sorted_wrt (\<lambda>b c. tg_total_size (bu_topic b) \<ge> tg_total_size (bu_topic c)) bubbles"
    and "b \<in> set bubbles \<Longrightarrow> bu_id b = tp_id (bu_topic b)"
    and "b \<in> set bubbles \<Longrightarrow> c \<in> set bubbles \<Longrightarrow>
      (bu_radius b)\<^sup>2 * real_of_int (tg_total_size (bu_topic c)) = (bu_radius c)\<^sup>2 * real_of_int (tg_total_size (bu_topic b))"
proof -
  let ?visible = "filter (\<lambda>t. tg_total_size t > 0) topics"
  let ?maxSize = "Max (insert 1 (set (map tg_total_size ?visible)))"
  obtain projection a z where bubbles: "bubbles = map (bubble_of opts topics projection a z) (js_sort bubble_order ?visible)"
    using assms by (auto simp: buildTopicBubbleModels_def Let_def)
  have fields: "bu_topic (bubble_of opts topics projection a z t) = t" "bu_id (bubble_of opts topics projection a z t) = tp_id t"
    "bu_radius (bubble_of opts topics projection a z t) = 50 * sqrt (real_of_int (tg_total_size t) / real_of_int ?maxSize)" for t
    by (simp_all add: bubble_of_def Let_def)
  show "mset (map bu_topic bubbles) = mset ?visible" by (simp add: bubbles comp_def fields)
  have "total_comparison bubble_order" by (auto simp: total_comparison_def bubble_order_def)
  from js_sort_sorted [OF this, of ?visible]
  show "sorted_wrt (\<lambda>b c. tg_total_size (bu_topic b) \<ge> tg_total_size (bu_topic c)) bubbles"
    by (auto simp: bubbles sorted_wrt_map fields bubble_order_def elim!: sorted_wrt_mono_rel [rotated] split: if_splits)
  obtain m where m: "?maxSize = m" "1 \<le> m" by simp
  have area: "(bu_radius c)\<^sup>2 = 2500 * (real_of_int (tg_total_size (bu_topic c)) / real_of_int m)"
    if "c \<in> set bubbles" for c
  proof -
    obtain t where t: "c = bubble_of opts topics projection a z t" "0 < tg_total_size t" using \<open>c \<in> set bubbles\<close> by (auto simp: bubbles)
    have "0 \<le> real_of_int (tg_total_size t) / real_of_int m" using t(2) m(2) by simp
    then show ?thesis unfolding t(1) fields m(1) by (simp add: power_mult_distrib)
  qed
  show "b \<in> set bubbles \<Longrightarrow> bu_id b = tp_id (bu_topic b)" by (auto simp: bubbles fields)
  show "b \<in> set bubbles \<Longrightarrow> c \<in> set bubbles \<Longrightarrow>
      (bu_radius b)\<^sup>2 * real_of_int (tg_total_size (bu_topic c)) = (bu_radius c)\<^sup>2 * real_of_int (tg_total_size (bu_topic b))"
    by (simp add: area)
qed

subsection \<open>Labels are apart, and those that matter are placed\<close>

definition labels_apart :: "label_box list \<Rightarrow> bool" where
  "labels_apart placed \<longleftrightarrow> sorted_wrt (\<lambda>a b. \<not> boxes_overlap a b) placed"

lemma labels_apart_snoc:
  "labels_apart (placed @ [box]) \<longleftrightarrow> labels_apart placed \<and> (\<forall>other \<in> set placed. \<not> boxes_overlap other box)"
  by (auto simp: labels_apart_def sorted_wrt_append)

text \<open>The offsets tried are different multiples of the line height.\<close>

definition step_of :: "nat \<Rightarrow> int" where
  "step_of attempt = (if even attempt then int (attempt div 2) else - int ((attempt + 1) div 2))"

lemma label_offset_step: "label_offset attempt = 18 * real_of_int (step_of attempt)"
  by (cases "even attempt") (auto simp: label_offset_def step_of_def elim!: evenE oddE)

lemma step_of_inj: "inj step_of"
proof (rule injI)
  fix a b assume "step_of a = step_of b"
  then show "a = b" unfolding step_of_def by (cases "even a"; cases "even b") (auto elim!: evenE oddE)
qed

text \<open>One placed label blocks at most two of them.\<close>

lemma blocked_steps:
  assumes "\<bar>c - (y + 18 * real_of_int k)\<bar> < 16" "\<bar>c - (y + 18 * real_of_int l)\<bar> < 16"
  shows "\<bar>k - l\<bar> \<le> 1"
proof -
  have "18 * \<bar>real_of_int k - real_of_int l\<bar> < 32" using assms by (simp add: abs_if split: if_splits)
  then have "\<bar>real_of_int (k - l)\<bar> < 2" by simp
  then show ?thesis by linarith
qed

lemma card_blocked:
  assumes "finite S" "\<And>a b. a \<in> S \<Longrightarrow> b \<in> S \<Longrightarrow> \<bar>step_of a - step_of b\<bar> \<le> 1"
  shows "card S \<le> 2"
proof (cases "S = {}")
  case False
  define m where "m = Min (step_of ` S)"
  have "m \<in> step_of ` S" "\<forall>k \<in> step_of ` S. m \<le> k" using assms(1) False by (simp_all add: m_def)
  then have "step_of ` S \<subseteq> {m, m + 1}" using assms(2) by fastforce
  then have "card (step_of ` S) \<le> card {m, m + 1}" by (intro card_mono) auto
  moreover have "card (step_of ` S) = card S" by (rule card_image) (use step_of_inj in \<open>auto intro: inj_on_subset\<close>)
  ultimately show ?thesis by simp
qed simp

lemma blocked_attempts:
  "card {attempt \<in> {..<n}. \<exists>label \<in> set placed. boxes_overlap label (label_at zoom b attempt)} \<le> 2 * length placed"
proof (induction placed)
  case (Cons label placed)
  let ?B = "\<lambda>labels. {attempt \<in> {..<n}. \<exists>label \<in> set labels. boxes_overlap label (label_at zoom b attempt)}"
  have "?B (label # placed) = ?B [label] \<union> ?B placed" by auto
  moreover have "card (?B [label]) \<le> 2"
    by (intro card_blocked)
      (auto simp: boxes_overlap_def label_at_def label_offset_step intro!: blocked_steps [of "lb_y label" "gp_y (bu_position b) * zoom"])
  ultimately show ?case using Cons card_Un_le [of "?B [label]" "?B placed"] by simp
qed simp

text \<open>Among twice as many attempts as there are bubbles, and one more, some attempt is free.\<close>

lemma free_attempt:
  assumes "length placed < n"
  shows "\<exists>attempt < n * 2 + 1. \<not> list_ex (\<lambda>label. boxes_overlap label (label_at zoom b attempt)) placed"
proof (rule ccontr)
  assume "\<not> ?thesis"
  then have "{..<n * 2 + 1} = {attempt \<in> {..<n * 2 + 1}. \<exists>label \<in> set placed. boxes_overlap label (label_at zoom b attempt)}"
    by (auto simp: list_ex_iff)
  then have "n * 2 + 1 \<le> 2 * length placed"
    using blocked_attempts [of "n * 2 + 1" placed zoom b] by (metis card_lessThan)
  with assms show False by simp
qed

lemma find_attempt:
  "find (\<lambda>attempt. P attempt) [0..<n] = None \<longleftrightarrow> (\<forall>attempt < n. \<not> P attempt)"
  "find (\<lambda>attempt. P attempt) [0..<n] = Some k \<Longrightarrow> P k \<and> k < n"
  by (auto simp: find_None_iff find_Some_iff)

text \<open>
  What holds after every label: the entries are bubbles tried so far with the attempt that was free, their
  labels are apart, and each hovered or selected bubble has one.
\<close>

definition entries_ok :: "nat \<Rightarrow> real \<Rightarrow> bubble list \<Rightarrow> (bubble \<times> nat) list \<Rightarrow> bool" where
  "entries_ok n zoom tried entries \<longleftrightarrow>
     set (map fst entries) \<subseteq> set tried \<and> distinct (map (bu_id \<circ> fst) entries) \<and> length entries \<le> length tried \<and>
     labels_apart (map (\<lambda>(b, k). label_at zoom b k) entries) \<and>
     (\<forall>b \<in> set tried. bu_hovered b \<or> bu_selected b \<longrightarrow> b \<in> fst ` set entries) \<and>
     (\<forall>(b, k) \<in> set entries. k < label_attempts n b)"

definition labels_ok :: "nat \<Rightarrow> real \<Rightarrow> bubble list \<Rightarrow> label_box list \<times> (int \<times> real) list \<Rightarrow> bool" where
  "labels_ok n zoom tried r \<longleftrightarrow>
     (\<exists>entries. entries_ok n zoom tried entries \<and>
        r = (map (\<lambda>(b, k). label_at zoom b k) entries, map (\<lambda>(b, k). (bu_id b, label_offset k / zoom)) entries))"

lemma update_new: "k \<notin> fst ` set al \<Longrightarrow> AList.update k v al = al @ [(k, v)]"
  by (induction al) auto

lemma place_label_ok:
  assumes "labels_ok n zoom tried r" "length tried < n" "bu_id b \<notin> bu_id ` set tried"
  shows "labels_ok n zoom (tried @ [b]) (place_label n zoom b r)"
proof -
  obtain entries where ok: "entries_ok n zoom tried entries"
    and r: "r = (map (\<lambda>(b, k). label_at zoom b k) entries, map (\<lambda>(b, k). (bu_id b, label_offset k / zoom)) entries)"
    using assms(1) unfolding labels_ok_def by blast
  let ?placed = "map (\<lambda>(b, k). label_at zoom b k) entries"
  let ?free = "\<lambda>attempt. \<not> list_ex (\<lambda>label. boxes_overlap label (label_at zoom b attempt)) ?placed"
  show ?thesis
  proof (cases "find ?free [0..<label_attempts n b]")
    case None
    have "length ?placed < n" using ok assms(2) by (simp add: entries_ok_def)
    then have "\<not> bu_hovered b \<and> \<not> bu_selected b"
      using free_attempt [of ?placed n zoom b] None unfolding find_attempt(1) by (auto simp: label_attempts_def)
    then have "entries_ok n zoom (tried @ [b]) entries" using ok by (auto simp: entries_ok_def)
    moreover have "place_label n zoom b r = r" by (simp add: place_label_def r None)
    ultimately show ?thesis using r unfolding labels_ok_def by auto
  next
    case (Some attempt)
    have fresh: "bu_id b \<notin> (bu_id \<circ> fst) ` set entries"
      using ok assms(3) by (auto simp: entries_ok_def)
    have "entries_ok n zoom (tried @ [b]) (entries @ [(b, attempt)])"
      using ok find_attempt(2) [OF Some] fresh by (auto simp: entries_ok_def labels_apart_snoc list_ex_iff)
    moreover have "place_label n zoom b r = (?placed @ [label_at zoom b attempt],
        map (\<lambda>(b, k). (bu_id b, label_offset k / zoom)) entries @ [(bu_id b, label_offset attempt / zoom)])"
      using fresh by (subst update_new [symmetric]) (force simp: place_label_def r Some)+
    ultimately show ?thesis unfolding labels_ok_def by (intro exI [of _ "entries @ [(b, attempt)]"]) simp
  qed
qed

lemma fold_place_ok:
  "length tried + length bs \<le> n \<Longrightarrow> distinct (map bu_id (tried @ bs)) \<Longrightarrow> labels_ok n zoom tried r \<Longrightarrow>
    labels_ok n zoom (tried @ bs) (fold (place_label n zoom) bs r)"
proof (induction bs arbitrary: tried r)
  case (Cons b bs)
  then show ?case using Cons.IH [of "tried @ [b]" "place_label n zoom b r"] place_label_ok [of n zoom tried r b] by auto
qed simp

lemma distinct_ids_sorted: "distinct (map bu_id bubbles) \<Longrightarrow> distinct (map bu_id (js_sort label_order bubbles))"
  by (metis mset_eq_imp_distinct_iff mset_js_sort mset_map)

lemma topicLabelOffsets_entries:
  assumes "distinct (map bu_id bubbles)"
  obtains entries where "entries_ok (length bubbles) zoom bubbles entries"
    and "topicLabelOffsets bubbles zoom = map (\<lambda>(b, k). (bu_id b, label_offset k / zoom)) entries"
proof -
  have "labels_ok (length bubbles) zoom (js_sort label_order bubbles)
      (fold (place_label (length bubbles) zoom) (js_sort label_order bubbles) ([], []))"
    using fold_place_ok [of "[]" "js_sort label_order bubbles" "length bubbles" zoom "([], [])"] distinct_ids_sorted [OF assms]
    by (simp add: labels_ok_def entries_ok_def labels_apart_def)
  then show ?thesis using that unfolding labels_ok_def topicLabelOffsets_def by (auto simp: entries_ok_def)
qed

text \<open>The label that the graph draws for an offset.\<close>

definition drawn_label :: "real \<Rightarrow> bubble \<Rightarrow> real \<Rightarrow> label_box" where
  "drawn_label zoom b off =
     \<lparr>lb_x = gp_x (bu_position b) * zoom, lb_y = (gp_y (bu_position b) + off) * zoom, lb_width = label_width b\<rparr>"

lemma drawn_label_at: "zoom \<noteq> 0 \<Longrightarrow> drawn_label zoom b (label_offset k / zoom) = label_at zoom b k"
  by (simp add: drawn_label_def label_at_def distrib_right)

lemma boxes_overlap_commute: "boxes_overlap a b = boxes_overlap b a"
  by (auto simp: boxes_overlap_def abs_minus_commute add.commute)

lemma labels_apart_nth:
  "labels_apart boxes \<Longrightarrow> i < length boxes \<Longrightarrow> j < length boxes \<Longrightarrow> i \<noteq> j \<Longrightarrow> \<not> boxes_overlap (boxes ! i) (boxes ! j)"
  unfolding labels_apart_def sorted_wrt_iff_nth_less using boxes_overlap_commute by (metis nat_neq_iff)

text \<open>
  C19: the labels of the topic graph never overlap, every hovered or selected topic gets one, however crowded
  the graph is, and the label of any other topic stays at its bubble.
\<close>

theorem topic_labels_placed:
  fixes bubbles :: "bubble list" and zoom :: real
  assumes "distinct (map bu_id bubbles)" "zoom > 0"
  defines "offset_of \<equiv> \<lambda>b. map_of (topicLabelOffsets bubbles zoom) (bu_id b)"
  shows "(\<forall>b \<in> set bubbles. bu_hovered b \<or> bu_selected b \<longrightarrow> offset_of b \<noteq> None) \<and>
    (\<forall>b \<in> set bubbles. \<not> bu_hovered b \<and> \<not> bu_selected b \<longrightarrow> offset_of b \<in> {None, Some 0}) \<and>
    (\<forall>b \<in> set bubbles. \<forall>c \<in> set bubbles. \<forall>off off'. b \<noteq> c \<and> offset_of b = Some off \<and> offset_of c = Some off' \<longrightarrow>
       \<not> boxes_overlap (drawn_label zoom b off) (drawn_label zoom c off'))"
proof -
  obtain entries where ok: "entries_ok (length bubbles) zoom bubbles entries"
    and offsets: "topicLabelOffsets bubbles zoom = map (\<lambda>(b, k). (bu_id b, label_offset k / zoom)) entries"
    by (rule topicLabelOffsets_entries [OF assms(1)])
  have ids: "b = c" if "bu_id b = bu_id c" "b \<in> set bubbles" "c \<in> set bubbles" for b c
    using that assms(1) by (auto simp: distinct_map dest: inj_onD)
  have entry: "offset_of b = Some (label_offset k / zoom)" if "(b, k) \<in> set entries" for b k
    using that ok unfolding offset_of_def offsets entries_ok_def
    by (intro map_of_is_SomeI) (auto simp: comp_def split_def intro!: image_eqI [of _ _ "(b, k)"])
  have entry_of: "\<exists>k. (b, k) \<in> set entries \<and> off = label_offset k / zoom" if "b \<in> set bubbles" "offset_of b = Some off" for b off
    using that ok ids unfolding offset_of_def offsets entries_ok_def by (fastforce dest!: map_of_SomeD)
  have apart: "\<not> boxes_overlap (drawn_label zoom b off) (drawn_label zoom c off')"
    if bc: "b \<in> set bubbles" "c \<in> set bubbles" "b \<noteq> c" and offs: "offset_of b = Some off" "offset_of c = Some off'" for b c off off'
  proof -
    obtain k l where kl: "(b, k) \<in> set entries" "off = label_offset k / zoom" "(c, l) \<in> set entries" "off' = label_offset l / zoom"
      using entry_of [OF bc(1) offs(1)] entry_of [OF bc(2) offs(2)] by blast
    obtain i j where ij: "i < length entries" "entries ! i = (b, k)" "j < length entries" "entries ! j = (c, l)"
      using kl(1,3) by (auto simp: in_set_conv_nth)
    have "i \<noteq> j" using ij bc(3) by auto
    then have "\<not> boxes_overlap (label_at zoom b k) (label_at zoom c l)"
      using ok ij labels_apart_nth [of "map (\<lambda>(b, k). label_at zoom b k) entries" i j] by (simp add: entries_ok_def)
    then show ?thesis using kl(2,4) assms(2) by (simp add: drawn_label_at)
  qed
  have stays: "offset_of b \<in> {None, Some 0}" if "b \<in> set bubbles" "\<not> bu_hovered b" "\<not> bu_selected b" for b
  proof (cases "offset_of b")
    case (Some off)
    then show ?thesis
      using entry_of [OF that(1) Some] that ok by (auto simp: entries_ok_def label_attempts_def label_offset_def)
  qed simp
  have present: "offset_of b \<noteq> None" if "b \<in> set bubbles" "bu_hovered b \<or> bu_selected b" for b
    using that ok entry unfolding entries_ok_def by fastforce
  show ?thesis
    by (intro conjI ballI allI impI; (elim conjE)?; (rule present | rule stays | rule apart); assumption)
qed

definition example_bubble :: "int \<Rightarrow> bool \<Rightarrow> bubble" where
  "example_bubble i hovered =
     \<lparr>bu_id = i, bu_topic = \<lparr>tp_id = i, tp_words = [], tg_x = 0, tg_y = 0, tg_size = [], tg_total_size = 1\<rparr>,
      bu_position = \<lparr>gp_x = 0, gp_y = 0\<rparr>, bu_radius = 50, bu_fill = [], bu_fillOpacity = 1, bu_selected = False,
      bu_lassoed = False, bu_hovered = hovered, bu_filteredOut = False, bu_highlightedWords = []\<rparr>"

lemma topic_labels_placed_witness:
  "map_of (topicLabelOffsets [example_bubble 1 True, example_bubble 2 True] 1) 2 \<noteq> None"
proof -
  have "distinct (map bu_id [example_bubble 1 True, example_bubble 2 True])" by (simp add: example_bubble_def)
  from topic_labels_placed [OF this, of 1] show ?thesis by (simp add: example_bubble_def)
qed

end
