(* ===== verification/Row_Detail.thy ===== *)
theory Row_Detail
  imports "HOL-Library.While_Combinator" Prelude
begin

text \<open>
  Paging through the rows of a result in the detail panel,
  \<open>features/tools/common/components/useRowDetailDialog.ts\<close>: the selected row, the search for the next or
  previous row across pages that may be empty, and the return to the page it started from. The payload
  of a row is a function of its item. The effects of the hook are functions on the state that a render
  committed; a frame that is cancelled by a later render does nothing.
\<close>

subsection \<open>State\<close>

datatype direction = Previous_row | Next_row

record 'a row_selection =
  rw_item :: 'a
  rw_index :: nat
  rw_page :: int

record 'a pending_navigation =
  pn_direction :: direction
  pn_targetPage :: int
  pn_origin :: "'a row_selection"
  pn_restore :: bool
  pn_failure :: bool

record 'a row_dialog =
  dl_selection :: "'a row_selection option"
  dl_open :: bool
  dl_pending :: "'a pending_navigation option"
  dl_error :: "direction option"
  dl_exhausted :: "direction \<Rightarrow> bool"
  dl_requested :: "int option"
  dl_sequenceKey :: string

text \<open>The table's side: the properties of the hook.\<close>

record 'a row_view =
  vw_sequenceKey :: string
  vw_items :: "'a list"
  vw_page :: int
  vw_hasPrevious :: bool
  vw_hasNext :: bool
  vw_loading :: bool
  vw_error :: bool

definition not_exhausted :: "direction \<Rightarrow> bool" where
  "not_exhausted = (\<lambda>_. False)"

definition initial_dialog :: "string \<Rightarrow> 'a row_dialog" where
  "initial_dialog sequenceKey =
     \<lparr>dl_selection = None, dl_open = False, dl_pending = None, dl_error = None, dl_exhausted = not_exhausted,
      dl_requested = None, dl_sequenceKey = sequenceKey\<rparr>"

text \<open>The message of a failed navigation.\<close>

definition navigation_message :: "direction \<Rightarrow> string" where
  "navigation_message d = ''Could not load the '' @ (case d of Next_row \<Rightarrow> ''next'' | Previous_row \<Rightarrow> ''previous'') @ '' row.''"

subsection \<open>Operations\<close>

definition selectItem :: "'a \<Rightarrow> nat \<Rightarrow> int \<Rightarrow> 'a row_dialog \<Rightarrow> 'a row_dialog" where
  "selectItem item index selectedPage dl =
     dl\<lparr>dl_selection := Some \<lparr>rw_item = item, rw_index = index, rw_page = selectedPage\<rparr>,
        dl_exhausted := not_exhausted, dl_error := None\<rparr>"

definition openDetailAt :: "'a row_view \<Rightarrow> nat \<Rightarrow> 'a row_dialog \<Rightarrow> 'a row_dialog" where
  "openDetailAt vw index dl =
     (if index < length (vw_items vw)
      then (selectItem (vw_items vw ! index) index (vw_page vw) (dl\<lparr>dl_requested := None, dl_pending := None\<rparr>))\<lparr>dl_open := True\<rparr>
      else dl)"

definition page_step :: "direction \<Rightarrow> int" where
  "page_step d = (case d of Next_row \<Rightarrow> 1 | Previous_row \<Rightarrow> -1)"

definition requestAdjacentPage :: "direction \<Rightarrow> 'a row_selection \<Rightarrow> 'a row_dialog \<Rightarrow> 'a row_dialog" where
  "requestAdjacentPage d origin dl =
     dl\<lparr>dl_requested := None, dl_error := None,
        dl_pending := Some \<lparr>pn_direction = d, pn_targetPage = rw_page origin + page_step d, pn_origin = origin,
                            pn_restore = False, pn_failure = False\<rparr>\<rparr>"

definition goPrevious :: "'a row_view \<Rightarrow> 'a row_dialog \<Rightarrow> 'a row_dialog" where
  "goPrevious vw dl =
     (case (dl_selection dl, dl_pending dl) of
        (Some s, None) \<Rightarrow>
          if rw_page s = vw_page vw \<and> rw_index s > 0
          then (if rw_index s - 1 < length (vw_items vw)
                then selectItem (vw_items vw ! (rw_index s - 1)) (rw_index s - 1) (vw_page vw) dl else dl)
          else if \<not> dl_exhausted dl Previous_row \<and> rw_page s > 1 then requestAdjacentPage Previous_row s dl
          else dl
      | _ \<Rightarrow> dl)"

definition goNext :: "'a row_view \<Rightarrow> 'a row_dialog \<Rightarrow> 'a row_dialog" where
  "goNext vw dl =
     (case (dl_selection dl, dl_pending dl) of
        (Some s, None) \<Rightarrow>
          if rw_page s = vw_page vw \<and> rw_index s + 1 < length (vw_items vw)
          then selectItem (vw_items vw ! (rw_index s + 1)) (rw_index s + 1) (vw_page vw) dl
          else if \<not> dl_exhausted dl Next_row \<and> vw_hasNext vw then requestAdjacentPage Next_row s dl
          else dl
      | _ \<Rightarrow> dl)"

text \<open>Closing the panel gives the table its page back; the result is the state and the page requested.\<close>

definition setDetailOpen :: "bool \<Rightarrow> 'a row_dialog \<Rightarrow> 'a row_dialog \<times> int list" where
  "setDetailOpen opened dl =
     (if opened then (dl\<lparr>dl_open := True\<rparr>, [])
      else (dl\<lparr>dl_requested := None, dl_pending := None, dl_error := None, dl_open := False\<rparr>,
            case dl_pending dl of Some p \<Rightarrow> [rw_page (pn_origin p)] | None \<Rightarrow> []))"

subsection \<open>Effects\<close>

definition sequence_effect :: "'a row_view \<Rightarrow> 'a row_dialog \<Rightarrow> 'a row_dialog" where
  "sequence_effect vw dl =
     (if dl_sequenceKey dl = vw_sequenceKey vw then dl
      else dl\<lparr>dl_sequenceKey := vw_sequenceKey vw, dl_requested := None, dl_selection := None, dl_pending := None,
              dl_error := None, dl_exhausted := not_exhausted, dl_open := False\<rparr>)"

definition dispatch_effect :: "'a row_dialog \<Rightarrow> 'a row_dialog \<times> int list" where
  "dispatch_effect dl =
     (case dl_pending dl of
        Some p \<Rightarrow>
          if dl_requested dl = Some (pn_targetPage p) then (dl, [])
          else (dl\<lparr>dl_requested := Some (pn_targetPage p)\<rparr>, [pn_targetPage p])
      | None \<Rightarrow> (dl, []))"

definition give_up :: "'a pending_navigation \<Rightarrow> 'a row_dialog \<Rightarrow> 'a row_dialog" where
  "give_up p dl = dl\<lparr>dl_requested := None, dl_pending := None, dl_exhausted := (dl_exhausted dl)(pn_direction p := True)\<rparr>"

definition report_failure :: "'a pending_navigation \<Rightarrow> 'a row_dialog \<Rightarrow> 'a row_dialog" where
  "report_failure p dl = dl\<lparr>dl_requested := None, dl_pending := None, dl_error := Some (pn_direction p)\<rparr>"

definition retarget :: "'a pending_navigation \<Rightarrow> 'a row_dialog \<Rightarrow> 'a row_dialog" where
  "retarget p dl = dl\<lparr>dl_requested := None, dl_pending := Some p\<rparr>"

definition restore_origin :: "bool \<Rightarrow> 'a pending_navigation \<Rightarrow> 'a row_dialog \<Rightarrow> 'a row_dialog" where
  "restore_origin failure p =
     retarget (p\<lparr>pn_targetPage := rw_page (pn_origin p), pn_restore := True, pn_failure := failure\<rparr>)"

definition page_arrived :: "'a row_view \<Rightarrow> 'a pending_navigation \<Rightarrow> 'a row_dialog \<Rightarrow> 'a row_dialog" where
  "page_arrived vw p dl =
     (if pn_restore p then (if pn_failure p then report_failure p dl else give_up p dl)
      else if vw_error vw then
        (if vw_page vw = rw_page (pn_origin p) then report_failure p dl else restore_origin True p dl)
      else if vw_items vw \<noteq> [] then
        let index = (case pn_direction p of Next_row \<Rightarrow> 0 | Previous_row \<Rightarrow> length (vw_items vw) - 1)
        in (selectItem (vw_items vw ! index) index (vw_page vw) dl)\<lparr>dl_requested := None, dl_pending := None\<rparr>
      else if (case pn_direction p of Next_row \<Rightarrow> vw_hasNext vw | Previous_row \<Rightarrow> vw_hasPrevious vw)
      then retarget (p\<lparr>pn_targetPage := vw_page vw + page_step (pn_direction p)\<rparr>) dl
      else if vw_page vw = rw_page (pn_origin p) then give_up p dl
      else restore_origin False p dl)"

text \<open>The frame requested by the last effect.\<close>

definition frame_effect :: "'a row_view \<Rightarrow> 'a row_dialog \<Rightarrow> 'a row_dialog" where
  "frame_effect vw dl =
     (case dl_pending dl of
        Some p \<Rightarrow> if vw_loading vw \<or> vw_page vw \<noteq> pn_targetPage p then dl else page_arrived vw p dl
      | None \<Rightarrow> dl)"

definition canPrevious :: "'a row_view \<Rightarrow> 'a row_dialog \<Rightarrow> bool" where
  "canPrevious vw dl \<longleftrightarrow>
     (case (dl_selection dl, dl_pending dl) of
        (Some s, None) \<Rightarrow> \<not> dl_exhausted dl Previous_row \<and> (rw_page s = vw_page vw \<and> rw_index s > 0 \<or> rw_page s > 1)
      | _ \<Rightarrow> False)"

definition canNext :: "'a row_view \<Rightarrow> 'a row_dialog \<Rightarrow> bool" where
  "canNext vw dl \<longleftrightarrow>
     (case (dl_selection dl, dl_pending dl) of
        (Some s, None) \<Rightarrow>
          \<not> dl_exhausted dl Next_row \<and> (rw_page s = vw_page vw \<and> rw_index s + 1 < length (vw_items vw) \<or> vw_hasNext vw)
      | _ \<Rightarrow> False)"

subsection \<open>The table\<close>

text \<open>
  A table of pages \<open>1\<close> to \<open>n\<close>: loading a page gives its rows, or fails. A turn of the search commits the
  state, lets the table load the page that was asked for, and runs the frame.
\<close>

definition load_page :: "(int \<Rightarrow> 'a list option) \<Rightarrow> int \<Rightarrow> int \<Rightarrow> 'a row_view \<Rightarrow> 'a row_view" where
  "load_page pages n q vw =
     vw\<lparr>vw_page := q, vw_items := (case pages q of Some rows \<Rightarrow> rows | None \<Rightarrow> []), vw_error := (pages q = None),
        vw_hasPrevious := (q > 1), vw_hasNext := (q < n), vw_loading := False\<rparr>"

definition turn :: "(int \<Rightarrow> 'a list option) \<Rightarrow> int \<Rightarrow> 'a row_dialog \<times> 'a row_view \<Rightarrow> 'a row_dialog \<times> 'a row_view" where
  "turn pages n = (\<lambda>(dl, vw).
     let (dl', calls) = dispatch_effect (sequence_effect vw dl);
         vw' = fold (load_page pages n) calls vw
     in (frame_effect vw' dl', vw'))"

definition settle :: "(int \<Rightarrow> 'a list option) \<Rightarrow> int \<Rightarrow> 'a row_dialog \<times> 'a row_view \<Rightarrow> ('a row_dialog \<times> 'a row_view) option" where
  "settle pages n = while_option (\<lambda>(dl, vw). dl_pending dl \<noteq> None) (turn pages n)"

definition press :: "direction \<Rightarrow> 'a row_dialog \<times> 'a row_view \<Rightarrow> 'a row_dialog \<times> 'a row_view" where
  "press d = (\<lambda>(dl, vw). ((case d of Next_row \<Rightarrow> goNext vw dl | Previous_row \<Rightarrow> goPrevious vw dl), vw))"

text \<open>What the user asks for: the row beside the selected one in the order of all pages.\<close>

datatype 'a neighbour = Found int nat 'a | No_row | Load_failed

fun scan :: "direction \<Rightarrow> (int \<Rightarrow> 'a list option) \<Rightarrow> int list \<Rightarrow> 'a neighbour" where
  "scan d pages [] = No_row"
| "scan d pages (q # qs) =
     (case pages q of
        None \<Rightarrow> Load_failed
      | Some [] \<Rightarrow> scan d pages qs
      | Some rows \<Rightarrow>
          (case d of Next_row \<Rightarrow> Found q 0 (hd rows) | Previous_row \<Rightarrow> Found q (length rows - 1) (last rows)))"

definition pages_beyond :: "direction \<Rightarrow> int \<Rightarrow> int \<Rightarrow> int list" where
  "pages_beyond d n q = (case d of Next_row \<Rightarrow> [q + 1..n] | Previous_row \<Rightarrow> rev [1..q - 1])"

definition neighbour :: "direction \<Rightarrow> (int \<Rightarrow> 'a list option) \<Rightarrow> int \<Rightarrow> int \<Rightarrow> nat \<Rightarrow> 'a list \<Rightarrow> 'a neighbour" where
  "neighbour d pages n q i rows =
     (case d of
        Next_row \<Rightarrow> if i + 1 < length rows then Found q (i + 1) (rows ! (i + 1)) else scan d pages (pages_beyond d n q)
      | Previous_row \<Rightarrow> if i > 0 then Found q (i - 1) (rows ! (i - 1)) else scan d pages (pages_beyond d n q))"

subsection \<open>The search\<close>

lemma turn_pending:
  assumes "dl_pending dl = Some p" "dl_requested dl = None" "dl_sequenceKey dl = vw_sequenceKey vw"
  shows "turn pages n (dl, vw) =
    (page_arrived (load_page pages n (pn_targetPage p) vw) p (dl\<lparr>dl_requested := Some (pn_targetPage p)\<rparr>),
     load_page pages n (pn_targetPage p) vw)"
  using assms by (simp add: turn_def dispatch_effect_def sequence_effect_def frame_effect_def load_page_def Let_def)

lemma settle_turn:
  "dl_pending dl \<noteq> None \<Longrightarrow> settle pages n (dl, vw) = settle pages n (turn pages n (dl, vw))"
  unfolding settle_def by (subst while_option_unfold) auto

lemma settle_done: "dl_pending dl = None \<Longrightarrow> settle pages n (dl, vw) = Some (dl, vw)"
  unfolding settle_def by (subst while_option_unfold) simp

text \<open>The pages still to be searched, from the one that is asked for next.\<close>

definition pages_from :: "direction \<Rightarrow> int \<Rightarrow> int \<Rightarrow> int list" where
  "pages_from d n q = (case d of Next_row \<Rightarrow> [q..n] | Previous_row \<Rightarrow> rev [1..q])"

lemma pages_beyond_from: "pages_beyond d n q = pages_from d n (q + page_step d)"
  by (cases d) (simp_all add: pages_beyond_def pages_from_def page_step_def)

lemma pages_from_Cons:
  "1 \<le> q \<Longrightarrow> q \<le> n \<Longrightarrow> pages_from d n q = q # pages_beyond d n q"
  using upto_rec1 [of q n] upto_rec2 [of 1 q] by (cases d) (simp_all add: pages_beyond_def pages_from_def)

lemma pages_beyond_Nil:
  "pages_beyond d n q = [] \<longleftrightarrow> \<not> (case d of Next_row \<Rightarrow> q < n | Previous_row \<Rightarrow> q > 1)"
  by (cases d) (auto simp: pages_beyond_def)

text \<open>How a search ends: on the row, or back where it began.\<close>

definition ends :: "direction \<Rightarrow> (int \<Rightarrow> 'a list option) \<Rightarrow> int \<Rightarrow> 'a row_dialog \<Rightarrow> 'a row_selection \<Rightarrow> 'a neighbour \<Rightarrow>
    'a row_dialog \<times> 'a row_view \<Rightarrow> bool" where
  "ends d pages n dl s outcome r \<longleftrightarrow>
     (\<exists>dl' vw vw0. r = (dl', vw) \<and> dl_pending dl' = None \<and>
        (case outcome of
           Found q i x \<Rightarrow>
             dl_selection dl' = Some \<lparr>rw_item = x, rw_index = i, rw_page = q\<rparr> \<and> vw = load_page pages n q vw0 \<and> dl_error dl' = None
         | No_row \<Rightarrow>
             dl_selection dl' = dl_selection dl \<and> vw = load_page pages n (rw_page s) vw0 \<and> dl_exhausted dl' d \<and> dl_error dl' = dl_error dl
         | Load_failed \<Rightarrow>
             dl_selection dl' = dl_selection dl \<and> vw = load_page pages n (rw_page s) vw0 \<and> dl_error dl' = Some d))"

lemma settle_restore:
  assumes "dl_pending dl = Some \<lparr>pn_direction = d, pn_targetPage = rw_page s, pn_origin = s, pn_restore = True, pn_failure = failure\<rparr>"
    and "dl_requested dl = None" "dl_sequenceKey dl = vw_sequenceKey vw"
  shows "\<exists>r. settle pages n (dl, vw) = Some r \<and> ends d pages n dl s (if failure then Load_failed else No_row) r"
proof -
  have "settle pages n (dl, vw) = Some (turn pages n (dl, vw))"
    using assms(1) by (subst settle_turn)
      (auto simp: turn_pending [OF assms] page_arrived_def report_failure_def give_up_def intro!: settle_done)
  then show ?thesis
    by (auto simp: ends_def turn_pending [OF assms] page_arrived_def report_failure_def give_up_def)
qed

lemma ends_from:
  assumes "ends d pages n dl1 s outcome r" "dl_selection dl1 = dl_selection dl" "dl_error dl1 = dl_error dl"
  shows "ends d pages n dl s outcome r"
  using assms unfolding ends_def by (cases outcome) auto

lemma settle_restore_origin:
  assumes "pn_origin p = s" "pn_direction p = d" "dl_sequenceKey dl = vw_sequenceKey vw"
  shows "\<exists>r. settle pages n (restore_origin failure p dl, vw) = Some r \<and>
    ends d pages n dl s (if failure then Load_failed else No_row) r"
proof -
  let ?dl = "restore_origin failure p dl"
  have "dl_pending ?dl = Some \<lparr>pn_direction = d, pn_targetPage = rw_page s, pn_origin = s, pn_restore = True, pn_failure = failure\<rparr>"
    using assms(1,2) by (cases p) (simp add: restore_origin_def retarget_def)
  moreover have "dl_requested ?dl = None" "dl_sequenceKey ?dl = vw_sequenceKey vw"
    using assms(3) by (simp_all add: restore_origin_def retarget_def)
  ultimately obtain r where "settle pages n (?dl, vw) = Some r" "ends d pages n ?dl s (if failure then Load_failed else No_row) r"
    using settle_restore by blast
  moreover have "dl_selection ?dl = dl_selection dl" "dl_error ?dl = dl_error dl" by (simp_all add: restore_origin_def retarget_def)
  ultimately show ?thesis using ends_from by blast
qed

lemma settle_search:
  assumes "dl_pending dl = Some \<lparr>pn_direction = d, pn_targetPage = q, pn_origin = s, pn_restore = False, pn_failure = False\<rparr>"
    and "dl_requested dl = None" "dl_sequenceKey dl = vw_sequenceKey vw" "1 \<le> q" "q \<le> n" "rw_page s \<notin> set (pages_from d n q)"
  shows "\<exists>r. settle pages n (dl, vw) = Some r \<and> ends d pages n dl s (scan d pages (pages_from d n q)) r"
  using assms
proof (induction "length (pages_from d n q)" arbitrary: q dl vw)
  case 0
  then show ?case using pages_from_Cons [of q n d] by simp
next
  case (Suc m)
  let ?p = "\<lparr>pn_direction = d, pn_targetPage = q, pn_origin = s, pn_restore = False, pn_failure = False\<rparr>"
  let ?vw = "load_page pages n q vw" and ?dl = "dl\<lparr>dl_requested := Some q\<rparr>"
  have list: "pages_from d n q = q # pages_beyond d n q" by (rule pages_from_Cons [OF Suc.prems(4,5)])
  have apart: "rw_page s \<noteq> q" using Suc.prems(6) by (simp add: list)
  have settle: "settle pages n (dl, vw) = settle pages n (page_arrived ?vw ?p ?dl, ?vw)"
    using Suc.prems(1) by (subst settle_turn) (simp_all add: turn_pending [OF Suc.prems(1-3)])
  have key: "dl_sequenceKey dl = vw_sequenceKey ?vw" using Suc.prems(3) by (simp add: load_page_def)
  have restore: "\<exists>r. settle pages n (restore_origin failure ?p ?dl, ?vw) = Some r \<and>
      ends d pages n dl s (if failure then Load_failed else No_row) r" for failure
    using settle_restore_origin [of ?p s d ?dl ?vw pages n failure] key ends_from [of d pages n ?dl s _ _ dl] by fastforce
  show ?case
  proof (cases "pages q")
    case None
    then have "page_arrived ?vw ?p ?dl = restore_origin True ?p ?dl" using apart by (simp add: page_arrived_def load_page_def)
    then show ?thesis using settle restore [of True] None by (simp add: list)
  next
    case (Some rows)
    show ?thesis
    proof (cases rows)
      case (Cons x xs)
      let ?i = "case d of Next_row \<Rightarrow> 0 | Previous_row \<Rightarrow> length rows - 1"
      have arrived: "page_arrived ?vw ?p ?dl = (selectItem (rows ! ?i) ?i q ?dl)\<lparr>dl_requested := None, dl_pending := None\<rparr>"
        using Some Cons by (cases d) (simp_all add: page_arrived_def load_page_def Let_def)
      have "scan d pages (pages_from d n q) = Found q ?i (rows ! ?i)"
        unfolding list using Some Cons last_conv_nth [of rows] by (cases d) simp_all
      then have "ends d pages n dl s (scan d pages (pages_from d n q)) (page_arrived ?vw ?p ?dl, ?vw)"
        by (auto simp: ends_def arrived selectItem_def)
      moreover have "settle pages n (page_arrived ?vw ?p ?dl, ?vw) = Some (page_arrived ?vw ?p ?dl, ?vw)"
        by (rule settle_done) (simp add: arrived)
      ultimately show ?thesis unfolding settle by blast
    next
      case Nil
      show ?thesis
      proof (cases "pages_beyond d n q")
        case stop: Nil
        then have "page_arrived ?vw ?p ?dl = restore_origin False ?p ?dl"
          using apart Some Nil pages_beyond_Nil [of d n q] by (cases d) (simp_all add: page_arrived_def load_page_def)
        then show ?thesis using settle restore [of False] Some Nil stop by (simp add: list)
      next
        case (Cons q' qs)
        let ?next = "retarget (?p\<lparr>pn_targetPage := q + page_step d\<rparr>) ?dl"
        have go: "case d of Next_row \<Rightarrow> q < n | Previous_row \<Rightarrow> q > 1" using Cons pages_beyond_Nil [of d n q] by simp
        then have "page_arrived ?vw ?p ?dl = ?next" using Some Nil by (cases d) (simp_all add: page_arrived_def load_page_def)
        moreover obtain r where "settle pages n (?next, ?vw) = Some r" "ends d pages n ?next s (scan d pages (pages_from d n (q + page_step d))) r"
          using Suc.hyps(1) [of "q + page_step d" ?next ?vw] Suc.hyps(2) Suc.prems(4-6) go key
          by (auto simp: list pages_beyond_from retarget_def page_step_def split: direction.splits)
        moreover have "ends d pages n dl s (scan d pages (pages_from d n (q + page_step d))) r"
          using \<open>ends d pages n ?next s _ r\<close> by (rule ends_from) (simp_all add: retarget_def)
        ultimately show ?thesis using Some Nil settle by (simp add: list pages_beyond_from)
      qed
    qed
  qed
qed

subsection \<open>Properties\<close>

definition can_go :: "direction \<Rightarrow> 'a row_view \<Rightarrow> 'a row_dialog \<Rightarrow> bool" where
  "can_go d vw dl = (case d of Next_row \<Rightarrow> canNext vw dl | Previous_row \<Rightarrow> canPrevious vw dl)"

text \<open>A dialog at rest: it shows a row of the page that the table shows.\<close>

definition at_rest :: "(int \<Rightarrow> 'a list option) \<Rightarrow> int \<Rightarrow> 'a row_selection \<Rightarrow> 'a row_dialog \<Rightarrow> 'a row_view \<Rightarrow> bool" where
  "at_rest pages n s dl vw \<longleftrightarrow>
     dl_pending dl = None \<and> dl_selection dl = Some s \<and> dl_sequenceKey dl = vw_sequenceKey vw \<and>
     1 \<le> rw_page s \<and> rw_page s \<le> n \<and> vw_page vw = rw_page s \<and> pages (rw_page s) = Some (vw_items vw) \<and>
     rw_index s < length (vw_items vw) \<and> rw_item s = vw_items vw ! rw_index s \<and>
     vw_hasPrevious vw = (rw_page s > 1) \<and> vw_hasNext vw = (rw_page s < n)"

text \<open>What a press leads to.\<close>

definition arrives :: "direction \<Rightarrow> 'a row_selection \<Rightarrow> 'a neighbour \<Rightarrow> 'a row_dialog \<times> 'a row_view \<Rightarrow> bool" where
  "arrives d s outcome r \<longleftrightarrow>
     (case r of (dl, vw) \<Rightarrow>
        dl_pending dl = None \<and>
        (case outcome of
           Found q i x \<Rightarrow> dl_selection dl = Some \<lparr>rw_item = x, rw_index = i, rw_page = q\<rparr> \<and> vw_page vw = q \<and> dl_error dl = None
         | No_row \<Rightarrow> dl_selection dl = Some s \<and> vw_page vw = rw_page s \<and> \<not> can_go d vw dl
         | Load_failed \<Rightarrow> dl_selection dl = Some s \<and> vw_page vw = rw_page s \<and> dl_error dl = Some d))"

lemma ends_arrives: "ends d pages n dl s outcome r \<Longrightarrow> dl_selection dl = Some s \<Longrightarrow> arrives d s outcome r"
  by (cases outcome; cases d)
    (auto simp: ends_def arrives_def load_page_def can_go_def canNext_def canPrevious_def split: option.splits)

lemma press_search:
  assumes "at_rest pages n s dl vw" "case d of Next_row \<Rightarrow> rw_page s < n | Previous_row \<Rightarrow> rw_page s > 1"
  shows "\<exists>r. settle pages n (requestAdjacentPage d s dl, vw) = Some r \<and> arrives d s (scan d pages (pages_beyond d n (rw_page s))) r"
proof -
  let ?dl = "requestAdjacentPage d s dl"
  have "\<exists>r. settle pages n (?dl, vw) = Some r \<and> ends d pages n ?dl s (scan d pages (pages_from d n (rw_page s + page_step d))) r"
    using assms by (intro settle_search)
      (auto simp: requestAdjacentPage_def at_rest_def page_step_def pages_from_def split: direction.splits)
  moreover have "dl_selection ?dl = Some s" using assms(1) by (simp add: requestAdjacentPage_def at_rest_def)
  ultimately show ?thesis unfolding pages_beyond_from using ends_arrives by blast
qed

text \<open>
  C18: pressing next or previous in the detail panel ends, whatever pages are empty or fail to load: on the row
  beside the selected one in the order of all pages, or, when there is none or a page fails, on the same
  row with the table back on its page, and then the button is disabled or the failure is reported.
\<close>

theorem row_navigation_arrives:
  assumes "at_rest pages n s dl vw" "\<not> dl_exhausted dl d"
  shows "\<exists>r. settle pages n (press d (dl, vw)) = Some r \<and>
    arrives d s (neighbour d pages n (rw_page s) (rw_index s) (vw_items vw)) r"
proof -
  note rest = assms(1) [unfolded at_rest_def]
  let ?beside = "case d of Next_row \<Rightarrow> rw_index s + 1 < length (vw_items vw) | Previous_row \<Rightarrow> rw_index s > 0"
  let ?more = "case d of Next_row \<Rightarrow> rw_page s < n | Previous_row \<Rightarrow> rw_page s > 1"
  consider (same) ?beside | (beyond) "\<not> ?beside" ?more | (last) "\<not> ?beside" "\<not> ?more" by blast
  then show ?thesis
  proof cases
    case same
    then show ?thesis
      using rest by (cases d)
        (auto simp: press_def goNext_def goPrevious_def selectItem_def neighbour_def arrives_def intro!: exI settle_done)
  next
    case beyond
    have "press d (dl, vw) = (requestAdjacentPage d s dl, vw)"
      using rest beyond assms(2) by (cases d) (simp_all add: press_def goNext_def goPrevious_def)
    moreover have "neighbour d pages n (rw_page s) (rw_index s) (vw_items vw) = scan d pages (pages_beyond d n (rw_page s))"
      using beyond(1) by (cases d) (simp_all add: neighbour_def)
    ultimately show ?thesis using press_search [OF assms(1) beyond(2)] by simp
  next
    case last
    have "press d (dl, vw) = (dl, vw)" using rest last by (cases d) (simp_all add: press_def goNext_def goPrevious_def)
    moreover have "neighbour d pages n (rw_page s) (rw_index s) (vw_items vw) = No_row"
      using last by (cases d) (simp_all add: neighbour_def pages_beyond_def)
    moreover have "arrives d s No_row (dl, vw)"
      using rest last by (cases d) (simp_all add: arrives_def can_go_def canNext_def canPrevious_def)
    ultimately show ?thesis using rest by (auto intro: settle_done)
  qed
qed

definition example_pages :: "int \<Rightarrow> string list option" where
  "example_pages q = Some (if q = 1 then [''a''] else if q = 3 then [''b''] else [])"

definition example_row_view :: "string row_view" where
  "example_row_view =
     \<lparr>vw_sequenceKey = [], vw_items = [''a''], vw_page = 1, vw_hasPrevious = False, vw_hasNext = True, vw_loading = False, vw_error = False\<rparr>"

lemma row_navigation_arrives_witness:
  "map_option (dl_selection \<circ> fst) (settle example_pages 3 (press Next_row (openDetailAt example_row_view 0 (initial_dialog []), example_row_view))) =
     Some (Some \<lparr>rw_item = ''b'', rw_index = 0, rw_page = 3\<rparr>)"
proof -
  let ?dl = "openDetailAt example_row_view 0 (initial_dialog [])"
  have "at_rest example_pages 3 \<lparr>rw_item = ''a'', rw_index = 0, rw_page = 1\<rparr> ?dl example_row_view"
    by (simp add: at_rest_def openDetailAt_def selectItem_def initial_dialog_def example_row_view_def example_pages_def)
  moreover have "\<not> dl_exhausted ?dl Next_row"
    by (simp add: openDetailAt_def selectItem_def not_exhausted_def initial_dialog_def example_row_view_def)
  ultimately obtain r where r: "settle example_pages 3 (press Next_row (?dl, example_row_view)) = Some r"
    "arrives Next_row \<lparr>rw_item = ''a'', rw_index = 0, rw_page = 1\<rparr> (neighbour Next_row example_pages 3 1 0 [''a'']) r"
    using row_navigation_arrives [of example_pages 3 "\<lparr>rw_item = ''a'', rw_index = 0, rw_page = 1\<rparr>" ?dl example_row_view Next_row]
    by (auto simp: example_row_view_def)
  have "[2..3] = [2, 3 :: int]" by (simp add: upto_rec1)
  then have "neighbour Next_row example_pages 3 1 0 [''a''] = Found 3 0 ''b''"
    by (simp add: neighbour_def pages_beyond_def example_pages_def)
  with r show ?thesis by (simp add: arrives_def split: prod.splits)
qed

end
