(* ===== verification/Preferences.thy ===== *)
theory Preferences
  imports Complex_Main Prelude
begin

text \<open>
  The preferences of a window, \<open>features/preferences/preferences.ts\<close>: what the window shows, the chain of
  reads and patches that \<open>writer\<close> serializes, and the notifications of the host. The host keeps the
  preferences themselves; how it applies a patch is a parameter. A request is split where it is awaited:
  it is sent, the host handles it, its response arrives.
\<close>

subsection \<open>Data\<close>

record layout =
  ly_sidebarWidth :: rat
  ly_asidePanelRatio :: rat
  ly_projectGraphRatio :: rat

record guidance =
  gu_enabled :: bool
  gu_acknowledgments :: "string \<rightharpoonup> nat"

text \<open>The preferences of the host, in which two fields are optional, and those of the window.\<close>

record 'o preferences =
  pf_schemaVersion :: nat
  pf_theme :: string
  pf_layout :: layout
  pf_recentDataFiles :: "string list"
  pf_hiddenTools :: 'o
  pf_guidance :: guidance

record wire_preferences =
  wp_schemaVersion :: nat
  wp_theme :: string
  wp_layout :: layout
  wp_recentDataFiles :: "string list"
  wp_hiddenTools :: "string list option"
  wp_guidance :: "guidance option"

type_synonym window_preferences = "string list preferences"

definition defaultPreferences :: window_preferences where
  "defaultPreferences =
     \<lparr>pf_schemaVersion = 2, pf_theme = ''light-2026'',
      pf_layout = \<lparr>ly_sidebarWidth = 208, ly_asidePanelRatio = 3 / 10, ly_projectGraphRatio = 1 / 2\<rparr>,
      pf_recentDataFiles = [], pf_hiddenTools = [], pf_guidance = \<lparr>gu_enabled = True, gu_acknowledgments = Map.empty\<rparr>\<rparr>"

definition accepted :: "wire_preferences \<Rightarrow> window_preferences" where
  "accepted w =
     \<lparr>pf_schemaVersion = wp_schemaVersion w, pf_theme = wp_theme w, pf_layout = wp_layout w,
      pf_recentDataFiles = wp_recentDataFiles w,
      pf_hiddenTools = (case wp_hiddenTools w of Some ts \<Rightarrow> ts | None \<Rightarrow> []),
      pf_guidance = (case wp_guidance w of Some g \<Rightarrow> g | None \<Rightarrow> pf_guidance defaultPreferences)\<rparr>"

datatype layout_key = SidebarWidth | AsidePanelRatio | ProjectGraphRatio

definition layoutKey :: "string option \<Rightarrow> layout_key option" where
  "layoutKey key =
     (if key = Some ''ldaca.layout.sidebarWidth'' then Some SidebarWidth
      else if key = Some ''ldaca.layout.asidePanelRatio'' then Some AsidePanelRatio
      else if key = Some ''ldaca.layout.projectGraphRatio'' then Some ProjectGraphRatio
      else None)"

subsection \<open>The window\<close>

text \<open>
  The jobs chained on \<open>writer\<close>; the first of the list is the one whose turn it is, and \<open>phase\<close> says how far
  it is.
\<close>

datatype 'q job = Initial_read | Read | Patch 'q

datatype phase = Not_sent | Sent | Answered wire_preferences nat

record 'q prefs_window =
  pw_current :: window_preferences
  pw_revision :: nat
  pw_ready :: bool
  pw_subscribed :: bool
  pw_jobs :: "'q job list"
  pw_phase :: phase
  pw_failures :: nat

definition initial_window :: "'q prefs_window" where
  "initial_window =
     \<lparr>pw_current = defaultPreferences, pw_revision = 0, pw_ready = False, pw_subscribed = False, pw_jobs = [],
      pw_phase = Not_sent, pw_failures = 0\<rparr>"

text \<open>\<open>pw_revision\<close> is the revision of the host's preferences that the window shows.\<close>

definition acceptPreferences :: "wire_preferences \<Rightarrow> nat \<Rightarrow> 'q prefs_window \<Rightarrow> 'q prefs_window" where
  "acceptPreferences w revision pw = pw\<lparr>pw_current := accepted w, pw_revision := revision\<rparr>"

definition chain :: "'q job \<Rightarrow> 'q prefs_window \<Rightarrow> 'q prefs_window" where
  "chain j pw = pw\<lparr>pw_jobs := pw_jobs pw @ [j]\<rparr>"

definition refreshPreferences :: "'q prefs_window \<Rightarrow> 'q prefs_window" where
  "refreshPreferences = chain Read"

definition patchPreferences :: "'q \<Rightarrow> 'q prefs_window \<Rightarrow> 'q prefs_window" where
  "patchPreferences patch = chain (Patch patch)"

definition initializePreferences :: "'q prefs_window \<Rightarrow> 'q prefs_window" where
  "initializePreferences pw = chain Initial_read (pw\<lparr>pw_ready := False, pw_subscribed := True\<rparr>)"

text \<open>The first job's request is sent, unless the preferences were never loaded.\<close>

definition job_ended :: "'q prefs_window \<Rightarrow> 'q prefs_window" where
  "job_ended pw = pw\<lparr>pw_jobs := tl (pw_jobs pw), pw_phase := Not_sent\<rparr>"

definition job_failed :: "'q prefs_window \<Rightarrow> 'q prefs_window" where
  "job_failed pw =
     job_ended (pw\<lparr>pw_failures := pw_failures pw + 1,
       pw_subscribed := (case pw_jobs pw of Initial_read # _ \<Rightarrow> False | _ \<Rightarrow> pw_subscribed pw)\<rparr>)"

definition send_job :: "'q prefs_window \<Rightarrow> 'q prefs_window" where
  "send_job pw =
     (case pw_jobs pw of
        Patch patch # _ \<Rightarrow> if pw_ready pw then pw\<lparr>pw_phase := Sent\<rparr> else job_failed pw
      | _ \<Rightarrow> pw\<lparr>pw_phase := Sent\<rparr>)"

definition job_succeeded :: "wire_preferences \<Rightarrow> nat \<Rightarrow> 'q prefs_window \<Rightarrow> 'q prefs_window" where
  "job_succeeded w revision pw =
     (let pw' = acceptPreferences w revision pw in
      job_ended (pw'\<lparr>pw_ready := (case pw_jobs pw of Initial_read # _ \<Rightarrow> True | _ \<Rightarrow> pw_ready pw)\<rparr>))"

subsection \<open>The window and the host\<close>

record 'q world =
  wo_window :: "'q prefs_window"
  wo_host :: wire_preferences
  wo_revision :: nat
  wo_notices :: nat

datatype 'q world_event =
    Initialized
  | Patched 'q
  | Job_sent
  | Host_handled bool
  | Response_arrived
  | Request_failed
  | Other_patched 'q
  | Notified

definition patch_host :: "('q \<Rightarrow> wire_preferences \<Rightarrow> wire_preferences) \<Rightarrow> 'q \<Rightarrow> 'q world \<Rightarrow> 'q world" where
  "patch_host patching q wo = wo\<lparr>wo_host := patching q (wo_host wo), wo_revision := wo_revision wo + 1\<rparr>"

text \<open>The host handles the request that was sent; it may notify the window of its own patch as well.\<close>

definition host_handles :: "('q \<Rightarrow> wire_preferences \<Rightarrow> wire_preferences) \<Rightarrow> bool \<Rightarrow> 'q world \<Rightarrow> 'q world" where
  "host_handles patching notice wo =
     (let wo' = (case pw_jobs (wo_window wo) of
            Patch q # _ \<Rightarrow> (patch_host patching q wo)\<lparr>wo_notices := wo_notices wo + (if notice then 1 else 0)\<rparr> | _ \<Rightarrow> wo)
      in wo'\<lparr>wo_window := (wo_window wo)\<lparr>pw_phase := Answered (wo_host wo') (wo_revision wo')\<rparr>\<rparr>)"

inductive world_step ::
    "('q \<Rightarrow> wire_preferences \<Rightarrow> wire_preferences) \<Rightarrow> 'q world \<Rightarrow> 'q world_event \<Rightarrow> 'q world \<Rightarrow> bool"
  for patching :: "'q \<Rightarrow> wire_preferences \<Rightarrow> wire_preferences" where
  initialized: "\<not> pw_subscribed (wo_window wo) \<Longrightarrow>
    world_step patching wo Initialized (wo\<lparr>wo_window := initializePreferences (wo_window wo)\<rparr>)"
| patched: "world_step patching wo (Patched q) (wo\<lparr>wo_window := patchPreferences q (wo_window wo)\<rparr>)"
| job_sent: "pw_jobs (wo_window wo) \<noteq> [] \<Longrightarrow> pw_phase (wo_window wo) = Not_sent \<Longrightarrow>
    world_step patching wo Job_sent (wo\<lparr>wo_window := send_job (wo_window wo)\<rparr>)"
| host_handled: "pw_phase (wo_window wo) = Sent \<Longrightarrow> world_step patching wo (Host_handled notice) (host_handles patching notice wo)"
| response_arrived: "pw_phase (wo_window wo) = Answered w revision \<Longrightarrow>
    world_step patching wo Response_arrived (wo\<lparr>wo_window := job_succeeded w revision (wo_window wo)\<rparr>)"
| request_failed: "pw_phase (wo_window wo) \<noteq> Not_sent \<Longrightarrow>
    world_step patching wo Request_failed (wo\<lparr>wo_window := job_failed (wo_window wo)\<rparr>)"
| other_patched: "world_step patching wo (Other_patched q)
    ((patch_host patching q wo)\<lparr>wo_notices := wo_notices wo + (if pw_subscribed (wo_window wo) then 1 else 0)\<rparr>)"
| notified: "wo_notices wo > 0 \<Longrightarrow>
    world_step patching wo Notified (wo\<lparr>wo_notices := wo_notices wo - 1, wo_window := refreshPreferences (wo_window wo)\<rparr>)"

inductive world_reachable ::
    "('q \<Rightarrow> wire_preferences \<Rightarrow> wire_preferences) \<Rightarrow> wire_preferences \<Rightarrow> 'q world \<Rightarrow> bool"
  for patching :: "'q \<Rightarrow> wire_preferences \<Rightarrow> wire_preferences" and host :: wire_preferences where
  world_started: "world_reachable patching host \<lparr>wo_window = initial_window, wo_host = host, wo_revision = 1, wo_notices = 0\<rparr>"
| world_stepped: "world_reachable patching host wo \<Longrightarrow> world_step patching wo event wo' \<Longrightarrow> world_reachable patching host wo'"

inductive_cases world_stepE: "world_step patching wo event wo'"

subsection \<open>The invariant\<close>

text \<open>The jobs that the host has not handled yet.\<close>

definition unhandled :: "'q prefs_window \<Rightarrow> 'q job list" where
  "unhandled pw = (case pw_phase pw of Answered _ _ \<Rightarrow> tl (pw_jobs pw) | _ \<Rightarrow> pw_jobs pw)"

text \<open>The revision the window will show once the response that is under way has arrived.\<close>

definition coming_revision :: "'q prefs_window \<Rightarrow> nat" where
  "coming_revision pw = (case pw_phase pw of Answered _ r \<Rightarrow> r | _ \<Rightarrow> pw_revision pw)"

definition shows_revision :: "'q world \<Rightarrow> window_preferences \<Rightarrow> nat \<Rightarrow> bool" where
  "shows_revision wo prefs r \<longleftrightarrow> r \<le> wo_revision wo \<and> (r = wo_revision wo \<longrightarrow> prefs = accepted (wo_host wo))"

definition world_ok :: "'q world \<Rightarrow> bool" where
  "world_ok wo \<longleftrightarrow>
     shows_revision wo (pw_current (wo_window wo)) (pw_revision (wo_window wo)) \<and>
     (\<forall>w r. pw_phase (wo_window wo) = Answered w r \<longrightarrow> shows_revision wo (accepted w) r \<and> pw_revision (wo_window wo) \<le> r) \<and>
     (pw_phase (wo_window wo) \<noteq> Not_sent \<longrightarrow> pw_jobs (wo_window wo) \<noteq> []) \<and>
     (pw_subscribed (wo_window wo) \<and> pw_failures (wo_window wo) = 0 \<and> wo_notices wo = 0 \<and> unhandled (wo_window wo) = [] \<longrightarrow>
        coming_revision (wo_window wo) = wo_revision wo)"

lemmas window_ops =
  chain_def refreshPreferences_def patchPreferences_def initializePreferences_def job_ended_def job_failed_def
  send_job_def job_succeeded_def acceptPreferences_def patch_host_def host_handles_def

lemma world_step_ok: "world_step patching wo event wo' \<Longrightarrow> world_ok wo \<Longrightarrow> world_ok wo'"
proof (induction rule: world_step.induct)
  case (host_handled wo notice)
  then show ?case
    by (cases "pw_jobs (wo_window wo)"; cases "hd (pw_jobs (wo_window wo))")
      (auto simp: world_ok_def shows_revision_def window_ops unhandled_def coming_revision_def Let_def)
next
  case (response_arrived wo w revision)
  then show ?case by (auto simp: world_ok_def shows_revision_def window_ops unhandled_def coming_revision_def Let_def)
next
  case (other_patched wo q)
  then show ?case
    by (auto simp: world_ok_def shows_revision_def window_ops unhandled_def coming_revision_def le_Suc_eq)
next
  case (job_sent wo)
  then show ?case
    by (auto simp: world_ok_def shows_revision_def window_ops unhandled_def coming_revision_def split: list.split job.split)
qed (auto simp: world_ok_def shows_revision_def window_ops unhandled_def coming_revision_def split: phase.splits)

lemma world_reachable_ok: "world_reachable patching host wo \<Longrightarrow> world_ok wo"
  by (induction rule: world_reachable.induct)
    (auto simp: world_step_ok, auto simp: world_ok_def shows_revision_def initial_window_def)

lemma world_step_revision:
  "world_step patching wo event wo' \<Longrightarrow> world_ok wo \<Longrightarrow> pw_revision (wo_window wo) \<le> pw_revision (wo_window wo')"
proof (induction rule: world_step.induct)
  case (job_sent wo)
  then show ?case by (auto simp: window_ops split: list.split job.split)
qed (auto simp: world_ok_def window_ops Let_def split: list.split job.split)

subsection \<open>Properties\<close>

text \<open>Nothing is under way between the window and the host.\<close>

definition settled :: "'q world \<Rightarrow> bool" where
  "settled wo \<longleftrightarrow>
     pw_subscribed (wo_window wo) \<and> pw_failures (wo_window wo) = 0 \<and> pw_jobs (wo_window wo) = [] \<and> wo_notices wo = 0"

text \<open>
  C20: the window never goes back to preferences older than those it shows, and once its jobs and the host's
  notifications are done, and none failed, it shows the host's preferences, whoever changed them.
\<close>

theorem window_follows_host:
  assumes "world_reachable patching host wo"
  shows "(world_step patching wo event wo' \<longrightarrow> pw_revision (wo_window wo) \<le> pw_revision (wo_window wo')) \<and>
    (settled wo \<longrightarrow> pw_current (wo_window wo) = accepted (wo_host wo))"
proof -
  have ok: "world_ok wo" by (rule world_reachable_ok [OF assms])
  have "pw_current (wo_window wo) = accepted (wo_host wo)" if "settled wo"
  proof -
    have "pw_phase (wo_window wo) = Not_sent" using ok that by (auto simp: world_ok_def settled_def)
    then have "pw_revision (wo_window wo) = wo_revision wo"
      using ok that by (simp add: world_ok_def settled_def unhandled_def coming_revision_def)
    then show ?thesis using ok by (simp add: world_ok_def shows_revision_def)
  qed
  with world_step_revision [OF _ ok] show ?thesis by blast
qed

definition example_host :: wire_preferences where
  "example_host =
     \<lparr>wp_schemaVersion = 2, wp_theme = ''dark'', wp_layout = pf_layout defaultPreferences, wp_recentDataFiles = [],
      wp_hiddenTools = None, wp_guidance = None\<rparr>"

definition example_world :: "unit world" where
  "example_world =
     \<lparr>wo_window = job_succeeded example_host 1 ((initializePreferences initial_window)\<lparr>pw_phase := Answered example_host 1\<rparr>),
      wo_host = example_host, wo_revision = 1, wo_notices = 0\<rparr>"

lemma example_world_reachable: "world_reachable (\<lambda>_ w. w) example_host example_world"
proof -
  let ?w0 = "initial_window :: unit prefs_window" and ?p = "\<lambda>(_ :: unit) w. w"
  let ?wo = "\<lambda>w. \<lparr>wo_window = w, wo_host = example_host, wo_revision = 1, wo_notices = 0\<rparr>"
  have "world_reachable ?p example_host (?wo ?w0)" by (rule world_started)
  moreover have "world_step ?p (?wo ?w0) Initialized (?wo (initializePreferences ?w0))"
    using initialized [of "?wo ?w0" ?p] by (simp add: initial_window_def)
  moreover have "world_step ?p (?wo (initializePreferences ?w0)) Job_sent (?wo ((initializePreferences ?w0)\<lparr>pw_phase := Sent\<rparr>))"
    using job_sent [of "?wo (initializePreferences ?w0)" ?p] by (simp add: initial_window_def window_ops)
  moreover have "world_step ?p (?wo ((initializePreferences ?w0)\<lparr>pw_phase := Sent\<rparr>)) (Host_handled False)
      (?wo ((initializePreferences ?w0)\<lparr>pw_phase := Answered example_host 1\<rparr>))"
    using host_handled [of "?wo ((initializePreferences ?w0)\<lparr>pw_phase := Sent\<rparr>)" ?p False] by (simp add: initial_window_def window_ops)
  moreover have "world_step ?p (?wo ((initializePreferences ?w0)\<lparr>pw_phase := Answered example_host 1\<rparr>)) Response_arrived example_world"
    using response_arrived [of "?wo ((initializePreferences ?w0)\<lparr>pw_phase := Answered example_host 1\<rparr>)" example_host 1 ?p]
    by (simp add: example_world_def)
  ultimately show ?thesis by (blast intro: world_stepped)
qed

lemma window_follows_host_witness: "pw_current (wo_window example_world) = accepted example_host"
proof -
  have "settled example_world" "wo_host example_world = example_host"
    by (simp_all add: settled_def example_world_def window_ops initial_window_def Let_def)
  then show ?thesis using window_follows_host [OF example_world_reachable, of Notified example_world] by simp
qed

end
