(* ===== verification/Tree_Moves.thy ===== *)
theory Tree_Moves
  imports Expression_Tree
begin

text \<open>
  Where \<open>moveExpression\<close> of \<open>preprocessing/build/expressionTree.ts\<close> puts a token: exactly into the gap between two
  children of a container that it is moved to, and a move to the place where the token already is changes nothing.
\<close>

text \<open>The children of a container; only a combination has children.\<close>

definition children_at :: "build_token list \<Rightarrow> string option \<Rightarrow> build_token list option" where
  "children_at nodes parent =
     (case parent of
        None \<Rightarrow> Some nodes
      | Some p \<Rightarrow> (case findExpression nodes p of
          Some node \<Rightarrow> if is_combination node then Some (sub_nodes node) else None
        | None \<Rightarrow> None))"

subsection \<open>Landing in a gap\<close>

lemma location_reparent:
  "location_from nodes target q k =
     (case location_from nodes target None k of Some (None, i) \<Rightarrow> Some (q, i) | other \<Rightarrow> other)"
proof (induction nodes arbitrary: k)
  case (Cons node rest)
  show ?case
    using Cons [of "Suc k"] location_child [of "sub_nodes node" target "tok_id node" 0]
    by (auto split: option.split)
qed simp

text \<open>A location below the root level names the child of a container.\<close>

lemma location_in_container:
  "distinct (forest_ids nodes) \<Longrightarrow> location_from nodes target None k = Some (Some p, i) \<Longrightarrow>
   \<exists>q. findExpression nodes p = Some q \<and> is_combination q \<and> i < length (sub_nodes q) \<and> tok_id (sub_nodes q ! i) = target"
proof (induction nodes arbitrary: k rule: forest_induct)
  case (Cons node rest)
  have ne: "tok_id node \<noteq> target" using Cons.prems by auto
  show ?case
  proof (cases "location_from (sub_nodes node) target None 0")
    case None
    then have below: "location_from rest target None (Suc k) = Some (Some p, i)"
      using Cons.prems ne location_reparent [of "sub_nodes node" target "Some (tok_id node)" 0] by simp
    have "distinct (forest_ids rest)" using Cons.prems by simp
    from Cons.IH(2) [OF this below] obtain q where q: "findExpression rest p = Some q \<and> is_combination q \<and>
        i < length (sub_nodes q) \<and> tok_id (sub_nodes q ! i) = target" by blast
    then have "p \<in> set (forest_ids rest)" using find_mem by blast
    then have "p \<noteq> tok_id node" "findExpression (sub_nodes node) p = None"
      using Cons.prems by (auto simp: findExpression_None_iff)
    then show ?thesis using q by auto
  next
    case (Some l)
    obtain q' j where l: "l = (q', j)" by force
    show ?thesis
    proof (cases q')
      case None
      then have "p = tok_id node" "i = j"
        using Some l Cons.prems ne location_reparent [of "sub_nodes node" target "Some (tok_id node)" 0] by auto
      moreover have "is_combination node" using Some by (cases node) (auto simp: is_combination_def)
      ultimately show ?thesis using location_root [of "sub_nodes node" target 0 j] Some l None by auto
    next
      case (Some p')
      then have "location_from (sub_nodes node) target None 0 = Some (Some p, i)"
        using \<open>location_from (sub_nodes node) target None 0 = Some l\<close> l Cons.prems ne
          location_reparent [of "sub_nodes node" target "Some (tok_id node)" 0] by auto
      then obtain q where q: "findExpression (sub_nodes node) p = Some q \<and> is_combination q \<and>
          i < length (sub_nodes q) \<and> tok_id (sub_nodes q ! i) = target"
        using Cons.IH(1) Cons.prems by auto
      then have "p \<in> set (forest_ids (sub_nodes node))" using find_mem by blast
      then show ?thesis using q Cons.prems by auto
    qed
  qed
qed simp

lemma root_id_mem: "m \<in> set ms \<Longrightarrow> tok_id m \<in> set (forest_ids ms)"
  by (induction ms) auto

lemma location_root_child:
  "m \<in> set ms \<Longrightarrow> distinct (forest_ids ms) \<Longrightarrow> \<exists>i. location_from ms (tok_id m) parent k = Some (parent, i)"
proof (induction ms arbitrary: k)
  case (Cons a ms)
  have "location_from (sub_nodes a) (tok_id m) (Some (tok_id a)) 0 = None" if "m \<in> set ms"
    using root_id_mem [OF that] Cons.prems by (auto simp: location_None_iff)
  then show ?case using Cons by auto
qed simp

lemma location_of_child:
  "distinct (forest_ids nodes) \<Longrightarrow> findExpression nodes p = Some q \<Longrightarrow> n \<in> set (sub_nodes q) \<Longrightarrow>
   \<exists>i. location_from nodes (tok_id n) None k = Some (Some p, i)"
proof (induction nodes arbitrary: k rule: forest_induct)
  case (Cons node rest)
  have below: "q' \<in> set (forest_ids ns)" if "findExpression ns p = Some q" "q' = tok_id n" for ns q'
    using find_ids [OF that(1)] root_id_mem [OF Cons.prems(3)] that(2) by (auto simp: token_ids_forest)
  show ?case
  proof (cases "tok_id node = p")
    case True
    then have q: "q = node" using Cons.prems by simp
    have "tok_id n \<in> set (forest_ids (sub_nodes node))" using root_id_mem [OF Cons.prems(3)] q by simp
    moreover from this have "tok_id node \<noteq> tok_id n" using Cons.prems by auto
    moreover obtain i where "location_from (sub_nodes node) (tok_id n) (Some p) 0 = Some (Some p, i)"
      using location_root_child [of n "sub_nodes node" "Some p" 0] q Cons.prems by auto
    ultimately show ?thesis using True by simp
  next
    case False
    show ?thesis
    proof (cases "findExpression (sub_nodes node) p")
      case None
      then have r: "findExpression rest p = Some q" using False Cons.prems by simp
      have "tok_id n \<in> set (forest_ids rest)" using below [OF r] by simp
      then have "tok_id node \<noteq> tok_id n" "location_from (sub_nodes node) (tok_id n) (Some (tok_id node)) 0 = None"
        using Cons.prems by (auto simp: location_None_iff)
      then show ?thesis using Cons.IH(2) [OF _ r Cons.prems(3), of "Suc k"] Cons.prems by auto
    next
      case (Some q')
      then have r: "findExpression (sub_nodes node) p = Some q" using False Cons.prems by simp
      have "tok_id node \<noteq> tok_id n" using below [OF r] Cons.prems by auto
      then show ?thesis
        using Cons.IH(1) [OF _ r Cons.prems(3), of 0] Cons.prems
          location_reparent [of "sub_nodes node" "tok_id n" "Some (tok_id node)" 0] by auto
    qed
  qed
qed simp

lemma find_updated:
  "(\<And>n. tok_id (f n) = tok_id n) \<Longrightarrow> findExpression nodes p = Some q \<Longrightarrow>
   findExpression (updateExpression nodes p f) p = Some (f q)"
proof (induction nodes rule: forest_induct)
  case (Cons node rest)
  show ?case
  proof (cases "tok_id node = p")
    case False
    show ?thesis
    proof (cases "findExpression (sub_nodes node) p")
      case None
      then have "updateExpression (sub_nodes node) p f = sub_nodes node"
        by (simp add: findExpression_None_iff update_absent)
      then show ?thesis using None False Cons by (simp add: sub_with_children)
    next
      case (Some q')
      then show ?thesis using False Cons by (simp add: sub_with_children)
    qed
  qed (use Cons in simp)
qed simp

lemma find_distinct: "distinct (forest_ids nodes) \<Longrightarrow> findExpression nodes p = Some q \<Longrightarrow> distinct (forest_ids (sub_nodes q))"
proof (induction nodes rule: forest_induct)
  case (Cons node rest)
  then show ?case by (auto split: if_split_asm option.split_asm)
qed simp

lemma children_gap_slot:
  assumes "distinct (forest_ids nodes)" and "children_at nodes parent = Some children"
    and "expressionLocation nodes target = Some (q, i)" and "gap \<le> length children"
  shows "(if q = parent \<and> int i < int gap then int gap - 1 else int gap) =
    int (length (removeExpression (take gap children) target))"
proof (cases parent)
  case None
  then show ?thesis
  proof (cases q)
    case None
    then show ?thesis
      using assms \<open>parent = None\<close> location_root [of nodes target 0 i]
        removed_before [OF distinct_root_ids [OF assms(1)], of i target gap]
      by (auto simp: children_at_def expressionLocation_def)
  next
    case (Some p)
    then show ?thesis
      using assms \<open>parent = None\<close> location_below [OF assms(1)] removed_before_none
      by (auto simp: children_at_def expressionLocation_def)
  qed
next
  case (Some p)
  then obtain node where node: "findExpression nodes p = Some node" "is_combination node" "children = sub_nodes node"
    using assms(2) by (auto simp: children_at_def split: option.split_asm if_split_asm)
  have d: "distinct (map tok_id children)" using distinct_root_ids find_distinct assms(1) node by blast
  show ?thesis
  proof (cases "q = parent")
    case True
    then show ?thesis
      using location_in_container [OF assms(1), of target 0 p i] assms(3,4) node Some removed_before [OF d, of i target gap]
      by (auto simp: expressionLocation_def)
  next
    case False
    then have "\<forall>n \<in> set children. tok_id n \<noteq> target"
      using location_of_child [OF assms(1) node(1), of _ 0] node(3) assms(3) Some by (fastforce simp: expressionLocation_def)
    then show ?thesis using False removed_before_none assms(4) by simp
  qed
qed

text \<open>
  A move puts the expression exactly into the gap of the container: what was before the gap stays before it, also when
  the expression comes from the same container and its removal shifts the indices.
\<close>

lemma moveExpression_to_gap:
  assumes d: "distinct (forest_ids nodes)" and e: "findExpression nodes target = Some expression"
    and c: "children_at nodes parent = Some children" and outside: "\<forall>p. parent = Some p \<longrightarrow> p \<notin> set (token_ids expression)"
    and gap: "gap \<le> length children"
  shows "children_at (moveExpression nodes target parent (int gap)) parent =
    Some (removeExpression (take gap children) target @ expression # removeExpression (drop gap children) target)"
proof -
  obtain q i where loc: "expressionLocation nodes target = Some (q, i)"
    using find_mem [OF e] location_None_iff [of nodes target None 0] by (auto simp: expressionLocation_def)
  let ?slot = "int (length (removeExpression (take gap children) target))"
  have split: "removeExpression children target =
      removeExpression (take gap children) target @ removeExpression (drop gap children) target"
    by (metis append_take_drop_id remove_append)
  have target: "tok_id expression = target" by (rule find_tok_id [OF e])
  have allowed: "parent = Some p \<Longrightarrow> is_combination_at nodes p \<and> p \<notin> set (token_ids expression)" for p
    using c outside by (auto simp: children_at_def is_combination_at_def split: option.split_asm if_split_asm)
  then have "findExpression [expression] p = None" if "parent = Some p" for p
    using that by (simp add: findExpression_None_iff token_ids_forest del: find_Cons)
  then have move: "moveExpression nodes target parent (int gap) =
      insertExpression (removeExpression nodes target) parent ?slot expression"
    using allowed e loc children_gap_slot [OF d c loc gap]
    by (auto simp: moveExpression_def Let_def simp del: find_Cons split: option.split)
  show ?thesis
  proof (cases parent)
    case None
    then show ?thesis using c split toSpliced_append [OF refl, of "removeExpression (take gap children) target"]
      unfolding move by (simp add: children_at_def insertExpression_def)
  next
    case (Some p)
    then obtain node where node: "findExpression nodes p = Some node" "is_combination node" "children = sub_nodes node"
      using c by (auto simp: children_at_def split: option.split_asm if_split_asm)
    have "p \<noteq> target" using allowed [OF Some] target by (auto simp: token_ids_forest)
    then have "findExpression (removeExpression nodes target) p = Some (with_children node (\<lambda>cs. removeExpression cs target))"
      using find_after_remove d e node(1) allowed [OF Some] by blast
    then have "findExpression (insertExpression (removeExpression nodes target) (Some p) ?slot expression) p =
        Some (with_children (with_children node (\<lambda>cs. removeExpression cs target)) (\<lambda>cs. toSpliced cs ?slot expression))"
      unfolding insertExpression_Some by (intro find_updated) simp_all
    then show ?thesis
      using node split toSpliced_append [OF refl, of "removeExpression (take gap children) target"]
      unfolding move by (simp add: Some children_at_def)
  qed
qed

subsection \<open>Dropping an expression where it is\<close>

lemma with_children_with_children: "with_children (with_children node f) g = with_children node (g \<circ> f)"
  by (cases node) (simp_all add: with_children_def)

lemma reinsert_root:
  assumes "distinct (forest_ids nodes)" and "i < length nodes" and "tok_id (nodes ! i) = target"
    and "findExpression nodes target = Some e"
  shows "toSpliced (removeExpression nodes target) (int i) e = nodes"
proof -
  let ?a = "take i nodes" and ?b = "drop (Suc i) nodes"
  have nodes: "nodes = ?a @ nodes ! i # ?b" using assms(2) by (simp add: id_take_nth_drop)
  have d: "distinct (forest_ids (?a @ nodes ! i # ?b))" using assms(1) nodes by simp
  then have absent: "target \<notin> set (forest_ids ?a)" "target \<notin> set (forest_ids ?b)" using assms(3) by auto
  then have "findExpression (?a @ nodes ! i # ?b) target = Some (nodes ! i)"
    using assms(3) by (simp add: find_append findExpression_None_iff [symmetric])
  then have "e = nodes ! i" using assms(4) nodes by simp
  moreover have "removeExpression (?a @ nodes ! i # ?b) target = ?a @ ?b"
    using absent assms(3) by (simp add: remove_append remove_absent)
  moreover have "int i = int (length ?a)" using assms(2) by simp
  ultimately show ?thesis using nodes toSpliced_append by metis
qed

lemma reinsert_child:
  "distinct (forest_ids nodes) \<Longrightarrow> location_from nodes target None k = Some (Some p, i) \<Longrightarrow>
   findExpression nodes target = Some e \<Longrightarrow>
   insertExpression (removeExpression nodes target) (Some p) (int i) e = nodes"
  unfolding insertExpression_Some
proof (induction nodes arbitrary: k rule: forest_induct)
  case (Cons node rest)
  have ne: "tok_id node \<noteq> target" using Cons.prems by auto
  have reparent: "location_from (sub_nodes node) target (Some (tok_id node)) 0 =
      (case location_from (sub_nodes node) target None 0 of
         Some (None, i) \<Rightarrow> Some (Some (tok_id node), i) | other \<Rightarrow> other)"
    by (rule location_reparent)
  show ?case
  proof (cases "location_from (sub_nodes node) target None 0")
    case None
    then have absent: "target \<notin> set (forest_ids (sub_nodes node))" by (simp add: location_None_iff)
    have below: "location_from rest target None (Suc k) = Some (Some p, i)" using Cons.prems ne None reparent by simp
    have d: "distinct (forest_ids rest)" using Cons.prems by simp
    obtain q where "findExpression rest p = Some q" using location_in_container [OF d below] by blast
    then have "p \<in> set (forest_ids rest)" by (rule find_mem)
    then have "tok_id node \<noteq> p" "p \<notin> set (forest_ids (sub_nodes node))" using Cons.prems by auto
    moreover have "findExpression rest target = Some e"
      using Cons.prems ne absent by (simp add: findExpression_None_iff [symmetric])
    ultimately show ?thesis using Cons.IH(2) [OF d below] ne absent
      by (simp add: remove_absent update_absent with_children_id)
  next
    case (Some l)
    then have inside: "target \<in> set (forest_ids (sub_nodes node))"
      using location_None_iff [of "sub_nodes node" target None 0] by auto
    then have rest: "removeExpression rest target = rest" using Cons.prems by (intro remove_absent) auto
    obtain q j where l: "l = (q, j)" by force
    have found: "findExpression (sub_nodes node) target = Some e"
      using Cons.prems ne inside findExpression_None_iff [of "sub_nodes node" target] by (auto split: option.split_asm)
    have combination: "is_combination node" using inside by (cases node) (auto simp: is_combination_def)
    show ?thesis
    proof (cases q)
      case None
      then have p: "p = tok_id node" "i = j" using Some l Cons.prems ne reparent by auto
      then have "updateExpression rest p f = rest" for f using Cons.prems by (intro update_absent) auto
      moreover have "toSpliced (removeExpression (sub_nodes node) target) (int j) e = sub_nodes node"
        using Some l None found Cons.prems location_root [of "sub_nodes node" target 0 j] by (intro reinsert_root) auto
      ultimately show ?thesis using p ne rest combination
        by (simp add: with_children_with_children with_children_id)
    next
      case (Some p')
      then have below: "location_from (sub_nodes node) target None 0 = Some (Some p, i)"
        using \<open>location_from (sub_nodes node) target None 0 = Some l\<close> l Cons.prems ne reparent by auto
      have d: "distinct (forest_ids (sub_nodes node))" using Cons.prems by simp
      obtain q where "findExpression (sub_nodes node) p = Some q" using location_in_container [OF d below] by blast
      then have "p \<in> set (forest_ids (sub_nodes node))" by (rule find_mem)
      then have "tok_id node \<noteq> p" "p \<notin> set (forest_ids rest)" using Cons.prems by auto
      then show ?thesis using Cons.IH(1) [OF d below found] ne rest combination
        by (simp add: update_absent with_children_with_children with_children_id)
    qed
  qed
qed simp

lemma moveExpression_own:
  assumes d: "distinct (forest_ids nodes)" and loc: "expressionLocation nodes target = Some (parent, i)"
  shows "moveExpression nodes target parent (int i) = nodes"
proof -
  have "target \<in> set (forest_ids nodes)"
    using loc location_None_iff [of nodes target None 0] by (auto simp: expressionLocation_def)
  then obtain e where e: "findExpression nodes target = Some e"
    using findExpression_None_iff [of nodes target] by auto
  have "insertExpression (removeExpression nodes target) parent (int i) e = nodes"
  proof (cases parent)
    case None
    then show ?thesis
      using location_root [of nodes target 0 i] loc reinsert_root [OF d _ _ e, of i]
      by (simp add: expressionLocation_def insertExpression_def)
  next
    case (Some p)
    then show ?thesis using reinsert_child [OF d _ e] loc by (simp add: expressionLocation_def)
  qed
  then show ?thesis using e loc by (auto simp: moveExpression_def Let_def)
qed

end
