(* ===== verification/Build_Drag.thy ===== *)
theory Build_Drag
  imports Build_Draft Tree_Moves
begin

text \<open>
  Dragging columns and expressions in the Build tab: \<open>preprocessing/build/hooks/useBuildBuilderDrag.ts\<close>, the
  positions that \<open>components/BubbleBuilder.tsx\<close> renders for it, and what a drop does to the draft. Coordinates are
  exact numbers. An element of the page is an argument of the event that meets it; the \<open>data-build-drop\<close> attribute
  is the destination that \<open>target\<close> wrote into it.
\<close>

subsection \<open>State\<close>

datatype dragged = Dragged_column string | Dragged_expression (expression_id: string)

record destination =
  ds_parent :: "string option"
  ds_index :: int

text \<open>An element with a \<open>data-build-drop\<close> attribute, its bounds, and whether it is a leaf.\<close>

record drop_target =
  dt_destination :: destination
  dt_leaf :: bool
  dt_left :: rat
  dt_width :: rat

record drag_pointer =
  dp_value :: dragged
  dp_x :: rat
  dp_y :: rat
  dp_offset_x :: rat
  dp_offset_y :: rat
  dp_moved :: bool

text \<open>
  A slot for the keyboard: where it drops, and its description. The tree is not edited while the keyboard drags, so the
  attributes that a slot has when it is picked up are those it has when it is read.
\<close>

record drop_slot =
  sl_destination :: destination
  sl_description :: "string option"

record drag_keyboard =
  dk_value :: dragged
  dk_slots :: "drop_slot list"
  dk_index :: nat

record build_drag =
  bd_dragged :: "dragged option"
  bd_over :: "destination option"
  bd_preview :: "(rat \<times> rat) option"
  bd_announcement :: string
  bd_pointer :: "drag_pointer option"
  bd_keyboard :: "drag_keyboard option"
  bd_suppressClick :: bool

definition initial_drag :: build_drag where
  "initial_drag =
     \<lparr>bd_dragged = None, bd_over = None, bd_preview = None, bd_announcement = [], bd_pointer = None,
      bd_keyboard = None, bd_suppressClick = False\<rparr>"

datatype drag_call = On_column string destination | On_move string destination | Click_stopped

subsection \<open>Handlers\<close>

definition end_drag :: "build_drag \<Rightarrow> build_drag" where
  "end_drag drag =
     drag\<lparr>bd_pointer := None, bd_keyboard := None, bd_dragged := None, bd_over := None, bd_preview := None\<rparr>"

definition valid_drop :: "build_token list \<Rightarrow> destination \<Rightarrow> dragged \<Rightarrow> bool" where
  "valid_drop roots place moving =
     (case (moving, ds_parent place) of
        (Dragged_expression target, Some parent) \<Rightarrow>
          (case findExpression roots target of
             Some expression \<Rightarrow> findExpression [expression] parent = None
           | None \<Rightarrow> False)
      | _ \<Rightarrow> True)"

definition drag_destination ::
    "build_token list \<Rightarrow> rat \<Rightarrow> drop_target option \<Rightarrow> build_drag \<Rightarrow> destination option" where
  "drag_destination roots x target drag =
     (case (target, bd_pointer drag) of
        (Some t, Some active) \<Rightarrow>
          (let place = dt_destination t in
           if \<not> valid_drop roots place (dp_value active) then None
           else Some (if dt_leaf t
                      then place\<lparr>ds_index := ds_index place + (if x > dt_left t + dt_width t / 2 then 1 else 0)\<rparr>
                      else place))
      | _ \<Rightarrow> None)"

definition drop_call :: "dragged \<Rightarrow> destination \<Rightarrow> drag_call" where
  "drop_call moving place =
     (case moving of Dragged_column column \<Rightarrow> On_column column place | Dragged_expression target \<Rightarrow> On_move target place)"

definition drop_on :: "dragged \<Rightarrow> destination \<Rightarrow> build_drag \<Rightarrow> build_drag \<times> drag_call list" where
  "drop_on moving place drag = (drag\<lparr>bd_announcement := ''Expression dropped.''\<rparr>, [drop_call moving place])"

definition showKeyboardTarget :: "build_drag \<Rightarrow> build_drag" where
  "showKeyboardTarget drag =
     (case bd_keyboard drag of
        Some active \<Rightarrow>
          if dk_index active < length (dk_slots active) then
            (let slot = dk_slots active ! dk_index active in
             drag\<lparr>bd_over := Some (sl_destination slot),
                  bd_announcement := (case sl_description slot of Some d \<Rightarrow> d | None \<Rightarrow> ''Insertion position'') @
                    ''. Enter to drop, Escape to cancel.''\<rparr>)
          else drag
      | None \<Rightarrow> drag)"

definition pointer_down :: "dragged \<Rightarrow> int \<Rightarrow> rat \<Rightarrow> rat \<Rightarrow> rat \<Rightarrow> rat \<Rightarrow> build_drag \<Rightarrow> build_drag" where
  "pointer_down source button x y left upper drag =
     (if button \<noteq> 0 then drag
      else drag\<lparr>bd_suppressClick := False,
                bd_pointer := Some \<lparr>dp_value = source, dp_x = x, dp_y = y, dp_offset_x = x - left,
                  dp_offset_y = y - upper, dp_moved = False\<rparr>\<rparr>)"

text \<open>\<open>Math.hypot(dx, dy) < 5\<close>, compared without the root.\<close>

definition pointer_move :: "build_token list \<Rightarrow> rat \<Rightarrow> rat \<Rightarrow> drop_target option \<Rightarrow> build_drag \<Rightarrow> build_drag" where
  "pointer_move roots x y target drag =
     (case bd_pointer drag of
        None \<Rightarrow> drag
      | Some active \<Rightarrow>
          if \<not> dp_moved active \<and> (x - dp_x active)\<^sup>2 + (y - dp_y active)\<^sup>2 < 5\<^sup>2 then drag
          else drag\<lparr>bd_pointer := Some (active\<lparr>dp_moved := True\<rparr>), bd_suppressClick := True,
                 bd_dragged := Some (dp_value active),
                 bd_preview := Some (x - dp_offset_x active, y - dp_offset_y active),
                 bd_over := drag_destination roots x target drag\<rparr>)"

definition pointer_up ::
    "build_token list \<Rightarrow> rat \<Rightarrow> drop_target option \<Rightarrow> build_drag \<Rightarrow> build_drag \<times> drag_call list" where
  "pointer_up roots x target drag =
     (let active = bd_pointer drag;
          place = (case active of Some a \<Rightarrow> if dp_moved a then drag_destination roots x target drag else None | None \<Rightarrow> None);
          (dropped, calls) = (case (place, active) of
            (Some p, Some a) \<Rightarrow> drop_on (dp_value a) p drag | _ \<Rightarrow> (drag, []))
      in (end_drag dropped, calls))"

definition lost_capture :: "build_drag \<Rightarrow> build_drag" where
  "lost_capture drag = (if bd_pointer drag \<noteq> None then end_drag drag else drag)"

fun slot_index :: "drop_slot option \<Rightarrow> drop_slot list \<Rightarrow> nat option" where
  "slot_index own [] = None"
| "slot_index own (slot # slots) = (if Some slot = own then Some 0 else map_option Suc (slot_index own slots))"

text \<open>\<open>scope\<close> lists the slots of the builder in document order; \<open>own\<close> is the one before the bubble itself.\<close>

definition pick_up ::
    "build_token list \<Rightarrow> dragged \<Rightarrow> drop_slot list \<Rightarrow> drop_slot option \<Rightarrow> build_drag \<Rightarrow> build_drag" where
  "pick_up roots source scope own drag =
     (let slots = filter (\<lambda>slot. valid_drop roots (sl_destination slot) source) scope in
      if slots = [] then drag
      else showKeyboardTarget (drag\<lparr>
             bd_keyboard := Some \<lparr>dk_value = source, dk_slots = slots,
               dk_index = (case slot_index own slots of Some i \<Rightarrow> i | None \<Rightarrow> 0)\<rparr>,
             bd_dragged := Some source\<rparr>))"

definition arrow_keys :: "string list" where
  "arrow_keys = [''ArrowUp'', ''ArrowDown'', ''ArrowLeft'', ''ArrowRight'']"

definition arrow_index :: "string \<Rightarrow> drag_keyboard \<Rightarrow> nat" where
  "arrow_index key active =
     (let delta = (if key \<in> {''ArrowUp'', ''ArrowLeft''} then -1 else 1)
      in nat (max 0 (min (int (length (dk_slots active)) - 1) (int (dk_index active) + delta))))"

definition drag_key ::
    "build_token list \<Rightarrow> dragged \<Rightarrow> string \<Rightarrow> drop_slot list \<Rightarrow> drop_slot option \<Rightarrow> build_drag \<Rightarrow>
     build_drag \<times> drag_call list" where
  "drag_key roots source key scope own drag =
     (if key = ''Escape'' \<and> (bd_pointer drag \<noteq> None \<or> bd_keyboard drag \<noteq> None)
      then ((end_drag drag)\<lparr>bd_announcement := ''Move cancelled.''\<rparr>, [])
      else case source of
             Dragged_column _ \<Rightarrow> (drag, [])
           | Dragged_expression _ \<Rightarrow>
               (case bd_keyboard drag of
                  None \<Rightarrow> (if key = '' '' then pick_up roots source scope own drag else drag, [])
                | Some active \<Rightarrow>
                    if key \<in> set arrow_keys
                    then (showKeyboardTarget (drag\<lparr>bd_keyboard := Some (active\<lparr>dk_index := arrow_index key active\<rparr>)\<rparr>), [])
                    else if key = ''Enter'' then
                      (let (dropped, calls) =
                             (if dk_index active < length (dk_slots active)
                              then drop_on (dk_value active) (sl_destination (dk_slots active ! dk_index active)) drag
                              else (drag, []))
                       in (end_drag dropped, calls))
                    else (drag, [])))"

definition click_capture :: "build_drag \<Rightarrow> build_drag \<times> drag_call list" where
  "click_capture drag =
     (if bd_suppressClick drag then (drag\<lparr>bd_suppressClick := False\<rparr>, [Click_stopped]) else (drag, []))"

datatype drag_event =
    Pointer_down int rat rat rat rat
  | Pointer_moved rat rat "drop_target option"
  | Pointer_up rat "drop_target option"
  | Pointer_cancelled
  | Capture_lost
  | Key_pressed string "drop_slot list" "drop_slot option"
  | Clicked

fun drag_handle :: "build_token list \<Rightarrow> dragged \<Rightarrow> drag_event \<Rightarrow> build_drag \<Rightarrow> build_drag \<times> drag_call list" where
  "drag_handle roots source (Pointer_down button x y left upper) drag = (pointer_down source button x y left upper drag, [])"
| "drag_handle roots source (Pointer_moved x y target) drag = (pointer_move roots x y target drag, [])"
| "drag_handle roots source (Pointer_up x target) drag = pointer_up roots x target drag"
| "drag_handle roots source Pointer_cancelled drag = (end_drag drag, [])"
| "drag_handle roots source Capture_lost drag = (lost_capture drag, [])"
| "drag_handle roots source (Key_pressed key scope own) drag = drag_key roots source key scope own drag"
| "drag_handle roots source Clicked drag = click_capture drag"

subsection \<open>The slots on the page\<close>

text \<open>\<open>DropSlot\<close>; the label of a container is an argument.\<close>

definition rendered_slot :: "(build_token \<Rightarrow> string) \<Rightarrow> build_token list \<Rightarrow> string option \<Rightarrow> nat \<Rightarrow> drop_slot" where
  "rendered_slot label roots parent index =
     \<lparr>sl_destination = \<lparr>ds_parent = parent, ds_index = int index\<rparr>,
      sl_description = Some (''Position '' @ show_nat (index + 1) @ '' in '' @
        (case parent of
           None \<Rightarrow> ''root''
         | Some p \<Rightarrow> (case findExpression roots p of Some container \<Rightarrow> label container | None \<Rightarrow> ''root'')))\<rparr>"

text \<open>\<open>Children\<close>, in document order, from the child with the given index on.\<close>

function drop_slots ::
    "(string option \<Rightarrow> nat \<Rightarrow> drop_slot) \<Rightarrow> string option \<Rightarrow> build_token list \<Rightarrow> nat \<Rightarrow> drop_slot list" where
  "drop_slots slot parent [] index = [slot parent index]"
| "drop_slots slot parent (node # rest) index =
     slot parent index #
     (case node of Combination_Token i _ _ children \<Rightarrow> drop_slots slot (Some i) children 0 | _ \<Rightarrow> []) @
     drop_slots slot parent rest (Suc index)"
  by pat_completeness auto
termination by (relation "measure (\<lambda>(slot, parent, nodes, index). size_list size nodes)") auto

definition builder_slots :: "(build_token \<Rightarrow> string) \<Rightarrow> build_token list \<Rightarrow> drop_slot list" where
  "builder_slots label roots = drop_slots (rendered_slot label roots) None roots 0"

text \<open>The slot in front of a bubble.\<close>

definition own_slot :: "(build_token \<Rightarrow> string) \<Rightarrow> build_token list \<Rightarrow> dragged \<Rightarrow> drop_slot option" where
  "own_slot label roots source =
     (case source of
        Dragged_column _ \<Rightarrow> None
      | Dragged_expression target \<Rightarrow>
          map_option (\<lambda>(parent, index). rendered_slot label roots parent index) (expressionLocation roots target))"

lemma drop_slots_Cons:
  "drop_slots slot parent (node # rest) index =
     slot parent index # (if is_combination node then drop_slots slot (Some (tok_id node)) (sub_nodes node) 0 else []) @
     drop_slots slot parent rest (Suc index)"
  by (cases node) (simp_all add: is_combination_def)

declare drop_slots.simps(2) [simp del] drop_slots_Cons [simp]

subsection \<open>Which slots there are\<close>

definition gaps :: "build_token list \<Rightarrow> (string option \<times> nat) set" where
  "gaps nodes = {(Some p, i) | p i node. findExpression nodes p = Some node \<and> is_combination node \<and> i \<le> length (sub_nodes node)}"

lemma gaps_simps:
  assumes "distinct (forest_ids (node # rest))"
  shows "gaps (node # rest) =
    (if is_combination node then {(Some (tok_id node), i) | i. i \<le> length (sub_nodes node)} else {}) \<union>
    gaps (sub_nodes node) \<union> gaps rest"
proof -
  have absent: "p \<noteq> tok_id node" if "findExpression (sub_nodes node) p = Some q \<or> findExpression rest p = Some q" for p q
    using that assms find_mem by fastforce
  have apart: "findExpression (sub_nodes node) p = None" if "findExpression rest p = Some q" for p q
    using find_mem [OF that] assms by (auto simp: findExpression_None_iff)
  show ?thesis using absent apart
    by (auto simp: gaps_def split: if_split_asm option.split_asm) (metis option.case option.distinct(1))+
qed

lemma drop_slots_set:
  "distinct (forest_ids nodes) \<Longrightarrow>
   set (drop_slots slot parent nodes k) =
     (\<lambda>(p, i). slot p i) ` ({(parent, i) | i. k \<le> i \<and> i \<le> k + length nodes} \<union> gaps nodes)"
proof (induction nodes arbitrary: parent k rule: forest_induct)
  case Nil
  then show ?case by (auto simp: gaps_def image_iff)
next
  case (Cons node rest)
  have split: "{(parent, i) | i. k \<le> i \<and> i \<le> k + length (node # rest)} =
      insert (parent, k) {(parent, i) | i. Suc k \<le> i \<and> i \<le> Suc k + length rest}" by auto
  have none: "\<not> is_combination node \<Longrightarrow> gaps (sub_nodes node) = {}" by (simp add: gaps_def)
  show ?case
    using Cons.IH(1) [of "Some (tok_id node)" 0] Cons.IH(2) [of parent "Suc k"] Cons.prems none
    unfolding gaps_simps [OF Cons.prems] split
    by (simp add: image_Un) (auto simp: image_Un)
qed

lemma drop_slots_distinct:
  assumes inj: "inj (\<lambda>(p, i). slot p i)"
  shows "distinct (forest_ids nodes) \<Longrightarrow> parent \<notin> Some ` set (forest_ids nodes) \<Longrightarrow> distinct (drop_slots slot parent nodes k)"
proof (induction nodes arbitrary: parent k rule: forest_induct)
  case (Cons node rest)
  have eq: "slot p i = slot q j \<longleftrightarrow> p = q \<and> i = j" for p i q j
    using inj by (auto simp: inj_def)
  have mem: "(Some p, i) \<in> gaps ns \<Longrightarrow> p \<in> set (forest_ids ns)" "(None, i) \<notin> gaps ns" for p i ns
    using find_mem by (auto simp: gaps_def)
  have d: "distinct (forest_ids (sub_nodes node))" "distinct (forest_ids rest)"
    "tok_id node \<notin> set (forest_ids (sub_nodes node))" "tok_id node \<notin> set (forest_ids rest)"
    "set (forest_ids (sub_nodes node)) \<inter> set (forest_ids rest) = {}"
    "parent \<noteq> Some (tok_id node)" "parent \<notin> Some ` set (forest_ids (sub_nodes node))" "parent \<notin> Some ` set (forest_ids rest)"
    using Cons.prems by auto
  have sub: "distinct (drop_slots slot (Some (tok_id node)) (sub_nodes node) 0)"
    by (rule Cons.IH(1)) (use d in auto)
  have rest: "distinct (drop_slots slot parent rest (Suc k))" by (rule Cons.IH(2)) (use d in auto)
  have gap: "(q, i) \<in> gaps ns \<Longrightarrow> \<exists>p. q = Some p \<and> p \<in> set (forest_ids ns)" for q i ns
    using mem by (cases q) auto
  have "slot parent k \<notin> set (drop_slots slot parent rest (Suc k))"
    "slot parent k \<notin> set (drop_slots slot (Some (tok_id node)) (sub_nodes node) 0)"
    "set (drop_slots slot (Some (tok_id node)) (sub_nodes node) 0) \<inter> set (drop_slots slot parent rest (Suc k)) = {}"
    unfolding drop_slots_set [OF d(1)] drop_slots_set [OF d(2)] using d(3-) by (auto simp: eq dest!: gap)
  then show ?case using sub rest by auto
qed simp

subsection \<open>The builder\<close>

text \<open>
  The draft of the Build tab together with the drag. \<open>fresh\<close> is the identifier that \<open>crypto.randomUUID\<close> gives to a
  dropped column.
\<close>

definition drop_effect :: "string \<Rightarrow> drag_call \<Rightarrow> build_draft \<Rightarrow> build_draft" where
  "drop_effect fresh effect draft =
     (case effect of
        On_column column place \<Rightarrow> addPart (Column_Token fresh [] column) (ds_parent place) (Some (ds_index place)) draft
      | On_move target place \<Rightarrow> movePart target (ds_parent place) (ds_index place) draft
      | Click_stopped \<Rightarrow> draft)"

text \<open>The targets that the page offers lie in the gaps of the rendered tree.\<close>

definition in_gap :: "build_token list \<Rightarrow> destination \<Rightarrow> bool" where
  "in_gap roots place \<longleftrightarrow>
     (case children_at roots (ds_parent place) of
        Some children \<Rightarrow> 0 \<le> ds_index place \<and> ds_index place \<le> int (length children)
      | None \<Rightarrow> False)"

definition target_rendered :: "build_token list \<Rightarrow> drop_target option \<Rightarrow> bool" where
  "target_rendered roots target \<longleftrightarrow>
     (case target of
        Some t \<Rightarrow> in_gap roots (dt_destination t) \<and>
          (dt_leaf t \<longrightarrow> in_gap roots ((dt_destination t)\<lparr>ds_index := ds_index (dt_destination t) + 1\<rparr>))
      | None \<Rightarrow> True)"

definition source_rendered :: "build_token list \<Rightarrow> dragged \<Rightarrow> bool" where
  "source_rendered roots source \<longleftrightarrow>
     (case source of Dragged_expression target \<Rightarrow> target \<in> set (forest_ids roots) | Dragged_column _ \<Rightarrow> True)"

fun event_rendered :: "(build_token \<Rightarrow> string) \<Rightarrow> build_token list \<Rightarrow> dragged \<Rightarrow> drag_event \<Rightarrow> bool" where
  "event_rendered label roots source (Pointer_moved x y target) \<longleftrightarrow> target_rendered roots target"
| "event_rendered label roots source (Pointer_up x target) \<longleftrightarrow> target_rendered roots target"
| "event_rendered label roots source (Key_pressed key scope own) \<longleftrightarrow>
     source_rendered roots source \<and> scope = builder_slots label roots \<and> own = own_slot label roots source"
| "event_rendered label roots source event \<longleftrightarrow> source_rendered roots source"

text \<open>Between the events of a drag the draft may be edited in other ways, but not while the keyboard drags.\<close>

inductive builder_step ::
    "(build_token \<Rightarrow> string) \<Rightarrow> build_draft \<times> build_drag \<Rightarrow> drag_call list \<Rightarrow> build_draft \<times> build_drag \<Rightarrow> bool"
  for label :: "build_token \<Rightarrow> string" where
  handled: "event_rendered label (dr_visual draft) source event \<Longrightarrow> fresh \<notin> set (forest_ids (dr_visual draft)) \<Longrightarrow>
    drag_handle (dr_visual draft) source event drag = (drag', calls) \<Longrightarrow>
    builder_step label (draft, drag) calls (fold (drop_effect fresh) calls draft, drag')"
| edited: "bd_keyboard drag = None \<Longrightarrow> distinct (forest_ids (dr_visual draft')) \<Longrightarrow>
    builder_step label (draft, drag) [] (draft', drag)"

inductive builder_reachable :: "(build_token \<Rightarrow> string) \<Rightarrow> build_draft \<times> build_drag \<Rightarrow> bool"
  for label :: "build_token \<Rightarrow> string" where
  builder_opened: "distinct (forest_ids (dr_visual draft)) \<Longrightarrow> builder_reachable label (draft, initial_drag)"
| builder_moved: "builder_reachable label w \<Longrightarrow> builder_step label w calls w' \<Longrightarrow> builder_reachable label w'"

definition keyboard_ok :: "(build_token \<Rightarrow> string) \<Rightarrow> build_token list \<Rightarrow> drag_keyboard \<Rightarrow> bool" where
  "keyboard_ok label roots active \<longleftrightarrow>
     dk_slots active = filter (\<lambda>slot. valid_drop roots (sl_destination slot) (dk_value active)) (builder_slots label roots) \<and>
     dk_index active < length (dk_slots active) \<and> source_rendered roots (dk_value active)"

definition builder_ok :: "(build_token \<Rightarrow> string) \<Rightarrow> build_draft \<times> build_drag \<Rightarrow> bool" where
  "builder_ok label w \<longleftrightarrow>
     distinct (forest_ids (dr_visual (fst w))) \<and>
     (\<forall>active. bd_keyboard (snd w) = Some active \<longrightarrow> keyboard_ok label (dr_visual (fst w)) active) \<and>
     (bd_pointer (snd w) = None \<and> bd_keyboard (snd w) = None \<longrightarrow>
        bd_dragged (snd w) = None \<and> bd_over (snd w) = None \<and> bd_preview (snd w) = None)"

subsection \<open>The slots on the page are the gaps of the tree\<close>

lemma in_gap_iff:
  "in_gap roots place \<longleftrightarrow>
     (\<exists>i. ds_index place = int i \<and>
       (ds_parent place, i) \<in> {(None, i) | i. i \<le> length roots} \<union> gaps roots)"
proof (cases "ds_parent place")
  case None
  then show ?thesis by (auto simp: in_gap_def children_at_def gaps_def intro: exI [of _ "nat (ds_index place)"])
next
  case (Some p)
  then show ?thesis
    by (auto simp: in_gap_def children_at_def gaps_def split: option.splits intro: exI [of _ "nat (ds_index place)"])
qed

lemma mem_destination_image:
  "place \<in> (\<lambda>(p, i). \<lparr>ds_parent = p, ds_index = int i\<rparr>) ` S \<longleftrightarrow>
     (\<exists>i. ds_index place = int i \<and> (ds_parent place, i) \<in> S)"
  by (cases place) (auto simp: image_iff split: prod.split intro: bexI [rotated])

lemma builder_slots_set:
  assumes "distinct (forest_ids roots)"
  shows "sl_destination ` set (builder_slots label roots) = {place. in_gap roots place}"
proof -
  have "sl_destination ` set (builder_slots label roots) =
      (\<lambda>(p, i). \<lparr>ds_parent = p, ds_index = int i\<rparr>) ` ({(None, i) | i. i \<le> length roots} \<union> gaps roots)"
    by (simp add: builder_slots_def drop_slots_set [OF assms] image_image rendered_slot_def split_def)
  also have "\<dots> = {place. in_gap roots place}"
    by (simp only: set_eq_iff mem_destination_image in_gap_iff mem_Collect_eq simp_thms)
  finally show ?thesis .
qed

lemma rendered_slot_eq: "rendered_slot label roots p i = rendered_slot label roots q j \<longleftrightarrow> p = q \<and> i = j"
  by (auto simp: rendered_slot_def)

lemma builder_slots_distinct:
  assumes "distinct (forest_ids roots)"
  shows "distinct (map sl_destination (builder_slots label roots))"
proof -
  have slot: "s \<in> set (builder_slots label roots) \<Longrightarrow> \<exists>p i. s = rendered_slot label roots p i" for s
    by (auto simp: builder_slots_def drop_slots_set [OF assms])
  have "inj_on sl_destination (set (builder_slots label roots))"
  proof (rule inj_onI)
    fix s t
    assume st: "s \<in> set (builder_slots label roots)" "t \<in> set (builder_slots label roots)" "sl_destination s = sl_destination t"
    obtain p i q j where "s = rendered_slot label roots p i" "t = rendered_slot label roots q j"
      using slot st(1,2) by blast
    then show "s = t" using st(3) by (simp add: rendered_slot_def)
  qed
  moreover have "distinct (builder_slots label roots)"
    unfolding builder_slots_def
    by (rule drop_slots_distinct [OF _ assms]) (auto simp: inj_def rendered_slot_eq)
  ultimately show ?thesis by (simp add: distinct_map)
qed

subsection \<open>What a drag asks for\<close>

lemma children_at_valid_parent:
  assumes "children_at roots parent = Some children" and "\<forall>p. parent = Some p \<longrightarrow> p \<notin> set (token_ids expression)"
  shows "valid_parent roots expression parent"
  using assms
  by (auto simp: children_at_def valid_parent_def is_combination_at_def split: option.splits if_split_asm)

lemma valid_drop_outside:
  "findExpression roots target = Some expression \<Longrightarrow>
   valid_drop roots place (Dragged_expression target) \<longleftrightarrow> (\<forall>p. ds_parent place = Some p \<longrightarrow> p \<notin> set (token_ids expression))"
  by (auto simp: valid_drop_def findExpression_None_iff token_ids_forest simp del: find_Cons split: option.splits)

lemma valid_drop_index [simp]: "valid_drop roots (place\<lparr>ds_index := i\<rparr>) moving = valid_drop roots place moving"
  by (simp add: valid_drop_def)

lemma drag_destination_ok:
  assumes "target_rendered roots target" and "drag_destination roots x target drag = Some place" and "bd_pointer drag = Some active"
  shows "in_gap roots place \<and> valid_drop roots place (dp_value active)"
  using assms
  by (auto simp: drag_destination_def target_rendered_def Let_def split: option.split_asm if_split_asm)

definition idle :: "build_drag \<Rightarrow> bool" where
  "idle drag \<longleftrightarrow>
     bd_pointer drag = None \<and> bd_keyboard drag = None \<and> bd_dragged drag = None \<and> bd_over drag = None \<and> bd_preview drag = None"

lemma idle_end_drag [simp]: "idle (end_drag drag)" "idle ((end_drag drag)\<lparr>bd_announcement := a\<rparr>)"
  by (simp_all add: idle_def end_drag_def)

lemma slot_in_gap:
  "distinct (forest_ids roots) \<Longrightarrow> slot \<in> set (builder_slots label roots) \<Longrightarrow> in_gap roots (sl_destination slot)"
  using builder_slots_set [of roots label] by blast

text \<open>A handler drops nothing, or it drops into an allowed gap and the drag is over.\<close>

lemma drag_handle_calls:
  assumes ok: "builder_ok label (draft, drag)" and rendered: "event_rendered label (dr_visual draft) source event"
    and handle: "drag_handle (dr_visual draft) source event drag = (drag', calls)"
  shows "set calls \<subseteq> {Click_stopped} \<or>
    (\<exists>moving place. calls = [drop_call moving place] \<and> in_gap (dr_visual draft) place \<and>
       valid_drop (dr_visual draft) place moving \<and> idle drag')"
proof (cases event)
  case (Pointer_up x target)
  then show ?thesis
    using handle rendered drag_destination_ok [of "dr_visual draft" target x drag]
    by (auto simp: pointer_up_def drop_on_def Let_def split: option.splits if_split_asm prod.splits) blast+
next
  case (Key_pressed key scope own)
  show ?thesis
  proof (cases "bd_keyboard drag")
    case None
    then show ?thesis using handle Key_pressed by (auto simp: drag_key_def split: if_split_asm dragged.split_asm)
  next
    case (Some active)
    let ?slot = "dk_slots active ! dk_index active"
    have active: "keyboard_ok label (dr_visual draft) active" and d: "distinct (forest_ids (dr_visual draft))"
      using ok Some by (auto simp: builder_ok_def)
    then have slot: "?slot \<in> set (filter (\<lambda>s. valid_drop (dr_visual draft) (sl_destination s) (dk_value active)) (builder_slots label (dr_visual draft)))"
      unfolding keyboard_ok_def by (metis nth_mem)
    then have "in_gap (dr_visual draft) (sl_destination ?slot) \<and> valid_drop (dr_visual draft) (sl_destination ?slot) (dk_value active)"
      using slot_in_gap [OF d] by auto
    then show ?thesis
      using handle Key_pressed Some
      by (auto simp: drag_key_def drop_on_def Let_def split: if_split_asm dragged.split_asm)
  qed
qed (use handle in \<open>auto simp: click_capture_def split: if_split_asm\<close>)

subsection \<open>The invariant\<close>

lemma drop_effect_roots:
  "dr_visual (drop_effect fresh (On_move target place) draft) =
     moveExpression (dr_visual draft) target (ds_parent place) (ds_index place)"
  "dr_visual (drop_effect fresh (On_column column place) draft) =
     insertExpression (dr_visual draft) (ds_parent place) (ds_index place) (Column_Token fresh [] column)"
  "drop_effect fresh Click_stopped draft = draft"
  by (simp_all add: drop_effect_def movePart_def addPart_def updateVisual_def)

lemma insert_ids:
  assumes "distinct (forest_ids nodes)" and "children_at nodes parent = Some children"
  shows "mset (forest_ids (insertExpression nodes parent index e)) = mset (forest_ids nodes) + mset (token_ids e)"
proof (cases parent)
  case (Some p)
  then have "is_combination_at nodes p"
    using assms(2) by (auto simp: children_at_def is_combination_at_def split: option.split_asm if_split_asm)
  then show ?thesis using Some insert_child_ids [OF assms(1)] by simp
qed (simp add: insertExpression_def toSpliced_ids)

lemma drop_keeps_ids:
  assumes d: "distinct (forest_ids (dr_visual draft))" and gap: "in_gap (dr_visual draft) place"
    and valid: "valid_drop (dr_visual draft) place moving"
  shows "mset (forest_ids (dr_visual (drop_effect fresh (drop_call moving place) draft))) =
    mset (forest_ids (dr_visual draft)) + (case moving of Dragged_column _ \<Rightarrow> {#fresh#} | Dragged_expression _ \<Rightarrow> {#})"
proof -
  let ?roots = "dr_visual draft"
  obtain children where c: "children_at ?roots (ds_parent place) = Some children"
    using gap by (auto simp: in_gap_def split: option.split_asm)
  show ?thesis
  proof (cases moving)
    case (Dragged_column column)
    then show ?thesis by (simp add: drop_call_def drop_effect_roots insert_ids [OF d c])
  next
    case (Dragged_expression target)
    show ?thesis
    proof (cases "findExpression ?roots target")
      case None
      then show ?thesis using Dragged_expression
        by (simp add: drop_call_def drop_effect_roots moveExpression_def split: option.split)
    next
      case (Some expression)
      have "valid_parent ?roots expression (ds_parent place)"
        using children_at_valid_parent [OF c] valid valid_drop_outside [OF Some] Dragged_expression by blast
      then show ?thesis using moveExpression_preserves [OF d Some] Dragged_expression
        by (simp add: drop_call_def drop_effect_roots)
    qed
  qed
qed

lemma slot_index_mem: "slot \<in> set slots \<Longrightarrow> \<exists>i < length slots. slot_index (Some slot) slots = Some i \<and> slots ! i = slot"
  by (induction slots) auto

lemma slot_index_less: "slot_index own slots = Some i \<Longrightarrow> i < length slots"
  by (induction slots arbitrary: i) (auto split: if_split_asm)

lemma show_target_simps [simp]:
  "bd_keyboard (showKeyboardTarget drag) = bd_keyboard drag"
  "bd_pointer (showKeyboardTarget drag) = bd_pointer drag"
  by (simp_all add: showKeyboardTarget_def Let_def split: option.split)

lemma pick_up_keyboard:
  assumes "bd_keyboard drag = None" and "event_rendered label roots (Dragged_expression target) (Key_pressed key scope own)"
    and "bd_keyboard (pick_up roots (Dragged_expression target) scope own drag) = Some active"
  shows "keyboard_ok label roots active"
  using assms slot_index_less [of own "filter (\<lambda>slot. valid_drop roots (sl_destination slot) (Dragged_expression target)) scope"]
  by (auto simp: pick_up_def Let_def keyboard_ok_def split: if_split_asm option.splits)

lemma arrow_keyboard: "keyboard_ok label roots active \<Longrightarrow> keyboard_ok label roots (active\<lparr>dk_index := arrow_index key active\<rparr>)"
  by (auto simp: keyboard_ok_def arrow_index_def Let_def)

lemma drag_handle_keyboard:
  assumes "builder_ok label (draft, drag)" and "event_rendered label (dr_visual draft) source event"
    and "drag_handle (dr_visual draft) source event drag = (drag', calls)" and "bd_keyboard drag' = Some active"
  shows "keyboard_ok label (dr_visual draft) active"
proof (cases event)
  case (Key_pressed key scope own)
  show ?thesis
  proof (cases "bd_keyboard drag")
    case None
    then show ?thesis
      using assms(2-) Key_pressed pick_up_keyboard [OF None, of label "dr_visual draft" _ key scope own]
      by (auto simp: drag_key_def end_drag_def split: if_split_asm dragged.split_asm)
  next
    case (Some old)
    then have "keyboard_ok label (dr_visual draft) old" using assms(1) by (simp add: builder_ok_def)
    then show ?thesis
      using assms(3,4) Key_pressed Some arrow_keyboard
      by (auto simp: drag_key_def end_drag_def drop_on_def Let_def split: if_split_asm dragged.split_asm)
  qed
qed (use assms in \<open>auto simp: builder_ok_def pointer_down_def pointer_move_def pointer_up_def drop_on_def lost_capture_def
      click_capture_def end_drag_def Let_def split: option.split_asm if_split_asm prod.split_asm\<close>)

lemma drag_handle_idle:
  assumes "builder_ok label (draft, drag)" and "drag_handle roots source event drag = (drag', calls)"
    and "bd_pointer drag' = None" and "bd_keyboard drag' = None"
  shows "idle drag'"
proof (cases event)
  case (Key_pressed key scope own)
  then show ?thesis
    using assms
    by (cases "bd_keyboard drag")
      (auto simp: builder_ok_def drag_key_def pick_up_def idle_def end_drag_def drop_on_def Let_def
        split: if_split_asm dragged.split_asm)
qed (use assms in \<open>auto simp: builder_ok_def pointer_down_def pointer_move_def pointer_up_def drop_on_def lost_capture_def
      click_capture_def idle_def end_drag_def Let_def split: option.split_asm if_split_asm prod.split_asm\<close>)

lemma builder_step_ok: "builder_step label w calls w' \<Longrightarrow> builder_ok label w \<Longrightarrow> builder_ok label w'"
proof (induction rule: builder_step.induct)
  case (handled draft source event fresh drag drag' calls)
  have idle: "bd_pointer drag' = None \<Longrightarrow> bd_keyboard drag' = None \<Longrightarrow>
      bd_dragged drag' = None \<and> bd_over drag' = None \<and> bd_preview drag' = None"
    using drag_handle_idle [OF handled.prems handled.hyps(3)] by (simp add: idle_def)
  have d: "distinct (forest_ids (dr_visual draft))" using handled.prems by (simp add: builder_ok_def)
  from drag_handle_calls [OF handled.prems handled.hyps(1,3)] show ?case
  proof (elim disjE exE conjE)
    assume "set calls \<subseteq> {Click_stopped}"
    then have "fold (drop_effect fresh) calls draft = draft" by (induction calls) (auto simp: drop_effect_roots)
    then show ?thesis using d idle drag_handle_keyboard [OF handled.prems handled.hyps(1,3)] by (simp add: builder_ok_def)
  next
    fix moving place
    assume drop: "calls = [drop_call moving place]" "in_gap (dr_visual draft) place" "valid_drop (dr_visual draft) place moving" "idle drag'"
    let ?draft = "drop_effect fresh (drop_call moving place) draft"
    have "mset (forest_ids (dr_visual ?draft)) =
        mset ((case moving of Dragged_column _ \<Rightarrow> [fresh] | Dragged_expression _ \<Rightarrow> []) @ forest_ids (dr_visual draft))"
      using drop_keeps_ids [OF d drop(2,3)] by (simp split: dragged.split)
    then have "distinct (forest_ids (dr_visual ?draft))"
      using d handled.hyps(2) mset_eq_imp_distinct_iff by (fastforce split: dragged.split_asm)
    then show ?thesis using drop(1,4) by (simp add: builder_ok_def idle_def)
  qed
qed (auto simp: builder_ok_def)

lemma builder_reachable_ok: "builder_reachable label w \<Longrightarrow> builder_ok label w"
  by (induction rule: builder_reachable.induct) (auto simp: builder_step_ok, simp add: builder_ok_def initial_drag_def)

inductive_cases builder_stepE: "builder_step label (draft, drag) calls (draft', drag')"

subsection \<open>Properties\<close>

lemma drop_call_eq_move: "drop_call moving place = On_move target p \<longleftrightarrow> moving = Dragged_expression target \<and> place = p"
  by (cases moving) (auto simp: drop_call_def)


definition example_draft :: build_draft where
  "example_draft = initial_draft\<lparr>dr_visual := example_forest\<rparr>"

definition example_target :: drop_target where
  "example_target = \<lparr>dt_destination = \<lparr>ds_parent = Some ''f'', ds_index = 1\<rparr>, dt_leaf = False, dt_left = 0, dt_width = 0\<rparr>"

definition example_lifted :: build_drag where
  "example_lifted = pointer_move example_forest 9 0 (Some example_target) (pointer_down (Dragged_expression ''a'') 0 0 0 0 0 initial_drag)"

lemma example_lifted_reachable: "builder_reachable (\<lambda>_. []) (example_draft, example_lifted)"
proof -
  let ?down = "pointer_down (Dragged_expression ''a'') 0 0 0 0 0 initial_drag"
  have "builder_reachable (\<lambda>_. []) (example_draft, initial_drag)"
    by (rule builder_opened) (simp add: example_draft_def example_forest_def)
  moreover have "builder_step (\<lambda>_. []) (example_draft, initial_drag) [] (example_draft, ?down)"
    using builder_step.handled [of "\<lambda>_. []" example_draft "Dragged_expression ''a''" "Pointer_down 0 0 0 0 0" "''n''" initial_drag ?down "[]"]
    by (simp add: source_rendered_def example_draft_def example_forest_def)
  moreover have "builder_step (\<lambda>_. []) (example_draft, ?down) [] (example_draft, example_lifted)"
    using builder_step.handled [of "\<lambda>_. []" example_draft "Dragged_expression ''a''" "Pointer_moved 9 0 (Some example_target)" "''n''"
        ?down example_lifted "[]"]
    by (simp add: target_rendered_def in_gap_def children_at_def is_combination_def example_target_def example_draft_def
        example_forest_def example_lifted_def)
  ultimately show ?thesis by (blast intro: builder_moved)
qed


subsection \<open>The keyboard\<close>

lemma own_location_outside:
  "distinct (forest_ids nodes) \<Longrightarrow> location_from nodes target None k = Some (Some p, i) \<Longrightarrow>
   findExpression nodes target = Some e \<Longrightarrow> p \<notin> set (token_ids e)"
proof (induction nodes arbitrary: k rule: forest_induct)
  case (Cons node rest)
  have ne: "tok_id node \<noteq> target" using Cons.prems by auto
  show ?case
  proof (cases "findExpression (sub_nodes node) target")
    case None
    then have "location_from (sub_nodes node) target (Some (tok_id node)) 0 = None"
      by (simp add: findExpression_None_iff location_None_iff)
    then have "location_from rest target None (Suc k) = Some (Some p, i)" "findExpression rest target = Some e"
      using Cons.prems ne None by auto
    then show ?thesis using Cons.IH(2) Cons.prems by auto
  next
    case (Some e')
    then have e: "findExpression (sub_nodes node) target = Some e" using Cons.prems ne by simp
    obtain q j where l: "location_from (sub_nodes node) target None 0 = Some (q, j)"
      using find_mem [OF e] location_None_iff [of "sub_nodes node" target None 0] by auto
    show ?thesis
    proof (cases q)
      case None
      then have "p = tok_id node"
        using l Cons.prems ne location_reparent [of "sub_nodes node" target "Some (tok_id node)" 0] by auto
      then show ?thesis using find_ids [OF e] Cons.prems by auto
    next
      case (Some p')
      then have "location_from (sub_nodes node) target None 0 = Some (Some p, i)"
        using l Cons.prems ne location_reparent [of "sub_nodes node" target "Some (tok_id node)" 0] by auto
      then show ?thesis using Cons.IH(1) [OF _ _ e] Cons.prems by auto
    qed
  qed
qed simp

lemma own_slot_offered:
  assumes d: "distinct (forest_ids roots)" and target: "target \<in> set (forest_ids roots)"
  obtains parent i where "expressionLocation roots target = Some (parent, i)"
    and "own_slot label roots (Dragged_expression target) = Some (rendered_slot label roots parent i)"
    and "rendered_slot label roots parent i \<in> set (builder_slots label roots)"
    and "valid_drop roots \<lparr>ds_parent = parent, ds_index = int i\<rparr> (Dragged_expression target)"
proof -
  obtain parent i where loc: "location_from roots target None 0 = Some (parent, i)"
    using target location_None_iff [of roots target None 0] by auto
  obtain e where e: "findExpression roots target = Some e"
    using target findExpression_None_iff [of roots target] by auto
  have "(parent, i) \<in> {(None, i) | i. i \<le> length roots} \<union> gaps roots"
  proof (cases parent)
    case None
    then show ?thesis using location_root [of roots target 0 i] loc by simp
  next
    case (Some p)
    then show ?thesis using location_in_container [OF d, of target 0 p i] loc by (auto simp: gaps_def)
  qed
  then have "rendered_slot label roots parent i \<in> set (builder_slots label roots)"
    unfolding builder_slots_def drop_slots_set [OF d] by force
  moreover have "valid_drop roots \<lparr>ds_parent = parent, ds_index = int i\<rparr> (Dragged_expression target)"
    using own_location_outside [OF d _ e] loc by (auto simp: valid_drop_outside [OF e])
  ultimately show ?thesis using that loc by (simp add: expressionLocation_def own_slot_def)
qed

text \<open>
  C7: picking up an expression with the keyboard offers each gap of the tree outside of the expression exactly once, and
  starts at the gap in which the expression already is: Enter at once leaves the tree as it was.
\<close>

theorem keyboard_pick_up:
  assumes d: "distinct (forest_ids roots)" and target: "target \<in> set (forest_ids roots)" and idle: "bd_keyboard drag = None"
  shows "\<exists>active place.
    bd_keyboard (fst (drag_key roots (Dragged_expression target) '' '' (builder_slots label roots)
      (own_slot label roots (Dragged_expression target)) drag)) = Some active \<and>
    distinct (map sl_destination (dk_slots active)) \<and>
    sl_destination ` set (dk_slots active) = {p. in_gap roots p \<and> valid_drop roots p (Dragged_expression target)} \<and>
    snd (drag_key roots (Dragged_expression target) ''Enter'' scope own
      (fst (drag_key roots (Dragged_expression target) '' '' (builder_slots label roots)
        (own_slot label roots (Dragged_expression target)) drag))) = [On_move target place] \<and>
    moveExpression roots target (ds_parent place) (ds_index place) = roots"
proof -
  let ?source = "Dragged_expression target"
  let ?valid = "\<lambda>slot. valid_drop roots (sl_destination slot) ?source"
  let ?slots = "filter ?valid (builder_slots label roots)"
  let ?picked = "fst (drag_key roots ?source '' '' (builder_slots label roots) (own_slot label roots ?source) drag)"
  obtain parent i where own: "expressionLocation roots target = Some (parent, i)"
    "own_slot label roots ?source = Some (rendered_slot label roots parent i)"
    "rendered_slot label roots parent i \<in> set (builder_slots label roots)"
    "valid_drop roots \<lparr>ds_parent = parent, ds_index = int i\<rparr> ?source"
    by (rule own_slot_offered [OF d target])
  then have offered: "rendered_slot label roots parent i \<in> set ?slots" by (simp add: rendered_slot_def)
  obtain j where j: "j < length ?slots" "slot_index (Some (rendered_slot label roots parent i)) ?slots = Some j"
    "?slots ! j = rendered_slot label roots parent i"
    using slot_index_mem [OF offered] by blast
  let ?active = "\<lparr>dk_value = ?source, dk_slots = ?slots, dk_index = j\<rparr>"
  let ?place = "\<lparr>ds_parent = parent, ds_index = int i\<rparr>"
  have "?slots \<noteq> []" using j(1) by auto
  then have active: "bd_keyboard ?picked = Some ?active"
    using idle j(2) own(2) by (simp add: drag_key_def pick_up_def Let_def)
  moreover have "distinct (map sl_destination ?slots)"
    using builder_slots_distinct [OF d] by (rule distinct_map_filter)
  moreover have "sl_destination ` set ?slots = {p. in_gap roots p \<and> valid_drop roots p ?source}"
  proof -
    have "sl_destination ` set ?slots = {p \<in> sl_destination ` set (builder_slots label roots). valid_drop roots p ?source}"
      by auto
    then show ?thesis unfolding builder_slots_set [OF d] by simp
  qed
  moreover have "snd (drag_key roots ?source ''Enter'' scope own ?picked) = [On_move target ?place]"
    using active j by (simp add: drag_key_def [of roots ?source "''Enter''"] arrow_keys_def drop_on_def drop_call_def rendered_slot_def)
  moreover have "moveExpression roots target (ds_parent ?place) (ds_index ?place) = roots"
    using moveExpression_own [OF d own(1)] by simp
  ultimately show ?thesis by (intro exI [of _ ?active] exI [of _ ?place]) simp
qed

lemma keyboard_pick_up_witness:
  "\<exists>active. bd_keyboard (fst (drag_key example_forest (Dragged_expression ''f'') '' '' (builder_slots (\<lambda>_. []) example_forest)
      (own_slot (\<lambda>_. []) example_forest (Dragged_expression ''f'')) initial_drag)) = Some active"
proof -
  have "distinct (forest_ids example_forest)" "''f'' \<in> set (forest_ids example_forest)" "bd_keyboard initial_drag = None"
    by (simp_all add: example_forest_def initial_drag_def)
  from keyboard_pick_up [OF this, of "\<lambda>_. []"] show ?thesis by blast
qed

end
