(* ===== verification/Frequency_Settings.thy ===== *)
theory Frequency_Settings
  imports Topic_Graph Tool_Drafts Requests
begin

text \<open>
  The presentation settings of a frequency tab, \<open>features/tools/token-frequency/frequencySettings.ts\<close>, with the
  stop word source of \<open>common/stopwords/stopwordData.ts\<close>: reading settings from plain data, the colours, and the
  optimistic saves that one tab sends one after another. Corpora are given by their sources.
\<close>

subsection \<open>Data\<close>

record stopword_source =
  sw_schema :: string
  sw_name :: string
  sw_column :: string

record frequency_settings =
  fr_presentationOrder :: "nat list option"
  fr_stopwordsEnabled :: bool
  fr_stopwordSource :: "stopword_source option"
  fr_colors :: "(string \<times> string) list"

definition completeStopwordSource :: "stopword_source option \<Rightarrow> stopword_source option" where
  "completeStopwordSource v =
     (case v of
        Some s \<Rightarrow> if sw_schema s \<noteq> [] \<and> sw_name s \<noteq> [] \<and> sw_column s \<noteq> [] then Some s else None
      | None \<Rightarrow> None)"

definition stopwordSource :: "js \<Rightarrow> stopword_source option" where
  "stopwordSource v =
     (if has_property v ''source'' \<and> has_property v ''column'' then
        (let source = get v ''source'' in
         case (get source ''schema'', get source ''name'', get v ''column'') of
           (JS_String schema, JS_String name, JS_String column) \<Rightarrow>
             Some \<lparr>sw_schema = schema, sw_name = name, sw_column = column\<rparr>
         | _ \<Rightarrow> None)
      else None)"

subsection \<open>Reading settings\<close>

abbreviation corpusColorKey :: "data_target \<Rightarrow> string" where
  "corpusColorKey \<equiv> targetKey"

definition order_index :: "js \<Rightarrow> nat option" where
  "order_index v = (if v = JS_Number (Finite 0) then Some 0 else if v = JS_Number (Finite 1) then Some 1 else None)"

definition color_entries :: "js \<Rightarrow> data_target list \<Rightarrow> (string \<times> js) list" where
  "color_entries colors corpora =
     (case colors of
        JS_Array cs \<Rightarrow> concat (map (\<lambda>(index, color).
          if index < length corpora then [(corpusColorKey (corpora ! index), color)] else []) (enumerate 0 cs))
      | JS_Object entries \<Rightarrow> entries
      | _ \<Rightarrow> [])"

definition string_entry :: "string \<times> js \<Rightarrow> (string \<times> string) option" where
  "string_entry entry = (case snd entry of JS_String s \<Rightarrow> Some (fst entry, s) | _ \<Rightarrow> None)"

definition from_entries :: "(string \<times> string) list \<Rightarrow> (string \<times> string) list" where
  "from_entries entries = fold (\<lambda>(k, v). AList.update k v) entries []"

definition frequencySettings :: "js \<Rightarrow> data_target list \<Rightarrow> frequency_settings" where
  "frequencySettings v corpora =
     \<lparr>fr_presentationOrder = (case get v ''presentationOrder'' of
        JS_Array xs \<Rightarrow> Some (List.map_filter order_index xs) | _ \<Rightarrow> None),
      fr_stopwordsEnabled = (get v ''stopwordsEnabled'' = JS_Bool True),
      fr_stopwordSource = stopwordSource (get v ''stopwordSource''),
      fr_colors = from_entries (List.map_filter string_entry (color_entries (get v ''colors'') corpora))\<rparr>"

definition corpusColor :: "frequency_settings \<Rightarrow> data_target \<Rightarrow> string option \<Rightarrow> nat \<Rightarrow> string" where
  "corpusColor settings source fallback index =
     (case fallback of
        Some c \<Rightarrow> c
      | None \<Rightarrow> (case map_of (fr_colors settings) (corpusColorKey source) of
          Some c \<Rightarrow> c
        | None \<Rightarrow> VIZ_PALETTE ! (index mod length VIZ_PALETTE)))"

subsection \<open>Sending settings\<close>

text \<open>\<open>settings: { ...next }\<close> as the host receives it: members without a value are left out.\<close>

definition source_value :: "stopword_source option \<Rightarrow> js" where
  "source_value source =
     (case source of
        None \<Rightarrow> JS_Null
      | Some s \<Rightarrow> JS_Object [
          (''source'', JS_Object [(''schema'', JS_String (sw_schema s)), (''name'', JS_String (sw_name s))]),
          (''column'', JS_String (sw_column s))])"

definition settings_value :: "frequency_settings \<Rightarrow> js" where
  "settings_value s =
     JS_Object ((case fr_presentationOrder s of
        Some indices \<Rightarrow> [(''presentationOrder'', JS_Array (map (\<lambda>i. JS_Number (Finite (of_nat i))) indices))]
      | None \<Rightarrow> []) @
       [(''stopwordsEnabled'', JS_Bool (fr_stopwordsEnabled s)),
        (''stopwordSource'', source_value (fr_stopwordSource s)),
        (''colors'', JS_Object (map (\<lambda>(k, c). (k, JS_String c)) (fr_colors s)))])"

text \<open>Settings as the code makes them: an order of the two corpora, and each colour key once.\<close>

definition wf_settings :: "frequency_settings \<Rightarrow> bool" where
  "wf_settings s \<longleftrightarrow>
     (case fr_presentationOrder s of Some indices \<Rightarrow> set indices \<subseteq> {0, 1} | None \<Rightarrow> True) \<and>
     distinct (map fst (fr_colors s))"

lemma from_entries_distinct: "distinct (map fst (from_entries entries))"
proof -
  have "distinct (map fst acc) \<Longrightarrow> distinct (map fst (fold (\<lambda>(k, v). AList.update k v) entries acc))" for acc
    by (induction entries arbitrary: acc) (auto simp: distinct_update)
  then show ?thesis by (simp add: from_entries_def)
qed

lemma from_entries_id: "distinct (map fst entries) \<Longrightarrow> from_entries entries = entries"
proof -
  have "distinct (map fst (acc @ entries)) \<Longrightarrow> fold (\<lambda>(k, v). AList.update k v) entries acc = acc @ entries" for acc
  proof (induction entries arbitrary: acc)
    case (Cons e entries)
    then show ?case by (cases e) (use Cons.IH [of "acc @ [e]"] in \<open>simp add: update_new\<close>)
  qed simp
  from this [of "[]"] show "distinct (map fst entries) \<Longrightarrow> ?thesis" by (simp add: from_entries_def)
qed

lemma wf_frequencySettings: "wf_settings (frequencySettings v corpora)"
  using from_entries_distinct
  by (auto simp: wf_settings_def frequencySettings_def order_index_def map_filter_def split: js.split if_split_asm)

lemma string_entries: "List.map_filter string_entry (map (\<lambda>(k, c). (k, JS_String c)) cs) = cs"
  by (induction cs) (auto simp: string_entry_def map_filter_simps)

lemma order_indices: "set indices \<subseteq> {0, 1} \<Longrightarrow> List.map_filter order_index (map (\<lambda>i. JS_Number (Finite (of_nat i))) indices) = indices"
  by (induction indices) (auto simp: order_index_def map_filter_simps)

lemma stopwordSource_value: "stopwordSource (source_value s) = s"
  by (cases s) (simp_all add: stopwordSource_def source_value_def get_member_def)

text \<open>What the host is sent is read back as the settings that were sent, whatever the corpora.\<close>

lemma settings_read_back: "wf_settings s \<Longrightarrow> frequencySettings (settings_value s) corpora = s"
  by (cases s; cases "fr_presentationOrder s")
    (simp_all add: frequencySettings_def settings_value_def get_member_def wf_settings_def stopwordSource_value
      color_entries_def string_entries order_indices from_entries_id)

subsection \<open>Blending by representation\<close>

fun show_hex :: "nat \<Rightarrow> string" where
  "show_hex n = (if n < 16 then [hex_digit n] else show_hex (n div 16) @ [hex_digit (n mod 16)])"

declare show_hex.simps [simp del]

definition hex_text :: "int \<Rightarrow> string" where
  "hex_text n = (if n < 0 then CHR ''-'' # show_hex (nat (- n)) else show_hex (nat n))"

definition padStart2 :: "string \<Rightarrow> string" where
  "padStart2 s = replicate (2 - length s) (CHR ''0'') @ s"

definition color_component :: "string \<Rightarrow> nat \<Rightarrow> int option" where
  "color_component color index = parse_hex (take 2 (drop index color))"

text \<open>A component that is not a number prints as NaN.\<close>

definition juxtorpus_channel :: "rat \<Rightarrow> string \<Rightarrow> string \<Rightarrow> nat \<Rightarrow> string" where
  "juxtorpus_channel share referenceColor studyColor index =
     (case (color_component referenceColor index, color_component studyColor index) of
        (Some r, Some s) \<Rightarrow> padStart2 (hex_text \<lfloor>of_int r * share + of_int s * (1 - share) + 1 / 2\<rfloor>)
      | _ \<Rightarrow> ''NaN'')"

definition juxtorpusColor :: "rat \<Rightarrow> rat \<Rightarrow> string \<Rightarrow> string \<Rightarrow> string" where
  "juxtorpusColor reference study referenceColor studyColor =
     (let share = (if reference + study > 0 then reference / (reference + study) else 1 / 2)
      in CHR ''#'' # concat (map (juxtorpus_channel share referenceColor studyColor) [1, 3, 5]))"

definition hex_digits :: "string \<Rightarrow> bool" where
  "hex_digits ds \<longleftrightarrow> list_all (\<lambda>d. hex_value d \<noteq> None) ds"

definition rgb_color :: "string \<Rightarrow> bool" where
  "rgb_color c \<longleftrightarrow> (case c of [] \<Rightarrow> False | h # ds \<Rightarrow> h = CHR ''#'' \<and> length ds = 6 \<and> hex_digits ds)"

lemma hex_value_chars:
  assumes "hex_value c = Some v"
  shows "graphic_char c" "c \<noteq> CHR ''-''" "c \<noteq> CHR ''+''" "c \<noteq> CHR ''x''" "c \<noteq> CHR ''X''" "v < 16"
  using assms by (auto simp: hex_value_def graphic_char_def Let_def split: if_split_asm)

lemma parse_hex_pair:
  assumes "hex_value h = Some a" and "hex_value l = Some b"
  shows "parse_hex [h, l] = Some (16 * int a + int b)"
proof -
  have "\<not> has_prefix w [h, l]" if "w \<in> set Prelude.white_space" "w \<noteq> []" for w
  proof
    assume "has_prefix w [h, l]"
    then have "h \<in> set w" using that(2) by (cases "length w") (auto simp: has_prefix_def dest: arg_cong [of _ _ set])
    then show False using hex_value_chars(1) [OF assms(1)] white_space_not_graphic [OF that(1)] by blast
  qed
  then have "strip_prefixes Prelude.white_space [h, l] = [h, l]" by (intro strip_prefixes_idle) auto
  moreover have "\<not> has_prefix ''0x'' [h, l]" "\<not> has_prefix ''0X'' [h, l]"
    using hex_value_chars(4,5) [OF assms(2)] by (auto simp: has_prefix_def)
  ultimately show ?thesis
    using assms hex_value_chars(2,3) [OF assms(1)] by (simp add: parse_hex_def Let_def)
qed

lemma rgb_component:
  assumes "rgb_color c" and "index \<in> {1, 3, 5}"
  shows "\<exists>n. color_component c index = Some n \<and> 0 \<le> n \<and> n \<le> 255"
proof -
  obtain ds where c: "c = CHR ''#'' # ds" "length ds = 6" "hex_digits ds"
    using assms(1) by (auto simp: rgb_color_def split: list.split_asm)
  then obtain d1 d2 d3 d4 d5 d6 where ds: "ds = [d1, d2, d3, d4, d5, d6]"
    by (auto simp: length_Suc_conv numeral_eq_Suc)
  have "index = 1 \<or> index = 3 \<or> index = 5" using assms(2) by blast
  then obtain h l where hl: "take 2 (drop index c) = [h, l]" "h \<in> set ds" "l \<in> set ds"
    unfolding c(1) ds by (elim disjE) (simp_all del: One_nat_def, simp_all add: numeral_eq_Suc)
  obtain a b where ab: "hex_value h = Some a" "hex_value l = Some b"
    using c(3) hl(2,3) by (fastforce simp: hex_digits_def list_all_iff)
  have "a < 16" "b < 16" using hex_value_chars(6) ab by blast+
  then show ?thesis using hl(1) parse_hex_pair [OF ab] by (simp add: color_component_def)
qed

lemma byte_text:
  assumes "n < 256"
  shows "padStart2 (show_hex n) = [hex_digit (n div 16), hex_digit (n mod 16)]"
proof (cases "n < 16")
  case True
  moreover have "hex_digit 0 = CHR ''0''" by code_simp
  ultimately show ?thesis by (simp add: padStart2_def show_hex.simps [of n])
next
  case False
  then have "n div 16 < 16" using assms by (simp add: less_mult_imp_div_less)
  then show ?thesis using False by (simp add: padStart2_def show_hex.simps [of n] show_hex.simps [of "n div 16"])
qed

lemma byte_text_int:
  assumes "0 \<le> n" "n \<le> 255"
  shows "length (padStart2 (hex_text n)) = 2" "hex_digits (padStart2 (hex_text n))"
    "parse_hex (padStart2 (hex_text n)) = Some n"
proof -
  have less: "nat n < 256" using assms by simp
  then have digits: "nat n div 16 < 16" "nat n mod 16 < 16" by (simp_all add: less_mult_imp_div_less)
  have t: "padStart2 (hex_text n) = [hex_digit (nat n div 16), hex_digit (nat n mod 16)]"
    using assms byte_text [OF less] by (simp add: hex_text_def)
  show "length (padStart2 (hex_text n)) = 2" "hex_digits (padStart2 (hex_text n))"
    using digits by (simp_all add: t hex_digits_def)
  have "16 * int (nat n div 16) + int (nat n mod 16) = n" using assms(1) by (simp add: zdiv_int zmod_int)
  then show "parse_hex (padStart2 (hex_text n)) = Some n"
    unfolding t parse_hex_pair [OF hex_value_digit hex_value_digit, OF digits] by simp
qed

lemma share_between:
  fixes share :: rat
  assumes "0 \<le> share" "share \<le> 1"
  shows "min r s \<le> \<lfloor>of_int r * share + of_int s * (1 - share) + 1 / 2\<rfloor>"
    and "\<lfloor>of_int r * share + of_int s * (1 - share) + 1 / 2\<rfloor> \<le> max r s"
proof -
  have low: "of_int (min r s) * share + of_int (min r s) * (1 - share) \<le> of_int r * share + of_int s * (1 - share)"
    using assms by (intro add_mono mult_right_mono) auto
  have high: "of_int r * share + of_int s * (1 - share) \<le> of_int (max r s) * share + of_int (max r s) * (1 - share)"
    using assms by (intro add_mono mult_right_mono) auto
  show "min r s \<le> \<lfloor>of_int r * share + of_int s * (1 - share) + 1 / 2\<rfloor>"
    using low by (simp add: le_floor_iff algebra_simps)
  show "\<lfloor>of_int r * share + of_int s * (1 - share) + 1 / 2\<rfloor> \<le> max r s"
    using high by (simp add: floor_le_iff algebra_simps)
qed

text \<open>The blend of two colours is a colour, and each of its components lies between theirs.\<close>

lemma juxtorpusColor_between:
  assumes "rgb_color a" and "rgb_color b" and "0 \<le> reference" and "0 \<le> study"
  shows "rgb_color (juxtorpusColor reference study a b)"
    and "index \<in> {1, 3, 5} \<Longrightarrow> color_component a index = Some r \<Longrightarrow> color_component b index = Some s \<Longrightarrow>
      \<exists>n. color_component (juxtorpusColor reference study a b) index = Some n \<and> min r s \<le> n \<and> n \<le> max r s"
proof -
  define share where "share = (if reference + study > 0 then reference / (reference + study) else 1 / 2)"
  have share: "0 \<le> share" "share \<le> 1" using assms(3,4) by (auto simp: share_def divide_le_eq)
  have channel: "\<exists>n r s. color_component a i = Some r \<and> color_component b i = Some s \<and>
      juxtorpus_channel share a b i = padStart2 (hex_text n) \<and>
      min r s \<le> n \<and> n \<le> max r s \<and> 0 \<le> n \<and> n \<le> 255" if i: "i \<in> {1, 3, 5}" for i
  proof -
    obtain r where r: "color_component a i = Some r" "0 \<le> r" "r \<le> 255" using rgb_component [OF assms(1) i] by blast
    obtain s where s: "color_component b i = Some s" "0 \<le> s" "s \<le> 255" using rgb_component [OF assms(2) i] by blast
    let ?n = "\<lfloor>of_int r * share + of_int s * (1 - share) + 1 / 2\<rfloor>"
    have n: "min r s \<le> ?n" "?n \<le> max r s" by (rule share_between [OF share])+
    have "0 \<le> ?n" "?n \<le> 255" by (rule order_trans [OF _ n(1)], use r s in simp, rule order_trans [OF n(2)], use r s in simp)
    with n have "juxtorpus_channel share a b i = padStart2 (hex_text ?n) \<and> min r s \<le> ?n \<and> ?n \<le> max r s \<and> 0 \<le> ?n \<and> ?n \<le> 255"
      using r s by (simp add: juxtorpus_channel_def del: le_floor_iff floor_le_iff zero_le_floor floor_le_numeral)
    then show ?thesis using r(1) s(1) by blast
  qed
  obtain n1 n3 n5 where n:
    "juxtorpus_channel share a b 1 = padStart2 (hex_text n1)" "0 \<le> n1" "n1 \<le> 255"
    "juxtorpus_channel share a b 3 = padStart2 (hex_text n3)" "0 \<le> n3" "n3 \<le> 255"
    "juxtorpus_channel share a b 5 = padStart2 (hex_text n5)" "0 \<le> n5" "n5 \<le> 255"
    using channel [of 1] channel [of 3] channel [of 5] by auto
  have color: "juxtorpusColor reference study a b =
      CHR ''#'' # juxtorpus_channel share a b 1 @ juxtorpus_channel share a b 3 @ juxtorpus_channel share a b 5"
    by (simp add: juxtorpusColor_def share_def Let_def del: One_nat_def)
  have len: "length (juxtorpus_channel share a b 1) = 2" "length (juxtorpus_channel share a b 3) = 2"
    "length (juxtorpus_channel share a b 5) = 2"
    unfolding n(1,4,7) by (rule byte_text_int(1); use n in simp)+
  show "rgb_color (juxtorpusColor reference study a b)"
    using byte_text_int(2) [OF n(2,3)] byte_text_int(2) [OF n(5,6)] byte_text_int(2) [OF n(8,9)] len
    unfolding color rgb_color_def by (simp add: n(1,4,7) hex_digits_def del: One_nat_def)
  have at: "take 2 (drop i (juxtorpusColor reference study a b)) = juxtorpus_channel share a b i" if "i \<in> {1, 3, 5}" for i
    using that len unfolding color by (auto simp: numeral_eq_Suc)
  show "\<exists>n. color_component (juxtorpusColor reference study a b) index = Some n \<and> min r s \<le> n \<and> n \<le> max r s"
    if i: "index \<in> {1, 3, 5}" and r: "color_component a index = Some r" and s: "color_component b index = Some s"
    using channel [OF i] r s byte_text_int(3) at [OF i] by (auto simp: color_component_def)
qed

subsection \<open>Saving\<close>

text \<open>
  The members that a change names. The display of the tab is kept in the store of \<open>Tool_Drafts\<close>; the rest is saved.
\<close>

record settings_patch =
  pa_presentationOrder :: "nat list option"
  pa_stopwordsEnabled :: "bool option"
  pa_stopwordSource :: "stopword_source option option"
  pa_colors :: "(string \<times> string) list option"

definition empty_patch :: settings_patch where
  "empty_patch = \<lparr>pa_presentationOrder = None, pa_stopwordsEnabled = None, pa_stopwordSource = None, pa_colors = None\<rparr>"

definition patched :: "frequency_settings \<Rightarrow> settings_patch \<Rightarrow> frequency_settings" where
  "patched s patch =
     \<lparr>fr_presentationOrder = (case pa_presentationOrder patch of Some v \<Rightarrow> Some v | None \<Rightarrow> fr_presentationOrder s),
      fr_stopwordsEnabled = (case pa_stopwordsEnabled patch of Some v \<Rightarrow> v | None \<Rightarrow> fr_stopwordsEnabled s),
      fr_stopwordSource = (case pa_stopwordSource patch of Some v \<Rightarrow> v | None \<Rightarrow> fr_stopwordSource s),
      fr_colors = (case pa_colors patch of Some v \<Rightarrow> v | None \<Rightarrow> fr_colors s)\<rparr>"

text \<open>
  The saves of one tab share a scope, so they run one after another; all of them are pending until they settle. The
  first of the list is the one whose turn it is. \<open>sv_tab\<close> is the tab that the component was given, \<open>sv_cached\<close> the one in
  the query cache, by their settings.
\<close>

datatype save_phase = Save_waiting | Save_sent | Save_answered js

record saver =
  sv_tab :: js
  sv_cached :: "js option"
  sv_pending :: "frequency_settings list"
  sv_phase :: save_phase
  sv_reported :: nat
  sv_store :: frequency_state

definition latest_pending :: "saver \<Rightarrow> frequency_settings option" where
  "latest_pending sv = (if sv_pending sv = [] then None else Some (last (sv_pending sv)))"

definition persist :: "bool \<Rightarrow> data_target list \<Rightarrow> settings_patch \<Rightarrow> saver \<Rightarrow> saver result" where
  "persist editing corpora patch sv =
     (if editing then throw ''Finish table editing first.''
      else
        (let current = (case sv_cached sv of Some tab \<Rightarrow> tab | None \<Rightarrow> sv_tab sv);
             base = (case latest_pending sv of Some latest \<Rightarrow> latest | None \<Rightarrow> frequencySettings current corpora)
         in Inr (sv\<lparr>sv_pending := sv_pending sv @ [patched base patch]\<rparr>)))"

definition change_settings ::
    "string \<Rightarrow> string \<Rightarrow> bool \<Rightarrow> data_target list \<Rightarrow> settings_patch \<Rightarrow> (frequency_display \<Rightarrow> frequency_display) option \<Rightarrow> saver \<Rightarrow> saver" where
  "change_settings base tab editing corpora patch display sv =
     (let sv1 = (case display of Some d \<Rightarrow> sv\<lparr>sv_store := setDisplay base tab d (sv_store sv)\<rparr> | None \<Rightarrow> sv)
      in if patch = empty_patch then sv1
         else case persist editing corpora patch sv1 of
                Inr sv2 \<Rightarrow> sv2
              | Inl _ \<Rightarrow> sv1\<lparr>sv_reported := sv_reported sv1 + 1\<rparr>)"

text \<open>What the component shows: the last pending save, or the settings of the tab it was given.\<close>

definition shown_settings :: "data_target list \<Rightarrow> saver \<Rightarrow> frequency_settings" where
  "shown_settings corpora sv =
     (case latest_pending sv of Some s \<Rightarrow> s | None \<Rightarrow> frequencySettings (sv_tab sv) corpora)"

definition shown_display :: "string \<Rightarrow> string \<Rightarrow> saver \<Rightarrow> frequency_display" where
  "shown_display base tab sv =
     (case map_of (fs_display (sv_store sv)) (draftKey base tab) of Some d \<Rightarrow> d | None \<Rightarrow> defaultFrequencyDisplay)"

definition save_settled :: "saver \<Rightarrow> saver" where
  "save_settled sv = sv\<lparr>sv_pending := tl (sv_pending sv), sv_phase := Save_waiting\<rparr>"

text \<open>\<open>onSuccess\<close> writes the settings of the answer into the cached tab, and the component gets that tab.\<close>

definition save_succeeded :: "js \<Rightarrow> saver \<Rightarrow> saver" where
  "save_succeeded updated sv =
     save_settled (case sv_cached sv of
       Some _ \<Rightarrow> sv\<lparr>sv_cached := Some updated, sv_tab := updated\<rparr> | None \<Rightarrow> sv)"

definition save_failed :: "saver \<Rightarrow> saver" where
  "save_failed sv = (save_settled sv)\<lparr>sv_reported := sv_reported sv + 1\<rparr>"

subsection \<open>The tab and the host\<close>

text \<open>\<open>fh_changes\<close> are the changes that were accepted, in order; \<open>fh_rejected\<close> counts the saves the host refused.\<close>

record frequency_host =
  fh_saver :: saver
  fh_host :: js
  fh_changes :: "settings_patch list"
  fh_rejected :: nat

definition wf_patch :: "settings_patch \<Rightarrow> bool" where
  "wf_patch patch \<longleftrightarrow>
     (case pa_presentationOrder patch of Some indices \<Rightarrow> set indices \<subseteq> {0, 1} | None \<Rightarrow> True) \<and>
     (case pa_colors patch of Some cs \<Rightarrow> distinct (map fst cs) | None \<Rightarrow> True)"

datatype save_event =
    Settings_changed bool settings_patch "(frequency_display \<Rightarrow> frequency_display) option"
  | Save_started
  | Save_handled
  | Save_rejected
  | Answer_arrived
  | Tabs_fetched

inductive save_step ::
    "string \<Rightarrow> string \<Rightarrow> data_target list \<Rightarrow> frequency_host \<Rightarrow> save_event \<Rightarrow> frequency_host \<Rightarrow> bool"
  for base :: string and tab :: string and corpora :: "data_target list" where
  settings_changed: "wf_patch patch \<Longrightarrow>
    save_step base tab corpora h (Settings_changed editing patch display)
      (h\<lparr>fh_saver := change_settings base tab editing corpora patch display (fh_saver h),
         fh_changes := fh_changes h @ (if editing then [] else [patch])\<rparr>)"
| save_started: "sv_pending (fh_saver h) \<noteq> [] \<Longrightarrow> sv_phase (fh_saver h) = Save_waiting \<Longrightarrow>
    save_step base tab corpora h Save_started (h\<lparr>fh_saver := (fh_saver h)\<lparr>sv_phase := Save_sent\<rparr>\<rparr>)"
| save_handled: "sv_phase (fh_saver h) = Save_sent \<Longrightarrow> sv_pending (fh_saver h) = s # rest \<Longrightarrow>
    save_step base tab corpora h Save_handled
      (h\<lparr>fh_host := settings_value s, fh_saver := (fh_saver h)\<lparr>sv_phase := Save_answered (settings_value s)\<rparr>\<rparr>)"
| save_rejected: "sv_phase (fh_saver h) = Save_sent \<Longrightarrow>
    save_step base tab corpora h Save_rejected
      (h\<lparr>fh_saver := save_failed (fh_saver h), fh_rejected := fh_rejected h + 1\<rparr>)"
| answer_arrived: "sv_phase (fh_saver h) = Save_answered updated \<Longrightarrow>
    save_step base tab corpora h Answer_arrived (h\<lparr>fh_saver := save_succeeded updated (fh_saver h)\<rparr>)"
| tabs_fetched: "save_step base tab corpora h Tabs_fetched
    (h\<lparr>fh_saver := (fh_saver h)\<lparr>sv_cached := Some (fh_host h), sv_tab := fh_host h\<rparr>\<rparr>)"

definition opened_tab :: "js \<Rightarrow> frequency_state \<Rightarrow> frequency_host" where
  "opened_tab settings store =
     \<lparr>fh_saver = \<lparr>sv_tab = settings, sv_cached = Some settings, sv_pending = [], sv_phase = Save_waiting,
        sv_reported = 0, sv_store = store\<rparr>,
      fh_host = settings, fh_changes = [], fh_rejected = 0\<rparr>"

inductive save_reachable ::
    "string \<Rightarrow> string \<Rightarrow> data_target list \<Rightarrow> js \<Rightarrow> frequency_state \<Rightarrow> frequency_host \<Rightarrow> bool"
  for base :: string and tab :: string and corpora :: "data_target list" and settings :: js and store :: frequency_state where
  tab_opened: "save_reachable base tab corpora settings store (opened_tab settings store)"
| tab_stepped: "save_reachable base tab corpora settings store h \<Longrightarrow> save_step base tab corpora h event h' \<Longrightarrow>
    save_reachable base tab corpora settings store h'"

subsection \<open>The invariant\<close>

definition saver_ok :: "data_target list \<Rightarrow> js \<Rightarrow> frequency_host \<Rightarrow> bool" where
  "saver_ok corpora settings h \<longleftrightarrow>
     (let sv = fh_saver h in
       list_all wf_settings (sv_pending sv) \<and> sv_cached sv = Some (sv_tab sv) \<and>
       (sv_phase sv \<noteq> Save_waiting \<longrightarrow> sv_pending sv \<noteq> []) \<and>
       (case sv_phase sv of
          Save_answered updated \<Rightarrow> updated = fh_host h \<and> updated = settings_value (hd (sv_pending sv))
        | _ \<Rightarrow> sv_tab sv = fh_host h) \<and>
       (fh_rejected h = 0 \<longrightarrow>
          shown_settings corpora sv = foldl patched (frequencySettings settings corpora) (fh_changes h)))"

lemma wf_patched: "wf_settings s \<Longrightarrow> wf_patch patch \<Longrightarrow> wf_settings (patched s patch)"
  by (auto simp: wf_settings_def wf_patch_def patched_def split: option.splits)

lemma patched_empty [simp]: "patched s empty_patch = s"
  by (simp add: patched_def empty_patch_def)

lemma wf_base: "list_all wf_settings (sv_pending sv) \<Longrightarrow> wf_settings (shown_settings corpora sv)"
  by (auto simp: shown_settings_def latest_pending_def wf_frequencySettings list_all_iff)

lemma changed_saver:
  fixes base tab :: string and editing :: bool and display :: "(frequency_display \<Rightarrow> frequency_display) option"
  assumes ok: "saver_ok corpora settings h" and wf: "wf_patch patch"
  defines "sv' \<equiv> change_settings base tab editing corpora patch display (fh_saver h)"
  shows "list_all wf_settings (sv_pending sv')" "sv_cached sv' = Some (sv_tab sv')" "sv_phase sv' = sv_phase (fh_saver h)"
    "sv_tab sv' = sv_tab (fh_saver h)" "sv_pending (fh_saver h) \<noteq> [] \<Longrightarrow> sv_pending sv' \<noteq> [] \<and> hd (sv_pending sv') = hd (sv_pending (fh_saver h))"
    "shown_settings corpora sv' = (if editing then shown_settings corpora (fh_saver h) else patched (shown_settings corpora (fh_saver h)) patch)"
proof -
  have cached: "sv_cached (fh_saver h) = Some (sv_tab (fh_saver h))" and pending: "list_all wf_settings (sv_pending (fh_saver h))"
    using ok by (simp_all add: saver_ok_def Let_def)
  note defs = sv'_def change_settings_def persist_def latest_pending_def shown_settings_def Let_def throw_def
  have new: "wf_settings (patched (shown_settings corpora (fh_saver h)) patch)"
    by (rule wf_patched [OF wf_base [OF pending] wf])
  show "list_all wf_settings (sv_pending sv')"
    using pending new cached by (auto simp: defs split: option.split)
  show "sv_cached sv' = Some (sv_tab sv')" "sv_phase sv' = sv_phase (fh_saver h)" "sv_tab sv' = sv_tab (fh_saver h)"
    using cached by (auto simp: defs split: option.split)
  show "sv_pending (fh_saver h) \<noteq> [] \<Longrightarrow> sv_pending sv' \<noteq> [] \<and> hd (sv_pending sv') = hd (sv_pending (fh_saver h))"
    by (auto simp: defs split: option.split)
  show "shown_settings corpora sv' =
      (if editing then shown_settings corpora (fh_saver h) else patched (shown_settings corpora (fh_saver h)) patch)"
    using cached by (cases "patch = empty_patch"; cases display) (simp_all add: defs)
qed

lemma save_step_ok: "save_step base tab corpora h event h' \<Longrightarrow> saver_ok corpora settings h \<Longrightarrow> saver_ok corpora settings h'"
proof (induction rule: save_step.induct)
  case (settings_changed patch h editing display)
  note changed = changed_saver [OF settings_changed(2,1), of base tab editing display]
  show ?case using settings_changed(2) changed
    by (auto simp: saver_ok_def Let_def split: save_phase.splits)
next
  case (answer_arrived h updated)
  then obtain s rest where pending: "sv_pending (fh_saver h) = s # rest" "wf_settings s" "list_all wf_settings rest"
    by (cases "sv_pending (fh_saver h)") (auto simp: saver_ok_def Let_def)
  then show ?case using answer_arrived settings_read_back [OF pending(2), of corpora]
    by (auto simp: saver_ok_def Let_def save_succeeded_def save_settled_def shown_settings_def latest_pending_def)
next
  case (save_rejected h)
  then show ?case
    by (cases "sv_pending (fh_saver h)") (auto simp: saver_ok_def Let_def save_failed_def save_settled_def)
next
  case (tabs_fetched h)
  then show ?case
    by (auto simp: saver_ok_def Let_def shown_settings_def latest_pending_def split: save_phase.splits)
qed (auto simp: saver_ok_def Let_def shown_settings_def latest_pending_def)

lemma save_reachable_ok: "save_reachable base tab corpora settings store h \<Longrightarrow> saver_ok corpora settings h"
  by (induction rule: save_reachable.induct)
    (auto simp: save_step_ok, simp add: saver_ok_def opened_tab_def shown_settings_def latest_pending_def)

subsection \<open>Properties\<close>


definition example_change :: settings_patch where
  "example_change = empty_patch\<lparr>pa_stopwordsEnabled := Some True\<rparr>"

definition example_recolor :: settings_patch where
  "example_recolor = empty_patch\<lparr>pa_colors := Some [(''k'', ''#000000'')]\<rparr>"

definition example_changed :: frequency_host where
  "example_changed =
     (let h = opened_tab (JS_Object []) initial_frequency;
          h1 = h\<lparr>fh_saver := change_settings ''b'' ''t'' False [] example_change None (fh_saver h), fh_changes := [example_change]\<rparr>
      in h1\<lparr>fh_saver := change_settings ''b'' ''t'' False [] example_recolor None (fh_saver h1),
            fh_changes := [example_change, example_recolor]\<rparr>)"

lemma example_changed_reachable: "save_reachable ''b'' ''t'' [] (JS_Object []) initial_frequency example_changed"
proof -
  let ?h = "opened_tab (JS_Object []) initial_frequency"
  let ?h1 = "?h\<lparr>fh_saver := change_settings ''b'' ''t'' False [] example_change None (fh_saver ?h), fh_changes := [example_change]\<rparr>"
  have "save_step ''b'' ''t'' [] ?h (Settings_changed False example_change None) ?h1"
    using settings_changed [of example_change "''b''" "''t''" "[]" ?h False None]
    by (simp add: wf_patch_def example_change_def empty_patch_def opened_tab_def)
  moreover have "save_step ''b'' ''t'' [] ?h1 (Settings_changed False example_recolor None) example_changed"
    using settings_changed [of example_recolor "''b''" "''t''" "[]" ?h1 False None]
    by (simp add: wf_patch_def example_recolor_def empty_patch_def example_changed_def Let_def)
  ultimately show ?thesis by (blast intro: tab_stepped tab_opened)
qed


end
