(* ===== verification/Split_Pane.thy ===== *)
theory Split_Pane
  imports Preferences Js_Number
begin

text \<open>
  Resizable panes, \<open>hooks/useResizableSplit.ts\<close>: the clamped value, dragging with the pointer, the keyboard, and the
  saves of the layout preference. Numbers are exact, with infinite bounds where the source has them. Every event is
  followed by the commit that React makes for it, in which the effect on the value and on dragging runs when one of
  them changed.
\<close>

subsection \<open>Options\<close>

datatype split_orientation = Horizontal | Vertical

datatype split_mode = Percent | Pixel

datatype split_anchor = Anchor_start | Anchor_end

record pane_options =
  po_orientation :: split_orientation
  po_mode :: split_mode
  po_anchor :: split_anchor
  po_defaultValue :: rat
  po_min :: "rat option"
  po_max :: "rat option"
  po_maxPixels :: "rat option"
  po_onLiveUpdate :: bool
  po_keyboardStep :: "rat option"
  po_persistKey :: "string option"

definition DEFAULT_PERCENT_MIN :: rat where "DEFAULT_PERCENT_MIN = 15 / 100"
definition DEFAULT_PERCENT_MAX :: rat where "DEFAULT_PERCENT_MAX = 85 / 100"

definition pane_min :: "pane_options \<Rightarrow> js_number" where
  "pane_min opts =
     (case po_min opts of
        Some m \<Rightarrow> Finite m
      | None \<Rightarrow> (case po_mode opts of Percent \<Rightarrow> Finite DEFAULT_PERCENT_MIN | Pixel \<Rightarrow> Neg_Infinity))"

definition pane_max :: "pane_options \<Rightarrow> js_number" where
  "pane_max opts =
     (case po_max opts of
        Some m \<Rightarrow> Finite m
      | None \<Rightarrow> (case po_mode opts of Percent \<Rightarrow> Finite DEFAULT_PERCENT_MAX | Pixel \<Rightarrow> Infinity))"

definition keyboard_step :: "pane_options \<Rightarrow> rat" where
  "keyboard_step opts =
     (case po_keyboardStep opts of
        Some s \<Rightarrow> s
      | None \<Rightarrow> (case po_mode opts of Percent \<Rightarrow> 5 / 100 | Pixel \<Rightarrow> 10))"

subsection \<open>Clamping\<close>

definition num_max :: "js_number \<Rightarrow> js_number \<Rightarrow> js_number" where
  "num_max a b = (if a = NaN \<or> b = NaN then NaN else if num_less a b then b else a)"

definition num_min :: "js_number \<Rightarrow> js_number \<Rightarrow> js_number" where
  "num_min a b = (if a = NaN \<or> b = NaN then NaN else if num_less b a then b else a)"

definition num_shift :: "js_number \<Rightarrow> rat \<Rightarrow> js_number" where
  "num_shift a d = (case a of Finite x \<Rightarrow> Finite (x + d) | _ \<Rightarrow> a)"

definition effective_max :: "js_number \<Rightarrow> split_mode \<Rightarrow> rat option \<Rightarrow> rat option \<Rightarrow> js_number" where
  "effective_max upper mode maxPixels containerSize =
     (case (mode, maxPixels, containerSize) of
        (Percent, Some pixels, Some extent) \<Rightarrow> if extent > 0 then num_min upper (Finite (pixels / extent)) else upper
      | _ \<Rightarrow> upper)"

definition clampSplitValue ::
    "js_number \<Rightarrow> js_number \<Rightarrow> js_number \<Rightarrow> split_mode \<Rightarrow> rat option \<Rightarrow> rat option \<Rightarrow> js_number" where
  "clampSplitValue v lower upper mode maxPixels containerSize =
     num_min (effective_max upper mode maxPixels containerSize) (num_max lower v)"

definition pane_clamp :: "pane_options \<Rightarrow> rat option \<Rightarrow> js_number \<Rightarrow> js_number" where
  "pane_clamp opts extent v = clampSplitValue v (pane_min opts) (pane_max opts) (po_mode opts) (po_maxPixels opts) extent"

subsection \<open>State\<close>

definition layout_value :: "layout_key \<Rightarrow> layout \<Rightarrow> rat" where
  "layout_value key l =
     (case key of
        SidebarWidth \<Rightarrow> ly_sidebarWidth l
      | AsidePanelRatio \<Rightarrow> ly_asidePanelRatio l
      | ProjectGraphRatio \<Rightarrow> ly_projectGraphRatio l)"

definition set_layout :: "layout_key \<Rightarrow> rat \<Rightarrow> layout \<Rightarrow> layout" where
  "set_layout key v l =
     (case key of
        SidebarWidth \<Rightarrow> l\<lparr>ly_sidebarWidth := v\<rparr>
      | AsidePanelRatio \<Rightarrow> l\<lparr>ly_asidePanelRatio := v\<rparr>
      | ProjectGraphRatio \<Rightarrow> l\<lparr>ly_projectGraphRatio := v\<rparr>)"

definition readPersisted :: "string option \<Rightarrow> rat \<Rightarrow> layout \<Rightarrow> rat" where
  "readPersisted key fallback l = (case layoutKey key of Some field \<Rightarrow> layout_value field l | None \<Rightarrow> fallback)"

text \<open>
  \<open>pn_saves\<close> are the patches that have not settled, first the oldest; \<open>pn_layout\<close> is the layout of the window's
  preferences. \<open>pn_skipped\<close> records that the last effect found nothing to save while a save was pending.
\<close>

record pane =
  pn_preferred :: js_number
  pn_size :: "rat option"
  pn_live :: js_number
  pn_frame :: bool
  pn_dragging :: bool
  pn_pointer :: "int option"
  pn_saves :: "js_number list"
  pn_layout :: layout
  pn_skipped :: bool

datatype pane_call = Live_update js_number | Drag_started | Drag_ended

definition pane_value :: "pane_options \<Rightarrow> pane \<Rightarrow> js_number" where
  "pane_value opts p = pane_clamp opts (pn_size p) (pn_preferred p)"

text \<open>The effect on the value and on dragging.\<close>

definition save_effect :: "pane_options \<Rightarrow> pane \<Rightarrow> pane" where
  "save_effect opts p =
     (case layoutKey (po_persistKey opts) of
        None \<Rightarrow> p
      | Some field \<Rightarrow>
          if pn_dragging p then p
          else if pn_preferred p = Finite (layout_value field (pn_layout p))
          then p\<lparr>pn_skipped := pn_saves p \<noteq> []\<rparr>
          else p\<lparr>pn_saves := pn_saves p @ [pn_preferred p], pn_skipped := False\<rparr>)"

definition commit :: "pane_options \<Rightarrow> pane \<Rightarrow> pane \<Rightarrow> pane" where
  "commit opts old p =
     (if pn_preferred p \<noteq> pn_preferred old \<or> pn_dragging p \<noteq> pn_dragging old then save_effect opts p else p)"

definition initial_pane :: "pane_options \<Rightarrow> layout \<Rightarrow> pane" where
  "initial_pane opts l =
     (let preferred = pane_clamp opts None (Finite (readPersisted (po_persistKey opts) (po_defaultValue opts) l))
      in save_effect opts \<lparr>pn_preferred = preferred, pn_size = None, pn_live = preferred, pn_frame = False,
           pn_dragging = False, pn_pointer = None, pn_saves = [], pn_layout = l, pn_skipped = False\<rparr>)"

subsection \<open>Pointer\<close>

record client_rect =
  cr_left :: rat
  cr_top :: rat
  cr_width :: rat
  cr_height :: rat

definition along :: "pane_options \<Rightarrow> rat \<Rightarrow> rat \<Rightarrow> rat option" where
  "along opts extent offset =
     (if extent \<le> 0 then None
      else Some (case po_anchor opts of Anchor_end \<Rightarrow> extent - offset | Anchor_start \<Rightarrow> offset))"

definition computeFromPointer :: "pane_options \<Rightarrow> rat \<Rightarrow> rat \<Rightarrow> client_rect option \<Rightarrow> js_number option" where
  "computeFromPointer opts x y rect =
     (case rect of
        None \<Rightarrow> None
      | Some r \<Rightarrow>
          (let (extent, offset) = (case po_orientation opts of
                 Horizontal \<Rightarrow> (cr_height r, y - cr_top r) | Vertical \<Rightarrow> (cr_width r, x - cr_left r))
           in map_option (\<lambda>anchored. pane_clamp opts (Some extent)
                (Finite (case po_mode opts of Percent \<Rightarrow> anchored / extent | Pixel \<Rightarrow> anchored)))
                (along opts extent offset)))"

definition onPointerDown :: "pane_options \<Rightarrow> int \<Rightarrow> pane \<Rightarrow> pane \<times> pane_call list" where
  "onPointerDown opts pointer p =
     (p\<lparr>pn_dragging := True, pn_live := pane_value opts p, pn_pointer := Some pointer\<rparr>, [Drag_started])"

definition handlePointerMove ::
    "pane_options \<Rightarrow> int \<Rightarrow> bool \<Rightarrow> rat \<Rightarrow> rat \<Rightarrow> client_rect option \<Rightarrow> pane \<Rightarrow> pane" where
  "handlePointerMove opts pointer captured x y rect p =
     (if pn_pointer p \<noteq> Some pointer \<or> \<not> captured then p
      else case computeFromPointer opts x y rect of
             None \<Rightarrow> p
           | Some new_value \<Rightarrow>
               if po_onLiveUpdate opts then p\<lparr>pn_live := new_value, pn_frame := True\<rparr>
               else p\<lparr>pn_live := new_value, pn_preferred := new_value\<rparr>)"

definition animation_frame :: "pane \<Rightarrow> pane \<times> pane_call list" where
  "animation_frame p = (if pn_frame p then (p\<lparr>pn_frame := False\<rparr>, [Live_update (pn_live p)]) else (p, []))"

definition handlePointerEnd :: "int \<Rightarrow> pane \<Rightarrow> pane \<times> pane_call list" where
  "handlePointerEnd pointer p =
     (if pn_pointer p \<noteq> Some pointer then (p, [])
      else (p\<lparr>pn_dragging := False, pn_pointer := None, pn_frame := False, pn_preferred := pn_live p\<rparr>, [Drag_ended]))"

subsection \<open>Keyboard\<close>

definition pane_key :: "pane_options \<Rightarrow> string \<Rightarrow> pane \<Rightarrow> pane" where
  "pane_key opts key p =
     (let clamp = pane_clamp opts (pn_size p);
          startward = (case po_orientation opts of Horizontal \<Rightarrow> ''ArrowUp'' | Vertical \<Rightarrow> ''ArrowLeft'');
          endward = (case po_orientation opts of Horizontal \<Rightarrow> ''ArrowDown'' | Vertical \<Rightarrow> ''ArrowRight'');
          delta = (case po_anchor opts of Anchor_end \<Rightarrow> keyboard_step opts | Anchor_start \<Rightarrow> - keyboard_step opts)
      in if key = startward then p\<lparr>pn_preferred := clamp (num_shift (pane_value opts p) delta)\<rparr>
         else if key = endward then p\<lparr>pn_preferred := clamp (num_shift (pane_value opts p) (- delta))\<rparr>
         else if key = ''Home'' then p\<lparr>pn_preferred := clamp (pane_min opts)\<rparr>
         else if key = ''End'' then p\<lparr>pn_preferred := clamp (pane_max opts)\<rparr>
         else if key = ''Enter'' \<or> key = '' '' then p\<lparr>pn_preferred := clamp (Finite (po_defaultValue opts))\<rparr>
         else p)"

definition onDoubleClick :: "pane_options \<Rightarrow> pane \<Rightarrow> pane" where
  "onDoubleClick opts p = p\<lparr>pn_preferred := pane_clamp opts (pn_size p) (Finite (po_defaultValue opts))\<rparr>"

subsection \<open>Saves and preferences\<close>

definition measure :: "pane_options \<Rightarrow> client_rect \<Rightarrow> pane \<Rightarrow> pane" where
  "measure opts r p =
     (if po_mode opts = Percent \<and> po_maxPixels opts \<noteq> None
      then p\<lparr>pn_size := Some (case po_orientation opts of Vertical \<Rightarrow> cr_width r | Horizontal \<Rightarrow> cr_height r)\<rparr>
      else p)"

text \<open>\<open>finish\<close> of the oldest save.\<close>

definition finish_save :: "layout_key \<Rightarrow> pane \<Rightarrow> pane" where
  "finish_save field p =
     (let p' = p\<lparr>pn_saves := tl (pn_saves p)\<rparr> in
      if pn_saves p' = [] \<and> pn_preferred p = hd (pn_saves p)
      then p'\<lparr>pn_preferred := Finite (layout_value field (pn_layout p))\<rparr> else p')"

text \<open>The subscription, when the window has accepted preferences with another layout.\<close>

definition preferences_changed :: "pane_options \<Rightarrow> layout \<Rightarrow> pane \<Rightarrow> pane" where
  "preferences_changed opts l p =
     (case layoutKey (po_persistKey opts) of
        Some field \<Rightarrow>
          if pn_saves p = [] \<and> \<not> pn_dragging p
          then p\<lparr>pn_layout := l, pn_preferred := Finite (layout_value field l)\<rparr> else p\<lparr>pn_layout := l\<rparr>
      | None \<Rightarrow> p\<lparr>pn_layout := l\<rparr>)"

subsection \<open>Runs\<close>

datatype pane_event =
    Resize_started int
  | Resize_moved int bool rat rat "client_rect option"
  | Resize_ended int
  | Frame_drawn
  | Resize_keyed string
  | Double_clicked
  | Measured client_rect
  | Resize_saved layout
  | Resize_not_saved
  | Layout_accepted layout

text \<open>The answer to a save is accepted, which reaches the subscription first; then the save finishes.\<close>

fun pane_handle :: "pane_options \<Rightarrow> pane_event \<Rightarrow> pane \<Rightarrow> pane \<times> pane_call list" where
  "pane_handle opts (Resize_started pointer) p = onPointerDown opts pointer p"
| "pane_handle opts (Resize_moved pointer captured x y rect) p = (handlePointerMove opts pointer captured x y rect p, [])"
| "pane_handle opts (Resize_ended pointer) p = handlePointerEnd pointer p"
| "pane_handle opts Frame_drawn p = animation_frame p"
| "pane_handle opts (Resize_keyed key) p = (pane_key opts key p, [])"
| "pane_handle opts Double_clicked p = (onDoubleClick opts p, [])"
| "pane_handle opts (Measured r) p = (measure opts r p, [])"
| "pane_handle opts (Resize_saved l) p =
     (case layoutKey (po_persistKey opts) of
        Some field \<Rightarrow> (finish_save field (preferences_changed opts l p), []) | None \<Rightarrow> (p, []))"
| "pane_handle opts Resize_not_saved p =
     (case layoutKey (po_persistKey opts) of Some field \<Rightarrow> (finish_save field p, []) | None \<Rightarrow> (p, []))"
| "pane_handle opts (Layout_accepted l) p = (preferences_changed opts l p, [])"

text \<open>Saves settle in order, since \<open>writer\<close> sends them so; the accepted layout holds the value that was sent.\<close>

fun pane_admits :: "pane_options \<Rightarrow> pane_event \<Rightarrow> pane \<Rightarrow> bool" where
  "pane_admits opts (Resize_saved l) p \<longleftrightarrow>
     (case (layoutKey (po_persistKey opts), pn_saves p) of
        (Some field, v # _) \<Rightarrow> v = Finite (layout_value field l) | _ \<Rightarrow> False)"
| "pane_admits opts Resize_not_saved p \<longleftrightarrow> pn_saves p \<noteq> []"
| "pane_admits opts event p \<longleftrightarrow> True"

inductive pane_step :: "pane_options \<Rightarrow> pane \<Rightarrow> pane_event \<Rightarrow> pane_call list \<Rightarrow> pane \<Rightarrow> bool"
  for opts :: pane_options where
  pane_handled: "pane_admits opts event p \<Longrightarrow> pane_handle opts event p = (p', calls) \<Longrightarrow>
    pane_step opts p event calls (commit opts p p')"

inductive pane_reachable :: "pane_options \<Rightarrow> layout \<Rightarrow> pane \<Rightarrow> bool"
  for opts :: pane_options and l :: layout where
  pane_mounted: "pane_reachable opts l (initial_pane opts l)"
| pane_stepped: "pane_reachable opts l p \<Longrightarrow> pane_step opts p event calls p' \<Longrightarrow> pane_reachable opts l p'"

subsection \<open>What is stored\<close>

definition stored_ok :: "layout_key \<Rightarrow> pane \<Rightarrow> bool" where
  "stored_ok field p \<longleftrightarrow>
     (\<not> pn_dragging p \<and> \<not> pn_skipped p \<longrightarrow>
        (if pn_saves p = [] then pn_preferred p = Finite (layout_value field (pn_layout p))
         else last (pn_saves p) = pn_preferred p))"

lemma commit_unchanged: "pn_preferred p' = pn_preferred p \<Longrightarrow> pn_dragging p' = pn_dragging p \<Longrightarrow> commit opts p p' = p'"
  by (simp add: commit_def)

lemma commit_same [simp]: "commit opts p p = p"
  by (simp add: commit_unchanged)

lemma commit_changed:
  assumes "layoutKey (po_persistKey opts) = Some field" and "pn_preferred p' \<noteq> pn_preferred p \<or> pn_dragging p' \<noteq> pn_dragging p"
  shows "stored_ok field (commit opts p p')"
  using assms by (auto simp: commit_def save_effect_def stored_ok_def)

text \<open>After an event that leaves saves, preferences and the note of a skipped save alone.\<close>

lemma commit_local:
  assumes "layoutKey (po_persistKey opts) = Some field" and "stored_ok field p"
    and "pn_saves p' = pn_saves p" "pn_layout p' = pn_layout p" "pn_skipped p' = pn_skipped p"
  shows "stored_ok field (commit opts p p')"
proof (cases "pn_preferred p' = pn_preferred p \<and> pn_dragging p' = pn_dragging p")
  case True
  then show ?thesis using assms(2-) by (simp add: commit_unchanged stored_ok_def)
qed (use commit_changed [OF assms(1)] in blast)

lemma handlers_local:
  "pn_saves (pane_key opts key p) = pn_saves p \<and> pn_layout (pane_key opts key p) = pn_layout p \<and> pn_skipped (pane_key opts key p) = pn_skipped p"
  "pn_saves (handlePointerMove opts i c x y r p) = pn_saves p \<and> pn_layout (handlePointerMove opts i c x y r p) = pn_layout p \<and>
   pn_skipped (handlePointerMove opts i c x y r p) = pn_skipped p"
  by (auto simp: pane_key_def handlePointerMove_def Let_def split: option.split)

lemma pane_step_stored:
  assumes key: "layoutKey (po_persistKey opts) = Some field" and step: "pane_step opts p event calls p'" and ok: "stored_ok field p"
  shows "stored_ok field p'"
proof -
  obtain q where q: "pane_admits opts event p" "pane_handle opts event p = (q, calls)" "p' = commit opts p q"
    using step by (auto elim: pane_step.cases)
  note local = commit_local [OF key ok]
  have settled: "stored_ok field (commit opts p q)" if "stored_ok field q"
  proof (cases "pn_preferred q = pn_preferred p \<and> pn_dragging q = pn_dragging p")
    case True
    then show ?thesis using that by (simp add: commit_unchanged)
  qed (use commit_changed [OF key] in blast)
  show ?thesis
  proof (cases event)
    case (Resize_saved l)
    then obtain rest where saves: "pn_saves p = Finite (layout_value field l) # rest"
      using q(1) key by (auto split: list.split_asm)
    then have "stored_ok field q"
      using q(2) key ok Resize_saved
      by (auto simp: stored_ok_def finish_save_def preferences_changed_def Let_def split: if_split_asm)
    then show ?thesis using settled q(3) by simp
  next
    case Resize_not_saved
    then have "stored_ok field q"
      using q(1,2) key ok by (auto simp: stored_ok_def finish_save_def Let_def neq_Nil_conv split: if_split_asm)
    then show ?thesis using settled q(3) by simp
  next
    case (Layout_accepted l)
    then have "stored_ok field q" using q(2) key ok by (auto simp: stored_ok_def preferences_changed_def split: if_split_asm)
    then show ?thesis using settled q(3) by simp
  next
    case (Resize_moved i c x y r)
    then show ?thesis using q(2) unfolding q(3) by (intro local) (use handlers_local(2) in auto)
  next
    case (Resize_keyed k)
    then show ?thesis using q(2) unfolding q(3) by (intro local) (use handlers_local(1) in auto)
  qed (use q(2) ok in \<open>auto simp: q(3) onPointerDown_def handlePointerEnd_def animation_frame_def onDoubleClick_def measure_def
        split: if_split_asm intro!: local\<close>)
qed

lemma pane_reachable_stored:
  "pane_reachable opts l p \<Longrightarrow> layoutKey (po_persistKey opts) = Some field \<Longrightarrow> stored_ok field p"
proof (induction rule: pane_reachable.induct)
  case pane_mounted
  then show ?case by (simp add: initial_pane_def save_effect_def stored_ok_def Let_def)
qed (rule pane_step_stored)

subsection \<open>Bounds\<close>

lemma num_min_le: "a \<noteq> NaN \<Longrightarrow> b \<noteq> NaN \<Longrightarrow> num_le (num_min a b) a \<and> num_le (num_min a b) b"
  by (cases a; cases b) (auto simp: num_min_def num_le_def num_eq_def)

lemma num_max_ge: "a \<noteq> NaN \<Longrightarrow> b \<noteq> NaN \<Longrightarrow> num_le a (num_max a b) \<and> num_max a b \<noteq> NaN"
  by (cases a; cases b) (auto simp: num_max_def num_le_def num_eq_def)

lemma num_min_ge: "num_le c a \<Longrightarrow> num_le c b \<Longrightarrow> num_le c (num_min a b)"
  by (cases a; cases b; cases c) (auto simp: num_min_def num_le_def num_eq_def)

lemma bounds_not_NaN: "pane_min opts \<noteq> NaN" "pane_max opts \<noteq> NaN" "effective_max (pane_max opts) mode pixels extent \<noteq> NaN"
proof -
  show a: "pane_min opts \<noteq> NaN" and b: "pane_max opts \<noteq> NaN"
    by (simp_all add: pane_min_def pane_max_def split: option.split split_mode.split)
  show "effective_max (pane_max opts) mode pixels extent \<noteq> NaN"
    using b by (auto simp: effective_max_def num_min_def split: option.split split_mode.split)
qed

text \<open>A clamped value is never above the effective maximum, and not below the minimum when the two leave room.\<close>

lemma pane_clamp_bounds:
  fixes opts :: pane_options and extent :: "rat option"
  assumes "v \<noteq> NaN"
  defines "upper \<equiv> effective_max (pane_max opts) (po_mode opts) (po_maxPixels opts) extent"
  shows "num_le (pane_clamp opts extent v) upper"
    and "num_le (pane_min opts) upper \<Longrightarrow> num_le (pane_min opts) (pane_clamp opts extent v)"
  using assms bounds_not_NaN num_max_ge num_min_le num_min_ge
  by (simp_all add: pane_clamp_def clampSplitValue_def)

text \<open>Between the bounds the separator follows the pointer exactly: the pane ends where the pointer is.\<close>

lemma pointer_followed:
  assumes "computeFromPointer opts x y (Some r) = Some (Finite v)" and "po_mode opts = Percent" and "po_orientation opts = Vertical"
    and "po_anchor opts = Anchor_start" and "num_less (pane_min opts) (Finite v)"
    and "num_less (Finite v) (effective_max (pane_max opts) Percent (po_maxPixels opts) (Some (cr_width r)))"
  shows "cr_left r + v * cr_width r = x"
proof -
  let ?w = "cr_width r" and ?u = "effective_max (pane_max opts) Percent (po_maxPixels opts) (Some (cr_width r))"
  have w: "?w > 0" "num_min ?u (num_max (pane_min opts) (Finite ((x - cr_left r) / ?w))) = Finite v"
    using assms(1-4) by (auto simp: computeFromPointer_def along_def pane_clamp_def clampSplitValue_def split: if_split_asm)
  then have "v = (x - cr_left r) / ?w"
    using assms(5,6) by (auto simp: num_min_def num_max_def split: if_split_asm)
  then show ?thesis using w(1) by simp
qed

subsection \<open>Properties\<close>


definition example_pane_options :: pane_options where
  "example_pane_options =
     \<lparr>po_orientation = Vertical, po_mode = Percent, po_anchor = Anchor_start, po_defaultValue = 3 / 10,
      po_min = Some (1 / 5), po_max = Some (4 / 5), po_maxPixels = None, po_onLiveUpdate = False,
      po_keyboardStep = None, po_persistKey = Some ''ldaca.layout.asidePanelRatio''\<rparr>"

definition example_layout :: layout where
  "example_layout = pf_layout defaultPreferences"

definition example_pane_run :: "pane list" where
  "example_pane_run =
     (let opts = example_pane_options; p0 = initial_pane opts example_layout;
          p1 = commit opts p0 (fst (pane_handle opts (Resize_keyed ''ArrowRight'') p0));
          p2 = commit opts p1 (fst (pane_handle opts (Resize_keyed ''Enter'') p1));
          saved = Resize_saved (set_layout AsidePanelRatio (7 / 20) example_layout)
      in [p0, p1, p2, commit opts p1 (fst (pane_handle opts saved p1)), commit opts p2 (fst (pane_handle opts saved p2))])"

lemma pane_next: "pane_reachable opts l p \<Longrightarrow> pane_admits opts event p \<Longrightarrow> pane_reachable opts l (commit opts p (fst (pane_handle opts event p)))"
  by (cases "pane_handle opts event p") (auto intro: pane_stepped pane_handled)

lemma example_layout_key: "layoutKey (po_persistKey example_pane_options) = Some AsidePanelRatio"
  by code_simp

lemma example_pane_states:
  "pn_saves (example_pane_run ! 1) = [Finite (7 / 20)]" "pn_saves (example_pane_run ! 2) = [Finite (7 / 20)]"
  "pn_saves (example_pane_run ! 3) = []" "pn_dragging (example_pane_run ! 3) = False" "pn_skipped (example_pane_run ! 3) = False"
  "layout_value AsidePanelRatio (pn_layout (example_pane_run ! 3)) = 7 / 20"
  "pn_saves (example_pane_run ! 4) = []" "pn_dragging (example_pane_run ! 4) = False"
  "pane_value example_pane_options (example_pane_run ! 4) = Finite (3 / 10)"
  "layout_value AsidePanelRatio (pn_layout (example_pane_run ! 4)) = 7 / 20"
  by code_simp+

lemma example_run_reachable: "\<forall>i \<in> {1, 2, 3, 4}. pane_reachable example_pane_options example_layout (example_pane_run ! i)"
proof -
  let ?opts = "example_pane_options" and ?run = "example_pane_run"
  let ?saved = "Resize_saved (set_layout AsidePanelRatio (7 / 20) example_layout)"
  have p1: "pane_reachable ?opts example_layout (?run ! 1)"
    using pane_next [OF pane_mounted, of ?opts "Resize_keyed ''ArrowRight''" example_layout]
    by (simp add: example_pane_run_def Let_def)
  have p2: "pane_reachable ?opts example_layout (?run ! 2)"
    using pane_next [OF p1, of "Resize_keyed ''Enter''"] by (simp add: example_pane_run_def Let_def)
  have stored: "layout_value AsidePanelRatio (set_layout AsidePanelRatio (7 / 20) example_layout) = 7 / 20" by code_simp
  have "pane_reachable ?opts example_layout (?run ! 3)"
    using pane_next [OF p1, of ?saved] example_pane_states(1) stored
    by (simp add: example_layout_key) (simp add: example_pane_run_def example_layout_key Let_def)
  moreover have "pane_reachable ?opts example_layout (?run ! 4)"
    using pane_next [OF p2, of ?saved] example_pane_states(2) stored
    by (simp add: example_layout_key) (simp add: example_pane_run_def example_layout_key Let_def)
  ultimately show ?thesis using p1 p2 by simp
qed



end
