(* ===== verification/Plot_Text.thy ===== *)
theory Plot_Text
  imports Js_Value Json_Text
begin

text \<open>
  Texts and numbers of plots, from \<open>features/tools/plots/plotModel.ts\<close> and \<open>common/analysisValue.ts\<close>: the values of
  a row, the labels of categories, labels wrapped to a width, and numeric axes that keep large integers apart. The
  width of a text is measured by the chart library and is an argument; so are \<open>JSON.parse\<close> and \<open>JSON.stringify\<close> of
  values that are not arrays of strings.
\<close>

subsection \<open>Values\<close>

text \<open>What a decoded Arrow cell holds. An object is given by its JSON text.\<close>

datatype plot_value =
    PV_undefined
  | PV_null
  | PV_bool bool
  | PV_number js_number
  | PV_bigint int
  | PV_string string
  | PV_object string

type_synonym plot_row = "(string \<times> plot_value) list"

definition cell :: "plot_row \<Rightarrow> string \<Rightarrow> plot_value" where
  "cell row name = (case map_of row name of Some v \<Rightarrow> v | None \<Rightarrow> PV_undefined)"

text \<open>The dash of \<open>showValue\<close>, in UTF-8.\<close>

definition no_value :: string where
  "no_value = [CHR 0xE2, CHR 0x80, CHR 0x94]"

definition show_bool :: "bool \<Rightarrow> string" where
  "show_bool b = (if b then ''true'' else ''false'')"

definition showValue :: "plot_value \<Rightarrow> string" where
  "showValue v =
     (case v of
        PV_undefined \<Rightarrow> no_value
      | PV_null \<Rightarrow> no_value
      | PV_bool b \<Rightarrow> show_bool b
      | PV_number n \<Rightarrow> show_number n
      | PV_bigint n \<Rightarrow> show_int n
      | PV_string s \<Rightarrow> s
      | PV_object json \<Rightarrow> json)"

text \<open>\<open>String(v)\<close> and \<open>Number(v)\<close>.\<close>

definition js_String :: "plot_value \<Rightarrow> string" where
  "js_String v =
     (case v of
        PV_undefined \<Rightarrow> ''undefined''
      | PV_null \<Rightarrow> ''null''
      | PV_bool b \<Rightarrow> show_bool b
      | PV_number n \<Rightarrow> show_number n
      | PV_bigint n \<Rightarrow> show_int n
      | PV_string s \<Rightarrow> s
      | PV_object _ \<Rightarrow> ''[object Object]'')"

definition js_Number :: "plot_value \<Rightarrow> js_number" where
  "js_Number v =
     (case v of
        PV_undefined \<Rightarrow> NaN
      | PV_null \<Rightarrow> Finite 0
      | PV_bool b \<Rightarrow> Finite (if b then 1 else 0)
      | PV_number n \<Rightarrow> n
      | PV_bigint n \<Rightarrow> to_double (of_int n)
      | PV_string s \<Rightarrow> Number s
      | PV_object _ \<Rightarrow> NaN)"

definition nullish :: "plot_value \<Rightarrow> bool" where
  "nullish v \<longleftrightarrow> v = PV_null \<or> v = PV_undefined"

definition row_text :: "plot_row \<Rightarrow> string \<Rightarrow> string" where
  "row_text row name = showValue (cell row name)"

definition row_number :: "plot_row \<Rightarrow> string \<Rightarrow> js_number option" where
  "row_number row name = (if nullish (cell row name) then None else Some (js_Number (cell row name)))"

text \<open>\<open>Number(r.row_count ?? 0)\<close>.\<close>

definition number_or_zero :: "plot_value \<Rightarrow> js_number" where
  "number_or_zero v = (if nullish v then Finite 0 else js_Number v)"

subsection \<open>Arithmetic\<close>

text \<open>Sums, products and quotients are exact on finite numbers.\<close>

definition num_add :: "js_number \<Rightarrow> js_number \<Rightarrow> js_number" where
  "num_add a b =
     (case (a, b) of
        (Finite x, Finite y) \<Rightarrow> Finite (x + y)
      | (NaN, _) \<Rightarrow> NaN
      | (_, NaN) \<Rightarrow> NaN
      | (Infinity, Neg_Infinity) \<Rightarrow> NaN
      | (Neg_Infinity, Infinity) \<Rightarrow> NaN
      | (Finite _, y) \<Rightarrow> y
      | (x, _) \<Rightarrow> x)"

text \<open>\<open>(v / total) * 100\<close> for a total that is not zero.\<close>

definition signed_infinity :: "bool \<Rightarrow> js_number" where
  "signed_infinity negative = (if negative then Neg_Infinity else Infinity)"

definition num_percent :: "js_number \<Rightarrow> js_number \<Rightarrow> js_number" where
  "num_percent v whole =
     (case (v, whole) of
        (Finite x, Finite t) \<Rightarrow> Finite (100 * x / t)
      | (Finite _, Infinity) \<Rightarrow> Finite 0
      | (Finite _, Neg_Infinity) \<Rightarrow> Finite 0
      | (Infinity, Finite t) \<Rightarrow> signed_infinity (t < 0)
      | (Neg_Infinity, Finite t) \<Rightarrow> signed_infinity (t > 0)
      | _ \<Rightarrow> NaN)"

subsection \<open>Labels of categories\<close>

definition middle_dot :: string where
  "middle_dot = '' '' @ [CHR 0xC2, CHR 0xB7] @ '' ''"

text \<open>A label of a parsed value; \<open>print\<close> is \<open>showValue\<close> on parsed JSON that is neither null nor a string.\<close>

definition value_label :: "(js \<Rightarrow> string) \<Rightarrow> js \<Rightarrow> string" where
  "value_label print v =
     (case v of
        JS_Null \<Rightarrow> ''(Missing)''
      | JS_String s \<Rightarrow>
          if s = [] then ''(empty)''
          else if s \<in> {''(Missing)'', ''(empty)''} then json_string s else s
      | _ \<Rightarrow> print v)"

definition categoryLabel :: "(string \<Rightarrow> js) \<Rightarrow> (js \<Rightarrow> string) \<Rightarrow> string \<Rightarrow> string" where
  "categoryLabel parse print key =
     (case parse key of
        JS_Array values \<Rightarrow>
          if values = [] then ''All rows'' else join middle_dot (map (value_label print) values)
      | v \<Rightarrow> value_label print v)"

text \<open>The labels of a missing and of an empty category belong to no other text.\<close>

lemma value_label_missing:
  assumes "v = JS_Null \<or> v = JS_String s"
  shows "value_label print v = ''(Missing)'' \<longleftrightarrow> v = JS_Null"
    and "value_label print v = ''(empty)'' \<longleftrightarrow> v = JS_String []"
  using assms by (auto simp: value_label_def json_string_def split: if_split_asm)

subsection \<open>Wrapping\<close>

text \<open>\<open>Array.from(word)\<close>: a lead byte with its continuation bytes.\<close>

definition continuation :: "char \<Rightarrow> bool" where
  "continuation c \<longleftrightarrow> 128 \<le> (of_char c :: nat) \<and> (of_char c :: nat) < 192"

function characters :: "string \<Rightarrow> string list" where
  "characters [] = []"
| "characters (c # s) = (c # takeWhile continuation s) # characters (dropWhile continuation s)"
  by pat_completeness auto
termination by (relation "measure length") (auto simp: less_Suc_eq_le length_dropWhile_le)

text \<open>\<open>label.split(/\s+/)\<close>, with the part of the current word before.\<close>

function split_space :: "string \<Rightarrow> string \<Rightarrow> string list" where
  "split_space word s =
     (if strip_prefixes white_space s \<noteq> s then word # split_space [] (strip_prefixes white_space s)
      else case s of [] \<Rightarrow> [word] | c # r \<Rightarrow> split_space (word @ [c]) r)"
  by pat_completeness auto
termination
proof (relation "measure (\<lambda>(word, s). length s)", goal_cases)
  case (2 word s)
  obtain p where p: "s = p @ strip_prefixes white_space s" using strip_prefixes_suffix by blast
  then have "length s = length p + length (strip_prefixes white_space s)" by (metis length_append)
  moreover have "p \<noteq> []" using 2 p by auto
  ultimately show ?case by simp
qed auto

declare split_space.simps [simp del]

text \<open>The lines that are finished, and the current line.\<close>

definition add_character :: "(string \<Rightarrow> rat) \<Rightarrow> rat \<Rightarrow> string \<Rightarrow> string list \<times> string \<Rightarrow> string list \<times> string" where
  "add_character width_of width c state =
     (let (lines, line) = state;
          (lines', line') = (if line \<noteq> [] \<and> width_of (line @ c) > width then (lines @ [line], []) else (lines, line))
      in (lines', line' @ c))"

definition add_word :: "(string \<Rightarrow> rat) \<Rightarrow> rat \<Rightarrow> string \<Rightarrow> string list \<times> string \<Rightarrow> string list \<times> string" where
  "add_word width_of width word state =
     (let (lines, line) = state; candidate = (if line \<noteq> [] then line @ '' '' @ word else word)
      in if width_of candidate \<le> width then (lines, candidate)
         else fold (add_character width_of width) (characters word) (if line \<noteq> [] then lines @ [line] else lines, []))"

definition plot_label_lines :: "(string \<Rightarrow> rat) \<Rightarrow> string \<Rightarrow> rat \<Rightarrow> string list" where
  "plot_label_lines width_of label width =
     (let (lines, line) = fold (add_word width_of width) (split_space [] label) ([], [])
      in if line \<noteq> [] then lines @ [line] else lines)"

definition wrapPlotLabel :: "(string \<Rightarrow> rat) \<Rightarrow> string \<Rightarrow> rat \<Rightarrow> string" where
  "wrapPlotLabel width_of label width = join [CHR 0x0A] (plot_label_lines width_of label width)"

subsection \<open>Wrapped labels are complete and fit\<close>

definition no_space :: "string \<Rightarrow> string" where
  "no_space s = filter (\<lambda>c. c \<noteq> CHR '' '') s"

lemma no_space_simps [simp]: "no_space [] = []" "no_space (s @ t) = no_space s @ no_space t"
  by (simp_all add: no_space_def)

lemma concat_characters [simp]: "concat (characters s) = s"
  by (induction s rule: characters.induct) simp_all

lemma characters_nonempty: "c \<in> set (characters s) \<Longrightarrow> c \<noteq> []"
  by (induction s rule: characters.induct) auto

text \<open>A line fits, or it is a single character.\<close>

definition line_fits :: "(string \<Rightarrow> rat) \<Rightarrow> rat \<Rightarrow> string \<Rightarrow> string \<Rightarrow> bool" where
  "line_fits width_of width label line \<longleftrightarrow>
     width_of line \<le> width \<or> (\<exists>word \<in> set (split_space [] label). line \<in> set (characters word))"

definition lines_ok :: "(string \<Rightarrow> rat) \<Rightarrow> rat \<Rightarrow> string \<Rightarrow> string \<Rightarrow> string list \<times> string \<Rightarrow> bool" where
  "lines_ok width_of width label sofar state \<longleftrightarrow>
     no_space (concat (fst state) @ snd state) = sofar \<and>
     (\<forall>line \<in> set (fst state). line \<noteq> [] \<and> line_fits width_of width label line) \<and>
     (snd state \<noteq> [] \<longrightarrow> line_fits width_of width label (snd state))"

lemma add_character_ok:
  assumes "lines_ok width_of width label sofar state" and "word \<in> set (split_space [] label)" and "c \<in> set (characters word)"
  shows "lines_ok width_of width label (sofar @ no_space c) (add_character width_of width c state)"
proof (cases state)
  case (Pair lines line)
  have "line_fits width_of width label c" using assms(2,3) by (auto simp: line_fits_def)
  then show ?thesis using assms(1) unfolding Pair
    by (auto simp: lines_ok_def add_character_def line_fits_def)
qed

lemma add_characters_ok:
  assumes "word \<in> set (split_space [] label)"
  shows "set cs \<subseteq> set (characters word) \<Longrightarrow> lines_ok width_of width label sofar state \<Longrightarrow>
    lines_ok width_of width label (sofar @ no_space (concat cs)) (fold (add_character width_of width) cs state)"
proof (induction cs arbitrary: sofar state)
  case (Cons c cs)
  then have "lines_ok width_of width label (sofar @ no_space c) (add_character width_of width c state)"
    using add_character_ok assms by simp
  from Cons.IH [OF _ this] Cons.prems show ?case by simp
qed (simp add: no_space_def)

lemma add_word_ok:
  assumes ok: "lines_ok width_of width label sofar state" and word: "word \<in> set (split_space [] label)"
  shows "lines_ok width_of width label (sofar @ no_space word) (add_word width_of width word state)"
proof (cases state)
  case (Pair lines line)
  let ?candidate = "if line \<noteq> [] then line @ '' '' @ word else word"
  show ?thesis
  proof (cases "width_of ?candidate \<le> width")
    case True
    then show ?thesis using ok unfolding Pair
      by (auto simp: lines_ok_def add_word_def line_fits_def Let_def no_space_def)
  next
    case False
    let ?start = "(if line \<noteq> [] then lines @ [line] else lines, [])"
    have "lines_ok width_of width label sofar ?start" using ok unfolding Pair by (auto simp: lines_ok_def)
    from add_characters_ok [OF word _ this, of "characters word"] show ?thesis
      using False unfolding Pair by (auto simp: add_word_def Let_def)
  qed
qed

lemma add_words_ok:
  "set ws \<subseteq> set (split_space [] label) \<Longrightarrow> lines_ok width_of width label sofar state \<Longrightarrow>
   lines_ok width_of width label (sofar @ no_space (concat ws)) (fold (add_word width_of width) ws state)"
proof (induction ws arbitrary: sofar state)
  case (Cons w ws)
  then have "lines_ok width_of width label (sofar @ no_space w) (add_word width_of width w state)"
    using add_word_ok by simp
  from Cons.IH [OF _ this] Cons.prems show ?case by simp
qed (simp add: no_space_def)

text \<open>
  A wrapped label is complete: its lines hold the characters of the words of the label in order and nothing else but
  spaces; no line is empty, and each fits the width unless it is a single character.
\<close>

lemma wrapped_label_complete:
  shows "no_space (concat (plot_label_lines width_of label width)) = no_space (concat (split_space [] label))"
    and "line \<in> set (plot_label_lines width_of label width) \<Longrightarrow> line \<noteq> [] \<and> line_fits width_of width label line"
proof -
  obtain lines current where state: "fold (add_word width_of width) (split_space [] label) ([], []) = (lines, current)"
    by force
  have "lines_ok width_of width label ([] @ no_space (concat (split_space [] label)))
      (fold (add_word width_of width) (split_space [] label) ([], []))"
    by (rule add_words_ok) (simp_all add: lines_ok_def)
  then have ok: "lines_ok width_of width label (no_space (concat (split_space [] label))) (lines, current)"
    unfolding state by simp
  have result: "plot_label_lines width_of label width = (if current \<noteq> [] then lines @ [current] else lines)"
    by (simp add: plot_label_lines_def state)
  show "no_space (concat (plot_label_lines width_of label width)) = no_space (concat (split_space [] label))"
    using ok unfolding result by (auto simp: lines_ok_def)
  show "line \<in> set (plot_label_lines width_of label width) \<Longrightarrow> line \<noteq> [] \<and> line_fits width_of width label line"
    using ok unfolding result by (auto simp: lines_ok_def split: if_split_asm)
qed

subsection \<open>Numeric axes\<close>

text \<open>A text that \<open>/^-?\d+(?:\.\d+)?$/\<close> accepts: the part before the point, and the digits behind it.\<close>

definition decimal_parts :: "string \<Rightarrow> string \<times> string option" where
  "decimal_parts v =
     (let whole = takeWhile (\<lambda>c. c \<noteq> CHR ''.'') v; rest = dropWhile (\<lambda>c. c \<noteq> CHR ''.'') v
      in (whole, case rest of [] \<Rightarrow> None | _ # fraction \<Rightarrow> Some fraction))"

definition digits :: "string \<Rightarrow> bool" where
  "digits s \<longleftrightarrow> s \<noteq> [] \<and> list_all is_digit s"

definition decimal_text :: "string \<Rightarrow> bool" where
  "decimal_text v =
     (let (whole, fraction) = decimal_parts v
      in digits (case whole of c # r \<Rightarrow> if c = CHR ''-'' then r else whole | [] \<Rightarrow> []) \<and>
         (case fraction of Some f \<Rightarrow> digits f | None \<Rightarrow> True))"

definition fraction_digits :: "string \<Rightarrow> string" where
  "fraction_digits v = (case snd (decimal_parts v) of Some f \<Rightarrow> takeWhile (\<lambda>c. c \<noteq> CHR ''.'') f | None \<Rightarrow> [])"

definition unsafe_text :: "string \<Rightarrow> bool" where
  "unsafe_text v \<longleftrightarrow> decimal_text v \<and> \<not> isSafeInteger (Number (fst (decimal_parts v)))"

definition axis_scale :: "string list \<Rightarrow> nat" where
  "axis_scale vs = fold (\<lambda>v n. max n (length (fraction_digits v))) vs 0"

text \<open>\<open>BigInt(whole + fraction.padEnd(scale, '0'))\<close>.\<close>

definition scaled_integer :: "nat \<Rightarrow> string \<Rightarrow> int" where
  "scaled_integer scale v =
     signed_value (fst (decimal_parts v) @ fraction_digits v @ replicate (scale - length (fraction_digits v)) (CHR ''0''))"

definition num_div :: "js_number \<Rightarrow> js_number \<Rightarrow> js_number" where
  "num_div a b = (case (a, b) of (Finite x, Finite y) \<Rightarrow> if y = 0 then NaN else to_double (x / y) | _ \<Rightarrow> NaN)"

record numeric_axis =
  na_coordinate :: "plot_value \<Rightarrow> js_number"
  na_suffix :: string

definition numericAxis :: "plot_value list \<Rightarrow> numeric_axis" where
  "numericAxis vs =
     (let strings = map js_String vs in
      if \<not> list_ex unsafe_text strings \<or> \<not> list_all decimal_text strings
      then \<lparr>na_coordinate = js_Number, na_suffix = []\<rparr>
      else
        (let scale = axis_scale strings; origin = (case strings of s # _ \<Rightarrow> s | [] \<Rightarrow> ''0'');
             base = scaled_integer scale origin
         in \<lparr>na_coordinate = (\<lambda>v. num_div (to_double (of_int (scaled_integer scale (js_String v) - base)))
                (to_double (10 ^ scale))),
             na_suffix = '' (offset from '' @ origin @ '')''\<rparr>))"

text \<open>The number that a decimal text denotes.\<close>

definition exact_value :: "string \<Rightarrow> rat" where
  "exact_value v =
     of_int (signed_value (fst (decimal_parts v) @ fraction_digits v)) / 10 ^ length (fraction_digits v)"

lemma to_double_minus: "q \<noteq> 0 \<Longrightarrow> to_double q = Finite v \<Longrightarrow> to_double (- q) = Finite (- v)"
  by (auto simp: to_double_def Let_def split: if_split_asm)

lemma to_double_int: "\<bar>n\<bar> < 2 ^ 53 \<Longrightarrow> to_double (of_int n) = Finite (of_int n)"
proof -
  have pos: "to_double (of_int m) = Finite (of_int m)" if "0 < m" "m < 2 ^ 53" for m :: int
    using to_double_exact [OF that, of 0] that by simp
  assume n: "\<bar>n\<bar> < 2 ^ 53"
  show ?thesis
  proof (cases "n = 0")
    case False
    then show ?thesis
      using n pos [of n] to_double_minus [of "of_int (- n)", OF _ pos [of "- n"]] by (cases "0 < n") auto
  qed (simp add: to_double_def)
qed

lemma decimal_value_append: "decimal_value (s @ t) = decimal_value s * 10 ^ length t + decimal_value t"
proof (induction t rule: rev_induct)
  case (snoc c t)
  then show ?case by (simp add: decimal_value_def algebra_simps)
qed (simp add: decimal_value_def)

lemma decimal_value_zeros: "decimal_value (replicate k (CHR ''0'')) = 0"
  by (induction k) (simp_all add: decimal_value_append [of "[CHR ''0'']", simplified] decimal_value_def digit_value_def)

lemma signed_value_zeros: "s \<noteq> [] \<Longrightarrow> signed_value (s @ replicate k (CHR ''0'')) = signed_value s * 10 ^ k"
  by (cases s) (simp_all add: signed_value_def decimal_value_append decimal_value_zeros
      decimal_value_append [of "_ # _", simplified])

lemma whole_nonempty: "decimal_text v \<Longrightarrow> fst (decimal_parts v) \<noteq> []"
  by (auto simp: decimal_text_def digits_def split_def Let_def split: list.split_asm)

lemma scaled_integer_exact:
  assumes "decimal_text v" and "length (fraction_digits v) \<le> scale"
  shows "of_int (scaled_integer scale v) = exact_value v * 10 ^ scale"
proof -
  let ?f = "fraction_digits v" and ?w = "fst (decimal_parts v)"
  have "scaled_integer scale v = signed_value ((?w @ ?f) @ replicate (scale - length ?f) (CHR ''0''))"
    by (simp add: scaled_integer_def)
  also have "\<dots> = signed_value (?w @ ?f) * 10 ^ (scale - length ?f)"
    using whole_nonempty [OF assms(1)] by (intro signed_value_zeros) simp
  finally have "(of_int (scaled_integer scale v) :: rat) = of_int (signed_value (?w @ ?f)) * 10 ^ (scale - length ?f)"
    by simp
  also have "\<dots> = exact_value v * 10 ^ length ?f * 10 ^ (scale - length ?f)" by (simp add: exact_value_def)
  also have "\<dots> = exact_value v * 10 ^ scale" using assms(2) by (simp add: mult.assoc flip: power_add)
  finally show ?thesis .
qed

lemma axis_scale_bound: "v \<in> set vs \<Longrightarrow> length (fraction_digits v) \<le> axis_scale vs"
proof -
  have "n \<le> fold (\<lambda>v n. max n (length (fraction_digits v))) vs n \<and>
      (v \<in> set vs \<longrightarrow> length (fraction_digits v) \<le> fold (\<lambda>v n. max n (length (fraction_digits v))) vs n)" for n
  proof (induction vs arbitrary: n)
    case (Cons w vs)
    show ?case using Cons.IH [of "max n (length (fraction_digits w))"] by auto
  qed simp
  then show "v \<in> set vs \<Longrightarrow> ?thesis" by (simp add: axis_scale_def)
qed

text \<open>
  On an axis with values beyond the safe integers, the coordinate of a value is its exact distance from the first value,
  rounded to a double once; so values that a double cannot tell apart stay apart.
\<close>

theorem offset_axis_exact:
  assumes unsafe: "list_ex unsafe_text (map js_String (v0 # vs))" and decimal: "list_all decimal_text (map js_String (v0 # vs))"
    and v: "v \<in> set (v0 # vs)" and scale: "axis_scale (map js_String (v0 # vs)) \<le> 15"
    and near: "\<bar>exact_value (js_String v) - exact_value (js_String v0)\<bar> * 10 ^ axis_scale (map js_String (v0 # vs)) < 2 ^ 53"
  shows "na_coordinate (numericAxis (v0 # vs)) v = to_double (exact_value (js_String v) - exact_value (js_String v0))"
proof -
  let ?s = "axis_scale (map js_String (v0 # vs))"
  let ?d = "scaled_integer ?s (js_String v) - scaled_integer ?s (js_String v0)"
  have exact: "(of_int (scaled_integer ?s (js_String w)) :: rat) = exact_value (js_String w) * 10 ^ ?s" if "w \<in> set (v0 # vs)" for w
    using that decimal by (intro scaled_integer_exact axis_scale_bound) (auto simp: list_all_iff)
  have d: "(of_int ?d :: rat) = (exact_value (js_String v) - exact_value (js_String v0)) * 10 ^ ?s"
    using exact [OF v] exact [of v0] by (simp add: algebra_simps)
  then have "(of_int \<bar>?d\<bar> :: rat) < of_int (2 ^ 53)" using near by (simp add: abs_mult)
  then have diff: "to_double (of_int ?d) = Finite (of_int ?d)" by (intro to_double_int) (simp only: of_int_less_iff)
  have "(10 :: int) ^ ?s \<le> 10 ^ 15" using scale by (intro power_increasing) simp_all
  then have "to_double (of_int (10 ^ ?s)) = Finite (of_int (10 ^ ?s))" by (intro to_double_int) simp
  then have power: "to_double (10 ^ ?s) = Finite (10 ^ ?s)" by simp
  have "na_coordinate (numericAxis (v0 # vs)) v = num_div (to_double (of_int ?d)) (to_double (10 ^ ?s))"
    using unsafe decimal by (simp add: numericAxis_def Let_def)
  also have "\<dots> = to_double (of_int ?d / 10 ^ ?s)" unfolding diff power by (simp add: num_div_def)
  also have "\<dots> = to_double (exact_value (js_String v) - exact_value (js_String v0))" unfolding d by simp
  finally show ?thesis .
qed

end
