(* ===== verification/Plot_Model.thy ===== *)
theory Plot_Model
  imports Plot_Text Dispersion
begin

text \<open>
  The data of plots, \<open>features/tools/plots/plotModel.ts\<close>: groups and legend, the series of every mode with their
  values, the layout of calendars, and the flows of a Sankey diagram. The options that only style the chart library are
  left out. Rows are decoded cells; sums and percentages are exact.
\<close>

subsection \<open>Requests, display and selection\<close>

datatype plot_mode = Plot_trends | Plot_compare | Plot_scatter | Plot_heatmap | Plot_sankey

datatype plot_interval =
    Interval_categories
  | Interval_time string int
  | Interval_numeric string "string option"

datatype plot_request =
    Trends_request (rq_source: string) (rq_axis: string) plot_interval "string list" (rq_measure: string) (rq_value: "string option")
  | Compare_request (rq_source: string) string "string option" (rq_measure: string) (rq_value: "string option")
  | Scatter_request (rq_source: string) string string "string option" "string option" "string option"
  | Heatmap_request (rq_source: string) string string (rq_measure: string) (rq_value: "string option")
  | Sankey_request (rq_source: string) "string list" (rq_measure: string) (rq_value: "string option")

datatype plot_style = Style_line | Style_area | Style_bar | Style_stacked_bar | Style_calendar

record plot_display =
  pd_timezone :: "string option"
  pd_style :: plot_style
  pd_smooth :: bool
  pd_normalize :: bool
  pd_uncased :: bool
  pd_minimum_rows :: int
  pd_by_category :: bool
  pd_year :: int
  pd_nonnegative :: bool
  pd_horizontal :: bool

record plot_selection =
  ps_hidden :: "string list"
  ps_intervals :: "string list"
  ps_rows :: "string list"
  ps_cells :: "string list"
  ps_transitions :: "string list"

text \<open>What the page provides: parsing and printing of JSON, the width of a text, \<open>Date.parse\<close> and number formats.\<close>

record plot_page =
  pg_parse :: "string \<Rightarrow> js"
  pg_print :: "js \<Rightarrow> string"
  pg_stringify :: "js \<Rightarrow> string"
  pg_width :: "string \<Rightarrow> rat"
  pg_date :: "string \<Rightarrow> js_number"
  pg_percent :: "js_number \<Rightarrow> string"

definition has_measure :: "plot_request \<Rightarrow> bool" where
  "has_measure request = (case request of Scatter_request _ _ _ _ _ _ \<Rightarrow> False | _ \<Rightarrow> True)"

definition plotMeasure :: "plot_request \<Rightarrow> string" where
  "plotMeasure request =
     (if \<not> has_measure request then ''Individual rows''
      else if rq_measure request = ''count'' then ''Rows''
      else ascii_upper (take 1 (rq_measure request)) @ drop 1 (rq_measure request) @ '' of '' @
        (case rq_value request of Some v \<Rightarrow> v | None \<Rightarrow> []))"

definition plotSelectionKeys :: "plot_mode \<Rightarrow> plot_selection \<Rightarrow> string list" where
  "plotSelectionKeys mode selection =
     (case mode of
        Plot_trends \<Rightarrow> ps_intervals selection
      | Plot_scatter \<Rightarrow> ps_rows selection
      | Plot_sankey \<Rightarrow> ps_transitions selection
      | _ \<Rightarrow> ps_cells selection)"

definition plot_label :: "plot_page \<Rightarrow> string \<Rightarrow> string" where
  "plot_label page key = categoryLabel (pg_parse page) (pg_print page) key"

subsection \<open>Groups and legend\<close>

definition group_key :: "plot_row \<Rightarrow> string" where
  "group_key row = (case cell row ''group_key'' of PV_string s \<Rightarrow> s | _ \<Rightarrow> ''[]'')"

definition group_keys :: "plot_row list \<Rightarrow> string list" where
  "group_keys rows = unique (map group_key rows)"

definition group_rows :: "string \<Rightarrow> plot_row list \<Rightarrow> plot_row list" where
  "group_rows key rows = filter (\<lambda>row. group_key row = key) rows"

definition position_of :: "'a \<Rightarrow> 'a list \<Rightarrow> nat" where
  "position_of x xs = length (takeWhile (\<lambda>y. y \<noteq> x) xs)"

definition group_color :: "string list \<Rightarrow> string \<Rightarrow> string" where
  "group_color keys key = VIZ_PALETTE ! (position_of key keys mod length VIZ_PALETTE)"

definition sum_numbers :: "js_number list \<Rightarrow> js_number" where
  "sum_numbers ns = fold (\<lambda>n whole. num_add whole n) ns (Finite 0)"

record plot_legend =
  lg_key :: string
  lg_label :: string
  lg_count :: js_number
  lg_selected :: js_number
  lg_color :: string

definition row_weight :: "plot_mode \<Rightarrow> plot_row \<Rightarrow> js_number" where
  "row_weight mode row = (if mode = Plot_scatter then Finite 1 else number_or_zero (cell row ''row_count''))"

text \<open>The key by which a row is selected; heatmaps and Sankey diagrams have no legend.\<close>

definition selection_field :: "plot_mode \<Rightarrow> string" where
  "selection_field mode =
     (case mode of Plot_trends \<Rightarrow> ''interval_key'' | Plot_scatter \<Rightarrow> ''row_id'' | _ \<Rightarrow> ''cell_key'')"

definition group_name :: "plot_page \<Rightarrow> plot_request \<Rightarrow> string \<Rightarrow> string" where
  "group_name page request key = (if key = ''[]'' then rq_source request else plot_label page key)"

definition plot_legends ::
    "plot_page \<Rightarrow> plot_mode \<Rightarrow> plot_request \<Rightarrow> plot_row list \<Rightarrow> plot_selection \<Rightarrow> plot_legend list" where
  "plot_legends page mode request rows selection =
     map (\<lambda>key.
       \<lparr>lg_key = key, lg_label = group_name page request key,
        lg_count = sum_numbers (map (row_weight mode) (group_rows key rows)),
        lg_selected = sum_numbers (map (row_weight mode)
          (filter (\<lambda>row. row_text row (selection_field mode) \<in> set (plotSelectionKeys mode selection)) (group_rows key rows))),
        lg_color = group_color (group_keys rows) key\<rparr>) (group_keys rows)"

definition shown_keys :: "plot_selection \<Rightarrow> string list \<Rightarrow> string list" where
  "shown_keys selection keys = filter (\<lambda>key. key \<notin> set (ps_hidden selection)) keys"

subsection \<open>Marks\<close>

record plot_datum =
  da_key :: string
  da_selected :: bool
  da_summary :: string
  da_opacity :: rat
  da_x :: js_number
  da_y :: "js_number option"

definition plot_mark :: "string list \<Rightarrow> rat \<Rightarrow> rat \<Rightarrow> string \<Rightarrow> string \<Rightarrow> js_number \<Rightarrow> js_number option \<Rightarrow> plot_datum" where
  "plot_mark selected dimmed full key summary x y =
     \<lparr>da_key = key, da_selected = (key \<in> set selected), da_summary = summary,
      da_opacity = (if selected \<noteq> [] \<and> key \<notin> set selected then dimmed else full), da_x = x, da_y = y\<rparr>"

text \<open>The points for assistive technology: a missing value lies at zero.\<close>

record plot_point =
  pp_key :: string
  pp_x :: js_number
  pp_y :: js_number
  pp_summary :: string

definition point_of :: "plot_datum \<Rightarrow> plot_point" where
  "point_of d =
     \<lparr>pp_key = da_key d, pp_x = da_x d, pp_y = (case da_y d of Some v \<Rightarrow> v | None \<Rightarrow> Finite 0), pp_summary = da_summary d\<rparr>"

record plot_series =
  se_id :: string
  se_name :: string
  se_color :: string
  se_data :: "plot_datum list"

subsection \<open>Shares\<close>

text \<open>The total of an interval or category over all rows, hidden groups included; missing values count as zero.\<close>

definition share_total :: "string \<Rightarrow> plot_row list \<Rightarrow> string \<Rightarrow> js_number" where
  "share_total field rows key =
     sum_numbers (map (\<lambda>row. case row_number row ''value'' of Some v \<Rightarrow> v | None \<Rightarrow> Finite 0)
       (filter (\<lambda>row. row_text row field = key) rows))"

definition shown_value :: "string \<Rightarrow> plot_row list \<Rightarrow> bool \<Rightarrow> plot_row \<Rightarrow> js_number option" where
  "shown_value field rows percent row =
     (case row_number row ''value'' of
        None \<Rightarrow> None
      | Some v \<Rightarrow>
          if percent then
            (let whole = share_total field rows (row_text row field) in
             if whole = Finite 0 then None else Some (num_percent v whole))
          else Some v)"

subsection \<open>Trends\<close>

definition ends_with_offset :: "string \<Rightarrow> bool" where
  "ends_with_offset s =
     (case rev s of b # a # sign # _ \<Rightarrow> is_digit a \<and> is_digit b \<and> (sign = CHR ''+'' \<or> sign = CHR ''-'') | _ \<Rightarrow> False)"

definition ends_with_zone :: "string \<Rightarrow> bool" where
  "ends_with_zone s =
     (case rev s of
        d # c # colon # b # a # sign # _ \<Rightarrow>
          d = CHR ''Z'' \<or> (is_digit a \<and> is_digit b \<and> colon = CHR '':'' \<and> is_digit c \<and> is_digit d \<and> (sign = CHR ''+'' \<or> sign = CHR ''-''))
      | d # _ \<Rightarrow> d = CHR ''Z''
      | [] \<Rightarrow> False)"

fun replace_first :: "char \<Rightarrow> char \<Rightarrow> string \<Rightarrow> string" where
  "replace_first a b [] = []"
| "replace_first a b (c # s) = (if c = a then b # s else c # replace_first a b s)"

definition time_text :: "string \<Rightarrow> string" where
  "time_text v =
     (let iso = (if CHR '' '' \<in> set v \<or> CHR ''T'' \<in> set v then
                   (let t = replace_first (CHR '' '') (CHR ''T'') v in if ends_with_offset t then t @ '':00'' else t)
                 else v)
      in if CHR ''T'' \<in> set iso then (if ends_with_zone iso then iso else iso @ ''Z'') else iso @ ''T00:00:00Z'')"

definition timeCoordinate :: "plot_page \<Rightarrow> string \<Rightarrow> js_number" where
  "timeCoordinate page v = pg_date page (time_text v)"

definition axis_values :: "plot_row list \<Rightarrow> string list" where
  "axis_values rows = unique (map (\<lambda>row. row_text row ''axis_value'') rows)"

definition trend_x :: "plot_page \<Rightarrow> plot_interval \<Rightarrow> plot_row list \<Rightarrow> plot_row \<Rightarrow> js_number" where
  "trend_x page interval rows row =
     (case interval of
        Interval_time _ _ \<Rightarrow> timeCoordinate page (row_text row ''axis_value'')
      | Interval_categories \<Rightarrow> Finite (of_nat (position_of (row_text row ''axis_value'') (axis_values rows)))
      | Interval_numeric _ _ \<Rightarrow>
          na_coordinate (numericAxis (map (\<lambda>r. cell r ''axis_value'') rows)) (cell row ''axis_value''))"

definition show_optional :: "js_number option \<Rightarrow> string" where
  "show_optional v = (case v of Some n \<Rightarrow> show_number n | None \<Rightarrow> ''null'')"

definition trend_datum ::
    "plot_page \<Rightarrow> plot_interval \<Rightarrow> plot_row list \<Rightarrow> plot_display \<Rightarrow> plot_selection \<Rightarrow> string \<Rightarrow> plot_row \<Rightarrow> plot_datum" where
  "trend_datum page interval rows display selection key row =
     (let k = row_text row ''interval_key''; v = shown_value ''interval_key'' rows (pd_normalize display) row
      in plot_mark (ps_intervals selection) (35 / 100) 1 k
           (k @ middle_dot @ plot_label page key @ '': '' @ row_text row ''value'' @
            (if pd_normalize display then '' ('' @ show_optional v @ ''%)'' else []) @ middle_dot @
            row_text row ''contributing_count'' @ '' contributing rows'')
           (trend_x page interval rows row) v)"

definition stacks :: "plot_request \<Rightarrow> plot_display \<Rightarrow> bool" where
  "stacks request display \<longleftrightarrow>
     (rq_measure request = ''count'' \<or> (rq_measure request = ''sum'' \<and> pd_nonnegative display)) \<and>
     (pd_style display = Style_area \<or> pd_style display = Style_stacked_bar)"

definition trend_series ::
    "plot_page \<Rightarrow> plot_request \<Rightarrow> plot_interval \<Rightarrow> plot_row list \<Rightarrow> plot_display \<Rightarrow> plot_selection \<Rightarrow> plot_series list" where
  "trend_series page request interval rows display selection =
     (let keys = group_keys rows in
      map (\<lambda>key.
        \<lparr>se_id = key, se_name = group_name page request key, se_color = group_color keys key,
         se_data = map (trend_datum page interval rows display selection key) (group_rows key rows)\<rparr>)
        (shown_keys selection (if stacks request display then rev keys else keys)))"

text \<open>The distinct coordinates in order, the bands of the selected ones and the stripes of every other one.\<close>

definition number_order :: "js_number \<Rightarrow> js_number \<Rightarrow> int" where
  "number_order a b = (if num_less a b then -1 else if num_less b a then 1 else 0)"

definition trend_intervals :: "plot_page \<Rightarrow> plot_interval \<Rightarrow> plot_row list \<Rightarrow> js_number list" where
  "trend_intervals page interval rows = js_sort number_order (unique (map (trend_x page interval rows) rows))"

definition middle_of :: "js_number \<Rightarrow> js_number \<Rightarrow> js_number" where
  "middle_of a b = (case num_add a b of Finite x \<Rightarrow> Finite (x / 2) | n \<Rightarrow> n)"

definition selected_bands :: "js_number list \<Rightarrow> (js_number \<Rightarrow> bool) \<Rightarrow> (js_number \<times> js_number) list" where
  "selected_bands intervals selected =
     concat (map (\<lambda>(index, coordinate).
       if selected coordinate then
         [(if index = 0 then coordinate else middle_of coordinate (intervals ! (index - 1)),
           middle_of coordinate (if index + 1 < length intervals then intervals ! (index + 1) else coordinate))]
       else []) (enumerate 0 intervals))"

definition stripes :: "js_number list \<Rightarrow> (js_number \<times> js_number) list" where
  "stripes intervals =
     concat (map (\<lambda>(index, coordinate).
       if even index \<and> index + 1 < length intervals then [(coordinate, intervals ! (index + 1))] else [])
       (enumerate 0 intervals))"

definition mark_area :: "plot_page \<Rightarrow> plot_interval \<Rightarrow> plot_row list \<Rightarrow> plot_display \<Rightarrow> plot_selection \<Rightarrow> (js_number \<times> js_number) list" where
  "mark_area page interval rows display selection =
     (let intervals = trend_intervals page interval rows in
      if pd_style display = Style_bar \<or> pd_style display = Style_stacked_bar then stripes intervals
      else selected_bands intervals (\<lambda>coordinate. list_ex (\<lambda>row. num_eq (trend_x page interval rows row) coordinate \<and>
             row_text row ''interval_key'' \<in> set (ps_intervals selection)) rows))"

definition volume_overview :: "plot_page \<Rightarrow> plot_interval \<Rightarrow> plot_row list \<Rightarrow> (js_number \<times> js_number) list" where
  "volume_overview page interval rows =
     map (\<lambda>coordinate. (coordinate, sum_numbers (map (\<lambda>row. number_or_zero (cell row ''row_count''))
            (filter (\<lambda>row. trend_x page interval rows row = coordinate) rows)))) (trend_intervals page interval rows)"

subsection \<open>Calendars\<close>

text \<open>Dates of the proleptic Gregorian calendar, as \<open>Date.UTC\<close>: days since 1970-01-01, a Thursday.\<close>

definition days_before_year :: "int \<Rightarrow> int" where
  "days_before_year y = 365 * (y - 1970) + ((y - 1) div 4 - 492) - ((y - 1) div 100 - 19) + ((y - 1) div 400 - 4)"

definition leap_year :: "int \<Rightarrow> bool" where
  "leap_year y \<longleftrightarrow> y mod 4 = 0 \<and> (y mod 100 \<noteq> 0 \<or> y mod 400 = 0)"

definition month_lengths :: "int \<Rightarrow> int list" where
  "month_lengths y = [31, if leap_year y then 29 else 28, 31, 30, 31, 30, 31, 31, 30, 31, 30, 31]"

definition month_start :: "int \<Rightarrow> nat \<Rightarrow> int" where
  "month_start y m = days_before_year y + sum_list (take (m - 1) (month_lengths y))"

definition week_day :: "int \<Rightarrow> int" where
  "week_day day = (day + 4) mod 7"

text \<open>The dates of the year with data, in order. \<open>key.slice(0, 10)\<close>, \<open>sort()\<close> without a comparison.\<close>

definition text_order :: "string \<Rightarrow> string \<Rightarrow> int" where
  "text_order a b = (if a = b then 0 else if lexordp (\<lambda>x y. (of_char x :: nat) < of_char y) a b then -1 else 1)"

definition calendar_dates :: "plot_row list \<Rightarrow> int \<Rightarrow> string list" where
  "calendar_dates rows year =
     js_sort text_order (filter (has_prefix (show_int year @ ''-''))
       (unique (map (\<lambda>row. take 10 (row_text row ''interval_key'')) rows)))"

text \<open>The first and the last month, from the texts of the dates.\<close>

definition month_of :: "string \<Rightarrow> nat" where
  "month_of date = decimal_value (take 2 (drop 5 date))"

definition calendar_months :: "plot_row list \<Rightarrow> int \<Rightarrow> nat \<times> nat" where
  "calendar_months rows year =
     (case calendar_dates rows year of
        [] \<Rightarrow> (1, 1)
      | first # rest \<Rightarrow> (month_of first, month_of (last (first # rest))))"

text \<open>The first day, the last day, and the number of weeks from Monday on.\<close>

definition calendar_range :: "plot_row list \<Rightarrow> int \<Rightarrow> int \<times> int" where
  "calendar_range rows year =
     (let (first, final) = calendar_months rows year
      in (month_start year first, month_start year final + month_lengths year ! (final - 1) - 1))"

definition calendar_weeks :: "int \<Rightarrow> int \<Rightarrow> int" where
  "calendar_weeks first final = \<lceil>(of_int (final - first + 1 + (week_day first + 6) mod 7) :: rat) / 7\<rceil>"

definition calendar_width :: "int \<Rightarrow> int" where
  "calendar_width weeks = max 300 (weeks * 22 + 85)"

definition calendar_columns :: "rat \<Rightarrow> int \<Rightarrow> nat" where
  "calendar_columns available width = nat (max 1 \<lfloor>available / of_int width\<rfloor>)"

text \<open>The headings, wrapped, by the number of their lines.\<close>

definition heading_lines :: "plot_page \<Rightarrow> int \<Rightarrow> string \<Rightarrow> int" where
  "heading_lines page width key = int (length (plot_label_lines (pg_width page) (plot_label page key) (of_int (width - 85) * 9 / 10)))"

record calendar_place =
  cp_left :: int
  cp_title :: int
  cp_top :: int

text \<open>
  Rows of calendars; each row reserves the tallest of its headings. An empty wrapped heading still counts as one line,
  as \<open>''.split('\n')\<close> has one.
\<close>

definition row_heading :: "int list \<Rightarrow> int" where
  "row_heading lines = 18 * Max (set (map (max 1) lines))"

function place_rows :: "nat \<Rightarrow> int \<Rightarrow> int \<Rightarrow> int list \<Rightarrow> calendar_place list \<times> int" where
  "place_rows columns width upper lines =
     (if lines = [] \<or> columns = 0 then ([], upper)
      else
        (let row = take columns lines; heading = row_heading row;
             placed = map (\<lambda>column. \<lparr>cp_left = int column * width + 65, cp_title = upper, cp_top = upper + heading + 28\<rparr>)
               [0..<length row];
             (rest, final) = place_rows columns width (upper + heading + 28 + 140 + 72) (drop columns lines)
         in (placed @ rest, final)))"
  by pat_completeness auto
termination by (relation "measure (\<lambda>(columns, width, upper, lines). length lines)") auto

declare place_rows.simps [simp del]

record calendar_plot =
  ca_range :: "int \<times> int"
  ca_minimumWidth :: int
  ca_places :: "calendar_place list"
  ca_height :: int
  ca_series :: "plot_series list"
  ca_scale :: "js_number \<times> js_number"

definition calendar_datum ::
    "plot_page \<Rightarrow> plot_interval \<Rightarrow> plot_row list \<Rightarrow> plot_display \<Rightarrow> plot_selection \<Rightarrow> string \<Rightarrow> plot_row \<Rightarrow> plot_datum" where
  "calendar_datum page interval rows display selection key row =
     (let k = row_text row ''interval_key''; v = shown_value ''interval_key'' rows (pd_normalize display) row
      in plot_mark (ps_intervals selection) (35 / 100) 1 k
           (k @ middle_dot @ plot_label page key @ '': '' @
            (if pd_normalize display then show_optional v @ ''%'' else row_text row ''value'') @ middle_dot @
            row_text row ''row_count'' @ '' rows'')
           (trend_x page interval rows row) v)"

definition least_number :: "js_number list \<Rightarrow> js_number" where
  "least_number ns = fold (\<lambda>b a. if a = NaN \<or> b = NaN then NaN else if num_less b a then b else a) ns (Finite 0)"

definition greatest_number :: "js_number list \<Rightarrow> js_number \<Rightarrow> js_number" where
  "greatest_number ns start = fold (\<lambda>b a. if a = NaN \<or> b = NaN then NaN else if num_less a b then b else a) ns start"

definition visible_rows :: "plot_selection \<Rightarrow> plot_row list \<Rightarrow> plot_row list" where
  "visible_rows selection rows = filter (\<lambda>row. group_key row \<notin> set (ps_hidden selection)) rows"

definition calendar_of ::
    "plot_page \<Rightarrow> plot_request \<Rightarrow> plot_interval \<Rightarrow> plot_row list \<Rightarrow> plot_display \<Rightarrow> plot_selection \<Rightarrow> rat \<Rightarrow> calendar_plot" where
  "calendar_of page request interval rows display selection available =
     (let shown = shown_keys selection (group_keys rows);
          (first, final) = calendar_range rows (pd_year display);
          width = calendar_width (calendar_weeks first final);
          (places, bottom) = place_rows (calendar_columns available width) width 8 (map (heading_lines page width) shown);
          ns = List.map_filter (shown_value ''interval_key'' rows (pd_normalize display)) (visible_rows selection rows)
      in \<lparr>ca_range = (first, final), ca_minimumWidth = width, ca_places = places, ca_height = bottom + 55,
          ca_series = map (\<lambda>key. \<lparr>se_id = key, se_name = plot_label page key, se_color = [],
            se_data = map (calendar_datum page interval rows display selection key)
              (filter (\<lambda>row. has_prefix (show_int (pd_year display)) (row_text row ''interval_key'')) (group_rows key rows))\<rparr>) shown,
          ca_scale = (least_number ns, greatest_number ns (Finite 1))\<rparr>)"

subsection \<open>Comparison\<close>

definition compare_categories :: "plot_row list \<Rightarrow> plot_display \<Rightarrow> string list" where
  "compare_categories rows display =
     (let categories = unique (map (\<lambda>row. row_text row ''category_key'') rows)
      in if pd_by_category display then js_sort text_order categories else categories)"

definition index_number :: "string list \<Rightarrow> string \<Rightarrow> js_number" where
  "index_number keys key = Finite (of_nat (position_of key keys))"

text \<open>\<open>da_x\<close> is the category and \<open>da_y\<close> the value; a horizontal plot swaps them.\<close>

definition compare_datum ::
    "plot_page \<Rightarrow> plot_row list \<Rightarrow> plot_display \<Rightarrow> plot_selection \<Rightarrow> string \<Rightarrow> plot_row \<Rightarrow> plot_datum" where
  "compare_datum page rows display selection key row =
     (let category = row_text row ''category_key''; v = shown_value ''category_key'' rows (pd_normalize display) row
      in plot_mark (ps_cells selection) (35 / 100) 1 (row_text row ''cell_key'')
           (plot_label page category @ middle_dot @ plot_label page key @ '': '' @ row_text row ''value'' @
            (if pd_normalize display
             then '' ('' @ (case v of Some n \<Rightarrow> pg_percent page n | None \<Rightarrow> ''undefined'') @ ''%)'' else []) @
            middle_dot @ row_text row ''row_count'' @ '' rows'')
           (index_number (compare_categories rows display) category) v)"

definition compare_point :: "plot_display \<Rightarrow> plot_datum \<Rightarrow> plot_point" where
  "compare_point display d =
     (let p = point_of d in if pd_horizontal display then p\<lparr>pp_x := pp_y p, pp_y := pp_x p\<rparr> else p)"

text \<open>The series in the order of their computation, which the points keep; the chart gets them reversed.\<close>

definition compare_groups ::
    "plot_page \<Rightarrow> plot_row list \<Rightarrow> plot_display \<Rightarrow> plot_selection \<Rightarrow> plot_series list" where
  "compare_groups page rows display selection =
     map (\<lambda>key. \<lparr>se_id = key, se_name = plot_label page key, se_color = group_color (group_keys rows) key,
        se_data = map (compare_datum page rows display selection key) (group_rows key rows)\<rparr>)
       (shown_keys selection (group_keys rows))"

definition compare_series ::
    "plot_page \<Rightarrow> plot_row list \<Rightarrow> plot_display \<Rightarrow> plot_selection \<Rightarrow> plot_series list" where
  "compare_series page rows display selection = rev (compare_groups page rows display selection)"

definition compare_points ::
    "plot_page \<Rightarrow> plot_row list \<Rightarrow> plot_display \<Rightarrow> plot_selection \<Rightarrow> plot_point list" where
  "compare_points page rows display selection =
     map (compare_point display) (concat (map se_data (compare_groups page rows display selection)))"

definition compare_size :: "plot_row list \<Rightarrow> plot_display \<Rightarrow> int \<times> int" where
  "compare_size rows display =
     (let n = int (length (compare_categories rows display)) in
      if pd_horizontal display then (560, min 740 (max 460 (n * 52 + 130)))
      else (max 560 (min 12 n * 110 + 100), 520))"

subsection \<open>Heatmap\<close>

definition sorted_keys :: "string \<Rightarrow> plot_row list \<Rightarrow> string list" where
  "sorted_keys field rows = js_sort text_order (unique (map (\<lambda>row. row_text row field) rows))"

record heat_cell = plot_datum +
  hc_value :: "js_number option"

definition heat_cells :: "plot_page \<Rightarrow> plot_row list \<Rightarrow> plot_selection \<Rightarrow> heat_cell list" where
  "heat_cells page rows selection =
     map (\<lambda>row.
       let key = row_text row ''cell_key'' in
       \<lparr>da_key = key, da_selected = (key \<in> set (ps_cells selection)),
        da_summary = plot_label page key @ '': '' @ row_text row ''value'' @ middle_dot @
          row_text row ''contributing_count'' @ '' contributing rows'',
        da_opacity = 1,
        da_x = index_number (sorted_keys ''column_key'' rows) (row_text row ''column_key''),
        da_y = Some (index_number (sorted_keys ''category_key'' rows) (row_text row ''category_key'')),
        hc_value = row_number row ''value''\<rparr>) rows"

definition heat_scale :: "plot_row list \<Rightarrow> js_number \<times> js_number" where
  "heat_scale rows =
     (let ns = List.map_filter (\<lambda>row. row_number row ''value'') rows
      in (least_number ns, greatest_number ns (Finite 1)))"

definition heat_size :: "plot_row list \<Rightarrow> int \<times> int" where
  "heat_size rows =
     (max 620 (min 12 (int (length (sorted_keys ''column_key'' rows))) * 100 + 250),
      min 740 (max 500 (int (length (sorted_keys ''category_key'' rows)) * 44 + 220)))"

subsection \<open>Scatter\<close>

record scatter_point = plot_datum +
  sp_hollow :: bool
  sp_size :: real

definition largest_size :: "plot_row list \<Rightarrow> js_number" where
  "largest_size rows = greatest_number (map (\<lambda>row. js_Number (cell row ''size'')) rows) (Finite 1)"

definition finite_part :: "js_number \<Rightarrow> real" where
  "finite_part n = (case n of Finite q \<Rightarrow> real_of_rat q | _ \<Rightarrow> 0)"

text \<open>The diameter; sizes are finite counts and measurements.\<close>

definition symbol_size :: "bool \<Rightarrow> js_number \<Rightarrow> js_number \<Rightarrow> real" where
  "symbol_size sized bubble largest =
     (if \<not> sized then 8
      else if bubble = Finite 0 then 6
      else sqrt (finite_part bubble / finite_part largest) * 28)"

definition scatter_datum :: "plot_row list \<Rightarrow> bool \<Rightarrow> plot_selection \<Rightarrow> plot_row \<Rightarrow> scatter_point" where
  "scatter_datum rows sized selection row =
     (let key = row_text row ''row_id''; selected = ps_rows selection; bubble = js_Number (cell row ''size'')
      in \<lparr>da_key = key, da_selected = (key \<in> set selected),
          da_summary = row_text row ''label'' @ middle_dot @ ''X: '' @ row_text row ''x'' @ '', Y: '' @ row_text row ''y'' @
            middle_dot @ ''Size: '' @ row_text row ''size'',
          da_opacity = (if selected \<noteq> [] \<and> key \<notin> set selected then 15 / 100 else 6 / 10),
          da_x = na_coordinate (numericAxis (map (\<lambda>r. cell r ''x'') rows)) (cell row ''x''),
          da_y = Some (na_coordinate (numericAxis (map (\<lambda>r. cell r ''y'') rows)) (cell row ''y'')),
          sp_hollow = (bubble = Finite 0),
          sp_size = symbol_size sized bubble (largest_size rows)\<rparr>)"

definition scatter_groups :: "plot_page \<Rightarrow> plot_row list \<Rightarrow> bool \<Rightarrow> plot_selection \<Rightarrow> (string \<times> string \<times> scatter_point list) list" where
  "scatter_groups page rows sized selection =
     map (\<lambda>key. (key, group_color (group_keys rows) key, map (scatter_datum rows sized selection) (group_rows key rows)))
       (shown_keys selection (group_keys rows))"

subsection \<open>Sankey\<close>

record sankey_node =
  sn_name :: string
  sn_display :: string
  sn_depth :: int
  sn_summary :: string
  sn_color :: string

record sankey_link =
  sl_key :: string
  sl_selected :: bool
  sl_summary :: string
  sl_source :: string
  sl_target :: string
  sl_value :: js_number
  sl_opacity :: rat

text \<open>A transition is the number of its first stage, with the values at the two stages.\<close>

definition transition_of :: "js \<Rightarrow> int \<times> js list" where
  "transition_of v =
     (case v of
        JS_Array [JS_Number (Finite stage), JS_Array pair] \<Rightarrow> (\<lfloor>stage\<rfloor>, pair)
      | _ \<Rightarrow> (0, []))"

definition pair_member :: "js list \<Rightarrow> nat \<Rightarrow> js" where
  "pair_member pair i = (if i < length pair then pair ! i else JS_Undefined)"

definition row_transition :: "plot_page \<Rightarrow> plot_row \<Rightarrow> int \<times> js list" where
  "row_transition page row = transition_of (pg_parse page (row_text row ''transition_key''))"

definition sankey_keys :: "plot_page \<Rightarrow> plot_row list \<Rightarrow> string list" where
  "sankey_keys page rows =
     js_sort text_order (unique (concat (map (\<lambda>row. map (pg_stringify page) (snd (row_transition page row))) rows)))"

definition stage_color :: "plot_page \<Rightarrow> plot_row list \<Rightarrow> js \<Rightarrow> string" where
  "stage_color page rows v =
     VIZ_PALETTE ! (position_of (pg_stringify page v) (sankey_keys page rows) mod length VIZ_PALETTE)"

definition stage_name :: "string list \<Rightarrow> int \<Rightarrow> string" where
  "stage_name stages stage = (if 0 \<le> stage \<and> nat stage < length stages then stages ! nat stage else ''undefined'')"

definition node_name :: "plot_page \<Rightarrow> int \<Rightarrow> js \<Rightarrow> string" where
  "node_name page stage v = pg_stringify page (JS_Array [JS_Number (Finite (of_int stage)), v])"

definition sankey_node_of :: "plot_page \<Rightarrow> string list \<Rightarrow> plot_row list \<Rightarrow> int \<Rightarrow> js \<Rightarrow> sankey_node" where
  "sankey_node_of page stages rows stage v =
     (let display = plot_label page (pg_stringify page (JS_Array [v]))
      in \<lparr>sn_name = node_name page stage v, sn_display = display, sn_depth = stage,
          sn_summary = stage_name stages stage @ '': '' @ display, sn_color = stage_color page rows v\<rparr>)"

definition add_transition ::
    "plot_page \<Rightarrow> string list \<Rightarrow> plot_row list \<Rightarrow> plot_row \<Rightarrow> (string \<times> sankey_node) list \<Rightarrow> (string \<times> sankey_node) list" where
  "add_transition page stages rows row nodes =
     (let (stage, pair) = row_transition page row;
          source = sankey_node_of page stages rows stage (pair_member pair 0);
          target = sankey_node_of page stages rows (stage + 1) (pair_member pair 1)
      in AList.update (sn_name target) target (AList.update (sn_name source) source nodes))"

definition sankey_nodes :: "plot_page \<Rightarrow> string list \<Rightarrow> plot_row list \<Rightarrow> sankey_node list" where
  "sankey_nodes page stages rows = map snd (fold (add_transition page stages rows) rows [])"

text \<open>The arrow of a link's summary, in UTF-8.\<close>

definition arrow_text :: string where
  "arrow_text = '' '' @ [CHR 0xE2, CHR 0x86, CHR 0x92] @ '' ''"

definition sankey_link_of :: "plot_page \<Rightarrow> string list \<Rightarrow> plot_selection \<Rightarrow> plot_row \<Rightarrow> sankey_link" where
  "sankey_link_of page stages selection row =
     (let key = row_text row ''transition_key''; (stage, pair) = row_transition page row; selected = ps_transitions selection
      in \<lparr>sl_key = key, sl_selected = (key \<in> set selected),
          sl_summary = stage_name stages stage @ arrow_text @ stage_name stages (stage + 1) @ middle_dot @
            plot_label page (pg_stringify page (JS_Array pair)) @ '': '' @ row_text row ''value'' @ middle_dot @
            row_text row ''row_count'' @ '' rows'',
          sl_source = node_name page stage (pair_member pair 0), sl_target = node_name page (stage + 1) (pair_member pair 1),
          sl_value = number_or_zero (cell row ''value''),
          sl_opacity = (if selected \<noteq> [] \<and> key \<notin> set selected then 15 / 100 else 5 / 10)\<rparr>)"

definition sankey_links :: "plot_page \<Rightarrow> string list \<Rightarrow> plot_selection \<Rightarrow> plot_row list \<Rightarrow> sankey_link list" where
  "sankey_links page stages selection rows = map (sankey_link_of page stages selection) rows"

end
