(* ===== verification/Plot_Laws.thy ===== *)
theory Plot_Laws
  imports Plot_Model
begin

text \<open>
  What plots show: shares that add up to the whole and do not depend on hidden groups, calendars that do not overlap,
  and flows between neighbouring stages.
\<close>

subsection \<open>Sums\<close>

lemma sum_numbers_finite: "sum_numbers (map (\<lambda>x. Finite (f x)) xs) = Finite (\<Sum>x\<leftarrow>xs. f x)"
proof -
  have "fold (\<lambda>n whole. num_add whole n) (map (\<lambda>x. Finite (f x)) xs) (Finite a) = Finite (a + (\<Sum>x\<leftarrow>xs. f x))" for a
    by (induction xs arbitrary: a) (simp_all add: num_add_def algebra_simps)
  from this [of 0] show ?thesis by (simp add: sum_numbers_def)
qed

lemma sum_numbers_cong: "(\<And>x. x \<in> set xs \<Longrightarrow> g x = Finite (f x)) \<Longrightarrow> sum_numbers (map g xs) = Finite (\<Sum>x\<leftarrow>xs. f x)"
  using sum_numbers_finite [of f xs] by (metis (mono_tags, lifting) map_cong)

lemma sum_list_mset: "mset xs = mset ys \<Longrightarrow> (\<Sum>x\<leftarrow>xs. f x :: rat) = (\<Sum>x\<leftarrow>ys. f x)"
  by (metis mset_map sum_mset_sum_list)

lemma sum_concat: "(\<Sum>x\<leftarrow>concat xss. f x :: rat) = (\<Sum>xs\<leftarrow>xss. \<Sum>x\<leftarrow>xs. f x)"
  by (induction xss) simp_all

text \<open>The rows, group by group, are the rows.\<close>

lemma mset_groups:
  assumes "distinct keys" and "set (map group_key rows) \<subseteq> set keys"
  shows "mset (concat (map (\<lambda>key. group_rows key rows) keys)) = mset rows"
  using assms(2)
proof (induction rows)
  case Nil
  then show ?case by (simp add: group_rows_def)
next
  case (Cons row rows)
  have "mset (concat (map (\<lambda>key. group_rows key (row # rows)) ks)) =
      mset (concat (map (\<lambda>key. group_rows key rows) ks)) + (if group_key row \<in> set ks then {#row#} else {#})" if "distinct ks" for ks
    using that by (induction ks) (auto simp: group_rows_def)
  from this [OF assms(1)] show ?case using Cons by auto
qed

lemma mset_all_groups: "mset (concat (map (\<lambda>key. group_rows key rows) (group_keys rows))) = mset rows"
  by (rule mset_groups) (simp_all add: group_keys_def)

subsection \<open>Shares\<close>

definition finite_value :: "js_number option \<Rightarrow> rat" where
  "finite_value v = (case v of Some (Finite q) \<Rightarrow> q | _ \<Rightarrow> 0)"

definition finite_values :: "string \<Rightarrow> plot_row list \<Rightarrow> string \<Rightarrow> bool" where
  "finite_values field rows key \<longleftrightarrow>
     list_all (\<lambda>row. row_text row field = key \<longrightarrow> (case row_number row ''value'' of Some v \<Rightarrow> isFinite v | None \<Rightarrow> True)) rows"

lemma share_total_finite:
  assumes "finite_values field rows key"
  shows "share_total field rows key =
    Finite (\<Sum>row\<leftarrow>filter (\<lambda>row. row_text row field = key) rows. finite_value (row_number row ''value''))"
  unfolding share_total_def
  using assms by (intro sum_numbers_cong)
    (auto simp: finite_values_def list_all_iff finite_value_def isFinite_def split: option.splits js_number.splits)

lemma shares_add_up:
  assumes finite: "finite_values field rows key" and whole: "share_total field rows key \<noteq> Finite 0"
  shows "(\<Sum>row\<leftarrow>filter (\<lambda>row. row_text row field = key) rows. finite_value (shown_value field rows True row)) = 100"
proof -
  let ?rows = "filter (\<lambda>row. row_text row field = key) rows"
  define t where "t = (\<Sum>row\<leftarrow>?rows. finite_value (row_number row ''value''))"
  have total: "share_total field rows key = Finite t" unfolding t_def by (rule share_total_finite [OF finite])
  have "finite_value (shown_value field rows True row) = finite_value (row_number row ''value'') * (100 / t)" if "row \<in> set ?rows" for row
    using that finite whole total
    by (auto simp: shown_value_def finite_value_def finite_values_def list_all_iff isFinite_def num_percent_def Let_def
        split: option.splits js_number.splits)
  then have "(\<Sum>row\<leftarrow>?rows. finite_value (shown_value field rows True row)) =
      (\<Sum>row\<leftarrow>?rows. finite_value (row_number row ''value'') * (100 / t))"
    by (intro arg_cong [of _ _ sum_list] map_cong) auto
  also have "\<dots> = t * (100 / t)" unfolding sum_list_mult_const t_def ..
  finally show ?thesis using whole total by simp
qed

lemma position_of_inj: "x \<in> set xs \<Longrightarrow> y \<in> set xs \<Longrightarrow> position_of x xs = position_of y xs \<Longrightarrow> x = y"
  by (induction xs) (auto simp: position_of_def split: if_split_asm)

lemma compare_category_mem: "row \<in> set rows \<Longrightarrow> row_text row ''category_key'' \<in> set (compare_categories rows display)"
  by (auto simp: compare_categories_def Let_def)


definition example_category_row :: "string \<Rightarrow> rat \<Rightarrow> plot_row" where
  "example_category_row g n =
     [(''category_key'', PV_string ''A''), (''group_key'', PV_string g), (''cell_key'', PV_string g), (''value'', PV_number (Finite n))]"

definition example_page :: plot_page where
  "example_page =
     \<lparr>pg_parse = JS_String, pg_print = (\<lambda>_. []), pg_stringify = (\<lambda>_. []), pg_width = (\<lambda>s. of_nat (length s)),
      pg_date = (\<lambda>_. NaN), pg_percent = show_number\<rparr>"

definition example_display :: plot_display where
  "example_display =
     \<lparr>pd_timezone = None, pd_style = Style_bar, pd_smooth = False, pd_normalize = True, pd_uncased = False,
      pd_minimum_rows = 0, pd_by_category = False, pd_year = 2026, pd_nonnegative = True, pd_horizontal = False\<rparr>"

definition no_selection :: plot_selection where
  "no_selection = \<lparr>ps_hidden = [], ps_intervals = [], ps_rows = [], ps_cells = [], ps_transitions = []\<rparr>"


subsection \<open>Calendars\<close>

definition places_ok :: "nat \<Rightarrow> int \<Rightarrow> int \<Rightarrow> int list \<Rightarrow> calendar_place list \<times> int \<Rightarrow> bool" where
  "places_ok columns width upper lines result \<longleftrightarrow>
     length (fst result) = length lines \<and>
     (\<forall>i < length lines. let p = fst result ! i in
        cp_left p = int (i mod columns) * width + 65 \<and> upper \<le> cp_title p \<and>
        cp_title p + 18 * max 1 (lines ! i) + 28 \<le> cp_top p \<and> cp_top p + 212 \<le> snd result) \<and>
     (\<forall>i j. i < j \<longrightarrow> j < length lines \<longrightarrow> i div columns \<noteq> j div columns \<longrightarrow>
        cp_top (fst result ! i) + 212 \<le> cp_title (fst result ! j)) \<and> upper \<le> snd result"

lemma row_heading_bound: "i < length row \<Longrightarrow> 18 * max 1 (row ! i) \<le> row_heading row"
proof -
  assume "i < length row"
  then have "max 1 (row ! i) \<in> set (map (max 1) row)" by simp
  then have "max 1 (row ! i) \<le> Max (set (map (max 1) row))" by (intro Max_ge) simp_all
  then show ?thesis by (simp only: row_heading_def mult_le_cancel_left_pos zero_less_numeral)
qed

lemma row_heading_pos: "row \<noteq> [] \<Longrightarrow> 0 \<le> row_heading row"
  using row_heading_bound [of 0 row] by simp

lemma place_rows_ok:
  assumes columns: "0 < columns"
  shows "places_ok columns width upper lines (place_rows columns width upper lines)"
proof (induction "length lines" arbitrary: upper lines rule: less_induct)
  case less
  show ?case
  proof (cases "lines = []")
    case True
    then show ?thesis by (simp add: place_rows.simps [of columns width upper "[]"] places_ok_def)
  next
    case False
    let ?row = "take columns lines"
    let ?h = "row_heading ?row"
    let ?place = "\<lambda>column. \<lparr>cp_left = int column * width + 65, cp_title = upper, cp_top = upper + ?h + 28\<rparr>"
    obtain rest final where rest: "place_rows columns width (upper + ?h + 28 + 140 + 72) (drop columns lines) = (rest, final)"
      by force
    have result: "place_rows columns width upper lines = (map ?place [0..<length ?row] @ rest, final)"
      using False columns rest by (simp add: place_rows.simps [of columns width upper lines] Let_def)
    have "length (drop columns lines) < length lines" using False columns by simp
    then have ok: "places_ok columns width (upper + ?h + 240) (drop columns lines) (rest, final)"
      using less [of "drop columns lines" "upper + ?h + 28 + 140 + 72"] rest by (simp add: add.commute add.left_commute)
    have h: "0 \<le> ?h" using False columns by (intro row_heading_pos) simp
    let ?ps = "map ?place [0..<length ?row] @ rest"
    have inside: "?ps ! i = ?place i" if "i < length lines" "i < columns" for i
      using that by (simp add: nth_append)
    have beyond: "?ps ! i = rest ! (i - columns)" if "i < length lines" "columns \<le> i" for i
      using that by (simp add: nth_append min_def)
    have first: "18 * max 1 (lines ! i) \<le> ?h" if "i < length lines" "i < columns" for i
      using row_heading_bound [of i ?row] that by simp
    show ?thesis unfolding result places_ok_def fst_conv snd_conv Let_def
    proof (intro conjI allI impI)
      show "length ?ps = length lines" using ok by (auto simp: places_ok_def min_def)
      show "upper \<le> final" using ok h by (simp add: places_ok_def)
    next
      fix i
      assume i: "i < length lines"
      have "cp_left (?ps ! i) = int (i mod columns) * width + 65 \<and> upper \<le> cp_title (?ps ! i) \<and>
          cp_title (?ps ! i) + 18 * max 1 (lines ! i) + 28 \<le> cp_top (?ps ! i) \<and> cp_top (?ps ! i) + 212 \<le> final"
      proof (cases "i < columns")
        case True
        then show ?thesis unfolding inside [OF i True] using first [OF i True] ok by (simp add: places_ok_def)
      next
        case False
        then have "i - columns < length (drop columns lines)" "(i - columns) mod columns = i mod columns"
          using i by (simp_all add: le_mod_geq)
        then show ?thesis unfolding beyond [OF i leI [OF False]] using ok h False i
          by (auto simp: places_ok_def Let_def dest: spec [of _ "i - columns"])
      qed
      then show "cp_left (?ps ! i) = int (i mod columns) * width + 65" "upper \<le> cp_title (?ps ! i)"
        "cp_title (?ps ! i) + 18 * max 1 (lines ! i) + 28 \<le> cp_top (?ps ! i)" "cp_top (?ps ! i) + 212 \<le> final" by blast+
    next
      fix i j
      assume ij: "i < j" "j < length lines" "i div columns \<noteq> j div columns"
      show "cp_top (?ps ! i) + 212 \<le> cp_title (?ps ! j)"
      proof (cases "i < columns")
        case True
        then have j: "columns \<le> j" using ij columns by (cases "j < columns") auto
        then have "j - columns < length (drop columns lines)" using ij by simp
        then show ?thesis unfolding inside [OF less_trans [OF ij(1,2)] True] beyond [OF ij(2) j]
          using ok by (auto simp: places_ok_def Let_def)
      next
        case False
        then have i: "columns \<le> i" "columns \<le> j" using ij by auto
        have "(i - columns) div columns \<noteq> (j - columns) div columns"
          using ij(3) i columns by (simp add: le_div_geq)
        then show ?thesis unfolding beyond [OF less_trans [OF ij(1,2)] i(1)] beyond [OF ij(2) i(2)]
          using ok ij i by (auto simp: places_ok_def)
      qed
    qed
  qed
qed

lemma calendar_weeks_room:
  assumes "first \<le> day" "day \<le> final"
  shows "22 * ((day - first + (week_day first + 6) mod 7) div 7 + 1) + 85 \<le> calendar_width (calendar_weeks first final)"
proof -
  let ?o = "(week_day first + 6) mod 7" and ?n = "final - first + 1 + (week_day first + 6) mod 7"
  have "(day - first + ?o) div 7 \<le> (?n - 1) div 7" using assms by (intro zdiv_mono1) simp_all
  also have "(?n - 1) div 7 + 1 \<le> calendar_weeks first final"
  proof -
    have "((?n - 1) div 7) * 7 < ?n" by presburger
    then have "of_int ((?n - 1) div 7) * 7 < (of_int ?n :: rat)" by (metis of_int_less_iff of_int_mult of_int_numeral)
    then have "of_int ((?n - 1) div 7) < (of_int ?n :: rat) / 7" by (simp add: field_simps)
    then show ?thesis unfolding calendar_weeks_def less_ceiling_iff [symmetric] by simp
  qed
  finally have "22 * ((day - first + ?o) div 7 + 1) \<le> 22 * calendar_weeks first final" by simp
  then show ?thesis by (simp add: calendar_width_def)
qed


lemma length_places: "length (ca_places (calendar_of page request interval rows display selection available)) =
    length (shown_keys selection (group_keys rows))"
proof -
  have columns: "0 < calendar_columns available width" for width by (simp add: calendar_columns_def)
  show ?thesis using place_rows_ok [OF columns] by (simp add: calendar_of_def Let_def split_def places_ok_def)
qed

definition example_trend_row :: "string \<Rightarrow> string \<Rightarrow> plot_row" where
  "example_trend_row g date =
     [(''interval_key'', PV_string date), (''axis_value'', PV_string date), (''group_key'', PV_string g), (''value'', PV_null)]"

definition example_trends :: "plot_row list" where
  "example_trends = [example_trend_row ''a'' ''2026-01-08'', example_trend_row ''b'' ''2026-02-01'']"


subsection \<open>Flows\<close>

text \<open>The printed name of a node tells its stage, as JSON text does.\<close>

definition stages_told :: "plot_page \<Rightarrow> bool" where
  "stages_told page \<longleftrightarrow> (\<forall>a b v w. node_name page a v = node_name page b w \<longrightarrow> a = b)"

definition nodes_ok :: "plot_page \<Rightarrow> string list \<Rightarrow> plot_row list \<Rightarrow> (string \<times> sankey_node) list \<Rightarrow> bool" where
  "nodes_ok page stages rows nodes \<longleftrightarrow>
     distinct (map fst nodes) \<and> (\<forall>(name, node) \<in> set nodes. \<exists>stage v. name = node_name page stage v \<and>
       node = sankey_node_of page stages rows stage v)"

lemma sankey_node_name [simp]: "sn_name (sankey_node_of page stages rows stage v) = node_name page stage v"
  by (simp add: sankey_node_of_def Let_def)

lemma sankey_node_depth [simp]: "sn_depth (sankey_node_of page stages rows stage v) = stage"
  by (simp add: sankey_node_of_def Let_def)

lemma update_members: "set (AList.update k v entries) \<subseteq> insert (k, v) (set entries)"
  by (induction entries) auto

lemma nodes_ok_update:
  "nodes_ok page stages rows nodes \<Longrightarrow>
   nodes_ok page stages rows (AList.update (node_name page stage v) (sankey_node_of page stages rows stage v) nodes)"
  using distinct_update [of nodes] update_members [of "node_name page stage v" "sankey_node_of page stages rows stage v" nodes]
  by (fastforce simp: nodes_ok_def)

lemma nodes_ok_add: "nodes_ok page stages rows nodes \<Longrightarrow> nodes_ok page stages rows (add_transition page stages rows row nodes)"
  by (cases "row_transition page row") (simp add: add_transition_def nodes_ok_update)

lemma added_names:
  "set (map fst (add_transition page stages rows row nodes)) =
     {node_name page (fst (row_transition page row)) (pair_member (snd (row_transition page row)) 0),
      node_name page (fst (row_transition page row) + 1) (pair_member (snd (row_transition page row)) 1)} \<union> set (map fst nodes)"
  by (auto simp: add_transition_def Let_def split_def dom_update)

lemma added_nodes:
  "nodes_ok page stages rows nodes \<Longrightarrow>
   nodes_ok page stages rows (fold (add_transition page stages rows) rs nodes) \<and>
   set (map fst nodes) \<subseteq> set (map fst (fold (add_transition page stages rows) rs nodes)) \<and>
   (\<forall>row \<in> set rs.
      node_name page (fst (row_transition page row)) (pair_member (snd (row_transition page row)) 0)
        \<in> set (map fst (fold (add_transition page stages rows) rs nodes)) \<and>
      node_name page (fst (row_transition page row) + 1) (pair_member (snd (row_transition page row)) 1)
        \<in> set (map fst (fold (add_transition page stages rows) rs nodes)))"
proof (induction rs arbitrary: nodes)
  case (Cons r rs)
  then show ?case
    using Cons.IH [OF nodes_ok_add [OF Cons.prems, of r]] unfolding added_names fold_Cons comp_apply by auto
qed simp

lemma node_of_name:
  assumes "stages_told page" and "nodes_ok page stages rows nodes" and "node_name page stage v \<in> set (map fst nodes)"
  shows "\<exists>node \<in> set (map snd nodes). sn_name node = node_name page stage v \<and> sn_depth node = stage"
proof -
  obtain node where node: "(node_name page stage v, node) \<in> set nodes" using assms(3) by auto
  then obtain stage' v' where n: "node_name page stage v = node_name page stage' v'" "node = sankey_node_of page stages rows stage' v'"
    using assms(2) by (auto simp: nodes_ok_def)
  have "stage = stage'" using assms(1) n(1) unfolding stages_told_def by blast
  moreover have "node \<in> set (map snd nodes)" using node by force
  ultimately show ?thesis using n by (intro bexI [of _ node]) simp_all
qed

text \<open>
  Every flow of a Sankey diagram runs between two of its nodes, from a stage to the next one, and no two nodes share a
  name; so the diagram has no cycle.
\<close>

theorem sankey_flows_forward:
  assumes "stages_told page" and "link \<in> set (sankey_links page stages selection rows)"
  shows "distinct (map sn_name (sankey_nodes page stages rows)) \<and>
    (\<exists>source target. source \<in> set (sankey_nodes page stages rows) \<and> target \<in> set (sankey_nodes page stages rows) \<and>
      sn_name source = sl_source link \<and> sn_name target = sl_target link \<and> sn_depth target = sn_depth source + 1)"
proof
  let ?nodes = "fold (add_transition page stages rows) rows []"
  have ok: "nodes_ok page stages rows ?nodes" and names: "\<forall>row \<in> set rows.
      node_name page (fst (row_transition page row)) (pair_member (snd (row_transition page row)) 0) \<in> set (map fst ?nodes) \<and>
      node_name page (fst (row_transition page row) + 1) (pair_member (snd (row_transition page row)) 1) \<in> set (map fst ?nodes)"
    using added_nodes [of page stages rows "[]" rows] by (simp_all add: nodes_ok_def)
  have "sn_name (snd entry) = fst entry" if "entry \<in> set ?nodes" for entry
    using ok that by (cases entry) (auto simp: nodes_ok_def)
  then have "map sn_name (sankey_nodes page stages rows) = map fst ?nodes"
    unfolding sankey_nodes_def map_map by (intro map_cong) simp_all
  then show "distinct (map sn_name (sankey_nodes page stages rows))" using ok by (simp add: nodes_ok_def)
  obtain row where row: "row \<in> set rows" "link = sankey_link_of page stages selection row"
    using assms(2) by (auto simp: sankey_links_def)
  have ends: "sl_source link = node_name page (fst (row_transition page row)) (pair_member (snd (row_transition page row)) 0)"
    "sl_target link = node_name page (fst (row_transition page row) + 1) (pair_member (snd (row_transition page row)) 1)"
    by (simp_all add: row(2) sankey_link_of_def split_def Let_def)
  show "\<exists>source target. source \<in> set (sankey_nodes page stages rows) \<and> target \<in> set (sankey_nodes page stages rows) \<and>
      sn_name source = sl_source link \<and> sn_name target = sl_target link \<and> sn_depth target = sn_depth source + 1"
    using node_of_name [OF assms(1) ok] names row(1) unfolding ends sankey_nodes_def by metis
qed

definition stage_mark :: "int \<Rightarrow> string" where
  "stage_mark n = replicate (nat (if n < 0 then -2 * n - 1 else 2 * n)) (CHR ''1'')"

lemma stage_mark_inject: "stage_mark a = stage_mark b \<longleftrightarrow> a = b"
proof
  assume "stage_mark a = stage_mark b"
  then have "length (stage_mark a) = length (stage_mark b)" by simp
  then have "(if a < 0 then -2 * a - 1 else 2 * a) = (if b < 0 then -2 * b - 1 else 2 * b)"
    unfolding stage_mark_def length_replicate by (subst (asm) nat_eq_iff) (auto split: if_split_asm)
  then show "a = b" by presburger
qed simp

definition example_sankey_page :: plot_page where
  "example_sankey_page = example_page\<lparr>
     pg_parse := (\<lambda>s. JS_Array [JS_Number (Finite 0), JS_Array [JS_String s, JS_String s]]),
     pg_stringify := (\<lambda>v. case v of JS_Array [JS_Number (Finite q), _] \<Rightarrow> stage_mark \<lfloor>q\<rfloor> | _ \<Rightarrow> [])\<rparr>"

lemma example_stages_told: "stages_told example_sankey_page"
  by (simp add: stages_told_def node_name_def example_sankey_page_def stage_mark_inject)

lemma sankey_flows_forward_witness:
  "distinct (map sn_name (sankey_nodes example_sankey_page [''a'', ''b''] [[(''transition_key'', PV_string ''t'')]]))"
proof -
  let ?rows = "[[(''transition_key'', PV_string ''t'')]]"
  have "sankey_link_of example_sankey_page [''a'', ''b''] no_selection (hd ?rows) \<in>
      set (sankey_links example_sankey_page [''a'', ''b''] no_selection ?rows)"
    by (simp add: sankey_links_def)
  from sankey_flows_forward [OF example_stages_told this] show ?thesis by (rule conjunct1)
qed

end
