(* ===== verification/Preview_Stream.thy ===== *)
theory Preview_Stream
  imports Prelude
begin

text \<open>
  The stream of a topic preview: \<open>streamTopicPreview\<close> of \<open>features/tools/topic-modeling/api.ts\<close>. Chunks of decoded
  text are collected in a buffer and cut at blank lines into events; the data of an event is JSON. What \<open>JSON.parse\<close> and
  the state of the update make of it, an update or an error, is an argument.
\<close>

subsection \<open>Cutting the buffer\<close>

text \<open>The regular expression \<open>\r?\n\<close> at the start of a text, with the text behind.\<close>

fun end_line :: "string \<Rightarrow> string option" where
  "end_line [] = None"
| "end_line (c # s) =
     (if c = CHR 0x0A then Some s
      else if c = CHR 0x0D then (case s of [] \<Rightarrow> None | d # r \<Rightarrow> if d = CHR 0x0A then Some r else None)
      else None)"

definition blank_line :: "string \<Rightarrow> string option" where
  "blank_line s = (case end_line s of Some r \<Rightarrow> end_line r | None \<Rightarrow> None)"

text \<open>The first match of \<open>\r?\n\r?\n\<close>: the block before and the buffer behind.\<close>

fun next_block :: "string \<Rightarrow> (string \<times> string) option" where
  "next_block [] = None"
| "next_block (c # s) =
     (case blank_line (c # s) of
        Some rest \<Rightarrow> Some ([], rest)
      | None \<Rightarrow> map_option (\<lambda>(block, rest). (c # block, rest)) (next_block s))"

lemma end_line_shorter: "end_line s = Some r \<Longrightarrow> length r < length s"
  by (cases s) (auto split: if_split_asm list.split_asm)

lemma blank_line_shorter: "blank_line s = Some r \<Longrightarrow> length r < length s"
  by (auto simp: blank_line_def dest!: end_line_shorter split: option.split_asm)

lemma next_block_shorter: "next_block s = Some (block, rest) \<Longrightarrow> length rest < length s"
  by (induction s arbitrary: block) (auto dest: blank_line_shorter simp: less_SucI split: option.split_asm)

text \<open>\<open>block.split(/\r?\n/)\<close>, with the part of the current line before.\<close>

function lines_of :: "string \<Rightarrow> string \<Rightarrow> string list" where
  "lines_of line s =
     (case end_line s of
        Some r \<Rightarrow> line # lines_of [] r
      | None \<Rightarrow> (case s of [] \<Rightarrow> [line] | c # r \<Rightarrow> lines_of (line @ [c]) r))"
  by pat_completeness auto
termination by (relation "measure (\<lambda>(line, s). length s)") (auto dest: end_line_shorter)

declare lines_of.simps [simp del]

definition event_data :: "string \<Rightarrow> string" where
  "event_data block =
     join [CHR 0x0A] (map (\<lambda>line. strip_prefixes white_space (drop 5 line)) (filter (has_prefix ''data:'') (lines_of [] block)))"

subsection \<open>Reading\<close>

text \<open>
  The events of the buffer, in order: the updates handed over, the error that ended the reading, if any, and the rest of
  the buffer. \<open>aborted\<close> is the signal, which no update changes.
\<close>

function drain :: "(string \<Rightarrow> 'u result) \<Rightarrow> bool \<Rightarrow> string \<Rightarrow> 'u list \<times> js_error option \<times> string" where
  "drain parse aborted buffer =
     (case next_block buffer of
        None \<Rightarrow> ([], None, buffer)
      | Some (block, rest) \<Rightarrow>
          if event_data block = [] \<or> aborted then drain parse aborted rest
          else (case parse (event_data block) of
                  Inl e \<Rightarrow> ([], Some e, rest)
                | Inr u \<Rightarrow> (let (us, e, b) = drain parse aborted rest in (u # us, e, b))))"
  by pat_completeness auto
termination by (relation "measure (\<lambda>(parse, aborted, buffer). length buffer)") (auto dest: next_block_shorter)

declare drain.simps [simp del]

text \<open>Each chunk comes with the state of the signal when it is read.\<close>

fun read_chunks :: "(string \<Rightarrow> 'u result) \<Rightarrow> string \<Rightarrow> (bool \<times> string) list \<Rightarrow> 'u list \<times> js_error option" where
  "read_chunks parse buffer [] = ([], None)"
| "read_chunks parse buffer ((aborted, chunk) # chunks) =
     (let (us, e, rest) = drain parse aborted (buffer @ chunk)
      in case e of
           Some _ \<Rightarrow> (us, e)
         | None \<Rightarrow> (let (us', e') = read_chunks parse rest chunks in (us @ us', e')))"

definition connection_closed :: js_error where
  "connection_closed = Error ''The Preview connection closed. Click Preview to sample again.''"

text \<open>A stream that ends without an error has closed too early, unless it was aborted.\<close>

definition streamTopicPreview ::
    "(string \<Rightarrow> 'u result) \<Rightarrow> (bool \<times> string) list \<Rightarrow> bool \<Rightarrow> 'u list \<times> js_error option" where
  "streamTopicPreview parse chunks aborted =
     (let (us, e) = read_chunks parse [] chunks
      in (us, case e of Some _ \<Rightarrow> e | None \<Rightarrow> if aborted then None else Some connection_closed))"

subsection \<open>The chunks do not matter\<close>

lemma end_line_append: "end_line s = Some r \<Longrightarrow> end_line (s @ t) = Some (r @ t)"
  by (cases s) (auto split: if_split_asm list.split_asm)

lemma end_line_cut: "end_line s = None \<Longrightarrow> end_line (s @ t) \<noteq> None \<Longrightarrow> s = [] \<or> s = [CHR 0x0D]"
  by (cases s) (auto split: if_split_asm list.split_asm)

lemma end_line_feeds: "end_line s = Some r \<Longrightarrow> count_list s (CHR 0x0A) = Suc (count_list r (CHR 0x0A))"
  by (cases s) (auto split: if_split_asm list.split_asm)

lemma blank_line_append: "blank_line s = Some r \<Longrightarrow> blank_line (s @ t) = Some (r @ t)"
  by (auto simp: blank_line_def end_line_append split: option.split_asm)

lemma blank_line_cut:
  assumes "blank_line s = None" and "blank_line (s @ t) \<noteq> None"
  shows "count_list s (CHR 0x0A) \<le> 1"
proof (cases "end_line s")
  case None
  then have "s = [] \<or> s = [CHR 0x0D]" using assms end_line_cut [of s t] by (auto simp: blank_line_def split: option.split_asm)
  then show ?thesis by auto
next
  case (Some r)
  then have "end_line r = None" "end_line (r @ t) \<noteq> None"
    using assms by (auto simp: blank_line_def end_line_append)
  then have "r = [] \<or> r = [CHR 0x0D]" by (rule end_line_cut)
  then show ?thesis using end_line_feeds [OF Some] by auto
qed

lemma next_block_feeds: "next_block s = Some p \<Longrightarrow> 2 \<le> count_list s (CHR 0x0A)"
proof (induction s arbitrary: p)
  case (Cons c s)
  show ?case
  proof (cases "blank_line (c # s)")
    case None
    then show ?thesis using Cons by (auto split: option.split_asm)
  next
    case (Some r)
    then obtain q where "end_line (c # s) = Some q" "end_line q = Some r" by (auto simp: blank_line_def split: option.split_asm)
    then show ?thesis using end_line_feeds [of "c # s" q] end_line_feeds [of q r] by simp
  qed
qed simp

lemma next_block_append: "next_block s = Some (block, rest) \<Longrightarrow> next_block (s @ t) = Some (block, rest @ t)"
proof (induction s arbitrary: block)
  case (Cons c s)
  show ?case
  proof (cases "blank_line (c # s)")
    case (Some r)
    then show ?thesis using Cons.prems blank_line_append [OF Some, of t] by simp
  next
    case None
    then obtain b where b: "next_block s = Some (b, rest)" "block = c # b" using Cons.prems by auto
    then have "\<not> count_list (c # s) (CHR 0x0A) \<le> 1" using next_block_feeds [OF b(1)] by auto
    then have "blank_line (c # s @ t) = None" using blank_line_cut [OF None, of t] by (cases "blank_line (c # s @ t)") auto
    then show ?thesis using Cons.IH [OF b(1)] b(2) by simp
  qed
qed simp

lemma drain_append:
  "drain parse False (s @ t) =
     (case drain parse False s of
        (us, Some e, rest) \<Rightarrow> (us, Some e, rest @ t)
      | (us, None, rest) \<Rightarrow> (let (us', e', rest') = drain parse False (rest @ t) in (us @ us', e', rest')))"
proof (induction "length s" arbitrary: s rule: less_induct)
  case less
  show ?case
  proof (cases "next_block s")
    case None
    then have "drain parse False s = ([], None, s)" by (simp add: drain.simps [of _ _ s])
    then show ?thesis by simp
  next
    case (Some p)
    then obtain block rest where p: "next_block s = Some (block, rest)" by (cases p) simp
    note IH = less.hyps [OF next_block_shorter [OF p]]
    show ?thesis
      unfolding drain.simps [of _ _ s] drain.simps [of _ _ "s @ t"] next_block_append [OF p] p
      using IH by (auto simp: Let_def split: sum.split prod.split option.split)
  qed
qed

lemma drain_rest: "drain parse False s = (us, None, rest) \<Longrightarrow> next_block rest = None"
proof (induction "length s" arbitrary: s us rule: less_induct)
  case less
  show ?case
  proof (cases "next_block s")
    case None
    then show ?thesis using less.prems by (simp add: drain.simps [of _ _ s])
  next
    case (Some p)
    then obtain block r where p: "next_block s = Some (block, r)" by (cases p) simp
    obtain us' where "drain parse False r = (us', None, rest)"
      using less.prems unfolding drain.simps [of _ _ s] p by (auto simp: Let_def split: if_split_asm sum.split_asm prod.split_asm)
    then show ?thesis using less.hyps [OF next_block_shorter [OF p]] by blast
  qed
qed

text \<open>What is delivered does not depend on where the transport cuts the text into chunks.\<close>

lemma read_chunks_concat:
  assumes "\<forall>(aborted, chunk) \<in> set chunks. \<not> aborted" and "next_block buffer = None"
  shows "read_chunks parse buffer chunks =
    (let (us, e, rest) = drain parse False (buffer @ concat (map snd chunks)) in (us, e))"
  using assms
proof (induction parse buffer chunks rule: read_chunks.induct)
  case (1 parse buffer)
  then show ?case by (simp add: drain.simps)
next
  case (2 parse buffer aborted chunk chunks)
  obtain us e rest where d: "drain parse False (buffer @ chunk) = (us, e, rest)" by (metis prod_cases3)
  show ?case
  proof (cases e)
    case (Some x)
    then show ?thesis using 2 d drain_append [of parse "buffer @ chunk" "concat (map snd chunks)"] by simp
  next
    case None
    then show ?thesis using 2 d drain_append [of parse "buffer @ chunk" "concat (map snd chunks)"] drain_rest [of parse "buffer @ chunk" us rest]
      by (auto simp: Let_def split: prod.split)
  qed
qed

subsection \<open>Events of the host\<close>

text \<open>
  What the host sends: events, each with its data on one line, and comments that keep the connection open. A line ends
  with a line feed, with or without a carriage return before it.
\<close>

datatype wire_block = Wire_event bool string | Wire_comment bool string

definition line_break :: "bool \<Rightarrow> string" where
  "line_break cr = (if cr then [CHR 0x0D, CHR 0x0A] else [CHR 0x0A])"

definition wire_text :: "wire_block \<Rightarrow> string" where
  "wire_text w =
     (case w of
        Wire_event cr json \<Rightarrow> ''data: '' @ json @ line_break cr @ line_break cr
      | Wire_comment cr comment \<Rightarrow> CHR '':'' # comment @ line_break cr @ line_break cr)"

definition one_line :: "string \<Rightarrow> bool" where
  "one_line s \<longleftrightarrow> CHR 0x0A \<notin> set s \<and> CHR 0x0D \<notin> set s"

fun sendable :: "wire_block \<Rightarrow> bool" where
  "sendable (Wire_event cr json) \<longleftrightarrow> one_line json \<and> json \<noteq> [] \<and> strip_prefixes white_space json = json"
| "sendable (Wire_comment cr comment) \<longleftrightarrow> one_line comment"

text \<open>What should be delivered: the updates up to the first error.\<close>

fun delivered :: "(string \<Rightarrow> 'u result) \<Rightarrow> wire_block list \<Rightarrow> 'u list \<times> js_error option" where
  "delivered parse [] = ([], None)"
| "delivered parse (Wire_comment _ _ # ws) = delivered parse ws"
| "delivered parse (Wire_event _ json # ws) =
     (case parse json of Inl e \<Rightarrow> ([], Some e) | Inr u \<Rightarrow> (let (us, e) = delivered parse ws in (u # us, e)))"

lemma one_line_simps [simp]:
  "one_line []" "one_line (c # s) \<longleftrightarrow> c \<noteq> CHR 0x0A \<and> c \<noteq> CHR 0x0D \<and> one_line s"
  "one_line (s @ t) \<longleftrightarrow> one_line s \<and> one_line t"
  by (auto simp: one_line_def)

lemma end_line_break [simp]: "end_line (line_break cr @ t) = Some t"
  by (simp add: line_break_def)

lemma blank_line_break [simp]: "blank_line (line_break cr @ line_break cr @ t) = Some t"
  by (simp add: blank_line_def)

lemma line_break_nonempty [simp]: "line_break cr \<noteq> []"
  by (simp add: line_break_def)

lemma next_block_line:
  "one_line s \<Longrightarrow> next_block (s @ line_break cr @ line_break cr @ t) = Some (s, t)"
proof (induction s)
  case Nil
  obtain c r where c: "line_break cr @ line_break cr @ t = c # r" by (cases "line_break cr @ line_break cr @ t") auto
  have "blank_line (c # r) = Some t" unfolding c [symmetric] by simp
  then show ?case unfolding append_Nil c by simp
next
  case (Cons c s)
  then show ?case by (simp add: blank_line_def)
qed

lemma lines_of_line: "one_line s \<Longrightarrow> lines_of line s = [line @ s]"
proof (induction s arbitrary: line)
  case (Cons c s)
  then show ?case by (simp add: lines_of.simps [of line "c # s"])
qed (simp add: lines_of.simps)

lemma strip_space: "strip_prefixes white_space (CHR '' '' # s) = strip_prefixes white_space s"
proof -
  have "char_of (32 :: nat) = CHR '' ''" by code_simp
  then have "find (\<lambda>w. w \<noteq> [] \<and> has_prefix w (CHR '' '' # s)) white_space = Some '' ''"
    by (simp add: white_space_def has_prefix_def)
  then show ?thesis by (simp add: strip_prefixes.simps [of _ "CHR '' '' # s"])
qed

lemma event_data_wire:
  assumes "sendable (Wire_event cr json)"
  shows "event_data (''data: '' @ json) = json"
proof -
  have "lines_of [] (''data: '' @ json) = [''data: '' @ json]" using assms lines_of_line [of "''data: '' @ json" "[]"] by simp
  then show ?thesis using assms strip_space [of json] by (simp add: event_data_def has_prefix_def)
qed

lemma event_data_comment: "one_line comment \<Longrightarrow> event_data (CHR '':'' # comment) = []"
  using lines_of_line [of "CHR '':'' # comment" "[]"] by (simp add: event_data_def has_prefix_def)

lemma drain_wire:
  "list_all sendable ws \<Longrightarrow>
   (let (us, e, rest) = drain parse False (concat (map wire_text ws)) in (us, e)) = delivered parse ws"
proof (induction parse ws rule: delivered.induct)
  case (1 parse)
  then show ?case by (simp add: drain.simps)
next
  case (2 parse cr comment ws)
  have "next_block (wire_text (Wire_comment cr comment) @ concat (map wire_text ws)) =
      Some (CHR '':'' # comment, concat (map wire_text ws))"
    using 2 next_block_line [of "CHR '':'' # comment" cr "concat (map wire_text ws)"] by (simp add: wire_text_def)
  then show ?case using 2 event_data_comment [of comment]
    by (simp add: drain.simps [of _ _ "wire_text (Wire_comment cr comment) @ concat (map wire_text ws)"])
next
  case (3 parse cr json ws)
  obtain us e rest where d: "drain parse False (concat (map wire_text ws)) = (us, e, rest)" by (metis prod_cases3)
  have block: "next_block (wire_text (Wire_event cr json) @ concat (map wire_text ws)) =
      Some (''data: '' @ json, concat (map wire_text ws))"
    using 3(2) next_block_line [of "''data: '' @ json" cr "concat (map wire_text ws)"] by (simp add: wire_text_def)
  have data: "event_data (''data: '' @ json) = json" "json \<noteq> []" using 3(2) event_data_wire by simp_all
  show ?case
  proof (cases "parse json")
    case (Inl e)
    then show ?thesis using data
      by (simp add: drain.simps [of _ _ "wire_text (Wire_event cr json) @ concat (map wire_text ws)"] block [simplified])
  next
    case (Inr u)
    then have "delivered parse ws = (us, e)" using 3 d by simp
    then show ?thesis using data Inr d
      by (simp add: drain.simps [of _ _ "wire_text (Wire_event cr json) @ concat (map wire_text ws)"] block [simplified])
  qed
qed

text \<open>
  C13: a preview stream delivers exactly the updates the host sent, in order and up to the first failure, wherever the
  transport cuts it into chunks, also inside a line break, and whatever comments stand between the events; a stream that
  just ends is an error.
\<close>

theorem preview_stream_delivered:
  assumes ws: "list_all sendable ws" and chunks: "concat (map snd chunks) = concat (map wire_text ws)"
    and unbroken: "\<forall>(aborted, chunk) \<in> set chunks. \<not> aborted"
  shows "streamTopicPreview parse chunks False =
    (fst (delivered parse ws), case snd (delivered parse ws) of Some e \<Rightarrow> Some e | None \<Rightarrow> Some connection_closed)"
proof -
  have "read_chunks parse [] chunks = delivered parse ws"
    using read_chunks_concat [OF unbroken, of "[]" parse] drain_wire [OF ws, of parse] by (simp add: chunks)
  then show ?thesis by (simp add: streamTopicPreview_def split_def split: option.split)
qed

definition example_wire :: "wire_block list" where
  "example_wire = [Wire_comment False [], Wire_event True ''1'', Wire_event False ''22'']"

lemma preview_stream_delivered_witness:
  "streamTopicPreview Inr [(False, '':'' @ [CHR 0x0A]), (False, CHR 0x0A # ''data: 1'' @ [CHR 0x0D]),
      (False, [CHR 0x0A, CHR 0x0D, CHR 0x0A] @ ''data: 2''), (False, CHR ''2'' # [CHR 0x0A, CHR 0x0A])] False =
    ([''1'', ''22''], Some connection_closed)"
proof -
  let ?chunks = "[(False, '':'' @ [CHR 0x0A]), (False, CHR 0x0A # ''data: 1'' @ [CHR 0x0D]),
      (False, [CHR 0x0A, CHR 0x0D, CHR 0x0A] @ ''data: 2''), (False, CHR ''2'' # [CHR 0x0A, CHR 0x0A])]"
  have "list_all sendable example_wire" "concat (map snd ?chunks) = concat (map wire_text example_wire)"
    "\<forall>(aborted, chunk) \<in> set ?chunks. \<not> aborted"
    by (code_simp, simp add: example_wire_def wire_text_def line_break_def, simp)
  from preview_stream_delivered [OF this, of Inr] show ?thesis by (simp add: example_wire_def)
qed

end
