(* ===== verification/Topic_Preview.thy ===== *)
theory Topic_Preview
  imports Complex_Main Preview_Stream
begin

text \<open>
  The topic preview of a tab: \<open>features/tools/topic-modeling/useTopicPreview.ts\<close>. Every submission opens a stream and
  has a connection object, which lives on after it is replaced, since its callbacks hold it. The requests that delete a
  preview on the host are kept until they are answered. A preview is submitted on an active tab only, as its dialog is
  shown there only. The watch queries, which only tell when a source has changed, are an event.
\<close>

subsection \<open>State\<close>

datatype 's topic_update = Preparing (tu_id: string) string "rat option" | Ready (tu_id: string) 's

record 'r fit =
  ft_request :: 'r
  ft_aborted :: bool
  ft_id :: "string option"
  ft_cancelling :: bool

record ('r, 's) shown_preview =
  sw_request :: 'r
  sw_startedAt :: int
  sw_update :: "'s topic_update option"
  sw_error :: "js_error option"
  sw_cancelling :: bool
  sw_outdated :: bool

record ('r, 's) topic_preview =
  th_fits :: "'r fit list"
  th_connection :: "nat option"
  th_shown :: "('r, 's) shown_preview option"
  th_active :: bool
  th_deletes :: "(nat \<times> string) list"

definition initial_preview :: "('r, 's) topic_preview" where
  "initial_preview = \<lparr>th_fits = [], th_connection = None, th_shown = None, th_active = True, th_deletes = []\<rparr>"

definition map_shown ::
    "(('r, 's) shown_preview \<Rightarrow> ('r, 's) shown_preview) \<Rightarrow> ('r, 's) topic_preview \<Rightarrow> ('r, 's) topic_preview" where
  "map_shown f th = th\<lparr>th_shown := map_option f (th_shown th)\<rparr>"

definition map_fit :: "nat \<Rightarrow> ('r fit \<Rightarrow> 'r fit) \<Rightarrow> ('r, 's) topic_preview \<Rightarrow> ('r, 's) topic_preview" where
  "map_fit i f th = th\<lparr>th_fits := (th_fits th)[i := f (th_fits th ! i)]\<rparr>"

subsection \<open>Operations\<close>

text \<open>\<open>connection.current?.controller.abort(); connection.current = null\<close>.\<close>

definition abort_connection :: "('r, 's) topic_preview \<Rightarrow> ('r, 's) topic_preview" where
  "abort_connection th =
     (case th_connection th of
        None \<Rightarrow> th
      | Some c \<Rightarrow> (map_fit c (\<lambda>f. f\<lparr>ft_aborted := True\<rparr>) th)\<lparr>th_connection := None\<rparr>)"

definition clear_preview :: "('r, 's) topic_preview \<Rightarrow> ('r, 's) topic_preview" where
  "clear_preview th = (abort_connection th)\<lparr>th_shown := None\<rparr>"

definition new_fit :: "'r \<Rightarrow> 'r fit" where
  "new_fit request = \<lparr>ft_request = request, ft_aborted = False, ft_id = None, ft_cancelling = False\<rparr>"

definition new_shown :: "'r \<Rightarrow> int \<Rightarrow> ('r, 's) shown_preview" where
  "new_shown request now =
     \<lparr>sw_request = request, sw_startedAt = now, sw_update = None, sw_error = None, sw_cancelling = False, sw_outdated = False\<rparr>"

definition submit_preview :: "'r \<Rightarrow> int \<Rightarrow> ('r, 's) topic_preview \<Rightarrow> ('r, 's) topic_preview" where
  "submit_preview request now th =
     (let th1 = clear_preview th
      in th1\<lparr>th_connection := Some (length (th_fits th1)), th_fits := th_fits th1 @ [new_fit request],
             th_shown := Some (new_shown request now)\<rparr>)"

text \<open>The callbacks of a stream.\<close>

definition stream_update :: "nat \<Rightarrow> 's topic_update \<Rightarrow> ('r, 's) topic_preview \<Rightarrow> ('r, 's) topic_preview" where
  "stream_update i u th =
     (if th_connection th \<noteq> Some i \<or> ft_cancelling (th_fits th ! i) then th
      else map_shown (\<lambda>old. old\<lparr>sw_update := Some u\<rparr>) (map_fit i (\<lambda>f. f\<lparr>ft_id := Some (tu_id u)\<rparr>) th))"

definition stream_failed :: "nat \<Rightarrow> js_error \<Rightarrow> ('r, 's) topic_preview \<Rightarrow> ('r, 's) topic_preview" where
  "stream_failed i e th =
     (if th_connection th \<noteq> Some i \<or> ft_aborted (th_fits th ! i) \<or> ft_cancelling (th_fits th ! i) then th
      else map_shown (\<lambda>old. old\<lparr>sw_error := Some e, sw_outdated := True\<rparr>) th)"

text \<open>\<open>cancel\<close> up to its await, and after it.\<close>

definition cancel_done :: "nat \<Rightarrow> ('r, 's) topic_preview \<Rightarrow> ('r, 's) topic_preview" where
  "cancel_done c th = (if th_connection th = Some c then clear_preview th else th)"

definition cancel_failed :: "nat \<Rightarrow> js_error \<Rightarrow> ('r, 's) topic_preview \<Rightarrow> ('r, 's) topic_preview" where
  "cancel_failed c e th =
     (if \<not> ft_aborted (th_fits th ! c) \<and> th_connection th = Some c
      then map_shown (\<lambda>old. old\<lparr>sw_cancelling := False, sw_error := Some e\<rparr>) th else th)"

definition cancel_preview :: "('r, 's) topic_preview \<Rightarrow> ('r, 's) topic_preview" where
  "cancel_preview th =
     (case th_connection th of
        None \<Rightarrow> th
      | Some c \<Rightarrow>
          (let th1 = map_shown (\<lambda>old. old\<lparr>sw_cancelling := True\<rparr>) (map_fit c (\<lambda>f. f\<lparr>ft_cancelling := True\<rparr>) th)
           in case ft_id (th_fits th1 ! c) of
                Some name \<Rightarrow> th1\<lparr>th_deletes := (c, name) # th_deletes th1\<rparr>
              | None \<Rightarrow> cancel_done c th1))"

definition adjust_preview :: "'s \<Rightarrow> ('r, 's) topic_preview \<Rightarrow> ('r, 's) topic_preview" where
  "adjust_preview summary =
     map_shown (\<lambda>old. case sw_update old of Some (Ready name _) \<Rightarrow> old\<lparr>sw_update := Some (Ready name summary)\<rparr> | _ \<Rightarrow> old)"

definition source_invalidated :: "('r, 's) topic_preview \<Rightarrow> ('r, 's) topic_preview" where
  "source_invalidated = map_shown (\<lambda>old. old\<lparr>sw_outdated := True\<rparr>)"

text \<open>A change of \<open>active\<close>: the render hides the preview of a tab that is left, then the effects abort its connection.\<close>

definition set_active :: "bool \<Rightarrow> ('r, 's) topic_preview \<Rightarrow> ('r, 's) topic_preview" where
  "set_active active th =
     (if active = th_active th then th
      else abort_connection (th\<lparr>th_active := active, th_shown := (if active then th_shown th else None)\<rparr>))"

subsection \<open>Runs\<close>

datatype ('r, 's) preview_event =
    Submit 'r int
  | Stream_update nat "'s topic_update"
  | Stream_failed nat js_error
  | Cancel
  | Delete_done nat string
  | Delete_failed nat string js_error
  | Clear
  | Adjust 's
  | Invalidated
  | Active bool

text \<open>An aborted stream delivers nothing, and only requests under way are answered.\<close>

definition preview_step :: "('r, 's) preview_event \<Rightarrow> ('r, 's) topic_preview \<Rightarrow> ('r, 's) topic_preview" where
  "preview_step ev th =
     (case ev of
        Submit request now \<Rightarrow> if th_active th then submit_preview request now th else th
      | Stream_update i u \<Rightarrow>
          if i < length (th_fits th) \<and> \<not> ft_aborted (th_fits th ! i) then stream_update i u th else th
      | Stream_failed i e \<Rightarrow> if i < length (th_fits th) then stream_failed i e th else th
      | Cancel \<Rightarrow> cancel_preview th
      | Delete_done c name \<Rightarrow>
          if (c, name) \<in> set (th_deletes th) then cancel_done c (th\<lparr>th_deletes := remove1 (c, name) (th_deletes th)\<rparr>) else th
      | Delete_failed c name e \<Rightarrow>
          if (c, name) \<in> set (th_deletes th) then cancel_failed c e (th\<lparr>th_deletes := remove1 (c, name) (th_deletes th)\<rparr>) else th
      | Clear \<Rightarrow> clear_preview th
      | Adjust summary \<Rightarrow> adjust_preview summary th
      | Invalidated \<Rightarrow> source_invalidated th
      | Active active \<Rightarrow> set_active active th)"

subsection \<open>One preview at a time\<close>

text \<open>What is shown belongs to the connection, and a cancellation that is shown has its request under way.\<close>

definition shown_ok :: "('r, 's) topic_preview \<Rightarrow> nat \<Rightarrow> ('r, 's) shown_preview \<Rightarrow> bool" where
  "shown_ok th c s \<longleftrightarrow>
     c < length (th_fits th) \<and> \<not> ft_aborted (th_fits th ! c) \<and> sw_request s = ft_request (th_fits th ! c) \<and>
     map_option tu_id (sw_update s) = ft_id (th_fits th ! c) \<and>
     (sw_cancelling s \<longrightarrow> c \<in> fst ` set (th_deletes th))"

definition preview_ok :: "('r, 's) topic_preview \<Rightarrow> bool" where
  "preview_ok th \<longleftrightarrow>
     (case (th_connection th, th_shown th) of
        (None, None) \<Rightarrow> True
      | (Some c, Some s) \<Rightarrow> th_active th \<and> shown_ok th c s
      | _ \<Rightarrow> False) \<and>
     (\<forall>i < length (th_fits th). th_connection th \<noteq> Some i \<longrightarrow> ft_aborted (th_fits th ! i))"

lemma preview_ok_cases:
  assumes "preview_ok th"
  obtains (none) "th_connection th = None" "th_shown th = None" "\<forall>i < length (th_fits th). ft_aborted (th_fits th ! i)"
  | (some) c s where "th_connection th = Some c" "th_shown th = Some s" "th_active th" "shown_ok th c s"
      "\<forall>i < length (th_fits th). i \<noteq> c \<longrightarrow> ft_aborted (th_fits th ! i)"
  using assms by (cases "th_connection th"; cases "th_shown th") (auto simp: preview_ok_def)

lemma aborted_all [simp]:
  "\<forall>i < length fits. i \<noteq> c \<longrightarrow> ft_aborted (fits ! i) \<Longrightarrow> i < length fits \<Longrightarrow>
   ft_aborted (fits[c := f\<lparr>ft_aborted := True\<rparr>] ! i)"
  by (cases "i = c") simp_all

lemma clear_ok: "preview_ok th \<Longrightarrow> preview_ok (clear_preview th)"
  by (erule preview_ok_cases)
     (auto simp: preview_ok_def clear_preview_def abort_connection_def map_fit_def)

lemma clear_gone [simp]: "th_connection (clear_preview th) = None" "th_shown (clear_preview th) = None"
  by (simp_all add: clear_preview_def abort_connection_def split: option.split)

lemma submit_ok:
  assumes "preview_ok th" and "th_active th"
  shows "preview_ok (submit_preview request now th)"
proof -
  have active: "th_active (clear_preview th)"
    using assms(2) by (simp add: clear_preview_def abort_connection_def map_fit_def split: option.split)
  have "\<forall>i < length (th_fits (clear_preview th)). ft_aborted (th_fits (clear_preview th) ! i)"
    using clear_ok [OF assms(1)] by (simp add: preview_ok_def)
  then show ?thesis using active
    by (simp add: preview_ok_def submit_preview_def Let_def shown_ok_def new_shown_def new_fit_def nth_append)
qed

lemma update_ok: "preview_ok th \<Longrightarrow> preview_ok (stream_update i u th)"
  by (erule preview_ok_cases)
     (auto simp: stream_update_def preview_ok_def shown_ok_def map_shown_def map_fit_def nth_list_update)

lemma failed_ok: "preview_ok th \<Longrightarrow> preview_ok (stream_failed i e th)"
  by (erule preview_ok_cases) (auto simp: stream_failed_def preview_ok_def shown_ok_def map_shown_def)

lemma map_shown_ok:
  assumes "preview_ok th" and "\<And>s. sw_request (f s) = sw_request s \<and> map_option tu_id (sw_update (f s)) = map_option tu_id (sw_update s) \<and>
      sw_cancelling (f s) = sw_cancelling s"
  shows "preview_ok (map_shown f th)"
  using assms by (elim preview_ok_cases) (auto simp: preview_ok_def shown_ok_def map_shown_def)

lemma adjust_ok: "preview_ok th \<Longrightarrow> preview_ok (adjust_preview summary th)"
  unfolding adjust_preview_def by (rule map_shown_ok) (auto split: option.split topic_update.split)

lemma invalidated_ok: "preview_ok th \<Longrightarrow> preview_ok (source_invalidated th)"
  unfolding source_invalidated_def by (rule map_shown_ok) auto

lemma active_ok: "preview_ok th \<Longrightarrow> preview_ok (set_active b th)"
  by (erule preview_ok_cases)
     (auto simp: preview_ok_def set_active_def abort_connection_def map_fit_def)

lemma cancel_ok:
  assumes "preview_ok th"
  shows "preview_ok (cancel_preview th)"
  using assms
proof (cases rule: preview_ok_cases)
  case none
  then show ?thesis using assms by (simp add: cancel_preview_def)
next
  case (some c s)
  then show ?thesis
    by (cases "ft_id (th_fits th ! c)")
       (auto simp: cancel_preview_def cancel_done_def clear_preview_def abort_connection_def preview_ok_def shown_ok_def
          map_shown_def map_fit_def nth_list_update)
qed

lemma delete_done_ok:
  assumes "preview_ok th"
  shows "preview_ok (cancel_done c (th\<lparr>th_deletes := remove1 (c, name) (th_deletes th)\<rparr>))"
  using assms
proof (cases rule: preview_ok_cases)
  case none
  then show ?thesis by (simp add: cancel_done_def preview_ok_def)
next
  case (some d s)
  show ?thesis
  proof (cases "d = c")
    case True
    then show ?thesis using some
      by (auto simp: cancel_done_def clear_preview_def abort_connection_def preview_ok_def map_fit_def)
  next
    case False
    then show ?thesis using some by (force simp: cancel_done_def preview_ok_def shown_ok_def in_set_remove1)
  qed
qed

lemma delete_failed_ok:
  assumes "preview_ok th"
  shows "preview_ok (cancel_failed c e (th\<lparr>th_deletes := remove1 (c, name) (th_deletes th)\<rparr>))"
  using assms
proof (cases rule: preview_ok_cases)
  case none
  then show ?thesis by (simp add: cancel_failed_def preview_ok_def)
next
  case (some d s)
  show ?thesis
  proof (cases "d = c")
    case True
    then show ?thesis using some by (auto simp: cancel_failed_def preview_ok_def shown_ok_def map_shown_def)
  next
    case False
    then show ?thesis using some by (force simp: cancel_failed_def preview_ok_def shown_ok_def in_set_remove1)
  qed
qed

lemma preview_step_ok: "preview_ok th \<Longrightarrow> preview_ok (preview_step ev th)"
  by (cases ev)
     (simp_all add: preview_step_def submit_ok update_ok failed_ok cancel_ok delete_done_ok delete_failed_ok clear_ok
        adjust_ok invalidated_ok active_ok)

lemma previews_ok: "preview_ok th \<Longrightarrow> preview_ok (fold preview_step evs th)"
  by (induction evs arbitrary: th) (simp_all add: preview_step_ok)

lemma initial_preview_ok: "preview_ok initial_preview"
  by (simp add: preview_ok_def initial_preview_def)

text \<open>
  C14: a tab fits at most one preview at a time: every other stream is aborted. What is shown is the preview of the open
  stream with its own request and updates, and nothing is shown without one; the callbacks of other streams and the
  answers to their deletion change nothing but the requests under way. A cancellation that is shown always has its
  request under way, so it ends.
\<close>

theorem one_preview_at_a_time:
  fixes evs :: "('r, 's) preview_event list"
  defines "th \<equiv> fold preview_step evs initial_preview"
  shows "length (filter (\<lambda>f. \<not> ft_aborted f) (th_fits th)) \<le> 1 \<and>
    (case th_shown th of
       None \<Rightarrow> list_all ft_aborted (th_fits th)
     | Some s \<Rightarrow> (\<exists>c. th_connection th = Some c \<and> shown_ok th c s)) \<and>
    (\<forall>i u e. th_connection th \<noteq> Some i \<longrightarrow>
       preview_step (Stream_update i u) th = th \<and> preview_step (Stream_failed i e) th = th \<and>
       (\<forall>name. th_shown (preview_step (Delete_done i name) th) = th_shown th \<and>
         th_shown (preview_step (Delete_failed i name e) th) = th_shown th))"
proof -
  have ok: "preview_ok th" unfolding th_def by (rule previews_ok) (rule initial_preview_ok)
  have others: "th_connection th \<noteq> Some i \<longrightarrow>
       preview_step (Stream_update i u) th = th \<and> preview_step (Stream_failed i e) th = th \<and>
       (\<forall>name. th_shown (preview_step (Delete_done i name) th) = th_shown th \<and>
         th_shown (preview_step (Delete_failed i name e) th) = th_shown th)" for i u e
    by (simp add: preview_step_def stream_update_def stream_failed_def cancel_done_def cancel_failed_def)
  from ok show ?thesis
  proof (cases rule: preview_ok_cases)
    case none
    then have "list_all ft_aborted (th_fits th)" by (auto simp: list_all_length)
    moreover from this have "filter (\<lambda>f. \<not> ft_aborted f) (th_fits th) = []" by (simp add: list_all_iff filter_empty_conv)
    ultimately show ?thesis using none others by simp
  next
    case (some c s)
    have "length (filter (\<lambda>f. \<not> ft_aborted f) (th_fits th)) = card {i. i < length (th_fits th) \<and> \<not> ft_aborted (th_fits th ! i)}"
      by (rule length_filter_conv_card)
    also have "\<dots> \<le> card {c}" using some by (intro card_mono) auto
    finally show ?thesis using some others by simp
  qed
qed

definition example_run :: "(string, nat) preview_event list" where
  "example_run = [Submit ''first'' 1, Stream_update 0 (Preparing ''p'' ''embedding'' None), Submit ''second'' 2]"

lemma one_preview_at_a_time_witness:
  "length (filter (\<lambda>f. \<not> ft_aborted f) (th_fits (fold preview_step example_run initial_preview))) \<le> 1 \<and>
   preview_step (Stream_update 0 (Ready ''p'' 7)) (fold preview_step example_run initial_preview) =
     fold preview_step example_run initial_preview"
proof -
  have "th_connection (fold preview_step example_run initial_preview) \<noteq> Some 0"
    by (simp add: example_run_def preview_step_def submit_preview_def clear_preview_def abort_connection_def initial_preview_def
        stream_update_def map_shown_def map_fit_def new_fit_def new_shown_def Let_def)
  then show ?thesis using one_preview_at_a_time [of example_run] by blast
qed

end
