(* ===== verification/Preview_Query.thy ===== *)
theory Preview_Query
  imports Json_Text
begin

text \<open>
  Previews of preprocessing: \<open>tools/preprocessing/hooks/usePreprocessingPreview.ts\<close> and
  \<open>useNodePreviewWithRawFallback.ts\<close>. A result carries the key it was fetched for, which the code knows only through
  the query library; what the library promises of its results is \<open>query_ok\<close>. The hashes of identities and of requests
  are arguments.
\<close>

subsection \<open>Identities, keys and results\<close>

record preview_identity =
  pi_base :: string
  pi_operation :: string
  pi_nodes :: "string list"

record 'q preview_key =
  pk_identity :: "preview_identity option"
  pk_request :: "'q option"
  pk_page :: nat
  pk_size :: nat

record ('q, 'row) fetched_page =
  fe_key :: "'q preview_key"
  fe_data :: "'row list"
  fe_columns :: "string list"

text \<open>What \<open>useQuery\<close> returns; \<open>isError\<close> is the presence of an error.\<close>

record ('q, 'row) query_result =
  qr_data :: "('q, 'row) fetched_page option"
  qr_placeholder :: bool
  qr_fetching :: bool
  qr_error :: "string option"

record 'q preview_options =
  vo_request :: "'q option"
  vo_identity :: "preview_identity option"
  vo_enabled :: bool
  vo_retain :: bool
  vo_initialPage :: nat
  vo_initialSize :: nat

record ('q, 'row) preview_state =
  vs_pagination :: "string \<times> nat \<times> nat"
  vs_debounced :: string
  vs_timer :: "string option"
  vs_effect :: "string \<times> bool"
  vs_success :: "(string \<times> ('q, 'row) fetched_page) option"

text \<open>\<open>hashKey\<close> on an identity, for the owner, and on an identity with a request.\<close>

record 'q preview_hash =
  ph_owner :: "preview_identity \<Rightarrow> string"
  ph_request :: "preview_identity \<Rightarrow> 'q \<Rightarrow> string"

definition preview_ready :: "'q preview_options \<Rightarrow> bool" where
  "preview_ready vo \<longleftrightarrow> vo_enabled vo \<and> vo_request vo \<noteq> None \<and> vo_identity vo \<noteq> None"

definition preview_disabled :: string where
  "preview_disabled = ''preprocessing-preview-disabled''"

definition requestIdentity :: "'q preview_hash \<Rightarrow> 'q preview_options \<Rightarrow> string" where
  "requestIdentity h vo =
     (case (vo_request vo, vo_identity vo) of
        (Some q, Some who) \<Rightarrow> if preview_ready vo then ph_request h who q else preview_disabled
      | _ \<Rightarrow> preview_disabled)"

definition initial_preview_state :: "'q preview_hash \<Rightarrow> 'q preview_options \<Rightarrow> ('q, 'row) preview_state" where
  "initial_preview_state h vo =
     \<lparr>vs_pagination = (requestIdentity h vo, vo_initialPage vo, vo_initialSize vo), vs_debounced = preview_disabled,
      vs_timer = None, vs_effect = (preview_disabled, False), vs_success = None\<rparr>"

text \<open>A page number belongs to the request it was chosen for.\<close>

definition shown_page :: "'q preview_hash \<Rightarrow> 'q preview_options \<Rightarrow> ('q, 'row) preview_state \<Rightarrow> nat \<times> nat" where
  "shown_page h vo st =
     (if fst (vs_pagination st) = requestIdentity h vo then snd (vs_pagination st)
      else (vo_initialPage vo, vo_initialSize vo))"

definition query_key :: "'q preview_hash \<Rightarrow> 'q preview_options \<Rightarrow> ('q, 'row) preview_state \<Rightarrow> 'q preview_key" where
  "query_key h vo st =
     \<lparr>pk_identity = vo_identity vo, pk_request = vo_request vo, pk_page = fst (shown_page h vo st),
      pk_size = snd (shown_page h vo st)\<rparr>"

definition query_enabled :: "'q preview_hash \<Rightarrow> 'q preview_options \<Rightarrow> ('q, 'row) preview_state \<Rightarrow> bool" where
  "query_enabled h vo st \<longleftrightarrow> preview_ready vo \<and> vs_debounced st = requestIdentity h vo"

definition previewOwner :: "'q preview_hash \<Rightarrow> 'q preview_options \<Rightarrow> string option" where
  "previewOwner h vo = map_option (ph_owner h) (vo_identity vo)"

text \<open>\<open>placeholderData\<close>: the previous data of the same owner.\<close>

definition placeholderData ::
    "'q preview_hash \<Rightarrow> 'q preview_options \<Rightarrow> (string option \<times> ('q, 'row) fetched_page) option \<Rightarrow> ('q, 'row) fetched_page option" where
  "placeholderData h vo previous =
     (case previous of
        Some (owner, d) \<Rightarrow> if previewOwner h vo \<noteq> None \<and> owner = previewOwner h vo then Some d else None
      | None \<Rightarrow> None)"

subsection \<open>Actions, timer and rendering\<close>

definition setPaginationDraft ::
    "'q preview_hash \<Rightarrow> 'q preview_options \<Rightarrow> nat \<Rightarrow> nat \<Rightarrow> ('q, 'row) preview_state \<Rightarrow> ('q, 'row) preview_state" where
  "setPaginationDraft h vo page number st = st\<lparr>vs_pagination := (requestIdentity h vo, page, number)\<rparr>"

definition set_page :: "'q preview_hash \<Rightarrow> 'q preview_options \<Rightarrow> nat \<Rightarrow> ('q, 'row) preview_state \<Rightarrow> ('q, 'row) preview_state" where
  "set_page h vo page st = setPaginationDraft h vo page (snd (shown_page h vo st)) st"

definition set_page_size :: "'q preview_hash \<Rightarrow> 'q preview_options \<Rightarrow> nat \<Rightarrow> ('q, 'row) preview_state \<Rightarrow> ('q, 'row) preview_state" where
  "set_page_size h vo number st = setPaginationDraft h vo (vo_initialPage vo) number st"

text \<open>The effect of the debounce: when the request or its readiness has changed, the timer starts again.\<close>

definition debounce_effect :: "'q preview_hash \<Rightarrow> 'q preview_options \<Rightarrow> ('q, 'row) preview_state \<Rightarrow> ('q, 'row) preview_state" where
  "debounce_effect h vo st =
     (if vs_effect st = (requestIdentity h vo, preview_ready vo) then st
      else st\<lparr>vs_effect := (requestIdentity h vo, preview_ready vo),
              vs_timer := (if preview_ready vo then Some (requestIdentity h vo) else None)\<rparr>)"

definition timer_fired :: "('q, 'row) preview_state \<Rightarrow> ('q, 'row) preview_state" where
  "timer_fired st = (case vs_timer st of Some rid \<Rightarrow> st\<lparr>vs_debounced := rid, vs_timer := None\<rparr> | None \<Rightarrow> st)"

text \<open>A render keeps the last success, when it is to be retained; the effects follow.\<close>

definition keep_success ::
    "'q preview_hash \<Rightarrow> 'q preview_options \<Rightarrow> ('q, 'row) query_result \<Rightarrow> ('q, 'row) preview_state \<Rightarrow> ('q, 'row) preview_state" where
  "keep_success h vo q st =
     (case (previewOwner h vo, qr_data q) of
        (Some owner, Some d) \<Rightarrow> if vo_retain vo \<and> \<not> qr_placeholder q then st\<lparr>vs_success := Some (owner, d)\<rparr> else st
      | _ \<Rightarrow> st)"

definition rendered ::
    "'q preview_hash \<Rightarrow> 'q preview_options \<Rightarrow> ('q, 'row) query_result \<Rightarrow> ('q, 'row) preview_state \<Rightarrow> ('q, 'row) preview_state" where
  "rendered h vo q st = debounce_effect h vo (keep_success h vo q st)"

subsection \<open>What is shown\<close>

definition retained_page :: "'q preview_hash \<Rightarrow> 'q preview_options \<Rightarrow> ('q, 'row) preview_state \<Rightarrow> ('q, 'row) fetched_page option" where
  "retained_page h vo st =
     (case vs_success st of
        Some (owner, d) \<Rightarrow> if vo_retain vo \<and> Some owner = previewOwner h vo then Some d else None
      | None \<Rightarrow> None)"

definition preview_response ::
    "'q preview_hash \<Rightarrow> 'q preview_options \<Rightarrow> ('q, 'row) query_result \<Rightarrow> ('q, 'row) preview_state \<Rightarrow> ('q, 'row) fetched_page option" where
  "preview_response h vo q st =
     (case (if preview_ready vo then qr_data q else None) of Some d \<Rightarrow> Some d | None \<Rightarrow> retained_page h vo st)"

definition preview_outdated ::
    "'q preview_hash \<Rightarrow> 'q preview_options \<Rightarrow> ('q, 'row) query_result \<Rightarrow> ('q, 'row) preview_state \<Rightarrow> bool" where
  "preview_outdated h vo q st \<longleftrightarrow>
     preview_response h vo q st \<noteq> None \<and>
     (\<not> preview_ready vo \<or> qr_placeholder q \<or> qr_error q \<noteq> None \<or> vs_debounced st \<noteq> requestIdentity h vo)"

definition preview_loading ::
    "'q preview_hash \<Rightarrow> 'q preview_options \<Rightarrow> ('q, 'row) query_result \<Rightarrow> ('q, 'row) preview_state \<Rightarrow> bool" where
  "preview_loading h vo q st \<longleftrightarrow>
     preview_ready vo \<and> (vs_debounced st \<noteq> requestIdentity h vo \<or> qr_fetching q)"

definition preview_rows ::
    "'q preview_hash \<Rightarrow> 'q preview_options \<Rightarrow> ('q, 'row) query_result \<Rightarrow> ('q, 'row) preview_state \<Rightarrow> 'row list" where
  "preview_rows h vo q st = (case preview_response h vo q st of Some d \<Rightarrow> fe_data d | None \<Rightarrow> [])"

definition preview_error :: "'q preview_options \<Rightarrow> ('q, 'row) query_result \<Rightarrow> string option" where
  "preview_error vo q = (if preview_ready vo then qr_error q else None)"

subsection \<open>The preview of a block\<close>

record 'p node_preview =
  np_base :: "string option"
  np_node :: "string option"
  np_payload :: "'p option"
  np_operation :: string
  np_enabled :: bool

text \<open>The request of a block: an operation, or the rows of the block while the operation is not complete.\<close>

record 'p node_request =
  nr_base :: string
  nr_node :: string
  nr_payload :: "'p option"

definition node_request_of :: "'p node_preview \<Rightarrow> 'p node_request option" where
  "node_request_of np =
     (case (np_base np, np_node np) of
        (Some base, Some node) \<Rightarrow>
          if np_enabled np \<and> node \<noteq> [] then Some \<lparr>nr_base = base, nr_node = node, nr_payload = np_payload np\<rparr> else None
      | _ \<Rightarrow> None)"

definition node_preview_options :: "'p node_preview \<Rightarrow> 'p node_request preview_options" where
  "node_preview_options np =
     \<lparr>vo_request = node_request_of np,
      vo_identity = map_option (\<lambda>r. \<lparr>pi_base = nr_base r, pi_operation = np_operation np, pi_nodes = [nr_node r]\<rparr>) (node_request_of np),
      vo_enabled = True, vo_retain = False, vo_initialPage = 1, vo_initialSize = 10\<rparr>"

datatype 'p preview_fetch = Fetch_operation string string 'p nat nat | Fetch_sql string string nat nat

definition node_fetcher :: "(string \<Rightarrow> string) \<Rightarrow> 'p node_request \<Rightarrow> nat \<Rightarrow> nat \<Rightarrow> 'p preview_fetch" where
  "node_fetcher table_name r page number =
     (case nr_payload r of
        Some p \<Rightarrow> Fetch_operation (nr_base r) (nr_node r) p page number
      | None \<Rightarrow> Fetch_sql (nr_base r) (''SELECT * FROM '' @ table_name (nr_node r)) page number)"

subsection \<open>The rows belong to the request\<close>

text \<open>
  The query library: data that is no placeholder was fetched for the current key; a placeholder is data of the same owner
  that \<open>placeholderData\<close> returned; and while a query is pending, the last data of the observer is its placeholder, so
  there is either data or an error once there was data of the owner.
\<close>

definition key_owner :: "'q preview_hash \<Rightarrow> 'q preview_key \<Rightarrow> string option" where
  "key_owner h k = map_option (ph_owner h) (pk_identity k)"

definition query_ok ::
    "'q preview_hash \<Rightarrow> 'q preview_options \<Rightarrow> ('q, 'row) preview_state \<Rightarrow> ('q, 'row) query_result \<Rightarrow> bool" where
  "query_ok h vo st q \<longleftrightarrow>
     (case qr_data q of
        Some d \<Rightarrow>
          if qr_placeholder q then placeholderData h vo (Some (key_owner h (fe_key d), d)) = Some d
          else fe_key d = query_key h vo st
      | None \<Rightarrow> qr_error q \<noteq> None \<or> retained_page h vo st = None)"

inductive preview_reach :: "'q preview_hash \<Rightarrow> ('q, 'row) preview_state \<Rightarrow> bool" for h where
  Start: "preview_reach h (initial_preview_state h vo)"
| Render: "preview_reach h st \<Longrightarrow> query_ok h vo st q \<Longrightarrow> preview_reach h (rendered h vo q st)"
| Timer: "preview_reach h st \<Longrightarrow> preview_reach h (timer_fired st)"
| Page: "preview_reach h st \<Longrightarrow> preview_reach h (set_page h vo page st)"
| Page_size: "preview_reach h st \<Longrightarrow> preview_reach h (set_page_size h vo number st)"

definition success_ok :: "'q preview_hash \<Rightarrow> ('q, 'row) preview_state \<Rightarrow> bool" where
  "success_ok h st \<longleftrightarrow> (case vs_success st of Some (owner, d) \<Rightarrow> key_owner h (fe_key d) = Some owner | None \<Rightarrow> True)"

lemma key_owner_query [simp]: "key_owner h (query_key h vo st) = previewOwner h vo"
  by (simp add: key_owner_def query_key_def previewOwner_def)

lemma keep_success_ok: "success_ok h st \<Longrightarrow> query_ok h vo st q \<Longrightarrow> success_ok h (keep_success h vo q st)"
  by (auto simp: keep_success_def success_ok_def query_ok_def split: option.split)

lemma preview_reach_ok: "preview_reach h st \<Longrightarrow> success_ok h st"
proof (induction rule: preview_reach.induct)
  case (Start vo)
  then show ?case by (simp add: success_ok_def initial_preview_state_def)
next
  case (Render st vo q)
  then show ?case using keep_success_ok [of h st vo q] by (simp add: rendered_def debounce_effect_def success_ok_def)
next
  case (Timer st)
  then show ?case by (cases "vs_timer st") (simp_all add: timer_fired_def success_ok_def)
qed (simp_all add: set_page_def set_page_size_def setPaginationDraft_def success_ok_def)

lemma retained_owner: "success_ok h st \<Longrightarrow> retained_page h vo st = Some d \<Longrightarrow> key_owner h (fe_key d) = previewOwner h vo"
  by (auto simp: retained_page_def success_ok_def split: option.split_asm if_split_asm)

lemma response_owner:
  assumes "success_ok h st" and "query_ok h vo st q" and "preview_response h vo q st = Some d"
  shows "key_owner h (fe_key d) = previewOwner h vo"
  using assms retained_owner [OF assms(1)]
  by (auto simp: preview_response_def query_ok_def placeholderData_def split: option.split_asm if_split_asm)

text \<open>
  C15: the rows of a preview are always rows of its own project, operation and blocks, in whatever order requests, pages and
  answers come; unless they are marked outdated they are the answer to the request, page and page size on screen.
\<close>

theorem preview_rows_belong:
  assumes reach: "preview_reach h st" and q: "query_ok h vo st q" and shown: "preview_response h vo q st = Some d"
    and owner: "inj (ph_owner h)"
  shows "pk_identity (fe_key d) = vo_identity vo \<and>
    (preview_outdated h vo q st \<or> fe_key d = query_key h vo st \<and> vo_request vo \<noteq> None)"
proof
  have "key_owner h (fe_key d) = previewOwner h vo" by (rule response_owner [OF preview_reach_ok [OF reach] q shown])
  then show "pk_identity (fe_key d) = vo_identity vo"
    unfolding key_owner_def previewOwner_def by (rule injD [OF option.inj_map [OF owner]])
  show "preview_outdated h vo q st \<or> fe_key d = query_key h vo st \<and> vo_request vo \<noteq> None"
  proof (cases "preview_outdated h vo q st")
    case False
    then have fresh: "preview_ready vo" "\<not> qr_placeholder q" "qr_error q = None" using shown by (auto simp: preview_outdated_def)
    then have "qr_data q = Some d" using shown q by (auto simp: preview_response_def query_ok_def split: option.split_asm)
    then show ?thesis using fresh q by (auto simp: query_ok_def preview_ready_def)
  qed simp
qed

definition example_hash :: "string preview_hash" where
  "example_hash =
     \<lparr>ph_owner = (\<lambda>who. json_strings (pi_base who # pi_operation who # pi_nodes who)),
      ph_request = (\<lambda>who q. CHR ''['' # q)\<rparr>"

definition example_options :: "string preview_options" where
  "example_options =
     \<lparr>vo_request = Some ''q'', vo_identity = Some \<lparr>pi_base = ''p'', pi_operation = ''filter'', pi_nodes = [''n'']\<rparr>,
      vo_enabled = True, vo_retain = True, vo_initialPage = 1, vo_initialSize = 10\<rparr>"

definition example_answer :: "(string, nat) query_result" where
  "example_answer =
     \<lparr>qr_data = Some \<lparr>fe_key = \<lparr>pk_identity = vo_identity example_options, pk_request = Some ''q'', pk_page = 2, pk_size = 10\<rparr>,
        fe_data = [7], fe_columns = [''c'']\<rparr>, qr_placeholder = False, qr_fetching = False, qr_error = None\<rparr>"

definition example_state :: "(string, nat) preview_state" where
  "example_state = set_page example_hash example_options 2 (initial_preview_state example_hash example_options)"

lemma preview_rows_belong_witness:
  "preview_outdated example_hash example_options example_answer example_state \<or>
   pk_page (fe_key (the (qr_data example_answer))) = fst (shown_page example_hash example_options example_state)"
proof -
  have reach: "preview_reach example_hash example_state"
    unfolding example_state_def by (intro preview_reach.Page preview_reach.Start)
  have page: "shown_page example_hash example_options example_state = (2, 10)"
    by (simp add: shown_page_def example_state_def set_page_def setPaginationDraft_def initial_preview_state_def
        example_options_def)
  have q: "query_ok example_hash example_options example_state example_answer"
    unfolding query_ok_def query_key_def page by (simp add: example_answer_def example_options_def)
  have ready: "preview_ready example_options" by (simp add: preview_ready_def example_options_def)
  have shown: "preview_response example_hash example_options example_answer example_state = Some (the (qr_data example_answer))"
    by (simp add: preview_response_def ready) (simp add: example_answer_def)
  have owner: "inj (ph_owner example_hash)"
    by (rule injI) (auto simp: example_hash_def dest!: json_strings_inj)
  show ?thesis using preview_rows_belong [OF reach q shown owner] by (auto simp: query_key_def)
qed

end
