(* ===== verification/Slice_Tab.thy ===== *)
theory Slice_Tab
  imports Slice_Form Preview_Query
begin

text \<open>
  The Sample tab: \<open>preprocessing/slice/hooks/useSliceSubTab.ts\<close>. The form model is \<open>Slice_Form\<close>, the preview
  \<open>Preview_Query\<close>. An application is split at its await: the call, with what its closure has captured, and its answer.
\<close>

subsection \<open>State\<close>

record slice_form =
  fm_mode :: sampling_mode
  fm_offset :: string
  fm_length :: string
  fm_sampleSize :: string
  fm_randomSeed :: string
  fm_noRandomSeed :: bool
  fm_newNodeName :: string

definition DEFAULT_SLICE_FORM_VALUES :: slice_form where
  "DEFAULT_SLICE_FORM_VALUES =
     \<lparr>fm_mode = Sampling_slice, fm_offset = ''0'', fm_length = [], fm_sampleSize = [], fm_randomSeed = ''0'',
      fm_noRandomSeed = False, fm_newNodeName = []\<rparr>"

record slice_history =
  sh_nodeId :: string
  sh_nodeName :: string
  sh_mode :: sampling_mode
  sh_offset :: "js_number option"
  sh_length :: "js_number option"
  sh_sampleSize :: "js_number option"
  sh_randomSeed :: "js_number option"

record slice_tab =
  tb_form :: slice_form
  tb_inlineError :: "(string \<times> string) option"
  tb_lastResult :: "(string \<times> slice_history) option"
  tb_alerts :: "string list"

definition initial_slice_tab :: slice_tab where
  "initial_slice_tab = \<lparr>tb_form = DEFAULT_SLICE_FORM_VALUES, tb_inlineError = None, tb_lastResult = None, tb_alerts = []\<rparr>"

text \<open>The properties of the tab: the selected block with its name, and the names in use.\<close>

record slice_props =
  sp_existingNames :: "string list"
  sp_projectBase :: "string option"
  sp_selectedNodeId :: "string option"
  sp_selectedNode :: "string option"
  sp_previewEnabled :: bool

definition selectedNodeLabel :: "slice_props \<Rightarrow> string" where
  "selectedNodeLabel props =
     (case sp_selectedNodeId props of
        None \<Rightarrow> []
      | Some node \<Rightarrow>
          if node = [] then [] else (case sp_selectedNode props of Some name \<Rightarrow> name | None \<Rightarrow> node))"

definition slice_input_of :: "slice_props \<Rightarrow> slice_form \<Rightarrow> slice_input" where
  "slice_input_of props form =
     \<lparr>in_existingNames = sp_existingNames props, in_selectedNodeId = sp_selectedNodeId props,
      in_selectedNodeLabel = selectedNodeLabel props, in_nodeRowCount = None, in_mode = fm_mode form,
      in_offset = fm_offset form, in_length = fm_length form, in_sampleSize = fm_sampleSize form,
      in_randomSeed = fm_randomSeed form, in_noRandomSeed = fm_noRandomSeed form\<rparr>"

subsection \<open>What is shown\<close>

text \<open>An error belongs to the values it was reported for, a result to the block and the mode.\<close>

definition inline_error :: "slice_props \<Rightarrow> slice_tab \<Rightarrow> string option" where
  "inline_error props tb =
     (case tb_inlineError tb of
        Some (signature, m) \<Rightarrow> if signature = formSignature (slice_input_of props (tb_form tb)) then Some m else None
      | None \<Rightarrow> None)"

definition last_result :: "slice_props \<Rightarrow> slice_tab \<Rightarrow> slice_history option" where
  "last_result props tb =
     (case tb_lastResult tb of
        Some (signature, r) \<Rightarrow> if signature = resultSignature (slice_input_of props (tb_form tb)) then Some r else None
      | None \<Rightarrow> None)"

definition show_optional_number :: "js_number option \<Rightarrow> string" where
  "show_optional_number n = (case n of Some x \<Rightarrow> show_number x | None \<Rightarrow> ''undefined'')"

definition sample_result :: "slice_history \<Rightarrow> string" where
  "sample_result r =
     (let label = (case sh_sampleSize r of
           Some n \<Rightarrow> if num_less n (Finite 1) then ''fraction '' @ show_number n else ''n='' @ show_number n
         | None \<Rightarrow> ''n=undefined'')
      in ''Last random sample '' @ [CHR 0x22] @ sh_nodeName r @ [CHR 0x22] @ '' ('' @ label @
         (case sh_randomSeed r of Some seed \<Rightarrow> '', seed '' @ show_number seed | None \<Rightarrow> []) @ '').'')"

definition left_quote :: string where "left_quote = [CHR 0xE2, CHR 0x80, CHR 0x9C]"

definition right_quote :: string where "right_quote = [CHR 0xE2, CHR 0x80, CHR 0x9D]"

definition right_arrow :: string where "right_arrow = [CHR 0xE2, CHR 0x86, CHR 0x92]"

definition slice_result :: "slice_history \<Rightarrow> string" where
  "slice_result r =
     (let first = (case sh_offset r of Some n \<Rightarrow> n | None \<Rightarrow> Finite 0)
      in ''Last slice '' @ left_quote @ sh_nodeName r @ right_quote @
         (case sh_length r of
            None \<Rightarrow> '' (offset '' @ show_number first @ '' '' @ right_arrow @ '' end).''
          | Some n \<Rightarrow>
              if num_eq n (Finite 0) then '' (offset '' @ show_number first @ '', zero rows).''
              else '' (rows '' @ show_number first @ en_dash @ show_number (last_row first n) @ '').''))"

definition lastResultSummary :: "slice_props \<Rightarrow> slice_tab \<Rightarrow> string" where
  "lastResultSummary props tb =
     (case last_result props tb of
        None \<Rightarrow> ''Adjust parameters and add to project to create a sampled data block.''
      | Some r \<Rightarrow> if sh_mode r = Sampling_random then sample_result r else slice_result r)"

subsection \<open>Handlers\<close>

definition set_form :: "(slice_form \<Rightarrow> slice_form) \<Rightarrow> slice_tab \<Rightarrow> slice_tab" where
  "set_form f tb = tb\<lparr>tb_form := f (tb_form tb)\<rparr>"

definition setCurrentInlineError :: "slice_props \<Rightarrow> string option \<Rightarrow> slice_tab \<Rightarrow> slice_tab" where
  "setCurrentInlineError props m tb =
     tb\<lparr>tb_inlineError := map_option (Pair (formSignature (slice_input_of props (tb_form tb)))) m\<rparr>"

definition handleLengthBlur :: "slice_props \<Rightarrow> slice_tab \<Rightarrow> slice_tab" where
  "handleLengthBlur props tb =
     (if trim (fm_length (tb_form tb)) = [] then tb
      else case lengthNumber (slice_input_of props (tb_form tb)) of
        None \<Rightarrow> tb
      | Some n \<Rightarrow>
          if \<not> isInteger n then tb
          else if num_less n (Finite 1) then set_form (\<lambda>f. f\<lparr>fm_length := ''1''\<rparr>) tb
          else tb)"

text \<open>The message that keeps a form from being applied.\<close>

definition apply_problem :: "slice_input \<Rightarrow> string option" where
  "apply_problem i =
     (if \<not> hasSelection i then Some ''Select a data block to sample.''
      else if in_mode i = Sampling_slice then
        (if \<not> offsetValid i then Some ''Offset must be a non-negative integer.''
         else if \<not> lengthValid i
         then Some (''Length is required '' @ en_dash @ '' enter a non-negative integer.'')
         else None)
      else if \<not> sampleSizeValid i then Some fraction_hint
      else if \<not> randomSeedValid i then Some ''Random seed must be a non-negative integer.''
      else None)"

text \<open>A call of \<open>sliceNode\<close>, and what its continuation reads.\<close>

record slice_call =
  sc_node :: string
  sc_request :: slice_request
  sc_name :: "string option"
  sc_signature :: string
  sc_requestedName :: string
  sc_input :: slice_input

definition applySlice :: "(string \<Rightarrow> bool) \<Rightarrow> slice_props \<Rightarrow> slice_tab \<Rightarrow> slice_tab \<times> slice_call option" where
  "applySlice word props tb =
     (let i = slice_input_of props (tb_form tb)
      in case apply_problem i of
           Some m \<Rightarrow> (setCurrentInlineError props (Some m) tb, None)
         | None \<Rightarrow>
             (let typed = trim (fm_newNodeName (tb_form tb));
                  requestedName = (if typed \<noteq> [] then typed else autoNodeName word i)
              in (setCurrentInlineError props None tb,
                  Some \<lparr>sc_node = node_id_text i,
                    sc_request = buildSlicePayload (in_mode i) (offsetNumber i) (lengthNumber i) (sampleSizeValue i)
                      (randomSeedValue i) (isFullShuffle i),
                    sc_name = (if requestedName \<noteq> [] then Some requestedName else None),
                    sc_signature = resultSignature i, sc_requestedName = requestedName, sc_input = i\<rparr>)))"

definition only_in :: "sampling_mode \<Rightarrow> slice_input \<Rightarrow> 'a option \<Rightarrow> 'a option" where
  "only_in mode i v = (if in_mode i = mode then v else None)"

definition slice_created :: "slice_call \<Rightarrow> string \<Rightarrow> slice_tab \<Rightarrow> slice_tab" where
  "slice_created call table_name tb =
     (let i = sc_input call
      in tb\<lparr>tb_lastResult := Some (sc_signature call,
           \<lparr>sh_nodeId = table_name,
            sh_nodeName = (if trim table_name \<noteq> [] then trim table_name else sc_requestedName call),
            sh_mode = in_mode i, sh_offset = only_in Sampling_slice i (Some (offsetNumber i)),
            sh_length = only_in Sampling_slice i (lengthNumber i),
            sh_sampleSize = only_in Sampling_random i (sampleSizeValue i),
            sh_randomSeed = only_in Sampling_random i (randomSeedValue i)\<rparr>)\<rparr>)"

definition operation_label :: "sampling_mode \<Rightarrow> string" where
  "operation_label mode = (if mode = Sampling_slice then ''Slice'' else ''Random sample'')"

definition slice_failed :: "slice_call \<Rightarrow> js_error option \<Rightarrow> slice_tab \<Rightarrow> slice_tab" where
  "slice_failed call e tb =
     (let label = operation_label (in_mode (sc_input call));
          m = (case e of Some x \<Rightarrow> message x | None \<Rightarrow> label @ '' operation failed'')
      in tb\<lparr>tb_alerts := (label @ '' failed: '' @ m) # tb_alerts tb\<rparr>)"

text \<open>The preview: the operation of the form, or the rows of the block.\<close>

definition slice_preview :: "slice_props \<Rightarrow> slice_tab \<Rightarrow> slice_request node_preview" where
  "slice_preview props tb =
     (let i = slice_input_of props (tb_form tb)
      in \<lparr>np_base = sp_projectBase props, np_node = sp_selectedNodeId props, np_payload = operationPayload i,
          np_operation = ''slice'', np_enabled = previewReady i \<and> sp_previewEnabled props\<rparr>)"

subsection \<open>Applying what is previewed\<close>

lemma apply_problem_iff: "apply_problem i = None \<longleftrightarrow> \<not> applyDisabled i"
  by (simp add: apply_problem_def applyDisabled_def hasOperation_def)

text \<open>An invalid offset disables Add to project although no reason is given for it.\<close>

lemma invalid_offset_gives_no_reason:
  assumes "hasSelection i" and "in_mode i = Sampling_slice" and "\<not> offsetValid i" and "lengthValid i"
  shows "applyDisabled i \<and> applyDisabledReason i = None"
  using assms by (simp add: applyDisabled_def applyDisabledReason_def hasOperation_def)

text \<open>A result is summarised only while the form is in the mode it was made in.\<close>

lemma result_in_its_mode:
  assumes "sc_signature call = resultSignature (sc_input call)" and "last_result props (slice_created call name tb) = Some r"
  shows "sh_mode r = fm_mode (tb_form tb)"
proof -
  have "resultSignature (sc_input call) = resultSignature (slice_input_of props (tb_form tb))" and r: "sh_mode r = in_mode (sc_input call)"
    using assms by (auto simp: last_result_def slice_created_def Let_def split: if_split_asm)
  then have "hd (tl (rev (resultSignature (sc_input call)))) = hd (tl (rev (resultSignature (slice_input_of props (tb_form tb)))))"
    by simp
  then have "in_mode (sc_input call) = fm_mode (tb_form tb)"
    by (cases "in_mode (sc_input call)"; cases "fm_mode (tb_form tb)") (simp_all add: resultSignature_def mode_text_def slice_input_of_def)
  then show ?thesis using r by simp
qed

lemma applied_payload:
  assumes "apply_problem i = None"
  shows "operationPayload i = Some (buildSlicePayload (in_mode i) (offsetNumber i) (lengthNumber i) (sampleSizeValue i)
      (randomSeedValue i) (isFullShuffle i))" and "previewReady i" and "\<exists>node. in_selectedNodeId i = Some node \<and> node \<noteq> []"
  using assms by (auto simp: apply_problem_iff applyDisabled_def operationPayload_def previewReady_def hasOperation_def
      hasSelection_def split: option.split_asm)


definition example_props :: slice_props where
  "example_props =
     \<lparr>sp_existingNames = [], sp_projectBase = Some ''p'', sp_selectedNodeId = Some ''n'', sp_selectedNode = None,
      sp_previewEnabled = True\<rparr>"

definition example_tab :: slice_tab where
  "example_tab = set_form (\<lambda>f. f\<lparr>fm_offset := ''10''\<rparr>) initial_slice_tab"


end
