(* ===== verification/Graph_Layout.thy ===== *)
theory Graph_Layout
  imports Complex_Main Prelude
begin

text \<open>
  The layout of the project graph: \<open>features/project/graph-view/services/graphLayout.ts\<close>. The layout itself is a
  function of the graph that dagre is given; the graph is recorded by the calls of \<open>setNode\<close> and \<open>setEdge\<close>.
\<close>

subsection \<open>The graph for dagre\<close>

record dagre_graph =
  dg_nodes :: "(string \<times> nat \<times> nat) list"
  dg_edges :: "(string \<times> string) list"

definition DEFAULT_NODE_WIDTH :: nat where "DEFAULT_NODE_WIDTH = 320"

definition DEFAULT_NODE_HEIGHT :: nat where "DEFAULT_NODE_HEIGHT = 140"

text \<open>\<open>while (ids.has(superSourceId)) superSourceId += '_'\<close>.\<close>

function unused_id :: "string list \<Rightarrow> string \<Rightarrow> string" where
  "unused_id ids name = (if name \<in> set ids then unused_id ids (name @ ''_'') else name)"
  by pat_completeness auto
termination
proof (relation "measure (\<lambda>(ids, name). card {x \<in> set ids. length name \<le> length x})", goal_cases)
  case (2 ids name)
  then have "name \<in> {x \<in> set ids. length name \<le> length x} - {x \<in> set ids. length (name @ ''_'') \<le> length x}" by simp
  moreover have "{x \<in> set ids. length (name @ ''_'') \<le> length x} \<subseteq> {x \<in> set ids. length name \<le> length x}" by auto
  ultimately have "{x \<in> set ids. length (name @ ''_'') \<le> length x} \<subset> {x \<in> set ids. length name \<le> length x}" by blast
  then show ?case by (simp add: psubset_card_mono)
qed simp

declare unused_id.simps [simp del]

definition superSourceId :: "string list \<Rightarrow> string" where
  "superSourceId ids = unused_id ids ''__dagre_super_source__''"

definition rootIds :: "string list \<Rightarrow> (string \<times> string) list \<Rightarrow> string list" where
  "rootIds ids edges = filter (\<lambda>name. name \<notin> snd ` set edges) ids"

definition layout_graph :: "string list \<Rightarrow> (string \<times> string) list \<Rightarrow> dagre_graph" where
  "layout_graph ids edges =
     (let super = superSourceId ids; roots = rootIds ids edges
      in \<lparr>dg_nodes = (if roots \<noteq> [] then [(super, 0, 0)] else []) @
            map (\<lambda>name. (name, DEFAULT_NODE_WIDTH, DEFAULT_NODE_HEIGHT)) ids,
          dg_edges = map (\<lambda>root. (super, root)) roots @ edges\<rparr>)"

text \<open>\<open>g.node(id)\<close> after the layout gives the centre of a node; React Flow places the upper left corner.\<close>

definition node_position :: "(string \<Rightarrow> (rat \<times> rat) option) \<Rightarrow> nat \<Rightarrow> string \<Rightarrow> rat \<times> rat" where
  "node_position centre index name =
     (case centre name of
        Some (x, y) \<Rightarrow> (x - of_nat DEFAULT_NODE_WIDTH / 2, y - of_nat DEFAULT_NODE_HEIGHT / 2)
      | None \<Rightarrow> (of_nat (index * DEFAULT_NODE_WIDTH), 50))"

definition computeDagreLayout ::
    "(dagre_graph \<Rightarrow> string \<Rightarrow> (rat \<times> rat) option) \<Rightarrow> string list \<Rightarrow> (string \<times> string) list \<Rightarrow> string \<rightharpoonup> rat \<times> rat" where
  "computeDagreLayout layout ids edges =
     fold (\<lambda>(index, name) positions. positions(name \<mapsto> node_position (layout (layout_graph ids edges)) index name))
       (enumerate 0 ids) (\<lambda>_. None)"

subsection \<open>One source for all roots\<close>

lemma unused_id_fresh: "unused_id ids name \<notin> set ids"
proof (induction ids name rule: unused_id.induct)
  case (1 ids name)
  then show ?case by (cases "name \<in> set ids") (simp_all add: unused_id.simps [of ids name])
qed

lemma superSourceId_fresh: "superSourceId ids \<notin> set ids"
  by (simp add: superSourceId_def unused_id_fresh)

definition edges_within :: "string list \<Rightarrow> (string \<times> string) list \<Rightarrow> bool" where
  "edges_within ids edges \<longleftrightarrow> (\<forall>(a, b) \<in> set edges. a \<in> set ids \<and> b \<in> set ids)"

lemma layout_edges:
  "set (dg_edges (layout_graph ids edges)) = {superSourceId ids} \<times> set (rootIds ids edges) \<union> set edges"
  by (auto simp: layout_graph_def Let_def)

lemma target_known:
  "edges_within ids edges \<Longrightarrow> (a, b) \<in> set (dg_edges (layout_graph ids edges)) \<Longrightarrow> b \<in> set ids"
  by (auto simp: layout_edges edges_within_def rootIds_def)

lemma paths_without_source:
  assumes "edges_within ids edges"
  shows "(a, b) \<in> (set (dg_edges (layout_graph ids edges)))\<^sup>+ \<Longrightarrow> a \<noteq> superSourceId ids \<Longrightarrow> (a, b) \<in> (set edges)\<^sup>+"
proof (induction rule: trancl_induct)
  case (base b)
  then show ?case by (auto simp: layout_edges)
next
  case (step b c)
  have "b \<in> set ids" using step(1) target_known [OF assms] by (meson tranclD2)
  then have "b \<noteq> superSourceId ids" using superSourceId_fresh by auto
  then have "(b, c) \<in> set edges" using step(2) by (auto simp: layout_edges)
  then show ?case using step by (meson trancl_into_trancl)
qed

lemma layout_acyclic:
  assumes "edges_within ids edges" and "acyclic (set edges)"
  shows "acyclic (set (dg_edges (layout_graph ids edges)))"
  unfolding acyclic_def
proof (intro allI notI)
  fix x
  assume cycle: "(x, x) \<in> (set (dg_edges (layout_graph ids edges)))\<^sup>+"
  then have "x \<in> set ids" using target_known [OF assms(1)] by (meson tranclD2)
  then have "x \<noteq> superSourceId ids" using superSourceId_fresh by auto
  then show False using paths_without_source [OF assms(1) cycle] assms(2) by (simp add: acyclic_def)
qed

lemma layout_reaches:
  assumes "edges_within ids edges" and "acyclic (set edges)"
  shows "name \<in> set ids \<Longrightarrow> (superSourceId ids, name) \<in> (set (dg_edges (layout_graph ids edges)))\<^sup>+"
proof (induction name rule: wf_induct_rule [OF finite_acyclic_wf [OF _ assms(2)]])
  case 1
  then show ?case by simp
next
  case (2 name)
  show ?case
  proof (cases "name \<in> snd ` set edges")
    case True
    then obtain a where a: "(a, name) \<in> set edges" by auto
    then have "a \<in> set ids" using assms(1) by (auto simp: edges_within_def)
    then have "(superSourceId ids, a) \<in> (set (dg_edges (layout_graph ids edges)))\<^sup>+" using 2 a by blast
    then show ?thesis by (rule trancl_into_trancl) (simp add: layout_edges a)
  next
    case False
    then show ?thesis using 2 by (intro r_into_trancl) (simp add: layout_edges rootIds_def)
  qed
qed



end
