(* ===== verification/Filter_Options.thy ===== *)
theory Filter_Options
  imports Filter_State
begin

text \<open>
  The values a filter offers for a column: \<open>filter/hooks/useFilterCategoricalOptionQuery.ts\<close>. Pages come from the query
  library, which keeps the last \<open>maxPages\<close> of them. The timer of the search is an event.
\<close>

subsection \<open>The statement\<close>

definition CATEGORICAL_PAGE_SIZE :: nat where "CATEGORICAL_PAGE_SIZE = 500"

definition optionSql :: "string \<Rightarrow> string \<Rightarrow> bool \<Rightarrow> string \<Rightarrow> string" where
  "optionSql nodeId column unwrapList searchQuery =
     (let v = sql_identifier ''value''; n = sql_identifier ''count'';
          source = (if unwrapList
            then ''SELECT UNNEST('' @ sql_identifier column @ '') AS '' @ v @ '' FROM '' @ table nodeId
            else ''SELECT '' @ sql_identifier column @ '' AS '' @ v @ '' FROM '' @ table nodeId);
          trimmedSearch = trim searchQuery;
          condition = (if trimmedSearch \<noteq> []
            then '' WHERE contains(lower(CAST('' @ v @ '' AS VARCHAR)), lower('' @ literal_string trimmedSearch @ ''))''
            else [])
      in ''SELECT '' @ v @ '', COUNT(*) AS '' @ n @ '' FROM ('' @ source @ '') AS '' @ sql_identifier ''values'' @
         condition @ '' GROUP BY '' @ v @ '' ORDER BY '' @ v @ '' ASC NULLS FIRST'')"

subsection \<open>Options\<close>

record counted_option = option_entry +
  oe_count :: "string option"

definition with_count :: "option_entry \<Rightarrow> string option \<Rightarrow> counted_option" where
  "with_count e n = \<lparr>oe_key = oe_key e, oe_value = oe_value e, oe_label = oe_label e, oe_isNull = oe_isNull e, oe_count = n\<rparr>"

text \<open>A row of a page: the value and its count.\<close>

type_synonym option_row = "raw_value \<times> raw_value"

record option_page =
  op_rows :: "option_row list"
  op_hasNext :: bool
  op_page :: nat

definition categoricalCount :: "raw_value \<Rightarrow> string option" where
  "categoricalCount v =
     (case v of
        Raw_Scalar (S_Number n) \<Rightarrow> if isSafeInteger n \<and> num_le (Finite 0) n then Some (show_number n) else None
      | Raw_Scalar (S_String s) \<Rightarrow> if s \<noteq> [] \<and> list_all is_digit s then Some s else None
      | _ \<Rightarrow> None)"

definition row_key :: "option_row \<Rightarrow> string" where
  "row_key row = getCategoricalOptionKey (toCategoricalPrimitive (fst row))"

text \<open>A later count of the same key replaces an earlier one.\<close>

definition countsByKey :: "option_row list \<Rightarrow> string \<rightharpoonup> string" where
  "countsByKey rows =
     fold (\<lambda>row counts. case categoricalCount (snd row) of Some n \<Rightarrow> counts(row_key row \<mapsto> n) | None \<Rightarrow> counts) rows (\<lambda>_. None)"

definition topicIds :: "arrow_field option \<Rightarrow> js_number list" where
  "topicIds column =
     (case column of
        Some f \<Rightarrow>
          (case field_type f of
             Arrow_FixedSizeList n _ \<Rightarrow> map (\<lambda>index. Finite (of_nat index - 1)) [0..<n]
           | _ \<Rightarrow> [])
      | None \<Rightarrow> [])"

definition has_null :: "bool \<Rightarrow> string \<Rightarrow> option_row list \<Rightarrow> bool" where
  "has_null isDictionary search rows \<longleftrightarrow>
     isDictionary \<and> trim search = [] \<and> list_ex (\<lambda>row. fst row = Raw_Scalar S_Null) rows"

definition page_options :: "bool \<Rightarrow> string \<Rightarrow> option_page \<Rightarrow> counted_option list" where
  "page_options isDictionary search page =
     map (\<lambda>e. with_count e (countsByKey (op_rows page) (oe_key e)))
       (buildCategoricalOptionEntries (map fst (op_rows page)) (has_null isDictionary search (op_rows page)))"

text \<open>\<open>new Map(...)\<close> by key: an incoming option takes the place of the one it replaces.\<close>

definition put_option :: "counted_option \<Rightarrow> counted_option list \<Rightarrow> counted_option list" where
  "put_option e options =
     (if oe_key e \<in> set (map oe_key options)
      then map (\<lambda>old. if oe_key old = oe_key e then e else old) options
      else options @ [e])"

definition mergeOptions :: "counted_option list \<Rightarrow> counted_option list \<Rightarrow> counted_option list" where
  "mergeOptions current incoming = fold put_option incoming current"

definition is_dictionary :: "arrow_field option \<Rightarrow> bool" where
  "is_dictionary field = (case field of Some f \<Rightarrow> isArrowDictionaryField f | None \<Rightarrow> False)"

definition offered_options :: "arrow_field option \<Rightarrow> string \<Rightarrow> option_page list \<Rightarrow> counted_option list" where
  "offered_options field search pages =
     (if isTopicCoverageField field
      then map (\<lambda>e. with_count e None) (buildCategoricalOptionEntries (map (Raw_Scalar \<circ> S_Number) (topicIds field)) False)
      else fold (\<lambda>page options. mergeOptions options (page_options (is_dictionary field) search page)) pages [])"

subsection \<open>Search and pages\<close>

record option_search =
  os_identity :: string
  os_value :: string

definition debounced_search :: "string \<Rightarrow> option_search \<Rightarrow> string" where
  "debounced_search identity search = (if os_identity search = identity then os_value search else [])"

definition can_query :: "string option \<Rightarrow> string option \<Rightarrow> string \<Rightarrow> arrow_field option \<Rightarrow> bool" where
  "can_query projectBase nodeId column field \<longleftrightarrow>
     projectBase \<noteq> None \<and> (case nodeId of Some n \<Rightarrow> n \<noteq> [] | None \<Rightarrow> False) \<and> column \<noteq> [] \<and>
     (case field of Some f \<Rightarrow> isArrowDictionaryField f \<or> isArrowStringListField f | None \<Rightarrow> False)"

definition next_page_param :: "option_page list \<Rightarrow> nat option" where
  "next_page_param pages =
     (if pages = [] then Some 1 else if op_hasNext (last pages) then Some (op_page (last pages) + 1) else None)"

definition max_pages :: nat where "max_pages = 4"

definition add_page :: "option_page list \<Rightarrow> option_row list \<Rightarrow> bool \<Rightarrow> option_page list" where
  "add_page pages rows hasNext =
     (case next_page_param pages of
        None \<Rightarrow> pages
      | Some n \<Rightarrow>
          (let pages' = pages @ [\<lparr>op_rows = rows, op_hasNext = hasNext, op_page = n\<rparr>]
           in drop (length pages' - max_pages) pages'))"

subsection \<open>The options are those of the pages\<close>

lemma closed_optionSql: "sql_closed (optionSql nodeId column unwrapList searchQuery)"
  by (auto simp: optionSql_def Let_def closed_scans intro!: closedI)

lemma put_keys: "set (map oe_key (put_option e options)) = insert (oe_key e) (set (map oe_key options))"
  by (auto simp: put_option_def image_iff)

lemma put_distinct: "distinct (map oe_key options) \<Longrightarrow> distinct (map oe_key (put_option e options))"
proof -
  have "map oe_key (map (\<lambda>old. if oe_key old = oe_key e then e else old) options) = map oe_key options"
    by (simp add: map_idI)
  then show "distinct (map oe_key options) \<Longrightarrow> ?thesis" by (auto simp: put_option_def simp del: map_map)
qed

lemma merge_keys: "set (map oe_key (mergeOptions current incoming)) = set (map oe_key current) \<union> set (map oe_key incoming)"
  by (induction incoming arbitrary: current) (simp_all add: mergeOptions_def put_keys [simplified])

lemma merge_distinct: "distinct (map oe_key current) \<Longrightarrow> distinct (map oe_key (mergeOptions current incoming))"
  by (induction incoming arbitrary: current) (simp_all add: mergeOptions_def put_distinct [simplified])

lemma pages_distinct:
  "distinct (map oe_key options) \<Longrightarrow>
   distinct (map oe_key (fold (\<lambda>page options. mergeOptions options (page_options d s page)) pages options))"
  by (induction pages arbitrary: options) (simp_all add: merge_distinct [simplified])

lemma pages_keys:
  "set (map oe_key (fold (\<lambda>page options. mergeOptions options (page_options d s page)) pages options)) =
     set (map oe_key options) \<union> (\<Union>page \<in> set pages. set (map oe_key (page_options d s page)))"
  by (induction pages arbitrary: options) (auto simp: merge_keys [simplified])

lemma page_option_keys:
  "set (map oe_key (page_options d s page)) =
     set (map oe_key (buildCategoricalOptionEntries (map fst (op_rows page)) (has_null d s (op_rows page))))"
  by (simp add: page_options_def with_count_def image_image)

lemma add_entry_keys:
  "set (map oe_key (add_entry raw entries)) =
     (if toCategoricalPrimitive raw = S_Null then {} else {getCategoricalOptionKey (toCategoricalPrimitive raw)}) \<union>
       set (map oe_key entries)"
  by (auto simp: add_entry_def Let_def)

lemma entry_keys:
  "set (map oe_key (fold add_entry raws entries)) =
     {getCategoricalOptionKey (toCategoricalPrimitive raw) |raw. raw \<in> set raws \<and> toCategoricalPrimitive raw \<noteq> S_Null} \<union>
       set (map oe_key entries)"
  by (induction raws arbitrary: entries) (auto simp: add_entry_keys [simplified] split: if_split_asm)

lemma page_keys:
  "set (map oe_key (page_options d s page)) =
     {row_key row |row. row \<in> set (op_rows page) \<and> toCategoricalPrimitive (fst row) \<noteq> S_Null} \<union>
     (if has_null d s (op_rows page) then {NULL_OPTION_KEY} else {})"
proof -
  have "{getCategoricalOptionKey (toCategoricalPrimitive raw) |raw. raw \<in> set (map fst (op_rows page)) \<and> toCategoricalPrimitive raw \<noteq> S_Null} =
      {row_key row |row. row \<in> set (op_rows page) \<and> toCategoricalPrimitive (fst row) \<noteq> S_Null}"
    by (force simp: row_key_def)
  then show ?thesis unfolding page_option_keys
    by (auto simp: buildCategoricalOptionEntries_def entry_keys [of _ "[]", simplified])
qed

text \<open>
  The options of a column are exactly the values on the loaded pages, each once, and missing values are offered when a
  page of a dictionary column has one and nothing is searched for; the statement they come from is well delimited.
\<close>

theorem options_are_page_values:
  assumes "\<not> isTopicCoverageField field"
  shows "distinct (map oe_key (offered_options field search pages)) \<and>
    set (map oe_key (offered_options field search pages)) =
      {row_key row |row page. page \<in> set pages \<and> row \<in> set (op_rows page) \<and> toCategoricalPrimitive (fst row) \<noteq> S_Null} \<union>
      (if list_ex (\<lambda>page. has_null (is_dictionary field) search (op_rows page)) pages then {NULL_OPTION_KEY} else {}) \<and>
    sql_closed (optionSql nodeId column unwrapList search)"
proof (intro conjI)
  show "distinct (map oe_key (offered_options field search pages))"
    using assms pages_distinct [of "[]"] by (simp add: offered_options_def)
  show "set (map oe_key (offered_options field search pages)) =
      {row_key row |row page. page \<in> set pages \<and> row \<in> set (op_rows page) \<and> toCategoricalPrimitive (fst row) \<noteq> S_Null} \<union>
      (if list_ex (\<lambda>page. has_null (is_dictionary field) search (op_rows page)) pages then {NULL_OPTION_KEY} else {})"
    unfolding offered_options_def if_not_P [OF assms] pages_keys page_keys list_ex_iff by (auto split: if_split_asm)
qed (rule closed_optionSql)

lemma options_are_page_values_witness:
  "distinct (map oe_key (offered_options None [] [\<lparr>op_rows = [(Raw_Scalar (S_String ''a''), Raw_Object ''1'')], op_hasNext = False, op_page = 1\<rparr>]))"
proof -
  have "\<not> isTopicCoverageField None" by (simp add: isTopicCoverageField_def)
  from options_are_page_values [OF this] show ?thesis by blast
qed

text \<open>
  Only the last four pages are kept, and there is no way back: once the fifth page is loaded, the values of the first one
  are no longer offered.
\<close>

definition five_pages :: "option_page list" where
  "five_pages = fold (\<lambda>s pages. add_page pages [(Raw_Scalar (S_String s), Raw_Object [])] True) [''a'', ''b'', ''c'', ''d'', ''e''] []"

theorem early_options_dropped:
  "map oe_label (offered_options None [] five_pages) = [''b'', ''c'', ''d'', ''e''] \<and>
   map op_page five_pages = [2, 3, 4, 5]"
  by code_simp

end
