(* ===== verification/Plot_Scope.thy ===== *)
theory Plot_Scope
  imports Plot_Laws
begin

text \<open>
  Selecting in a plot and what its publication covers: the selection and display of \<open>plots/PlotResults.tsx\<close> and
  \<open>plots/plotContext.ts\<close>. \<open>BigInt\<close> of a text and the locale's spelling of numbers are arguments.
\<close>

subsection \<open>Selection\<close>

definition emptySelection :: plot_selection where
  "emptySelection = \<lparr>ps_hidden = [], ps_intervals = [], ps_rows = [], ps_cells = [], ps_transitions = []\<rparr>"

definition set_keys :: "plot_mode \<Rightarrow> string list \<Rightarrow> plot_selection \<Rightarrow> plot_selection" where
  "set_keys mode keys selection =
     (case mode of
        Plot_trends \<Rightarrow> selection\<lparr>ps_intervals := keys\<rparr>
      | Plot_scatter \<Rightarrow> selection\<lparr>ps_rows := keys\<rparr>
      | Plot_sankey \<Rightarrow> selection\<lparr>ps_transitions := keys\<rparr>
      | _ \<Rightarrow> selection\<lparr>ps_cells := keys\<rparr>)"

text \<open>The intervals in their order, and those from one to another.\<close>

definition interval_text :: "plot_row \<Rightarrow> string" where
  "interval_text row = (case cell row ''interval_key'' of PV_string s \<Rightarrow> s | _ \<Rightarrow> [])"

definition interval_order :: "plot_row list \<Rightarrow> string list" where
  "interval_order rows = unique (map interval_text rows)"

definition interval_span :: "string list \<Rightarrow> string \<Rightarrow> string \<Rightarrow> string list" where
  "interval_span ordered a b =
     (let i = position_of a ordered; j = position_of b ordered
      in take (max i j + 1 - min i j) (drop (min i j) ordered))"

definition chosen_keys :: "plot_mode \<Rightarrow> plot_row list \<Rightarrow> string option \<Rightarrow> string list \<Rightarrow> bool \<Rightarrow> bool \<Rightarrow> string list" where
  "chosen_keys mode rows anchor keys add range_mode =
     (case (anchor, keys) of
        (Some a, k # _) \<Rightarrow>
          (let ordered = interval_order rows
           in if mode = Plot_trends \<and> add \<and> \<not> range_mode \<and> a \<noteq> [] \<and> k \<noteq> [] \<and> a \<in> set ordered \<and> k \<in> set ordered
              then interval_span ordered a k else keys)
      | _ \<Rightarrow> keys)"

definition toggle_key :: "string \<Rightarrow> string list \<Rightarrow> string list" where
  "toggle_key key keys = (if key \<in> set keys then filter (\<lambda>k. k \<noteq> key) keys else keys @ [key])"

definition selected_keys :: "bool \<Rightarrow> bool \<Rightarrow> string list \<Rightarrow> string list \<Rightarrow> string list" where
  "selected_keys add range_mode chosen old =
     (if add then unique (old @ chosen) else if range_mode then chosen else fold toggle_key chosen old)"

definition plot_select ::
    "plot_mode \<Rightarrow> plot_row list \<Rightarrow> string list \<Rightarrow> bool \<Rightarrow> bool \<Rightarrow> plot_selection \<times> string option \<Rightarrow> plot_selection \<times> string option" where
  "plot_select mode rows keys add range_mode st =
     (let (selection, anchor) = st; chosen = chosen_keys mode rows anchor keys add range_mode
      in (set_keys mode (selected_keys add range_mode chosen (plotSelectionKeys mode selection)) selection,
          case keys of k # _ \<Rightarrow> if k \<noteq> [] then Some k else anchor | [] \<Rightarrow> anchor))"

definition clear_selection :: "plot_selection \<times> string option \<Rightarrow> plot_selection \<times> string option" where
  "clear_selection st = (emptySelection\<lparr>ps_hidden := ps_hidden (fst st)\<rparr>, None)"

definition toggle_hidden :: "string \<Rightarrow> plot_selection \<Rightarrow> plot_selection" where
  "toggle_hidden key selection = selection\<lparr>ps_hidden := toggle_key key (ps_hidden selection)\<rparr>"

definition change_case :: "plot_selection \<Rightarrow> plot_selection" where
  "change_case selection = selection\<lparr>ps_hidden := [], ps_cells := [], ps_transitions := []\<rparr>"

subsection \<open>Scope\<close>

definition group_text :: "plot_row \<Rightarrow> string" where
  "group_text row = (if nullish (cell row ''group_key'') then ''[]'' else showValue (cell row ''group_key''))"

definition eligible_rows :: "plot_mode \<Rightarrow> plot_row list \<Rightarrow> plot_selection \<Rightarrow> plot_row list" where
  "eligible_rows mode rows selection =
     (let keys = plotSelectionKeys mode selection
      in filter (\<lambda>row. group_text row \<notin> set (ps_hidden selection) \<and>
            (keys = [] \<or> row_text row (selection_field mode) \<in> set keys)) rows)"

text \<open>\<open>None\<close> where \<open>BigInt\<close> throws.\<close>

definition exact_count :: "(string \<Rightarrow> int option) \<Rightarrow> plot_mode \<Rightarrow> plot_row \<Rightarrow> int option" where
  "exact_count big mode row =
     (if mode = Plot_scatter then Some 1
      else big (if nullish (cell row ''row_count'') then ''0'' else row_text row ''row_count''))"

definition sum_counts :: "(string \<Rightarrow> int option) \<Rightarrow> plot_mode \<Rightarrow> plot_row list \<Rightarrow> int option" where
  "sum_counts big mode rows =
     fold (\<lambda>row whole. case (whole, exact_count big mode row) of (Some a, Some n) \<Rightarrow> Some (a + n) | _ \<Rightarrow> None) rows (Some 0)"

definition scope_unit :: "plot_mode \<Rightarrow> string" where
  "scope_unit mode =
     (case mode of
        Plot_trends \<Rightarrow> ''interval'' | Plot_compare \<Rightarrow> ''segment'' | Plot_heatmap \<Rightarrow> ''cell''
      | Plot_scatter \<Rightarrow> ''point'' | Plot_sankey \<Rightarrow> ''band'')"

definition plural :: "'a list \<Rightarrow> string" where
  "plural keys = (if length keys = 1 then [] else ''s'')"

definition scope_label :: "plot_page \<Rightarrow> plot_mode \<Rightarrow> plot_request \<Rightarrow> string \<Rightarrow> string" where
  "scope_label page mode request key =
     (case (mode, request) of
        (Plot_sankey, Sankey_request _ stages _ _) \<Rightarrow>
          (let (stage, pair) = transition_of (pg_parse page key)
           in stage_name stages stage @ arrow_text @ stage_name stages (stage + 1) @ '': '' @
              plot_label page (pg_stringify page (JS_Array pair)))
      | (Plot_heatmap, _) \<Rightarrow> plot_label page key
      | (Plot_compare, _) \<Rightarrow> plot_label page key
      | _ \<Rightarrow> key)"

definition scope_summary :: "(int \<Rightarrow> string) \<Rightarrow> plot_mode \<Rightarrow> string list \<Rightarrow> int option \<Rightarrow> string" where
  "scope_summary locale_text mode keys n =
     (if keys \<noteq> [] then show_nat (length keys) @ '' selected '' @ scope_unit mode @ plural keys else ''All eligible rows'') @
     (case n of Some k \<Rightarrow> middle_dot @ locale_text k @ '' original rows'' | None \<Rightarrow> [])"

definition scope_details :: "plot_page \<Rightarrow> plot_mode \<Rightarrow> plot_request \<Rightarrow> plot_selection \<Rightarrow> string list" where
  "scope_details page mode request selection =
     (let keys = plotSelectionKeys mode selection; labels = map (scope_label page mode request) (take 20 keys)
      in (if labels \<noteq> []
          then [''Selected '' @ scope_unit mode @ plural keys @ '': '' @ join ''; '' labels @
                (if length labels < length keys then ''; and '' @ show_nat (length keys - length labels) @ '' more'' else [])]
          else []) @
         (if ps_hidden selection \<noteq> []
          then [''Hidden groups excluded: '' @ join ''; '' (map (plot_label page) (ps_hidden selection))] else []) @
         (if mode = Plot_sankey
          then [''Rows matching any selected band are included once. Selected bands do not require a complete path through all stages.'']
          else []))"

text \<open>The summary with its details, or an error when a count is no integer.\<close>

definition plotPublicationScope ::
    "plot_page \<Rightarrow> (string \<Rightarrow> int option) \<Rightarrow> (int \<Rightarrow> string) \<Rightarrow> plot_mode \<Rightarrow> plot_request \<Rightarrow> plot_row list \<Rightarrow> plot_selection \<Rightarrow>
     (string \<times> string list) option" where
  "plotPublicationScope page big locale_text mode request rows selection =
     (let keys = plotSelectionKeys mode selection; details = scope_details page mode request selection
      in if mode = Plot_sankey then Some (scope_summary locale_text mode keys None, details)
         else map_option (\<lambda>n. (scope_summary locale_text mode keys (Some n), details))
                (sum_counts big mode (eligible_rows mode rows selection)))"

subsection \<open>The context of an export\<close>

definition style_text :: "plot_style \<Rightarrow> string" where
  "style_text style =
     (case style of
        Style_line \<Rightarrow> ''line'' | Style_area \<Rightarrow> ''area'' | Style_bar \<Rightarrow> ''bar''
      | Style_stacked_bar \<Rightarrow> ''stacked_bar'' | Style_calendar \<Rightarrow> ''calendar'')"

definition mode_label :: "plot_mode \<Rightarrow> string" where
  "mode_label mode =
     (case mode of
        Plot_trends \<Rightarrow> ''Trends'' | Plot_compare \<Rightarrow> ''Compare'' | Plot_scatter \<Rightarrow> ''Scatter''
      | Plot_heatmap \<Rightarrow> ''Heatmap'' | Plot_sankey \<Rightarrow> ''Sankey'')"

definition presentation :: "plot_mode \<Rightarrow> plot_display \<Rightarrow> string" where
  "presentation mode display =
     (case mode of
        Plot_trends \<Rightarrow> middle_dot @ style_text (pd_style display) @
          (if pd_style display \<in> {Style_line, Style_area} \<and> pd_smooth display then middle_dot @ ''Smooth curves'' else [])
      | Plot_compare \<Rightarrow> middle_dot @ (if pd_horizontal display then ''horizontal'' else ''vertical'') @ '' stacked bars''
      | _ \<Rightarrow> [])"

definition interval_context :: "plot_interval \<Rightarrow> string" where
  "interval_context interval =
     (case interval of
        Interval_categories \<Rightarrow> ''Native category order''
      | Interval_time unit step \<Rightarrow> show_int step @ '' '' @ unit @ (if step = 1 then [] else ''s'')
      | Interval_numeric width origin \<Rightarrow>
          width @ '' (origin: '' @ (case origin of Some s \<Rightarrow> s | None \<Rightarrow> ''automatic'') @ '')'')"

definition given_text :: "string \<Rightarrow> string option \<Rightarrow> string" where
  "given_text label v = (case v of Some s \<Rightarrow> if s \<noteq> [] then label @ s else [] | None \<Rightarrow> [])"

definition given_line :: "string \<Rightarrow> string option \<Rightarrow> string \<Rightarrow> string list" where
  "given_line label v suffix = (case v of Some s \<Rightarrow> if s \<noteq> [] then [label @ s @ suffix] else [] | None \<Rightarrow> [])"

definition request_context :: "plot_request \<Rightarrow> plot_display \<Rightarrow> string list" where
  "request_context request display =
     (case request of
        Trends_request _ axis interval groups _ _ \<Rightarrow>
          [''Axis: '' @ axis @ middle_dot @ ''Interval: '' @ interval_context interval] @
          given_line ''Timezone: '' (pd_timezone display) [] @
          (if groups \<noteq> [] then [''Groups: '' @ join '', '' groups] else []) @
          (if pd_style display = Style_calendar then [''Calendar year: '' @ show_int (pd_year display)] else []) @
          [''Minimum rows per group: '' @ show_int (pd_minimum_rows display)]
      | Compare_request _ category stack _ _ \<Rightarrow> [''Category: '' @ category @ given_text (middle_dot @ ''Stacks: '') stack]
      | Heatmap_request _ row column _ _ \<Rightarrow>
          [''Rows: '' @ row @ middle_dot @ ''Columns: '' @ column,
           ''Blank cells: no usable measurement or no observations. Zero is a measured value.'']
      | Scatter_request _ x y color bubble label \<Rightarrow>
          [''X: '' @ x @ middle_dot @ ''Y: '' @ y] @ given_line ''Color: '' color [] @
          given_line ''Bubble area: '' bubble (middle_dot @ ''Hollow markers: zero'') @ given_line ''Labels: '' label []
      | Sankey_request _ stages _ _ \<Rightarrow> [''Stages: '' @ join arrow_text stages])"

definition plotExportContext :: "plot_mode \<Rightarrow> plot_request \<Rightarrow> plot_display \<Rightarrow> string list" where
  "plotExportContext mode request display =
     [mode_label mode @ middle_dot @ rq_source request @ presentation mode display, plotMeasure request] @
     request_context request display @
     (if pd_normalize display then [''Percentage of all eligible groups, including hidden groups''] else []) @
     [if pd_uncased display then ''Categories: case variants combined'' else ''Categories: exact case'']"

subsection \<open>A selection of intervals\<close>

lemma plotSelectionKeys_set [simp]: "plotSelectionKeys mode (set_keys mode keys selection) = keys"
  by (cases mode) (simp_all add: plotSelectionKeys_def set_keys_def)

lemma hidden_set [simp]: "ps_hidden (set_keys mode keys selection) = ps_hidden selection"
  by (cases mode) (simp_all add: set_keys_def)

lemma toggle_twice: "k \<in> set (fold toggle_key [key, key] keys) \<longleftrightarrow> k \<in> set keys"
  by (auto simp: toggle_key_def)

subsection \<open>The count of a publication\<close>

text \<open>Counts as the host sends them: integers that a double holds.\<close>

definition counted_row :: "plot_row \<Rightarrow> bool" where
  "counted_row row \<longleftrightarrow>
     (case cell row ''group_key'' of PV_string _ \<Rightarrow> True | PV_null \<Rightarrow> True | _ \<Rightarrow> False) \<and>
     (case cell row ''row_count'' of PV_bigint n \<Rightarrow> \<bar>n\<bar> < 2 ^ 53 | PV_null \<Rightarrow> True | _ \<Rightarrow> False)"

definition count_of :: "plot_mode \<Rightarrow> plot_row \<Rightarrow> int" where
  "count_of mode row =
     (if mode = Plot_scatter then 1 else case cell row ''row_count'' of PV_bigint n \<Rightarrow> n | _ \<Rightarrow> 0)"

lemma group_text_key: "counted_row row \<Longrightarrow> group_text row = group_key row"
  by (auto simp: counted_row_def group_text_def group_key_def nullish_def showValue_def split: plot_value.splits)

lemma exact_count_of:
  assumes big: "\<And>n. big (show_int n) = Some n" and row: "counted_row row"
  shows "exact_count big mode row = Some (count_of mode row)"
proof -
  have "show_int 0 = ''0''" by code_simp
  then have "big ''0'' = Some 0" using big [of 0] by simp
  then show ?thesis using row big
    by (auto simp: counted_row_def exact_count_def count_of_def nullish_def row_text_def showValue_def split: plot_value.splits)
qed

lemma row_weight_count: "counted_row row \<Longrightarrow> row_weight mode row = Finite (of_int (count_of mode row))"
  by (auto simp: counted_row_def row_weight_def count_of_def number_or_zero_def nullish_def js_Number_def to_double_int
      split: plot_value.splits)

lemma sum_counts_of:
  assumes "\<And>n. big (show_int n) = Some n"
  shows "list_all counted_row rows \<Longrightarrow> sum_counts big mode rows = Some (\<Sum>row\<leftarrow>rows. count_of mode row)"
proof -
  have "list_all counted_row rows \<Longrightarrow>
      fold (\<lambda>row whole. case (whole, exact_count big mode row) of (Some a, Some n) \<Rightarrow> Some (a + n) | _ \<Rightarrow> None) rows (Some a) =
      Some (a + (\<Sum>row\<leftarrow>rows. count_of mode row))" for a
    using exact_count_of [OF assms] by (induction rows arbitrary: a) (simp_all add: algebra_simps)
  from this [of 0] show "list_all counted_row rows \<Longrightarrow> ?thesis" by (simp add: sum_counts_def)
qed

lemma of_int_sum: "(of_int (\<Sum>row\<leftarrow>rows. f row) :: rat) = (\<Sum>row\<leftarrow>rows. of_int (f row))"
  by (induction rows) simp_all

lemma eligible_groups:
  assumes rows: "list_all counted_row rows"
  shows "mset (concat (map (\<lambda>key. group_rows key (eligible_rows mode rows selection)) (shown_keys selection (group_keys rows)))) =
    mset (eligible_rows mode rows selection)"
  using rows group_text_key
  by (intro mset_groups) (auto simp: shown_keys_def group_keys_def eligible_rows_def Let_def list_all_iff)

text \<open>What a legend counts: all rows of its group, or the selected ones when there is a selection.\<close>

definition legend_count :: "plot_mode \<Rightarrow> plot_selection \<Rightarrow> plot_legend \<Rightarrow> js_number" where
  "legend_count mode selection l = (if plotSelectionKeys mode selection = [] then lg_count l else lg_selected l)"

lemma legend_counts_group:
  assumes rows: "list_all counted_row rows" and key: "key \<notin> set (ps_hidden selection)"
  shows "sum_numbers (map (row_weight mode)
      (filter (\<lambda>row. plotSelectionKeys mode selection = [] \<or> row_text row (selection_field mode) \<in> set (plotSelectionKeys mode selection))
        (group_rows key rows))) =
    Finite (\<Sum>row\<leftarrow>group_rows key (eligible_rows mode rows selection). of_int (count_of mode row))"
proof -
  have "filter (\<lambda>row. plotSelectionKeys mode selection = [] \<or> row_text row (selection_field mode) \<in> set (plotSelectionKeys mode selection))
      (group_rows key rows) = group_rows key (eligible_rows mode rows selection)"
    using rows key group_text_key by (auto simp: group_rows_def eligible_rows_def Let_def list_all_iff intro!: filter_cong)
  then show ?thesis using rows row_weight_count
    by (auto intro!: sum_numbers_cong simp: group_rows_def eligible_rows_def Let_def list_all_iff)
qed


lemma decimal_value_digit: "d < 10 \<Longrightarrow> decimal_value [digit_char d] = d"
  by (simp add: decimal_value_def digit_value_def digit_char_def)

lemma decimal_value_show: "decimal_value (show_nat n) = n"
proof (induction n rule: show_nat.induct)
  case (1 n)
  show ?case
  proof (cases "n < 10")
    case True
    then show ?thesis by (simp add: show_nat.simps [of n] decimal_value_digit)
  next
    case False
    then show ?thesis using 1 by (simp add: show_nat.simps [of n] decimal_value_append decimal_value_digit)
  qed
qed

lemma signed_value_show: "signed_value (show_int n) = n"
proof -
  obtain c r where c: "show_nat (nat n) = c # r" by (cases "show_nat (nat n)") (simp_all add: show_nat.simps [of "nat n"] split: if_split_asm)
  have "list_all is_digit (show_nat (nat n))" by (rule show_nat_digits)
  then have "c \<noteq> CHR ''-''" "c \<noteq> CHR ''+''" by (auto simp: c is_digit_def)
  then show ?thesis using decimal_value_show [of "nat n"] decimal_value_show [of "nat (- n)"]
    by (auto simp: signed_value_def show_int_def c)
qed

definition example_counts :: "plot_row list" where
  "example_counts =
     [[(''group_key'', PV_string ''a''), (''interval_key'', PV_string ''2020''), (''row_count'', PV_bigint 3)],
      [(''group_key'', PV_string ''b''), (''interval_key'', PV_string ''2020''), (''row_count'', PV_bigint 4)]]"


end
