(* ===== verification/File_Drop.thy ===== *)
theory File_Drop
  imports Complex_Main Prelude
begin

text \<open>
  Dropping files on the window: \<open>features/project/useProjectFileDrop.ts\<close>. Events of the page are handled at once;
  events of the desktop window wait for the size of the view, so their second halves run later and in any order. Which
  drop target lies under an event or a point is an argument, and so are the sizes. Listening itself is not modelled.
\<close>

subsection \<open>State\<close>

datatype 'p native_drag = Drag_leave | Drag_over 'p | Drag_drop 'p "string list"

text \<open>What was handed to the project, and errors that were reported.\<close>

datatype drop_output = Received_paths "string list" | Received_files "string list" | Drop_error js_error

record ('el, 'p) file_drop =
  fd_disposed :: bool
  fd_revision :: nat
  fd_highlighted :: "'el option"
  fd_waiting :: "(nat \<times> 'p native_drag) list"
  fd_outputs :: "drop_output list"

definition initial_drop :: "('el, 'p) file_drop" where
  "initial_drop = \<lparr>fd_disposed = False, fd_revision = 0, fd_highlighted = None, fd_waiting = [], fd_outputs = []\<rparr>"

definition highlight :: "'el option \<Rightarrow> ('el, 'p) file_drop \<Rightarrow> ('el, 'p) file_drop" where
  "highlight target fd = fd\<lparr>fd_highlighted := target\<rparr>"

definition give :: "drop_output \<Rightarrow> ('el, 'p) file_drop \<Rightarrow> ('el, 'p) file_drop" where
  "give out fd = fd\<lparr>fd_outputs := out # fd_outputs fd\<rparr>"

subsection \<open>Events of the page\<close>

text \<open>What a drag of the page carries: files of the browser, a recent file of the project, or something else.\<close>

record page_drag =
  pd_types :: "string list"
  pd_files :: "string list"
  pd_path :: string

definition browser_files :: "bool \<Rightarrow> page_drag \<Rightarrow> bool" where
  "browser_files browserEnabled drag \<longleftrightarrow> browserEnabled \<and> ''Files'' \<in> set (pd_types drag)"

text \<open>\<open>dragOver\<close>, with whether the default is prevented, and the effect of the drop where it is set.\<close>

definition drag_over ::
    "bool \<Rightarrow> page_drag \<Rightarrow> 'el option \<Rightarrow> ('el, 'p) file_drop \<Rightarrow> ('el, 'p) file_drop \<times> bool \<times> string option" where
  "drag_over browserEnabled drag target fd =
     (let files = browser_files browserEnabled drag
      in if ''application/x-wordflow-file'' \<notin> set (pd_types drag) \<and> \<not> files then (fd, False, None)
         else (highlight target fd, target \<noteq> None \<or> files,
               if files then Some (if target \<noteq> None then ''copy'' else ''none'') else None))"

definition drag_leave :: "bool \<Rightarrow> ('el, 'p) file_drop \<Rightarrow> ('el, 'p) file_drop" where
  "drag_leave related fd = (if related then fd else highlight None fd)"

definition drag_end :: "('el, 'p) file_drop \<Rightarrow> ('el, 'p) file_drop" where
  "drag_end fd = highlight None fd"

definition page_drop :: "bool \<Rightarrow> page_drag \<Rightarrow> 'el option \<Rightarrow> ('el, 'p) file_drop \<Rightarrow> ('el, 'p) file_drop \<times> bool" where
  "page_drop browserEnabled drag target fd =
     (let fd1 = highlight None fd in
      if browserEnabled \<and> pd_files drag \<noteq> []
      then (if target \<noteq> None then give (Received_files (pd_files drag)) fd1 else fd1, True)
      else if pd_path drag \<noteq> [] \<and> target \<noteq> None then (give (Received_paths [pd_path drag]) fd1, True)
      else (fd1, False))"

subsection \<open>Events of the desktop window\<close>

definition native_event :: "'p native_drag \<Rightarrow> ('el, 'p) file_drop \<Rightarrow> ('el, 'p) file_drop" where
  "native_event payload fd =
     (let fd1 = fd\<lparr>fd_revision := fd_revision fd + 1\<rparr> in
      if fd_disposed fd then fd1
      else case payload of
        Drag_leave \<Rightarrow> highlight None fd1
      | _ \<Rightarrow> fd1\<lparr>fd_waiting := fd_waiting fd1 @ [(fd_revision fd1, payload)]\<rparr>)"

text \<open>The point in the page: macOS reports logical points, so the scale is one elsewhere.\<close>

definition page_point :: "rat \<Rightarrow> rat \<times> rat \<Rightarrow> rat \<times> rat \<Rightarrow> rat \<times> rat \<Rightarrow> rat \<times> rat" where
  "page_point scale view inner position =
     (fst position * scale * fst inner / fst view, snd position * scale * snd inner / snd view)"

text \<open>The second half, with the target under the point.\<close>

definition native_settled :: "nat \<times> 'p native_drag \<Rightarrow> 'el option \<Rightarrow> ('el, 'p) file_drop \<Rightarrow> ('el, 'p) file_drop" where
  "native_settled waiting target fd =
     (let (current, payload) = waiting; fd1 = fd\<lparr>fd_waiting := remove1 waiting (fd_waiting fd)\<rparr> in
      if fd_disposed fd then fd1
      else case payload of
        Drag_drop _ paths \<Rightarrow>
          (let fd2 = highlight None fd1 in if target \<noteq> None then give (Received_paths paths) fd2 else fd2)
      | _ \<Rightarrow> if current \<noteq> fd_revision fd then fd1 else highlight target fd1)"

definition native_failed :: "nat \<times> 'p native_drag \<Rightarrow> js_error \<Rightarrow> ('el, 'p) file_drop \<Rightarrow> ('el, 'p) file_drop" where
  "native_failed waiting e fd =
     (let fd1 = fd\<lparr>fd_waiting := remove1 waiting (fd_waiting fd)\<rparr>
      in if fd_disposed fd then fd1 else give (Drop_error e) fd1)"

definition dispose :: "('el, 'p) file_drop \<Rightarrow> ('el, 'p) file_drop" where
  "dispose fd = highlight None (fd\<lparr>fd_disposed := True\<rparr>)"

subsection \<open>Runs of the desktop window\<close>

datatype ('el, 'p) drop_event =
    Native "'p native_drag"
  | Settled "nat \<times> 'p native_drag" "'el option"
  | Failed_size "nat \<times> 'p native_drag" js_error
  | Dispose

definition drop_step :: "('el, 'p) drop_event \<Rightarrow> ('el, 'p) file_drop \<Rightarrow> ('el, 'p) file_drop" where
  "drop_step ev fd =
     (case ev of
        Native payload \<Rightarrow> native_event payload fd
      | Settled waiting target \<Rightarrow> if waiting \<in> set (fd_waiting fd) then native_settled waiting target fd else fd
      | Failed_size waiting e \<Rightarrow> if waiting \<in> set (fd_waiting fd) then native_failed waiting e fd else fd
      | Dispose \<Rightarrow> dispose fd)"

fun over_revision :: "nat \<times> 'p native_drag \<Rightarrow> nat option" where
  "over_revision (n, Drag_over _) = Some n"
| "over_revision _ = None"

text \<open>Whether the last event that the window reported, if any, ended the drag.\<close>

fun drag_over_now :: "bool \<Rightarrow> ('el, 'p) drop_event list \<Rightarrow> bool" where
  "drag_over_now over [] = over"
| "drag_over_now over (Native payload # evs) = drag_over_now (case payload of Drag_over _ \<Rightarrow> True | _ \<Rightarrow> False) evs"
| "drag_over_now over (Dispose # evs) = drag_over_now False evs"
| "drag_over_now over (_ # evs) = drag_over_now over evs"

definition drop_ok :: "bool \<Rightarrow> ('el, 'p) file_drop \<Rightarrow> bool" where
  "drop_ok over fd \<longleftrightarrow>
     (\<forall>w \<in> set (fd_waiting fd). snd w \<noteq> Drag_leave \<and> fst w \<le> fd_revision fd) \<and>
     (fd_disposed fd \<longrightarrow> fd_highlighted fd = None) \<and>
     (\<not> over \<and> \<not> fd_disposed fd \<longrightarrow>
        (fd_highlighted fd \<noteq> None \<longrightarrow> (\<exists>w \<in> set (fd_waiting fd). \<exists>p paths. snd w = Drag_drop p paths)) \<and>
        (\<forall>w \<in> set (fd_waiting fd). over_revision w \<noteq> Some (fd_revision fd)))"

definition over_after :: "('el, 'p) drop_event \<Rightarrow> bool \<Rightarrow> bool" where
  "over_after ev over = drag_over_now over [ev]"

lemma drag_over_step: "drag_over_now over (ev # evs) = drag_over_now (over_after ev over) evs"
  by (cases ev) (simp_all add: over_after_def)

lemma native_ok:
  assumes "drop_ok over fd"
  shows "drop_ok (over_after (Native payload :: ('el, 'p) drop_event) over) (native_event payload fd)"
proof -
  have "\<forall>w \<in> set (fd_waiting fd). fst w \<noteq> Suc (fd_revision fd) \<and> over_revision w \<noteq> Some (Suc (fd_revision fd))"
  proof
    fix w assume "w \<in> set (fd_waiting fd)"
    then have "fst w \<le> fd_revision fd" using assms by (simp add: drop_ok_def)
    then show "fst w \<noteq> Suc (fd_revision fd) \<and> over_revision w \<noteq> Some (Suc (fd_revision fd))"
      by (cases w rule: over_revision.cases) auto
  qed
  then show ?thesis using assms
    by (cases payload) (auto simp: drop_ok_def over_after_def native_event_def highlight_def Let_def image_iff)
qed

lemma settled_ok:
  assumes ok: "drop_ok over fd" and w: "w \<in> set (fd_waiting fd)"
  shows "drop_ok over (native_settled w target fd)"
proof -
  obtain n payload where p: "w = (n, payload)" by (cases w)
  have keep: "\<forall>v \<in> set (remove1 w (fd_waiting fd)). v \<in> set (fd_waiting fd)"
    using set_remove1_subset [of w "fd_waiting fd"] by blast
  show ?thesis
  proof (cases payload)
    case (Drag_drop q paths)
    then show ?thesis using ok keep unfolding p
      by (auto simp: drop_ok_def native_settled_def highlight_def give_def Let_def)
  next
    case (Drag_over q)
    have stale: "over \<or> fd_disposed fd \<or> n \<noteq> fd_revision fd" using ok w Drag_over by (force simp: drop_ok_def p)
    have drops: "v \<in> set (remove1 w (fd_waiting fd))" if "v \<in> set (fd_waiting fd)" "snd v = Drag_drop a b" for v a b
      using that Drag_over p by (cases "v = w") auto
    have rest: "drop_ok over (fd\<lparr>fd_waiting := remove1 w (fd_waiting fd)\<rparr>)"
      unfolding drop_ok_def
    proof (intro conjI impI ballI)
      assume "\<not> over \<and> \<not> fd_disposed (fd\<lparr>fd_waiting := remove1 w (fd_waiting fd)\<rparr>)"
        and "fd_highlighted (fd\<lparr>fd_waiting := remove1 w (fd_waiting fd)\<rparr>) \<noteq> None"
      then obtain v a b where v: "v \<in> set (fd_waiting fd)" "snd v = Drag_drop a b" using ok by (auto simp: drop_ok_def)
      then show "\<exists>w' \<in> set (fd_waiting (fd\<lparr>fd_waiting := remove1 w (fd_waiting fd)\<rparr>)). \<exists>p paths. snd w' = Drag_drop p paths"
        using drops [OF v] v(2) by auto
    qed (use ok keep in \<open>auto simp: drop_ok_def\<close>)
    show ?thesis
    proof (cases "fd_disposed fd \<or> n \<noteq> fd_revision fd")
      case True
      then have "native_settled w target fd = fd\<lparr>fd_waiting := remove1 w (fd_waiting fd)\<rparr>"
        by (auto simp: native_settled_def p Drag_over Let_def)
      then show ?thesis using rest by simp
    next
      case False
      then have "native_settled w target fd = highlight target (fd\<lparr>fd_waiting := remove1 w (fd_waiting fd)\<rparr>)" "over"
        using stale by (auto simp: native_settled_def p Drag_over Let_def)
      then show ?thesis using rest False by (simp add: drop_ok_def highlight_def)
    qed
  next
    case Drag_leave
    then show ?thesis using ok w p by (force simp: drop_ok_def)
  qed
qed

definition answered :: "('el, 'p) drop_event \<Rightarrow> bool" where
  "answered ev = (case ev of Failed_size _ _ \<Rightarrow> False | _ \<Rightarrow> True)"

lemma drop_step_ok: "drop_ok over fd \<Longrightarrow> answered ev \<Longrightarrow> drop_ok (over_after ev over) (drop_step ev fd)"
proof (cases ev)
  case (Native payload)
  assume "drop_ok over fd"
  then show ?thesis using native_ok [of over fd payload] by (simp add: Native drop_step_def)
next
  case (Settled w target)
  assume "drop_ok over fd"
  then show ?thesis using settled_ok [of over fd w target] by (simp add: Settled drop_step_def over_after_def)
next
  case Dispose
  assume "drop_ok over fd"
  then show ?thesis by (simp add: Dispose drop_step_def dispose_def highlight_def drop_ok_def)
qed (simp add: answered_def)

lemma drops_ok:
  "drop_ok over fd \<Longrightarrow> list_all answered evs \<Longrightarrow> drop_ok (drag_over_now over evs) (fold drop_step evs fd)"
proof (induction evs arbitrary: over fd)
  case (Cons ev evs)
  then show ?case using drop_step_ok [of over fd ev] unfolding drag_over_step by simp
qed simp

text \<open>
  When a drag over the desktop window has ended, with a drop, by leaving, or with the window, and the drops under way are
  settled, no target stays highlighted, however late the answers to earlier movements come.
\<close>

theorem highlight_ends:
  assumes "list_all answered evs" and "\<not> drag_over_now False evs"
    and "\<not> (\<exists>w \<in> set (fd_waiting (fold drop_step evs initial_drop)). \<exists>p paths. snd w = Drag_drop p paths)"
  shows "fd_highlighted (fold drop_step evs initial_drop) = None"
proof -
  have "drop_ok False initial_drop" by (simp add: drop_ok_def initial_drop_def)
  then have "drop_ok (drag_over_now False evs) (fold drop_step evs initial_drop)" using assms(1) by (rule drops_ok)
  then show ?thesis using assms(2,3) unfolding drop_ok_def by blast
qed

definition example_drag :: "(string, nat) drop_event list" where
  "example_drag = [Native (Drag_over 1), Native (Drag_drop 2 [''f'']), Settled (2, Drag_drop 2 [''f'']) (Some ''t''),
     Settled (1, Drag_over 1) (Some ''t'')]"

lemma highlight_ends_witness: "fd_highlighted (fold drop_step example_drag initial_drop) = None"
proof (rule highlight_ends)
  show "list_all answered example_drag" "\<not> drag_over_now False example_drag"
    by (simp_all add: example_drag_def answered_def)
  show "\<not> (\<exists>w \<in> set (fd_waiting (fold drop_step example_drag initial_drop)). \<exists>p paths. snd w = Drag_drop p paths)"
    by (simp add: example_drag_def drop_step_def native_event_def native_settled_def initial_drop_def highlight_def give_def Let_def)
qed

text \<open>When the size of the view cannot be read for a drop, its highlight stays.\<close>

lemma failed_drop_keeps_highlight:
  assumes "\<not> fd_disposed fd" and "fd_highlighted fd = Some target"
  shows "fd_highlighted (native_failed (n, Drag_drop p paths) e fd) = Some target"
  using assms by (simp add: native_failed_def give_def Let_def)

end
