(* ===== verification/Filter_Tab.thy ===== *)
theory Filter_Tab
  imports Filter_State Preview_Query
begin

text \<open>
  The Filter tab: \<open>preprocessing/filter/hooks/useFilterSubTabSections.tsx\<close>. The conditions are those of \<open>Filter_State\<close>,
  the preview is \<open>Preview_Query\<close>. Each asynchronous call is split at its await: a pending query with what its closure has
  captured, and the answer, which may come at any later time. The token objects of the prefills are numbers. A handler
  reads the state of the last render, which is the current one, since a change is rendered before the next event.
\<close>

subsection \<open>State\<close>

record filter_props =
  fp_existingNames :: "string list"
  fp_projectBase :: "string option"
  fp_selectedNodeId :: "string option"
  fp_selectedNode :: "string option"
  fp_columnOptions :: "column_option list"
  fp_previewEnabled :: bool

text \<open>A query for the bounds of a column, and one for its missing values.\<close>

record prefill_query =
  pq_token :: nat
  pq_base :: string
  pq_node :: string
  pq_condition :: form_condition
  pq_kind :: prefill_kind

record missing_query =
  mq_base :: string
  mq_node :: string
  mq_conditionId :: string
  mq_column :: string
  mq_key :: string

record filter_tab =
  ft_conditions :: "form_condition list"
  ft_logic :: string
  ft_newNodeName :: "string option \<times> string"
  ft_missingChecks :: "string \<rightharpoonup> string"
  ft_prefills :: "string \<rightharpoonup> nat"
  ft_search :: "string \<times> (string \<rightharpoonup> string)"
  ft_effectDeps :: "(string option \<times> string option) option"
  ft_nextToken :: nat
  ft_prefillQueries :: "prefill_query list"
  ft_missingQueries :: "missing_query list"
  ft_warnings :: "string list"
  ft_alerts :: "string list"

definition first_condition :: form_condition where
  "first_condition =
     \<lparr>fc_id = ''1'', fc_column = [], fc_operator = Eq, fc_value = V_Scalar (S_String []), fc_negate = Some False,
      fc_regex = Some False, fc_caseSensitive = Some False, fc_field = None\<rparr>"

definition zero_separator :: string where "zero_separator = [CHR 0x00]"

definition text_of :: "string option \<Rightarrow> string" where
  "text_of s = (case s of Some t \<Rightarrow> t | None \<Rightarrow> [])"

definition optionSearchScope :: "filter_props \<Rightarrow> string" where
  "optionSearchScope props = text_of (fp_projectBase props) @ zero_separator @ text_of (fp_selectedNodeId props)"

definition initial_filter_tab :: "filter_props \<Rightarrow> filter_tab" where
  "initial_filter_tab props =
     \<lparr>ft_conditions = [first_condition], ft_logic = ''and'', ft_newNodeName = (fp_selectedNodeId props, []),
      ft_missingChecks = Map.empty, ft_prefills = Map.empty, ft_search = (optionSearchScope props, Map.empty),
      ft_effectDeps = None, ft_nextToken = 0, ft_prefillQueries = [], ft_missingQueries = [], ft_warnings = [], ft_alerts = []\<rparr>"

definition effect_deps :: "filter_props \<Rightarrow> string option \<times> string option" where
  "effect_deps props = (fp_projectBase props, fp_selectedNodeId props)"

text \<open>The effect that drops the prefills of another project or block.\<close>

definition prefill_effect :: "filter_props \<Rightarrow> filter_tab \<Rightarrow> filter_tab" where
  "prefill_effect props tb =
     (if ft_effectDeps tb = Some (effect_deps props) then tb
      else tb\<lparr>ft_prefills := Map.empty, ft_effectDeps := Some (effect_deps props)\<rparr>)"

subsection \<open>The searches of the checklists\<close>

definition optionSearchQueries :: "filter_props \<Rightarrow> filter_tab \<Rightarrow> string \<rightharpoonup> string" where
  "optionSearchQueries props tb = (if fst (ft_search tb) = optionSearchScope props then snd (ft_search tb) else Map.empty)"

definition updateOptionSearchQueries ::
    "filter_props \<Rightarrow> ((string \<rightharpoonup> string) \<Rightarrow> string \<rightharpoonup> string) \<Rightarrow> filter_tab \<Rightarrow> filter_tab" where
  "updateOptionSearchQueries props f tb = tb\<lparr>ft_search := (optionSearchScope props, f (optionSearchQueries props tb))\<rparr>"

definition setOptionSearchQuery :: "filter_props \<Rightarrow> string \<Rightarrow> string \<Rightarrow> filter_tab \<Rightarrow> filter_tab" where
  "setOptionSearchQuery props ident query = updateOptionSearchQueries props (\<lambda>m. m(ident \<mapsto> query))"

definition resetOptionSearchQuery :: "filter_props \<Rightarrow> string \<Rightarrow> filter_tab \<Rightarrow> filter_tab" where
  "resetOptionSearchQuery props ident = updateOptionSearchQueries props (\<lambda>m. m(ident \<mapsto> []))"

definition removeOptionSearchQuery :: "filter_props \<Rightarrow> string \<Rightarrow> filter_tab \<Rightarrow> filter_tab" where
  "removeOptionSearchQuery props ident = updateOptionSearchQueries props (\<lambda>m. m(ident := None))"

subsection \<open>Derived values\<close>

definition availableColumns :: "filter_props \<Rightarrow> column_option list" where
  "availableColumns props = filter (\<lambda>option. co_name option \<noteq> []) (fp_columnOptions props)"

definition chosen_node :: "filter_props \<Rightarrow> string option" where
  "chosen_node props = (case fp_selectedNodeId props of Some node \<Rightarrow> if node = [] then None else Some node | None \<Rightarrow> None)"

definition filter_hasSelection :: "filter_props \<Rightarrow> bool" where
  "filter_hasSelection props \<longleftrightarrow> chosen_node props \<noteq> None"

definition isConfigDisabled :: "filter_props \<Rightarrow> bool" where
  "isConfigDisabled props \<longleftrightarrow> \<not> filter_hasSelection props \<or> availableColumns props = []"

definition newNodeName :: "filter_props \<Rightarrow> filter_tab \<Rightarrow> string" where
  "newNodeName props tb = (if fst (ft_newNodeName tb) = fp_selectedNodeId props then snd (ft_newNodeName tb) else [])"

definition setNewNodeName :: "filter_props \<Rightarrow> string \<Rightarrow> filter_tab \<Rightarrow> filter_tab" where
  "setNewNodeName props v tb = tb\<lparr>ft_newNodeName := (fp_selectedNodeId props, v)\<rparr>"

definition filter_autoName :: "(string \<Rightarrow> bool) \<Rightarrow> filter_props \<Rightarrow> string" where
  "filter_autoName word props =
     suggestDataBlockName word
       [case fp_selectedNode props of
          Some name \<Rightarrow> if trim name \<noteq> [] then name else text_of (fp_selectedNodeId props)
        | None \<Rightarrow> text_of (fp_selectedNodeId props)]
       Op_flt (fp_existingNames props)"

definition conditionsComplete :: "filter_tab \<Rightarrow> bool" where
  "conditionsComplete tb \<longleftrightarrow> ft_conditions tb \<noteq> [] \<and> list_all isConditionComplete (ft_conditions tb)"

definition filter_payload :: "filter_tab \<Rightarrow> filter_request option" where
  "filter_payload tb =
     (if conditionsComplete tb then Some (buildFilterRequestPayload (ft_conditions tb) (ft_logic tb)) else None)"

definition filter_preview :: "filter_props \<Rightarrow> filter_tab \<Rightarrow> filter_request node_preview" where
  "filter_preview props tb =
     \<lparr>np_base = fp_projectBase props, np_node = fp_selectedNodeId props, np_payload = filter_payload tb,
      np_operation = ''filter'', np_enabled = filter_hasSelection props \<and> fp_previewEnabled props\<rparr>"

definition applyButtonDisabled :: "filter_props \<Rightarrow> filter_tab \<Rightarrow> bool" where
  "applyButtonDisabled props tb \<longleftrightarrow> isConfigDisabled props \<or> \<not> conditionsComplete tb"

definition applyButtonDisabledReason :: "filter_props \<Rightarrow> filter_tab \<Rightarrow> string option" where
  "applyButtonDisabledReason props tb =
     (if \<not> filter_hasSelection props then Some ''Select a data block first''
      else if \<not> conditionsComplete tb then Some ''Set at least one complete filtering condition''
      else None)"

definition filter_readyMessage :: "filter_props \<Rightarrow> string" where
  "filter_readyMessage props =
     (if \<not> filter_hasSelection props then ''Select a data block to preview filtered results.''
      else ''Showing original data. Configure conditions to preview filtered results.'')"

text \<open>What a row of the editor offers.\<close>

definition shouldHideOperatorSelect :: "form_condition \<Rightarrow> bool" where
  "shouldHideOperatorSelect c \<longleftrightarrow>
     (case fc_field c of Some f \<Rightarrow> isArrowDictionaryField f \<or> isArrowStringListField f | None \<Rightarrow> False) \<or>
     isTopicCoverageField (fc_field c)"

definition offers_text_flags :: "form_condition \<Rightarrow> bool" where
  "offers_text_flags c \<longleftrightarrow>
     (case fc_field c of Some f \<Rightarrow> isArrowStringField f | None \<Rightarrow> False) \<and> fc_operator c = Contains"

subsection \<open>Queries on a column\<close>

definition column_bounds_sql :: "(string \<Rightarrow> string) \<Rightarrow> string \<Rightarrow> string \<Rightarrow> string" where
  "column_bounds_sql table_name node column =
     (let source = sql_identifier column
      in ''SELECT CAST(MIN('' @ source @ '') AS VARCHAR) AS minimum, CAST(MAX('' @ source @
         '') AS VARCHAR) AS maximum, CAST(MEDIAN('' @ source @ '') AS VARCHAR) AS median FROM '' @ table_name node)"

definition missing_count_sql :: "(string \<Rightarrow> string) \<Rightarrow> string \<Rightarrow> string \<Rightarrow> string" where
  "missing_count_sql table_name node column =
     ''SELECT COUNT(*) - COUNT('' @ sql_identifier column @ '') AS missing_count FROM '' @ table_name node"

text \<open>The bounds of an answer; a missing row or a null is \<open>None\<close>.\<close>

record column_bounds =
  cb_min :: "string option"
  cb_max :: "string option"
  cb_median :: "string option"

definition or_else :: "'a option \<Rightarrow> 'a option \<Rightarrow> 'a option" where
  "or_else a b = (case a of Some x \<Rightarrow> Some x | None \<Rightarrow> b)"

definition query_source :: "filter_props \<Rightarrow> (string \<times> string) option" where
  "query_source props =
     (case (chosen_node props, fp_projectBase props) of
        (Some node, Some base) \<Rightarrow> Some (base, node)
      | _ \<Rightarrow> None)"

subsection \<open>Missing values\<close>

definition warnAboutMissingValues :: "filter_props \<Rightarrow> string \<Rightarrow> string \<Rightarrow> filter_tab \<Rightarrow> filter_tab" where
  "warnAboutMissingValues props conditionId column tb =
     (case query_source props of
        None \<Rightarrow> tb
      | Some (base, node) \<Rightarrow>
          if column = [] then tb
          else let requestKey = base @ zero_separator @ node @ zero_separator @ column
            in tb\<lparr>ft_missingChecks := (ft_missingChecks tb)(conditionId \<mapsto> requestKey),
                  ft_missingQueries := ft_missingQueries tb @
                    [\<lparr>mq_base = base, mq_node = node, mq_conditionId = conditionId, mq_column = column, mq_key = requestKey\<rparr>]\<rparr>)"

definition missing_warning :: "(nat \<Rightarrow> string) \<Rightarrow> string \<Rightarrow> nat \<Rightarrow> string" where
  "missing_warning locale_text column n =
     ''Found '' @ locale_text n @ '' missing '' @ (if n = 1 then ''value'' else ''values'') @ '' in '' @
     [CHR 0xE2, CHR 0x80, CHR 0x9C] @ column @ [CHR 0xE2, CHR 0x80, CHR 0x9D]"

definition close_missing :: "missing_query \<Rightarrow> filter_tab \<Rightarrow> filter_tab" where
  "close_missing q tb = tb\<lparr>ft_missingQueries := filter (\<lambda>p. p \<noteq> q) (ft_missingQueries tb)\<rparr>"

definition missing_counted :: "(nat \<Rightarrow> string) \<Rightarrow> missing_query \<Rightarrow> nat \<Rightarrow> filter_tab \<Rightarrow> filter_tab" where
  "missing_counted locale_text q n tb =
     (if ft_missingChecks tb (mq_conditionId q) \<noteq> Some (mq_key q) \<or> n = 0 then close_missing q tb
      else (close_missing q tb)\<lparr>ft_warnings := missing_warning locale_text (mq_column q) n # ft_warnings tb\<rparr>)"

subsection \<open>Prefilled values\<close>

definition prefillValue :: "filter_props \<Rightarrow> form_condition \<Rightarrow> prefill_kind \<Rightarrow> filter_tab \<Rightarrow> filter_tab" where
  "prefillValue props c kind tb =
     (case query_source props of
        None \<Rightarrow> tb
      | Some (base, node) \<Rightarrow>
          if hasNonEmptyValue (fc_value c) then tb
          else tb
            \<lparr>ft_prefills := (ft_prefills tb)(fc_id c \<mapsto> ft_nextToken tb), ft_nextToken := Suc (ft_nextToken tb),
             ft_prefillQueries := ft_prefillQueries tb @
               [\<lparr>pq_token = ft_nextToken tb, pq_base = base, pq_node = node, pq_condition = c, pq_kind = kind\<rparr>]\<rparr>)"

definition prefilled_value :: "prefill_kind \<Rightarrow> filter_operator \<Rightarrow> column_bounds \<Rightarrow> condition_value" where
  "prefilled_value kind operator bounds =
     (if operator = Between then V_Range (cb_min bounds) (cb_max bounds)
      else if operator = Gte then V_Scalar (S_String (text_of (cb_min bounds)))
      else if operator = Lte then V_Scalar (S_String (text_of (cb_max bounds)))
      else if kind = Prefill_datetime \<and> operator = Eq
      then V_Scalar (S_String (text_of (or_else (cb_median bounds) (cb_min bounds))))
      else V_Scalar (S_String []))"

definition prefill_entry :: "filter_tab \<Rightarrow> prefill_query \<Rightarrow> column_bounds \<Rightarrow> form_condition \<Rightarrow> form_condition" where
  "prefill_entry tb q bounds current =
     (let c = pq_condition q in
      if ft_prefills tb (fc_id c) \<noteq> Some (pq_token q) \<or> fc_id current \<noteq> fc_id c \<or> fc_column current \<noteq> fc_column c \<or>
        fc_operator current \<noteq> fc_operator c \<or> hasNonEmptyValue (fc_value current)
      then current
      else current\<lparr>fc_value := prefilled_value (pq_kind q) (fc_operator current) bounds\<rparr>)"

definition close_prefill :: "prefill_query \<Rightarrow> filter_tab \<Rightarrow> filter_tab" where
  "close_prefill q tb = tb\<lparr>ft_prefillQueries := filter (\<lambda>p. p \<noteq> q) (ft_prefillQueries tb)\<rparr>"

definition prefill_answered :: "prefill_query \<Rightarrow> column_bounds \<Rightarrow> filter_tab \<Rightarrow> filter_tab" where
  "prefill_answered q bounds tb =
     (close_prefill q tb)\<lparr>ft_conditions := map (prefill_entry tb q bounds) (ft_conditions tb)\<rparr>"

subsection \<open>Handlers\<close>

definition handleAddCondition :: "filter_props \<Rightarrow> string \<Rightarrow> filter_tab \<Rightarrow> filter_tab" where
  "handleAddCondition props now tb =
     (let firstColumn = (case availableColumns props of [] \<Rightarrow> None | c # _ \<Rightarrow> Some c)
      in tb\<lparr>ft_conditions := ft_conditions tb @ [createFilterCondition now firstColumn]\<rparr>)"

definition handleRemoveCondition :: "filter_props \<Rightarrow> string \<Rightarrow> filter_tab \<Rightarrow> filter_tab" where
  "handleRemoveCondition props ident tb =
     (if length (ft_conditions tb) > 1 then
        (let removed = removeOptionSearchQuery props ident
           (tb\<lparr>ft_conditions := filter (\<lambda>c. fc_id c \<noteq> ident) (ft_conditions tb)\<rparr>)
         in removed\<lparr>ft_missingChecks := (ft_missingChecks removed)(ident := None)\<rparr>)
      else tb)"

definition replace_condition :: "string \<Rightarrow> form_condition \<Rightarrow> filter_tab \<Rightarrow> filter_tab" where
  "replace_condition ident c tb =
     tb\<lparr>ft_conditions := map (\<lambda>entry. if fc_id entry \<noteq> ident then entry else c) (ft_conditions tb)\<rparr>"

definition forget_prefill :: "string \<Rightarrow> filter_tab \<Rightarrow> filter_tab" where
  "forget_prefill ident tb = tb\<lparr>ft_prefills := (ft_prefills tb)(ident := None)\<rparr>"

definition condition_of :: "string \<Rightarrow> filter_tab \<Rightarrow> form_condition option" where
  "condition_of ident tb = find (\<lambda>c. fc_id c = ident) (ft_conditions tb)"

definition start_prefill :: "filter_props \<Rightarrow> change_result \<Rightarrow> filter_tab \<Rightarrow> filter_tab" where
  "start_prefill props r tb =
     (case (cr_prefillRequest r, query_source props) of
        (Some p, Some _) \<Rightarrow> prefillValue props (cr_condition r) (pf_kind p) tb
      | _ \<Rightarrow> tb)"

definition check_missing :: "filter_props \<Rightarrow> string \<Rightarrow> condition_edit \<Rightarrow> filter_tab \<Rightarrow> filter_tab" where
  "check_missing props ident edit tb =
     (case edit of Edit_column name \<Rightarrow> warnAboutMissingValues props ident name tb | _ \<Rightarrow> tb)"

definition handleConditionChange :: "filter_props \<Rightarrow> string \<Rightarrow> condition_edit \<Rightarrow> filter_tab \<Rightarrow> filter_tab" where
  "handleConditionChange props ident edit tb =
     (let tb = forget_prefill ident tb in
      case condition_of ident tb of
        None \<Rightarrow> tb
      | Some targetCondition \<Rightarrow>
          let r = applyFilterConditionFieldChange targetCondition edit (availableColumns props);
              changed = replace_condition ident (cr_condition r) (check_missing props ident edit tb)
          in start_prefill props r (if cr_shouldResetSearch r then resetOptionSearchQuery props ident changed else changed))"

text \<open>A call of \<open>filterNode\<close>, with the name of the request.\<close>

record filter_call =
  fl_node :: string
  fl_request :: filter_request
  fl_name :: string

definition handleApplyFilter :: "(string \<Rightarrow> bool) \<Rightarrow> filter_props \<Rightarrow> filter_tab \<Rightarrow> filter_tab \<times> filter_call option" where
  "handleApplyFilter word props tb =
     (case chosen_node props of
        None \<Rightarrow> (tb\<lparr>ft_alerts := ''Please select a data block first'' # ft_alerts tb\<rparr>, None)
      | Some node \<Rightarrow>
          if ft_conditions tb = [] \<or> list_ex (\<lambda>c. \<not> isConditionComplete c) (ft_conditions tb)
          then (tb\<lparr>ft_alerts := ''Please fill in all filter conditions'' # ft_alerts tb\<rparr>, None)
          else
            (let typed = trim (newNodeName props tb);
                 requestName = (if typed \<noteq> [] then typed else filter_autoName word props)
             in (tb, Some \<lparr>fl_node = node, fl_request = buildFilterRequestPayload (ft_conditions tb) (ft_logic tb),
                   fl_name = requestName\<rparr>)))"

definition filter_failed :: "js_error option \<Rightarrow> filter_tab \<Rightarrow> filter_tab" where
  "filter_failed e tb =
     tb\<lparr>ft_alerts := (''Error applying filter: '' @ (case e of Some x \<Rightarrow> message x | None \<Rightarrow> ''Unknown error'')) # ft_alerts tb\<rparr>"

subsection \<open>Histories of the tab\<close>

text \<open>
  The tab as it can be reached: the properties change with a commit, before which the effects of the last one have run; a
  new row has an identifier of its own, as the clock has moved on; the edits are those the form offers; and a query is
  answered, or fails, at any time.
\<close>

inductive filter_reach :: "filter_props \<Rightarrow> filter_tab \<Rightarrow> bool" where
  mount: "filter_reach props (initial_filter_tab props)"
| commit: "filter_reach props tb \<Longrightarrow> ft_effectDeps tb = Some (effect_deps props) \<Longrightarrow> filter_reach props' tb"
| effects: "filter_reach props tb \<Longrightarrow> filter_reach props (prefill_effect props tb)"
| add: "filter_reach props tb \<Longrightarrow> \<forall>c \<in> set (ft_conditions tb). fc_id c \<noteq> now \<Longrightarrow>
    \<forall>q \<in> set (ft_prefillQueries tb). fc_id (pq_condition q) \<noteq> now \<Longrightarrow> filter_reach props (handleAddCondition props now tb)"
| remove: "filter_reach props tb \<Longrightarrow> filter_reach props (handleRemoveCondition props ident tb)"
| change: "filter_reach props tb \<Longrightarrow> (\<And>c. condition_of ident tb = Some c \<Longrightarrow> offered_edit c edit) \<Longrightarrow>
    filter_reach props (handleConditionChange props ident edit tb)"
| answered: "filter_reach props tb \<Longrightarrow> q \<in> set (ft_prefillQueries tb) \<Longrightarrow> filter_reach props (prefill_answered q bounds tb)"
| failed: "filter_reach props tb \<Longrightarrow> filter_reach props (close_prefill q tb)"
| counted: "filter_reach props tb \<Longrightarrow> filter_reach props (missing_counted locale_text q n tb)"
| uncounted: "filter_reach props tb \<Longrightarrow> filter_reach props (close_missing q tb)"
| set_logic: "filter_reach props tb \<Longrightarrow> filter_reach props (tb\<lparr>ft_logic := l\<rparr>)"
| set_name: "filter_reach props tb \<Longrightarrow> filter_reach props (setNewNodeName props v tb)"
| search: "filter_reach props tb \<Longrightarrow> filter_reach props (setOptionSearchQuery props ident query tb)"
| apply_filter: "filter_reach props tb \<Longrightarrow> filter_reach props (fst (handleApplyFilter word props tb))"
| apply_failed: "filter_reach props tb \<Longrightarrow> filter_reach props (filter_failed e tb)"

text \<open>
  The invariant: conditions are well formed; a query was sent for a well-formed condition of a date or a number; tokens are
  distinct; and a query whose token is still the latest of its row meets the row as it was, and the block it was sent for.
\<close>

definition prefillable :: "form_condition \<Rightarrow> bool" where
  "prefillable c \<longleftrightarrow> wf_condition c \<and> \<not> hasNonEmptyValue (fc_value c) \<and>
     (case fc_field c of Some f \<Rightarrow> isArrowTemporalField f \<or> isArrowIntegerField f \<or> isArrowFloatField f | None \<Rightarrow> False)"

definition live :: "filter_tab \<Rightarrow> prefill_query \<Rightarrow> bool" where
  "live tb q \<longleftrightarrow> ft_prefills tb (fc_id (pq_condition q)) = Some (pq_token q)"

definition query_deps :: "prefill_query \<Rightarrow> string option \<times> string option" where
  "query_deps q = (Some (pq_base q), Some (pq_node q))"

definition queries_ok :: "filter_tab \<Rightarrow> bool" where
  "queries_ok tb \<longleftrightarrow>
     distinct (map pq_token (ft_prefillQueries tb)) \<and>
     (\<forall>q \<in> set (ft_prefillQueries tb). prefillable (pq_condition q) \<and> pq_token q < ft_nextToken tb)"

definition rows_ok :: "filter_tab \<Rightarrow> bool" where
  "rows_ok tb \<longleftrightarrow>
     (\<forall>q \<in> set (ft_prefillQueries tb). live tb q \<longrightarrow>
        (\<forall>c \<in> set (ft_conditions tb). fc_id c = fc_id (pq_condition q) \<longrightarrow> c = pq_condition q))"

definition block_ok :: "filter_props \<Rightarrow> filter_tab \<Rightarrow> bool" where
  "block_ok props tb \<longleftrightarrow>
     (ft_effectDeps tb = Some (effect_deps props) \<longrightarrow>
        (\<forall>q \<in> set (ft_prefillQueries tb). live tb q \<longrightarrow> query_deps q = effect_deps props))"

definition filter_ok :: "filter_props \<Rightarrow> filter_tab \<Rightarrow> bool" where
  "filter_ok props tb \<longleftrightarrow> (\<forall>c \<in> set (ft_conditions tb). wf_condition c) \<and> queries_ok tb \<and> rows_ok tb \<and> block_ok props tb"

lemmas filter_ok_defs = filter_ok_def queries_ok_def rows_ok_def block_ok_def live_def

text \<open>A state with the same conditions, prefills and queries keeps the invariant.\<close>

definition same_prefills :: "filter_tab \<Rightarrow> filter_tab \<Rightarrow> bool" where
  "same_prefills tb tb' \<longleftrightarrow>
     ft_conditions tb' = ft_conditions tb \<and> ft_prefills tb' = ft_prefills tb \<and> ft_nextToken tb' = ft_nextToken tb \<and>
     ft_prefillQueries tb' = ft_prefillQueries tb \<and> ft_effectDeps tb' = ft_effectDeps tb"

lemma same_prefills_ok: "same_prefills tb tb' \<Longrightarrow> filter_ok props tb \<Longrightarrow> filter_ok props tb'"
  by (simp add: same_prefills_def filter_ok_defs)

lemma search_same [simp]: "same_prefills tb (updateOptionSearchQueries props f tb)"
  by (simp add: same_prefills_def updateOptionSearchQueries_def)

lemma others_same:
  "same_prefills tb (close_missing q tb)" "same_prefills tb (missing_counted locale_text q n tb)"
  "same_prefills tb (tb\<lparr>ft_logic := l\<rparr>)" "same_prefills tb (setNewNodeName props v tb)"
  "same_prefills tb (setOptionSearchQuery props ident query tb)" "same_prefills tb (resetOptionSearchQuery props ident tb)"
  "same_prefills tb (fst (handleApplyFilter word props tb))" "same_prefills tb (filter_failed e tb)"
  "same_prefills tb (check_missing props ident edit tb)"
  by (simp_all add: same_prefills_def close_missing_def missing_counted_def setNewNodeName_def setOptionSearchQuery_def
      resetOptionSearchQuery_def updateOptionSearchQueries_def handleApplyFilter_def Let_def filter_failed_def
      check_missing_def warnAboutMissingValues_def split: option.split prod.split condition_edit.split)

lemma commit_ok: "filter_ok props tb \<Longrightarrow> ft_effectDeps tb = Some (effect_deps props) \<Longrightarrow> filter_ok props' tb"
  by (simp add: filter_ok_def block_ok_def)

lemma effect_ok: "filter_ok props tb \<Longrightarrow> filter_ok props (prefill_effect props tb)"
  by (simp add: prefill_effect_def filter_ok_defs)

lemma created_id: "fc_id (createFilterCondition now firstColumn) = now"
  by (simp add: createFilterCondition_def Let_def)

lemma add_ok:
  assumes "filter_ok props tb" and "\<forall>q \<in> set (ft_prefillQueries tb). fc_id (pq_condition q) \<noteq> now"
  shows "filter_ok props (handleAddCondition props now tb)"
  using assms by (auto simp: filter_ok_defs handleAddCondition_def Let_def wf_created created_id)

lemma remove_ok: "filter_ok props tb \<Longrightarrow> filter_ok props (handleRemoveCondition props ident tb)"
  by (simp add: handleRemoveCondition_def removeOptionSearchQuery_def updateOptionSearchQueries_def Let_def filter_ok_defs)

lemma close_ok: "filter_ok props tb \<Longrightarrow> filter_ok props (close_prefill q tb)"
  by (auto simp: filter_ok_defs close_prefill_def distinct_map_filter)

subsection \<open>An edit forgets the prefill of its row\<close>

lemma change_keeps_id: "fc_id (cr_condition (applyFilterConditionFieldChange c edit columns)) = fc_id c"
  by (simp add: applyFilterConditionFieldChange_def change_column_def change_operator_def plain_change_def Let_def
      split: condition_edit.split option.split)

lemma condition_of_Some: "condition_of ident tb = Some c \<Longrightarrow> c \<in> set (ft_conditions tb) \<and> fc_id c = ident"
  by (auto simp: condition_of_def find_Some_iff)

lemma replaced_ok:
  assumes "filter_ok props tb" and "wf_condition c" and "ft_prefills tb ident = None" and "fc_id c = ident"
  shows "filter_ok props (replace_condition ident c tb)"
    and "\<forall>e \<in> set (ft_conditions (replace_condition ident c tb)). fc_id e = fc_id c \<longrightarrow> e = c"
  using assms by (auto simp: filter_ok_defs replace_condition_def)

lemma forget_ok: "filter_ok props tb \<Longrightarrow> filter_ok props (forget_prefill ident tb)"
  by (auto simp: filter_ok_defs forget_prefill_def)

text \<open>The condition a change leaves, when it asks for a prefill.\<close>

lemma prefill_request_field:
  "getPrefillRequest ident field column operator = Some p \<Longrightarrow>
   \<exists>f. field = Some f \<and> (isArrowTemporalField f \<or> isArrowIntegerField f \<or> isArrowFloatField f)"
  by (auto simp: getPrefillRequest_def split: option.split_asm if_split_asm)

lemma request_prefillable:
  assumes "cr_prefillRequest (applyFilterConditionFieldChange c edit columns) = Some p"
    and "wf_condition (cr_condition (applyFilterConditionFieldChange c edit columns))"
    and "\<not> hasNonEmptyValue (fc_value (cr_condition (applyFilterConditionFieldChange c edit columns)))"
  shows "prefillable (cr_condition (applyFilterConditionFieldChange c edit columns))"
  using assms
  by (auto simp: prefillable_def applyFilterConditionFieldChange_def change_column_def change_operator_def plain_change_def
      Let_def dest!: prefill_request_field split: condition_edit.split_asm option.split_asm)

lemma source_deps: "query_source props = Some (base, node) \<Longrightarrow> effect_deps props = (Some base, Some node)"
  by (auto simp: query_source_def chosen_node_def effect_deps_def split: option.split_asm if_split_asm)

lemma prefill_sent_ok:
  assumes ok: "filter_ok props tb" and c: "\<not> hasNonEmptyValue (fc_value c) \<Longrightarrow> prefillable c"
    and rows: "\<forall>e \<in> set (ft_conditions tb). fc_id e = fc_id c \<longrightarrow> e = c"
  shows "filter_ok props (prefillValue props c kind tb)"
proof -
  have old: "\<forall>q \<in> set (ft_prefillQueries tb). pq_token q \<noteq> ft_nextToken tb \<and> pq_token q < Suc (ft_nextToken tb)"
    using ok by (auto simp: filter_ok_def queries_ok_def)
  then have new: "ft_nextToken tb \<notin> pq_token ` set (ft_prefillQueries tb)" by auto
  show ?thesis using assms old new
    by (auto simp: filter_ok_defs prefillValue_def query_deps_def dest: source_deps split: option.split)
qed

lemma started_ok:
  assumes "filter_ok props tb" and "r = applyFilterConditionFieldChange c edit columns" and "wf_condition (cr_condition r)"
    and "\<forall>e \<in> set (ft_conditions tb). fc_id e = fc_id (cr_condition r) \<longrightarrow> e = cr_condition r"
  shows "filter_ok props (start_prefill props r tb)"
  using assms request_prefillable prefill_sent_ok by (simp add: start_prefill_def split: option.split)

lemma change_ok:
  assumes ok: "filter_ok props tb" and offered: "\<And>c. condition_of ident tb = Some c \<Longrightarrow> offered_edit c edit"
  shows "filter_ok props (handleConditionChange props ident edit tb)"
proof -
  let ?t = "forget_prefill ident tb"
  have t: "filter_ok props ?t" "ft_prefills ?t ident = None" "condition_of ident ?t = condition_of ident tb"
    using ok forget_ok by (auto simp: forget_prefill_def condition_of_def)
  show ?thesis
  proof (cases "condition_of ident tb")
    case None
    then show ?thesis using t by (simp add: handleConditionChange_def)
  next
    case (Some c)
    let ?r = "applyFilterConditionFieldChange c edit (availableColumns props)"
    let ?c = "check_missing props ident edit ?t"
    let ?k = "replace_condition ident (cr_condition ?r) ?c"
    let ?s = "if cr_shouldResetSearch ?r then resetOptionSearchQuery props ident ?k else ?k"
    have c: "wf_condition c" "fc_id c = ident" using ok condition_of_Some [OF Some] by (auto simp: filter_ok_def)
    then have wf: "wf_condition (cr_condition ?r)" and ident: "fc_id (cr_condition ?r) = ident"
      using wf_edited [OF _ offered [OF Some]] change_keeps_id by auto
    have checked: "filter_ok props ?c" "ft_prefills ?c ident = None"
      using same_prefills_ok [OF others_same(9) t(1)] others_same(9) [of ?t props ident edit] t(2)
      by (simp_all add: same_prefills_def)
    note replaced = replaced_ok [OF checked(1) wf checked(2) ident]
    have "same_prefills ?k ?s" using others_same(6) by (simp add: same_prefills_def)
    then have "filter_ok props ?s" "\<forall>e \<in> set (ft_conditions ?s). fc_id e = fc_id (cr_condition ?r) \<longrightarrow> e = cr_condition ?r"
      using replaced same_prefills_ok by (auto simp: same_prefills_def)
    then have "filter_ok props (start_prefill props ?r ?s)" using wf by (intro started_ok) auto
    then show ?thesis using t(3) Some by (simp add: handleConditionChange_def Let_def)
  qed
qed

subsection \<open>An answer fills the row it was asked for\<close>

lemma prefillable_not_topic: "prefillable c \<Longrightarrow> \<not> isTopicCoverageField (fc_field c)"
  by (cases "fc_value c") (auto simp: prefillable_def wf_condition_def value_fits_def)

lemma in_operator_types: "In \<in> set (getOperatorsForField (Some f)) \<Longrightarrow> isArrowDictionaryField f \<or> isArrowStringListField f"
  by (auto simp: getOperatorsForField_def split: if_split_asm)

lemma checklist_not_prefilled:
  "isArrowTemporalField f \<or> isArrowIntegerField f \<or> isArrowFloatField f \<Longrightarrow>
   \<not> isArrowDictionaryField f \<and> \<not> isArrowStringListField f"
  by (cases "field_type f") (simp_all add: isArrowTemporalField_def isArrowIntegerField_def isArrowFloatField_def
      isArrowDictionaryField_def isArrowStringListField_def isTimestampType_def arrowListChild_def)

lemma prefillable_not_in: "prefillable c \<Longrightarrow> fc_operator c \<noteq> In"
  using in_operator_types checklist_not_prefilled by (fastforce simp: prefillable_def wf_condition_def split: option.split_asm)

lemma prefilled_wf: "prefillable c \<Longrightarrow> wf_condition (c\<lparr>fc_value := prefilled_value kind (fc_operator c) bounds\<rparr>)"
  using prefillable_not_topic [of c] prefillable_not_in [of c]
  by (auto simp: prefillable_def wf_condition_def value_fits_def prefilled_value_def)

lemma filled_row:
  assumes "filter_ok props tb" and "q \<in> set (ft_prefillQueries tb)" and "c \<in> set (ft_conditions tb)"
    and "prefill_entry tb q bounds c \<noteq> c"
  shows "live tb q" and "c = pq_condition q" and "\<not> hasNonEmptyValue (fc_value c)"
proof -
  show live: "live tb q" and "\<not> hasNonEmptyValue (fc_value c)"
    using assms(4) by (auto simp: prefill_entry_def live_def Let_def split: if_split_asm)
  have "fc_id c = fc_id (pq_condition q)" using assms(4) by (auto simp: prefill_entry_def Let_def split: if_split_asm)
  then show "c = pq_condition q" using live assms(1-3) by (auto simp: filter_ok_def rows_ok_def)
qed

lemma entry_wf:
  assumes "filter_ok props tb" and "q \<in> set (ft_prefillQueries tb)" and "c \<in> set (ft_conditions tb)"
  shows "wf_condition (prefill_entry tb q bounds c)"
proof (cases "prefill_entry tb q bounds c = c")
  case True
  then show ?thesis using assms by (simp add: filter_ok_def)
next
  case False
  then have "c = pq_condition q" using assms filled_row by blast
  moreover have "prefillable (pq_condition q)" using assms by (simp add: filter_ok_def queries_ok_def)
  moreover have "prefill_entry tb q bounds c = c\<lparr>fc_value := prefilled_value (pq_kind q) (fc_operator c) bounds\<rparr>"
    using False by (simp add: prefill_entry_def Let_def split: if_split_asm)
  ultimately show ?thesis using prefilled_wf by simp
qed

lemma entry_id: "fc_id (prefill_entry tb q bounds c) = fc_id c"
  by (simp add: prefill_entry_def Let_def)

lemma other_row_kept:
  assumes "filter_ok props tb" and "q \<in> set (ft_prefillQueries tb)" and "p \<in> set (ft_prefillQueries tb)" and "p \<noteq> q"
    and "live tb p" and "c \<in> set (ft_conditions tb)" and "fc_id c = fc_id (pq_condition p)"
  shows "prefill_entry tb q bounds c = pq_condition p"
proof -
  have p: "c = pq_condition p" using assms by (auto simp: filter_ok_def rows_ok_def)
  have "pq_token p \<noteq> pq_token q" using assms(1-4) by (auto simp: filter_ok_def queries_ok_def distinct_map dest: inj_onD)
  then have "ft_prefills tb (fc_id (pq_condition q)) \<noteq> Some (pq_token q) \<or> fc_id c \<noteq> fc_id (pq_condition q)"
    using assms(5) p by (auto simp: live_def)
  then have "prefill_entry tb q bounds c = c" by (auto simp: prefill_entry_def Let_def)
  then show ?thesis using p by simp
qed

lemma answered_ok:
  assumes "filter_ok props tb" and "q \<in> set (ft_prefillQueries tb)"
  shows "filter_ok props (prefill_answered q bounds tb)"
proof -
  have "rows_ok (prefill_answered q bounds tb)"
    using other_row_kept [OF assms] unfolding rows_ok_def live_def
    by (auto simp: prefill_answered_def close_prefill_def entry_id live_def)
  moreover have "\<forall>c \<in> set (ft_conditions (prefill_answered q bounds tb)). wf_condition c"
    using entry_wf [OF assms] by (auto simp: prefill_answered_def)
  moreover have "queries_ok (prefill_answered q bounds tb)" "block_ok props (prefill_answered q bounds tb)"
    using close_ok [OF assms(1), of q]
    by (simp_all add: filter_ok_defs prefill_answered_def)
  ultimately show ?thesis by (simp add: filter_ok_def)
qed

lemma initial_filter_ok: "filter_ok props (initial_filter_tab props)"
proof -
  have "wf_condition first_condition" by code_simp
  then show ?thesis by (simp add: filter_ok_defs initial_filter_tab_def)
qed

lemma filter_reach_ok: "filter_reach props tb \<Longrightarrow> filter_ok props tb"
  by (induction rule: filter_reach.induct)
    (auto intro: initial_filter_ok commit_ok effect_ok add_ok remove_ok change_ok answered_ok close_ok
      same_prefills_ok [OF others_same(1)] same_prefills_ok [OF others_same(2)] same_prefills_ok [OF others_same(3)]
      same_prefills_ok [OF others_same(4)] same_prefills_ok [OF others_same(5)] same_prefills_ok [OF others_same(7)]
      same_prefills_ok [OF others_same(8)])

subsection \<open>Properties of the tab\<close>

text \<open>
  C32: a prefill never overwrites an edit. In any history of the tab in which the effects of the last commit have run, a row
  the answer of a bounds query changes is exactly as it was when the query was sent, with no value, and the query was
  sent for the project and the block that are shown; only the value of the row changes.
\<close>

theorem prefill_leaves_edits:
  assumes reach: "filter_reach props tb" and effects: "ft_effectDeps tb = Some (effect_deps props)"
    and query: "q \<in> set (ft_prefillQueries tb)" and row: "i < length (ft_conditions tb)"
    and changed: "ft_conditions (prefill_answered q bounds tb) ! i \<noteq> ft_conditions tb ! i"
  shows "ft_conditions tb ! i = pq_condition q \<and> \<not> hasNonEmptyValue (fc_value (ft_conditions tb ! i)) \<and>
    fp_projectBase props = Some (pq_base q) \<and> fp_selectedNodeId props = Some (pq_node q) \<and>
    ft_conditions (prefill_answered q bounds tb) ! i =
      (ft_conditions tb ! i)\<lparr>fc_value := prefilled_value (pq_kind q) (fc_operator (pq_condition q)) bounds\<rparr>"
proof -
  have ok: "filter_ok props tb" using reach by (rule filter_reach_ok)
  have new: "ft_conditions (prefill_answered q bounds tb) ! i = prefill_entry tb q bounds (ft_conditions tb ! i)"
    using row by (simp add: prefill_answered_def)
  note filled = filled_row [OF ok query nth_mem [OF row] changed [unfolded new]]
  have "query_deps q = effect_deps props" using ok effects query filled(1) by (simp add: filter_ok_def block_ok_def)
  then have "fp_projectBase props = Some (pq_base q) \<and> fp_selectedNodeId props = Some (pq_node q)"
    by (simp add: query_deps_def effect_deps_def)
  moreover have "prefill_entry tb q bounds (ft_conditions tb ! i) =
      (ft_conditions tb ! i)\<lparr>fc_value := prefilled_value (pq_kind q) (fc_operator (pq_condition q)) bounds\<rparr>"
    using changed filled(2) by (simp add: new prefill_entry_def Let_def split: if_split_asm)
  ultimately show ?thesis using filled(2,3) new by simp
qed

definition example_filter_props :: filter_props where
  "example_filter_props =
     \<lparr>fp_existingNames = [], fp_projectBase = Some ''p'', fp_selectedNodeId = Some ''b'', fp_selectedNode = Some ''News'',
      fp_columnOptions = [\<lparr>co_name = ''d'', co_field = Field ''d'' Arrow_Date []\<rparr>], fp_previewEnabled = True\<rparr>"

definition example_filter_tab :: filter_tab where
  "example_filter_tab =
     handleConditionChange example_filter_props ''1'' (Edit_column ''d'')
       (prefill_effect example_filter_props (initial_filter_tab example_filter_props))"

definition example_bounds :: column_bounds where
  "example_bounds = \<lparr>cb_min = Some ''2001-01-01'', cb_max = Some ''2002-01-01'', cb_median = None\<rparr>"

lemma example_filter_reach: "filter_reach example_filter_props example_filter_tab"
  unfolding example_filter_tab_def by (intro filter_reach.change filter_reach.effects filter_reach.mount) simp

lemma example_filter_effects: "ft_effectDeps example_filter_tab = Some (effect_deps example_filter_props)"
  by code_simp

definition example_prefill :: prefill_query where
  "example_prefill = hd (ft_prefillQueries example_filter_tab)"

lemma example_filter_rows:
  "map fc_value (ft_conditions example_filter_tab) = [V_Scalar (S_String [])]"
  "map pq_token (ft_prefillQueries example_filter_tab) = [0]"
  by code_simp+

lemma example_filter_filled:
  "map (\<lambda>c. (fc_column c, fc_operator c, fc_value c))
     (map (prefill_entry example_filter_tab example_prefill example_bounds) (ft_conditions example_filter_tab)) =
     [(''d'', Gte, V_Scalar (S_String ''2001-01-01''))]"
  by code_simp

lemma example_filter_complete:
  "list_all isConditionComplete
     (map (prefill_entry example_filter_tab example_prefill example_bounds) (ft_conditions example_filter_tab))"
proof -
  have date: "trim ''2001-01-01'' = ''2001-01-01''" by (rule trim_graphic) (simp_all add: graphic_char_def)
  obtain c where c: "map (prefill_entry example_filter_tab example_prefill example_bounds) (ft_conditions example_filter_tab) = [c]"
    "fc_column c = ''d''" "fc_operator c = Gte" "fc_value c = V_Scalar (S_String ''2001-01-01'')"
    using example_filter_filled by auto
  then show ?thesis using date by (simp add: isConditionComplete_def)
qed

lemma example_prefill_sent: "example_prefill \<in> set (ft_prefillQueries example_filter_tab)"
  using example_filter_rows(2) by (auto simp: example_prefill_def)

lemma example_filter_row: "0 < length (ft_conditions example_filter_tab)"
  using example_filter_rows(1) by auto

lemma example_filter_changed:
  "ft_conditions (prefill_answered example_prefill example_bounds example_filter_tab) ! 0 \<noteq> ft_conditions example_filter_tab ! 0"
proof -
  obtain c where c: "ft_conditions example_filter_tab = [c]" "fc_value c = V_Scalar (S_String [])"
    using example_filter_rows(1) by auto
  then have "fc_value (prefill_entry example_filter_tab example_prefill example_bounds c) = V_Scalar (S_String ''2001-01-01'')"
    using example_filter_filled by simp
  then show ?thesis using c by (auto simp: prefill_answered_def)
qed

lemma prefill_leaves_edits_witness:
  "ft_conditions example_filter_tab ! 0 = pq_condition example_prefill \<and> pq_node example_prefill = ''b''"
  using prefill_leaves_edits [OF example_filter_reach example_filter_effects example_prefill_sent example_filter_row
      example_filter_changed]
  by (simp add: example_filter_props_def)

text \<open>
  C31: an enabled Apply button works. Whatever the history of the tab, with prefills and edits in any order, when the button
  is enabled the handler sends one request, with a name, for the selected block; it is the request the preview shows; and
  a filter statement is generated for it.
\<close>

theorem enabled_filter_renders:
  assumes reach: "filter_reach props tb" and enabled: "\<not> applyButtonDisabled props tb"
  shows "\<exists>call sql. handleApplyFilter word props tb = (tb, Some call) \<and> fp_selectedNodeId props = Some (fl_node call) \<and>
    fl_name call \<noteq> [] \<and> np_payload (filter_preview props tb) = Some (fl_request call) \<and>
    filterSelect (fl_request call) = Inr sql"
proof -
  obtain node where node: "chosen_node props = Some node" "fp_selectedNodeId props = Some node"
    using enabled by (auto simp: applyButtonDisabled_def isConfigDisabled_def filter_hasSelection_def chosen_node_def
        split: option.split_asm if_split_asm)
  have complete: "conditionsComplete tb" using enabled by (simp add: applyButtonDisabled_def)
  have some: "ft_conditions tb \<noteq> []" and every: "\<not> list_ex (\<lambda>c. \<not> isConditionComplete c) (ft_conditions tb)"
    and all: "\<forall>c \<in> set (ft_conditions tb). isConditionComplete c"
    using complete by (auto simp: conditionsComplete_def list_all_iff list_ex_iff)
  have "\<forall>c \<in> set (ft_conditions tb). wf_condition c \<and> isConditionComplete c"
    using filter_reach_ok [OF reach] all by (auto simp: filter_ok_def)
  then obtain sql where sql: "filterSelect (buildFilterRequestPayload (ft_conditions tb) (ft_logic tb)) = Inr sql"
    using complete_list_renders [OF some] by blast
  have name: "filter_autoName word props \<noteq> []" by (simp add: filter_autoName_def suggestDataBlockName_def Let_def)
  show ?thesis using node complete some every name sql
    by (auto simp: handleApplyFilter_def Let_def filter_preview_def filter_payload_def)
qed

definition example_answered :: filter_tab where
  "example_answered = prefill_answered example_prefill example_bounds example_filter_tab"

lemma enabled_filter_renders_witness:
  "\<exists>call. handleApplyFilter (\<lambda>_. True) example_filter_props example_answered = (example_answered, Some call)"
proof -
  have reach: "filter_reach example_filter_props example_answered"
    unfolding example_answered_def by (intro filter_reach.answered example_filter_reach example_prefill_sent)
  have "\<not> applyButtonDisabled example_filter_props example_answered"
    using example_filter_complete example_filter_row
    by (simp add: applyButtonDisabled_def conditionsComplete_def example_answered_def prefill_answered_def isConfigDisabled_def
        filter_hasSelection_def chosen_node_def availableColumns_def example_filter_props_def)
  then show ?thesis using enabled_filter_renders [OF reach] by blast
qed

text \<open>
  The check for missing values has no such effect: a count asked for another block is still reported, since the keys of the
  checks outlive the block.
\<close>

lemma late_warning_shown:
  assumes "ft_missingChecks tb (mq_conditionId q) = Some (mq_key q)" and "n \<noteq> 0"
  shows "ft_warnings (missing_counted locale_text q n (prefill_effect props' tb)) =
    missing_warning locale_text (mq_column q) n # ft_warnings tb"
  using assms by (simp add: missing_counted_def prefill_effect_def close_missing_def)

text \<open>A schema without columns disables Apply although no reason is given for it.\<close>

lemma no_columns_gives_no_reason:
  assumes "filter_hasSelection props" and "availableColumns props = []" and "conditionsComplete tb"
  shows "applyButtonDisabled props tb \<and> applyButtonDisabledReason props tb = None"
  using assms by (simp add: applyButtonDisabled_def isConfigDisabled_def applyButtonDisabledReason_def)

end
