(* ===== verification/Spec2Isabelle.thy ===== *)
theory Spec2Isabelle
  imports Build_Draft Builder_Laws Editor_Laws Grouping_Laws Slice_Form Filter_State Project_Renames Console Deletion
    Node_Inputs Join_Mappings Glob Pagination Tab_Strip Comparison Splits Column_Edits
    Query_Refresh Requests Build_Types Table_Edits Tasks Connections Dispersion Transport
    Topic_Graph Row_Detail Preferences Build_Drag Frequency_Settings Split_Pane Plot_Laws
    Topic_Preview Slice_Tab Graph_Layout Filter_Options Plot_Scope File_Drop Filter_Tab
begin

text \<open>
  A verification of the core of LDaCA Wordflow, the text-analysis workbench whose frontend lives in
  \<open>src/frontend/src\<close>. The frontend keeps the state of a project window and turns what the user builds
  into SQL that the native host runs on DuckDB. The definitions follow the TypeScript sources; strings
  are lists of UTF-8 bytes, except in wildcard search, where the source's regular expressions work on
  UTF-16 code units, so these are 16-bit words.

  \<^bold>\<open>How the parts interact.\<close> The preprocessing tools (Build, Filter, Sample, Join, Stack, Group and the
  data editor) compile a form or an expression tree to statements over quoted names
  (\<open>features/tools/preprocessing\<close>, \<open>features/project/data-editor\<close>). They take their blocks from the
  window's stores (selection, pins, tool inputs, table views, canvas, preview), name their results with
  the automatic names, and read results as Arrow tables. Analysis tools keep drafts of their requests in
  one store each. When the host reports that objects were renamed, one reconciliation renames them in
  every store and every draft. The interface pieces (tab strip, sidebar, page ranges, column dialogs)
  are state machines between pointer events and requests.

  \<^bold>\<open>The language.\<close> \<open>Prelude\<close>: thrown errors as a sum type, throwing maps and folds, inherited object
  properties, \<open>trim\<close>, case folding, sets of values. \<open>Sorting\<close>: stable sorting by a comparison. \<open>Js_Number\<close>: doubles as exact rationals with rounding and printing.
  \<open>Js_Value\<close>: plain data. \<open>Json_Text\<close>: \<open>JSON.stringify\<close> and \<open>JSON.parse\<close> of string arrays, with their
  round trip. \<open>Sql_Text\<close>: a scanner for the lexical structure of SQL that is independent of the
  code; a text is closed when it leaves the scanner outside every literal, identifier and parenthesis.

  \<^bold>\<open>SQL generation.\<close> \<open>Objects\<close> (\<open>objects.ts\<close>) and \<open>Names\<close> (\<open>automaticNames.ts\<close>): keys, quoted identifiers
  and free names. \<open>Sql_Builders\<close> and \<open>Builder_Laws\<close> (\<open>preprocessing/sql.ts\<close>): literals, predicates and
  the statements of the tools; every statement is closed whatever the names and values are, quoting is
  read back exactly, the columns of a join are distinct. \<open>Join_Mappings\<close>: each output column of a join is
  traced to the input it is selected from. \<open>Operations\<close> and \<open>Operation_Laws\<close> (\<open>build/operations.ts\<close>): the
  catalogue of 62 operations, with declared syntax equal to printed SQL and applicable defaults.
  \<open>Build_Model\<close>, \<open>Build_Laws\<close> (\<open>buildExpressionModel.ts\<close>): strict translation and tolerant inspection,
  their agreement, closed SQL, one summary per path; \<open>Build_Types\<close>: a typing relation that the strict
  translation is sound and complete for. \<open>Expression_Tree\<close>, \<open>Build_Draft\<close>: tree edits keep the
  tokens, and the Build tab sends a request exactly when it gives no reason against it. \<open>Tree_Moves\<close> and
  \<open>Build_Drag\<close> (\<open>useBuildBuilderDrag.ts\<close>): dragging in the builder with pointer and keyboard; a drop lands in
  its gap. \<open>Editor\<close> and
  \<open>Editor_Laws\<close> (\<open>data-editor/expressions.ts\<close>): every tool of the data editor, closed SQL, new columns,
  templates read back. \<open>Grouping\<close> and \<open>Grouping_Laws\<close> (\<open>grouping/sql.ts\<close>): aggregation and
  de-duplication with fresh working columns. \<open>Slice_Form\<close> and \<open>Filter_State\<close>: the two forms, their
  reachable states and what they serialise.

  \<^bold>\<open>State of the window.\<close> \<open>Stores\<close>: the zustand stores, with invariants by rule induction over their
  actions. \<open>Draft_Store\<close>: the draft store of a tool; its locale \<open>draft_keys\<close> states what a renaming needs
  of the keys and is interpreted on the JSON keys of the code, and again for plot and frequency drafts in
  \<open>Tool_Drafts\<close>. \<open>References\<close>, \<open>Tool_Draft_Laws\<close>, \<open>Project_Renames\<close>: renames of blocks and columns in
  requests, in all drafts, and in all stores, each applied once. \<open>Node_Inputs\<close>: resolution and limits of
  tool inputs. \<open>Console\<close>: the SQL console's runner as a step relation over events, with one live
  run per cell and the latest preview winning. \<open>Deletion\<close>: the closure loop of dependent objects
  terminates with the reachable set; its measure is the number of unselected objects. \<open>Arrow\<close>: table
  decoding. \<open>Query_Refresh\<close> (\<open>projectChanges.ts\<close>, \<open>savedAnalysis.ts\<close>): a change refreshes every affected
  query once, and cleared output does not come back with a late read; the query library is not modelled,
  so what its cache holds is an argument and what the code asks of it a list of commands. \<open>Requests\<close>
  (\<open>analysisRequest.ts\<close>): default, restored and matching requests. \<open>Tasks\<close> (\<open>useNativeTasks.ts\<close>): task
  snapshots and project changes as they arrive; the refresh loop is split at its awaits, no accepted
  change is lost and every task is reported once. \<open>Connections\<close> (\<open>server/events.ts\<close>): the event streams
  the window shares, on a heap of connection objects. \<open>Transport\<close> (\<open>api/http.ts\<close>, \<open>api/client.ts\<close>,
  \<open>server/account.ts\<close>): URLs that decode to what they were built from, and provider keys that stay with
  their account. \<open>Preferences\<close> (\<open>preferences/preferences.ts\<close>): the chain of reads and patches against a
  host that others change too; the window follows the host. \<open>Frequency_Settings\<close> (\<open>frequencySettings.ts\<close>): the
  optimistic saves of a frequency tab keep every change in order.

  \<^bold>\<open>Interface state machines and statistics.\<close> \<open>Tab_Strip\<close> (\<open>components/tabs\<close>, \<open>tools/common/Tabs.tsx\<close>): the
  geometry of the row, dragging, renaming and the cached list; a dropped order is a permutation and the
  reordered cache shows it. \<open>Splits\<close> (\<open>useStackedSplits.ts\<close>): resizing conserves the space of a pair of
  sections. \<open>Column_Edits\<close> (\<open>useColumnMutations.ts\<close>): casts, renames and deletions with requests in
  flight; a cast stays with the table it was asked for. \<open>Table_Edits\<close> (\<open>useTableEditing.ts\<close>): the draft
  of an edited table over the pages of its snapshot, the rows shown, and what Save sends. \<open>Pagination\<close>: page ranges. \<open>Glob\<close>
  (\<open>topicSearch.ts\<close>, \<open>wildcardFilter.ts\<close>): compiled patterns mean what the query shows. \<open>Comparison\<close>
  (\<open>pageComparison.ts\<close>): the agreement statistics equal the textbook coefficients. \<open>Dispersion\<close>
  (\<open>concordanceDispersionModel.ts\<close>): hits are binned, summed into series and charted without loss.
  \<open>Topic_Graph\<close> (\<open>topicModelingGraph.ts\<close>): bubbles on the plane, an even-odd lasso, and labels that never
  overlap while every hovered or selected topic has one; the bound on the attempts is proved by counting.
  \<open>Row_Detail\<close> (\<open>useRowDetailDialog.ts\<close>): the search for the next row across empty and failing pages ends.
  \<open>Split_Pane\<close> (\<open>useResizableSplit.ts\<close>): dragging and resizing a pane, with the saves of its size.
  \<open>Plot_Text\<close>, \<open>Plot_Model\<close> and \<open>Plot_Laws\<close> (\<open>tools/plots/plotModel.ts\<close>): the data of the five kinds of plots.
  Wrapped labels are complete, axes of large integers are exact, percentages are of the whole whatever is hidden,
  calendars never overlap, and the flows of a Sankey diagram run forward between its nodes.
  \<open>Plot_Scope\<close> (\<open>PlotResults.tsx\<close>, \<open>plotContext.ts\<close>): selecting, and publications that count what the legend
  counts. \<open>File_Drop\<close> (\<open>useProjectFileDrop.ts\<close>): no target stays highlighted after a drag.
  \<open>Preview_Stream\<close> and \<open>Topic_Preview\<close> (\<open>topic-modeling/api.ts\<close>, \<open>useTopicPreview.ts\<close>): the event stream of a
  preview does not depend on its chunks, and one preview is fitted at a time. \<open>Preview_Query\<close>
  (\<open>usePreprocessingPreview.ts\<close>) and \<open>Slice_Tab\<close> (\<open>useSliceSubTab.ts\<close>): the rows shown belong to the request, and the
  Sample tab applies what it previews. \<open>Filter_Tab\<close> (\<open>useFilterSubTabSections.tsx\<close>): the Filter tab with the queries it has
  under way; an enabled Apply generates its statement, and a prefill never overwrites an edit. \<open>Filter_Options\<close> (\<open>useFilterCategoricalOptionQuery.ts\<close>): the values offered are
  those of the pages kept. \<open>Graph_Layout\<close> (\<open>graphLayout.ts\<close>): one fresh source above all roots.

  \<^bold>\<open>Parameters and bounds.\<close> Unicode case mapping and property classes, \<open>localeCompare\<close>, the names of Arrow
  types, the measurements of the layout engine and the service's answers are arguments of the
  definitions. No definition needs fuel: recursion is structural or has a measure. Widths, ratios and
  agreement coefficients are exact rationals; the rounding of double arithmetic is modelled only where
  the code depends on it (number parsing, printing and the limits of the forms). An asynchronous function
  is two definitions, up to its await and after it, and runs interleave them with all other events.

  \<^bold>\<open>Findings.\<close> A column named like a member of \<open>Object.prototype\<close> makes an aggregation throw
  (\<open>Grouping\<close>); an unsafe offset enables Apply although rendering throws (\<open>Slice_Form\<close>); a second pointer
  strands a tab drag (\<open>Tab_Strip\<close>); a finished column rename closes another column's editor
  (\<open>Column_Edits\<close>); a path value of dots only is not encoded (\<open>Transport\<close>); a resize that is
  undone while its save is under way stays stored (\<open>Split_Pane\<close>); an invalid offset disables the Sample
  tab without a reason (\<open>Slice_Tab\<close>); the first values of a checklist vanish with the fifth page
  (\<open>Filter_Options\<close>); a drop whose point cannot be read keeps its highlight (\<open>File_Drop\<close>); a
  count of missing values is reported after its block was left, and a block without columns disables the Filter tab without a
  reason (\<open>Filter_Tab\<close>).

  \<^bold>\<open>Not modelled.\<close> React rendering, effects, focus and query plumbing; the generated API client; the
  native host, server and desktop shell, which are Rust; the options that only style a chart of
  echarts; the layout algorithm of dagre; the retired frontend under \<open>archive\<close>. The remaining hooks of the tools
  wrap a query or a mutation of the query library around one request.
\<close>

end
